(* ===== verification/Go_Prelude.thy ===== *)
theory Go_Prelude
  imports Main "HOL-Library.Word" "HOL-Library.AList"
begin

text \<open>
  Shared vocabulary of the development: the machine types of Go as words, Go's byte
  strings, Go's error returns, the bounded integer conversions and the big-endian
  byte order of \<^verbatim>\<open>encoding/binary\<close>, with the generic lemmas the components rest on.
\<close>

unbundle bit_operations_syntax

section \<open>Types\<close>

type_synonym byte = "8 word"
type_synonym bytes = "byte list"
type_synonym int8 = "8 word"
type_synonym int16 = "16 word"
type_synonym int32 = "32 word"
type_synonym int64 = "64 word"
type_synonym uint8 = "8 word"
type_synonym uint16 = "16 word"
type_synonym uint32 = "32 word"
type_synonym uint64 = "64 word"

text \<open>A Go string is an immutable sequence of bytes.\<close>

type_synonym gostring = bytes

text \<open>
  Collections used by the component proofs: \<open>go_conv\<close> holds facts on integer
  conversions, \<open>reader_simps\<close> the behaviour of the primitive reader operations.
\<close>

named_theorems go_conv
named_theorems reader_simps

section \<open>Integer conversions\<close>

text \<open>
  Go's conversion to a narrower integer type truncates (\<open>ucast\<close> on words) and the
  conversion of a signed value to a wider type extends the sign (\<open>scast\<close>). A value that
  fits in the narrow type survives the round trip.
\<close>

lemma uint_take_bit_sint: "take_bit LENGTH('a) (sint (d :: 'a::len word)) = uint d"
  by transfer (simp add: take_bit_signed_take_bit)

lemma sint_ucast_small:
  fixes d :: "'a::len word"
  assumes len: "LENGTH('b::len) \<le> LENGTH('a)"
    and lo: "- (2 ^ (LENGTH('b) - 1)) \<le> sint d" and hi: "sint d < 2 ^ (LENGTH('b) - 1)"
  shows "sint (ucast d :: 'b word) = sint d"
proof -
  have "sint (ucast d :: 'b word) = signed_take_bit (LENGTH('b) - 1) (uint d)"
    using len by (simp add: signed_ucast_eq)
  also have "\<dots> = signed_take_bit (LENGTH('b) - 1) (take_bit LENGTH('a) (sint d))"
    by (simp add: uint_take_bit_sint)
  also have "\<dots> = signed_take_bit (LENGTH('b) - 1) (sint d)"
    using len by (simp add: signed_take_bit_take_bit)
  also have "\<dots> = sint d"
    using lo hi by (simp add: signed_take_bit_int_eq_self)
  finally show ?thesis .
qed

lemma scast_ucast_small:
  fixes d :: "'a::len word"
  assumes "LENGTH('b::len) \<le> LENGTH('a)"
    and "- (2 ^ (LENGTH('b) - 1)) \<le> sint d" and "sint d < 2 ^ (LENGTH('b) - 1)"
  shows "scast (ucast d :: 'b word) = d"
  using sint_ucast_small [OF assms] by (simp add: scast_eq)

lemma sint_word_of_int_small:
  assumes "- (2 ^ (LENGTH('a::len) - 1)) \<le> n" and "n < 2 ^ (LENGTH('a) - 1)"
  shows "sint (word_of_int n :: 'a word) = n"
  using assms by (simp add: sint_sbintrunc' signed_take_bit_int_eq_self)

section \<open>Big-endian byte order\<close>

text \<open>\<^verbatim>\<open>binary.BigEndian.PutUint16\<close> and its 32 and 64 bit companions, on a slice of
  exactly the right length; \<^verbatim>\<open>BigEndian.Uint16\<close> and companions read it back.\<close>

definition PutUint16 :: "uint16 \<Rightarrow> bytes" where
  "PutUint16 v = [ucast (drop_bit 8 v), ucast v]"

definition PutUint32 :: "uint32 \<Rightarrow> bytes" where
  "PutUint32 v =
     [ucast (drop_bit 24 v), ucast (drop_bit 16 v), ucast (drop_bit 8 v), ucast v]"

definition PutUint64 :: "uint64 \<Rightarrow> bytes" where
  "PutUint64 v =
     [ucast (drop_bit 56 v), ucast (drop_bit 48 v), ucast (drop_bit 40 v), ucast (drop_bit 32 v),
      ucast (drop_bit 24 v), ucast (drop_bit 16 v), ucast (drop_bit 8 v), ucast v]"

definition Uint16 :: "bytes \<Rightarrow> uint16" where
  "Uint16 b = ucast (b ! 1) OR push_bit 8 (ucast (b ! 0))"

definition Uint32 :: "bytes \<Rightarrow> uint32" where
  "Uint32 b = ucast (b ! 3) OR push_bit 8 (ucast (b ! 2))
     OR push_bit 16 (ucast (b ! 1)) OR push_bit 24 (ucast (b ! 0))"

definition Uint64 :: "bytes \<Rightarrow> uint64" where
  "Uint64 b = ucast (b ! 7) OR push_bit 8 (ucast (b ! 6))
     OR push_bit 16 (ucast (b ! 5)) OR push_bit 24 (ucast (b ! 4))
     OR push_bit 32 (ucast (b ! 3)) OR push_bit 40 (ucast (b ! 2))
     OR push_bit 48 (ucast (b ! 1)) OR push_bit 56 (ucast (b ! 0))"

lemma length_PutUint [simp]:
  "length (PutUint16 v) = 2" "length (PutUint32 w) = 4" "length (PutUint64 x) = 8"
  by (simp_all add: PutUint16_def PutUint32_def PutUint64_def)

text \<open>The byte of a word at bit position \<open>k\<close>, put back at that position.\<close>

lemma bit_byte_at:
  fixes v :: "'a::len word"
  shows "bit (push_bit k (ucast (ucast (drop_bit k v) :: byte) :: 'a word)) n
     \<longleftrightarrow> k \<le> n \<and> n < k + 8 \<and> bit v n"
  by (auto simp: bit_simps dest: bit_imp_le_length)

lemmas bit_byte_at_0 = bit_byte_at [of 0, simplified]

lemma Uint16_Put [simp]: "Uint16 (PutUint16 v) = v"
proof (rule bit_word_eqI)
  fix n :: nat
  assume "n < LENGTH(16)"
  then have "n < 8 \<or> 8 \<le> n \<and> n < 16" by auto
  then show "bit (Uint16 (PutUint16 v)) n = bit v n"
    by (simp add: Uint16_def PutUint16_def bit_or_iff bit_byte_at bit_byte_at_0) blast
qed

lemma Uint32_Put [simp]: "Uint32 (PutUint32 v) = v"
proof (rule bit_word_eqI)
  fix n :: nat
  assume "n < LENGTH(32)"
  then have "n < 32" by simp
  then have "n < 8 \<or> 8 \<le> n \<and> n < 16 \<or> 16 \<le> n \<and> n < 24 \<or> 24 \<le> n \<and> n < 32"
    by linarith
  then show "bit (Uint32 (PutUint32 v)) n = bit v n"
    by (simp add: Uint32_def PutUint32_def bit_or_iff bit_byte_at bit_byte_at_0) blast
qed

lemma Uint64_Put [simp]: "Uint64 (PutUint64 v) = v"
proof (rule bit_word_eqI)
  fix n :: nat
  assume "n < LENGTH(64)"
  then have "n < 64" by simp
  then have "n < 8 \<or> 8 \<le> n \<and> n < 16 \<or> 16 \<le> n \<and> n < 24 \<or> 24 \<le> n \<and> n < 32
    \<or> 32 \<le> n \<and> n < 40 \<or> 40 \<le> n \<and> n < 48 \<or> 48 \<le> n \<and> n < 56 \<or> 56 \<le> n \<and> n < 64"
    by linarith
  then show "bit (Uint64 (PutUint64 v)) n = bit v n"
    by (simp add: Uint64_def PutUint64_def bit_or_iff bit_byte_at bit_byte_at_0) blast
qed

section \<open>Lists and association lists\<close>

lemma drop_eq_append_length [simp]: "drop (length xs) (xs @ ys) = ys"
  by simp

lemma update_new_append: "k \<notin> fst ` set ps \<Longrightarrow> AList.update k v ps = ps @ [(k, v)]"
  by (induction ps) auto

text \<open>ASCII text as a Go string.\<close>

definition ascii :: "string \<Rightarrow> gostring" where
  "ascii s = map (\<lambda>c. word_of_nat (of_char c)) s"

end
