(* ===== verification/Codec_Write.thy ===== *)
theory Codec_Write
  imports Go_Prelude
begin

text \<open>
  The write half of \<^verbatim>\<open>tars/protocol/codec/codec.go\<close>: the JCE type codes, the error
  values the codec returns and the \<^verbatim>\<open>Buffer\<close> with its \<^verbatim>\<open>Write...\<close> methods. A write takes
  the buffer and returns the error (\<open>None\<close> for Go's \<^verbatim>\<open>nil\<close>) with the new buffer. The
  second half states the wire format as a function of the value alone and shows that every
  write appends exactly that.
\<close>

section \<open>Type codes and errors\<close>

definition BYTE :: byte where "BYTE = 0"
definition SHORT :: byte where "SHORT = 1"
definition INT_t :: byte where "INT_t = 2"
definition LONG :: byte where "LONG = 3"
definition FLOAT :: byte where "FLOAT = 4"
definition DOUBLE :: byte where "DOUBLE = 5"
definition STRING1 :: byte where "STRING1 = 6"
definition STRING4 :: byte where "STRING4 = 7"
definition MAP :: byte where "MAP = 8"
definition LIST :: byte where "LIST = 9"
definition StructBegin :: byte where "StructBegin = 10"
definition StructEnd :: byte where "StructEnd = 11"
definition ZeroTag :: byte where "ZeroTag = 12"
definition SimpleList :: byte where "SimpleList = 13"

lemmas jce_ty_defs =
  BYTE_def SHORT_def INT_t_def LONG_def FLOAT_def DOUBLE_def STRING1_def STRING4_def
  MAP_def LIST_def StructBegin_def StructEnd_def ZeroTag_def SimpleList_def

definition typeToStr :: "string list" where
  "typeToStr = [''Byte'', ''Short'', ''Int'', ''Long'', ''Float'', ''Double'', ''String1'',
     ''String4'', ''Map'', ''List'', ''StructBegin'', ''StructEnd'', ''ZeroTag'', ''SimpleList'']"

definition getTypeStr :: "nat \<Rightarrow> string" where
  "getTypeStr t = (if t < length typeToStr then typeToStr ! t else ''invalidType'')"

text \<open>
  One constructor per error value of the codec and of the code generated for it.
  \<open>Panic\<close> stands for a run-time panic (\<^verbatim>\<open>make\<close> of a negative length): it unwinds
  through every caller, as an error returned at once by every caller does.
\<close>

datatype gerr =
    EOF
  | SimpleListHead byte
  | InvalidType
  | RequireNotFound byte gerr
  | RequireStop byte byte byte
  | TypeNotMatch byte byte
  | ReadSliceErr string gerr
  | TypeMismatch string byte string
  | ReadErr string byte gerr
  | NeedString byte string
  | RequireVector
  | RequireStruct string byte
  | NoKey gostring
  | NotSupported string
  | Panic string

section \<open>The buffer\<close>

text \<open>
  \<^verbatim>\<open>codec.Buffer\<close> wraps a \<^verbatim>\<open>bytes.Buffer\<close>, whose contents are the bytes written so far.
  The writes of \<^verbatim>\<open>bytes.Buffer\<close> always return a nil error.
\<close>

type_synonym Buffer = bytes
type_synonym writer = "Buffer \<Rightarrow> gerr option \<times> Buffer"

definition buf_WriteByte :: "byte \<Rightarrow> writer" where
  "buf_WriteByte c b = (None, b @ [c])"

definition buf_Write :: "bytes \<Rightarrow> writer" where
  "buf_Write bs b = (None, b @ bs)"

text \<open>
  The shape of every multi-step write: run a step, return at once when it reports an
  error, else go on.
\<close>

fun wseq :: "writer list \<Rightarrow> writer" where
  "wseq [] b = (None, b)"
| "wseq (f # fs) b = (case f b of (err, b) \<Rightarrow> if err \<noteq> None then (err, b) else wseq fs b)"

definition bWriteU8 :: "uint8 \<Rightarrow> writer" where
  "bWriteU8 data = buf_WriteByte data"

definition bWriteU16 :: "uint16 \<Rightarrow> writer" where
  "bWriteU16 data = buf_Write (PutUint16 data)"

definition bWriteU32 :: "uint32 \<Rightarrow> writer" where
  "bWriteU32 data = buf_Write (PutUint32 data)"

definition bWriteU64 :: "uint64 \<Rightarrow> writer" where
  "bWriteU64 data = buf_Write (PutUint64 data)"

definition WriteHead :: "byte \<Rightarrow> byte \<Rightarrow> writer" where
  "WriteHead ty tag =
     (if tag < 15 then buf_WriteByte (push_bit 4 tag OR ty)
      else wseq [buf_WriteByte (push_bit 4 15 OR ty), buf_WriteByte tag])"

definition Buffer_Reset :: "Buffer \<Rightarrow> Buffer" where
  "Buffer_Reset b = []"

definition WriteSliceUint8 :: "uint8 list \<Rightarrow> writer" where
  "WriteSliceUint8 data = buf_Write data"

definition WriteSliceInt8 :: "int8 list \<Rightarrow> writer" where
  "WriteSliceInt8 data = buf_Write data"

definition WriteBytes :: "bytes \<Rightarrow> writer" where
  "WriteBytes data = buf_Write data"

definition WriteInt8 :: "int8 \<Rightarrow> byte \<Rightarrow> writer" where
  "WriteInt8 data tag =
     (if data = 0 then WriteHead ZeroTag tag
      else wseq [WriteHead BYTE tag, buf_WriteByte data])"

definition WriteBool :: "bool \<Rightarrow> byte \<Rightarrow> writer" where
  "WriteBool data tag = WriteInt8 (if data then 1 else 0) tag"

definition WriteInt16 :: "int16 \<Rightarrow> byte \<Rightarrow> writer" where
  "WriteInt16 data tag =
     (if - 128 \<le> sint data \<and> sint data \<le> 127 then WriteInt8 (ucast data) tag
      else wseq [WriteHead SHORT tag, bWriteU16 data])"

definition WriteUint8 :: "uint8 \<Rightarrow> byte \<Rightarrow> writer" where
  "WriteUint8 data tag = WriteInt16 (ucast data) tag"

definition WriteInt32 :: "int32 \<Rightarrow> byte \<Rightarrow> writer" where
  "WriteInt32 data tag =
     (if - 32768 \<le> sint data \<and> sint data \<le> 32767 then WriteInt16 (ucast data) tag
      else wseq [WriteHead INT_t tag, bWriteU32 data])"

definition WriteUint16 :: "uint16 \<Rightarrow> byte \<Rightarrow> writer" where
  "WriteUint16 data tag = WriteInt32 (ucast data) tag"

definition WriteInt64 :: "int64 \<Rightarrow> byte \<Rightarrow> writer" where
  "WriteInt64 data tag =
     (if - 2147483648 \<le> sint data \<and> sint data \<le> 2147483647 then WriteInt32 (ucast data) tag
      else wseq [WriteHead LONG tag, bWriteU64 data])"

definition WriteUint32 :: "uint32 \<Rightarrow> byte \<Rightarrow> writer" where
  "WriteUint32 data tag = WriteInt64 (ucast data) tag"

text \<open>A floating point value is its IEEE 754 bit pattern, so that \<^verbatim>\<open>math.Float32bits\<close>,
  \<^verbatim>\<open>math.Float64bits\<close> and their inverses are the identity.\<close>

type_synonym float32 = "32 word"
type_synonym float64 = "64 word"

definition WriteFloat32 :: "float32 \<Rightarrow> byte \<Rightarrow> writer" where
  "WriteFloat32 data tag = wseq [WriteHead FLOAT tag, bWriteU32 data]"

definition WriteFloat64 :: "float64 \<Rightarrow> byte \<Rightarrow> writer" where
  "WriteFloat64 data tag = wseq [WriteHead DOUBLE tag, bWriteU64 data]"

definition WriteString :: "gostring \<Rightarrow> byte \<Rightarrow> writer" where
  "WriteString data tag =
     (if length data > 255
      then wseq [WriteHead STRING4 tag, bWriteU32 (word_of_nat (length data)), buf_Write data]
      else wseq [WriteHead STRING1 tag, bWriteU8 (word_of_nat (length data)), buf_Write data])"

definition Buffer_ToBytes :: "Buffer \<Rightarrow> bytes" where
  "Buffer_ToBytes b = b"

definition Buffer_Len :: "Buffer \<Rightarrow> nat" where
  "Buffer_Len b = length b"

definition NewBuffer :: "Buffer list \<Rightarrow> Buffer" where
  "NewBuffer args = (case args of [] \<Rightarrow> [] | b # _ \<Rightarrow> b)"

section \<open>The wire format\<close>

text \<open>
  A head is one byte for a tag below 15 and two bytes otherwise. An integer is written in
  the narrowest of five forms that holds its value, whatever the width of the Go type it
  comes from.
\<close>

definition encHead :: "byte \<Rightarrow> byte \<Rightarrow> bytes" where
  "encHead ty tag = (if tag < 15 then [push_bit 4 tag OR ty] else [240 OR ty, tag])"

definition encInt :: "int \<Rightarrow> byte \<Rightarrow> bytes" where
  "encInt n tag =
     (if n = 0 then encHead ZeroTag tag
      else if - 128 \<le> n \<and> n < 128 then encHead BYTE tag @ [word_of_int n]
      else if - 32768 \<le> n \<and> n < 32768 then encHead SHORT tag @ PutUint16 (word_of_int n)
      else if - 2147483648 \<le> n \<and> n < 2147483648
        then encHead INT_t tag @ PutUint32 (word_of_int n)
      else encHead LONG tag @ PutUint64 (word_of_int n))"

definition encString :: "gostring \<Rightarrow> byte \<Rightarrow> bytes" where
  "encString s tag =
     (if length s > 255
      then encHead STRING4 tag @ PutUint32 (word_of_nat (length s)) @ s
      else encHead STRING1 tag @ [word_of_nat (length s)] @ s)"

text \<open>A writer appends \<open>e\<close> when it never fails and only adds \<open>e\<close> at the end.\<close>

definition appends :: "writer \<Rightarrow> bytes \<Rightarrow> bool" where
  "appends f e \<longleftrightarrow> (\<forall>b. f b = (None, b @ e))"

named_theorems appends_intro

lemma appends_WriteByte [appends_intro]: "appends (buf_WriteByte c) [c]"
  by (simp add: appends_def buf_WriteByte_def)

lemma appends_Write [appends_intro]: "appends (buf_Write bs) bs"
  by (simp add: appends_def buf_Write_def)

lemma appends_wseq_Nil [appends_intro]: "appends (wseq []) []"
  by (simp add: appends_def)

lemma appends_wseq_Cons [appends_intro]:
  "appends f e \<Longrightarrow> appends (wseq fs) es \<Longrightarrow> appends (wseq (f # fs)) (e @ es)"
  by (simp add: appends_def)

lemma appends_wseq: "list_all2 appends fs es \<Longrightarrow> appends (wseq fs) (concat es)"
  by (induction rule: list_all2_induct) (simp_all del: wseq.simps add: appends_intro)

lemma appends_append: "appends f e \<Longrightarrow> f b = (None, b @ e)"
  by (simp add: appends_def)

lemma appends_bWrite [appends_intro]:
  "appends (bWriteU8 d) [d]" "appends (bWriteU16 d2) (PutUint16 d2)"
  "appends (bWriteU32 d4) (PutUint32 d4)" "appends (bWriteU64 d8) (PutUint64 d8)"
  by (simp_all add: bWriteU8_def bWriteU16_def bWriteU32_def bWriteU64_def appends_intro)

lemma appends_slices [appends_intro]:
  "appends (WriteSliceUint8 d) d" "appends (WriteSliceInt8 d) d" "appends (WriteBytes d) d"
  by (simp_all add: WriteSliceUint8_def WriteSliceInt8_def WriteBytes_def appends_intro)

lemma appends_WriteHead [appends_intro]: "appends (WriteHead ty tag) (encHead ty tag)"
  by (simp add: appends_def WriteHead_def encHead_def buf_WriteByte_def)

lemma appends_two:
  "appends f e1 \<Longrightarrow> appends g e2 \<Longrightarrow> appends (wseq [f, g]) (e1 @ e2)"
  by (simp add: appends_def)

lemma appends_WriteInt8: "appends (WriteInt8 d tag) (encInt (sint d) tag)"
proof (cases "d = 0")
  case True
  then show ?thesis by (simp add: WriteInt8_def encInt_def appends_intro)
next
  case False
  have "- 128 \<le> sint d" "sint d < 128"
    using sint_ge [of d] sint_lt [of d] by simp_all
  then have "encInt (sint d) tag = encHead BYTE tag @ [d]"
    using False by (simp add: encInt_def signed_eq_0_iff)
  then show ?thesis
    using False by (simp add: WriteInt8_def appends_two appends_intro)
qed

lemma appends_WriteInt16: "appends (WriteInt16 d tag) (encInt (sint d) tag)"
proof (cases "- 128 \<le> sint d \<and> sint d \<le> 127")
  case True
  then have "sint (ucast d :: int8) = sint d"
    by (intro sint_ucast_small) simp_all
  then show ?thesis
    using True appends_WriteInt8 [of "ucast d" tag] by (simp add: WriteInt16_def)
next
  case False
  have "- 32768 \<le> sint d" "sint d < 32768"
    using sint_ge [of d] sint_lt [of d] by simp_all
  then have "encInt (sint d) tag = encHead SHORT tag @ PutUint16 d"
    using False by (auto simp: encInt_def)
  then show ?thesis
    using False by (auto simp: WriteInt16_def appends_two appends_intro)
qed

lemma appends_WriteInt32: "appends (WriteInt32 d tag) (encInt (sint d) tag)"
proof (cases "- 32768 \<le> sint d \<and> sint d \<le> 32767")
  case True
  then have "sint (ucast d :: int16) = sint d"
    by (intro sint_ucast_small) simp_all
  then show ?thesis
    using True appends_WriteInt16 [of "ucast d" tag] by (simp add: WriteInt32_def)
next
  case False
  have "- 2147483648 \<le> sint d" "sint d < 2147483648"
    using sint_ge [of d] sint_lt [of d] by simp_all
  then have "encInt (sint d) tag = encHead INT_t tag @ PutUint32 d"
    using False by (auto simp: encInt_def)
  then show ?thesis
    using False by (auto simp: WriteInt32_def appends_two appends_intro)
qed

lemma appends_WriteInt64: "appends (WriteInt64 d tag) (encInt (sint d) tag)"
proof (cases "- 2147483648 \<le> sint d \<and> sint d \<le> 2147483647")
  case True
  then have "sint (ucast d :: int32) = sint d"
    by (intro sint_ucast_small) simp_all
  then show ?thesis
    using True appends_WriteInt32 [of "ucast d" tag] by (simp add: WriteInt64_def)
next
  case False
  then have "encInt (sint d) tag = encHead LONG tag @ PutUint64 d"
    by (auto simp: encInt_def)
  then show ?thesis
    using False by (auto simp: WriteInt64_def appends_two appends_intro)
qed

text \<open>An unsigned value is widened before it is written, so that its sign is never lost.\<close>

lemma sint_ucast_widen:
  fixes d :: "'a::len word"
  assumes "LENGTH('a) < LENGTH('b::len)"
  shows "sint (ucast d :: 'b word) = uint d"
proof -
  have "uint d < 2 ^ LENGTH('a)" by simp
  also have "(2::int) ^ LENGTH('a) \<le> 2 ^ (LENGTH('b) - 1)"
    using assms by (intro power_increasing) auto
  finally have lt: "uint d < 2 ^ (LENGTH('b) - 1)" .
  have "(ucast d :: 'b word) = word_of_int (uint d)"
    by (rule ucast_eq)
  then show ?thesis
    using lt sint_word_of_int_small [of "uint d", where 'a = 'b]
    by (simp add: order_trans [OF _ uint_ge_0])
qed

lemma appends_WriteUint:
  "appends (WriteUint8 d1 tag) (encInt (uint d1) tag)"
  "appends (WriteUint16 d2 tag) (encInt (uint d2) tag)"
  "appends (WriteUint32 d4 tag) (encInt (uint d4) tag)"
  using appends_WriteInt16 [of "ucast d1" tag] appends_WriteInt32 [of "ucast d2" tag]
    appends_WriteInt64 [of "ucast d4" tag]
  by (simp_all add: WriteUint8_def WriteUint16_def WriteUint32_def sint_ucast_widen)

lemma appends_WriteBool: "appends (WriteBool d tag) (encInt (of_bool d) tag)"
  using appends_WriteInt8 [of "if d then 1 else 0" tag]
  by (cases d) (simp_all add: WriteBool_def del: One_nat_def)

lemma appends_WriteFloat:
  "appends (WriteFloat32 f tag) (encHead FLOAT tag @ PutUint32 f)"
  "appends (WriteFloat64 g tag) (encHead DOUBLE tag @ PutUint64 g)"
  by (simp_all add: WriteFloat32_def WriteFloat64_def appends_two appends_intro)

lemma appends_WriteString: "appends (WriteString s tag) (encString s tag)"
  by (simp add: WriteString_def encString_def appends_def appends_append [OF appends_WriteHead]
      appends_append [OF appends_bWrite(3)] appends_append [OF appends_bWrite(1)] buf_Write_def)

lemmas appends_values [appends_intro] =
  appends_WriteInt8 appends_WriteInt16 appends_WriteInt32 appends_WriteInt64
  appends_WriteUint appends_WriteBool appends_WriteFloat appends_WriteString

end
