(* ===== verification/Codec_Read.thy ===== *)
theory Codec_Read
  imports Codec_Write
begin

text \<open>
  The read half of \<^verbatim>\<open>tars/protocol/codec/codec.go\<close>: the \<^verbatim>\<open>Reader\<close>, field heads, the
  recursive skipping of unknown fields and the \<^verbatim>\<open>Read...\<close> methods. An operation returns
  what the Go method returns or stores through its out-parameter, the error (\<open>None\<close> for
  \<^verbatim>\<open>nil\<close>) and the reader after the call, also when the call fails.

  \<^verbatim>\<open>skipField\<close> and the functions it calls are mutually recursive, with loops that stop at the
  end of the data. They are defined with fuel (\<open>..._f\<close>), \<open>None\<close> meaning that the fuel ran
  out; one unit more than there are unread bytes always suffices, and the operations
  without fuel are defined with that much. The theory \<open>Codec_Skip\<close> shows that they satisfy
  the equations of the Go functions, free of fuel.
\<close>

section \<open>The reader\<close>

text \<open>
  \<^verbatim>\<open>codec.Reader\<close> keeps the slice it reads (\<open>ref\<close>) beside a \<^verbatim>\<open>bytes.Reader\<close> over the
  same slice; \<open>off\<close> is the latter's index. \<^verbatim>\<open>Seek\<close> may move it past the end.
\<close>

record Reader =
  ref :: bytes
  off :: nat

definition NewReader :: "bytes \<Rightarrow> Reader" where
  "NewReader data = \<lparr>ref = data, off = 0\<rparr>"

definition Reader_Reset :: "bytes \<Rightarrow> Reader \<Rightarrow> Reader" where
  "Reader_Reset data r = r\<lparr>ref := data, off := 0\<rparr>"

definition Reader_ToBytes :: "Reader \<Rightarrow> bytes" where
  "Reader_ToBytes r = ref r"

definition Reader_Len :: "Reader \<Rightarrow> nat" where
  "Reader_Len r = length (ref r)"

text \<open>The operations of \<^verbatim>\<open>bytes.Reader\<close>: \<open>buf_Len\<close> counts the unread bytes; \<open>buf_Read n\<close>
  reads into a fresh slice of \<open>n\<close> zero bytes, reports \<open>EOF\<close> only when nothing is unread
  and otherwise fills as much of the slice as there is data.\<close>

definition buf_Len :: "Reader \<Rightarrow> nat" where
  "buf_Len r = (if off r \<ge> length (ref r) then 0 else length (ref r) - off r)"

definition buf_ReadByte :: "Reader \<Rightarrow> byte \<times> gerr option \<times> Reader" where
  "buf_ReadByte r =
     (if off r \<ge> length (ref r) then (0, Some EOF, r)
      else (ref r ! off r, None, r\<lparr>off := off r + 1\<rparr>))"

definition buf_UnreadByte :: "Reader \<Rightarrow> Reader" where
  "buf_UnreadByte r = (if off r = 0 then r else r\<lparr>off := off r - 1\<rparr>)"

definition buf_Read :: "nat \<Rightarrow> Reader \<Rightarrow> bytes \<times> gerr option \<times> Reader" where
  "buf_Read n r =
     (if off r \<ge> length (ref r) then (replicate n 0, Some EOF, r)
      else let bs = take n (drop (off r) (ref r))
           in (bs @ replicate (n - length bs) 0, None, r\<lparr>off := off r + length bs\<rparr>))"

definition buf_Seek :: "nat \<Rightarrow> Reader \<Rightarrow> Reader" where
  "buf_Seek n r = r\<lparr>off := off r + n\<rparr>"

definition bReadU8 :: "Reader \<Rightarrow> uint8 \<times> gerr option \<times> Reader" where
  "bReadU8 r = buf_ReadByte r"

definition bReadU16 :: "Reader \<Rightarrow> uint16 \<times> gerr option \<times> Reader" where
  "bReadU16 r = (case buf_Read 2 r of (bs, err, r) \<Rightarrow> (Uint16 bs, err, r))"

definition bReadU32 :: "Reader \<Rightarrow> uint32 \<times> gerr option \<times> Reader" where
  "bReadU32 r = (case buf_Read 4 r of (bs, err, r) \<Rightarrow> (Uint32 bs, err, r))"

definition bReadU64 :: "Reader \<Rightarrow> uint64 \<times> gerr option \<times> Reader" where
  "bReadU64 r = (case buf_Read 8 r of (bs, err, r) \<Rightarrow> (Uint64 bs, err, r))"

text \<open>\<^verbatim>\<open>readHead\<close> returns the type, the tag, the error and the reader.\<close>

definition readHead :: "Reader \<Rightarrow> byte \<times> byte \<times> gerr option \<times> Reader" where
  "readHead r =
     (case buf_ReadByte r of (data, err, r) \<Rightarrow>
        if err \<noteq> None then (0, 0, err, r)
        else let ty = data AND 15; tag = drop_bit 4 (data AND 240) in
          if tag = 15 then
            (case buf_ReadByte r of (data, err, r) \<Rightarrow>
               if err \<noteq> None then (ty, tag, err, r) else (ty, data, None, r))
          else (ty, tag, None, r))"

definition unreadHead :: "byte \<Rightarrow> Reader \<Rightarrow> Reader" where
  "unreadHead curTag r =
     (let r = buf_UnreadByte r in if curTag \<ge> 15 then buf_UnreadByte r else r)"

definition Next :: "int \<Rightarrow> Reader \<Rightarrow> bytes \<times> Reader" where
  "Next n r =
     (if n \<le> 0 then ([], r)
      else let beg = length (ref r) - buf_Len r;
               r' = buf_Seek (nat n) r;
               end' = length (ref r') - buf_Len r'
           in (take (end' - beg) (drop beg (ref r')), r'))"

definition Skip :: "int \<Rightarrow> Reader \<Rightarrow> Reader" where
  "Skip n r = (if n \<le> 0 then r else buf_Seek (nat n) r)"

section \<open>Skipping fields\<close>

text \<open>
  The functions that \<^verbatim>\<open>skipField\<close> calls and that call it back take it as the argument
  \<open>sf\<close>; the argument \<open>n\<close> bounds the iterations of their loops. \<open>skipField_f\<close> ties the knot.
\<close>

type_synonym skipper = "byte \<Rightarrow> Reader \<Rightarrow> (gerr option \<times> Reader) option"

primrec SkipToNoCheck_f :: "nat \<Rightarrow> skipper \<Rightarrow> byte \<Rightarrow> bool \<Rightarrow> Reader
    \<Rightarrow> (bool \<times> byte \<times> gerr option \<times> Reader) option" where
  "SkipToNoCheck_f 0 sf tag require r = None"
| "SkipToNoCheck_f (Suc n) sf tag require r =
     (case readHead r of (tyCur, tagCur, err, r) \<Rightarrow>
        if err \<noteq> None then
          (if require then Some (False, tyCur, Some (RequireNotFound tag (the err)), r)
           else Some (False, tyCur, None, r))
        else if tyCur = StructEnd \<or> tagCur > tag then
          (if require then Some (False, tyCur, Some (RequireStop tag tagCur tyCur), r)
           else Some (False, tyCur, None, unreadHead tagCur r))
        else if tagCur = tag then Some (True, tyCur, None, r)
        else (case sf tyCur r of
                None \<Rightarrow> None
              | Some (err, r) \<Rightarrow>
                  if err \<noteq> None then Some (False, tyCur, err, r)
                  else SkipToNoCheck_f n sf tag require r))"

text \<open>The \<^verbatim>\<open>switch\<close> of \<^verbatim>\<open>ReadInt32\<close> after the field was looked up.\<close>

definition ReadInt32_switch :: "int32 \<Rightarrow> byte \<Rightarrow> bool \<times> byte \<times> gerr option \<times> Reader
    \<Rightarrow> int32 \<times> gerr option \<times> Reader" where
  "ReadInt32_switch data tag res =
     (case res of (hv, ty, err, r) \<Rightarrow>
        if err \<noteq> None then (data, err, r)
        else if \<not> hv then (data, None, r)
        else if ty = ZeroTag then (0, None, r)
        else if ty = BYTE then
          (case bReadU8 r of (tmp, err, r) \<Rightarrow>
             (scast tmp, map_option (ReadErr ''int32'' tag) err, r))
        else if ty = SHORT then
          (case bReadU16 r of (tmp, err, r) \<Rightarrow>
             (scast tmp, map_option (ReadErr ''int32'' tag) err, r))
        else if ty = INT_t then
          (case bReadU32 r of (tmp, err, r) \<Rightarrow>
             (tmp, map_option (ReadErr ''int32'' tag) err, r))
        else (data, Some (TypeMismatch ''int32'' tag (getTypeStr (unat ty))), r))"

definition ReadInt32_f :: "nat \<Rightarrow> skipper \<Rightarrow> int32 \<Rightarrow> byte \<Rightarrow> bool \<Rightarrow> Reader
    \<Rightarrow> (int32 \<times> gerr option \<times> Reader) option" where
  "ReadInt32_f n sf data tag require r =
     map_option (ReadInt32_switch data tag) (SkipToNoCheck_f n sf tag require r)"

text \<open>The loop \<^verbatim>\<open>for i := int32(0); i < length; i++\<close> that skips elements; the error of
  \<^verbatim>\<open>skipField\<close> is dropped, that of \<^verbatim>\<open>readHead\<close> is returned.\<close>

primrec skipElems_f :: "nat \<Rightarrow> skipper \<Rightarrow> int32 \<Rightarrow> int32 \<Rightarrow> Reader
    \<Rightarrow> (gerr option \<times> Reader) option" where
  "skipElems_f 0 sf i len r = None"
| "skipElems_f (Suc n) sf i len r =
     (if sint i < sint len then
        (case readHead r of (tyCur, _, err, r) \<Rightarrow>
           if err \<noteq> None then Some (err, r)
           else (case sf tyCur r of
                   None \<Rightarrow> None
                 | Some (_, r) \<Rightarrow> skipElems_f n sf (i + 1) len r))
      else Some (None, r))"

definition skipFieldMap_f :: "nat \<Rightarrow> skipper \<Rightarrow> Reader \<Rightarrow> (gerr option \<times> Reader) option" where
  "skipFieldMap_f n sf r =
     (case ReadInt32_f n sf 0 0 True r of
        None \<Rightarrow> None
      | Some (len, err, r) \<Rightarrow>
          if err \<noteq> None then Some (err, r) else skipElems_f n sf 0 (len * 2) r)"

definition skipFieldList_f :: "nat \<Rightarrow> skipper \<Rightarrow> Reader \<Rightarrow> (gerr option \<times> Reader) option" where
  "skipFieldList_f n sf r =
     (case ReadInt32_f n sf 0 0 True r of
        None \<Rightarrow> None
      | Some (len, err, r) \<Rightarrow>
          if err \<noteq> None then Some (err, r) else skipElems_f n sf 0 len r)"

definition skipFieldSimpleList_f :: "nat \<Rightarrow> skipper \<Rightarrow> Reader
    \<Rightarrow> (gerr option \<times> Reader) option" where
  "skipFieldSimpleList_f n sf r =
     (case readHead r of (tyCur, _, err, r) \<Rightarrow>
        if tyCur \<noteq> BYTE then Some (Some (SimpleListHead tyCur), r)
        else if err \<noteq> None then Some (err, r)
        else (case ReadInt32_f n sf 0 0 True r of
                None \<Rightarrow> None
              | Some (len, err, r) \<Rightarrow>
                  if err \<noteq> None then Some (err, r) else Some (None, Skip (sint len) r)))"

primrec SkipToStructEnd_f :: "nat \<Rightarrow> skipper \<Rightarrow> Reader \<Rightarrow> (gerr option \<times> Reader) option" where
  "SkipToStructEnd_f 0 sf r = None"
| "SkipToStructEnd_f (Suc n) sf r =
     (case readHead r of (ty, _, err, r) \<Rightarrow>
        if err \<noteq> None then Some (err, r)
        else (case sf ty r of
                None \<Rightarrow> None
              | Some (err, r) \<Rightarrow>
                  if err \<noteq> None then Some (err, r)
                  else if ty = StructEnd then Some (None, r)
                  else SkipToStructEnd_f n sf r))"

text \<open>The \<^verbatim>\<open>switch\<close> of \<^verbatim>\<open>skipField\<close>.\<close>

definition skipField_body :: "nat \<Rightarrow> skipper \<Rightarrow> skipper" where
  "skipField_body n sf ty r =
     (if ty = BYTE then Some (None, Skip 1 r)
      else if ty = SHORT then Some (None, Skip 2 r)
      else if ty = INT_t then Some (None, Skip 4 r)
      else if ty = LONG then Some (None, Skip 8 r)
      else if ty = FLOAT then Some (None, Skip 4 r)
      else if ty = DOUBLE then Some (None, Skip 8 r)
      else if ty = STRING1 then
        (case buf_ReadByte r of (data, err, r) \<Rightarrow>
           if err \<noteq> None then Some (err, r) else Some (None, Skip (uint data) r))
      else if ty = STRING4 then
        (case bReadU32 r of (l, err, r) \<Rightarrow>
           if err \<noteq> None then Some (err, r) else Some (None, Skip (uint l) r))
      else if ty = MAP then skipFieldMap_f n sf r
      else if ty = LIST then skipFieldList_f n sf r
      else if ty = SimpleList then skipFieldSimpleList_f n sf r
      else if ty = StructBegin then SkipToStructEnd_f n sf r
      else if ty = StructEnd then Some (None, r)
      else if ty = ZeroTag then Some (None, r)
      else Some (Some InvalidType, r))"

primrec skipField_f :: "nat \<Rightarrow> skipper" where
  "skipField_f 0 = (\<lambda>ty r. None)"
| "skipField_f (Suc n) = skipField_body (Suc n) (skipField_f n)"

text \<open>The operations without fuel.\<close>

definition skipField :: "byte \<Rightarrow> Reader \<Rightarrow> gerr option \<times> Reader" where
  "skipField ty r = the (skipField_f (Suc (buf_Len r)) ty r)"

abbreviation skipField' :: skipper where
  "skipField' ty r \<equiv> Some (skipField ty r)"

definition skipElems :: "int32 \<Rightarrow> int32 \<Rightarrow> Reader \<Rightarrow> gerr option \<times> Reader" where
  "skipElems i len r = the (skipElems_f (Suc (buf_Len r)) skipField' i len r)"

definition skipFieldMap :: "Reader \<Rightarrow> gerr option \<times> Reader" where
  "skipFieldMap r = the (skipFieldMap_f (Suc (buf_Len r)) skipField' r)"

definition skipFieldList :: "Reader \<Rightarrow> gerr option \<times> Reader" where
  "skipFieldList r = the (skipFieldList_f (Suc (buf_Len r)) skipField' r)"

definition skipFieldSimpleList :: "Reader \<Rightarrow> gerr option \<times> Reader" where
  "skipFieldSimpleList r = the (skipFieldSimpleList_f (Suc (buf_Len r)) skipField' r)"

definition SkipToStructEnd :: "Reader \<Rightarrow> gerr option \<times> Reader" where
  "SkipToStructEnd r = the (SkipToStructEnd_f (Suc (buf_Len r)) skipField' r)"

definition SkipToNoCheck :: "byte \<Rightarrow> bool \<Rightarrow> Reader \<Rightarrow> bool \<times> byte \<times> gerr option \<times> Reader" where
  "SkipToNoCheck tag require r = the (SkipToNoCheck_f (Suc (buf_Len r)) skipField' tag require r)"

definition SkipTo :: "byte \<Rightarrow> byte \<Rightarrow> bool \<Rightarrow> Reader \<Rightarrow> bool \<times> gerr option \<times> Reader" where
  "SkipTo ty tag require r =
     (case SkipToNoCheck tag require r of (hv, tyCur, err, r) \<Rightarrow>
        if err \<noteq> None then (False, err, r)
        else if hv \<and> ty \<noteq> tyCur then (False, Some (TypeNotMatch ty tyCur), r)
        else (hv, None, r))"

section \<open>Reading values\<close>

definition ReadSliceInt8 :: "int8 list \<Rightarrow> int32 \<Rightarrow> bool \<Rightarrow> Reader
    \<Rightarrow> int8 list \<times> gerr option \<times> Reader" where
  "ReadSliceInt8 data len require r =
     (if sint len \<le> 0 then (data, None, r)
      else (case buf_Read (nat (sint len)) r of (bs, err, r) \<Rightarrow>
              (bs, map_option (ReadSliceErr ''[]int8'') err, r)))"

definition ReadSliceUint8 :: "uint8 list \<Rightarrow> int32 \<Rightarrow> bool \<Rightarrow> Reader
    \<Rightarrow> uint8 list \<times> gerr option \<times> Reader" where
  "ReadSliceUint8 data len require r =
     (if sint len \<le> 0 then (data, None, r)
      else (case buf_Read (nat (sint len)) r of (bs, err, r) \<Rightarrow>
              (bs, map_option (ReadSliceErr ''[]uint8'') err, r)))"

text \<open>\<^verbatim>\<open>ReadBytes\<close> allocates first: \<^verbatim>\<open>make\<close> panics on a negative length.\<close>

definition ReadBytes :: "bytes \<Rightarrow> int32 \<Rightarrow> bool \<Rightarrow> Reader \<Rightarrow> bytes \<times> gerr option \<times> Reader" where
  "ReadBytes data len require r =
     (if sint len < 0 then (data, Some (Panic ''makeslice: len out of range''), r)
      else buf_Read (nat (sint len)) r)"

definition ReadInt8 :: "int8 \<Rightarrow> byte \<Rightarrow> bool \<Rightarrow> Reader \<Rightarrow> int8 \<times> gerr option \<times> Reader" where
  "ReadInt8 data tag require r =
     (case SkipToNoCheck tag require r of (hv, ty, err, r) \<Rightarrow>
        if err \<noteq> None then (data, err, r)
        else if \<not> hv then (data, None, r)
        else if ty = ZeroTag then (0, None, r)
        else if ty = BYTE then
          (case bReadU8 r of (tmp, err, r) \<Rightarrow> (tmp, map_option (ReadErr ''int8'' tag) err, r))
        else (data, Some (TypeMismatch ''int8'' tag (getTypeStr (unat ty))), r))"

definition ReadInt16 :: "int16 \<Rightarrow> byte \<Rightarrow> bool \<Rightarrow> Reader \<Rightarrow> int16 \<times> gerr option \<times> Reader" where
  "ReadInt16 data tag require r =
     (case SkipToNoCheck tag require r of (hv, ty, err, r) \<Rightarrow>
        if err \<noteq> None then (data, err, r)
        else if \<not> hv then (data, None, r)
        else if ty = ZeroTag then (0, None, r)
        else if ty = BYTE then
          (case bReadU8 r of (tmp, err, r) \<Rightarrow>
             (scast tmp, map_option (ReadErr ''int16'' tag) err, r))
        else if ty = SHORT then
          (case bReadU16 r of (tmp, err, r) \<Rightarrow>
             (tmp, map_option (ReadErr ''int16'' tag) err, r))
        else (data, Some (TypeMismatch ''int16'' tag (getTypeStr (unat ty))), r))"

definition ReadInt32 :: "int32 \<Rightarrow> byte \<Rightarrow> bool \<Rightarrow> Reader \<Rightarrow> int32 \<times> gerr option \<times> Reader" where
  "ReadInt32 data tag require r = ReadInt32_switch data tag (SkipToNoCheck tag require r)"

definition ReadInt64 :: "int64 \<Rightarrow> byte \<Rightarrow> bool \<Rightarrow> Reader \<Rightarrow> int64 \<times> gerr option \<times> Reader" where
  "ReadInt64 data tag require r =
     (case SkipToNoCheck tag require r of (hv, ty, err, r) \<Rightarrow>
        if err \<noteq> None then (data, err, r)
        else if \<not> hv then (data, None, r)
        else if ty = ZeroTag then (0, None, r)
        else if ty = BYTE then
          (case bReadU8 r of (tmp, err, r) \<Rightarrow>
             (scast tmp, map_option (ReadErr ''int64'' tag) err, r))
        else if ty = SHORT then
          (case bReadU16 r of (tmp, err, r) \<Rightarrow>
             (scast tmp, map_option (ReadErr ''int64'' tag) err, r))
        else if ty = INT_t then
          (case bReadU32 r of (tmp, err, r) \<Rightarrow>
             (scast tmp, map_option (ReadErr ''int64'' tag) err, r))
        else if ty = LONG then
          (case bReadU64 r of (tmp, err, r) \<Rightarrow>
             (tmp, map_option (ReadErr ''int64'' tag) err, r))
        else (data, Some (TypeMismatch ''int64'' tag (getTypeStr (unat ty))), r))"

definition ReadUint8 :: "uint8 \<Rightarrow> byte \<Rightarrow> bool \<Rightarrow> Reader \<Rightarrow> uint8 \<times> gerr option \<times> Reader" where
  "ReadUint8 data tag require r =
     (case ReadInt16 (ucast data) tag require r of (n, err, r) \<Rightarrow> (ucast n, err, r))"

definition ReadUint16 :: "uint16 \<Rightarrow> byte \<Rightarrow> bool \<Rightarrow> Reader \<Rightarrow> uint16 \<times> gerr option \<times> Reader" where
  "ReadUint16 data tag require r =
     (case ReadInt32 (ucast data) tag require r of (n, err, r) \<Rightarrow> (ucast n, err, r))"

definition ReadUint32 :: "uint32 \<Rightarrow> byte \<Rightarrow> bool \<Rightarrow> Reader \<Rightarrow> uint32 \<times> gerr option \<times> Reader" where
  "ReadUint32 data tag require r =
     (case ReadInt64 (ucast data) tag require r of (n, err, r) \<Rightarrow> (ucast n, err, r))"

definition ReadBool :: "bool \<Rightarrow> byte \<Rightarrow> bool \<Rightarrow> Reader \<Rightarrow> bool \<times> gerr option \<times> Reader" where
  "ReadBool data tag require r =
     (case ReadInt8 (if data then 1 else 0) tag require r of (tmp, err, r) \<Rightarrow>
        if err \<noteq> None then (data, err, r) else (tmp \<noteq> 0, None, r))"

text \<open>
  Go's conversion \<^verbatim>\<open>float64(x)\<close> of a \<^verbatim>\<open>float32\<close>, on bit patterns: exponents are rebiased,
  subnormal numbers become normal, a NaN keeps its payload and becomes quiet.
\<close>

fun top_bit :: "nat \<Rightarrow> nat" where
  "top_bit m = (if m < 2 then 0 else Suc (top_bit (m div 2)))"

declare top_bit.simps [simp del]

definition float64_of_float32 :: "float32 \<Rightarrow> float64" where
  "float64_of_float32 f =
     (let s = unat (drop_bit 31 f);
          e = unat (drop_bit 23 f AND 255);
          m = unat (f AND 8388607);
          (e', m') =
            (if e = 255 then (2047, if m = 0 then 0 else m mod 2 ^ 22 * 2 ^ 29 + 2 ^ 51)
             else if e \<noteq> 0 then (e + 896, m * 2 ^ 29)
             else if m = 0 then (0, 0)
             else (top_bit m + 874, (m - 2 ^ top_bit m) * 2 ^ (52 - top_bit m)))
      in word_of_nat (s * 2 ^ 63 + e' * 2 ^ 52 + m'))"

definition ReadFloat32 :: "float32 \<Rightarrow> byte \<Rightarrow> bool \<Rightarrow> Reader
    \<Rightarrow> float32 \<times> gerr option \<times> Reader" where
  "ReadFloat32 data tag require r =
     (case SkipToNoCheck tag require r of (hv, ty, err, r) \<Rightarrow>
        if err \<noteq> None then (data, err, r)
        else if \<not> hv then (data, None, r)
        else if ty = ZeroTag then (0, None, r)
        else if ty = FLOAT then
          (case bReadU32 r of (tmp, err, r) \<Rightarrow>
             (tmp, map_option (ReadErr ''float32'' tag) err, r))
        else (data, Some (TypeMismatch ''float'' tag (getTypeStr (unat ty))), r))"

definition ReadFloat64 :: "float64 \<Rightarrow> byte \<Rightarrow> bool \<Rightarrow> Reader
    \<Rightarrow> float64 \<times> gerr option \<times> Reader" where
  "ReadFloat64 data tag require r =
     (case SkipToNoCheck tag require r of (hv, ty, err, r) \<Rightarrow>
        if err \<noteq> None then (data, err, r)
        else if \<not> hv then (data, None, r)
        else if ty = ZeroTag then (0, None, r)
        else if ty = FLOAT then
          (case bReadU32 r of (tmp, err, r) \<Rightarrow>
             (float64_of_float32 tmp, map_option (ReadErr ''float64'' tag) err, r))
        else if ty = DOUBLE then
          (case bReadU64 r of (tmp, err, r) \<Rightarrow>
             (tmp, map_option (ReadErr ''float64'' tag) err, r))
        else (data, Some (TypeMismatch ''double'' tag (getTypeStr (unat ty))), r))"

definition ReadString :: "gostring \<Rightarrow> byte \<Rightarrow> bool \<Rightarrow> Reader
    \<Rightarrow> gostring \<times> gerr option \<times> Reader" where
  "ReadString data tag require r =
     (case SkipToNoCheck tag require r of (hv, ty, err, r) \<Rightarrow>
        if err \<noteq> None then (data, err, r)
        else if \<not> hv then (data, None, r)
        else if ty = STRING4 then
          (case bReadU32 r of (len, err, r) \<Rightarrow>
             if err \<noteq> None then (data, Some (ReadErr ''string4'' tag (the err)), r)
             else (case Next (uint len) r of (buff, r) \<Rightarrow> (buff, None, r)))
        else if ty = STRING1 then
          (case bReadU8 r of (len, err, r) \<Rightarrow>
             if err \<noteq> None then (data, Some (ReadErr ''string1'' tag (the err)), r)
             else (case Next (uint len) r of (buff, r) \<Rightarrow> (buff, None, r)))
        else (data, Some (NeedString tag (getTypeStr (unat ty))), r))"

end
