(* ===== verification/Codec_Skip.thy ===== *)
theory Codec_Skip
  imports Codec_Read
begin

text \<open>
  Totality of the recursive skipping functions of \<^verbatim>\<open>codec.go\<close>: every loop consumes at
  least one byte per iteration, so that one unit of fuel more than there are unread bytes is
  enough and more fuel changes nothing. The functions without fuel then satisfy the
  equations of the Go source, and no read moves the reader backwards or changes the slice it
  reads.
\<close>

section \<open>Progress of the primitive operations\<close>

lemma buf_Len_eq: "buf_Len r = length (ref r) - off r"
  by (simp add: buf_Len_def)

text \<open>\<open>reach r r'\<close>: the same data, read at least as far.\<close>

definition reach :: "Reader \<Rightarrow> Reader \<Rightarrow> bool" where
  "reach r r' \<longleftrightarrow> ref r' = ref r \<and> off r \<le> off r'"

lemma reach_refl [simp, intro]: "reach r r"
  by (simp add: reach_def)

lemma reach_trans: "reach r s \<Longrightarrow> reach s t \<Longrightarrow> reach r t"
  by (auto simp: reach_def)

lemma reach_buf_Len: "reach r r' \<Longrightarrow> buf_Len r' \<le> buf_Len r"
  by (auto simp: reach_def buf_Len_eq)

lemma reach_Skip [simp, intro]: "reach r (Skip n r)"
  by (simp add: reach_def Skip_def buf_Seek_def)

lemma reach_Next: "Next n r = (bs, r') \<Longrightarrow> reach r r'"
  by (auto simp: reach_def Next_def buf_Seek_def Let_def split: if_splits)

lemma reach_ReadByte: "buf_ReadByte r = (d, e, r') \<Longrightarrow> reach r r'"
  by (auto simp: reach_def buf_ReadByte_def split: if_splits)

lemma reach_Read: "buf_Read n r = (d, e, r') \<Longrightarrow> reach r r'"
  by (auto simp: reach_def buf_Read_def Let_def split: if_splits)

lemma reach_bRead:
  "bReadU8 r = (d1, e, r') \<Longrightarrow> reach r r'"
  "bReadU16 r = (d2, e, r') \<Longrightarrow> reach r r'"
  "bReadU32 r = (d4, e, r') \<Longrightarrow> reach r r'"
  "bReadU64 r = (d8, e, r') \<Longrightarrow> reach r r'"
  by (auto simp: bReadU8_def bReadU16_def bReadU32_def bReadU64_def
      dest: reach_ReadByte reach_Read split: prod.splits)

lemma readHead_reach: "readHead r = (ty, tag, e, r') \<Longrightarrow> reach r r'"
  by (auto simp: readHead_def buf_ReadByte_def reach_def Let_def split: if_splits)

lemma nibble_not_ge: "y AND 15 \<noteq> 15 \<Longrightarrow> \<not> 15 \<le> (y AND 15 :: byte)"
  using word_and_le1 [of y 15] by simp

text \<open>A head that reads without an error consumes at least one byte, and two when its tag
  is 15 or more, so that \<^verbatim>\<open>unreadHead\<close> never goes back beyond the head.\<close>

lemma readHead_progress:
  assumes "readHead r = (ty, tag, None, r')"
  shows "ref r' = ref r" and "off r + (if tag \<ge> 15 then 2 else 1) \<le> off r'"
    and "off r' \<le> length (ref r)"
proof -
  show "ref r' = ref r" and "off r + (if tag \<ge> 15 then 2 else 1) \<le> off r'"
    and "off r' \<le> length (ref r)"
    using assms nibble_not_ge
    by (auto simp: readHead_def buf_ReadByte_def Let_def split: if_splits)
qed

lemma readHead_buf_Len: "readHead r = (ty, tag, None, r') \<Longrightarrow> buf_Len r' < buf_Len r"
  using readHead_progress [of r ty tag r'] by (auto simp: buf_Len_eq split: if_splits)

lemma readHead_unread_reach:
  assumes "readHead r = (ty, tag, None, r')"
  shows "reach r (unreadHead tag r')"
  using readHead_progress [OF assms]
  by (auto simp: reach_def unreadHead_def buf_UnreadByte_def Let_def split: if_splits)

section \<open>Fuel\<close>

text \<open>Two skippers that agree and succeed on every reader with fewer than \<open>m\<close> unread bytes.\<close>

definition agree :: "nat \<Rightarrow> skipper \<Rightarrow> skipper \<Rightarrow> bool" where
  "agree m sf sf' \<longleftrightarrow> (\<forall>ty r. buf_Len r < m \<longrightarrow>
     sf ty r = sf' ty r \<and> (\<exists>e r'. sf ty r = Some (e, r') \<and> reach r r'))"

lemma agreeD:
  assumes "agree m sf sf'" and "buf_Len r < m"
  obtains e r' where "sf ty r = Some (e, r')" "sf' ty r = Some (e, r')" "reach r r'"
  using assms unfolding agree_def by metis

lemma SkipToNoCheck_f_agree:
  assumes "agree m sf sf'" and "buf_Len r \<le> m" and "buf_Len r < n" and "buf_Len r < n'"
  shows "\<exists>hv ty e r'. SkipToNoCheck_f n sf tag require r = Some (hv, ty, e, r')
    \<and> SkipToNoCheck_f n' sf' tag require r = Some (hv, ty, e, r') \<and> reach r r'"
  using assms(2-)
proof (induction n arbitrary: n' r)
  case (Suc n)
  obtain k where k: "n' = Suc k"
    using Suc.prems by (cases n') auto
  obtain ty tg e r1 where h: "readHead r = (ty, tg, e, r1)"
    by (metis prod_cases4)
  show ?case
  proof (cases "e = None \<and> ty \<noteq> StructEnd \<and> tg < tag")
    case False
    then show ?thesis
      using readHead_reach [OF h] readHead_unread_reach [of r ty tg r1] h
      by (auto simp: k)
  next
    case True
    then have less: "buf_Len r1 < buf_Len r"
      using h readHead_buf_Len by auto
    then have "buf_Len r1 < m"
      using Suc.prems by simp
    then obtain e2 r2 where sf: "sf ty r1 = Some (e2, r2)" "sf' ty r1 = Some (e2, r2)"
      and r2: "reach r1 r2"
      using agreeD [OF assms(1)] by metis
    have "buf_Len r2 < n" "buf_Len r2 < k" "buf_Len r2 \<le> m"
      using less Suc.prems k reach_buf_Len [OF r2] by simp_all
    then obtain hv ty' e' r' where "SkipToNoCheck_f n sf tag require r2 = Some (hv, ty', e', r')"
      "SkipToNoCheck_f k sf' tag require r2 = Some (hv, ty', e', r')" "reach r2 r'"
      using Suc.IH by metis
    moreover have "reach r r2"
      using readHead_reach [OF h] r2 by (rule reach_trans)
    ultimately show ?thesis
      using True h sf by (cases e2) (auto simp: k not_less intro: reach_trans)
  qed
qed simp

lemma ReadInt32_switch_reach:
  assumes "ReadInt32_switch d tag (hv, ty, e, r) = (v, e', r')"
  shows "reach r r'"
  using assms
  by (auto simp: ReadInt32_switch_def split: if_splits prod.splits dest: reach_bRead)

lemma ReadInt32_f_agree:
  assumes "agree m sf sf'" and "buf_Len r \<le> m" and "buf_Len r < n" and "buf_Len r < n'"
  shows "\<exists>v e r'. ReadInt32_f n sf d tag require r = Some (v, e, r')
    \<and> ReadInt32_f n' sf' d tag require r = Some (v, e, r') \<and> reach r r'"
proof -
  obtain hv ty e r1 where "SkipToNoCheck_f n sf tag require r = Some (hv, ty, e, r1)"
    "SkipToNoCheck_f n' sf' tag require r = Some (hv, ty, e, r1)" and r1: "reach r r1"
    using SkipToNoCheck_f_agree [OF assms] by metis
  moreover obtain v e' r' where sw: "ReadInt32_switch d tag (hv, ty, e, r1) = (v, e', r')"
    by (metis prod_cases3)
  moreover have "reach r r'"
    using r1 ReadInt32_switch_reach [OF sw] by (rule reach_trans)
  ultimately show ?thesis
    by (simp add: ReadInt32_f_def)
qed

lemma skipElems_f_agree:
  assumes "agree m sf sf'" and "buf_Len r \<le> m" and "buf_Len r < n" and "buf_Len r < n'"
  shows "\<exists>e r'. skipElems_f n sf i len r = Some (e, r')
    \<and> skipElems_f n' sf' i len r = Some (e, r') \<and> reach r r'"
  using assms(2-)
proof (induction n arbitrary: n' i r)
  case (Suc n)
  obtain k where k: "n' = Suc k"
    using Suc.prems by (cases n') auto
  obtain ty tg e r1 where h: "readHead r = (ty, tg, e, r1)"
    by (metis prod_cases4)
  show ?case
  proof (cases "sint i < sint len \<and> e = None")
    case False
    then show ?thesis
      using readHead_reach [OF h] h by (auto simp: k)
  next
    case True
    then have less: "buf_Len r1 < buf_Len r"
      using h readHead_buf_Len by auto
    then obtain e2 r2 where sf: "sf ty r1 = Some (e2, r2)" "sf' ty r1 = Some (e2, r2)"
      and r2: "reach r1 r2"
      using agreeD [OF assms(1)] Suc.prems(1) by (metis less_le_trans)
    have "buf_Len r2 < n" "buf_Len r2 < k" "buf_Len r2 \<le> m"
      using less Suc.prems k reach_buf_Len [OF r2] by simp_all
    then obtain e' r' where "skipElems_f n sf (i + 1) len r2 = Some (e', r')"
      "skipElems_f k sf' (i + 1) len r2 = Some (e', r')" "reach r2 r'"
      using Suc.IH by metis
    moreover have "reach r r2"
      using readHead_reach [OF h] r2 by (rule reach_trans)
    ultimately show ?thesis
      using True h sf by (auto simp: k intro: reach_trans)
  qed
qed simp

lemma SkipToStructEnd_f_agree:
  assumes "agree m sf sf'" and "buf_Len r \<le> m" and "buf_Len r < n" and "buf_Len r < n'"
  shows "\<exists>e r'. SkipToStructEnd_f n sf r = Some (e, r')
    \<and> SkipToStructEnd_f n' sf' r = Some (e, r') \<and> reach r r'"
  using assms(2-)
proof (induction n arbitrary: n' r)
  case (Suc n)
  obtain k where k: "n' = Suc k"
    using Suc.prems by (cases n') auto
  obtain ty tg e r1 where h: "readHead r = (ty, tg, e, r1)"
    by (metis prod_cases4)
  show ?case
  proof (cases "e = None")
    case False
    then show ?thesis
      using readHead_reach [OF h] h by (auto simp: k)
  next
    case True
    then have less: "buf_Len r1 < buf_Len r"
      using h readHead_buf_Len by auto
    then obtain e2 r2 where sf: "sf ty r1 = Some (e2, r2)" "sf' ty r1 = Some (e2, r2)"
      and r2: "reach r1 r2"
      using agreeD [OF assms(1)] Suc.prems(1) by (metis less_le_trans)
    have "buf_Len r2 < n" "buf_Len r2 < k" "buf_Len r2 \<le> m"
      using less Suc.prems k reach_buf_Len [OF r2] by simp_all
    then obtain e' r' where "SkipToStructEnd_f n sf r2 = Some (e', r')"
      "SkipToStructEnd_f k sf' r2 = Some (e', r')" "reach r2 r'"
      using Suc.IH by metis
    moreover have "reach r r2"
      using readHead_reach [OF h] r2 by (rule reach_trans)
    ultimately show ?thesis
      using True h sf by (cases e2) (auto simp: k intro: reach_trans)
  qed
qed simp

lemma skipCollection_f_agree:
  assumes "agree m sf sf'" and "buf_Len r \<le> m" and "buf_Len r < n" and "buf_Len r < n'"
  shows "\<exists>e r'. skipFieldMap_f n sf r = Some (e, r')
      \<and> skipFieldMap_f n' sf' r = Some (e, r') \<and> reach r r'"
    and "\<exists>e r'. skipFieldList_f n sf r = Some (e, r')
      \<and> skipFieldList_f n' sf' r = Some (e, r') \<and> reach r r'"
proof -
  obtain v e r1 where rd: "ReadInt32_f n sf 0 0 True r = Some (v, e, r1)"
    "ReadInt32_f n' sf' 0 0 True r = Some (v, e, r1)" and r1: "reach r r1"
    using ReadInt32_f_agree [OF assms] by metis
  have "buf_Len r1 \<le> m" "buf_Len r1 < n" "buf_Len r1 < n'"
    using reach_buf_Len [OF r1] assms by simp_all
  note loop = skipElems_f_agree [OF assms(1) this]
  show "\<exists>e r'. skipFieldMap_f n sf r = Some (e, r')
      \<and> skipFieldMap_f n' sf' r = Some (e, r') \<and> reach r r'"
    using rd r1 loop [of 0 "v * 2"]
    by (cases e) (auto simp: skipFieldMap_f_def intro: reach_trans)
  show "\<exists>e r'. skipFieldList_f n sf r = Some (e, r')
      \<and> skipFieldList_f n' sf' r = Some (e, r') \<and> reach r r'"
    using rd r1 loop [of 0 v]
    by (cases e) (auto simp: skipFieldList_f_def intro: reach_trans)
qed

lemma skipFieldSimpleList_f_agree:
  assumes "agree m sf sf'" and "buf_Len r \<le> m" and "buf_Len r < n" and "buf_Len r < n'"
  shows "\<exists>e r'. skipFieldSimpleList_f n sf r = Some (e, r')
      \<and> skipFieldSimpleList_f n' sf' r = Some (e, r') \<and> reach r r'"
proof -
  obtain ty tg e r1 where h: "readHead r = (ty, tg, e, r1)"
    by (metis prod_cases4)
  have r1: "reach r r1"
    by (rule readHead_reach [OF h])
  have "buf_Len r1 \<le> m" "buf_Len r1 < n" "buf_Len r1 < n'"
    using reach_buf_Len [OF r1] assms by simp_all
  then obtain v e2 r2 where "ReadInt32_f n sf 0 0 True r1 = Some (v, e2, r2)"
    "ReadInt32_f n' sf' 0 0 True r1 = Some (v, e2, r2)" "reach r1 r2"
    using ReadInt32_f_agree [OF assms(1)] by metis
  moreover from this have "reach r r2" "reach r (Skip (sint v) r2)"
    using r1 reach_Skip by (metis reach_trans)+
  ultimately show ?thesis
    using h r1 by (cases e; cases e2) (auto simp: skipFieldSimpleList_f_def)
qed

lemma skipField_body_agree:
  assumes "agree m sf sf'" and "buf_Len r \<le> m" and "buf_Len r < n" and "buf_Len r < n'"
  shows "\<exists>e r'. skipField_body n sf ty r = Some (e, r')
      \<and> skipField_body n' sf' ty r = Some (e, r') \<and> reach r r'"
proof -
  obtain d e r1 where rb: "buf_ReadByte r = (d, e, r1)"
    by (metis prod_cases3)
  obtain d4 e4 r4 where r4: "bReadU32 r = (d4, e4, r4)"
    by (metis prod_cases3)
  have "reach r r1" "reach r r4" "reach r (Skip (uint d) r1)" "reach r (Skip (uint d4) r4)"
    using reach_ReadByte [OF rb] reach_bRead(3) [OF r4] reach_Skip reach_trans by blast+
  then show ?thesis
    using skipCollection_f_agree [OF assms] skipFieldSimpleList_f_agree [OF assms]
      SkipToStructEnd_f_agree [OF assms] rb r4
    unfolding skipField_body_def
    by (simp split: if_split)
qed

lemma skipField_f_agree:
  "buf_Len r < n \<Longrightarrow> buf_Len r < n' \<Longrightarrow>
     \<exists>e r'. skipField_f n ty r = Some (e, r') \<and> skipField_f n' ty r = Some (e, r') \<and> reach r r'"
proof (induction n arbitrary: n' ty r)
  case (Suc n)
  obtain k where k: "n' = Suc k"
    using Suc.prems by (cases n') auto
  have "agree (min n k) (skipField_f n) (skipField_f k)"
    unfolding agree_def using Suc.IH by (metis min_less_iff_conj)
  then show ?case
    using skipField_body_agree [of "min n k" "skipField_f n" "skipField_f k" r "Suc n" "Suc k" ty]
      Suc.prems by (simp add: k)
qed simp

section \<open>The equations of the source\<close>

lemma skipField_f_skipField:
  assumes "buf_Len r < n"
  shows "skipField_f n ty r = Some (skipField ty r)"
  using skipField_f_agree [OF assms lessI, of ty]
  by (auto simp del: skipField_f.simps simp add: skipField_def)

lemma skipField_reach: "skipField ty r = (e, r') \<Longrightarrow> reach r r'"
  using skipField_f_agree [of r "Suc (buf_Len r)" "Suc (buf_Len r)" ty]
  by (auto simp: skipField_def)

lemma agree_skipField': "agree m skipField' skipField'"
  unfolding agree_def by (metis skipField_reach surj_pair)

lemma agree_skipField_f: "agree n (skipField_f n) skipField'"
  unfolding agree_def
  by (metis skipField_f_skipField skipField_reach surj_pair)

lemmas skip_agree =
  SkipToNoCheck_f_agree [OF agree_skipField' order_refl]
  ReadInt32_f_agree [OF agree_skipField' order_refl]
  skipElems_f_agree [OF agree_skipField' order_refl]
  SkipToStructEnd_f_agree [OF agree_skipField' order_refl]
  skipCollection_f_agree [OF agree_skipField' order_refl]
  skipFieldSimpleList_f_agree [OF agree_skipField' order_refl]

text \<open>With enough fuel, each loop is the operation without fuel, whatever the surplus.\<close>

lemma SkipToNoCheck_f_total:
  "buf_Len r < n \<Longrightarrow> SkipToNoCheck_f n skipField' tag require r = Some (SkipToNoCheck tag require r)"
  using skip_agree(1) [of r n "Suc (buf_Len r)" tag require]
  by (auto simp: SkipToNoCheck_def)

lemma skipElems_f_total:
  "buf_Len r < n \<Longrightarrow> skipElems_f n skipField' i len r = Some (skipElems i len r)"
  using skip_agree(3) [of r n "Suc (buf_Len r)" i len] by (auto simp: skipElems_def)

lemma SkipToStructEnd_f_total:
  "buf_Len r < n \<Longrightarrow> SkipToStructEnd_f n skipField' r = Some (SkipToStructEnd r)"
  using skip_agree(4) [of r n "Suc (buf_Len r)"] by (auto simp: SkipToStructEnd_def)

lemma ReadInt32_f_total:
  "buf_Len r < n \<Longrightarrow> ReadInt32_f n skipField' d tag require r = Some (ReadInt32 d tag require r)"
  by (simp add: ReadInt32_f_def ReadInt32_def SkipToNoCheck_f_total)

lemma SkipToNoCheck_reach: "SkipToNoCheck tag require r = (hv, ty, e, r') \<Longrightarrow> reach r r'"
  using skip_agree(1) [of r "Suc (buf_Len r)" "Suc (buf_Len r)" tag require]
  by (auto simp: SkipToNoCheck_def)

lemma SkipToStructEnd_reach: "SkipToStructEnd r = (e, r') \<Longrightarrow> reach r r'"
  using skip_agree(4) [of r "Suc (buf_Len r)" "Suc (buf_Len r)"]
  by (auto simp: SkipToStructEnd_def)

lemma ReadInt32_reach: "ReadInt32 d tag require r = (v, e, r') \<Longrightarrow> reach r r'"
  using skip_agree(2) [of r "Suc (buf_Len r)" "Suc (buf_Len r)" d tag require]
  by (simp add: ReadInt32_f_total)

lemma SkipToNoCheck_unfold:
  "SkipToNoCheck tag require r =
     (case readHead r of (tyCur, tagCur, err, r1) \<Rightarrow>
        if err \<noteq> None then
          (if require then (False, tyCur, Some (RequireNotFound tag (the err)), r1)
           else (False, tyCur, None, r1))
        else if tyCur = StructEnd \<or> tagCur > tag then
          (if require then (False, tyCur, Some (RequireStop tag tagCur tyCur), r1)
           else (False, tyCur, None, unreadHead tagCur r1))
        else if tagCur = tag then (True, tyCur, None, r1)
        else (case skipField tyCur r1 of (err, r2) \<Rightarrow>
                if err \<noteq> None then (False, tyCur, err, r2)
                else SkipToNoCheck tag require r2))"
proof -
  obtain ty tg e r1 where h: "readHead r = (ty, tg, e, r1)"
    by (metis prod_cases4)
  obtain e2 r2 where sk: "skipField ty r1 = (e2, r2)"
    by (metis surj_pair)
  have "buf_Len r2 < buf_Len r" if "e = None"
    using readHead_buf_Len [of r ty tg r1] h that reach_buf_Len [OF skipField_reach [OF sk]]
    by simp
  then have "SkipToNoCheck_f (buf_Len r) skipField' tag require r2
      = Some (SkipToNoCheck tag require r2)" if "e = None"
    using that by (simp add: SkipToNoCheck_f_total)
  then show ?thesis
    by (simp add: SkipToNoCheck_def [of tag require r] h sk)
qed

lemma SkipToStructEnd_unfold:
  "SkipToStructEnd r =
     (case readHead r of (ty, _, err, r1) \<Rightarrow>
        if err \<noteq> None then (err, r1)
        else (case skipField ty r1 of (err, r2) \<Rightarrow>
                if err \<noteq> None then (err, r2)
                else if ty = StructEnd then (None, r2)
                else SkipToStructEnd r2))"
proof -
  obtain ty tg e r1 where h: "readHead r = (ty, tg, e, r1)"
    by (metis prod_cases4)
  obtain e2 r2 where sk: "skipField ty r1 = (e2, r2)"
    by (metis surj_pair)
  have "buf_Len r2 < buf_Len r" if "e = None"
    using readHead_buf_Len [of r ty tg r1] h that reach_buf_Len [OF skipField_reach [OF sk]]
    by simp
  then have "SkipToStructEnd_f (buf_Len r) skipField' r2 = Some (SkipToStructEnd r2)"
    if "e = None"
    using that by (simp add: SkipToStructEnd_f_total)
  then show ?thesis
    by (simp add: SkipToStructEnd_def [of r] h sk)
qed

lemma skipElems_unfold:
  "skipElems i len r =
     (if sint i < sint len then
        (case readHead r of (tyCur, _, err, r1) \<Rightarrow>
           if err \<noteq> None then (err, r1)
           else skipElems (i + 1) len (snd (skipField tyCur r1)))
      else (None, r))"
proof -
  obtain ty tg e r1 where h: "readHead r = (ty, tg, e, r1)"
    by (metis prod_cases4)
  obtain e2 r2 where sk: "skipField ty r1 = (e2, r2)"
    by (metis surj_pair)
  have "buf_Len r2 < buf_Len r" if "e = None"
    using readHead_buf_Len [of r ty tg r1] h that reach_buf_Len [OF skipField_reach [OF sk]]
    by simp
  then have "skipElems_f (buf_Len r) skipField' (i + 1) len r2 = Some (skipElems (i + 1) len r2)"
    if "e = None"
    using that by (simp add: skipElems_f_total)
  then show ?thesis
    by (simp add: skipElems_def [of i len r] h sk)
qed

lemma skipFieldMap_unfold:
  "skipFieldMap r = (case ReadInt32 0 0 True r of (len, err, r1) \<Rightarrow>
     if err \<noteq> None then (err, r1) else skipElems 0 (len * 2) r1)"
proof -
  obtain v e r1 where rd: "ReadInt32 0 0 True r = (v, e, r1)"
    by (metis prod_cases3)
  then have "buf_Len r1 < Suc (buf_Len r)"
    using reach_buf_Len [OF ReadInt32_reach [OF rd]] by simp
  then show ?thesis
    by (simp add: skipFieldMap_def skipFieldMap_f_def ReadInt32_f_total rd skipElems_f_total
        del: skipElems_f.simps)
qed

lemma skipFieldList_unfold:
  "skipFieldList r = (case ReadInt32 0 0 True r of (len, err, r1) \<Rightarrow>
     if err \<noteq> None then (err, r1) else skipElems 0 len r1)"
proof -
  obtain v e r1 where rd: "ReadInt32 0 0 True r = (v, e, r1)"
    by (metis prod_cases3)
  then have "buf_Len r1 < Suc (buf_Len r)"
    using reach_buf_Len [OF ReadInt32_reach [OF rd]] by simp
  then show ?thesis
    by (simp add: skipFieldList_def skipFieldList_f_def ReadInt32_f_total rd skipElems_f_total
        del: skipElems_f.simps)
qed

lemma skipFieldSimpleList_unfold:
  "skipFieldSimpleList r =
     (case readHead r of (tyCur, _, err, r1) \<Rightarrow>
        if tyCur \<noteq> BYTE then (Some (SimpleListHead tyCur), r1)
        else if err \<noteq> None then (err, r1)
        else (case ReadInt32 0 0 True r1 of (len, err, r2) \<Rightarrow>
                if err \<noteq> None then (err, r2) else (None, Skip (sint len) r2)))"
proof -
  obtain ty tg e r1 where h: "readHead r = (ty, tg, e, r1)"
    by (metis prod_cases4)
  then have "buf_Len r1 < Suc (buf_Len r)"
    using reach_buf_Len [OF readHead_reach [OF h]] by simp
  then show ?thesis
    by (simp add: skipFieldSimpleList_def skipFieldSimpleList_f_def h ReadInt32_f_total
        split: prod.splits)
qed

lemma skipField_unfold:
  "skipField ty r =
     (if ty = BYTE then (None, Skip 1 r)
      else if ty = SHORT then (None, Skip 2 r)
      else if ty = INT_t then (None, Skip 4 r)
      else if ty = LONG then (None, Skip 8 r)
      else if ty = FLOAT then (None, Skip 4 r)
      else if ty = DOUBLE then (None, Skip 8 r)
      else if ty = STRING1 then
        (case buf_ReadByte r of (data, err, r1) \<Rightarrow>
           if err \<noteq> None then (err, r1) else (None, Skip (uint data) r1))
      else if ty = STRING4 then
        (case bReadU32 r of (l, err, r1) \<Rightarrow>
           if err \<noteq> None then (err, r1) else (None, Skip (uint l) r1))
      else if ty = MAP then skipFieldMap r
      else if ty = LIST then skipFieldList r
      else if ty = SimpleList then skipFieldSimpleList r
      else if ty = StructBegin then SkipToStructEnd r
      else if ty = StructEnd then (None, r)
      else if ty = ZeroTag then (None, r)
      else (Some InvalidType, r))"
proof -
  have "skipField_f (Suc (buf_Len r)) ty r = skipField_body (Suc (buf_Len r)) skipField' ty r"
    using skipField_body_agree [OF agree_skipField_f, of r "buf_Len r" "Suc (buf_Len r)"
      "Suc (buf_Len r)" ty] by auto
  then have "skipField ty r = the (skipField_body (Suc (buf_Len r)) skipField' ty r)"
    by (simp add: skipField_def)
  then show ?thesis
    by (simp add: skipField_body_def skipFieldMap_def skipFieldList_def skipFieldSimpleList_def
        SkipToStructEnd_def split: prod.splits)
qed

end
