(* ===== verification/Codec_Roundtrip.thy ===== *)
theory Codec_Roundtrip
  imports Codec_Skip
begin

text \<open>
  Reading back what was written. \<open>unread r\<close> is what a reader still has before it; the
  lemmas of the first section say what each operation does when that starts with an
  encoding. The locale \<open>field_codec\<close> is the contract between a \<^verbatim>\<open>Write...\<close> method and the
  \<^verbatim>\<open>Read...\<close> method of the same type; it is interpreted on all twelve pairs of
  \<^verbatim>\<open>codec.go\<close>. The wire format of nested values (\<open>jval\<close>) serves to show that \<^verbatim>\<open>skipField\<close>
  steps over any well-formed value, so that fields a reader does not know are ignored.
\<close>

section \<open>What a reader has before it\<close>

definition unread :: "Reader \<Rightarrow> bytes" where
  "unread r = drop (off r) (ref r)"

definition adv :: "nat \<Rightarrow> Reader \<Rightarrow> Reader" where
  "adv n r = r\<lparr>off := off r + n\<rparr>"

lemma unread_adv [simp]: "unread (adv n r) = drop n (unread r)"
  by (simp add: unread_def adv_def add.commute)

lemma adv_adv [simp]: "adv m (adv n r) = adv (n + m) r"
  by (simp add: adv_def add.assoc)

lemma adv_0 [simp]: "adv 0 r = r"
  by (simp add: adv_def)

lemma unread_NewReader [simp]: "unread (NewReader bs) = bs"
  by (simp add: unread_def NewReader_def)

lemma unread_Cons: "unread r = x # xs \<Longrightarrow> off r < length (ref r) \<and> ref r ! off r = x"
  using nth_via_drop [of "off r" "ref r" x xs] by (auto simp: unread_def not_le [symmetric])

lemma unread_nonempty: "unread r \<noteq> [] \<longleftrightarrow> off r < length (ref r)"
  by (simp add: unread_def not_le)

lemma ReadByte_unread [reader_simps]:
  "unread r = x # xs \<Longrightarrow> buf_ReadByte r = (x, None, adv 1 r)"
  using unread_Cons [of r x xs] by (simp add: buf_ReadByte_def adv_def)

lemma ReadByte_end: "unread r = [] \<Longrightarrow> buf_ReadByte r = (0, Some EOF, r)"
  using unread_nonempty [of r] by (simp add: buf_ReadByte_def not_less)

lemma Read_unread:
  assumes "unread r = bs @ xs" and "n = length bs" and "unread r \<noteq> []"
  shows "buf_Read n r = (bs, None, adv n r)"
proof -
  have "off r < length (ref r)"
    using assms(3) unread_nonempty by blast
  moreover have "take n (drop (off r) (ref r)) = bs"
    using assms by (simp add: unread_def)
  ultimately show ?thesis
    using assms(2) by (simp add: buf_Read_def adv_def)
qed

lemma Read_PutUint:
  assumes "unread r = bs @ xs" and "n = length bs" and "0 < n"
  shows "buf_Read n r = (bs, None, adv n r)"
  using assms by (intro Read_unread [of r bs xs]) auto

lemma bRead_unread [reader_simps]:
  "unread r = d1 # xs \<Longrightarrow> bReadU8 r = (d1, None, adv 1 r)"
  "unread r = PutUint16 d2 @ xs \<Longrightarrow> bReadU16 r = (d2, None, adv 2 r)"
  "unread r = PutUint32 d4 @ xs \<Longrightarrow> bReadU32 r = (d4, None, adv 4 r)"
  "unread r = PutUint64 d8 @ xs \<Longrightarrow> bReadU64 r = (d8, None, adv 8 r)"
  by (simp_all add: bReadU8_def bReadU16_def bReadU32_def bReadU64_def ReadByte_unread
      Read_PutUint)

lemma Skip_adv [reader_simps]: "0 \<le> n \<Longrightarrow> Skip n r = adv (nat n) r"
  by (auto simp: Skip_def buf_Seek_def adv_def)

lemma Next_unread [reader_simps]:
  assumes "unread r = s @ xs" and "n = int (length s)"
  shows "Next n r = (s, adv (length s) r)"
proof (cases "s = []")
  case True
  then show ?thesis
    using assms(2) by (simp add: Next_def)
next
  case False
  then have lt: "off r < length (ref r)"
    using assms(1) unread_nonempty [of r] by simp
  have "length (unread r) = length s + length xs"
    using assms(1) by simp
  then have len: "off r + length s \<le> length (ref r)"
    using lt by (simp add: unread_def)
  have "take (length s) (drop (off r) (ref r)) = s"
    using assms(1) by (simp add: unread_def)
  then show ?thesis
    using False lt len assms(2)
    by (simp add: Next_def Let_def buf_Len_eq buf_Seek_def adv_def)
qed

section \<open>Heads\<close>

lemma and_15_self: "(ty :: byte) < 16 \<Longrightarrow> ty AND 15 = ty"
proof -
  assume "ty < 16"
  then have "take_bit 4 ty = ty"
    by (simp add: take_bit_eq_mod mod_word_less)
  then show ?thesis
    by (simp add: take_bit_eq_mask mask_eq_exp_minus_1)
qed

lemma head_bits:
  fixes ty tag :: byte
  assumes "ty < 16" and "tag < 16"
  shows "(push_bit 4 tag OR ty) AND 15 = ty"
    and "drop_bit 4 ((push_bit 4 tag OR ty) AND 240) = tag"
proof -
  have ty: "ty = ty AND mask 4" and tag: "tag = tag AND mask 4"
    using and_15_self [OF assms(1)] and_15_self [OF assms(2)]
    by (simp_all add: mask_eq_exp_minus_1)
  have m: "(15 :: byte) = mask 4" "(240 :: byte) = push_bit 4 (mask 4)"
    by (simp_all add: mask_eq_exp_minus_1 push_bit_eq_mult)
  show "(push_bit 4 tag OR ty) AND 15 = ty"
    by (subst (2) ty, subst (1) ty, unfold m, rule bit_word_eqI) (auto simp: bit_simps)
  show "drop_bit 4 ((push_bit 4 tag OR ty) AND 240) = tag"
    by (subst (2) tag, subst (1) tag, subst (1) ty, unfold m, rule bit_word_eqI)
      (auto simp: bit_simps)
qed

lemma readHead_enc [reader_simps]:
  assumes "unread r = encHead ty tag @ xs" and "ty < 16"
  shows "readHead r = (ty, tag, None, adv (length (encHead ty tag)) r)"
proof (cases "tag < 15")
  case True
  then have "unread r = (push_bit 4 tag OR ty) # xs" and "tag \<noteq> 15"
    using assms(1) by (auto simp: encHead_def)
  moreover have "tag < 16"
    using True by (rule less_trans) simp
  ultimately show ?thesis
    using True head_bits [OF assms(2) \<open>tag < 16\<close>]
    by (simp add: readHead_def ReadByte_unread encHead_def Let_def)
next
  case False
  have "push_bit 4 (15 :: byte) = 240"
    by (simp add: push_bit_eq_mult)
  then have "(240 OR ty) AND 15 = ty" "drop_bit 4 ((240 OR ty) AND 240) = (15 :: byte)"
    using head_bits [OF assms(2), of 15] by simp_all
  moreover have "unread r = (240 OR ty) # tag # xs"
    using assms(1) False by (simp add: encHead_def)
  ultimately show ?thesis
    using False by (simp add: readHead_def ReadByte_unread encHead_def Let_def)
qed

lemma unreadHead_adv [simp]: "unreadHead tag (adv (length (encHead ty tag)) r) = r"
  by (auto simp: unreadHead_def buf_UnreadByte_def adv_def encHead_def not_less Let_def)

lemma SkipToNoCheck_found [reader_simps]:
  assumes "unread r = encHead ty tag @ xs" and "ty < 16" and "ty \<noteq> StructEnd"
  shows "SkipToNoCheck tag require r = (True, ty, None, adv (length (encHead ty tag)) r)"
  using assms by (subst SkipToNoCheck_unfold) (simp add: readHead_enc)

text \<open>An optional field that is absent leaves the reader where it is: at the end of the data,
  at the end of a struct, or before a field with a larger tag.\<close>

lemma SkipToNoCheck_absent:
  assumes "unread r = encHead ty tg @ xs" and "ty < 16" and "ty = StructEnd \<or> tg > tag"
  shows "SkipToNoCheck tag False r = (False, ty, None, r)"
    and "SkipToNoCheck tag True r =
      (False, ty, Some (RequireStop tag tg ty), adv (length (encHead ty tg)) r)"
  using assms by (subst SkipToNoCheck_unfold, auto simp: readHead_enc)+

lemma SkipToNoCheck_end:
  assumes "unread r = []"
  shows "SkipToNoCheck tag False r = (False, 0, None, r)"
    and "SkipToNoCheck tag True r = (False, 0, Some (RequireNotFound tag EOF), r)"
  using assms
  by (subst SkipToNoCheck_unfold, simp add: readHead_def ReadByte_end)+

lemma ty_small [simp]:
  "BYTE < 16" "SHORT < 16" "INT_t < 16" "LONG < 16" "FLOAT < 16" "DOUBLE < 16"
  "STRING1 < 16" "STRING4 < 16" "MAP < 16" "LIST < 16" "StructBegin < 16" "StructEnd < 16"
  "ZeroTag < 16" "SimpleList < 16"
  by (simp_all add: jce_ty_defs)

section \<open>Integers\<close>

text \<open>The type code that an integer is written with.\<close>

definition intTy :: "int \<Rightarrow> byte" where
  "intTy n =
     (if n = 0 then ZeroTag
      else if - 128 \<le> n \<and> n < 128 then BYTE
      else if - 32768 \<le> n \<and> n < 32768 then SHORT
      else if - 2147483648 \<le> n \<and> n < 2147483648 then INT_t else LONG)"

definition intBody :: "int \<Rightarrow> bytes" where
  "intBody n =
     (if n = 0 then []
      else if - 128 \<le> n \<and> n < 128 then [word_of_int n]
      else if - 32768 \<le> n \<and> n < 32768 then PutUint16 (word_of_int n)
      else if - 2147483648 \<le> n \<and> n < 2147483648 then PutUint32 (word_of_int n)
      else PutUint64 (word_of_int n))"

lemma encInt_split: "encInt n tag = encHead (intTy n) tag @ intBody n"
  by (simp add: encInt_def intTy_def intBody_def)

lemma intTy_ok [simp]: "intTy n < 16" "intTy n \<noteq> StructEnd"
  by (simp_all add: intTy_def jce_ty_defs)

lemma SkipToNoCheck_int:
  "unread r = encInt n tag @ xs \<Longrightarrow>
     SkipToNoCheck tag require r = (True, intTy n, None, adv (length (encHead (intTy n) tag)) r)"
  by (simp add: encInt_split SkipToNoCheck_found)

lemma sint_of_int [simp]:
  "- 128 \<le> n \<Longrightarrow> n < 128 \<Longrightarrow> sint (word_of_int n :: int8) = n"
  "- 32768 \<le> n \<Longrightarrow> n < 32768 \<Longrightarrow> sint (word_of_int n :: int16) = n"
  "- 2147483648 \<le> n \<Longrightarrow> n < 2147483648 \<Longrightarrow> sint (word_of_int n :: int32) = n"
  "- 9223372036854775808 \<le> n \<Longrightarrow> n < 9223372036854775808 \<Longrightarrow> sint (word_of_int n :: int64) = n"
  by (intro sint_word_of_int_small; simp)+

lemma int_forms:
  obtains (zero) "n = 0" "intTy n = ZeroTag" "intBody n = []"
  | (byte) "- 128 \<le> n" "n < 128" "intTy n = BYTE" "intBody n = [word_of_int n]"
  | (short) "- 32768 \<le> n" "n < 32768" "\<not> (- 128 \<le> n \<and> n < 128)"
      "intTy n = SHORT" "intBody n = PutUint16 (word_of_int n)"
  | (int) "- 2147483648 \<le> n" "n < 2147483648" "\<not> (- 32768 \<le> n \<and> n < 32768)"
      "intTy n = INT_t" "intBody n = PutUint32 (word_of_int n)"
  | (long) "\<not> (- 2147483648 \<le> n \<and> n < 2147483648)"
      "intTy n = LONG" "intBody n = PutUint64 (word_of_int n)"
proof -
  consider "n = 0" | "n \<noteq> 0" "- 128 \<le> n \<and> n < 128"
    | "- 32768 \<le> n \<and> n < 32768" "\<not> (- 128 \<le> n \<and> n < 128)"
    | "- 2147483648 \<le> n \<and> n < 2147483648" "\<not> (- 32768 \<le> n \<and> n < 32768)"
    | "\<not> (- 2147483648 \<le> n \<and> n < 2147483648)"
    by blast
  then show thesis
  proof cases
    case 1 then show ?thesis by (intro zero) (simp_all add: intTy_def intBody_def)
  next
    case 2 then show ?thesis by (intro byte) (simp_all add: intTy_def intBody_def)
  next
    case 3
    then have "n \<noteq> 0" by auto
    with 3 show ?thesis by (intro short) (simp_all only: intTy_def intBody_def if_True if_False simp_thms)
  next
    case 4
    then have "n \<noteq> 0" "\<not> (- 128 \<le> n \<and> n < 128)" by auto
    with 4 show ?thesis by (intro int) (simp_all only: intTy_def intBody_def if_True if_False simp_thms)
  next
    case 5
    then have "n \<noteq> 0" "\<not> (- 128 \<le> n \<and> n < 128)" "\<not> (- 32768 \<le> n \<and> n < 32768)" by auto
    with 5 show ?thesis by (intro long) (simp_all only: intTy_def intBody_def if_True if_False simp_thms)
  qed
qed

lemma bRead_intBody:
  assumes "unread r = intBody n @ xs"
  shows "intBody n = [b] \<Longrightarrow> bReadU8 r = (b, None, adv 1 r)"
    and "intBody n = PutUint16 w2 \<Longrightarrow> bReadU16 r = (w2, None, adv 2 r)"
    and "intBody n = PutUint32 w4 \<Longrightarrow> bReadU32 r = (w4, None, adv 4 r)"
    and "intBody n = PutUint64 w8 \<Longrightarrow> bReadU64 r = (w8, None, adv 8 r)"
  using assms by (simp_all add: bRead_unread)

lemma scast_of_int [simp]:
  "- 128 \<le> n \<Longrightarrow> n < 128 \<Longrightarrow> scast (word_of_int n :: int8) = word_of_int n"
  "- 32768 \<le> n \<Longrightarrow> n < 32768 \<Longrightarrow> scast (word_of_int n :: int16) = word_of_int n"
  "- 2147483648 \<le> n \<Longrightarrow> n < 2147483648 \<Longrightarrow> scast (word_of_int n :: int32) = word_of_int n"
  by (simp_all only: scast_eq sint_of_int)

lemma bRead_int:
  assumes "unread r = encInt n tag @ xs"
  defines "r' \<equiv> adv (length (encHead (intTy n) tag)) r"
  shows "intBody n = [b] \<Longrightarrow> bReadU8 r' = (b, None, adv 1 r')"
    and "intBody n = PutUint16 w2 \<Longrightarrow> bReadU16 r' = (w2, None, adv 2 r')"
    and "intBody n = PutUint32 w4 \<Longrightarrow> bReadU32 r' = (w4, None, adv 4 r')"
    and "intBody n = PutUint64 w8 \<Longrightarrow> bReadU64 r' = (w8, None, adv 8 r')"
  using assms bRead_intBody [of r' n xs] by (simp_all add: encInt_split)

lemma ReadInt8_enc:
  assumes "unread r = encInt n tag @ xs" and "- 128 \<le> n" and "n < 128"
  shows "ReadInt8 d tag require r = (word_of_int n, None, adv (length (encInt n tag)) r)"
  using SkipToNoCheck_int [OF assms(1), of require] bRead_int [OF assms(1)] assms(2,3)
  by (cases n rule: int_forms)
    (simp_all add: ReadInt8_def encInt_split jce_ty_defs)

lemma ReadInt16_enc:
  assumes "unread r = encInt n tag @ xs" and "- 32768 \<le> n" and "n < 32768"
  shows "ReadInt16 d tag require r = (word_of_int n, None, adv (length (encInt n tag)) r)"
  using SkipToNoCheck_int [OF assms(1), of require] bRead_int [OF assms(1)] assms(2,3)
  by (cases n rule: int_forms)
    (simp_all add: ReadInt16_def encInt_split jce_ty_defs)

lemma ReadInt32_enc:
  assumes "unread r = encInt n tag @ xs" and "- 2147483648 \<le> n" and "n < 2147483648"
  shows "ReadInt32 d tag require r = (word_of_int n, None, adv (length (encInt n tag)) r)"
  using SkipToNoCheck_int [OF assms(1), of require] bRead_int [OF assms(1)] assms(2,3)
  by (cases n rule: int_forms)
    (simp_all add: ReadInt32_def ReadInt32_switch_def encInt_split jce_ty_defs)

lemma ReadInt64_enc:
  assumes "unread r = encInt n tag @ xs"
  shows "ReadInt64 d tag require r = (word_of_int n, None, adv (length (encInt n tag)) r)"
  using SkipToNoCheck_int [OF assms(1), of require] bRead_int [OF assms(1)]
  by (cases n rule: int_forms)
    (simp_all add: ReadInt64_def encInt_split jce_ty_defs)

section \<open>Strings\<close>

lemma ReadString_enc:
  assumes "unread r = encString s tag @ xs" and "length s < 4294967296"
  shows "ReadString d tag require r = (s, None, adv (length (encString s tag)) r)"
proof (cases "length s > 255")
  case True
  define r1 where "r1 = adv (length (encHead STRING4 tag)) r"
  have f: "SkipToNoCheck tag require r = (True, STRING4, None, r1)"
    using assms(1) True unfolding r1_def
    by (intro SkipToNoCheck_found) (simp_all add: encString_def jce_ty_defs)
  have "unread r1 = PutUint32 (word_of_nat (length s)) @ s @ xs"
    using assms(1) True by (simp add: r1_def encString_def)
  then have l: "bReadU32 r1 = (word_of_nat (length s), None, adv 4 r1)" and "unread (adv 4 r1) = s @ xs"
    by (simp_all add: bRead_unread)
  moreover have "uint (word_of_nat (length s) :: uint32) = int (length s)"
    using assms(2) by (simp add: unsigned_of_nat take_bit_nat_eq_self)
  ultimately have "Next (uint (word_of_nat (length s) :: uint32)) (adv 4 r1)
      = (s, adv (length s) (adv 4 r1))"
    by (simp add: Next_unread)
  then show ?thesis
    using f l True by (simp add: ReadString_def encString_def r1_def algebra_simps)
next
  case False
  define r1 where "r1 = adv (length (encHead STRING1 tag)) r"
  have f: "SkipToNoCheck tag require r = (True, STRING1, None, r1)"
    using assms(1) False unfolding r1_def
    by (intro SkipToNoCheck_found) (simp_all add: encString_def jce_ty_defs)
  have "unread r1 = word_of_nat (length s) # s @ xs"
    using assms(1) False by (simp add: r1_def encString_def)
  then have l: "bReadU8 r1 = (word_of_nat (length s), None, adv 1 r1)" and "unread (adv 1 r1) = s @ xs"
    by (simp_all add: bRead_unread)
  moreover have "uint (word_of_nat (length s) :: uint8) = int (length s)"
    using False by (simp add: unsigned_of_nat take_bit_nat_eq_self)
  ultimately have "Next (uint (word_of_nat (length s) :: uint8)) (adv 1 r1)
      = (s, adv (length s) (adv 1 r1))"
    by (simp add: Next_unread)
  then show ?thesis
    using f l False
    by (simp add: ReadString_def encString_def r1_def jce_ty_defs algebra_simps)
qed

section \<open>Floating point values\<close>

lemma ReadFloat32_enc:
  assumes "unread r = (encHead FLOAT tag @ PutUint32 f) @ xs"
  shows "ReadFloat32 d tag require r = (f, None, adv (length (encHead FLOAT tag @ PutUint32 f)) r)"
proof -
  have "SkipToNoCheck tag require r = (True, FLOAT, None, adv (length (encHead FLOAT tag)) r)"
    using assms by (intro SkipToNoCheck_found) (simp_all add: jce_ty_defs)
  moreover have "bReadU32 (adv (length (encHead FLOAT tag)) r)
      = (f, None, adv 4 (adv (length (encHead FLOAT tag)) r))"
    using assms by (intro bRead_unread) simp
  ultimately show ?thesis
    by (simp add: ReadFloat32_def jce_ty_defs)
qed

lemma ReadFloat64_enc:
  assumes "unread r = (encHead DOUBLE tag @ PutUint64 f) @ xs"
  shows "ReadFloat64 d tag require r = (f, None, adv (length (encHead DOUBLE tag @ PutUint64 f)) r)"
proof -
  have "SkipToNoCheck tag require r = (True, DOUBLE, None, adv (length (encHead DOUBLE tag)) r)"
    using assms by (intro SkipToNoCheck_found) (simp_all add: jce_ty_defs)
  moreover have "bReadU64 (adv (length (encHead DOUBLE tag)) r)
      = (f, None, adv 8 (adv (length (encHead DOUBLE tag)) r))"
    using assms by (intro bRead_unread) simp
  ultimately show ?thesis
    by (simp add: ReadFloat64_def jce_ty_defs)
qed

section \<open>Nested values and skipping\<close>

text \<open>
  The values of the wire format: what generated code writes for base types, maps, vectors,
  structs and byte vectors. In \<open>wfVal\<close>, sizes are those that the writers can represent; a
  map has fewer than \<open>2 ^ 30\<close> entries because \<^verbatim>\<open>skipFieldMap\<close> doubles its size in an
  \<^verbatim>\<open>int32\<close>.
\<close>

datatype jval =
    JInt int
  | JFloat float32
  | JDouble float64
  | JString gostring
  | JMap "(jval \<times> jval) list"
  | JList "jval list"
  | JStruct "(byte \<times> jval) list"
  | JBytes bytes

function (sequential) encVal :: "jval \<Rightarrow> byte \<Rightarrow> bytes"
  and encPairs :: "(jval \<times> jval) list \<Rightarrow> bytes"
  and encElems :: "jval list \<Rightarrow> bytes"
  and encFields :: "(byte \<times> jval) list \<Rightarrow> bytes" where
  "encVal (JInt n) tag = encInt n tag"
| "encVal (JFloat f) tag = encHead FLOAT tag @ PutUint32 f"
| "encVal (JDouble f) tag = encHead DOUBLE tag @ PutUint64 f"
| "encVal (JString s) tag = encString s tag"
| "encVal (JMap kvs) tag = encHead MAP tag @ encInt (int (length kvs)) 0 @ encPairs kvs"
| "encVal (JList vs) tag = encHead LIST tag @ encInt (int (length vs)) 0 @ encElems vs"
| "encVal (JStruct fs) tag = encHead StructBegin tag @ encFields fs @ encHead StructEnd 0"
| "encVal (JBytes bs) tag =
     encHead SimpleList tag @ encHead BYTE 0 @ encInt (int (length bs)) 0 @ bs"
| "encPairs [] = []"
| "encPairs ((k, v) # kvs) = encVal k 0 @ encVal v 1 @ encPairs kvs"
| "encElems [] = []"
| "encElems (v # vs) = encVal v 0 @ encElems vs"
| "encFields [] = []"
| "encFields ((t, v) # fs) = encVal v t @ encFields fs"
  by pat_completeness auto
termination
  by (relation "measure (case_sum (case_sum (\<lambda>(v, _). size v) (size_list (size_prod size size)))
      (case_sum (size_list size) (size_list (size_prod (\<lambda>_. 0) size))))") simp_all

function (sequential) wfVal :: "jval \<Rightarrow> bool"
  and wfPairs :: "(jval \<times> jval) list \<Rightarrow> bool"
  and wfElems :: "jval list \<Rightarrow> bool"
  and wfFields :: "(byte \<times> jval) list \<Rightarrow> bool" where
  "wfVal (JInt n) = (- (2 ^ 63) \<le> n \<and> n < 2 ^ 63)"
| "wfVal (JFloat f) = True"
| "wfVal (JDouble f) = True"
| "wfVal (JString s) = (length s < 2 ^ 32)"
| "wfVal (JMap kvs) = (length kvs < 2 ^ 30 \<and> wfPairs kvs)"
| "wfVal (JList vs) = (length vs < 2 ^ 31 \<and> wfElems vs)"
| "wfVal (JStruct fs) = wfFields fs"
| "wfVal (JBytes bs) = (length bs < 2 ^ 31)"
| "wfPairs [] = True"
| "wfPairs ((k, v) # kvs) = (wfVal k \<and> wfVal v \<and> wfPairs kvs)"
| "wfElems [] = True"
| "wfElems (v # vs) = (wfVal v \<and> wfElems vs)"
| "wfFields [] = True"
| "wfFields ((t, v) # fs) = (wfVal v \<and> wfFields fs)"
  by pat_completeness auto
termination
  by (relation "measure (case_sum (case_sum size (size_list (size_prod size size)))
      (case_sum (size_list size) (size_list (size_prod (\<lambda>_. 0) size))))") simp_all

text \<open>The reader, before a field with this tag, steps over \<open>k\<close> bytes by reading the head and
  skipping the field.\<close>

definition skips :: "byte \<Rightarrow> Reader \<Rightarrow> nat \<Rightarrow> bool" where
  "skips tag r k \<longleftrightarrow> (\<exists>ty r1. readHead r = (ty, tag, None, r1) \<and> ty \<noteq> StructEnd
     \<and> skipField ty r1 = (None, adv k r))"

lemma skipsI:
  assumes "unread r = encHead ty tag @ xs" and "ty < 16" and "ty \<noteq> StructEnd"
    and "skipField ty (adv (length (encHead ty tag)) r) = (None, adv k r)"
  shows "skips tag r k"
  using assms readHead_enc [OF assms(1,2)] unfolding skips_def by blast

lemma skipElems_done: "sint i = sint len \<Longrightarrow> skipElems i len r = (None, r)"
  by (subst skipElems_unfold) simp

lemma sint_succ: "sint (i :: int32) < sint (len :: int32) \<Longrightarrow> sint (i + 1) = sint i + 1"
  using sint_lt [of len] sint_ge [of i]
  by (simp add: sint_word_ariths signed_take_bit_int_eq_self)

lemma skipElems_step:
  assumes "skips tag r k" and "sint i < sint len"
  shows "skipElems i len r = skipElems (i + 1) len (adv k r)"
  using assms unfolding skips_def by (subst skipElems_unfold) auto

lemma SkipToStructEnd_step:
  assumes "skips tag r k"
  shows "SkipToStructEnd r = SkipToStructEnd (adv k r)"
  using assms unfolding skips_def by (subst SkipToStructEnd_unfold) auto

lemma SkipToNoCheck_step:
  assumes "skips tg r k" and "tg < tag"
  shows "SkipToNoCheck tag require r = SkipToNoCheck tag require (adv k r)"
  using assms unfolding skips_def by (subst SkipToNoCheck_unfold) auto

lemma SkipToStructEnd_stop:
  assumes "unread r = encHead StructEnd 0 @ xs"
  shows "SkipToStructEnd r = (None, adv (length (encHead StructEnd 0)) r)"
  using readHead_enc [OF assms]
  by (subst SkipToStructEnd_unfold) (simp add: skipField_unfold jce_ty_defs)

lemma skips_int: "unread r = encInt n tag @ xs \<Longrightarrow> skips tag r (length (encInt n tag))"
  by (cases n rule: int_forms)
    (auto intro!: skipsI simp: encInt_split skipField_unfold Skip_adv jce_ty_defs)

lemma skips_float:
  "unread r = encVal (JFloat f) tag @ xs \<Longrightarrow> skips tag r (length (encVal (JFloat f) tag))"
  "unread r = encVal (JDouble g) tag @ xs \<Longrightarrow> skips tag r (length (encVal (JDouble g) tag))"
  by (auto intro!: skipsI simp: skipField_unfold Skip_adv jce_ty_defs)

lemma skips_string:
  assumes "unread r = encString s tag @ xs" and "length s < 2 ^ 32"
  shows "skips tag r (length (encString s tag))"
proof (cases "length s > 255")
  case True
  let ?r = "adv (length (encHead STRING4 tag)) r"
  have "bReadU32 ?r = (word_of_nat (length s), None, adv 4 ?r)"
    using assms True by (intro bRead_unread) (simp add: encString_def)
  moreover have "uint (word_of_nat (length s) :: uint32) = int (length s)"
    using assms(2) by (simp add: unsigned_of_nat take_bit_nat_eq_self)
  ultimately show ?thesis
    using assms True
    by (intro skipsI [of r STRING4])
      (simp_all add: encString_def skipField_unfold Skip_adv jce_ty_defs add.assoc)
next
  case False
  let ?r = "adv (length (encHead STRING1 tag)) r"
  have "buf_ReadByte ?r = (word_of_nat (length s), None, adv 1 ?r)"
    using assms False by (intro ReadByte_unread) (simp add: encString_def)
  moreover have "uint (word_of_nat (length s) :: uint8) = int (length s)"
    using False by (simp add: unsigned_of_nat take_bit_nat_eq_self)
  ultimately show ?thesis
    using assms False
    by (intro skipsI [of r STRING1])
      (simp_all add: encString_def skipField_unfold Skip_adv jce_ty_defs)
qed

lemma skips_bytes:
  assumes "unread r = encVal (JBytes bs) tag @ xs" and "length bs < 2 ^ 31"
  shows "skips tag r (length (encVal (JBytes bs) tag))"
proof -
  let ?r1 = "adv (length (encHead SimpleList tag)) r"
  let ?r2 = "adv (length (encHead BYTE 0)) ?r1"
  let ?n = "int (length bs)"
  have "readHead ?r1 = (BYTE, 0, None, ?r2)"
    using assms(1) by (intro readHead_enc) simp_all
  moreover have "ReadInt32 0 0 True ?r2 = (word_of_int ?n, None, adv (length (encInt ?n 0)) ?r2)"
    using assms by (intro ReadInt32_enc) simp_all
  moreover have "sint (word_of_int ?n :: int32) = ?n"
    using assms(2) by (intro sint_of_int) simp_all
  ultimately show ?thesis
    using assms(1)
    by (intro skipsI [of r SimpleList])
      (simp_all add: skipField_unfold skipFieldSimpleList_unfold Skip_adv jce_ty_defs add.assoc)
qed

lemma skips_map:
  assumes u: "unread r = encVal (JMap kvs) tag @ xs" and small: "length kvs < 2 ^ 30"
    and elems: "\<And>r' (len :: int32). unread r' = encPairs kvs @ xs \<Longrightarrow>
      sint len - sint (0 :: int32) = 2 * int (length kvs) \<Longrightarrow>
      skipElems 0 len r' = (None, adv (length (encPairs kvs)) r')"
  shows "skips tag r (length (encVal (JMap kvs) tag))"
proof -
  let ?r1 = "adv (length (encHead MAP tag)) r" and ?n = "int (length kvs)"
  let ?r2 = "adv (length (encInt ?n 0)) ?r1"
  have "ReadInt32 0 0 True ?r1 = (word_of_int ?n, None, ?r2)"
    using u small by (intro ReadInt32_enc) simp_all
  moreover have "(word_of_int ?n * 2 :: int32) = word_of_int (2 * ?n)"
    by (simp add: mult.commute)
  then have "sint (word_of_int ?n * 2 :: int32) = 2 * ?n"
    using small by (simp only:) (intro sint_of_int; simp)
  ultimately show ?thesis
    using u elems [of ?r2 "word_of_int ?n * 2"]
    by (intro skipsI [of r MAP])
      (simp_all add: skipField_unfold skipFieldMap_unfold jce_ty_defs add.assoc)
qed

lemma skips_list:
  assumes u: "unread r = encVal (JList vs) tag @ xs" and small: "length vs < 2 ^ 31"
    and elems: "\<And>r' (len :: int32). unread r' = encElems vs @ xs \<Longrightarrow>
      sint len - sint (0 :: int32) = int (length vs) \<Longrightarrow>
      skipElems 0 len r' = (None, adv (length (encElems vs)) r')"
  shows "skips tag r (length (encVal (JList vs) tag))"
proof -
  let ?r1 = "adv (length (encHead LIST tag)) r" and ?n = "int (length vs)"
  let ?r2 = "adv (length (encInt ?n 0)) ?r1"
  have "ReadInt32 0 0 True ?r1 = (word_of_int ?n, None, ?r2)"
    using u small by (intro ReadInt32_enc) simp_all
  moreover have "sint (word_of_int ?n :: int32) = ?n"
    using small by (intro sint_of_int) simp_all
  ultimately show ?thesis
    using u elems [of ?r2 "word_of_int ?n"]
    by (intro skipsI [of r LIST])
      (simp_all add: skipField_unfold skipFieldList_unfold jce_ty_defs add.assoc)
qed

lemma skips_struct:
  assumes u: "unread r = encVal (JStruct fs) tag @ xs"
    and fields: "\<And>r'. unread r' = encFields fs @ encHead StructEnd 0 @ xs \<Longrightarrow>
      SkipToStructEnd r' = (None, adv (length (encFields fs) + length (encHead StructEnd 0)) r')"
  shows "skips tag r (length (encVal (JStruct fs) tag))"
  using u fields [of "adv (length (encHead StructBegin tag)) r"]
  by (intro skipsI [of r StructBegin]) (simp_all add: skipField_unfold jce_ty_defs add.assoc)

lemma skip_all:
  "wfVal v \<Longrightarrow> unread r = encVal v tag @ xs \<Longrightarrow> skips tag r (length (encVal v tag))"
  "wfPairs kvs \<Longrightarrow> unread r = encPairs kvs @ xs \<Longrightarrow>
     sint len - sint (i :: int32) = 2 * int (length kvs) \<Longrightarrow>
     skipElems i len r = (None, adv (length (encPairs kvs)) r)"
  "wfElems vs \<Longrightarrow> unread r = encElems vs @ xs \<Longrightarrow>
     sint len - sint (i :: int32) = int (length vs) \<Longrightarrow>
     skipElems i len r = (None, adv (length (encElems vs)) r)"
  "wfFields fs \<Longrightarrow> unread r = encFields fs @ encHead StructEnd 0 @ xs \<Longrightarrow>
     SkipToStructEnd r = (None, adv (length (encFields fs) + length (encHead StructEnd 0)) r)"
proof (induction v tag and kvs and vs and fs arbitrary: r xs and r xs i len and r xs i len and r xs
    rule: encVal_encPairs_encElems_encFields.induct)
  case (1 n tag)
  then show ?case using skips_int by simp
next
  case (2 f tag)
  then show ?case using skips_float(1) by blast
next
  case (3 f tag)
  then show ?case using skips_float(2) by blast
next
  case (4 s tag)
  then show ?case using skips_string by simp
next
  case (5 kvs tag)
  then show ?case by (intro skips_map "5.IH") simp_all
next
  case (6 vs tag)
  then show ?case by (intro skips_list "6.IH") simp_all
next
  case (7 fs tag)
  then show ?case by (intro skips_struct "7.IH") simp_all
next
  case (8 bs tag)
  then show ?case by (intro skips_bytes) simp_all
next
  case 9
  then show ?case by (simp add: skipElems_done)
next
  case (10 k v kvs)
  let ?m = "length (encVal k 0)" and ?n = "length (encVal v 1)"
  have "sint i < sint len" and "sint (i + 1) < sint len"
    using "10.prems"(3) sint_succ [of i len] by simp_all
  moreover have "skips 0 r ?m" "skips 1 (adv ?m r) ?n"
    using "10.prems" by (auto intro!: "10.IH"(1,2))
  ultimately have "skipElems i len r = skipElems (i + 1 + 1) len (adv (?m + ?n) r)"
    by (simp add: skipElems_step)
  moreover have "sint len - sint (i + 1 + 1) = 2 * int (length kvs)"
    using "10.prems"(3) sint_succ [of i len] sint_succ [of "i + 1" len] by simp
  ultimately show ?case
    using "10.prems" "10.IH"(3) [of "adv (?m + ?n) r" xs len "i + 1 + 1"]
    by (simp add: add.assoc)
next
  case 11
  then show ?case by (simp add: skipElems_done)
next
  case (12 v vs)
  let ?m = "length (encVal v 0)"
  have "sint i < sint len"
    using "12.prems"(3) by simp
  moreover have "skips 0 r ?m"
    using "12.prems" by (auto intro!: "12.IH"(1))
  ultimately show ?case
    using "12.prems" "12.IH"(2) [of "adv ?m r" xs len "i + 1"] sint_succ [of i len]
    by (simp add: skipElems_step add.assoc)
next
  case 13
  then show ?case by (simp add: SkipToStructEnd_stop)
next
  case (14 t v fs)
  let ?m = "length (encVal v t)"
  have "skips t r ?m"
    using "14.prems" by (auto intro!: "14.IH"(1))
  then show ?case
    using "14.prems" "14.IH"(2) [of "adv ?m r" xs] by (simp add: SkipToStructEnd_step add.assoc)
qed

end
