(* ===== verification/Codec_Fields.thy ===== *)
theory Codec_Fields
  imports Codec_Roundtrip
begin

text \<open>
  The contract of a field codec as a locale, its consequences for any client (round trip,
  unknown fields skipped, optional and required fields), and its interpretation on the
  eleven \<^verbatim>\<open>Write\<close>/\<^verbatim>\<open>Read\<close> pairs of \<^verbatim>\<open>codec.go\<close>; then the properties of the codec.
\<close>

section \<open>Looking a field up behind unknown fields\<close>

lemma SkipToNoCheck_fields:
  assumes "wfFields fs" and "\<forall>t \<in> fst ` set fs. t < tag" and "unread r = encFields fs @ xs"
  shows "SkipToNoCheck tag require r = SkipToNoCheck tag require (adv (length (encFields fs)) r)"
  using assms
proof (induction fs arbitrary: r)
  case (Cons tv fs)
  obtain t v where tv: "tv = (t, v)"
    by (cases tv)
  let ?m = "length (encVal v t)"
  have "skips t r ?m"
    using Cons.prems tv by (auto intro!: skip_all(1))
  moreover have "t < tag"
    using Cons.prems(2) tv by simp
  ultimately have "SkipToNoCheck tag require r = SkipToNoCheck tag require (adv ?m r)"
    by (rule SkipToNoCheck_step)
  then show ?case
    using Cons.IH [of "adv ?m r"] Cons.prems tv by simp
qed simp

section \<open>The contract\<close>

locale field_codec =
  fixes wr :: "'a \<Rightarrow> byte \<Rightarrow> writer"
    and rd :: "'a \<Rightarrow> byte \<Rightarrow> bool \<Rightarrow> Reader \<Rightarrow> 'a \<times> gerr option \<times> Reader"
    and enc :: "'a \<Rightarrow> byte \<Rightarrow> bytes"
    and ok :: "'a \<Rightarrow> bool"
  assumes wr_enc: "appends (wr v tag) (enc v tag)"
    and rd_enc: "ok v \<Longrightarrow> unread r = enc v tag @ xs \<Longrightarrow>
      rd d tag require r = (v, None, adv (length (enc v tag)) r)"
    and rd_lookup: "SkipToNoCheck tag require r = SkipToNoCheck tag require r' \<Longrightarrow>
      rd d tag require r = rd d tag require r'"
    and rd_absent: "SkipToNoCheck tag require r = (False, ty, None, r') \<Longrightarrow>
      rd d tag require r = (d, None, r')"
    and rd_error: "SkipToNoCheck tag require r = (hv, ty, Some e, r') \<Longrightarrow>
      rd d tag require r = (d, Some e, r')"
begin

text \<open>Reading back a written value, from a fresh reader and after unknown fields.\<close>

lemma round_trip:
  assumes "ok v"
  shows "rd d tag require (NewReader (snd (wr v tag [])))
    = (v, None, adv (length (enc v tag)) (NewReader (enc v tag)))"
  using appends_append [OF wr_enc, of v tag "[]"] rd_enc [OF assms, of "NewReader (enc v tag)" tag "[]"]
  by simp

lemma after_unknown:
  assumes "ok v" and "wfFields fs" and "\<forall>t \<in> fst ` set fs. t < tag"
    and "unread r = encFields fs @ enc v tag @ xs"
  shows "rd d tag require r = (v, None, adv (length (encFields fs) + length (enc v tag)) r)"
  using rd_lookup [OF SkipToNoCheck_fields [OF assms(2-)], of d require]
    rd_enc [OF assms(1), of "adv (length (encFields fs)) r" tag xs] assms(4)
  by simp

text \<open>A field that is not there: the value stays, and a required field is an error.\<close>

lemma optional_end: "unread r = [] \<Longrightarrow> rd d tag False r = (d, None, r)"
  by (rule rd_absent [OF SkipToNoCheck_end(1)])

lemma required_end: "unread r = [] \<Longrightarrow> rd d tag True r = (d, Some (RequireNotFound tag EOF), r)"
  by (rule rd_error [OF SkipToNoCheck_end(2)])

lemma optional_absent:
  assumes "unread r = encHead ty tg @ xs" and "ty < 16" and "ty = StructEnd \<or> tg > tag"
  shows "rd d tag False r = (d, None, r)"
  using SkipToNoCheck_absent(1) [OF assms] by (rule rd_absent)

lemma required_absent:
  assumes "unread r = encHead ty tg @ xs" and "ty < 16" and "ty = StructEnd \<or> tg > tag"
  shows "rd d tag True r
    = (d, Some (RequireStop tag tg ty), adv (length (encHead ty tg)) r)"
  using SkipToNoCheck_absent(2) [OF assms] by (rule rd_error)

end

section \<open>The codecs of the base types\<close>

interpretation cInt8: field_codec WriteInt8 ReadInt8 "\<lambda>v. encInt (sint v)" "\<lambda>_. True"
proof (unfold_locales, goal_cases)
  case (2 v r tag xs d require)
  then show ?case
    using ReadInt8_enc [of r "sint v" tag xs d require] sint_ge [of v] sint_lt [of v] by simp
qed (simp_all add: appends_values ReadInt8_def)

interpretation cInt16: field_codec WriteInt16 ReadInt16 "\<lambda>v. encInt (sint v)" "\<lambda>_. True"
proof (unfold_locales, goal_cases)
  case (2 v r tag xs d require)
  then show ?case
    using ReadInt16_enc [of r "sint v" tag xs d require] sint_ge [of v] sint_lt [of v] by simp
qed (simp_all add: appends_values ReadInt16_def)

interpretation cInt32: field_codec WriteInt32 ReadInt32 "\<lambda>v. encInt (sint v)" "\<lambda>_. True"
proof (unfold_locales, goal_cases)
  case (2 v r tag xs d require)
  then show ?case
    using ReadInt32_enc [of r "sint v" tag xs d require] sint_ge [of v] sint_lt [of v] by simp
qed (simp_all add: appends_values ReadInt32_def ReadInt32_switch_def)

interpretation cInt64: field_codec WriteInt64 ReadInt64 "\<lambda>v. encInt (sint v)" "\<lambda>_. True"
proof (unfold_locales, goal_cases)
  case (2 v r tag xs d require)
  then show ?case
    using ReadInt64_enc [of r "sint v" tag xs d require] by simp
qed (simp_all add: appends_values ReadInt64_def)

lemma uint_small:
  "uint (a :: uint8) < 256" "uint (b :: uint16) < 65536" "uint (c :: uint32) < 4294967296"
  using uint_lt2p [of a] uint_lt2p [of b] uint_lt2p [of c] by simp_all

lemma ucast_up_down [simp]:
  "ucast (ucast (a :: uint8) :: int16) = a"
  "ucast (ucast (b :: uint16) :: int32) = b"
  "ucast (ucast (c :: uint32) :: int64) = c"
  by (rule bit_word_eqI; simp add: bit_simps)+

lemma ucast_of_uint [simp]:
  "ucast (word_of_int (uint (a :: uint8)) :: int16) = a"
  "ucast (word_of_int (uint (b :: uint16)) :: int32) = b"
  "ucast (word_of_int (uint (c :: uint32)) :: int64) = c"
  by (simp_all flip: ucast_eq)

interpretation cUint8: field_codec WriteUint8 ReadUint8 "\<lambda>v. encInt (uint v)" "\<lambda>_. True"
proof (unfold_locales, goal_cases)
  case (2 v r tag xs d require)
  then show ?case
    using ReadInt16_enc [of r "uint v" tag xs "ucast d" require] uint_small(1) [of v]
      uint_ge_0 [of v]
    by (simp add: ReadUint8_def)
next
  case (3 tag require r r' d)
  then show ?case
    using cInt16.rd_lookup [of tag require r r'] by (simp add: ReadUint8_def)
qed (simp_all add: appends_values ReadUint8_def cInt16.rd_absent cInt16.rd_error)

interpretation cUint16: field_codec WriteUint16 ReadUint16 "\<lambda>v. encInt (uint v)" "\<lambda>_. True"
proof (unfold_locales, goal_cases)
  case (2 v r tag xs d require)
  then show ?case
    using ReadInt32_enc [of r "uint v" tag xs "ucast d" require] uint_small(2) [of v]
      uint_ge_0 [of v]
    by (simp add: ReadUint16_def)
next
  case (3 tag require r r' d)
  then show ?case
    using cInt32.rd_lookup [of tag require r r'] by (simp add: ReadUint16_def)
qed (simp_all add: appends_values ReadUint16_def cInt32.rd_absent cInt32.rd_error)

interpretation cUint32: field_codec WriteUint32 ReadUint32 "\<lambda>v. encInt (uint v)" "\<lambda>_. True"
proof (unfold_locales, goal_cases)
  case (2 v r tag xs d require)
  then show ?case
    using ReadInt64_enc [of r "uint v" tag xs "ucast d" require] by (simp add: ReadUint32_def)
next
  case (3 tag require r r' d)
  then show ?case
    using cInt64.rd_lookup [of tag require r r'] by (simp add: ReadUint32_def)
qed (simp_all add: appends_values ReadUint32_def cInt64.rd_absent cInt64.rd_error)

interpretation cBool: field_codec WriteBool ReadBool "\<lambda>v. encInt (of_bool v)" "\<lambda>_. True"
proof (unfold_locales, goal_cases)
  case (2 v r tag xs d require)
  then show ?case
    using ReadInt8_enc [of r "of_bool v" tag xs "if d then 1 else 0" require]
    by (cases v) (simp_all add: ReadBool_def)
next
  case (3 tag require r r' d)
  then show ?case
    using cInt8.rd_lookup [of tag require r r'] by (simp add: ReadBool_def)
qed (simp_all add: appends_values ReadBool_def cInt8.rd_absent cInt8.rd_error)

interpretation cFloat32: field_codec WriteFloat32 ReadFloat32
  "\<lambda>v tag. encHead FLOAT tag @ PutUint32 v" "\<lambda>_. True"
  by unfold_locales (simp_all add: appends_values ReadFloat32_enc [simplified], simp_all add: ReadFloat32_def)

interpretation cFloat64: field_codec WriteFloat64 ReadFloat64
  "\<lambda>v tag. encHead DOUBLE tag @ PutUint64 v" "\<lambda>_. True"
  by unfold_locales (simp_all add: appends_values ReadFloat64_enc [simplified], simp_all add: ReadFloat64_def)

interpretation cString: field_codec WriteString ReadString encString "\<lambda>s. length s < 2 ^ 32"
  by unfold_locales (simp_all add: appends_values ReadString_enc, simp_all add: ReadString_def)

section \<open>Properties of the codec\<close>

text \<open>The outcome of a read: this value, no error, nothing left unread.\<close>

definition reads_all :: "'a \<times> gerr option \<times> Reader \<Rightarrow> 'a \<Rightarrow> bool" where
  "reads_all res v \<longleftrightarrow> (case res of (x, err, r) \<Rightarrow> x = v \<and> err = None \<and> unread r = [])"

lemma reads_all_adv [simp]: "reads_all (v, None, adv (length e) (NewReader e)) v"
  by (simp add: reads_all_def)

lemma reads_all_adv2 [simp]: "reads_all (v, None, adv (length e + length f) (NewReader (e @ f))) v"
  by (simp add: reads_all_def)

text \<open>C1: Every base type round-trips: a value written with any tag and read back with that
  tag, as a required or an optional field and into any previous value, is the value written,
  without an error and with all of the data consumed.\<close>

theorem base_types_round_trip:
  assumes "length s < 2 ^ 32"
  shows "reads_all (ReadInt8 d1 tag require (NewReader (snd (WriteInt8 v1 tag [])))) v1
    \<and> reads_all (ReadInt16 d2 tag require (NewReader (snd (WriteInt16 v2 tag [])))) v2
    \<and> reads_all (ReadInt32 d4 tag require (NewReader (snd (WriteInt32 v4 tag [])))) v4
    \<and> reads_all (ReadInt64 d8 tag require (NewReader (snd (WriteInt64 v8 tag [])))) v8
    \<and> reads_all (ReadUint8 e1 tag require (NewReader (snd (WriteUint8 u1 tag [])))) u1
    \<and> reads_all (ReadUint16 e2 tag require (NewReader (snd (WriteUint16 u2 tag [])))) u2
    \<and> reads_all (ReadUint32 e4 tag require (NewReader (snd (WriteUint32 u4 tag [])))) u4
    \<and> reads_all (ReadBool e tag require (NewReader (snd (WriteBool b tag [])))) b
    \<and> reads_all (ReadFloat32 f4 tag require (NewReader (snd (WriteFloat32 x4 tag [])))) x4
    \<and> reads_all (ReadFloat64 f8 tag require (NewReader (snd (WriteFloat64 x8 tag [])))) x8
    \<and> reads_all (ReadString t tag require (NewReader (snd (WriteString s tag [])))) s"
  by (intro conjI)
    (simp_all only: cInt8.round_trip cInt16.round_trip cInt32.round_trip cInt64.round_trip
      cUint8.round_trip cUint16.round_trip cUint32.round_trip cBool.round_trip
      cFloat32.round_trip cFloat64.round_trip cString.round_trip [OF assms] reads_all_adv)

theorem base_types_round_trip_witness:
  "length [104 :: byte, 105] < 2 ^ 32 \<and>
   reads_all (ReadString [] 200 True (NewReader (snd (WriteString [104, 105] 200 [])))) [104, 105]"
  using base_types_round_trip [of "[104, 105]" 0 200 True] by simp

lemma reads_encInt:
  "reads_all (ReadInt64 d8 tag require (NewReader (encInt n tag))) (word_of_int n)"
  "- 2147483648 \<le> n \<Longrightarrow> n < 2147483648 \<Longrightarrow>
     reads_all (ReadInt32 d4 tag require (NewReader (encInt n tag))) (word_of_int n)"
  "- 32768 \<le> n \<Longrightarrow> n < 32768 \<Longrightarrow>
     reads_all (ReadInt16 d2 tag require (NewReader (encInt n tag))) (word_of_int n)"
  by (simp_all add: ReadInt64_enc [of _ n tag "[]"] ReadInt32_enc [of _ n tag "[]"]
      ReadInt16_enc [of _ n tag "[]"])

lemma snd_WriteInt:
  "snd (WriteInt8 a tag []) = encInt (sint a) tag" "snd (WriteInt16 b tag []) = encInt (sint b) tag"
  "snd (WriteInt32 c tag []) = encInt (sint c) tag" "snd (WriteInt64 e tag []) = encInt (sint e) tag"
  by (simp_all add: appends_append [OF appends_WriteInt8] appends_append [OF appends_WriteInt16]
      appends_append [OF appends_WriteInt32] appends_append [OF appends_WriteInt64])

text \<open>The wire form of an integer depends on its value alone: the writers of all widths
  produce the same bytes for the same value, and \<^verbatim>\<open>ReadInt64\<close>, \<^verbatim>\<open>ReadInt32\<close> and \<^verbatim>\<open>ReadInt16\<close>
  return, sign-extended, what a narrower writer wrote.\<close>

theorem integer_width_independent:
  "(sint a = sint b \<and> sint b = sint c \<and> sint c = sint e \<longrightarrow>
      WriteInt8 a tag buf = WriteInt16 b tag buf \<and> WriteInt16 b tag buf = WriteInt32 c tag buf
      \<and> WriteInt32 c tag buf = WriteInt64 e tag buf)
   \<and> reads_all (ReadInt64 d8 tag require (NewReader (snd (WriteInt8 a tag [])))) (scast a)
   \<and> reads_all (ReadInt64 d8 tag require (NewReader (snd (WriteInt16 b tag [])))) (scast b)
   \<and> reads_all (ReadInt64 d8 tag require (NewReader (snd (WriteInt32 c tag [])))) (scast c)
   \<and> reads_all (ReadInt32 d4 tag require (NewReader (snd (WriteInt16 b tag [])))) (scast b)
   \<and> reads_all (ReadInt16 d2 tag require (NewReader (snd (WriteInt8 a tag [])))) (scast a)"
proof -
  have "- 32768 \<le> sint a" "sint a < 32768" "- 2147483648 \<le> sint b" "sint b < 2147483648"
    using sint_ge [of a] sint_lt [of a] sint_ge [of b] sint_lt [of b] by simp_all
  then show ?thesis
    unfolding snd_WriteInt scast_eq
    by (intro conjI impI reads_encInt)
      (simp_all add: appends_append [OF appends_WriteInt8] appends_append [OF appends_WriteInt16]
        appends_append [OF appends_WriteInt32] appends_append [OF appends_WriteInt64])
qed

theorem integer_width_independent_witness:
  "WriteInt8 (- 5) 3 [] = WriteInt16 (- 5) 3 []"
  using integer_width_independent [of "- 5" "- 5" "- 5" "- 5" 3 "[]"] by simp

text \<open>Skipping is exact: after the head of any well-formed value, however deeply maps,
  vectors, structs and byte vectors are nested in it, \<^verbatim>\<open>skipField\<close> reports no error and leaves
  the reader just behind the value.\<close>

theorem skipField_exact:
  assumes "wfVal v" and "unread r = encVal v tag @ xs"
  shows "\<exists>ty r1. readHead r = (ty, tag, None, r1) \<and>
    skipField ty r1 = (None, adv (length (encVal v tag)) r)"
  using skip_all(1) [OF assms] unfolding skips_def by blast

theorem skipField_exact_witness:
  "\<exists>ty r1. readHead (NewReader (encVal (JMap [(JString [1], JList [JInt 300, JInt 0])]) 7 @ [9]))
      = (ty, 7, None, r1)
    \<and> skipField ty r1 = (None,
        adv (length (encVal (JMap [(JString [1], JList [JInt 300, JInt 0])]) 7))
          (NewReader (encVal (JMap [(JString [1], JList [JInt 300, JInt 0])]) 7 @ [9])))"
  by (rule skipField_exact [of _ _ _ "[9]"]) simp_all

text \<open>C2: Unknown fields are ignored: when the fields before it are well formed and have
  smaller tags, a reader finds the field it asks for and returns its value, as for a field of
  string type and one of \<^verbatim>\<open>int32\<close> type here.\<close>

theorem unknown_fields_skipped:
  assumes "wfFields fs" and "\<forall>t \<in> fst ` set fs. t < tag" and "length s < 2 ^ 32"
  shows "reads_all (ReadString d tag require
      (NewReader (encFields fs @ snd (WriteString s tag [])))) s
    \<and> reads_all (ReadInt32 e tag require
      (NewReader (encFields fs @ snd (WriteInt32 v tag [])))) v"
  using cString.after_unknown [OF assms(3,1,2), of _ "[]" d require]
    cInt32.after_unknown [OF TrueI assms(1,2), of _ v "[]" e require]
  by (simp add: appends_append [OF appends_WriteString] appends_append [OF appends_WriteInt32])

theorem unknown_fields_skipped_witness:
  "reads_all (ReadString [] 9 True
      (NewReader (encFields [(1, JStruct [(0, JInt 7)]), (4, JBytes [1, 2])]
        @ snd (WriteString [65] 9 [])))) [65]"
  using unknown_fields_skipped [of "[(1, JStruct [(0, JInt 7)]), (4, JBytes [1, 2])]" 9 "[65]"]
  by simp

text \<open>A field that is absent, because the struct ends or a field with a larger tag comes
  first: an optional read returns the previous value and leaves the reader before that field,
  a required read keeps the previous value and reports the head it met.\<close>

theorem absent_field:
  assumes "unread r = encHead ty tg @ xs" and "ty < 16" and "ty = StructEnd \<or> tg > tag"
  shows "ReadInt32 d tag False r = (d, None, r)
    \<and> ReadString t tag False r = (t, None, r)
    \<and> ReadInt32 d tag True r
        = (d, Some (RequireStop tag tg ty), adv (length (encHead ty tg)) r)
    \<and> ReadString t tag True r
        = (t, Some (RequireStop tag tg ty), adv (length (encHead ty tg)) r)"
  using cInt32.optional_absent [OF assms] cString.optional_absent [OF assms]
    cInt32.required_absent [OF assms] cString.required_absent [OF assms]
  by simp

theorem absent_field_witness:
  "ReadInt32 5 3 False (NewReader (encHead StructEnd 0)) = (5, None, NewReader (encHead StructEnd 0))"
  using absent_field [of "NewReader (encHead StructEnd 0)" StructEnd 0 "[]" 3 5] by simp



text \<open>A truncated integer is accepted: when fewer bytes are left than the integer has,
  \<^verbatim>\<open>bReadU32\<close> reads what there is, pads it with zero bytes and reports no error. Only a read
  at the very end of the data is an error.\<close>

theorem truncated_integer_accepted:
  assumes "unread r = bs" and "bs \<noteq> []" and "length bs \<le> 4"
  shows "bReadU32 r = (Uint32 (bs @ replicate (4 - length bs) 0), None, adv (length bs) r)"
proof -
  have "off r < length (ref r)"
    using assms(1,2) unread_nonempty [of r] by simp
  moreover have "take 4 (drop (off r) (ref r)) = bs"
    using assms(1,3) by (simp add: unread_def)
  ultimately show ?thesis
    by (simp add: bReadU32_def buf_Read_def adv_def)
qed

theorem truncated_integer_accepted_witness:
  "bReadU32 (NewReader [1]) = (Uint32 [1, 0, 0, 0], None, adv 1 (NewReader [1]))"
  using truncated_integer_accepted [of "NewReader [1]" "[1]"] by (simp add: numeral_3_eq_3)

text \<open>A head in the two-byte form that holds a tag below 15 is read as that tag, but
  \<^verbatim>\<open>unreadHead\<close> goes back one byte only: an optional read that stops before such a field
  leaves the reader in the middle of its head.\<close>

theorem long_head_not_restored:
  assumes "unread r = [240 OR ty, tg] @ xs" and "ty < 16" and "tag < tg" and "tg < 15"
  shows "SkipToNoCheck tag False r = (False, ty, None, adv 1 r)"
proof -
  have "push_bit 4 (15 :: byte) = 240"
    by (simp add: push_bit_eq_mult)
  then have "(240 OR ty) AND 15 = ty" "drop_bit 4 ((240 OR ty) AND 240) = (15 :: byte)"
    using head_bits [OF assms(2), of 15] by simp_all
  then have "readHead r = (ty, tg, None, adv 2 r)"
    using assms(1) by (simp add: readHead_def ReadByte_unread Let_def numeral_2_eq_2)
  moreover have "unreadHead tg (adv 2 r) = adv 1 r"
    using assms(4) by (simp add: unreadHead_def buf_UnreadByte_def adv_def Let_def not_le)
  ultimately show ?thesis
    using assms(3) by (subst SkipToNoCheck_unfold) simp
qed

theorem long_head_not_restored_witness:
  "SkipToNoCheck 2 False (NewReader [240, 3, 8]) = (False, 0, None, adv 1 (NewReader [240, 3, 8]))"
  using long_head_not_restored [of "NewReader [240, 3, 8]" 0 3 "[8]" 2] by simp

end
