(* ===== verification/Struct_Codec.thy ===== *)
theory Struct_Codec
  imports Codec_Fields
begin

text \<open>
  The patterns that \<^verbatim>\<open>tars2go\<close> generates for the members of a struct and that all generated
  \<^verbatim>\<open>ReadFrom\<close> and \<^verbatim>\<open>WriteTo\<close> methods share: checked sequencing, byte vectors, vectors in
  \<^verbatim>\<open>LIST\<close> form, string maps, and the block form of a struct. The definitions are translated
  from \<^verbatim>\<open>tars/protocol/res/requestf/RequestF.go\<close>.

  A Go map is an association list with distinct keys, in the order in which the run-time
  enumerates it. That order is not specified by Go; the theorems hold for every list, hence
  for every order.
\<close>

section \<open>Checked sequencing\<close>

text \<open>\<^verbatim>\<open>if err != nil { return err }\<close> between two steps, and storing a value read into a
  struct member (also when the read reports an error).\<close>

definition rstep :: "'s \<times> gerr option \<times> Reader \<Rightarrow> ('s \<Rightarrow> Reader \<Rightarrow> 't \<times> gerr option \<times> Reader)
    \<Rightarrow> ('s \<Rightarrow> 't) \<Rightarrow> 't \<times> gerr option \<times> Reader" where
  "rstep x k stop = (case x of (st, err, r) \<Rightarrow> if err \<noteq> None then (stop st, err, r) else k st r)"

abbreviation thenR :: "'s \<times> gerr option \<times> Reader \<Rightarrow> ('s \<Rightarrow> Reader \<Rightarrow> 's \<times> gerr option \<times> Reader)
    \<Rightarrow> 's \<times> gerr option \<times> Reader" where
  "thenR x k \<equiv> rstep x k (\<lambda>st. st)"

definition into :: "('a \<Rightarrow> 's) \<Rightarrow> 'a \<times> gerr option \<times> Reader \<Rightarrow> 's \<times> gerr option \<times> Reader" where
  "into f x = (case x of (v, err, r) \<Rightarrow> (f v, err, r))"

lemma rstep_ok [simp]: "rstep (st, None, r) k stop = k st r"
  by (simp add: rstep_def)

lemma rstep_err [simp]: "rstep (st, Some e, r) k stop = (stop st, Some e, r)"
  by (simp add: rstep_def)

lemma into_Pair [simp]: "into f (v, err, r) = (f v, err, r)"
  by (simp add: into_def)

section \<open>Byte vectors\<close>

text \<open>A vector of \<^verbatim>\<open>int8\<close> is written as a simple list.\<close>

definition WriteVecInt8 :: "int8 list \<Rightarrow> byte \<Rightarrow> writer" where
  "WriteVecInt8 v tag =
     wseq [WriteHead SimpleList tag, WriteHead BYTE 0,
           WriteInt32 (word_of_nat (length v)) 0, WriteSliceInt8 v]"

text \<open>It is read from either form. In the \<^verbatim>\<open>LIST\<close> form the slice is allocated first, and
  \<^verbatim>\<open>make\<close> panics on a negative length; in the simple form a length that is not positive
  leaves the member as it was.\<close>

fun readInt8s :: "nat \<Rightarrow> nat \<Rightarrow> int8 list \<Rightarrow> Reader \<Rightarrow> int8 list \<times> gerr option \<times> Reader" where
  "readInt8s 0 i v r = (v, None, r)"
| "readInt8s (Suc n) i v r =
     thenR (into (\<lambda>x. v[i := x]) (ReadInt8 (v ! i) 0 False r)) (\<lambda>v r. readInt8s n (Suc i) v r)"

definition ReadVecInt8 :: "int8 list \<Rightarrow> byte \<Rightarrow> Reader \<Rightarrow> int8 list \<times> gerr option \<times> Reader" where
  "ReadVecInt8 v tag r =
     (case SkipToNoCheck tag True r of (_, ty, err, r) \<Rightarrow>
        if err \<noteq> None then (v, err, r)
        else if ty = LIST then
          rstep (ReadInt32 0 0 True r)
            (\<lambda>len r. if sint len < 0 then (v, Some (Panic ''makeslice: len out of range''), r)
               else readInt8s (nat (sint len)) 0 (replicate (nat (sint len)) 0) r)
            (\<lambda>_. v)
        else if ty = SimpleList then
          rstep (SkipTo BYTE 0 True r)
            (\<lambda>_ r. rstep (ReadInt32 0 0 True r) (\<lambda>len r. ReadSliceInt8 v len True r) (\<lambda>_. v))
            (\<lambda>_. v)
        else (v, Some RequireVector, r))"

section \<open>String maps\<close>

type_synonym strmap = "(gostring \<times> gostring) list"

fun writeStrPairs :: "strmap \<Rightarrow> writer" where
  "writeStrPairs [] = wseq []"
| "writeStrPairs ((k, v) # m) = wseq [WriteString k 0, WriteString v 1, writeStrPairs m]"

definition WriteStrMap :: "strmap \<Rightarrow> byte \<Rightarrow> writer" where
  "WriteStrMap m tag =
     wseq [WriteHead MAP tag, WriteInt32 (word_of_nat (length m)) 0, writeStrPairs m]"

text \<open>The loop that reads the entries; both reads are optional reads into fresh variables.\<close>

fun readStrPairs :: "nat \<Rightarrow> strmap \<Rightarrow> Reader \<Rightarrow> strmap \<times> gerr option \<times> Reader" where
  "readStrPairs 0 m r = (m, None, r)"
| "readStrPairs (Suc n) m r =
     rstep (ReadString [] 0 False r)
       (\<lambda>k r. rstep (ReadString [] 1 False r)
          (\<lambda>v r. readStrPairs n (AList.update k v m) r) (\<lambda>_. m))
       (\<lambda>_. m)"

text \<open>The entries after the head: the member is replaced by a new map once the size is read.\<close>

definition ReadStrMapBody :: "strmap \<Rightarrow> Reader \<Rightarrow> strmap \<times> gerr option \<times> Reader" where
  "ReadStrMapBody m r =
     rstep (ReadInt32 0 0 True r) (\<lambda>len r. readStrPairs (nat (sint len)) [] r) (\<lambda>_. m)"

definition ReadStrMap :: "strmap \<Rightarrow> byte \<Rightarrow> Reader \<Rightarrow> strmap \<times> gerr option \<times> Reader" where
  "ReadStrMap m tag r =
     rstep (SkipTo MAP tag True r) (\<lambda>_ r. ReadStrMapBody m r) (\<lambda>_. m)"

definition ReadStrMapOpt :: "strmap \<Rightarrow> byte \<Rightarrow> Reader \<Rightarrow> strmap \<times> gerr option \<times> Reader" where
  "ReadStrMapOpt m tag r =
     rstep (SkipTo MAP tag False r)
       (\<lambda>hv r. if hv then ReadStrMapBody m r else (m, None, r)) (\<lambda>_. m)"

section \<open>The block form of a struct\<close>

definition WriteBlock :: "('s \<Rightarrow> writer) \<Rightarrow> 's \<Rightarrow> byte \<Rightarrow> writer" where
  "WriteBlock WriteTo st tag = wseq [WriteHead StructBegin tag, WriteTo st, WriteHead StructEnd 0]"

definition ReadBlock :: "string \<Rightarrow> ('s \<Rightarrow> 's) \<Rightarrow> ('s \<Rightarrow> Reader \<Rightarrow> 's \<times> gerr option \<times> Reader)
    \<Rightarrow> 's \<Rightarrow> byte \<Rightarrow> bool \<Rightarrow> Reader \<Rightarrow> 's \<times> gerr option \<times> Reader" where
  "ReadBlock name ResetDefault ReadFrom st tag require r =
     (let st = ResetDefault st in
      rstep (SkipTo StructBegin tag require r)
        (\<lambda>hv r. if \<not> hv then
             (if require then (st, Some (RequireStruct name tag), r) else (st, None, r))
           else thenR (ReadFrom st r) (\<lambda>st r. case SkipToStructEnd r of (err, r) \<Rightarrow> (st, err, r)))
        (\<lambda>_. st))"

section \<open>Encodings and reading back\<close>

definition encVecInt8 :: "int8 list \<Rightarrow> byte \<Rightarrow> bytes" where
  "encVecInt8 v tag = encVal (JBytes v) tag"

fun encStrPairs :: "strmap \<Rightarrow> bytes" where
  "encStrPairs [] = []"
| "encStrPairs ((k, v) # m) = encString k 0 @ encString v 1 @ encStrPairs m"

definition encStrMap :: "strmap \<Rightarrow> byte \<Rightarrow> bytes" where
  "encStrMap m tag = encHead MAP tag @ encInt (int (length m)) 0 @ encStrPairs m"

definition okStrMap :: "strmap \<Rightarrow> bool" where
  "okStrMap m \<longleftrightarrow> length m < 2 ^ 31 \<and> distinct (map fst m)
     \<and> (\<forall>(k, v) \<in> set m. length k < 2 ^ 32 \<and> length v < 2 ^ 32)"

lemma sint_word_of_nat_small:
  "n < 2 ^ 31 \<Longrightarrow> sint (word_of_nat n :: int32) = int n"
  using sint_of_int(3) [of "int n"] by simp

lemma appends_WriteVecInt8:
  assumes "length v < 2 ^ 31"
  shows "appends (WriteVecInt8 v tag) (encVecInt8 v tag)"
proof -
  have "appends (WriteInt32 (word_of_nat (length v)) 0) (encInt (int (length v)) 0)"
    using appends_WriteInt32 [of "word_of_nat (length v)" 0] assms
    by (simp only: sint_word_of_nat_small)
  then show ?thesis
    unfolding WriteVecInt8_def encVecInt8_def
    by (simp add: appends_def appends_append [OF appends_WriteHead]
        appends_append [OF appends_slices(2)])
qed

lemma appends_writeStrPairs: "appends (writeStrPairs m) (encStrPairs m)"
  by (induction m rule: writeStrPairs.induct)
    (auto simp: appends_def appends_append [OF appends_WriteString])

lemma appends_WriteStrMap:
  assumes "length m < 2 ^ 31"
  shows "appends (WriteStrMap m tag) (encStrMap m tag)"
proof -
  have "appends (WriteInt32 (word_of_nat (length m)) 0) (encInt (int (length m)) 0)"
    using appends_WriteInt32 [of "word_of_nat (length m)" 0] assms
    by (simp only: sint_word_of_nat_small)
  then show ?thesis
    unfolding WriteStrMap_def encStrMap_def
    by (simp add: appends_def appends_append [OF appends_WriteHead]
        appends_append [OF appends_writeStrPairs])
qed

lemma SkipTo_found:
  assumes "unread r = encHead ty tag @ xs" and "ty < 16" and "ty \<noteq> StructEnd"
  shows "SkipTo ty tag require r = (True, None, adv (length (encHead ty tag)) r)"
  using SkipToNoCheck_found [OF assms, of require] by (simp add: SkipTo_def)

text \<open>An empty vector in the simple form does not store anything: the member keeps what it
  held before.\<close>

lemma ReadVecInt8_enc:
  assumes u: "unread r = encVecInt8 v tag @ xs" and small: "length v < 2 ^ 31"
  shows "ReadVecInt8 w tag r
    = (if v = [] then w else v, None, adv (length (encVecInt8 v tag)) r)"
proof -
  let ?r1 = "adv (length (encHead SimpleList tag)) r" and ?n = "int (length v)"
  let ?r2 = "adv (length (encHead BYTE 0)) ?r1"
  let ?r3 = "adv (length (encInt ?n 0)) ?r2"
  have "SkipToNoCheck tag True r = (True, SimpleList, None, ?r1)"
    using u by (intro SkipToNoCheck_found) (simp_all add: encVecInt8_def jce_ty_defs)
  moreover have "SkipTo BYTE 0 True ?r1 = (True, None, ?r2)"
    using u by (intro SkipTo_found) (simp_all add: encVecInt8_def jce_ty_defs)
  moreover have "ReadInt32 0 0 True ?r2 = (word_of_int ?n, None, ?r3)"
    using u small by (intro ReadInt32_enc) (simp_all add: encVecInt8_def)
  moreover have "sint (word_of_int ?n :: int32) = ?n"
    using small by (intro sint_of_int) simp_all
  moreover have "buf_Read (length v) ?r3 = (v, None, adv (length v) ?r3)" if "v \<noteq> []"
    using u that by (intro Read_unread) (simp_all add: encVecInt8_def)
  ultimately show ?thesis
    by (simp add: ReadVecInt8_def ReadSliceInt8_def encVecInt8_def jce_ty_defs add.assoc)
qed

lemma readStrPairs_enc:
  assumes "unread r = encStrPairs m @ xs"
    and "\<forall>(k, v) \<in> set m. length k < 2 ^ 32 \<and> length v < 2 ^ 32"
    and "distinct (map fst m)" and "fst ` set m \<inter> fst ` set m0 = {}"
  shows "readStrPairs (length m) m0 r = (m0 @ m, None, adv (length (encStrPairs m)) r)"
  using assms
proof (induction m arbitrary: m0 r)
  case (Cons kv m)
  obtain k v where kv: "kv = (k, v)"
    by (cases kv)
  let ?r1 = "adv (length (encString k 0)) r" and ?r2 = "adv (length (encString v 1)) (adv (length (encString k 0)) r)"
  have "ReadString [] 0 False r = (k, None, ?r1)"
    using Cons.prems kv by (intro cString.rd_enc) auto
  moreover have "ReadString [] 1 False ?r1 = (v, None, ?r2)"
    using Cons.prems kv by (intro cString.rd_enc) auto
  moreover have "AList.update k v m0 = m0 @ [(k, v)]"
    using Cons.prems kv by (intro update_new_append) auto
  moreover have "readStrPairs (length m) (m0 @ [(k, v)]) ?r2
      = ((m0 @ [(k, v)]) @ m, None, adv (length (encStrPairs m)) ?r2)"
    using Cons.prems kv by (intro Cons.IH) auto
  ultimately show ?case
    using kv by (simp add: add.assoc)
qed simp

lemma ReadStrMapBody_enc:
  assumes "unread r = encInt (int (length m)) 0 @ encStrPairs m @ xs" and "okStrMap m"
  shows "ReadStrMapBody w r
    = (m, None, adv (length (encInt (int (length m)) 0) + length (encStrPairs m)) r)"
proof -
  let ?n = "int (length m)"
  let ?r1 = "adv (length (encInt ?n 0)) r"
  have small: "length m < 2 ^ 31"
    using assms(2) by (simp add: okStrMap_def)
  have "ReadInt32 0 0 True r = (word_of_int ?n, None, ?r1)"
    using assms(1) small by (intro ReadInt32_enc) simp_all
  moreover have "sint (word_of_int ?n :: int32) = ?n"
    using small by (intro sint_of_int) simp_all
  moreover have "readStrPairs (length m) [] ?r1 = ([] @ m, None, adv (length (encStrPairs m)) ?r1)"
    using assms by (intro readStrPairs_enc) (auto simp: okStrMap_def)
  ultimately show ?thesis
    by (simp add: ReadStrMapBody_def)
qed

lemma ReadStrMap_enc:
  assumes u: "unread r = encStrMap m tag @ xs" and ok: "okStrMap m"
  shows "ReadStrMap w tag r = (m, None, adv (length (encStrMap m tag)) r)"
    and "ReadStrMapOpt w tag r = (m, None, adv (length (encStrMap m tag)) r)"
proof -
  let ?r1 = "adv (length (encHead MAP tag)) r"
  have "SkipTo MAP tag require r = (True, None, ?r1)" for require
    using u by (intro SkipTo_found) (simp_all add: encStrMap_def jce_ty_defs)
  moreover have "ReadStrMapBody w ?r1
      = (m, None, adv (length (encInt (int (length m)) 0) + length (encStrPairs m)) ?r1)"
    using u ok by (intro ReadStrMapBody_enc) (simp_all add: encStrMap_def)
  ultimately show "ReadStrMap w tag r = (m, None, adv (length (encStrMap m tag)) r)"
    and "ReadStrMapOpt w tag r = (m, None, adv (length (encStrMap m tag)) r)"
    by (simp_all add: ReadStrMap_def ReadStrMapOpt_def encStrMap_def add.assoc)
qed

section \<open>The contract of a generated struct\<close>

text \<open>
  What a struct promises to the block form: its members are written as \<open>enc\<close> and read
  back, into any struct that is \<open>fresh\<close> (where the members that an absent or empty field
  leaves alone hold their zero value). A newer peer may append members this version does not
  know: the block form skips them.
\<close>

locale struct_codec =
  fixes name :: string
    and Reset :: "'s \<Rightarrow> 's"
    and WriteTo :: "'s \<Rightarrow> writer"
    and ReadFrom :: "'s \<Rightarrow> Reader \<Rightarrow> 's \<times> gerr option \<times> Reader"
    and enc :: "'s \<Rightarrow> bytes"
    and ok :: "'s \<Rightarrow> bool"
    and fresh :: "'s \<Rightarrow> bool"
  assumes WriteTo_enc: "ok st \<Longrightarrow> appends (WriteTo st) (enc st)"
    and ReadFrom_enc: "ok st \<Longrightarrow> fresh w \<Longrightarrow> unread r = enc st @ xs \<Longrightarrow>
      ReadFrom w r = (st, None, adv (length (enc st)) r)"
    and fresh_Reset: "fresh w \<Longrightarrow> fresh (Reset w)"
begin

lemma WriteBlock_enc:
  "ok st \<Longrightarrow> appends (WriteBlock WriteTo st tag)
     (encHead StructBegin tag @ enc st @ encHead StructEnd 0)"
  unfolding WriteBlock_def
  by (simp add: appends_def appends_append [OF appends_WriteHead]
      appends_append [OF WriteTo_enc])

lemma ReadBlock_newer:
  assumes ok: "ok st" and fr: "fresh w" and wf: "wfFields fs"
    and u: "unread r = encHead StructBegin tag @ enc st @ encFields fs @ encHead StructEnd 0 @ xs"
  shows "ReadBlock name Reset ReadFrom w tag require r
    = (st, None, adv (length (encHead StructBegin tag) + length (enc st)
        + length (encFields fs) + length (encHead StructEnd 0)) r)"
proof -
  let ?r1 = "adv (length (encHead StructBegin tag)) r"
  let ?r2 = "adv (length (enc st)) ?r1"
  have "SkipTo StructBegin tag require r = (True, None, ?r1)"
    using u by (intro SkipTo_found) (simp_all add: jce_ty_defs)
  moreover have "ReadFrom (Reset w) ?r1 = (st, None, ?r2)"
    using u ok fr by (intro ReadFrom_enc) (simp_all add: fresh_Reset)
  moreover have "SkipToStructEnd ?r2
      = (None, adv (length (encFields fs) + length (encHead StructEnd 0)) ?r2)"
    using u wf by (intro skip_all(4)) simp_all
  ultimately show ?thesis
    by (simp add: ReadBlock_def add.assoc)
qed

lemma block_round_trip:
  assumes "ok st" and "fresh w"
  shows "reads_all (ReadBlock name Reset ReadFrom w tag require
    (NewReader (snd (WriteBlock WriteTo st tag [])))) st"
  using ReadBlock_newer [OF assms, of "[]" "NewReader (snd (WriteBlock WriteTo st tag []))" tag "[]"]
  by (simp add: appends_append [OF WriteBlock_enc [OF assms(1)]] reads_all_def)

end

end
