(* ===== verification/Go_Strings.thy ===== *)
theory Go_Strings
  imports Go_Prelude
begin

text \<open>
  What the program uses of Go's \<^verbatim>\<open>strings\<close>, \<^verbatim>\<open>strconv\<close> and \<^verbatim>\<open>encoding/hex\<close> packages:
  splitting and searching for a separator of one byte, formatting and parsing of integers in
  a base, and hexadecimal text. Parsing reverses formatting, and formatted numbers are
  alphanumeric, so separators cut composed strings where they were put together.
\<close>

section \<open>Separators\<close>

text \<open>\<^verbatim>\<open>strings.Split(s, sep)\<close> for a separator of one byte.\<close>

fun strings_Split :: "gostring \<Rightarrow> byte \<Rightarrow> gostring list" where
  "strings_Split [] sep = [[]]"
| "strings_Split (c # s) sep =
     (if c = sep then [] # strings_Split s sep
      else (case strings_Split s sep of
              [] \<Rightarrow> [[c]]
            | w # ws \<Rightarrow> (c # w) # ws))"

text \<open>\<^verbatim>\<open>strings.Index(s, sep)\<close> for a separator of one byte; \<open>None\<close> stands for -1.\<close>

fun strings_Index :: "gostring \<Rightarrow> byte \<Rightarrow> nat option" where
  "strings_Index [] sep = None"
| "strings_Index (c # s) sep =
     (if c = sep then Some 0 else map_option Suc (strings_Index s sep))"

lemma strings_Split_nonempty [simp]: "strings_Split s sep \<noteq> []"
  by (induction s) (auto split: list.splits)

lemma strings_Split_single: "sep \<notin> set s \<Longrightarrow> strings_Split s sep = [s]"
  by (induction s) auto

lemma strings_Split_append:
  "sep \<notin> set s \<Longrightarrow> strings_Split (s @ sep # t) sep = s # strings_Split t sep"
  by (induction s) auto

lemma strings_Index_append:
  "sep \<notin> set s \<Longrightarrow> strings_Index (s @ sep # t) sep = Some (length s)"
  by (induction s) auto

lemma strings_Index_None: "strings_Index s sep = None \<longleftrightarrow> sep \<notin> set s"
  by (induction s) auto

section \<open>Numbers\<close>

definition digit_char :: "nat \<Rightarrow> byte" where
  "digit_char d = (if d < 10 then 48 + word_of_nat d else 87 + word_of_nat d)"

text \<open>The digits of a number in a base from 2 to 36, as \<^verbatim>\<open>strconv\<close> formats them.\<close>

fun formatBits :: "nat \<Rightarrow> nat \<Rightarrow> gostring" where
  "formatBits base n =
     (if base < 2 \<or> n < base then [digit_char n]
      else formatBits base (n div base) @ [digit_char (n mod base)])"

declare formatBits.simps [simp del]

definition FormatInt :: "int \<Rightarrow> nat \<Rightarrow> gostring" where
  "FormatInt i base = (if i < 0 then 45 # formatBits base (nat (- i)) else formatBits base (nat i))"

text \<open>The value of a digit, or of a letter of either case.\<close>

definition digit_val :: "byte \<Rightarrow> nat option" where
  "digit_val c =
     (let n = unat c in
      if 48 \<le> n \<and> n \<le> 57 then Some (n - 48)
      else if 97 \<le> n \<and> n \<le> 122 then Some (n - 87)
      else if 65 \<le> n \<and> n \<le> 90 then Some (n - 55)
      else None)"

fun parseDigits :: "nat \<Rightarrow> nat \<Rightarrow> nat \<Rightarrow> gostring \<Rightarrow> nat option" where
  "parseDigits base maxVal n [] = Some n"
| "parseDigits base maxVal n (c # s) =
     (case digit_val c of
        None \<Rightarrow> None
      | Some d \<Rightarrow>
          if d \<ge> base then None
          else if n * base + d > maxVal then None
          else parseDigits base maxVal (n * base + d) s)"

text \<open>\<^verbatim>\<open>strconv.ParseUint(s, base, bitSize)\<close> and \<^verbatim>\<open>strconv.ParseInt(s, base, bitSize)\<close> for a base
  that is not 0; \<open>None\<close> stands for every error.\<close>

definition ParseUint :: "gostring \<Rightarrow> nat \<Rightarrow> nat \<Rightarrow> nat option" where
  "ParseUint s base bitSize = (if s = [] then None else parseDigits base (2 ^ bitSize - 1) 0 s)"

definition ParseInt :: "gostring \<Rightarrow> nat \<Rightarrow> nat \<Rightarrow> int option" where
  "ParseInt s base bitSize =
     (if s = [] then None
      else let neg = hd s = 45;
               s = (if hd s = 43 \<or> hd s = 45 then tl s else s)
           in (case ParseUint s base bitSize of
                 None \<Rightarrow> None
               | Some un \<Rightarrow>
                   if \<not> neg \<and> un \<ge> 2 ^ (bitSize - 1) then None
                   else if neg \<and> un > 2 ^ (bitSize - 1) then None
                   else Some (if neg then - int un else int un)))"

lemma unat_digit_char:
  "d < 10 \<Longrightarrow> unat (digit_char d) = 48 + d"
  "10 \<le> d \<Longrightarrow> d < 36 \<Longrightarrow> unat (digit_char d) = 87 + d"
  by (simp_all add: digit_char_def unat_word_ariths unat_of_nat)

lemma digit_val_char [simp]: "d < 36 \<Longrightarrow> digit_val (digit_char d) = Some d"
  by (cases "d < 10") (simp_all add: digit_val_def unat_digit_char)

text \<open>A byte of a formatted number: a digit or a lower-case letter.\<close>

definition alnum :: "byte \<Rightarrow> bool" where
  "alnum c \<longleftrightarrow> 48 \<le> unat c \<and> unat c \<le> 57 \<or> 97 \<le> unat c \<and> unat c \<le> 122"

lemma alnum_digit_char: "d < 36 \<Longrightarrow> alnum (digit_char d)"
  by (cases "d < 10") (simp_all add: alnum_def unat_digit_char)

lemma alnum_not_sep: "\<not> alnum 45" "\<not> alnum 46" "\<not> alnum 124" "\<not> alnum 43"
  by (simp_all add: alnum_def)

lemma formatBits_alnum:
  assumes "2 \<le> base" and "base \<le> 36"
  shows "\<forall>c \<in> set (formatBits base n). alnum c"
  using assms
proof (induction base n rule: formatBits.induct)
  case (1 base n)
  show ?case
  proof (cases "n < base")
    case True
    with 1 show ?thesis by (subst formatBits.simps) (simp add: alnum_digit_char)
  next
    case False
    moreover have "n mod base < 36"
      using 1 mod_less_divisor [of base n] by linarith
    ultimately show ?thesis
      using 1 by (subst formatBits.simps) (auto simp: alnum_digit_char)
  qed
qed

lemma formatBits_nonempty [simp]: "formatBits base n \<noteq> []"
  by (subst formatBits.simps) simp

lemma parseDigits_format:
  assumes "2 \<le> base" and "base \<le> 36" and "n \<le> maxVal"
  shows "parseDigits base maxVal 0 (formatBits base n @ s) = parseDigits base maxVal n s"
  using assms
proof (induction base n arbitrary: s rule: formatBits.induct)
  case (1 base n)
  show ?case
  proof (cases "n < base")
    case True
    with 1 show ?thesis by (subst formatBits.simps) simp
  next
    case False
    have m: "n mod base < base" "n div base * base + n mod base = n"
      using \<open>2 \<le> base\<close> by simp_all
    have d: "n div base \<le> maxVal"
      using \<open>n \<le> maxVal\<close> div_le_dividend [of n base] by linarith
    have "parseDigits base maxVal 0 (formatBits base (n div base) @ digit_char (n mod base) # s)
        = parseDigits base maxVal (n div base) (digit_char (n mod base) # s)"
      using 1 False d by simp
    also have "\<dots> = parseDigits base maxVal n s"
      using less_le_trans [OF m(1) \<open>base \<le> 36\<close>] m \<open>n \<le> maxVal\<close> by simp
    finally show ?thesis
      using 1 False by (subst formatBits.simps) simp
  qed
qed

lemma ParseUint_format:
  assumes "2 \<le> base" and "base \<le> 36" and "n < 2 ^ bitSize"
  shows "ParseUint (formatBits base n) base bitSize = Some n"
  using parseDigits_format [OF assms(1,2), of n "2 ^ bitSize - 1" "[]"] assms(3)
  by (simp add: ParseUint_def)

lemma ParseInt_format:
  assumes "2 \<le> base" and "base \<le> 36" and "0 \<le> i" and "i < 2 ^ (bitSize - 1)" and "0 < bitSize"
  shows "ParseInt (FormatInt i base) base bitSize = Some i"
proof -
  have "alnum (hd (formatBits base (nat i)))"
    using formatBits_alnum [OF assms(1,2), of "nat i"] hd_in_set [of "formatBits base (nat i)"]
    by simp
  then have h: "hd (formatBits base (nat i)) \<noteq> 45" "hd (formatBits base (nat i)) \<noteq> 43"
    using alnum_not_sep by auto
  have lt: "nat i < 2 ^ (bitSize - 1)"
    using assms(3,4) by (simp add: nat_less_iff)
  also have "\<dots> \<le> 2 ^ bitSize"
    by simp
  finally have "ParseUint (formatBits base (nat i)) base bitSize = Some (nat i)"
    by (rule ParseUint_format [OF assms(1,2)])
  with h lt assms(3) show ?thesis
    by (simp add: ParseInt_def FormatInt_def)
qed

lemma formatBits_10_digits: "\<forall>c \<in> set (formatBits 10 n). 48 \<le> unat c \<and> unat c \<le> 57"
proof (induction "10 :: nat" n rule: formatBits.induct)
  case (1 n)
  show ?case
  proof (cases "n < 10")
    case True
    then show ?thesis by (subst formatBits.simps) (simp add: unat_digit_char)
  next
    case False
    moreover have "n mod 10 < 10" by simp
    ultimately show ?thesis
      using 1 by (subst formatBits.simps) (auto simp: unat_digit_char)
  qed
qed

lemma formatBits_10_hd: "0 < n \<Longrightarrow> hd (formatBits 10 n) \<noteq> 48"
proof (induction "10 :: nat" n rule: formatBits.induct)
  case (1 n)
  show ?case
  proof (cases "n < 10")
    case True
    have "unat (digit_char n) \<noteq> unat (48 :: byte)"
      using 1 True by (simp add: unat_digit_char)
    with True show ?thesis by (subst formatBits.simps) auto
  next
    case False
    then have "0 < n div 10" by simp
    with 1 False show ?thesis by (subst formatBits.simps) simp
  qed
qed

section \<open>Hexadecimal text\<close>

definition hex_EncodeToString :: "bytes \<Rightarrow> gostring" where
  "hex_EncodeToString src =
     concat (map (\<lambda>b. [digit_char (unat b div 16), digit_char (unat b mod 16)]) src)"

lemma hex_alnum: "\<forall>c \<in> set (hex_EncodeToString src). alnum c"
proof -
  have "unat b div 16 < 36" for b :: byte
    using unsigned_less [of b, where ?'a = nat] by (simp add: less_mult_imp_div_less)
  moreover have "unat b mod 16 < 36" for b :: byte
    by (rule less_trans [of _ 16]) simp_all
  ultimately show ?thesis
    by (auto simp: hex_EncodeToString_def intro!: alnum_digit_char)
qed

lemma length_hex [simp]: "length (hex_EncodeToString src) = 2 * length src"
  by (induction src) (simp_all add: hex_EncodeToString_def)

lemma hex_Nil_iff [simp]: "hex_EncodeToString src = [] \<longleftrightarrow> src = []"
  by (cases src) (simp_all add: hex_EncodeToString_def)

end
