(* ===== verification/Endpoints.thy ===== *)
theory Endpoints
  imports Struct_Codec Go_Strings
begin

text \<open>
  Endpoints: the wire struct \<^verbatim>\<open>EndpointF\<close> of \<^verbatim>\<open>tars/protocol/res/endpointf/EndpointF.go\<close>, the
  program's \<^verbatim>\<open>Endpoint\<close> of \<^verbatim>\<open>tars/util/endpoint/endpoint.go\<close> and the conversions of
  \<^verbatim>\<open>convert.go\<close>.
\<close>

section \<open>The wire struct\<close>

record EndpointF =
  efHost :: gostring
  efPort :: int32
  efTimeout :: int32
  efIstcp :: int32
  efGrid :: int32
  efGroupworkid :: int32
  efGrouprealid :: int32
  efSetId :: gostring
  efQos :: int32
  efBakFlag :: int32
  efWeight :: int32
  efWeightType :: int32
  efAuthType :: int32

definition EndpointF_ResetDefault :: "EndpointF \<Rightarrow> EndpointF" where
  "EndpointF_ResetDefault st = st"

definition EndpointF_ReadFrom :: "EndpointF \<Rightarrow> Reader \<Rightarrow> EndpointF \<times> gerr option \<times> Reader" where
  "EndpointF_ReadFrom st r =
     (let st = EndpointF_ResetDefault st in
      thenR (into (\<lambda>v. st\<lparr>efHost := v\<rparr>) (ReadString (efHost st) 0 True r)) (\<lambda>st r.
      thenR (into (\<lambda>v. st\<lparr>efPort := v\<rparr>) (ReadInt32 (efPort st) 1 True r)) (\<lambda>st r.
      thenR (into (\<lambda>v. st\<lparr>efTimeout := v\<rparr>) (ReadInt32 (efTimeout st) 2 True r)) (\<lambda>st r.
      thenR (into (\<lambda>v. st\<lparr>efIstcp := v\<rparr>) (ReadInt32 (efIstcp st) 3 True r)) (\<lambda>st r.
      thenR (into (\<lambda>v. st\<lparr>efGrid := v\<rparr>) (ReadInt32 (efGrid st) 4 True r)) (\<lambda>st r.
      thenR (into (\<lambda>v. st\<lparr>efGroupworkid := v\<rparr>) (ReadInt32 (efGroupworkid st) 5 False r)) (\<lambda>st r.
      thenR (into (\<lambda>v. st\<lparr>efGrouprealid := v\<rparr>) (ReadInt32 (efGrouprealid st) 6 False r)) (\<lambda>st r.
      thenR (into (\<lambda>v. st\<lparr>efSetId := v\<rparr>) (ReadString (efSetId st) 7 False r)) (\<lambda>st r.
      thenR (into (\<lambda>v. st\<lparr>efQos := v\<rparr>) (ReadInt32 (efQos st) 8 False r)) (\<lambda>st r.
      thenR (into (\<lambda>v. st\<lparr>efBakFlag := v\<rparr>) (ReadInt32 (efBakFlag st) 9 False r)) (\<lambda>st r.
      thenR (into (\<lambda>v. st\<lparr>efWeight := v\<rparr>) (ReadInt32 (efWeight st) 11 False r)) (\<lambda>st r.
      thenR (into (\<lambda>v. st\<lparr>efWeightType := v\<rparr>) (ReadInt32 (efWeightType st) 12 False r)) (\<lambda>st r.
      into (\<lambda>v. st\<lparr>efAuthType := v\<rparr>) (ReadInt32 (efAuthType st) 13 False r))))))))))))))"

definition EndpointF_WriteTo :: "EndpointF \<Rightarrow> writer" where
  "EndpointF_WriteTo st =
     wseq [WriteString (efHost st) 0,
       WriteInt32 (efPort st) 1,
       WriteInt32 (efTimeout st) 2,
       WriteInt32 (efIstcp st) 3,
       WriteInt32 (efGrid st) 4,
       WriteInt32 (efGroupworkid st) 5,
       WriteInt32 (efGrouprealid st) 6,
       WriteString (efSetId st) 7,
       WriteInt32 (efQos st) 8,
       WriteInt32 (efBakFlag st) 9,
       WriteInt32 (efWeight st) 11,
       WriteInt32 (efWeightType st) 12,
       WriteInt32 (efAuthType st) 13]"

definition EndpointF_ReadBlock :: "EndpointF \<Rightarrow> byte \<Rightarrow> bool \<Rightarrow> Reader \<Rightarrow> EndpointF \<times> gerr option \<times> Reader" where
  "EndpointF_ReadBlock = ReadBlock ''EndpointF'' EndpointF_ResetDefault EndpointF_ReadFrom"

definition EndpointF_WriteBlock :: "EndpointF \<Rightarrow> byte \<Rightarrow> writer" where
  "EndpointF_WriteBlock = WriteBlock EndpointF_WriteTo"

definition okEndpointF :: "EndpointF \<Rightarrow> bool" where
  "okEndpointF st \<longleftrightarrow> length (efHost st) < 2 ^ 32 \<and> length (efSetId st) < 2 ^ 32"

definition encEndpointF :: "EndpointF \<Rightarrow> bytes" where
  "encEndpointF st =
     encString (efHost st) 0
     @ encInt (sint (efPort st)) 1
     @ encInt (sint (efTimeout st)) 2
     @ encInt (sint (efIstcp st)) 3
     @ encInt (sint (efGrid st)) 4
     @ encInt (sint (efGroupworkid st)) 5
     @ encInt (sint (efGrouprealid st)) 6
     @ encString (efSetId st) 7
     @ encInt (sint (efQos st)) 8
     @ encInt (sint (efBakFlag st)) 9
     @ encInt (sint (efWeight st)) 11
     @ encInt (sint (efWeightType st)) 12
     @ encInt (sint (efAuthType st)) 13"

lemma EndpointF_WriteTo_enc: "appends (EndpointF_WriteTo st) (encEndpointF st)"
  unfolding EndpointF_WriteTo_def appends_def encEndpointF_def
  by (simp add: appends_values [THEN appends_append])

lemma EndpointF_ReadFrom_enc:
  assumes ok: "okEndpointF st" and u: "unread r = encEndpointF st @ xs"
  shows "EndpointF_ReadFrom w r = (st, None, adv (length (encEndpointF st)) r)"
proof -
  define r1 where "r1 = adv (length (encString (efHost st) 0)) r"
  define r2 where "r2 = adv (length (encInt (sint (efPort st)) 1)) r1"
  define r3 where "r3 = adv (length (encInt (sint (efTimeout st)) 2)) r2"
  define r4 where "r4 = adv (length (encInt (sint (efIstcp st)) 3)) r3"
  define r5 where "r5 = adv (length (encInt (sint (efGrid st)) 4)) r4"
  define r6 where "r6 = adv (length (encInt (sint (efGroupworkid st)) 5)) r5"
  define r7 where "r7 = adv (length (encInt (sint (efGrouprealid st)) 6)) r6"
  define r8 where "r8 = adv (length (encString (efSetId st) 7)) r7"
  define r9 where "r9 = adv (length (encInt (sint (efQos st)) 8)) r8"
  define r10 where "r10 = adv (length (encInt (sint (efBakFlag st)) 9)) r9"
  define r11 where "r11 = adv (length (encInt (sint (efWeight st)) 11)) r10"
  define r12 where "r12 = adv (length (encInt (sint (efWeightType st)) 12)) r11"
  note rs = r1_def r2_def r3_def r4_def r5_def r6_def r7_def r8_def r9_def r10_def r11_def r12_def
  have us: "unread r = encString (efHost st) 0 @ unread r1"
    "unread r1 = encInt (sint (efPort st)) 1 @ unread r2"
    "unread r2 = encInt (sint (efTimeout st)) 2 @ unread r3"
    "unread r3 = encInt (sint (efIstcp st)) 3 @ unread r4"
    "unread r4 = encInt (sint (efGrid st)) 4 @ unread r5"
    "unread r5 = encInt (sint (efGroupworkid st)) 5 @ unread r6"
    "unread r6 = encInt (sint (efGrouprealid st)) 6 @ unread r7"
    "unread r7 = encString (efSetId st) 7 @ unread r8"
    "unread r8 = encInt (sint (efQos st)) 8 @ unread r9"
    "unread r9 = encInt (sint (efBakFlag st)) 9 @ unread r10"
    "unread r10 = encInt (sint (efWeight st)) 11 @ unread r11"
    "unread r11 = encInt (sint (efWeightType st)) 12 @ unread r12"
    "unread r12 = encInt (sint (efAuthType st)) 13 @ xs"
    using u by (simp_all add: rs encEndpointF_def)
  have "adv (length (encInt (sint (efAuthType st)) 13)) r12 = adv (length (encEndpointF st)) r"
    by (simp add: rs encEndpointF_def add.assoc)
  moreover note cString.rd_enc [OF _ us(1), folded r1_def]
    cInt32.rd_enc [OF TrueI us(2), folded r2_def]
    cInt32.rd_enc [OF TrueI us(3), folded r3_def]
    cInt32.rd_enc [OF TrueI us(4), folded r4_def]
    cInt32.rd_enc [OF TrueI us(5), folded r5_def]
    cInt32.rd_enc [OF TrueI us(6), folded r6_def]
    cInt32.rd_enc [OF TrueI us(7), folded r7_def]
    cString.rd_enc [OF _ us(8), folded r8_def]
    cInt32.rd_enc [OF TrueI us(9), folded r9_def]
    cInt32.rd_enc [OF TrueI us(10), folded r10_def]
    cInt32.rd_enc [OF TrueI us(11), folded r11_def]
    cInt32.rd_enc [OF TrueI us(12), folded r12_def]
    cInt32.rd_enc [OF TrueI us(13)]
  ultimately show ?thesis
    using ok unfolding EndpointF_ReadFrom_def okEndpointF_def
    by (simp add: EndpointF_ResetDefault_def)
qed

interpretation cEndpointF: struct_codec "''EndpointF''" EndpointF_ResetDefault EndpointF_WriteTo
  EndpointF_ReadFrom encEndpointF okEndpointF "\<lambda>_. True"
  by unfold_locales (simp_all add: EndpointF_WriteTo_enc EndpointF_ReadFrom_enc)

section \<open>Endpoints of the program\<close>

definition UDP :: int32 where "UDP = 0"
definition TCP :: int32 where "TCP = 1"
definition SSL :: int32 where "SSL = 2"

record Endpoint =
  epHost :: gostring
  epPort :: int32
  epTimeout :: int32
  epIstcp :: int32
  epGrid :: int32
  epQos :: int32
  epWeight :: int32
  epWeightType :: int32
  epAuthType :: int32
  epProto :: gostring
  epBind :: gostring
  epContainer :: gostring
  epSetId :: gostring
  epKey :: gostring

text \<open>\<^verbatim>\<open>%d\<close> of \<^verbatim>\<open>fmt.Sprintf\<close>.\<close>

definition fmt_d :: "int \<Rightarrow> gostring" where
  "fmt_d i = FormatInt i 10"

definition Endpoint_String :: "Endpoint \<Rightarrow> gostring" where
  "Endpoint_String e = epProto e @ ascii '' -h '' @ epHost e @ ascii '' -p '' @ fmt_d (sint (epPort e))
     @ ascii '' -t '' @ fmt_d (sint (epTimeout e))"

definition HashKey :: "Endpoint \<Rightarrow> gostring" where
  "HashKey e = epHost e"

definition IsTcp :: "Endpoint \<Rightarrow> bool" where
  "IsTcp e \<longleftrightarrow> epIstcp e = TCP \<or> epIstcp e = SSL"

definition IsUdp :: "Endpoint \<Rightarrow> bool" where
  "IsUdp e \<longleftrightarrow> epIstcp e = UDP"

definition IsSSL :: "Endpoint \<Rightarrow> bool" where
  "IsSSL e \<longleftrightarrow> epIstcp e = SSL"

section \<open>Conversions\<close>

definition Tars2endpoint :: "EndpointF \<Rightarrow> Endpoint" where
  "Tars2endpoint end' =
     (let proto = (if efIstcp end' = UDP then ascii ''udp'' else ascii ''tcp'');
          e = \<lparr>epHost = efHost end', epPort = efPort end', epTimeout = efTimeout end',
               epIstcp = efIstcp end', epGrid = efGrid end', epQos = efQos end',
               epWeight = efWeight end', epWeightType = efWeightType end',
               epAuthType = efAuthType end', epProto = proto, epBind = [], epContainer = [],
               epSetId = efSetId end', epKey = []\<rparr>
      in e\<lparr>epKey := Endpoint_String e\<rparr>)"

definition Endpoint2tars :: "Endpoint \<Rightarrow> EndpointF" where
  "Endpoint2tars e =
     \<lparr>efHost = epHost e, efPort = epPort e, efTimeout = epTimeout e, efIstcp = epIstcp e,
      efGrid = epGrid e, efGroupworkid = 0, efGrouprealid = 0, efSetId = epSetId e, efQos = epQos e,
      efBakFlag = 0, efWeight = epWeight e, efWeightType = epWeightType e, efAuthType = epAuthType e\<rparr>"

text \<open>\<open>None\<close> is a nil pointer.\<close>

definition IsEqual :: "EndpointF list option \<Rightarrow> EndpointF list option \<Rightarrow> bool" where
  "IsEqual a b =
     (case (a, b) of
        (None, None) \<Rightarrow> True
      | (Some xs, Some ys) \<Rightarrow> length xs = length ys \<and>
          list_all (\<lambda>(x, y). \<not> (efHost x \<noteq> efHost y \<or> efPort x \<noteq> efPort y \<or> efIstcp x \<noteq> efIstcp y
            \<or> efWeightType x \<noteq> efWeightType y \<or> efWeight x \<noteq> efWeight y)) (zip xs ys)
      | _ \<Rightarrow> False)"

section \<open>Properties\<close>

text \<open>An endpoint struct is written and read back unchanged in its block form, also from a
  newer peer that appends members, and the conversion to the program's endpoint and back keeps
  every member but the group ids and the backup flag, which become 0.\<close>

theorem endpoint_round_trip:
  assumes "okEndpointF st" and "wfFields fs"
    and "unread r = encHead StructBegin tag @ encEndpointF st @ encFields fs @ encHead StructEnd 0"
  shows "reads_all (EndpointF_ReadBlock w tag require r) st
    \<and> Endpoint2tars (Tars2endpoint st) = st\<lparr>efGroupworkid := 0, efGrouprealid := 0, efBakFlag := 0\<rparr>"
proof
  show "reads_all (EndpointF_ReadBlock w tag require r) st"
    using cEndpointF.ReadBlock_newer [where st = st and w = w and fs = fs and r = r and tag = tag
        and xs = "[]" and require = require] assms
    by (simp add: EndpointF_ReadBlock_def reads_all_def)
  show "Endpoint2tars (Tars2endpoint st) = st\<lparr>efGroupworkid := 0, efGrouprealid := 0, efBakFlag := 0\<rparr>"
    by (cases st) (simp add: Endpoint2tars_def Tars2endpoint_def Let_def)
qed

definition demo_endpoint :: EndpointF where
  "demo_endpoint = \<lparr>efHost = [49], efPort = 80, efTimeout = 3000, efIstcp = 1, efGrid = 0,
     efGroupworkid = 5, efGrouprealid = 0, efSetId = [], efQos = 0, efBakFlag = 1, efWeight = 7,
     efWeightType = 1, efAuthType = 0\<rparr>"

theorem endpoint_round_trip_witness:
  "Endpoint2tars (Tars2endpoint demo_endpoint) = demo_endpoint\<lparr>efGroupworkid := 0, efBakFlag := 0\<rparr>"
proof -
  have "okEndpointF demo_endpoint" and "wfFields []"
    by (simp_all add: okEndpointF_def demo_endpoint_def)
  from endpoint_round_trip [OF this, of "NewReader (encHead StructBegin 0 @ encEndpointF demo_endpoint @ encHead StructEnd 0)" 0]
  show ?thesis by (simp add: demo_endpoint_def)
qed

end
