(* ===== verification/Adapter.thy ===== *)
theory Adapter
  imports Endpoints
begin

text \<open>
  The health of an endpoint as its \<^verbatim>\<open>AdapterProxy\<close> keeps it, \<^verbatim>\<open>tars/adapter.go\<close> with the constants of
  \<^verbatim>\<open>tars/setting.go\<close>: counters of calls, the decision to block an endpoint, and the probing of a blocked
  one. Counters are 32-bit and wrap; times are seconds. The calls that go through an adapter are in
  \<open>Client_Calls\<close>.
\<close>

section \<open>Counters\<close>

definition tryTimeInterval :: int where "tryTimeInterval = 30"
definition fainN :: int where "fainN = 5"
definition failInterval :: int where "failInterval = 5"
definition checkTime :: int where "checkTime = 60"
definition overN :: int where "overN = 2"

record AdapterProxy =
  apPoint :: EndpointF
  apFailCount :: int32
  apLastFailCount :: int32
  apSendCount :: int32
  apSuccessCount :: int32
  apStatus :: bool
  apLastSuccessTime :: int
  apLastBlockTime :: int
  apLastCheckTime :: int
  apLastKeepAliveTime :: int
  apClosed :: bool

definition NewAdapterProxy :: "EndpointF \<Rightarrow> AdapterProxy" where
  "NewAdapterProxy point =
     \<lparr>apPoint = point, apFailCount = 0, apLastFailCount = 0, apSendCount = 0, apSuccessCount = 0,
      apStatus = True, apLastSuccessTime = 0, apLastBlockTime = 0, apLastCheckTime = 0,
      apLastKeepAliveTime = 0, apClosed = False\<rparr>"

definition adp_Close :: "AdapterProxy \<Rightarrow> AdapterProxy" where
  "adp_Close c = c\<lparr>apClosed := True\<rparr>"

definition sendAdd :: "AdapterProxy \<Rightarrow> AdapterProxy" where
  "sendAdd c = c\<lparr>apSendCount := apSendCount c + 1\<rparr>"

definition successAdd :: "int \<Rightarrow> AdapterProxy \<Rightarrow> AdapterProxy" where
  "successAdd now c = c\<lparr>apLastSuccessTime := now, apSuccessCount := apSuccessCount c + 1, apLastFailCount := 0\<rparr>"

definition failAdd :: "AdapterProxy \<Rightarrow> AdapterProxy" where
  "failAdd c = c\<lparr>apLastFailCount := apLastFailCount c + 1, apFailCount := apFailCount c + 1\<rparr>"

definition adp_reset :: "int \<Rightarrow> AdapterProxy \<Rightarrow> AdapterProxy" where
  "adp_reset now c = c\<lparr>apSendCount := 0, apSuccessCount := 0, apFailCount := 0, apLastFailCount := 0,
     apLastBlockTime := now, apLastCheckTime := now, apLastKeepAliveTime := now, apStatus := True\<rparr>"

section \<open>Blocking and probing\<close>

text \<open>The conversion of an integer to \<^verbatim>\<open>float32\<close>: 24 significant bits, to nearest, ties to even. The
  quotient of two such numbers rounds to at least a half exactly when twice the first is at least the
  second: if it is less, it is less by a unit in the last place.\<close>

definition float32_int :: "int \<Rightarrow> int" where
  "float32_int n =
     (let a = \<bar>n\<bar>; e = length (takeWhile (\<lambda>e. 2 ^ (24 + e) \<le> a) [0..<8]);
          q = a div 2 ^ e; r = 2 * (a mod 2 ^ e);
          q = (if r > 2 ^ e \<or> (r = 2 ^ e \<and> odd q) then q + 1 else q)
      in sgn n * (q * 2 ^ e))"

text \<open>\<^verbatim>\<open>float32(failCount)/float32(sendCount) >= failRatio\<close> for a positive \<^verbatim>\<open>failCount\<close>; the quotient by
  0 is infinite.\<close>

definition failRatioReached :: "int32 \<Rightarrow> int32 \<Rightarrow> bool" where
  "failRatioReached failCount sendCount \<longleftrightarrow>
     sint sendCount \<ge> 0 \<and> 2 * float32_int (sint failCount) \<ge> float32_int (sint sendCount)"

text \<open>\<open>connected\<close>: whether \<^verbatim>\<open>ReConnect\<close> succeeds.\<close>

definition checkActive :: "int \<Rightarrow> bool \<Rightarrow> AdapterProxy \<Rightarrow> (bool \<times> bool) \<times> AdapterProxy" where
  "checkActive now connected c =
     (if apClosed c then ((False, False), c)
      else if apStatus c then
        (if now - apLastSuccessTime c \<ge> failInterval \<and> sint (apLastFailCount c) \<ge> fainN
         then ((True, False), c\<lparr>apStatus := False, apLastBlockTime := now\<rparr>)
         else if now - apLastCheckTime c \<ge> checkTime then
           (let c = c\<lparr>apLastBlockTime := now\<rparr> in
            if sint (apFailCount c) \<ge> overN \<and> failRatioReached (apFailCount c) (apSendCount c)
            then ((True, False), c\<lparr>apStatus := False\<rparr>)
            else ((False, False), c))
         else ((False, False), c))
      else if now - apLastBlockTime c \<ge> tryTimeInterval then
        (let c = c\<lparr>apLastBlockTime := now\<rparr> in
         if \<not> connected then ((False, False), c) else ((False, True), c))
      else ((False, False), c))"

text \<open>\<^verbatim>\<open>doKeepAlive\<close> sends a one-way ping, at most one in \<^verbatim>\<open>KeepAliveInterval\<close> milliseconds: \<open>queueFull\<close> is
  the test of the proxy's queue, \<open>sent\<close> whether \<^verbatim>\<open>Send\<close> succeeds.\<close>

definition doKeepAlive :: "int \<Rightarrow> bool \<Rightarrow> int \<Rightarrow> bool \<Rightarrow> AdapterProxy \<Rightarrow> AdapterProxy" where
  "doKeepAlive keepAliveInterval queueFull now sent c =
     (if apClosed c \<or> queueFull \<or> now - apLastKeepAliveTime c < keepAliveInterval div 1000 then c
      else let c = sendAdd (c\<lparr>apLastKeepAliveTime := now\<rparr>)
           in if \<not> sent then failAdd c else successAdd now c)"

section \<open>Histories\<close>

text \<open>What happens to an adapter, with the times of checks and successes. \<open>Recover\<close> is the \<^verbatim>\<open>reset\<close>
  after an answered probe.\<close>

datatype adpEvent = Sent | Succeeded int | Failed | Checked int bool | Recover int

fun adp_event :: "adpEvent \<Rightarrow> AdapterProxy \<Rightarrow> AdapterProxy" where
  "adp_event Sent c = sendAdd c"
| "adp_event (Succeeded now) c = successAdd now c"
| "adp_event Failed c = failAdd c"
| "adp_event (Checked now connected) c = snd (checkActive now connected c)"
| "adp_event (Recover now) c = adp_reset now c"

text \<open>The times of the checks that ask for a probe, in order.\<close>

fun probes :: "adpEvent list \<Rightarrow> AdapterProxy \<Rightarrow> int list" where
  "probes [] c = []"
| "probes (e # es) c =
     (case e of Checked now connected \<Rightarrow> if snd (fst (checkActive now connected c)) then [now] else [] | _ \<Rightarrow> [])
     @ probes es (adp_event e c)"

definition history :: "adpEvent list \<Rightarrow> AdapterProxy \<Rightarrow> AdapterProxy" where
  "history es c = fold adp_event es c"

definition no_recover :: "adpEvent list \<Rightarrow> bool" where
  "no_recover es \<longleftrightarrow> (\<forall>e \<in> set es. case e of Recover _ \<Rightarrow> False | _ \<Rightarrow> True)"

lemmas adp_defs = sendAdd_def successAdd_def failAdd_def adp_reset_def checkActive_def Let_def

lemma blocked_stays:
  assumes "\<not> apStatus c" and "case e of Recover _ \<Rightarrow> False | _ \<Rightarrow> True"
  shows "\<not> apStatus (adp_event e c)"
  using assms by (cases e) (auto simp: adp_defs)

text \<open>The block time moves only at a check that finds it old enough.\<close>

lemma blocked_block_time:
  assumes "\<not> apStatus c" and "case e of Recover _ \<Rightarrow> False | _ \<Rightarrow> True"
  shows "apLastBlockTime (adp_event e c) = apLastBlockTime c
    \<or> (\<exists>now connected. e = Checked now connected \<and> apLastBlockTime (adp_event e c) = now
         \<and> now - apLastBlockTime c \<ge> tryTimeInterval)"
  using assms by (cases e) (auto simp: adp_defs)

lemma probe_time:
  assumes "snd (fst (checkActive now connected c))"
  shows "\<not> apStatus c \<and> connected \<and> now - apLastBlockTime c \<ge> tryTimeInterval
    \<and> apLastBlockTime (snd (checkActive now connected c)) = now"
  using assms by (auto simp: checkActive_def Let_def split: if_splits)

lemma probes_after:
  assumes "\<not> apStatus c" and "no_recover es"
  shows "sorted_wrt (\<lambda>s t. t - s \<ge> tryTimeInterval) (apLastBlockTime c # probes es c)"
  using assms
proof (induction es arbitrary: c)
  case (Cons e es)
  let ?c = "adp_event e c"
  have blocked: "\<not> apStatus ?c" and rest: "no_recover es"
    using Cons.prems blocked_stays [of c e] by (simp_all add: no_recover_def)
  note ih = Cons.IH [OF this]
  have time: "apLastBlockTime ?c \<ge> apLastBlockTime c"
    and "apLastBlockTime ?c \<noteq> apLastBlockTime c \<Longrightarrow> apLastBlockTime ?c - apLastBlockTime c \<ge> tryTimeInterval"
    using blocked_block_time [of c e] Cons.prems by (auto simp: no_recover_def tryTimeInterval_def)
  have "probes (e # es) c = probes es ?c \<or>
      probes (e # es) c = apLastBlockTime ?c # probes es ?c \<and> apLastBlockTime ?c - apLastBlockTime c \<ge> tryTimeInterval"
    using probe_time by (cases e) auto
  then show ?case
    using ih time by (auto simp: tryTimeInterval_def dest: bspec)
qed simp

lemma failAdd_fields:
  "apLastFailCount (failAdd c) = apLastFailCount c + 1" "apLastSuccessTime (failAdd c) = apLastSuccessTime c"
  "apStatus (failAdd c) = apStatus c" "apClosed (failAdd c) = apClosed c"
  by (simp_all add: failAdd_def)

text \<open>Five failures in a row without a success, seen at a check five seconds after the last success,
  block an open adapter, whatever came before.\<close>

lemma failures_count:
  assumes "sint (apLastFailCount c) + int k < 2 ^ 31" and "0 \<le> sint (apLastFailCount c)"
  shows "sint (apLastFailCount ((failAdd ^^ k) c)) = sint (apLastFailCount c) + int k
    \<and> apLastSuccessTime ((failAdd ^^ k) c) = apLastSuccessTime c \<and> apStatus ((failAdd ^^ k) c) = apStatus c
    \<and> apClosed ((failAdd ^^ k) c) = apClosed c"
  using assms
proof (induction k)
  case (Suc k)
  then have "sint (apLastFailCount ((failAdd ^^ k) c)) = sint (apLastFailCount c) + int k" by simp
  then have "sint (apLastFailCount ((failAdd ^^ k) c) + 1) = sint (apLastFailCount c) + int (Suc k)"
    using Suc.prems by (simp add: sint_word_ariths signed_take_bit_int_eq_self)
  with Suc show ?case by (simp add: failAdd_fields)
qed simp

lemma history_Failed: "history (replicate k Failed) c = (failAdd ^^ k) c"
  by (induction k arbitrary: c) (simp_all add: history_def funpow_swap1)

lemma history_append: "history (es @ fs) c = history fs (history es c)"
  by (simp add: history_def)

lemma history_blocked: "\<not> apStatus c \<Longrightarrow> no_recover es \<Longrightarrow> \<not> apStatus (history es c)"
proof (induction es arbitrary: c)
  case (Cons e es)
  then show ?case using blocked_stays [of c e] by (auto simp: history_def no_recover_def)
qed (simp add: history_def)

section \<open>Properties\<close>

text \<open>C29: An endpoint that fails five times in a row is blocked at the next check that comes five
  seconds after its last success, and stays blocked until a probe of it is answered; while it is
  blocked, the checks that ask for a probe are thirty seconds apart, and from the block.\<close>

theorem failing_endpoint_blocked:
  assumes "apStatus c" and "\<not> apClosed c" and "0 \<le> sint (apLastFailCount c)"
    and "5 \<le> k" and "sint (apLastFailCount c) + int k < 2 ^ 31"
    and "now - apLastSuccessTime c \<ge> 5" and "no_recover es"
  shows "fst (checkActive now connected (history (replicate k Failed) c)) = (True, False)
    \<and> \<not> apStatus (history (replicate k Failed @ Checked now connected # es) c)
    \<and> sorted_wrt (\<lambda>s t. t - s \<ge> 30) (now # probes es (history (replicate k Failed @ [Checked now connected]) c))"
proof -
  let ?c = "history (replicate k Failed) c" and ?b = "history (replicate k Failed @ [Checked now connected]) c"
  have "checkActive now connected ?c = ((True, False), ?c\<lparr>apStatus := False, apLastBlockTime := now\<rparr>)"
    using assms failures_count [OF assms(5,3)]
    by (simp add: history_Failed checkActive_def failInterval_def fainN_def)
  moreover from this have b: "?b = ?c\<lparr>apStatus := False, apLastBlockTime := now\<rparr>"
    by (simp add: history_def)
  moreover have "history (replicate k Failed @ Checked now connected # es) c = history es ?b"
    by (simp add: history_def)
  ultimately show ?thesis
    using assms(7) probes_after [of ?b es] history_blocked [of ?b es]
    by (simp add: tryTimeInterval_def)
qed

theorem failing_endpoint_blocked_witness:
  "\<not> apStatus (history (replicate 5 Failed @ Checked 100 True # [Sent, Checked 120 True, Checked 131 True])
       (NewAdapterProxy demo_endpoint))
   \<and> probes [Sent, Checked 120 True, Checked 131 True]
       (history (replicate 5 Failed @ [Checked 100 True]) (NewAdapterProxy demo_endpoint)) = [131]"
proof
  show "\<not> apStatus (history (replicate 5 Failed @ Checked 100 True # [Sent, Checked 120 True, Checked 131 True])
       (NewAdapterProxy demo_endpoint))"
    using failing_endpoint_blocked [of "NewAdapterProxy demo_endpoint" 5 100 "[Sent, Checked 120 True, Checked 131 True]" True]
    by (simp add: NewAdapterProxy_def no_recover_def)
  show "probes [Sent, Checked 120 True, Checked 131 True]
       (history (replicate 5 Failed @ [Checked 100 True]) (NewAdapterProxy demo_endpoint)) = [131]"
    by code_simp
qed

text \<open>The time of the last check is set at a recovery only: sixty seconds after it every check of a
  healthy endpoint takes the branch that is meant for once a minute, and looks at the failures
  since the recovery, not at those of the last minute.\<close>

lemma check_time_never_moves:
  "no_recover es \<Longrightarrow> apLastCheckTime (history es c) = apLastCheckTime c"
proof (induction es arbitrary: c)
  case (Cons e es)
  then have "apLastCheckTime (adp_event e c) = apLastCheckTime c"
    by (cases e) (auto simp: adp_defs no_recover_def)
  with Cons show ?case by (simp add: history_def no_recover_def)
qed (simp add: history_def)

end
