(* ===== verification/Endpoint_Parse.thy ===== *)
theory Endpoint_Parse
  imports Endpoints
begin

text \<open>
  The text form of endpoints: \<^verbatim>\<open>Parse\<close> of \<^verbatim>\<open>tars/util/endpoint/parse.go\<close>, with what it uses of Go's
  \<^verbatim>\<open>flag\<close>, \<^verbatim>\<open>strconv\<close> and \<^verbatim>\<open>strings\<close> packages: a flag set of string and integer flags read from a
  list of arguments up to the first error, integers with a base prefix and underscores, and the
  fields of a text of ASCII characters.
\<close>

section \<open>Integers with a base prefix\<close>

definition lower :: "byte \<Rightarrow> byte" where
  "lower c = c OR 32"

text \<open>The base of a number without its sign and the digits that follow the prefix.\<close>

definition basePrefix :: "gostring \<Rightarrow> nat \<times> gostring" where
  "basePrefix s =
     (if s \<noteq> [] \<and> hd s = 48 then
        (if length s \<ge> 3 \<and> lower (s ! 1) = 98 then (2, drop 2 s)
         else if length s \<ge> 3 \<and> lower (s ! 1) = 111 then (8, drop 2 s)
         else if length s \<ge> 3 \<and> lower (s ! 1) = 120 then (16, drop 2 s)
         else (8, tl s))
      else (10, s))"

datatype numResult = NumOk nat | NumSyntax | NumRange

text \<open>The loop of \<^verbatim>\<open>ParseUint\<close> for base 0 and 64 bits, which skips underscores.\<close>

fun uintDigits :: "nat \<Rightarrow> nat \<Rightarrow> gostring \<Rightarrow> numResult" where
  "uintDigits base n [] = NumOk n"
| "uintDigits base n (c # s) =
     (if c = 95 then uintDigits base n s
      else (case digit_val c of
        None \<Rightarrow> NumSyntax
      | Some d \<Rightarrow>
          if d \<ge> base then NumSyntax
          else if n * base + d > 2 ^ 64 - 1 then NumRange
          else uintDigits base (n * base + d) s))"

text \<open>\<^verbatim>\<open>underscoreOK\<close>: underscores stand between digits or after the base prefix. The state is what was
  seen last: 94 nothing, 48 a digit or the prefix, 95 an underscore, 33 anything else.\<close>

fun underscoreLoop :: "bool \<Rightarrow> byte \<Rightarrow> gostring \<Rightarrow> bool" where
  "underscoreLoop hex i [] \<longleftrightarrow> i \<noteq> 95"
| "underscoreLoop hex i (c # s) =
     (if 48 \<le> c \<and> c \<le> 57 \<or> hex \<and> 97 \<le> lower c \<and> lower c \<le> 102 then underscoreLoop hex 48 s
      else if c = 95 then (if i \<noteq> 48 then False else underscoreLoop hex 95 s)
      else if i = 95 then False
      else underscoreLoop hex 33 s)"

definition underscoreOK :: "gostring \<Rightarrow> bool" where
  "underscoreOK s =
     (if length s \<ge> 2 \<and> hd s = 48 \<and> lower (s ! 1) \<in> {98, 111, 120}
      then underscoreLoop (lower (s ! 1) = 120) 48 (drop 2 s)
      else underscoreLoop False 94 s)"

definition ParseUintBase0 :: "gostring \<Rightarrow> numResult" where
  "ParseUintBase0 s =
     (if s = [] then NumSyntax
      else (case basePrefix s of (base, ds) \<Rightarrow>
        (case uintDigits base 0 ds of
           NumOk n \<Rightarrow> if 95 \<in> set ds \<and> \<not> underscoreOK s then NumSyntax else NumOk n
         | e \<Rightarrow> e)))"

text \<open>\<^verbatim>\<open>intValue.Set\<close> of the package \<^verbatim>\<open>flag\<close>: the value stored, also after an error, and whether the text
  was accepted. A value out of range is stored as the bound.\<close>

definition flagInt :: "gostring \<Rightarrow> int \<times> bool" where
  "flagInt s =
     (if s = [] then (0, False)
      else let neg = hd s = 45;
               s = (if hd s = 43 \<or> neg then tl s else s)
           in (case ParseUintBase0 s of
                 NumSyntax \<Rightarrow> (0, False)
               | NumRange \<Rightarrow> (if neg then - (2 ^ 63) else 2 ^ 63 - 1, False)
               | NumOk un \<Rightarrow>
                   if \<not> neg \<and> un \<ge> 2 ^ 63 then (2 ^ 63 - 1, False)
                   else if neg \<and> un > 2 ^ 63 then (- (2 ^ 63), False)
                   else (if neg then - int un else int un, True)))"

section \<open>Flag sets\<close>

datatype flagVal = FlagStr gostring | FlagInt int

type_synonym flagSet = "(gostring \<times> flagVal) list"

text \<open>The name and the value of an argument without its dashes: the first equals sign (61) that is not
  at the start separates them.\<close>

definition splitFlag :: "gostring \<Rightarrow> gostring \<times> gostring option" where
  "splitFlag name =
     (case strings_Index (tl name) 61 of
        None \<Rightarrow> (name, None)
      | Some i \<Rightarrow> (take (Suc i) name, Some (drop (i + 2) name)))"

definition flag_Set :: "gostring \<Rightarrow> gostring \<Rightarrow> flagSet \<Rightarrow> (bool \<times> flagSet) option" where
  "flag_Set name v fs =
     (case map_of fs name of
        None \<Rightarrow> None
      | Some (FlagStr _) \<Rightarrow> Some (True, AList.update name (FlagStr v) fs)
      | Some (FlagInt _) \<Rightarrow> (case flagInt v of (i, ok) \<Rightarrow> Some (ok, AList.update name (FlagInt i) fs)))"

text \<open>\<^verbatim>\<open>FlagSet.parseOne\<close>: whether a flag was seen and no error came up, the arguments left and the
  flags. \<^verbatim>\<open>Parse\<close> stops at the first error as at the first argument that is no flag.\<close>

definition parseOne :: "gostring list \<Rightarrow> flagSet \<Rightarrow> bool \<times> gostring list \<times> flagSet" where
  "parseOne args fs =
     (case args of
        [] \<Rightarrow> (False, args, fs)
      | s # rest \<Rightarrow>
          if length s < 2 \<or> hd s \<noteq> 45 then (False, args, fs)
          else if s = [45, 45] then (False, rest, fs)
          else let name = drop (if s ! 1 = 45 then 2 else 1) s in
            if name = [] \<or> hd name = 45 \<or> hd name = 61 then (False, args, fs)
            else (case splitFlag name of (name, given) \<Rightarrow>
              (case map_of fs name of
                 None \<Rightarrow> (False, rest, fs)
               | Some _ \<Rightarrow>
                   (case (given, rest) of
                      (None, []) \<Rightarrow> (False, rest, fs)
                    | (None, v # rest) \<Rightarrow>
                        (case flag_Set name v fs of
                           None \<Rightarrow> (False, rest, fs) | Some (ok, fs) \<Rightarrow> (ok, rest, fs))
                    | (Some v, rest) \<Rightarrow>
                        (case flag_Set name v fs of
                           None \<Rightarrow> (False, rest, fs) | Some (ok, fs) \<Rightarrow> (ok, rest, fs))))))"

lemma parseOne_shorter: "parseOne args fs = (True, args', fs') \<Longrightarrow> length args' < length args"
  by (auto simp: parseOne_def Let_def split: list.splits if_splits prod.splits option.splits)

function flag_Parse :: "gostring list \<Rightarrow> flagSet \<Rightarrow> flagSet" where
  "flag_Parse args fs =
     (case parseOne args fs of
        (True, args, fs) \<Rightarrow> flag_Parse args fs
      | (False, _, fs) \<Rightarrow> fs)"
  by pat_completeness auto

termination flag_Parse
  by (relation "measure (length \<circ> fst)") (auto dest!: parseOne_shorter [OF sym])

declare flag_Parse.simps [simp del]

section \<open>Parse\<close>

definition isSpace :: "byte \<Rightarrow> bool" where
  "isSpace c \<longleftrightarrow> c = 32 \<or> 9 \<le> c \<and> c \<le> 13"

text \<open>\<^verbatim>\<open>strings.Fields\<close> on ASCII text.\<close>

fun fieldsFrom :: "gostring \<Rightarrow> gostring \<Rightarrow> gostring list" where
  "fieldsFrom w [] = (if w = [] then [] else [w])"
| "fieldsFrom w (c # s) =
     (if isSpace c then (if w = [] then fieldsFrom [] s else w # fieldsFrom [] s)
      else fieldsFrom (w @ [c]) s)"

definition strings_Fields :: "gostring \<Rightarrow> gostring list" where
  "strings_Fields = fieldsFrom []"

definition endpointFlags :: flagSet where
  "endpointFlags = [(ascii ''h'', FlagStr []), (ascii ''p'', FlagInt 0), (ascii ''t'', FlagInt 3000),
     (ascii ''g'', FlagInt 0), (ascii ''q'', FlagInt 0), (ascii ''w'', FlagInt (- 1)),
     (ascii ''v'', FlagInt 0), (ascii ''e'', FlagInt 0), (ascii ''b'', FlagStr [])]"

definition intFlag :: "flagSet \<Rightarrow> string \<Rightarrow> int" where
  "intFlag fs name = (case map_of fs (ascii name) of Some (FlagInt i) \<Rightarrow> i | _ \<Rightarrow> 0)"

definition strFlag :: "flagSet \<Rightarrow> string \<Rightarrow> gostring" where
  "strFlag fs name = (case map_of fs (ascii name) of Some (FlagStr s) \<Rightarrow> s | _ \<Rightarrow> [])"

definition endpoint_Parse :: "gostring \<Rightarrow> gerr + Endpoint" where
  "endpoint_Parse text =
     (if length text < 3 \<or> strings_Fields text = [] then Inl (Panic ''slice bounds out of range'')
      else
        let proto = take 3 text;
            fs = flag_Parse (tl (strings_Fields text)) endpointFlags;
            isTcp = (if proto = ascii ''tcp'' then 1 else if proto = ascii ''ssl'' then 2 else 0);
            proto = (if proto = ascii ''ssl'' then ascii ''tcp'' else proto);
            weightType = intFlag fs ''v'';
            weight = intFlag fs ''w'';
            weight = (if weightType \<noteq> 0 \<and> (weight = - 1 \<or> weight > 100) then 100 else weight);
            e = \<lparr>epHost = strFlag fs ''h'', epPort = word_of_int (intFlag fs ''p''),
                 epTimeout = word_of_int (intFlag fs ''t''), epIstcp = isTcp,
                 epGrid = word_of_int (intFlag fs ''g''), epQos = word_of_int (intFlag fs ''q''),
                 epWeight = word_of_int weight, epWeightType = word_of_int weightType,
                 epAuthType = word_of_int (intFlag fs ''e''), epProto = proto,
                 epBind = strFlag fs ''b'', epContainer = [], epSetId = [], epKey = []\<rparr>
        in Inr (e\<lparr>epKey := Endpoint_String e\<rparr>))"

section \<open>Reading options\<close>

lemma uintDigits_parse:
  "parseDigits 10 (2 ^ 64 - 1) m s = Some n \<Longrightarrow> 95 \<notin> set s \<Longrightarrow> uintDigits 10 m s = NumOk n"
  by (induction s arbitrary: m) (auto split: option.splits if_splits)

lemma formatBits_no_underscore: "95 \<notin> set (formatBits 10 n)"
  using formatBits_alnum [of 10 n] by (auto simp: alnum_def)

lemma ParseUintBase0_format:
  assumes "n < 2 ^ 64"
  shows "ParseUintBase0 (formatBits 10 n) = NumOk n"
proof (cases "n = 0")
  case True
  then show ?thesis
    by (simp add: ParseUintBase0_def formatBits.simps digit_char_def basePrefix_def)
next
  case False
  have "uintDigits 10 0 (formatBits 10 n) = NumOk n"
    using parseDigits_format [of 10 n "2 ^ 64 - 1" "[]"] assms formatBits_no_underscore
    by (intro uintDigits_parse) simp_all
  with False formatBits_10_hd [of n] show ?thesis
    by (simp add: ParseUintBase0_def basePrefix_def formatBits_no_underscore)
qed

lemma flagInt_format:
  assumes "- (2 ^ 63) \<le> i" and "i < 2 ^ 63"
  shows "flagInt (fmt_d i) = (i, True)"
proof (cases "i < 0")
  case True
  with assms ParseUintBase0_format [of "nat (- i)"] show ?thesis
    by (simp add: flagInt_def fmt_d_def FormatInt_def Let_def nat_le_iff nat_less_iff)
next
  case False
  have "48 \<le> unat (hd (formatBits 10 (nat i)))"
    using formatBits_10_digits [of "nat i"] hd_in_set [of "formatBits 10 (nat i)"] by simp
  then have "hd (formatBits 10 (nat i)) \<noteq> 45" "hd (formatBits 10 (nat i)) \<noteq> 43"
    by auto
  with False assms ParseUintBase0_format [of "nat i"] show ?thesis
    by (simp add: flagInt_def fmt_d_def FormatInt_def Let_def nat_less_iff not_le)
qed

text \<open>Settings are options with a name of one letter, as text and as they change the flags.\<close>

fun settingText :: "flagVal \<Rightarrow> gostring" where
  "settingText (FlagStr s) = s"
| "settingText (FlagInt i) = fmt_d i"

fun okWord :: "gostring \<Rightarrow> bool" where
  "okWord s \<longleftrightarrow> s \<noteq> [] \<and> (\<forall>c \<in> set s. \<not> isSpace c)"

definition okSetting :: "flagSet \<Rightarrow> byte \<times> flagVal \<Rightarrow> bool" where
  "okSetting fs p = (case p of (c, v) \<Rightarrow> c \<noteq> 45 \<and> c \<noteq> 61 \<and> \<not> isSpace c \<and> okWord (settingText v) \<and>
     (case (map_of fs [c], v) of
        (Some (FlagStr _), FlagStr _) \<Rightarrow> True
      | (Some (FlagInt _), FlagInt i) \<Rightarrow> - (2 ^ 63) \<le> i \<and> i < 2 ^ 63
      | _ \<Rightarrow> False))"

definition settingArgs :: "(byte \<times> flagVal) list \<Rightarrow> gostring list" where
  "settingArgs ps = concat (map (\<lambda>(c, v). [[45, c], settingText v]) ps)"

definition applySettings :: "(byte \<times> flagVal) list \<Rightarrow> flagSet \<Rightarrow> flagSet" where
  "applySettings ps fs = fold (\<lambda>(c, v). AList.update [c] v) ps fs"

lemma parseOne_setting:
  assumes "okSetting fs (c, v)"
  shows "parseOne ([45, c] # settingText v # rest) fs = (True, rest, AList.update [c] v fs)"
  using assms
  by (auto simp: okSetting_def parseOne_def splitFlag_def flag_Set_def flagInt_format
      split: option.splits flagVal.splits)

lemma okSetting_update: "okSetting fs p \<Longrightarrow> okSetting fs q \<Longrightarrow> okSetting (AList.update [fst q] (snd q) fs) p"
  by (auto simp: okSetting_def update_conv split: prod.splits option.splits flagVal.splits)

lemma flag_Parse_settings:
  "(\<forall>p \<in> set ps. okSetting fs p) \<Longrightarrow> flag_Parse (settingArgs ps) fs = applySettings ps fs"
proof (induction ps arbitrary: fs)
  case Nil
  then show ?case by (simp add: settingArgs_def applySettings_def flag_Parse.simps parseOne_def)
next
  case (Cons p ps)
  obtain c v where p: "p = (c, v)" by (cases p)
  have "flag_Parse (settingArgs (p # ps)) fs = flag_Parse (settingArgs ps) (AList.update [c] v fs)"
    using Cons.prems p
    by (subst flag_Parse.simps) (simp add: settingArgs_def parseOne_setting)
  with Cons p okSetting_update [of fs _ "(c, v)"] show ?case
    by (simp add: applySettings_def)
qed

text \<open>The last setting of a name counts.\<close>

lemma map_of_applySettings:
  "map_of (applySettings ps fs) [c] = (case map_of (rev ps) c of Some v \<Rightarrow> Some v | None \<Rightarrow> map_of fs [c])"
  by (induction ps arbitrary: fs) (auto simp: applySettings_def update_conv map_add_def split: option.splits)

lemma fieldsFrom_word:
  "\<forall>c \<in> set w. \<not> isSpace c \<Longrightarrow> fieldsFrom u (w @ s) = fieldsFrom (u @ w) s"
  by (induction w arbitrary: u) auto

definition blanks :: "gostring list \<Rightarrow> gostring" where
  "blanks ws = concat (map (\<lambda>w. 32 # w) ws)"

lemma Fields_blanks:
  assumes "okWord w" and "\<forall>w \<in> set ws. okWord w"
  shows "strings_Fields (w @ blanks ws) = w # ws"
proof -
  have "fieldsFrom u (blanks ws) = u # ws" if "u \<noteq> []" "\<forall>w \<in> set ws. okWord w" for u
    using that
  proof (induction ws arbitrary: u)
    case (Cons w ws)
    then show ?case by (simp add: blanks_def isSpace_def fieldsFrom_word)
  qed (simp add: blanks_def)
  with assms show ?thesis
    by (simp add: strings_Fields_def fieldsFrom_word)
qed

lemma okWord_settingArgs: "\<forall>p \<in> set ps. okSetting fs p \<Longrightarrow> \<forall>w \<in> set (settingArgs ps). okWord w"
  by (auto simp: settingArgs_def okSetting_def isSpace_def split: prod.splits)

section \<open>Endpoints from options\<close>

definition setInt :: "(byte \<times> flagVal) list \<Rightarrow> string \<Rightarrow> int \<Rightarrow> int" where
  "setInt ps name d = (case map_of (rev ps) (hd (ascii name)) of Some (FlagInt i) \<Rightarrow> i | _ \<Rightarrow> d)"

definition setStr :: "(byte \<times> flagVal) list \<Rightarrow> string \<Rightarrow> gostring" where
  "setStr ps name = (case map_of (rev ps) (hd (ascii name)) of Some (FlagStr s) \<Rightarrow> s | _ \<Rightarrow> [])"

lemma okSetting_typed:
  "okSetting fs (c, v) \<Longrightarrow>
     (case map_of fs [c] of None \<Rightarrow> False
      | Some w \<Rightarrow> (case w of FlagStr _ \<Rightarrow> \<exists>s. v = FlagStr s | FlagInt _ \<Rightarrow> \<exists>i. v = FlagInt i))"
  by (cases "map_of fs [c]"; cases v) (auto simp: okSetting_def split: flagVal.splits)

lemma intFlag_set:
  assumes "\<forall>p \<in> set ps. okSetting fs p"
    and "map_of fs (ascii name) = Some (FlagInt d)" and "length name = 1"
  shows "intFlag (applySettings ps fs) name = setInt ps name d"
proof -
  obtain c where c: "ascii name = [c]" using assms(3) by (cases name) (auto simp: ascii_def)
  have "\<exists>i. v = FlagInt i" if "map_of (rev ps) c = Some v" for v
    using okSetting_typed [of fs c v] assms(1,2) map_of_SomeD [OF that] c by auto
  with c assms(2) show ?thesis
    by (auto simp: intFlag_def setInt_def map_of_applySettings split: option.splits)
qed

lemma strFlag_set:
  assumes "\<forall>p \<in> set ps. okSetting fs p"
    and "map_of fs (ascii name) = Some (FlagStr [])" and "length name = 1"
  shows "strFlag (applySettings ps fs) name = setStr ps name"
proof -
  obtain c where c: "ascii name = [c]" using assms(3) by (cases name) (auto simp: ascii_def)
  have "\<exists>s. v = FlagStr s" if "map_of (rev ps) c = Some v" for v
    using okSetting_typed [of fs c v] assms(1,2) map_of_SomeD [OF that] c by auto
  with c assms(2) show ?thesis
    by (auto simp: strFlag_def setStr_def map_of_applySettings split: option.splits)
qed

text \<open>An endpoint's text is read option by option, in any order, the last setting of an option
  counting and absent options having their defaults.\<close>

lemma endpoint_Parse_settings:
  assumes "okWord proto" and "length proto = 3" and "\<forall>p \<in> set ps. okSetting endpointFlags p"
  shows "\<exists>e. endpoint_Parse (proto @ blanks (settingArgs ps)) = Inr e
    \<and> epHost e = setStr ps ''h'' \<and> epBind e = setStr ps ''b''
    \<and> epPort e = word_of_int (setInt ps ''p'' 0) \<and> epTimeout e = word_of_int (setInt ps ''t'' 3000)
    \<and> epGrid e = word_of_int (setInt ps ''g'' 0) \<and> epQos e = word_of_int (setInt ps ''q'' 0)
    \<and> epWeightType e = word_of_int (setInt ps ''v'' 0) \<and> epAuthType e = word_of_int (setInt ps ''e'' 0)
    \<and> epWeight e = word_of_int (if setInt ps ''v'' 0 \<noteq> 0 \<and> (setInt ps ''w'' (- 1) = - 1 \<or> setInt ps ''w'' (- 1) > 100)
        then 100 else setInt ps ''w'' (- 1))
    \<and> epProto e = (if proto = ascii ''ssl'' then ascii ''tcp'' else proto)
    \<and> epIstcp e = (if proto = ascii ''tcp'' then 1 else if proto = ascii ''ssl'' then 2 else 0)
    \<and> epKey e = Endpoint_String e"
proof -
  have fields: "strings_Fields (proto @ blanks (settingArgs ps)) = proto # settingArgs ps"
    using Fields_blanks [OF assms(1) okWord_settingArgs [OF assms(3)]] .
  have flags: "flag_Parse (settingArgs ps) endpointFlags = applySettings ps endpointFlags"
    by (rule flag_Parse_settings [OF assms(3)])
  note known = endpointFlags_def ascii_def
  have ints: "intFlag (applySettings ps endpointFlags) ''p'' = setInt ps ''p'' 0"
    "intFlag (applySettings ps endpointFlags) ''t'' = setInt ps ''t'' 3000"
    "intFlag (applySettings ps endpointFlags) ''g'' = setInt ps ''g'' 0"
    "intFlag (applySettings ps endpointFlags) ''q'' = setInt ps ''q'' 0"
    "intFlag (applySettings ps endpointFlags) ''w'' = setInt ps ''w'' (- 1)"
    "intFlag (applySettings ps endpointFlags) ''v'' = setInt ps ''v'' 0"
    "intFlag (applySettings ps endpointFlags) ''e'' = setInt ps ''e'' 0"
    "strFlag (applySettings ps endpointFlags) ''h'' = setStr ps ''h''"
    "strFlag (applySettings ps endpointFlags) ''b'' = setStr ps ''b''"
    by (rule intFlag_set [OF assms(3)] strFlag_set [OF assms(3)]; simp add: known)+
  show ?thesis
    using assms(2)
    by (simp add: endpoint_Parse_def fields flags ints Let_def Endpoint_String_def)
qed

lemma fmt_d_okWord: "okWord (fmt_d i)"
  using formatBits_10_digits [of "nat i"] formatBits_10_digits [of "nat (- i)"]
  by (auto simp: fmt_d_def FormatInt_def isSpace_def word_le_nat_alt)

lemma endpoint_String_settings:
  "Endpoint_String e = epProto e @ blanks (settingArgs [(104, FlagStr (epHost e)),
     (112, FlagInt (sint (epPort e))), (116, FlagInt (sint (epTimeout e)))])"
  by (simp add: Endpoint_String_def blanks_def settingArgs_def ascii_def)

lemma endpoint_String_flags:
  assumes "okWord (epHost e)"
  shows "\<forall>p \<in> set [(104, FlagStr (epHost e)), (112, FlagInt (sint (epPort e))), (116, FlagInt (sint (epTimeout e)))].
     okSetting endpointFlags p"
  using assms fmt_d_okWord sint_ge [of "epPort e"] sint_lt [of "epPort e"] sint_ge [of "epTimeout e"]
    sint_lt [of "epTimeout e"]
  by (simp add: okSetting_def endpointFlags_def ascii_def isSpace_def del: okWord.simps)

section \<open>Properties\<close>


definition demo_text_endpoint :: Endpoint where
  "demo_text_endpoint = (Tars2endpoint demo_endpoint)\<lparr>epHost := [65]\<rparr>"


end
