(* ===== verification/Selector_Weights.thy ===== *)
theory Selector_Weights
  imports Endpoints "HOL-Library.Multiset" "HOL-Library.Product_Lexorder" "HOL-Library.List_Lexorder"
begin

text \<open>
  \<^verbatim>\<open>BuildStaticWeightList\<close> of \<^verbatim>\<open>tars/selector/selector.go\<close>: the schedule of the weighted
  selectors, a list of endpoint numbers in which a heavier endpoint occurs more often. The Go
  \<^verbatim>\<open>int\<close> has 64 bits and the sums of 32-bit weights stay far below its range, so it is \<open>int\<close>.
\<close>

section \<open>The schedule\<close>

definition ELoop :: int32 where "ELoop = 0"
definition EStaticWeight :: int32 where "EStaticWeight = 1"
definition minStaticWeightLimit :: int where "minStaticWeightLimit = 10"
definition maxStaticWeightLimit :: int where "maxStaticWeightLimit = 100"

text \<open>Go's integer division truncates towards zero.\<close>

definition quot :: "int \<Rightarrow> int \<Rightarrow> int" where
  "quot a b = sgn a * sgn b * (\<bar>a\<bar> div \<bar>b\<bar>)"

text \<open>The first loop: capacity, least and greatest weight; \<open>None\<close> when an endpoint is not
  weighted statically.\<close>

fun scanWeights :: "Endpoint list \<Rightarrow> int \<times> int \<times> int \<Rightarrow> (int \<times> int \<times> int) option" where
  "scanWeights [] acc = Some acc"
| "scanWeights (node # nodes) (totalCapacity, minWeight, maxWeight) =
     (if epWeightType node \<noteq> EStaticWeight then None
      else let weight = sint (epWeight node) in
        scanWeights nodes (totalCapacity + weight,
          if minWeight > weight then weight else minWeight,
          if maxWeight < weight then weight else maxWeight))"

text \<open>The second loop: total weight, \<^verbatim>\<open>weightToId\<close>, and the schedule with the endpoints whose
  scaled weight is not positive.\<close>

fun scaleWeights :: "int \<Rightarrow> int \<Rightarrow> nat \<Rightarrow> Endpoint list \<Rightarrow> int \<times> (int \<times> nat) list \<times> nat list
    \<Rightarrow> int \<times> (int \<times> nat) list \<times> nat list" where
  "scaleWeights maxRange maxWeight idx [] acc = acc"
| "scaleWeights maxRange maxWeight idx (node # nodes) (totalWeight, weightToId, cache) =
     (let weight = quot (sint (epWeight node) * maxRange) maxWeight in
      scaleWeights maxRange maxWeight (Suc idx) nodes
        (if weight > 0 then (totalWeight + weight, weightToId @ [(weight, idx)], cache)
         else (totalWeight, weightToId, cache @ [idx])))"

text \<open>A round of the third loop: sort ascending by weight and name, then go downwards; the
  first is scheduled and pays the total weight.\<close>

definition weightRound :: "Endpoint list \<Rightarrow> int \<Rightarrow> (nat \<Rightarrow> int) \<Rightarrow> (int \<times> nat) list
    \<Rightarrow> nat list \<times> (int \<times> nat) list" where
  "weightRound endpoints totalWeight idToWeight weightToId =
     (case rev (sort_key (\<lambda>p. (fst p, Endpoint_String (endpoints ! snd p))) weightToId) of
        [] \<Rightarrow> ([], [])
      | m # ms \<Rightarrow> ([snd m], (fst m - totalWeight + idToWeight (snd m), snd m)
          # map (\<lambda>m. (fst m + idToWeight (snd m), snd m)) ms))"

fun weightRounds :: "Endpoint list \<Rightarrow> int \<Rightarrow> (nat \<Rightarrow> int) \<Rightarrow> nat \<Rightarrow> (int \<times> nat) list \<Rightarrow> nat list
    \<Rightarrow> (int \<times> nat) list \<times> nat list" where
  "weightRounds endpoints totalWeight idToWeight 0 weightToId cache = (weightToId, cache)"
| "weightRounds endpoints totalWeight idToWeight (Suc n) weightToId cache =
     (case weightRound endpoints totalWeight idToWeight weightToId of (picked, mulTemp) \<Rightarrow>
        weightRounds endpoints totalWeight idToWeight n mulTemp (cache @ picked))"

definition lookupWeight :: "(int \<times> nat) list \<Rightarrow> nat \<Rightarrow> int" where
  "lookupWeight weightToId i = (case map_of (map prod.swap weightToId) i of Some w \<Rightarrow> w | None \<Rightarrow> 0)"

text \<open>\<open>Inl\<close> is a panic: the capacity of \<^verbatim>\<open>make\<close> is negative, or the greatest weight is 0.\<close>

definition BuildStaticWeightList :: "Endpoint list \<Rightarrow> gerr + nat list" where
  "BuildStaticWeightList endpoints =
     (case scanWeights endpoints (0, 2147483647, - 2147483648) of
        None \<Rightarrow> Inr []
      | Some (totalCapacity, minWeight, maxWeight) \<Rightarrow>
          let maxRange = (if minWeight > 0
                then min (max (quot maxWeight minWeight) minStaticWeightLimit) maxStaticWeightLimit
                else 1);
              totalWeight = (if minWeight > 0 then 0 else 1)
          in if totalCapacity + 100 < 0 then Inl (Panic ''makeslice: cap out of range'')
             else if maxWeight = 0 \<and> endpoints \<noteq> [] then Inl (Panic ''integer divide by zero'')
             else (case scaleWeights maxRange maxWeight 0 endpoints (totalWeight, [], []) of
               (totalWeight, weightToId, cache) \<Rightarrow>
                 Inr (snd (weightRounds endpoints totalWeight (lookupWeight weightToId)
                   (nat totalWeight) weightToId cache))))"

section \<open>Every endpoint gets its share\<close>

text \<open>The invariant after \<open>n\<close> rounds, when endpoint \<open>i\<close> of the set \<open>S\<close> was scheduled \<open>c i\<close> times.\<close>

definition shares_inv :: "nat set \<Rightarrow> (nat \<Rightarrow> int) \<Rightarrow> nat \<Rightarrow> (nat \<Rightarrow> nat) \<Rightarrow> (int \<times> nat) list \<Rightarrow> bool" where
  "shares_inv S w n c wl \<longleftrightarrow> distinct (map snd wl) \<and> snd ` set wl = S \<and> sum c S = n
     \<and> (\<forall>(v, i) \<in> set wl. v = w i * (int n + 1) - sum w S * int (c i) \<and> v - w i > - sum w S)"

lemma sum_current:
  assumes "shares_inv S w n c wl"
  shows "(\<Sum>p \<in> set wl. fst p) = sum w S"
proof -
  have inj: "inj_on snd (set wl)" and S: "snd ` set wl = S" and c: "sum c S = n"
    using assms by (auto simp: shares_inv_def distinct_map)
  have v: "fst p = w (snd p) * (int n + 1) - sum w S * int (c (snd p))" if "p \<in> set wl" for p
    using assms that by (cases p) (auto simp: shares_inv_def)
  have "(\<Sum>p \<in> set wl. fst p) = (\<Sum>p \<in> set wl. (w (snd p) * (int n + 1) - sum w S * int (c (snd p))))"
    by (rule sum.cong) (simp_all add: v)
  also have "\<dots> = (\<Sum>i \<in> S. w i * (int n + 1) - sum w S * int (c i))"
    using sum.reindex [OF inj, of "\<lambda>i. w i * (int n + 1) - sum w S * int (c i)"] S by simp
  also have "\<dots> = sum w S * (int n + 1) - sum w S * int (sum c S)"
    by (simp add: sum_subtractf sum_distrib_left sum_distrib_right)
  finally show ?thesis
    by (simp add: c algebra_simps)
qed

text \<open>The endpoint that is scheduled has a positive current weight, as the current weights add
  up to the total.\<close>

lemma greatest_positive:
  assumes "shares_inv S w n c wl" and "m \<in> set wl" and "\<forall>p \<in> set wl. fst p \<le> fst m"
    and "sum w S > 0"
  shows "fst m > 0"
proof (rule ccontr)
  assume "\<not> fst m > 0"
  then have "(\<Sum>p \<in> set wl. fst p) \<le> 0"
    using assms(3) by (intro sum_nonpos) force
  with sum_current [OF assms(1)] assms(4) show False by simp
qed

lemma weightRound_step:
  assumes "weightRound endpoints T w wl = (picked, wl')" and "wl \<noteq> []"
  obtains m ms where "picked = [snd m]" and "mset wl = mset (m # ms)" and "\<forall>p \<in> set wl. fst p \<le> fst m"
    and "wl' = (fst m - T + w (snd m), snd m) # map (\<lambda>m. (fst m + w (snd m), snd m)) ms"
proof -
  let ?f = "\<lambda>p. (fst p, Endpoint_String (endpoints ! snd p))"
  have "0 < length (rev (sort_key ?f wl))"
    using assms(2) by simp
  then obtain m ms where s: "rev (sort_key ?f wl) = m # ms"
    by (cases "rev (sort_key ?f wl)") simp_all
  have "sort_key ?f wl = rev ms @ [m]"
    using arg_cong [OF s, of rev] by simp
  then have "sorted (map ?f (rev ms @ [m]))"
    using sorted_sort_key [of ?f wl] by simp
  moreover have ms: "mset wl = mset (m # ms)"
    using arg_cong [OF s, of mset] by simp
  ultimately have "\<forall>p \<in> set ms. ?f p \<le> ?f m"
    by (auto simp: sorted_append)
  then have "\<forall>p \<in> set (m # ms). fst p \<le> fst m"
    by (auto simp: less_eq_prod_def)
  moreover have "set wl = set (m # ms)"
    using arg_cong [OF ms, of set_mset] by simp
  ultimately show thesis
    using that [of m ms] assms(1) s ms by (simp add: weightRound_def)
qed

lemma shares_round:
  assumes inv: "shares_inv S w n c wl" and pos: "\<forall>i \<in> S. w i > 0" and ne: "wl \<noteq> []"
    and round: "weightRound endpoints (sum w S) w wl = (picked, wl')"
  shows "\<exists>i \<in> S. picked = [i] \<and> shares_inv S w (Suc n) (c(i := Suc (c i))) wl'"
proof -
  obtain m ms where m: "picked = [snd m]" "mset wl = mset (m # ms)" "\<forall>p \<in> set wl. fst p \<le> fst m"
    and wl': "wl' = (fst m - sum w S + w (snd m), snd m) # map (\<lambda>m. (fst m + w (snd m), snd m)) ms"
    using weightRound_step [OF round ne] by blast
  have set: "set wl = set (m # ms)" using arg_cong [OF m(2), of set_mset] by simp
  have S: "S = snd ` set wl" and fin: "finite S"
    using inv by (auto simp: shares_inv_def)
  have dist: "distinct (map snd (m # ms))"
    using inv m(2) by (metis mset_eq_imp_distinct_iff mset_map shares_inv_def)
  then have other: "snd p \<noteq> snd m" if "p \<in> set ms" for p
    using that by (metis distinct.simps(2) image_eqI list.set_map list.simps(9))
  let ?c = "c(snd m := Suc (c (snd m)))"
  have mS: "snd m \<in> S" using S set by simp
  have val: "fst p = w (snd p) * (int n + 1) - sum w S * int (c (snd p)) \<and> fst p - w (snd p) > - sum w S
      \<and> w (snd p) > 0" if "p \<in> set wl" for p
    using inv pos that S by (cases p) (auto simp: shares_inv_def)
  have T: "sum w S > 0"
    using pos mS fin by (intro sum_pos) auto
  have "fst m > 0"
    using greatest_positive [OF inv _ m(3) T] set by simp
  have sum: "sum ?c S = Suc n"
    using fin mS inv by (simp add: sum.remove [OF fin mS] fun_upd_def shares_inv_def)
  have new: "\<forall>(v, i) \<in> set wl'. v = w i * (int (Suc n) + 1) - sum w S * int (?c i) \<and> v - w i > - sum w S"
  proof (intro ballI)
    fix q assume q: "q \<in> set wl'"
    show "case q of (v, i) \<Rightarrow> v = w i * (int (Suc n) + 1) - sum w S * int (?c i) \<and> v - w i > - sum w S"
    proof (cases "q = (fst m - sum w S + w (snd m), snd m)")
      case True
      then show ?thesis
        using val [of m] set \<open>fst m > 0\<close> by (simp add: algebra_simps)
    next
      case False
      with q wl' obtain p where p: "p \<in> set ms" "q = (fst p + w (snd p), snd p)" by auto
      then show ?thesis
        using val [of p] other [OF p(1)] set by (simp add: algebra_simps)
    qed
  qed
  have "distinct (map snd wl')" "snd ` set wl' = S"
    using dist wl' S set by (auto simp: comp_def image_image)
  with sum new have "shares_inv S w (Suc n) ?c wl'"
    by (simp only: shares_inv_def simp_thms)
  with m(1) mS show ?thesis by blast
qed

text \<open>After as many rounds as the total weight, every endpoint was scheduled as often as its
  weight says.\<close>

lemma shares_rounds:
  assumes "shares_inv S w n c wl" and "\<forall>i \<in> S. w i > 0" and "wl \<noteq> []"
    and "weightRounds endpoints (sum w S) w k wl cache = (wl', cache')"
  shows "\<exists>picks. cache' = cache @ picks \<and> set picks \<subseteq> S
    \<and> shares_inv S w (n + k) (\<lambda>i. c i + count_list picks i) wl'"
  using assms
proof (induction k arbitrary: n c wl cache)
  case (Suc k)
  obtain picked wl1 where r: "weightRound endpoints (sum w S) w wl = (picked, wl1)" by force
  from shares_round [OF Suc.prems(1,2,3) r] obtain i where
    i: "i \<in> S" "picked = [i]" and inv: "shares_inv S w (Suc n) (c(i := Suc (c i))) wl1" by blast
  have "wl1 \<noteq> []" using inv i(1) by (auto simp: shares_inv_def)
  moreover have "weightRounds endpoints (sum w S) w k wl1 (cache @ [i]) = (wl', cache')"
    using Suc.prems(4) r i by simp
  ultimately obtain picks where "cache' = (cache @ [i]) @ picks" "set picks \<subseteq> S"
    "shares_inv S w (Suc n + k) (\<lambda>j. (c(i := Suc (c i))) j + count_list picks j) wl'"
    using Suc.IH [OF inv Suc.prems(2), of "cache @ [i]"] by auto
  moreover have "(\<lambda>j. (c(i := Suc (c i))) j + count_list picks j) = (\<lambda>j. c j + count_list (i # picks) j)"
    by (auto simp: fun_eq_iff)
  ultimately show ?case
    using i(1) by (intro exI [of _ "i # picks"]) simp
qed simp

lemma shares_exact:
  assumes "shares_inv S w n c wl" and "\<forall>i \<in> S. w i > 0" and "int n = sum w S" and "finite S"
  shows "\<forall>i \<in> S. int (c i) = w i"
proof -
  have le: "int (c i) \<le> w i" if "i \<in> S" for i
  proof -
    from assms(1) that obtain v where "(v, i) \<in> set wl" by (force simp: shares_inv_def)
    with assms(1) have "w i * (int n + 1) - sum w S * int (c i) - w i > - sum w S"
      by (auto simp: shares_inv_def)
    then have "sum w S * (w i - int (c i) + 1) > 0"
      using assms(3) by (simp add: algebra_simps)
    moreover have "sum w S \<ge> 0"
      using assms(2) by (intro sum_nonneg) force
    ultimately show ?thesis
      by (simp add: zero_less_mult_iff)
  qed
  have "sum (\<lambda>i. int (c i)) S = sum w S"
    using assms(1,3) by (simp add: shares_inv_def flip: of_nat_sum)
  then show ?thesis
    using sum_mono_inv [of "\<lambda>i. int (c i)" S w] le assms(4) by blast
qed

section \<open>The loops that prepare the rounds\<close>

definition weights :: "Endpoint list \<Rightarrow> int set" where
  "weights eps = (\<lambda>e. sint (epWeight e)) ` set eps"

lemma scanWeights_static:
  assumes "\<forall>e \<in> set eps. epWeightType e = EStaticWeight"
  shows "\<exists>t'. scanWeights eps (t, mn, mx)
      = Some (t', Min (insert mn (weights eps)), Max (insert mx (weights eps)))
    \<and> t' = t + (\<Sum>e\<leftarrow>eps. sint (epWeight e))"
  using assms
proof (induction eps arbitrary: t mn mx)
  case (Cons e eps)
  let ?x = "sint (epWeight e)"
  have "(if mn > ?x then ?x else mn) = min mn ?x" "(if mx < ?x then ?x else mx) = max mx ?x"
    by auto
  moreover have "Min (insert mn (weights (e # eps))) = Min (insert (min mn ?x) (weights eps))"
    "Max (insert mx (weights (e # eps))) = Max (insert (max mx ?x) (weights eps))"
    by (cases "eps = []"; simp add: weights_def min.assoc max.assoc)+
  ultimately show ?case
    using Cons.IH [of "t + ?x" "min mn ?x" "max mx ?x"] Cons.prems by (simp add: Let_def)
qed (simp add: weights_def)

lemma scaleWeights_split:
  "scaleWeights R M idx nodes (T, wl, cache) =
    (let ws = filter (\<lambda>(i, e). quot (sint (epWeight e) * R) M > 0) (enumerate idx nodes);
         zs = filter (\<lambda>(i, e). \<not> quot (sint (epWeight e) * R) M > 0) (enumerate idx nodes)
     in (T + (\<Sum>(i, e)\<leftarrow>ws. quot (sint (epWeight e) * R) M),
         wl @ map (\<lambda>(i, e). (quot (sint (epWeight e) * R) M, i)) ws, cache @ map fst zs))"
  by (induction nodes arbitrary: idx T wl cache) (auto simp: Let_def)

lemma set_enumerate: "set (enumerate 0 xs) = (\<lambda>i. (i, xs ! i)) ` {..<length xs}"
  by (auto simp: in_set_enumerate_eq image_iff)

lemma shares_start:
  assumes dist: "distinct (map snd wl)" and pos: "\<forall>(v, i) \<in> set wl. v > 0" and ne: "wl \<noteq> []"
  shows "\<forall>(v, i) \<in> set wl. lookupWeight wl i = v"
    and "sum (lookupWeight wl) (snd ` set wl) = sum_list (map fst wl)"
    and "shares_inv (snd ` set wl) (lookupWeight wl) 0 (\<lambda>_. 0) wl"
proof -
  have "map_of (map prod.swap wl) i = Some v" if "(v, i) \<in> set wl" for v i
    using that dist by (intro map_of_is_SomeI) (force simp: comp_def)+
  then show look: "\<forall>(v, i) \<in> set wl. lookupWeight wl i = v"
    by (auto simp: lookupWeight_def)
  have inj: "inj_on snd (set wl)"
    using dist by (simp add: distinct_map)
  have "sum (lookupWeight wl) (snd ` set wl) = (\<Sum>p \<in> set wl. lookupWeight wl (snd p))"
    using sum.reindex [OF inj, of "lookupWeight wl"] by simp
  also have "\<dots> = (\<Sum>p \<in> set wl. fst p)"
    using look by (intro sum.cong) auto
  also have "\<dots> = sum_list (map fst wl)"
    using dist by (simp add: sum_list_distinct_conv_sum_set distinct_map)
  finally show sum: "sum (lookupWeight wl) (snd ` set wl) = sum_list (map fst wl)" .
  have "sum_list (map fst wl) > 0"
    using pos ne by (cases wl) (fastforce intro!: add_pos_nonneg sum_list_nonneg)+
  then show "shares_inv (snd ` set wl) (lookupWeight wl) 0 (\<lambda>_. 0) wl"
    using dist look sum by (auto simp: shares_inv_def)
qed

lemma rounds_exact:
  assumes "distinct (map snd wl)" and "\<forall>(v, i) \<in> set wl. v > 0" and "wl \<noteq> []"
    and T: "T = sum_list (map fst wl)"
  shows "\<exists>picks. snd (weightRounds endpoints T (lookupWeight wl) (nat T) wl cache) = cache @ picks
    \<and> set picks \<subseteq> snd ` set wl \<and> (\<forall>(v, i) \<in> set wl. int (count_list picks i) = v)"
proof -
  note start = shares_start [OF assms(1,2,3)]
  let ?S = "snd ` set wl" and ?w = "lookupWeight wl"
  have pos: "\<forall>i \<in> ?S. ?w i > 0" using start(1) assms(2) by fastforce
  have T': "T = sum ?w ?S" using T start(2) by simp
  then have "T \<ge> 0" using pos by (auto intro: sum_nonneg less_imp_le)
  obtain wl' cache' where r: "weightRounds endpoints (sum ?w ?S) ?w (nat T) wl cache = (wl', cache')"
    by force
  from shares_rounds [OF start(3) pos assms(3) r] obtain picks where
    picks: "cache' = cache @ picks" "set picks \<subseteq> ?S"
      "shares_inv ?S ?w (nat T) (\<lambda>i. count_list picks i) wl'" by auto
  from shares_exact [OF picks(3) pos] T' \<open>T \<ge> 0\<close>
  have "\<forall>i \<in> ?S. int (count_list picks i) = ?w i" by simp
  then have "\<forall>(v, i) \<in> set wl. int (count_list picks i) = v"
    using start(1) by force
  with picks r T' show ?thesis by auto
qed

lemma count_list_distinct: "distinct xs \<Longrightarrow> count_list xs i = (if i \<in> set xs then 1 else 0)"
  by (induction xs) (auto simp: count_notin)

section \<open>Properties\<close>

definition staticRange :: "Endpoint list \<Rightarrow> int" where
  "staticRange eps = min (max (Max (weights eps) div Min (weights eps)) 10) 100"

lemma quot_pos: "0 \<le> a \<Longrightarrow> 0 < b \<Longrightarrow> quot a b = a div b"
  by (cases "a = 0") (simp_all add: quot_def)

lemma BuildStaticWeightList_static:
  assumes ne: "eps \<noteq> []" and st: "\<forall>e \<in> set eps. epWeightType e = EStaticWeight \<and> 0 < sint (epWeight e)"
  shows "BuildStaticWeightList eps = (case scaleWeights (staticRange eps) (Max (weights eps)) 0 eps (0, [], []) of
     (T, wl, cache) \<Rightarrow> Inr (snd (weightRounds eps T (lookupWeight wl) (nat T) wl cache)))"
proof -
  have fin: "finite (weights eps)" and W: "weights eps \<noteq> {}"
    using ne by (simp_all add: weights_def)
  have bounds: "- 2147483648 \<le> x \<and> x \<le> 2147483647 \<and> 0 < x" if "x \<in> weights eps" for x
  proof -
    from that obtain e where e: "e \<in> set eps" "x = sint (epWeight e)" by (auto simp: weights_def)
    with st sint_lt [of "epWeight e"] show ?thesis by auto
  qed
  have mn: "Min (insert 2147483647 (weights eps)) = Min (weights eps)"
    using bounds [OF Min_in [OF fin W]] by (subst Min_insert [OF fin W]) simp
  have mx: "Max (insert (- 2147483648) (weights eps)) = Max (weights eps)"
    using bounds [OF Max_in [OF fin W]] by (subst Max_insert [OF fin W]) simp
  have pos: "0 < Min (weights eps)" "0 < Max (weights eps)"
    using bounds Min_in [OF fin W] Max_in [OF fin W] by blast+
  have cap: "0 \<le> (\<Sum>e\<leftarrow>eps. sint (epWeight e))"
    using st by (intro sum_list_nonneg) force
  obtain t where "scanWeights eps (0, 2147483647, - 2147483648)
      = Some (t, Min (weights eps), Max (weights eps))" "t = (\<Sum>e\<leftarrow>eps. sint (epWeight e))"
    using scanWeights_static [of eps 0 2147483647 "- 2147483648"] st mn mx by auto
  then show ?thesis
    using pos cap by (simp add: BuildStaticWeightList_def staticRange_def quot_pos
        minStaticWeightLimit_def maxStaticWeightLimit_def Let_def)
qed

text \<open>The scaled weights and the endpoints whose scaled weight is 0, which are scheduled once.\<close>

definition scaled :: "Endpoint list \<Rightarrow> Endpoint \<Rightarrow> int" where
  "scaled eps e = quot (sint (epWeight e) * staticRange eps) (Max (weights eps))"

definition scaledList :: "Endpoint list \<Rightarrow> (int \<times> nat) list" where
  "scaledList eps = map (\<lambda>(i, e). (scaled eps e, i)) (filter (\<lambda>(i, e). scaled eps e > 0) (enumerate 0 eps))"

definition zeroList :: "Endpoint list \<Rightarrow> nat list" where
  "zeroList eps = map fst (filter (\<lambda>(i, e). \<not> scaled eps e > 0) (enumerate 0 eps))"

lemma scaleWeights_lists:
  "scaleWeights (staticRange eps) (Max (weights eps)) 0 eps (0, [], [])
   = (sum_list (map fst (scaledList eps)), scaledList eps, zeroList eps)"
  by (simp add: scaleWeights_split Let_def comp_def case_prod_unfold scaledList_def zeroList_def scaled_def)

lemma set_scaledList: "set (scaledList eps) = {(scaled eps (eps ! i), i) |i. i < length eps \<and> scaled eps (eps ! i) > 0}"
  and set_zeroList: "set (zeroList eps) = {i. i < length eps \<and> \<not> scaled eps (eps ! i) > 0}"
  and distinct_scaledList: "distinct (map snd (scaledList eps))" "distinct (zeroList eps)"
  by (auto simp: scaledList_def zeroList_def set_enumerate image_iff comp_def case_prod_unfold
      distinct_map_filter)

lemma schedule_counts:
  assumes "set picks \<subseteq> snd ` set (scaledList eps)"
    and "\<forall>(v, i) \<in> set (scaledList eps). int (count_list picks i) = v" and "i < length eps"
  shows "int (count_list (zeroList eps @ picks) i) = max 1 (scaled eps (eps ! i))"
proof (cases "scaled eps (eps ! i) > 0")
  case True
  then have "(scaled eps (eps ! i), i) \<in> set (scaledList eps)" "i \<notin> set (zeroList eps)"
    using assms(3) by (auto simp: set_scaledList set_zeroList)
  with assms(2) True show ?thesis by (auto simp: count_list_distinct [OF distinct_scaledList(2)])
next
  case False
  then have "i \<notin> set picks" "i \<in> set (zeroList eps)"
    using assms(1,3) by (auto simp: set_scaledList set_zeroList)
  with False show ?thesis by (simp add: count_list_distinct [OF distinct_scaledList(2)] count_notin)
qed

text \<open>C20: When all endpoints have a positive static weight, the schedule contains every endpoint,
  and exactly as often as its weight, scaled to the range that the ratio of the weights
  allows, says; an endpoint whose scaled weight is 0 occurs once.\<close>

theorem static_weight_exact:
  assumes "eps \<noteq> []" and "\<forall>e \<in> set eps. epWeightType e = EStaticWeight \<and> 0 < sint (epWeight e)"
  shows "\<exists>cache. BuildStaticWeightList eps = Inr cache \<and> set cache = {..<length eps}
    \<and> (\<forall>i < length eps. int (count_list cache i)
         = max 1 (sint (epWeight (eps ! i)) * staticRange eps div Max (weights eps)))"
proof -
  let ?R = "staticRange eps" and ?M = "Max (weights eps)" and ?wl = "scaledList eps" and ?zs = "zeroList eps"
  have M: "?M \<in> weights eps"
    using assms(1) by (intro Max_in) (simp_all add: weights_def)
  then have M0: "?M > 0" using assms(2) by (auto simp: weights_def)
  have R: "?R \<ge> 10" by (simp add: staticRange_def)
  have q: "scaled eps (eps ! i) = sint (epWeight (eps ! i)) * ?R div ?M" if "i < length eps" for i
    using assms(2) that M0 R unfolding scaled_def
    by (intro quot_pos) (auto intro!: mult_nonneg_nonneg dest: nth_mem less_imp_le)
  obtain k where k: "k < length eps" "sint (epWeight (eps ! k)) = ?M"
    using M by (auto simp: weights_def in_set_conv_nth)
  then have "(scaled eps (eps ! k), k) \<in> set ?wl"
    using q [OF k(1)] M0 R by (auto simp: set_scaledList)
  then have ne: "?wl \<noteq> []" by force
  obtain picks where picks: "snd (weightRounds eps (sum_list (map fst ?wl)) (lookupWeight ?wl)
      (nat (sum_list (map fst ?wl))) ?wl ?zs) = ?zs @ picks"
    "set picks \<subseteq> snd ` set ?wl" "\<forall>(v, i) \<in> set ?wl. int (count_list picks i) = v"
    using rounds_exact [OF distinct_scaledList(1) _ ne refl, of eps ?zs] by (auto simp: set_scaledList)
  note count = schedule_counts [OF picks(2,3)]
  have "set (?zs @ picks) = {..<length eps}"
  proof (intro equalityI subsetI)
    fix i assume "i \<in> {..<length eps}"
    with count [of i] have "count_list (?zs @ picks) i \<noteq> 0" by fastforce
    then show "i \<in> set (?zs @ picks)" by (meson count_notin)
  qed (use picks(2) in \<open>auto simp: set_scaledList set_zeroList\<close>)
  then show ?thesis
    using BuildStaticWeightList_static [OF assms] scaleWeights_lists picks(1) count q by simp
qed

text \<open>Endpoints for the witnesses.\<close>

definition weighted :: "gostring \<Rightarrow> int32 \<Rightarrow> Endpoint" where
  "weighted host w = (Tars2endpoint demo_endpoint)\<lparr>epHost := host, epWeightType := EStaticWeight, epWeight := w\<rparr>"

theorem static_weight_exact_witness:
  "\<exists>cache. BuildStaticWeightList [weighted [65] 1, weighted [66] 3] = Inr cache
    \<and> count_list cache 0 = 3 \<and> count_list cache 1 = 10"
proof -
  let ?eps = "[weighted [65] 1, weighted [66] 3]"
  have w: "weights ?eps = {1, 3}" by (simp add: weights_def weighted_def)
  have "\<exists>cache. BuildStaticWeightList ?eps = Inr cache \<and> set cache = {..<length ?eps}
    \<and> (\<forall>i < length ?eps. int (count_list cache i)
         = max 1 (sint (epWeight (?eps ! i)) * staticRange ?eps div Max (weights ?eps)))"
    by (rule static_weight_exact) (simp_all add: weighted_def)
  then obtain cache where c: "BuildStaticWeightList ?eps = Inr cache"
    and all: "\<And>i. i < length ?eps \<Longrightarrow> int (count_list cache i)
         = max 1 (sint (epWeight (?eps ! i)) * staticRange ?eps div Max (weights ?eps))"
    by blast
  have "count_list cache 0 = 3" "count_list cache 1 = 10"
    using all [of 0] all [of 1] by (simp_all add: w staticRange_def) (simp_all add: weighted_def)
  with c show ?thesis by blast
qed

text \<open>When the weights of all endpoints are static and 0, building the schedule divides by
  zero and panics.\<close>

theorem zero_weights_panic:
  assumes "eps \<noteq> []" and "\<forall>e \<in> set eps. epWeightType e = EStaticWeight \<and> epWeight e = 0"
  shows "BuildStaticWeightList eps = Inl (Panic ''integer divide by zero'')"
proof -
  have "weights eps = {0}" using assms by (auto simp: weights_def image_constant_conv)
  moreover have "(\<Sum>e\<leftarrow>eps. sint (epWeight e)) = 0"
    using assms(2) by (induction eps) simp_all
  ultimately show ?thesis
    using scanWeights_static [of eps 0 2147483647 "- 2147483648"] assms
    by (auto simp: BuildStaticWeightList_def Let_def)
qed

theorem zero_weights_panic_witness:
  "BuildStaticWeightList [weighted [65] 0] = Inl (Panic ''integer divide by zero'')"
  by (rule zero_weights_panic) (simp_all add: weighted_def)

end
