(* ===== verification/Selectors.thy ===== *)
theory Selectors
  imports Selector_Weights
begin

text \<open>
  The selectors of \<^verbatim>\<open>tars/selector\<close> that keep a list of endpoints: \<^verbatim>\<open>modhash\<close>, \<^verbatim>\<open>random\<close> and
  \<^verbatim>\<open>roundrobin\<close>. The three packages repeat the same fields and the same bookkeeping; the fields
  are the record \<open>table\<close>, which \<open>RoundRobin\<close> extends. The interface \<^verbatim>\<open>selector.Selector\<close> is the
  locale \<open>endpoint_selector\<close>, interpreted on all three.
\<close>

section \<open>State and bookkeeping\<close>

datatype selErr = NoSuchEndpoint | AlreadyExists | AlreadyRemoved | SelPanic gerr

record table =
  enableWeight :: bool
  mapValues :: "gostring set"
  endpoints :: "Endpoint list"
  staticWeightRouterCache :: "nat list"

definition ModHash_New :: "bool \<Rightarrow> table" where
  "ModHash_New weight = \<lparr>enableWeight = weight, mapValues = {}, endpoints = [], staticWeightRouterCache = []\<rparr>"

definition addLocked :: "Endpoint \<Rightarrow> 'a table_scheme \<Rightarrow> selErr option \<times> 'a table_scheme" where
  "addLocked ep m =
     (if HashKey ep \<in> mapValues m then (Some AlreadyExists, m)
      else (None, m\<lparr>endpoints := endpoints m @ [ep], mapValues := insert (HashKey ep) (mapValues m)\<rparr>))"

text \<open>The loop of \<^verbatim>\<open>Remove\<close>: the first endpoint with the key goes.\<close>

fun removeFirst :: "gostring \<Rightarrow> Endpoint list \<Rightarrow> Endpoint list" where
  "removeFirst k [] = []"
| "removeFirst k (n # ns) = (if HashKey n = k then ns else n # removeFirst k ns)"

definition reBuildLocked :: "'a table_scheme \<Rightarrow> selErr + 'a table_scheme" where
  "reBuildLocked m =
     (let m = m\<lparr>staticWeightRouterCache := []\<rparr> in
      if enableWeight m then
        (case BuildStaticWeightList (endpoints m) of
           Inl e \<Rightarrow> Inl (SelPanic e)
         | Inr cache \<Rightarrow> Inr (m\<lparr>staticWeightRouterCache := cache\<rparr>))
      else Inr m)"

text \<open>The operations, for a given rebuild of the schedule: a panic of the rebuild ends them.\<close>

definition finish :: "'s \<Rightarrow> selErr + 's \<Rightarrow> selErr option \<times> 's" where
  "finish m res = (case res of Inl e \<Rightarrow> (Some e, m) | Inr m' \<Rightarrow> (None, m'))"

definition table_Refresh :: "('a table_scheme \<Rightarrow> selErr + 'a table_scheme) \<Rightarrow> Endpoint list
    \<Rightarrow> 'a table_scheme \<Rightarrow> selErr option \<times> 'a table_scheme" where
  "table_Refresh reBuild eps m =
     (let m = foldl (\<lambda>m ep. snd (addLocked ep m)) (m\<lparr>mapValues := {}, endpoints := []\<rparr>) eps
      in finish m (reBuild m))"

definition table_Add :: "('a table_scheme \<Rightarrow> selErr + 'a table_scheme) \<Rightarrow> Endpoint
    \<Rightarrow> 'a table_scheme \<Rightarrow> selErr option \<times> 'a table_scheme" where
  "table_Add reBuild ep m =
     (case addLocked ep m of (err, m) \<Rightarrow> if err \<noteq> None then (err, m) else finish m (reBuild m))"

definition table_Remove :: "('a table_scheme \<Rightarrow> selErr + 'a table_scheme) \<Rightarrow> Endpoint
    \<Rightarrow> 'a table_scheme \<Rightarrow> selErr option \<times> 'a table_scheme" where
  "table_Remove reBuild ep m =
     (if HashKey ep \<notin> mapValues m then (Some AlreadyRemoved, m)
      else let m = m\<lparr>mapValues := mapValues m - {HashKey ep},
                     endpoints := removeFirst (HashKey ep) (endpoints m)\<rparr>
           in finish m (reBuild m))"

text \<open>The expression \<^verbatim>\<open>endpoints[i]\<close>.\<close>

definition nth_endpoint :: "'a table_scheme \<Rightarrow> nat \<Rightarrow> selErr + Endpoint" where
  "nth_endpoint m i = (if i < length (endpoints m) then Inr (endpoints m ! i)
     else Inl (SelPanic (Panic ''index out of range'')))"

section \<open>modhash\<close>

text \<open>A slice has fewer than \<open>2 ^ 32\<close> elements, so \<^verbatim>\<open>uint32(len(...))\<close> is its length.\<close>

definition ModHash_Select :: "uint32 \<Rightarrow> table \<Rightarrow> (selErr + Endpoint) \<times> table" where
  "ModHash_Select hashCode m =
     (if length (endpoints m) = 0 then Inl NoSuchEndpoint
      else if length (staticWeightRouterCache m) \<noteq> 0 then
        nth_endpoint m (staticWeightRouterCache m !
          (unat hashCode mod length (staticWeightRouterCache m)))
      else nth_endpoint m (unat hashCode mod length (endpoints m)), m)"

definition ModHash_Refresh :: "Endpoint list \<Rightarrow> table \<Rightarrow> selErr option \<times> table" where
  "ModHash_Refresh = table_Refresh reBuildLocked"

definition ModHash_Add :: "Endpoint \<Rightarrow> table \<Rightarrow> selErr option \<times> table" where
  "ModHash_Add = table_Add reBuildLocked"

definition ModHash_Remove :: "Endpoint \<Rightarrow> table \<Rightarrow> selErr option \<times> table" where
  "ModHash_Remove = table_Remove reBuildLocked"

section \<open>random\<close>

text \<open>\<open>intn\<close> is what \<^verbatim>\<open>rand.Intn\<close> returns for each argument.\<close>

definition Random_Select :: "(nat \<Rightarrow> nat) \<Rightarrow> table \<Rightarrow> (selErr + Endpoint) \<times> table" where
  "Random_Select intn r =
     (if length (endpoints r) = 0 then Inl NoSuchEndpoint
      else if length (staticWeightRouterCache r) \<noteq> 0 then
        nth_endpoint r (staticWeightRouterCache r ! intn (length (staticWeightRouterCache r)))
      else nth_endpoint r (intn (length (endpoints r))), r)"

definition Random_Refresh :: "Endpoint list \<Rightarrow> table \<Rightarrow> selErr option \<times> table" where
  "Random_Refresh = table_Refresh reBuildLocked"

definition Random_Add :: "Endpoint \<Rightarrow> table \<Rightarrow> selErr option \<times> table" where
  "Random_Add = table_Add reBuildLocked"

definition Random_Remove :: "Endpoint \<Rightarrow> table \<Rightarrow> selErr option \<times> table" where
  "Random_Remove = table_Remove reBuildLocked"

section \<open>roundrobin\<close>

record RoundRobin = table +
  lastPosition :: uint64
  lastStaticWeightPosition :: uint64

definition RoundRobin_New :: "bool \<Rightarrow> RoundRobin" where
  "RoundRobin_New weight = \<lparr>enableWeight = weight, mapValues = {}, endpoints = [],
     staticWeightRouterCache = [], lastPosition = 0, lastStaticWeightPosition = 0\<rparr>"

definition RoundRobin_Select :: "unit \<Rightarrow> RoundRobin \<Rightarrow> (selErr + Endpoint) \<times> RoundRobin" where
  "RoundRobin_Select msg r =
     (if length (endpoints r) = 0 then (Inl NoSuchEndpoint, r)
      else if length (staticWeightRouterCache r) \<noteq> 0 then
        let idx = lastStaticWeightPosition r + 1; r = r\<lparr>lastStaticWeightPosition := idx\<rparr> in
        (nth_endpoint r (staticWeightRouterCache r !
           (unat idx mod length (staticWeightRouterCache r))), r)
      else
        let idx = lastPosition r + 1; r = r\<lparr>lastPosition := idx\<rparr> in
        (nth_endpoint r (unat idx mod length (endpoints r)), r))"

definition RoundRobin_reBuildLocked :: "(nat \<Rightarrow> nat) \<Rightarrow> RoundRobin \<Rightarrow> selErr + RoundRobin" where
  "RoundRobin_reBuildLocked intn r =
     (let n = length (endpoints r);
          r = r\<lparr>lastPosition := (if n > 0 then word_of_nat (intn n) else 0),
                lastStaticWeightPosition := 0, staticWeightRouterCache := []\<rparr>
      in if enableWeight r then
           (case BuildStaticWeightList (endpoints r) of
              Inl e \<Rightarrow> Inl (SelPanic e)
            | Inr cache \<Rightarrow>
                let n = length cache in
                Inr (r\<lparr>staticWeightRouterCache := cache,
                  lastStaticWeightPosition := (if n > 0 then word_of_nat (intn n) else 0)\<rparr>))
         else Inr r)"

definition RoundRobin_Refresh :: "(nat \<Rightarrow> nat) \<Rightarrow> Endpoint list \<Rightarrow> RoundRobin \<Rightarrow> selErr option \<times> RoundRobin" where
  "RoundRobin_Refresh intn = table_Refresh (RoundRobin_reBuildLocked intn)"

definition RoundRobin_Add :: "(nat \<Rightarrow> nat) \<Rightarrow> Endpoint \<Rightarrow> RoundRobin \<Rightarrow> selErr option \<times> RoundRobin" where
  "RoundRobin_Add intn = table_Add (RoundRobin_reBuildLocked intn)"

definition RoundRobin_Remove :: "(nat \<Rightarrow> nat) \<Rightarrow> Endpoint \<Rightarrow> RoundRobin \<Rightarrow> selErr option \<times> RoundRobin" where
  "RoundRobin_Remove intn = table_Remove (RoundRobin_reBuildLocked intn)"

section \<open>The interface\<close>

definition keys_of :: "Endpoint list \<Rightarrow> gostring set" where
  "keys_of eps = HashKey ` set eps"

locale endpoint_selector =
  fixes inv :: "'s \<Rightarrow> bool"
    and nodes :: "'s \<Rightarrow> Endpoint list"
    and Sel :: "'m \<Rightarrow> 's \<Rightarrow> (selErr + Endpoint) \<times> 's"
    and okmsg :: "'m \<Rightarrow> bool"
    and Ref :: "'r \<Rightarrow> Endpoint list \<Rightarrow> 's \<Rightarrow> selErr option \<times> 's"
    and Ins :: "'r \<Rightarrow> Endpoint \<Rightarrow> 's \<Rightarrow> selErr option \<times> 's"
    and Del :: "'r \<Rightarrow> Endpoint \<Rightarrow> 's \<Rightarrow> selErr option \<times> 's"
  assumes inv_distinct: "inv s \<Longrightarrow> distinct (map HashKey (nodes s))"
    and select_none: "nodes s = [] \<Longrightarrow> fst (Sel m s) = Inl NoSuchEndpoint"
    and select_some: "inv s \<Longrightarrow> nodes s \<noteq> [] \<Longrightarrow> okmsg m \<Longrightarrow> \<exists>e \<in> set (nodes s). fst (Sel m s) = Inr e"
    and select_keeps: "inv s \<Longrightarrow> inv (snd (Sel m s)) \<and> nodes (snd (Sel m s)) = nodes s"
    and refresh_keeps: "inv s \<Longrightarrow> Ref r eps s = (None, s') \<Longrightarrow> inv s' \<and> keys_of (nodes s') = keys_of eps
      \<and> set (nodes s') \<subseteq> set eps"
    and add_keeps: "inv s \<Longrightarrow> Ins r e s = (None, s') \<Longrightarrow> inv s' \<and> nodes s' = nodes s @ [e]"
    and add_known: "inv s \<Longrightarrow> HashKey e \<in> keys_of (nodes s) \<Longrightarrow> Ins r e s = (Some AlreadyExists, s)"
    and remove_keeps: "inv s \<Longrightarrow> Del r e s = (None, s') \<Longrightarrow> inv s'
      \<and> nodes s' = filter (\<lambda>x. HashKey x \<noteq> HashKey e) (nodes s)"
    and remove_unknown: "inv s \<Longrightarrow> HashKey e \<notin> keys_of (nodes s) \<Longrightarrow> Del r e s = (Some AlreadyRemoved, s)"
begin

lemma select_member:
  assumes "inv s" and "okmsg m"
  shows "case fst (Sel m s) of Inr e \<Rightarrow> e \<in> set (nodes s) | Inl err \<Rightarrow> err = NoSuchEndpoint \<and> nodes s = []"
  using select_none [of s m] select_some [OF assms(1) _ assms(2)] by (cases "nodes s = []") auto

text \<open>A removed endpoint is not selected, and removing undoes adding.\<close>

lemma removed_not_selected:
  assumes "inv s" and "Del r e s = (None, s')" and "fst (Sel m s') = Inr e'" and "okmsg m"
  shows "HashKey e' \<noteq> HashKey e"
  using select_member [OF _ assms(4), of s'] remove_keeps [OF assms(1,2)] assms(3) by auto

lemma remove_after_add:
  assumes "inv s" and "Ins r e s = (None, s1)" and "Del r' e s1 = (None, s2)"
  shows "nodes s2 = nodes s"
proof -
  have s1: "inv s1" "nodes s1 = nodes s @ [e]"
    using add_keeps [OF assms(1,2)] by simp_all
  then have "\<forall>x \<in> set (nodes s). HashKey x \<noteq> HashKey e"
    using inv_distinct [OF s1(1)] by (auto simp: image_iff)
  then show ?thesis
    using remove_keeps [OF s1(1) assms(3)] s1(2) by (simp add: filter_id_conv)
qed

end

section \<open>The invariant\<close>

definition table_inv :: "'a table_scheme \<Rightarrow> bool" where
  "table_inv m \<longleftrightarrow> mapValues m = keys_of (endpoints m) \<and> distinct (map HashKey (endpoints m))
     \<and> set (staticWeightRouterCache m) \<subseteq> {..<length (endpoints m)}"

text \<open>What a rebuild does: it only replaces the schedule, by valid numbers.\<close>

definition rebuilds :: "('a table_scheme \<Rightarrow> selErr + 'a table_scheme) \<Rightarrow> bool" where
  "rebuilds f \<longleftrightarrow> (\<forall>m m'. f m = Inr m' \<longrightarrow> mapValues m' = mapValues m \<and> endpoints m' = endpoints m
     \<and> set (staticWeightRouterCache m') \<subseteq> {..<length (endpoints m)})"

lemma scaleWeights_ids:
  assumes "scaleWeights R M idx nodes (T, wl, cache) = (T', wl', cache')"
    and "snd ` set wl \<subseteq> {..<idx}" and "set cache \<subseteq> {..<idx}"
  shows "snd ` set wl' \<subseteq> {..<idx + length nodes} \<and> set cache' \<subseteq> {..<idx + length nodes}"
  using assms by (auto simp: scaleWeights_split Let_def in_set_enumerate_eq) force+

lemma weightRound_ids:
  assumes "weightRound eps T w wl = (picked, wl')"
  shows "set picked \<subseteq> snd ` set wl \<and> snd ` set wl' \<subseteq> snd ` set wl"
proof (cases "wl = []")
  case True
  with assms show ?thesis by (simp add: weightRound_def)
next
  case False
  from weightRound_step [OF assms False] obtain m ms where m: "picked = [snd m]" "mset wl = mset (m # ms)"
    "wl' = (fst m - T + w (snd m), snd m) # map (\<lambda>m. (fst m + w (snd m), snd m)) ms" by blast
  have "set wl = set (m # ms)" using arg_cong [OF m(2), of set_mset] by simp
  with m show ?thesis by (force simp: image_iff)
qed

lemma weightRounds_ids:
  assumes "snd ` set wl \<subseteq> S" and "set cache \<subseteq> S"
  shows "set (snd (weightRounds eps T w n wl cache)) \<subseteq> S"
  using assms
proof (induction n arbitrary: wl cache)
  case (Suc n)
  obtain picked wl' where r: "weightRound eps T w wl = (picked, wl')" by force
  from weightRound_ids [OF r] Suc.prems have "snd ` set wl' \<subseteq> S" "set (cache @ picked) \<subseteq> S"
    by (metis order_trans, metis Un_subset_iff order_trans set_append)
  from Suc.IH [OF this] r show ?case by simp
qed simp

lemma BuildStaticWeightList_ids:
  assumes "BuildStaticWeightList eps = Inr cache"
  shows "set cache \<subseteq> {..<length eps}"
proof (cases "scanWeights eps (0, 2147483647, - 2147483648)")
  case None
  with assms show ?thesis by (simp add: BuildStaticWeightList_def)
next
  case (Some t)
  obtain cap mn mx where t: "t = (cap, mn, mx)" by (cases t)
  obtain R T T' wl' cache' where s: "scaleWeights R mx 0 eps (T, [], []) = (T', wl', cache')"
    and c: "cache = snd (weightRounds eps T' (lookupWeight wl') (nat T') wl' cache')"
    using assms Some t
    by (auto simp: BuildStaticWeightList_def Let_def split: if_splits prod.splits)
  from scaleWeights_ids [OF s] show ?thesis
    using weightRounds_ids [of wl' "{..<length eps}" cache'] c by simp
qed

lemma reBuildLocked_rebuilds: "rebuilds reBuildLocked"
  by (auto simp: rebuilds_def reBuildLocked_def Let_def split: sum.splits if_splits
      dest: BuildStaticWeightList_ids)

lemma RoundRobin_rebuilds: "rebuilds (RoundRobin_reBuildLocked intn)"
  by (auto simp: rebuilds_def RoundRobin_reBuildLocked_def Let_def split: sum.splits if_splits
      dest: BuildStaticWeightList_ids)

lemma finish_inv:
  assumes "rebuilds f" and "mapValues m = keys_of (endpoints m)" and "distinct (map HashKey (endpoints m))"
    and "finish m (f m) = (None, m')"
  shows "table_inv m' \<and> endpoints m' = endpoints m"
  using assms by (auto simp: finish_def rebuilds_def table_inv_def split: sum.splits)

lemma removeFirst_filter:
  "distinct (map HashKey eps) \<Longrightarrow> removeFirst k eps = filter (\<lambda>x. HashKey x \<noteq> k) eps"
  by (induction eps) (auto intro!: filter_True [symmetric] simp: image_iff)

text \<open>\<^verbatim>\<open>Refresh\<close> keeps the first endpoint of each key.\<close>

lemma foldl_addLocked:
  assumes "mapValues m = keys_of (endpoints m)" and "distinct (map HashKey (endpoints m))"
  shows "let m' = foldl (\<lambda>m ep. snd (addLocked ep m)) m eps
    in mapValues m' = keys_of (endpoints m') \<and> distinct (map HashKey (endpoints m'))
      \<and> keys_of (endpoints m') = keys_of (endpoints m) \<union> keys_of eps
      \<and> set (endpoints m') \<subseteq> set (endpoints m) \<union> set eps"
  using assms
proof (induction eps arbitrary: m)
  case (Cons ep eps)
  let ?m = "snd (addLocked ep m)"
  have "mapValues ?m = keys_of (endpoints ?m)" "distinct (map HashKey (endpoints ?m))"
    and "keys_of (endpoints ?m) = insert (HashKey ep) (keys_of (endpoints m))"
    and "set (endpoints ?m) \<subseteq> insert ep (set (endpoints m))"
    using Cons.prems by (auto simp: addLocked_def keys_of_def)
  then show ?case
    using Cons.IH [of ?m] by (auto simp: Let_def keys_of_def)
qed (simp add: keys_of_def)

lemma table_Refresh_inv:
  assumes "rebuilds f" and "table_Refresh f eps m = (None, m')"
  shows "table_inv m' \<and> keys_of (endpoints m') = keys_of eps \<and> set (endpoints m') \<subseteq> set eps"
proof -
  let ?m = "foldl (\<lambda>m ep. snd (addLocked ep m)) (m\<lparr>mapValues := {}, endpoints := []\<rparr>) eps"
  have "mapValues ?m = keys_of (endpoints ?m)" "distinct (map HashKey (endpoints ?m))"
    "keys_of (endpoints ?m) = keys_of eps" "set (endpoints ?m) \<subseteq> set eps"
    using foldl_addLocked [of "m\<lparr>mapValues := {}, endpoints := []\<rparr>" eps]
    by (simp_all add: Let_def keys_of_def)
  with finish_inv [OF assms(1), of ?m m'] assms(2) show ?thesis
    by (simp add: table_Refresh_def Let_def)
qed

lemma table_Add_inv:
  assumes "rebuilds f" and "table_inv m"
  shows "table_Add f e m = (None, m') \<Longrightarrow> table_inv m' \<and> endpoints m' = endpoints m @ [e]"
    and "HashKey e \<in> keys_of (endpoints m) \<Longrightarrow> table_Add f e m = (Some AlreadyExists, m)"
  using assms finish_inv [OF assms(1), of "snd (addLocked e m)" m']
  by (auto simp: table_Add_def addLocked_def table_inv_def keys_of_def split: if_splits)

lemma table_Remove_inv:
  assumes "rebuilds f" and "table_inv m"
  shows "table_Remove f e m = (None, m') \<Longrightarrow>
      table_inv m' \<and> endpoints m' = filter (\<lambda>x. HashKey x \<noteq> HashKey e) (endpoints m)"
    and "HashKey e \<notin> keys_of (endpoints m) \<Longrightarrow> table_Remove f e m = (Some AlreadyRemoved, m)"
proof -
  let ?m = "m\<lparr>mapValues := mapValues m - {HashKey e}, endpoints := removeFirst (HashKey e) (endpoints m)\<rparr>"
  have "mapValues ?m = keys_of (endpoints ?m)" "distinct (map HashKey (endpoints ?m))"
    using assms(2) by (auto simp: table_inv_def removeFirst_filter keys_of_def distinct_map_filter)
  then show "table_Remove f e m = (None, m') \<Longrightarrow>
      table_inv m' \<and> endpoints m' = filter (\<lambda>x. HashKey x \<noteq> HashKey e) (endpoints m)"
    using finish_inv [OF assms(1), of ?m m'] assms(2)
    by (auto simp: table_Remove_def Let_def table_inv_def removeFirst_filter split: if_splits)
  show "HashKey e \<notin> keys_of (endpoints m) \<Longrightarrow> table_Remove f e m = (Some AlreadyRemoved, m)"
    using assms(2) by (simp add: table_Remove_def table_inv_def)
qed

lemma nth_endpoint_in:
  "i < length (endpoints m) \<Longrightarrow> nth_endpoint m i = Inr (endpoints m ! i)"
  "table_inv m \<Longrightarrow> j < length (staticWeightRouterCache m) \<Longrightarrow>
     nth_endpoint m (staticWeightRouterCache m ! j) = Inr (endpoints m ! (staticWeightRouterCache m ! j))
     \<and> staticWeightRouterCache m ! j < length (endpoints m)"
  using nth_mem [of j "staticWeightRouterCache m"]
  by (simp_all add: nth_endpoint_def table_inv_def subset_iff)

section \<open>The three selectors implement the interface\<close>

lemma table_inv_distinct: "table_inv m \<Longrightarrow> distinct (map HashKey (endpoints m))"
  by (simp add: table_inv_def)

lemmas table_laws = table_inv_distinct table_Add_inv(2) [OF reBuildLocked_rebuilds]
  table_Remove_inv(2) [OF reBuildLocked_rebuilds]

interpretation modhash: endpoint_selector table_inv endpoints ModHash_Select "\<lambda>_. True"
  "\<lambda>_ :: unit. ModHash_Refresh" "\<lambda>_. ModHash_Add" "\<lambda>_. ModHash_Remove"
proof (unfold_locales, goal_cases)
  case (3 s m)
  then show ?case
    using nth_endpoint_in(2) [of s "unat m mod length (staticWeightRouterCache s)"]
    by (auto simp: ModHash_Select_def nth_endpoint_in(1))
next
  case (5 s r eps s')
  with table_Refresh_inv [OF reBuildLocked_rebuilds, of eps s s'] show ?case by (simp add: ModHash_Refresh_def)
next
  case (6 s r e s')
  with table_Add_inv(1) [OF reBuildLocked_rebuilds, of s e s'] show ?case by (simp add: ModHash_Add_def)
next
  case (8 s r e s')
  with table_Remove_inv(1) [OF reBuildLocked_rebuilds, of s e s'] show ?case by (simp add: ModHash_Remove_def)
qed (simp_all add: ModHash_Select_def ModHash_Add_def ModHash_Remove_def table_laws)

interpretation random: endpoint_selector table_inv endpoints Random_Select "\<lambda>intn. \<forall>n > 0. intn n < n"
  "\<lambda>_ :: unit. Random_Refresh" "\<lambda>_. Random_Add" "\<lambda>_. Random_Remove"
proof (unfold_locales, goal_cases)
  case (3 s m)
  then show ?case
    using nth_endpoint_in(2) [of s "m (length (staticWeightRouterCache s))"]
    by (auto simp: Random_Select_def nth_endpoint_in(1))
next
  case (5 s r eps s')
  with table_Refresh_inv [OF reBuildLocked_rebuilds, of eps s s'] show ?case by (simp add: Random_Refresh_def)
next
  case (6 s r e s')
  with table_Add_inv(1) [OF reBuildLocked_rebuilds, of s e s'] show ?case by (simp add: Random_Add_def)
next
  case (8 s r e s')
  with table_Remove_inv(1) [OF reBuildLocked_rebuilds, of s e s'] show ?case by (simp add: Random_Remove_def)
qed (simp_all add: Random_Select_def Random_Add_def Random_Remove_def table_laws)

lemmas robin_laws = table_inv_distinct table_Add_inv(2) [OF RoundRobin_rebuilds]
  table_Remove_inv(2) [OF RoundRobin_rebuilds]

lemma RoundRobin_Select_keeps:
  "endpoints (snd (RoundRobin_Select u r)) = endpoints r"
  "staticWeightRouterCache (snd (RoundRobin_Select u r)) = staticWeightRouterCache r"
  "table_inv r \<Longrightarrow> table_inv (snd (RoundRobin_Select u r))"
  by (auto simp: RoundRobin_Select_def Let_def table_inv_def)

interpretation robin: endpoint_selector table_inv endpoints RoundRobin_Select "\<lambda>_. True"
  RoundRobin_Refresh RoundRobin_Add RoundRobin_Remove
proof (unfold_locales, goal_cases)
  case (3 s m)
  let ?i = "unat (lastStaticWeightPosition s + 1) mod length (staticWeightRouterCache s)"
  show ?case
    using 3 nth_endpoint_in(2) [of "s\<lparr>lastStaticWeightPosition := lastStaticWeightPosition s + 1\<rparr>" ?i]
    by (auto simp: RoundRobin_Select_def nth_endpoint_in(1) Let_def table_inv_def)
next
  case (4 s m)
  then show ?case by (simp add: RoundRobin_Select_keeps)
next
  case (5 s r eps s')
  with table_Refresh_inv [OF RoundRobin_rebuilds, of r eps s s'] show ?case by (simp add: RoundRobin_Refresh_def)
next
  case (6 s r e s')
  with table_Add_inv(1) [OF RoundRobin_rebuilds, of s r e s'] show ?case by (simp add: RoundRobin_Add_def)
next
  case (8 s r e s')
  with table_Remove_inv(1) [OF RoundRobin_rebuilds, of s r e s'] show ?case by (simp add: RoundRobin_Remove_def)
qed (simp_all add: RoundRobin_Select_def RoundRobin_Add_def RoundRobin_Remove_def robin_laws)

section \<open>Fairness of the round robin\<close>

text \<open>The list the selector cycles through and its position.\<close>

definition schedule :: "RoundRobin \<Rightarrow> Endpoint list" where
  "schedule r = (if staticWeightRouterCache r \<noteq> [] then map ((!) (endpoints r)) (staticWeightRouterCache r)
     else endpoints r)"

definition position :: "RoundRobin \<Rightarrow> uint64" where
  "position r = (if staticWeightRouterCache r \<noteq> [] then lastStaticWeightPosition r else lastPosition r)"

fun selects :: "nat \<Rightarrow> RoundRobin \<Rightarrow> (selErr + Endpoint) list \<times> RoundRobin" where
  "selects 0 r = ([], r)"
| "selects (Suc n) r =
     (case RoundRobin_Select () r of (e, r) \<Rightarrow> case selects n r of (es, r) \<Rightarrow> (e # es, r))"

lemma Select_schedule:
  assumes "table_inv r" and "endpoints r \<noteq> []"
  shows "\<exists>r'. RoundRobin_Select u r = (Inr (schedule r ! (unat (position r + 1) mod length (schedule r))), r')
    \<and> table_inv r' \<and> endpoints r' = endpoints r \<and> schedule r' = schedule r \<and> position r' = position r + 1"
proof (cases "staticWeightRouterCache r = []")
  case True
  let ?r = "r\<lparr>lastPosition := lastPosition r + 1\<rparr>"
  have "RoundRobin_Select u r
      = (Inr (endpoints r ! (unat (lastPosition r + 1) mod length (endpoints r))), ?r)"
    using assms True by (simp add: RoundRobin_Select_def Let_def nth_endpoint_in(1))
  then show ?thesis
    using True assms by (simp add: schedule_def position_def table_inv_def)
next
  case False
  let ?i = "unat (lastStaticWeightPosition r + 1) mod length (staticWeightRouterCache r)"
  let ?r = "r\<lparr>lastStaticWeightPosition := lastStaticWeightPosition r + 1\<rparr>"
  have "table_inv ?r" and i: "?i < length (staticWeightRouterCache r)"
    using assms False by (simp_all add: table_inv_def)
  from nth_endpoint_in(2) [OF this(1), of ?i] i
  have "RoundRobin_Select u r = (Inr (endpoints r ! (staticWeightRouterCache r ! ?i)), ?r)"
    using assms False by (simp add: RoundRobin_Select_def Let_def)
  with i False \<open>table_inv ?r\<close> show ?thesis
    by (simp add: schedule_def position_def)
qed

lemma unat_Suc: "unat (x :: uint64) + 1 < 2 ^ 64 \<Longrightarrow> unat (x + 1) = Suc (unat x)"
  by (simp add: unat_word_ariths)

lemma selects_schedule:
  assumes "table_inv r" and "endpoints r \<noteq> []" and "unat (position r) + k < 2 ^ 64"
  shows "fst (selects k r) = map (\<lambda>j. Inr (schedule r ! ((unat (position r) + 1 + j) mod length (schedule r)))) [0..<k]"
  using assms
proof (induction k arbitrary: r)
  case (Suc k)
  from Select_schedule [OF Suc.prems(1,2), of "()"] obtain r' where
    sel: "RoundRobin_Select () r = (Inr (schedule r ! (unat (position r + 1) mod length (schedule r))), r')"
    and r': "table_inv r'" "endpoints r' = endpoints r" "schedule r' = schedule r"
      "position r' = position r + 1" by blast
  have u: "unat (position r + 1) = Suc (unat (position r))"
    using Suc.prems(3) by (intro unat_Suc) simp
  have "fst (selects k r') = map (\<lambda>j. Inr (schedule r ! ((unat (position r) + 1 + Suc j) mod length (schedule r)))) [0..<k]"
    using Suc.IH [of r'] r' Suc.prems u by simp
  moreover have "[0..<Suc k] = 0 # map Suc [0..<k]"
    by (simp add: map_Suc_upt upt_conv_Cons del: upt_Suc)
  ultimately show ?case
    using sel u by (cases "selects k r'") (simp add: comp_def del: upt_Suc)
qed simp

section \<open>Properties\<close>

text \<open>The round robin is fair: as many selections as the schedule is long return every entry of
  the schedule once, in its cyclic order from the current position; without weights the schedule
  is the endpoint list, with weights every endpoint occurs in it as often as its share.\<close>

theorem round_robin_fair:
  assumes "table_inv r" and "endpoints r \<noteq> []" and "unat (position r) + length (schedule r) < 2 ^ 64"
  shows "fst (selects (length (schedule r)) r) = map Inr (rotate (unat (position r) + 1) (schedule r))
    \<and> (staticWeightRouterCache r = [] \<longrightarrow> schedule r = endpoints r)"
proof
  show "fst (selects (length (schedule r)) r) = map Inr (rotate (unat (position r) + 1) (schedule r))"
    unfolding selects_schedule [OF assms] by (rule nth_equalityI) (simp_all add: nth_rotate del: rotate_Suc)
qed (simp add: schedule_def)

definition demo_robin :: RoundRobin where
  "demo_robin = snd (RoundRobin_Refresh (\<lambda>_. 0) [weighted [65] 1, weighted [66] 3] (RoundRobin_New False))"

lemma demo_robin:
  "endpoints demo_robin = [weighted [65] 1, weighted [66] 3]" "staticWeightRouterCache demo_robin = []"
  "lastPosition demo_robin = 0" "table_inv demo_robin"
  by (auto simp: demo_robin_def RoundRobin_Refresh_def table_Refresh_def finish_def Let_def
      RoundRobin_reBuildLocked_def RoundRobin_New_def addLocked_def weighted_def HashKey_def
      table_inv_def keys_of_def)

theorem round_robin_fair_witness:
  "fst (selects 2 demo_robin) = [Inr (weighted [66] 3), Inr (weighted [65] 1)]"
  using round_robin_fair [of demo_robin] demo_robin
  by (simp add: schedule_def position_def del: selects.simps flip: numeral_2_eq_2)


definition demo_table :: table where
  "demo_table = snd (ModHash_Refresh [weighted [65] 1, weighted [66] 3] (ModHash_New False))"

lemma demo_table:
  "endpoints demo_table = [weighted [65] 1, weighted [66] 3]" "table_inv demo_table"
  "mapValues demo_table = {[65], [66]}" "enableWeight demo_table = False"
  by (auto simp: demo_table_def ModHash_Refresh_def table_Refresh_def finish_def Let_def
      reBuildLocked_def ModHash_New_def addLocked_def weighted_def HashKey_def table_inv_def keys_of_def)


lemma Refresh_same_key:
  assumes "rebuilds f" and "HashKey b = HashKey a" and "table_Refresh f [a, b] m = (None, m')"
  shows "endpoints m' = [a]"
proof -
  have "f (m\<lparr>endpoints := [a], mapValues := {HashKey a}\<rparr>) = Inr m'"
    using assms(2,3) by (auto simp: table_Refresh_def addLocked_def finish_def Let_def split: sum.splits)
  with assms(1) show ?thesis by (fastforce simp: rebuilds_def)
qed

text \<open>The key of an endpoint is its host alone, so refreshing a selector with two servers on one
  host registers only the first: the other, on another port, is never selected.\<close>

theorem same_host_dropped:
  assumes "epHost b = epHost a" and "ModHash_Refresh [a, b] m = (None, m')"
    and "RoundRobin_Refresh intn [a, b] r = (None, r')"
  shows "endpoints m' = [a] \<and> endpoints r' = [a]"
  using assms Refresh_same_key [OF reBuildLocked_rebuilds] Refresh_same_key [OF RoundRobin_rebuilds]
  by (simp add: ModHash_Refresh_def RoundRobin_Refresh_def HashKey_def)

theorem same_host_dropped_witness:
  "\<exists>m' r'. ModHash_Refresh [weighted [65] 1, (weighted [65] 1)\<lparr>epPort := 9\<rparr>] (ModHash_New False) = (None, m')
    \<and> RoundRobin_Refresh (\<lambda>_. 0) [weighted [65] 1, (weighted [65] 1)\<lparr>epPort := 9\<rparr>] (RoundRobin_New False) = (None, r')
    \<and> endpoints m' = [weighted [65] 1] \<and> endpoints r' = [weighted [65] 1]"
proof -
  let ?a = "weighted [65] 1" and ?b = "(weighted [65] 1)\<lparr>epPort := 9\<rparr>"
  obtain m' r' where "ModHash_Refresh [?a, ?b] (ModHash_New False) = (None, m')"
    and "RoundRobin_Refresh (\<lambda>_. 0) [?a, ?b] (RoundRobin_New False) = (None, r')"
    by (simp add: ModHash_Refresh_def RoundRobin_Refresh_def table_Refresh_def addLocked_def HashKey_def
        ModHash_New_def RoundRobin_New_def reBuildLocked_def RoundRobin_reBuildLocked_def finish_def Let_def)
  moreover have "epHost ?b = epHost ?a" by simp
  ultimately show ?thesis
    using same_host_dropped [of ?b ?a] by blast
qed

end
