(* ===== verification/Hash_Ring.thy ===== *)
theory Hash_Ring
  imports Selectors
begin

text \<open>
  The consistent-hash selector of \<^verbatim>\<open>tars/selector/consistenthash/consistenthash_new.go\<close>: virtual
  nodes on a ring of 32-bit keys, a lookup by binary search, adding and removing of endpoints.
  \<^verbatim>\<open>md5.Sum\<close> is the argument \<open>md5\<close>: the theorems hold for every such function. The map
  \<^verbatim>\<open>hashRing\<close> is an association list; the order in which Go enumerates it does not matter, as
  the keys are sorted afterwards.
\<close>

section \<open>Keys\<close>

datatype HashAlgorithmType = KetamaHash | DefaultHash

definition ConHashVirtualNodes :: int where "ConHashVirtualNodes = 100"

text \<open>Four bytes as a little-endian number: the explicit shifts of the Ketama variant, and the read
  through an unsafe pointer, on a little-endian machine, of the other.\<close>

definition le32 :: "bytes \<Rightarrow> nat \<Rightarrow> uint32" where
  "le32 p k = push_bit 24 (ucast (p ! (4 * k + 3))) OR push_bit 16 (ucast (p ! (4 * k + 2)))
     OR push_bit 8 (ucast (p ! (4 * k + 1))) OR ucast (p ! (4 * k))"

definition KetamaHashAlg_Hash :: "(bytes \<Rightarrow> bytes) \<Rightarrow> gostring \<Rightarrow> uint32" where
  "KetamaHashAlg_Hash md5 key = le32 (md5 key) 0"

definition DefaultHashAlg_Hash :: "(bytes \<Rightarrow> bytes) \<Rightarrow> gostring \<Rightarrow> uint32" where
  "DefaultHashAlg_Hash md5 key =
     (let p = md5 key in le32 p 0 XOR le32 p 1 XOR le32 p 2 XOR le32 p 3)"

definition alg_Hash :: "HashAlgorithmType \<Rightarrow> (bytes \<Rightarrow> bytes) \<Rightarrow> gostring \<Rightarrow> uint32" where
  "alg_Hash alg md5 key =
     (case alg of KetamaHash \<Rightarrow> KetamaHashAlg_Hash md5 key | DefaultHash \<Rightarrow> DefaultHashAlg_Hash md5 key)"

section \<open>State\<close>

record ConsistentHash =
  chHash :: HashAlgorithmType
  chEnableWeight :: bool
  chReplicates :: int
  chMapValues :: "gostring set"
  hashRing :: "(uint32 \<times> Endpoint) list"
  sortedKeys :: "uint32 list"

definition ConsistentHash_New :: "bool \<Rightarrow> HashAlgorithmType \<Rightarrow> ConsistentHash" where
  "ConsistentHash_New weight hashType =
     \<lparr>chHash = hashType, chEnableWeight = weight, chReplicates = ConHashVirtualNodes,
      chMapValues = {}, hashRing = [], sortedKeys = []\<rparr>"

definition ring_weight :: "ConsistentHash \<Rightarrow> int32 \<Rightarrow> int" where
  "ring_weight c w =
     (let weight = (if chEnableWeight c then sint w else chReplicates c) in
      if weight > 0 then let weight = weight div 4 in if weight = 0 then 1 else weight
      else weight)"

text \<open>The keys of an endpoint, in the order in which the loops of \<^verbatim>\<open>addLocked\<close> and \<^verbatim>\<open>Remove\<close>
  go through them.\<close>

definition virtualKeys :: "(bytes \<Rightarrow> bytes) \<Rightarrow> ConsistentHash \<Rightarrow> Endpoint \<Rightarrow> uint32 list" where
  "virtualKeys md5 c ep =
     concat (map (\<lambda>i. let virtualHost = HashKey ep @ ascii ''_'' @ fmt_d (int i) in
         if chHash c = KetamaHash then map (le32 (md5 virtualHost)) [0..<4]
         else [alg_Hash (chHash c) md5 virtualHost])
       [0..<nat (ring_weight c (epWeight ep))])"

section \<open>Lookup\<close>

text \<open>\<^verbatim>\<open>sort.Search\<close>.\<close>

function goSearch :: "(nat \<Rightarrow> bool) \<Rightarrow> nat \<Rightarrow> nat \<Rightarrow> nat" where
  "goSearch f i j =
     (if i < j then let h = (i + j) div 2 in if \<not> f h then goSearch f (h + 1) j else goSearch f i h
      else i)"
  by auto

termination goSearch
  by (relation "measure (\<lambda>(f, i, j). j - i)") auto

declare goSearch.simps [simp del]

text \<open>A key that is not in the map reads as the zero endpoint.\<close>

definition zero_endpoint :: Endpoint where
  "zero_endpoint = \<lparr>epHost = [], epPort = 0, epTimeout = 0, epIstcp = 0, epGrid = 0, epQos = 0,
     epWeight = 0, epWeightType = 0, epAuthType = 0, epProto = [], epBind = [], epContainer = [],
     epSetId = [], epKey = []\<rparr>"

definition FindInt32 :: "uint32 \<Rightarrow> ConsistentHash \<Rightarrow> Endpoint \<times> bool" where
  "FindInt32 key c =
     (if length (sortedKeys c) = 0 then (zero_endpoint, False)
      else let index = goSearch (\<lambda>x. sortedKeys c ! x \<ge> key) 0 (length (sortedKeys c));
               index = (if index \<ge> length (sortedKeys c) then 0 else index)
           in (case map_of (hashRing c) (sortedKeys c ! index) of Some e \<Rightarrow> e | None \<Rightarrow> zero_endpoint, True))"

definition Find :: "(bytes \<Rightarrow> bytes) \<Rightarrow> gostring \<Rightarrow> ConsistentHash \<Rightarrow> Endpoint \<times> bool" where
  "Find md5 key c =
     (if length (sortedKeys c) = 0 then (zero_endpoint, False)
      else let hashKey = alg_Hash (chHash c) md5 key;
               index = goSearch (\<lambda>x. sortedKeys c ! x \<ge> hashKey) 0 (length (sortedKeys c));
               index = (if index \<ge> length (sortedKeys c) then 0 else index)
           in (case map_of (hashRing c) (sortedKeys c ! index) of Some e \<Rightarrow> e | None \<Rightarrow> zero_endpoint, True))"

definition ConsistentHash_Select :: "uint32 \<Rightarrow> ConsistentHash \<Rightarrow> selErr + Endpoint" where
  "ConsistentHash_Select hashCode c =
     (case FindInt32 hashCode c of (ep, ok) \<Rightarrow> if \<not> ok then Inl NoSuchEndpoint else Inr ep)"

section \<open>Changes\<close>

definition ring_sort :: "ConsistentHash \<Rightarrow> ConsistentHash" where
  "ring_sort c = c\<lparr>sortedKeys := sort (sortedKeys c)\<rparr>"

definition ring_addLocked :: "(bytes \<Rightarrow> bytes) \<Rightarrow> Endpoint \<Rightarrow> ConsistentHash \<Rightarrow> selErr option \<times> ConsistentHash" where
  "ring_addLocked md5 ep c =
     (if HashKey ep \<in> chMapValues c then (Some AlreadyExists, c)
      else let c = foldl (\<lambda>c virtualKey. c\<lparr>hashRing := AList.update virtualKey ep (hashRing c),
                     sortedKeys := sortedKeys c @ [virtualKey]\<rparr>) c (virtualKeys md5 c ep)
           in (None, c\<lparr>chMapValues := insert (HashKey ep) (chMapValues c)\<rparr>))"

definition ConsistentHash_Refresh :: "(bytes \<Rightarrow> bytes) \<Rightarrow> Endpoint list \<Rightarrow> ConsistentHash \<Rightarrow> ConsistentHash" where
  "ConsistentHash_Refresh md5 eps c =
     ring_sort (foldl (\<lambda>c ep. snd (ring_addLocked md5 ep c))
       (c\<lparr>chMapValues := {}, hashRing := [], sortedKeys := []\<rparr>) eps)"

definition ConsistentHash_Add :: "(bytes \<Rightarrow> bytes) \<Rightarrow> Endpoint \<Rightarrow> ConsistentHash \<Rightarrow> selErr option \<times> ConsistentHash" where
  "ConsistentHash_Add md5 ep c =
     (case ring_addLocked md5 ep c of (err, c) \<Rightarrow> if err \<noteq> None then (err, c) else (None, ring_sort c))"

definition reBuildHashRingLocked :: "ConsistentHash \<Rightarrow> ConsistentHash" where
  "reBuildHashRingLocked c = ring_sort (c\<lparr>sortedKeys := map fst (hashRing c)\<rparr>)"

definition ConsistentHash_Remove :: "(bytes \<Rightarrow> bytes) \<Rightarrow> Endpoint \<Rightarrow> ConsistentHash \<Rightarrow> selErr option \<times> ConsistentHash" where
  "ConsistentHash_Remove md5 ep c =
     (if HashKey ep \<notin> chMapValues c then (Some AlreadyRemoved, c)
      else let c = c\<lparr>chMapValues := chMapValues c - {HashKey ep}\<rparr>;
               c = foldl (\<lambda>c virtualKey. c\<lparr>hashRing := AList.delete virtualKey (hashRing c)\<rparr>) c
                     (virtualKeys md5 c ep)
           in (None, reBuildHashRingLocked c))"

section \<open>Binary search\<close>

lemma goSearch_spec:
  assumes mono: "\<And>x y. f x \<Longrightarrow> x \<le> y \<Longrightarrow> y < n \<Longrightarrow> f y" and "i \<le> j" and "j \<le> n"
    and "\<And>x. x < i \<Longrightarrow> \<not> f x" and "j < n \<Longrightarrow> f j"
  shows "goSearch f i j \<le> n \<and> (\<forall>x < goSearch f i j. \<not> f x) \<and> (goSearch f i j < n \<longrightarrow> f (goSearch f i j))"
  using assms(2-)
proof (induction "j - i" arbitrary: i j rule: less_induct)
  case less
  let ?h = "(i + j) div 2"
  show ?case
  proof (cases "i < j")
    case False
    then have "goSearch f i j = i" by (simp add: goSearch.simps)
    with less.prems False show ?thesis by auto
  next
    case True
    then have h: "i \<le> ?h" "?h < j" by auto
    show ?thesis
    proof (cases "f ?h")
      case True
      have "goSearch f i j = goSearch f i ?h"
        using \<open>i < j\<close> True by (subst goSearch.simps) simp
      moreover have "goSearch f i ?h \<le> n \<and> (\<forall>x < goSearch f i ?h. \<not> f x)
          \<and> (goSearch f i ?h < n \<longrightarrow> f (goSearch f i ?h))"
        using less.prems h True by (intro less.hyps) auto
      ultimately show ?thesis by simp
    next
      case False
      have "goSearch f i j = goSearch f (?h + 1) j"
        using \<open>i < j\<close> False by (subst goSearch.simps) simp
      moreover have below: "\<not> f x" if "x < ?h + 1" for x
        using mono [of x ?h] that False h less.prems(2) by linarith
      have "goSearch f (?h + 1) j \<le> n \<and> (\<forall>x < goSearch f (?h + 1) j. \<not> f x)
          \<and> (goSearch f (?h + 1) j < n \<longrightarrow> f (goSearch f (?h + 1) j))"
        using less.prems h below by (intro less.hyps) auto
      ultimately show ?thesis by simp
    qed
  qed
qed

section \<open>The ring as a set of keys\<close>

text \<open>The abstract specification of the lookup: the first key at or after the hash, or the least
  key when there is none.\<close>

definition succ_key :: "uint32 set \<Rightarrow> uint32 \<Rightarrow> uint32" where
  "succ_key K h = (if \<exists>k \<in> K. h \<le> k then Min {k \<in> K. h \<le> k} else Min K)"

lemma succ_key_in: "finite K \<Longrightarrow> K \<noteq> {} \<Longrightarrow> succ_key K h \<in> K"
  using Min_in [of "{k \<in> K. h \<le> k}"] by (auto simp: succ_key_def)

text \<open>The key lemma of consistent hashing: in a larger set the successor is a new key or the same.\<close>

lemma succ_key_subset:
  assumes "K \<subseteq> K'" and "finite K'" and "succ_key K' h \<in> K"
  shows "succ_key K' h = succ_key K h"
proof (cases "\<exists>k \<in> K'. h \<le> k")
  case True
  let ?m = "Min {k \<in> K'. h \<le> k}"
  have "?m \<in> {k \<in> K'. h \<le> k}"
    using True assms(2) by (intro Min_in) auto
  then have m: "?m \<in> K" "h \<le> ?m"
    using True assms(3) by (auto simp: succ_key_def)
  then have "Min {k \<in> K. h \<le> k} = ?m"
    using assms(1,2) by (intro Min_eqI) (auto intro: finite_subset Min_le)
  with m True show ?thesis by (auto simp: succ_key_def)
next
  case False
  then have "\<not> (\<exists>k \<in> K. h \<le> k)" "Min K' \<in> K"
    using assms by (auto simp: succ_key_def)
  moreover from this have "Min K = Min K'"
    using assms(1,2) by (intro Min_eqI) (auto intro: finite_subset Min_le)
  ultimately show ?thesis using False by (simp add: succ_key_def)
qed

definition ring_inv :: "ConsistentHash \<Rightarrow> bool" where
  "ring_inv c \<longleftrightarrow> sorted (sortedKeys c) \<and> set (sortedKeys c) = dom (map_of (hashRing c))"

lemma search_sorted:
  assumes "sorted ks" and "ks \<noteq> []"
  shows "ks ! (let index = goSearch (\<lambda>x. ks ! x \<ge> key) 0 (length ks) in if index \<ge> length ks then 0 else index)
    = succ_key (set ks) key"
proof -
  define g where "g = (\<lambda>x. ks ! x \<ge> key)"
  let ?i = "goSearch g 0 (length ks)"
  have mono: "g y" if "g x" "x \<le> y" "y < length ks" for x y
    using sorted_nth_mono [OF assms(1) that(2,3)] that(1) by (simp add: g_def)
  have "?i \<le> length ks \<and> (\<forall>x < ?i. \<not> g x) \<and> (?i < length ks \<longrightarrow> g ?i)"
    by (rule goSearch_spec) (use mono in auto)
  then have spec: "?i \<le> length ks" "\<forall>x < ?i. \<not> key \<le> ks ! x" "?i < length ks \<longrightarrow> key \<le> ks ! ?i"
    by (simp_all only: g_def) blast+
  show ?thesis
  proof (cases "?i < length ks")
    case True
    have "Min {k \<in> set ks. key \<le> k} = ks ! ?i"
    proof (rule Min_eqI)
      fix k assume "k \<in> {k \<in> set ks. key \<le> k}"
      then obtain x where x: "x < length ks" "k = ks ! x" "key \<le> ks ! x" by (auto simp: in_set_conv_nth)
      with spec(2) have "?i \<le> x" by (meson not_less)
      with assms(1) x show "ks ! ?i \<le> k" by (simp add: sorted_nth_mono)
    qed (use True spec(3) in auto)
    moreover have "\<exists>k \<in> set ks. key \<le> k" using True spec(3) by (auto intro: bexI [of _ "ks ! ?i"])
    ultimately show ?thesis using True by (simp add: succ_key_def flip: g_def)
  next
    case False
    have "\<not> (\<exists>k \<in> set ks. key \<le> k)"
      using spec False by (auto simp: in_set_conv_nth)
    moreover have "Min (set ks) = ks ! 0"
      using assms by (intro Min_eqI) (auto simp: in_set_conv_nth intro: sorted_nth_mono)
    ultimately show ?thesis using False by (simp add: succ_key_def flip: g_def)
  qed
qed

lemma FindInt32_succ:
  assumes "ring_inv c" and "hashRing c \<noteq> []"
  shows "\<exists>e. map_of (hashRing c) (succ_key (dom (map_of (hashRing c))) key) = Some e
    \<and> FindInt32 key c = (e, True)"
proof -
  have ks: "sorted (sortedKeys c)" "set (sortedKeys c) = dom (map_of (hashRing c))"
    using assms(1) by (auto simp: ring_inv_def)
  then have ne: "sortedKeys c \<noteq> []"
    using assms(2) by (cases "hashRing c") auto
  have "succ_key (dom (map_of (hashRing c))) key \<in> dom (map_of (hashRing c))"
    using ks(2) ne by (intro succ_key_in) (auto simp: finite_dom_map_of)
  then obtain e where "map_of (hashRing c) (succ_key (dom (map_of (hashRing c))) key) = Some e" by blast
  then show ?thesis
    using search_sorted [OF ks(1) ne, of key] ks(2) ne by (simp add: FindInt32_def Let_def)
qed

lemma FindInt32_empty: "ring_inv c \<Longrightarrow> hashRing c = [] \<Longrightarrow> FindInt32 key c = (zero_endpoint, False)"
  by (simp add: ring_inv_def FindInt32_def)

text \<open>A selection is the endpoint of the key that follows the hash.\<close>

lemma Select_iff:
  assumes "ring_inv c"
  shows "ConsistentHash_Select h c = Inr x
    \<longleftrightarrow> map_of (hashRing c) (succ_key (dom (map_of (hashRing c))) h) = Some x"
proof (cases "hashRing c = []")
  case True
  then show ?thesis using FindInt32_empty [OF assms True] by (simp add: ConsistentHash_Select_def)
next
  case False
  then show ?thesis using FindInt32_succ [OF assms False, of h] by (auto simp: ConsistentHash_Select_def)
qed

text \<open>A ring with more keys serves a hash as the smaller one does, if the key it finds is in that.\<close>

lemma Select_smaller:
  assumes "ring_inv c" and "ring_inv c'" and "dom (map_of (hashRing c)) \<subseteq> dom (map_of (hashRing c'))"
    and "map_of (hashRing c) (succ_key (dom (map_of (hashRing c'))) h) = Some x"
  shows "ConsistentHash_Select h c = Inr x"
proof -
  have "succ_key (dom (map_of (hashRing c'))) h = succ_key (dom (map_of (hashRing c))) h"
    using assms(3,4) by (intro succ_key_subset) (auto simp: finite_dom_map_of)
  with assms(1,4) show ?thesis by (simp add: Select_iff)
qed

section \<open>Adding and removing keys\<close>

lemma foldl_update:
  fixes c e ks
  defines "c' \<equiv> foldl (\<lambda>c k. c\<lparr>hashRing := AList.update k e (hashRing c),
    sortedKeys := sortedKeys c @ [k]\<rparr>) c ks"
  shows "map_of (hashRing c') = (\<lambda>k. if k \<in> set ks then Some e else map_of (hashRing c) k)
    \<and> sortedKeys c' = sortedKeys c @ ks \<and> chMapValues c' = chMapValues c"
  unfolding c'_def by (induction ks arbitrary: c) (auto simp: update_conv' fun_eq_iff)

lemma foldl_delete:
  fixes c ks
  defines "c' \<equiv> foldl (\<lambda>c k. c\<lparr>hashRing := AList.delete k (hashRing c)\<rparr>) c ks"
  shows "map_of (hashRing c') = (\<lambda>k. if k \<in> set ks then None else map_of (hashRing c) k)
    \<and> chMapValues c' = chMapValues c"
  unfolding c'_def by (induction ks arbitrary: c) (auto simp: delete_conv' fun_eq_iff)

lemma dom_update_keys:
  "dom (\<lambda>k. if k \<in> S then Some e else f k) = S \<union> dom f" "dom (\<lambda>k. if k \<in> S then None else f k) = dom f - S"
  by (auto split: if_splits)

lemma virtualKeys_values [simp]: "virtualKeys md5 (c\<lparr>chMapValues := M\<rparr>) e = virtualKeys md5 c e"
  by (simp add: virtualKeys_def ring_weight_def cong: if_cong)

lemma Add_ring:
  assumes "ring_inv c" and "ConsistentHash_Add md5 e c = (None, c')"
  shows "ring_inv c'"
    and "map_of (hashRing c') = (\<lambda>k. if k \<in> set (virtualKeys md5 c e) then Some e else map_of (hashRing c) k)"
    and "chMapValues c' = insert (HashKey e) (chMapValues c)"
  using assms foldl_update [of e c "virtualKeys md5 c e"]
  by (auto simp: ConsistentHash_Add_def ring_addLocked_def ring_sort_def ring_inv_def Let_def
      dom_update_keys split: if_splits)

lemma rebuild_inv:
  "ring_inv (reBuildHashRingLocked c)" "hashRing (reBuildHashRingLocked c) = hashRing c"
  "chMapValues (reBuildHashRingLocked c) = chMapValues c"
  by (simp_all add: reBuildHashRingLocked_def ring_sort_def ring_inv_def dom_map_of_conv_image_fst)

lemma Remove_ring:
  assumes "ConsistentHash_Remove md5 e c = (None, c')"
  shows "ring_inv c'"
    and "map_of (hashRing c') = (\<lambda>k. if k \<in> set (virtualKeys md5 c e) then None else map_of (hashRing c) k)"
    and "chMapValues c' = chMapValues c - {HashKey e}"
proof -
  define d where "d = foldl (\<lambda>c k. c\<lparr>hashRing := AList.delete k (hashRing c)\<rparr>)
    (c\<lparr>chMapValues := chMapValues c - {HashKey e}\<rparr>) (virtualKeys md5 c e)"
  have "c' = reBuildHashRingLocked d"
    using assms by (simp add: ConsistentHash_Remove_def d_def Let_def split: if_splits)
  moreover note foldl_delete [of "c\<lparr>chMapValues := chMapValues c - {HashKey e}\<rparr>" "virtualKeys md5 c e",
      folded d_def]
  ultimately show "ring_inv c'"
    and "map_of (hashRing c') = (\<lambda>k. if k \<in> set (virtualKeys md5 c e) then None else map_of (hashRing c) k)"
    and "chMapValues c' = chMapValues c - {HashKey e}"
    by (simp_all add: rebuild_inv cong: if_cong)
qed

section \<open>Properties\<close>

text \<open>The lookup by binary search finds the virtual node that follows the hash on the ring: the
  least key not below the hash or, past the last one, the least key of all; it fails exactly
  when the ring is empty.\<close>

theorem ring_lookup:
  assumes "ring_inv c"
  shows "ConsistentHash_Select h c = (if hashRing c = [] then Inl NoSuchEndpoint
    else Inr (the (map_of (hashRing c) (succ_key (dom (map_of (hashRing c))) h))))"
proof (cases "hashRing c = []")
  case True
  then show ?thesis
    using FindInt32_empty [OF assms True] by (simp add: ConsistentHash_Select_def)
next
  case False
  then show ?thesis
    using FindInt32_succ [OF assms False, of h] by (auto simp: ConsistentHash_Select_def)
qed

text \<open>A ring for the witnesses: one endpoint with two virtual nodes.\<close>

definition demo_md5 :: "bytes \<Rightarrow> bytes" where
  "demo_md5 s = replicate 14 0 @ [hd s, last s]"

definition demo_empty :: ConsistentHash where
  "demo_empty = ConsistentHash_New True DefaultHash"

definition demo_ring :: ConsistentHash where
  "demo_ring = snd (ConsistentHash_Add demo_md5 (weighted [65] 8) demo_empty)"

lemma demo_empty_inv: "ring_inv demo_empty"
  by (simp add: demo_empty_def ConsistentHash_New_def ring_inv_def)

lemma HashKey_weighted [simp]: "HashKey (weighted h w) = h" "epWeight (weighted h w) = w"
  by (simp_all add: HashKey_def weighted_def)

lemma keys_DefaultHash:
  assumes "chHash c = DefaultHash" and "chEnableWeight c"
  shows "virtualKeys demo_md5 c (weighted [65] 8) = [809566208, 826343424]"
    and "virtualKeys demo_md5 c (weighted [65] 4) = [809566208]"
  using assms
  by (simp_all add: virtualKeys_def ring_weight_def upt_rec fmt_d_def FormatInt_def formatBits.simps digit_char_def ascii_def
      alg_Hash_def DefaultHashAlg_Hash_def le32_def demo_md5_def nth_append)

lemma demo_alg:
  "chHash demo_empty = DefaultHash" "chEnableWeight demo_empty"
  "chHash demo_ring = DefaultHash" "chEnableWeight demo_ring"
proof -
  show e: "chHash demo_empty = DefaultHash" "chEnableWeight demo_empty"
    by (simp_all add: demo_empty_def ConsistentHash_New_def)
  have "chHash (foldl (\<lambda>c k. c\<lparr>hashRing := AList.update k x (hashRing c), sortedKeys := sortedKeys c @ [k]\<rparr>) c ks)
      = chHash c \<and> chEnableWeight (foldl (\<lambda>c k. c\<lparr>hashRing := AList.update k x (hashRing c),
        sortedKeys := sortedKeys c @ [k]\<rparr>) c ks) = chEnableWeight c" for x and c :: ConsistentHash and ks
    by (induction ks arbitrary: c) simp_all
  then show "chHash demo_ring = DefaultHash" "chEnableWeight demo_ring"
    using e by (simp_all add: demo_ring_def ConsistentHash_Add_def ring_addLocked_def ring_sort_def Let_def)
qed

lemmas demo_keys = keys_DefaultHash [OF demo_alg(1,2)] keys_DefaultHash [OF demo_alg(3,4)]

lemma demo_add: "ConsistentHash_Add demo_md5 (weighted [65] 8) demo_empty = (None, demo_ring)"
  by (simp add: demo_ring_def ConsistentHash_Add_def ring_addLocked_def demo_empty_def ConsistentHash_New_def Let_def)

lemmas demo_ring_facts = Add_ring [OF demo_empty_inv demo_add]

lemma demo_ring_map:
  "map_of (hashRing demo_ring) = [809566208 \<mapsto> weighted [65] 8, 826343424 \<mapsto> weighted [65] 8]"
  "hashRing demo_ring \<noteq> []"
proof -
  show map: "map_of (hashRing demo_ring) = [809566208 \<mapsto> weighted [65] 8, 826343424 \<mapsto> weighted [65] 8]"
    unfolding demo_ring_facts(2) demo_keys
    by (auto simp: demo_empty_def ConsistentHash_New_def)
  show "hashRing demo_ring \<noteq> []"
    using fun_cong [OF map, of 809566208] by (cases "hashRing demo_ring") simp_all
qed

theorem ring_lookup_witness:
  "ConsistentHash_Select 7 demo_ring = Inr (weighted [65] 8)"
proof -
  have "dom (map_of (hashRing demo_ring)) = {809566208, 826343424}"
    by (auto simp: demo_ring_map)
  moreover have "{k \<in> {809566208, 826343424 :: uint32}. 7 \<le> k} = {809566208, 826343424}" by auto
  ultimately have "succ_key (dom (map_of (hashRing demo_ring))) 7 = 809566208"
    by (simp add: succ_key_def)
  then show ?thesis
    using ring_lookup [OF demo_ring_facts(1), of 7] by (simp add: demo_ring_map)
qed

text \<open>C21: Adding an endpoint moves hashes to it only: every hash is served by the new endpoint or by
  the one that served it before.\<close>

theorem ring_add_minimal:
  assumes "ring_inv c" and "ConsistentHash_Add md5 e c = (None, c')"
  shows "ring_inv c' \<and> (ConsistentHash_Select h c' = Inr e \<or> ConsistentHash_Select h c' = ConsistentHash_Select h c)"
proof -
  let ?K = "dom (map_of (hashRing c))" and ?K' = "dom (map_of (hashRing c'))"
  let ?new = "set (virtualKeys md5 c e)" and ?k = "succ_key (dom (map_of (hashRing c'))) h"
  note add = Add_ring [OF assms]
  have K': "?K' = ?new \<union> ?K" by (simp add: add(2) dom_update_keys)
  show ?thesis
  proof (cases "?K' = {}")
    case True
    then have "hashRing c' = []" "hashRing c = []" using K' by (auto simp: dom_map_of_conv_image_fst)
    then show ?thesis
      using FindInt32_empty add(1) assms(1) by (simp add: ConsistentHash_Select_def)
  next
    case False
    then obtain x where x: "map_of (hashRing c') ?k = Some x"
      using FindInt32_succ [OF add(1), of h] by auto
    then have "?k \<notin> ?new \<Longrightarrow> ConsistentHash_Select h c = Inr x"
      using K' add(2) by (intro Select_smaller [OF assms(1) add(1)]) auto
    moreover have "?k \<in> ?new \<Longrightarrow> x = e"
      using x add(2) by simp
    ultimately show ?thesis
      using x add(1) by (cases "?k \<in> ?new") (simp_all add: Select_iff [OF add(1), symmetric])
  qed
qed

theorem ring_add_minimal_witness:
  "ring_inv demo_ring \<and> (ConsistentHash_Select 7 demo_ring = Inr (weighted [65] 8)
    \<or> ConsistentHash_Select 7 demo_ring = ConsistentHash_Select 7 demo_empty)"
  by (rule ring_add_minimal [OF demo_empty_inv demo_add])


lemma demo_remove:
  "\<exists>c'. ConsistentHash_Remove demo_md5 (weighted [65] w) demo_ring = (None, c')"
  using demo_ring_facts(3)
  by (simp add: ConsistentHash_Remove_def Let_def)


text \<open>The virtual nodes to remove are computed from the weight of the endpoint passed to
  \<^verbatim>\<open>Remove\<close>: when the weight has changed since it was added, a node beyond them stays on the
  ring and the endpoint is still selected although it is no longer registered.\<close>

theorem remove_other_weight:
  assumes "ring_inv c" and "ConsistentHash_Remove md5 e c = (None, c')"
    and "map_of (hashRing c) k = Some x" and "k \<notin> set (virtualKeys md5 c e)"
    and "HashKey x = HashKey e"
  shows "ConsistentHash_Select k c' = Inr x \<and> HashKey x \<notin> chMapValues c'"
proof -
  note rem = Remove_ring [OF assms(2)]
  have k: "map_of (hashRing c') k = Some x" using rem(2) assms(3,4) by simp
  then have "Min {j \<in> dom (map_of (hashRing c')). k \<le> j} = k"
    by (intro Min_eqI) (auto simp: finite_dom_map_of)
  moreover have "\<exists>j \<in> dom (map_of (hashRing c')). k \<le> j" using k by blast
  ultimately have "succ_key (dom (map_of (hashRing c'))) k = k" by (simp only: succ_key_def if_True)
  moreover have "hashRing c' \<noteq> []" using k by auto
  ultimately show ?thesis
    using FindInt32_succ [OF rem(1), of k] k rem(3) assms(5) by (auto simp: ConsistentHash_Select_def)
qed

theorem remove_other_weight_witness:
  "\<exists>c'. ConsistentHash_Remove demo_md5 (weighted [65] 4) demo_ring = (None, c')
    \<and> ConsistentHash_Select 826343424 c' = Inr (weighted [65] 8)"
proof -
  obtain c' where c': "ConsistentHash_Remove demo_md5 (weighted [65] 4) demo_ring = (None, c')"
    using demo_remove by blast
  from remove_other_weight [OF demo_ring_facts(1) c', of 826343424 "weighted [65] 8"] c' show ?thesis
    by (simp add: demo_keys demo_ring_map)
qed

end
