(* ===== verification/Packets.thy ===== *)
theory Packets
  imports Struct_Codec
begin

text \<open>
  The two packets of the Tars protocol, \<^verbatim>\<open>RequestPacket\<close> and \<^verbatim>\<open>ResponsePacket\<close> of
  \<^verbatim>\<open>tars/protocol/res/requestf/RequestF.go\<close>, with their \<^verbatim>\<open>ResetDefault\<close>, \<^verbatim>\<open>ReadFrom\<close>,
  \<^verbatim>\<open>WriteTo\<close>, \<^verbatim>\<open>ReadBlock\<close> and \<^verbatim>\<open>WriteBlock\<close> methods. Field names carry the prefix \<open>rq\<close> or \<open>rs\<close>.
\<close>

section \<open>The request packet\<close>

record RequestPacket =
  rqIVersion :: int16
  rqCPacketType :: int8
  rqIMessageType :: int32
  rqIRequestId :: int32
  rqSServantName :: gostring
  rqSFuncName :: gostring
  rqSBuffer :: "int8 list"
  rqITimeout :: int32
  rqContext :: strmap
  rqStatus :: strmap

definition RequestPacket_ResetDefault :: "RequestPacket \<Rightarrow> RequestPacket" where
  "RequestPacket_ResetDefault st =
     st\<lparr>rqCPacketType := 0, rqIMessageType := 0, rqSServantName := [], rqSFuncName := [],
        rqITimeout := 0\<rparr>"

definition RequestPacket_ReadFrom :: "RequestPacket \<Rightarrow> Reader
    \<Rightarrow> RequestPacket \<times> gerr option \<times> Reader" where
  "RequestPacket_ReadFrom st r =
     (let st = RequestPacket_ResetDefault st in
      thenR (into (\<lambda>v. st\<lparr>rqIVersion := v\<rparr>) (ReadInt16 (rqIVersion st) 1 True r)) (\<lambda>st r.
      thenR (into (\<lambda>v. st\<lparr>rqCPacketType := v\<rparr>) (ReadInt8 (rqCPacketType st) 2 True r)) (\<lambda>st r.
      thenR (into (\<lambda>v. st\<lparr>rqIMessageType := v\<rparr>) (ReadInt32 (rqIMessageType st) 3 True r)) (\<lambda>st r.
      thenR (into (\<lambda>v. st\<lparr>rqIRequestId := v\<rparr>) (ReadInt32 (rqIRequestId st) 4 True r)) (\<lambda>st r.
      thenR (into (\<lambda>v. st\<lparr>rqSServantName := v\<rparr>) (ReadString (rqSServantName st) 5 True r)) (\<lambda>st r.
      thenR (into (\<lambda>v. st\<lparr>rqSFuncName := v\<rparr>) (ReadString (rqSFuncName st) 6 True r)) (\<lambda>st r.
      thenR (into (\<lambda>v. st\<lparr>rqSBuffer := v\<rparr>) (ReadVecInt8 (rqSBuffer st) 7 r)) (\<lambda>st r.
      thenR (into (\<lambda>v. st\<lparr>rqITimeout := v\<rparr>) (ReadInt32 (rqITimeout st) 8 True r)) (\<lambda>st r.
      thenR (into (\<lambda>v. st\<lparr>rqContext := v\<rparr>) (ReadStrMap (rqContext st) 9 r)) (\<lambda>st r.
      into (\<lambda>v. st\<lparr>rqStatus := v\<rparr>) (ReadStrMap (rqStatus st) 10 r)))))))))))"

definition RequestPacket_WriteTo :: "RequestPacket \<Rightarrow> writer" where
  "RequestPacket_WriteTo st =
     wseq [WriteInt16 (rqIVersion st) 1, WriteInt8 (rqCPacketType st) 2,
       WriteInt32 (rqIMessageType st) 3, WriteInt32 (rqIRequestId st) 4,
       WriteString (rqSServantName st) 5, WriteString (rqSFuncName st) 6,
       WriteVecInt8 (rqSBuffer st) 7, WriteInt32 (rqITimeout st) 8,
       WriteStrMap (rqContext st) 9, WriteStrMap (rqStatus st) 10]"

definition RequestPacket_ReadBlock :: "RequestPacket \<Rightarrow> byte \<Rightarrow> bool \<Rightarrow> Reader
    \<Rightarrow> RequestPacket \<times> gerr option \<times> Reader" where
  "RequestPacket_ReadBlock =
     ReadBlock ''RequestPacket'' RequestPacket_ResetDefault RequestPacket_ReadFrom"

definition RequestPacket_WriteBlock :: "RequestPacket \<Rightarrow> byte \<Rightarrow> writer" where
  "RequestPacket_WriteBlock = WriteBlock RequestPacket_WriteTo"

section \<open>The response packet\<close>

record ResponsePacket =
  rsIVersion :: int16
  rsCPacketType :: int8
  rsIRequestId :: int32
  rsIMessageType :: int32
  rsIRet :: int32
  rsSBuffer :: "int8 list"
  rsStatus :: strmap
  rsSResultDesc :: gostring
  rsContext :: strmap

definition ResponsePacket_ResetDefault :: "ResponsePacket \<Rightarrow> ResponsePacket" where
  "ResponsePacket_ResetDefault st = st\<lparr>rsCPacketType := 0, rsIMessageType := 0, rsIRet := 0\<rparr>"

definition ResponsePacket_ReadFrom :: "ResponsePacket \<Rightarrow> Reader
    \<Rightarrow> ResponsePacket \<times> gerr option \<times> Reader" where
  "ResponsePacket_ReadFrom st r =
     (let st = ResponsePacket_ResetDefault st in
      thenR (into (\<lambda>v. st\<lparr>rsIVersion := v\<rparr>) (ReadInt16 (rsIVersion st) 1 True r)) (\<lambda>st r.
      thenR (into (\<lambda>v. st\<lparr>rsCPacketType := v\<rparr>) (ReadInt8 (rsCPacketType st) 2 True r)) (\<lambda>st r.
      thenR (into (\<lambda>v. st\<lparr>rsIRequestId := v\<rparr>) (ReadInt32 (rsIRequestId st) 3 True r)) (\<lambda>st r.
      thenR (into (\<lambda>v. st\<lparr>rsIMessageType := v\<rparr>) (ReadInt32 (rsIMessageType st) 4 True r)) (\<lambda>st r.
      thenR (into (\<lambda>v. st\<lparr>rsIRet := v\<rparr>) (ReadInt32 (rsIRet st) 5 True r)) (\<lambda>st r.
      thenR (into (\<lambda>v. st\<lparr>rsSBuffer := v\<rparr>) (ReadVecInt8 (rsSBuffer st) 6 r)) (\<lambda>st r.
      thenR (into (\<lambda>v. st\<lparr>rsStatus := v\<rparr>) (ReadStrMap (rsStatus st) 7 r)) (\<lambda>st r.
      thenR (into (\<lambda>v. st\<lparr>rsSResultDesc := v\<rparr>) (ReadString (rsSResultDesc st) 8 False r)) (\<lambda>st r.
      into (\<lambda>v. st\<lparr>rsContext := v\<rparr>) (ReadStrMapOpt (rsContext st) 9 r))))))))))"

definition ResponsePacket_WriteTo :: "ResponsePacket \<Rightarrow> writer" where
  "ResponsePacket_WriteTo st =
     wseq [WriteInt16 (rsIVersion st) 1, WriteInt8 (rsCPacketType st) 2,
       WriteInt32 (rsIRequestId st) 3, WriteInt32 (rsIMessageType st) 4,
       WriteInt32 (rsIRet st) 5, WriteVecInt8 (rsSBuffer st) 6,
       WriteStrMap (rsStatus st) 7, WriteString (rsSResultDesc st) 8,
       WriteStrMap (rsContext st) 9]"

definition ResponsePacket_ReadBlock :: "ResponsePacket \<Rightarrow> byte \<Rightarrow> bool \<Rightarrow> Reader
    \<Rightarrow> ResponsePacket \<times> gerr option \<times> Reader" where
  "ResponsePacket_ReadBlock =
     ReadBlock ''ResponsePacket'' ResponsePacket_ResetDefault ResponsePacket_ReadFrom"

definition ResponsePacket_WriteBlock :: "ResponsePacket \<Rightarrow> byte \<Rightarrow> writer" where
  "ResponsePacket_WriteBlock = WriteBlock ResponsePacket_WriteTo"

section \<open>Encodings\<close>

definition okRequest :: "RequestPacket \<Rightarrow> bool" where
  "okRequest st \<longleftrightarrow> length (rqSServantName st) < 2 ^ 32 \<and> length (rqSFuncName st) < 2 ^ 32
     \<and> length (rqSBuffer st) < 2 ^ 31 \<and> okStrMap (rqContext st) \<and> okStrMap (rqStatus st)"

definition encRequest :: "RequestPacket \<Rightarrow> bytes" where
  "encRequest st =
     encInt (sint (rqIVersion st)) 1 @ encInt (sint (rqCPacketType st)) 2
     @ encInt (sint (rqIMessageType st)) 3 @ encInt (sint (rqIRequestId st)) 4
     @ encString (rqSServantName st) 5 @ encString (rqSFuncName st) 6
     @ encVecInt8 (rqSBuffer st) 7 @ encInt (sint (rqITimeout st)) 8
     @ encStrMap (rqContext st) 9 @ encStrMap (rqStatus st) 10"

definition okResponse :: "ResponsePacket \<Rightarrow> bool" where
  "okResponse st \<longleftrightarrow> length (rsSResultDesc st) < 2 ^ 32 \<and> length (rsSBuffer st) < 2 ^ 31
     \<and> okStrMap (rsContext st) \<and> okStrMap (rsStatus st)"

definition encResponse :: "ResponsePacket \<Rightarrow> bytes" where
  "encResponse st =
     encInt (sint (rsIVersion st)) 1 @ encInt (sint (rsCPacketType st)) 2
     @ encInt (sint (rsIRequestId st)) 3 @ encInt (sint (rsIMessageType st)) 4
     @ encInt (sint (rsIRet st)) 5 @ encVecInt8 (rsSBuffer st) 6
     @ encStrMap (rsStatus st) 7 @ encString (rsSResultDesc st) 8 @ encStrMap (rsContext st) 9"

lemma okStrMap_length [simp]: "okStrMap m \<Longrightarrow> length m < 2147483648"
  by (simp add: okStrMap_def)

lemma RequestPacket_WriteTo_enc:
  assumes "okRequest st"
  shows "appends (RequestPacket_WriteTo st) (encRequest st)"
proof -
  have "appends (WriteVecInt8 (rqSBuffer st) 7) (encVecInt8 (rqSBuffer st) 7)"
    "appends (WriteStrMap (rqContext st) 9) (encStrMap (rqContext st) 9)"
    "appends (WriteStrMap (rqStatus st) 10) (encStrMap (rqStatus st) 10)"
    using assms by (auto simp: okRequest_def okStrMap_length
        intro!: appends_WriteVecInt8 appends_WriteStrMap)
  note this [THEN appends_append, simp]
  show ?thesis
    unfolding RequestPacket_WriteTo_def appends_def encRequest_def
    by (simp add: appends_values [THEN appends_append])
qed

lemma ResponsePacket_WriteTo_enc:
  assumes "okResponse st"
  shows "appends (ResponsePacket_WriteTo st) (encResponse st)"
proof -
  have "appends (WriteVecInt8 (rsSBuffer st) 6) (encVecInt8 (rsSBuffer st) 6)"
    "appends (WriteStrMap (rsStatus st) 7) (encStrMap (rsStatus st) 7)"
    "appends (WriteStrMap (rsContext st) 9) (encStrMap (rsContext st) 9)"
    using assms by (auto simp: okResponse_def okStrMap_length
        intro!: appends_WriteVecInt8 appends_WriteStrMap)
  note this [THEN appends_append, simp]
  show ?thesis
    unfolding ResponsePacket_WriteTo_def appends_def encResponse_def
    by (simp add: appends_values [THEN appends_append])
qed

section \<open>Reading a packet back\<close>

text \<open>An empty byte buffer on the wire leaves the buffer of the struct that is read into.\<close>

lemma RequestPacket_ReadFrom_enc:
  assumes ok: "okRequest st" and u: "unread r = encRequest st @ xs"
  shows "RequestPacket_ReadFrom w r
    = (st\<lparr>rqSBuffer := if rqSBuffer st = [] then rqSBuffer w else rqSBuffer st\<rparr>, None,
       adv (length (encRequest st)) r)"
proof -
  define r1 where "r1 = adv (length (encInt (sint (rqIVersion st)) 1)) r"
  define r2 where "r2 = adv (length (encInt (sint (rqCPacketType st)) 2)) r1"
  define r3 where "r3 = adv (length (encInt (sint (rqIMessageType st)) 3)) r2"
  define r4 where "r4 = adv (length (encInt (sint (rqIRequestId st)) 4)) r3"
  define r5 where "r5 = adv (length (encString (rqSServantName st) 5)) r4"
  define r6 where "r6 = adv (length (encString (rqSFuncName st) 6)) r5"
  define r7 where "r7 = adv (length (encVecInt8 (rqSBuffer st) 7)) r6"
  define r8 where "r8 = adv (length (encInt (sint (rqITimeout st)) 8)) r7"
  define r9 where "r9 = adv (length (encStrMap (rqContext st) 9)) r8"
  note rs = r1_def r2_def r3_def r4_def r5_def r6_def r7_def r8_def r9_def
  have us: "unread r = encInt (sint (rqIVersion st)) 1 @ unread r1"
    "unread r1 = encInt (sint (rqCPacketType st)) 2 @ unread r2"
    "unread r2 = encInt (sint (rqIMessageType st)) 3 @ unread r3"
    "unread r3 = encInt (sint (rqIRequestId st)) 4 @ unread r4"
    "unread r4 = encString (rqSServantName st) 5 @ unread r5"
    "unread r5 = encString (rqSFuncName st) 6 @ unread r6"
    "unread r6 = encVecInt8 (rqSBuffer st) 7 @ unread r7"
    "unread r7 = encInt (sint (rqITimeout st)) 8 @ unread r8"
    "unread r8 = encStrMap (rqContext st) 9 @ unread r9"
    "unread r9 = encStrMap (rqStatus st) 10 @ xs"
    using u by (simp_all add: rs encRequest_def)
  have "adv (length (encStrMap (rqStatus st) 10)) r9 = adv (length (encRequest st)) r"
    by (simp add: rs encRequest_def add.assoc)
  moreover note cInt16.rd_enc [OF TrueI us(1), folded r1_def]
    cInt8.rd_enc [OF TrueI us(2), folded r2_def] cInt32.rd_enc [OF TrueI us(3), folded r3_def]
    cInt32.rd_enc [OF TrueI us(4), folded r4_def] cString.rd_enc [OF _ us(5), folded r5_def]
    cString.rd_enc [OF _ us(6), folded r6_def] ReadVecInt8_enc [OF us(7), folded r7_def]
    cInt32.rd_enc [OF TrueI us(8), folded r8_def] ReadStrMap_enc(1) [OF us(9), folded r9_def]
    ReadStrMap_enc(1) [OF us(10)]
  ultimately show ?thesis
    using ok unfolding RequestPacket_ReadFrom_def okRequest_def
    by (simp add: RequestPacket_ResetDefault_def)
qed

lemma RequestPacket_ReadFrom_fresh:
  assumes "okRequest st" and "rqSBuffer w = []" and "unread r = encRequest st @ xs"
  shows "RequestPacket_ReadFrom w r = (st, None, adv (length (encRequest st)) r)"
  using RequestPacket_ReadFrom_enc [OF assms(1,3), of w] assms(2) by (cases st) auto

lemma ResponsePacket_ReadFrom_enc:
  assumes ok: "okResponse st" and fresh: "rsSBuffer w = []" and u: "unread r = encResponse st @ xs"
  shows "ResponsePacket_ReadFrom w r = (st, None, adv (length (encResponse st)) r)"
proof -
  define r1 where "r1 = adv (length (encInt (sint (rsIVersion st)) 1)) r"
  define r2 where "r2 = adv (length (encInt (sint (rsCPacketType st)) 2)) r1"
  define r3 where "r3 = adv (length (encInt (sint (rsIRequestId st)) 3)) r2"
  define r4 where "r4 = adv (length (encInt (sint (rsIMessageType st)) 4)) r3"
  define r5 where "r5 = adv (length (encInt (sint (rsIRet st)) 5)) r4"
  define r6 where "r6 = adv (length (encVecInt8 (rsSBuffer st) 6)) r5"
  define r7 where "r7 = adv (length (encStrMap (rsStatus st) 7)) r6"
  define r8 where "r8 = adv (length (encString (rsSResultDesc st) 8)) r7"
  note rs = r1_def r2_def r3_def r4_def r5_def r6_def r7_def r8_def
  have us: "unread r = encInt (sint (rsIVersion st)) 1 @ unread r1"
    "unread r1 = encInt (sint (rsCPacketType st)) 2 @ unread r2"
    "unread r2 = encInt (sint (rsIRequestId st)) 3 @ unread r3"
    "unread r3 = encInt (sint (rsIMessageType st)) 4 @ unread r4"
    "unread r4 = encInt (sint (rsIRet st)) 5 @ unread r5"
    "unread r5 = encVecInt8 (rsSBuffer st) 6 @ unread r6"
    "unread r6 = encStrMap (rsStatus st) 7 @ unread r7"
    "unread r7 = encString (rsSResultDesc st) 8 @ unread r8"
    "unread r8 = encStrMap (rsContext st) 9 @ xs"
    using u by (simp_all add: rs encResponse_def)
  have "adv (length (encStrMap (rsContext st) 9)) r8 = adv (length (encResponse st)) r"
    by (simp add: rs encResponse_def add.assoc)
  moreover note cInt16.rd_enc [OF TrueI us(1), folded r1_def]
    cInt8.rd_enc [OF TrueI us(2), folded r2_def] cInt32.rd_enc [OF TrueI us(3), folded r3_def]
    cInt32.rd_enc [OF TrueI us(4), folded r4_def] cInt32.rd_enc [OF TrueI us(5), folded r5_def]
    ReadVecInt8_enc [OF us(6), folded r6_def] ReadStrMap_enc(1) [OF us(7), folded r7_def]
    cString.rd_enc [OF _ us(8), folded r8_def] ReadStrMap_enc(2) [OF us(9)]
  ultimately show ?thesis
    using ok fresh unfolding ResponsePacket_ReadFrom_def okResponse_def
    by (simp add: ResponsePacket_ResetDefault_def)
qed

interpretation cRequest: struct_codec "''RequestPacket''" RequestPacket_ResetDefault
  RequestPacket_WriteTo RequestPacket_ReadFrom encRequest okRequest "\<lambda>w. rqSBuffer w = []"
  by unfold_locales
    (simp_all add: RequestPacket_WriteTo_enc RequestPacket_ReadFrom_fresh
      RequestPacket_ResetDefault_def)

interpretation cResponse: struct_codec "''ResponsePacket''" ResponsePacket_ResetDefault
  ResponsePacket_WriteTo ResponsePacket_ReadFrom encResponse okResponse "\<lambda>w. rsSBuffer w = []"
  by unfold_locales
    (simp_all add: ResponsePacket_WriteTo_enc ResponsePacket_ReadFrom_enc
      ResponsePacket_ResetDefault_def)

section \<open>Properties\<close>

text \<open>Packets for the witnesses.\<close>

definition ping_request :: RequestPacket where
  "ping_request = \<lparr>rqIVersion = 1, rqCPacketType = 0, rqIMessageType = 0, rqIRequestId = 77,
     rqSServantName = [65, 46, 66], rqSFuncName = [112], rqSBuffer = [1, 2, 3],
     rqITimeout = 3000, rqContext = [([107], [118])], rqStatus = []\<rparr>"

definition zero_request :: RequestPacket where
  "zero_request = \<lparr>rqIVersion = 0, rqCPacketType = 0, rqIMessageType = 0, rqIRequestId = 0,
     rqSServantName = [], rqSFuncName = [], rqSBuffer = [], rqITimeout = 0,
     rqContext = [], rqStatus = []\<rparr>"

definition zero_response :: ResponsePacket where
  "zero_response = \<lparr>rsIVersion = 0, rsCPacketType = 0, rsIRequestId = 0, rsIMessageType = 0,
     rsIRet = 0, rsSBuffer = [], rsStatus = [], rsSResultDesc = [], rsContext = []\<rparr>"

lemma ok_ping [simp]: "okRequest ping_request"
  by (simp add: okRequest_def ping_request_def okStrMap_def)

lemma ok_zero [simp]: "okRequest zero_request" "okResponse zero_response"
  "rqSBuffer zero_request = []" "rsSBuffer zero_response = []"
  by (simp_all add: okRequest_def okResponse_def zero_request_def zero_response_def okStrMap_def)

text \<open>C10: A request packet written with \<^verbatim>\<open>WriteTo\<close> is read back by \<^verbatim>\<open>ReadFrom\<close> into any packet
  whose byte buffer is empty: all ten members, the maps whatever the order in which they were
  enumerated, without an error and consuming exactly the bytes written.\<close>

theorem request_round_trip:
  assumes "okRequest st" and "rqSBuffer w = []"
  shows "reads_all (RequestPacket_ReadFrom w
    (NewReader (snd (RequestPacket_WriteTo st [])))) st"
  using RequestPacket_ReadFrom_fresh [OF assms, of "NewReader (encRequest st)" "[]"]
  by (simp add: appends_append [OF RequestPacket_WriteTo_enc [OF assms(1)]])

theorem request_round_trip_witness:
  "reads_all (RequestPacket_ReadFrom zero_request
    (NewReader (snd (RequestPacket_WriteTo ping_request [])))) ping_request"
  by (rule request_round_trip) simp_all

text \<open>A response packet in its block form may come from a newer peer that appends members
  of its own: \<^verbatim>\<open>ReadBlock\<close> returns the members it knows and stops just behind the block.\<close>

theorem response_block_forward_compatible:
  assumes "okResponse st" and "rsSBuffer w = []" and "wfFields fs"
    and "unread r = encHead StructBegin tag @ snd (ResponsePacket_WriteTo st [])
      @ encFields fs @ encHead StructEnd 0 @ xs"
  shows "\<exists>r'. ResponsePacket_ReadBlock w tag require r = (st, None, r') \<and> unread r' = xs"
  using cResponse.ReadBlock_newer [OF assms(1-3), of r tag xs require] assms(4)
  by (simp add: ResponsePacket_ReadBlock_def
      appends_append [OF ResponsePacket_WriteTo_enc [OF assms(1)]])

theorem response_block_forward_compatible_witness:
  "\<exists>r'. ResponsePacket_ReadBlock zero_response 3 True
      (NewReader (encHead StructBegin 3 @ snd (ResponsePacket_WriteTo zero_response [])
        @ encFields [(20, JList [JInt 4])] @ encHead StructEnd 0 @ [5])) = (zero_response, None, r')
    \<and> unread r' = [5]"
  by (rule response_block_forward_compatible [where fs = "[(20, JList [JInt 4])]"]) simp_all

text \<open>A packet struct that is reused keeps its old byte buffer when the packet read has an
  empty one: what is decoded is the packet written with the old buffer in it, and no error
  is reported.\<close>

theorem reused_packet_keeps_buffer:
  assumes "okRequest st" and "rqSBuffer st = []"
  shows "reads_all (RequestPacket_ReadFrom w
    (NewReader (snd (RequestPacket_WriteTo st [])))) (st\<lparr>rqSBuffer := rqSBuffer w\<rparr>)"
  using RequestPacket_ReadFrom_enc [OF assms(1), of "NewReader (encRequest st)" "[]" w] assms(2)
  by (simp add: appends_append [OF RequestPacket_WriteTo_enc [OF assms(1)]])

theorem reused_packet_keeps_buffer_witness:
  "reads_all (RequestPacket_ReadFrom ping_request
    (NewReader (snd (RequestPacket_WriteTo zero_request []))))
      (zero_request\<lparr>rqSBuffer := [1, 2, 3]\<rparr>)"
  using reused_packet_keeps_buffer [of zero_request ping_request]
  by (simp add: ping_request_def)

text \<open>A byte vector sent in its list form with a negative length makes the reader panic,
  because the slice is allocated before anything is checked.\<close>

theorem negative_vector_panics:
  assumes "unread r = encHead LIST tag @ encInt n 0 @ xs" and "- (2 ^ 31) \<le> n" and "n < 0"
  shows "\<exists>r'. ReadVecInt8 v tag r = (v, Some (Panic ''makeslice: len out of range''), r')"
proof -
  let ?r = "adv (length (encHead LIST tag)) r"
  have "SkipToNoCheck tag True r = (True, LIST, None, ?r)"
    using assms(1) by (intro SkipToNoCheck_found) (simp_all add: jce_ty_defs)
  moreover have "ReadInt32 0 0 True ?r = (word_of_int n, None, adv (length (encInt n 0)) ?r)"
    using assms by (intro ReadInt32_enc) simp_all
  moreover have "sint (word_of_int n :: int32) = n"
    using assms by (intro sint_of_int) simp_all
  ultimately show ?thesis
    using assms(3) by (simp add: ReadVecInt8_def)
qed

theorem negative_vector_panics_witness:
  "\<exists>r'. ReadVecInt8 [] 7 (NewReader (encHead LIST 7 @ encInt (- 1) 0 @ []))
    = ([], Some (Panic ''makeslice: len out of range''), r')"
  by (rule negative_vector_panics [of _ 7 "- 1" "[]"]) simp_all

end
