(* ===== verification/Trace.thy ===== *)
theory Trace
  imports Go_Strings
begin

text \<open>
  Call tracing, \<^verbatim>\<open>tars/util/trace/trace.go\<close> and \<^verbatim>\<open>id_generator.go\<close>: the trace id with its
  flags, the span context that travels in the status of a request, and the decision which
  parameters a trace logs. The package variable \<^verbatim>\<open>traceParamMaxLen\<close> and the bytes the random
  source yields are arguments.
\<close>

section \<open>Span contexts\<close>

record SpanContext =
  scTraceType :: int
  scParamMaxLen :: "64 word"
  scTraceID :: gostring
  scSpanID :: gostring
  scParentSpanID :: gostring

record Trace =
  trCall :: bool
  trSc :: SpanContext

definition EstCS :: byte where "EstCS = 1"
definition EstCR :: byte where "EstCR = 2"
definition EstSR :: byte where "EstSR = 4"
definition EstSS :: byte where "EstSS = 8"
definition EstTS :: byte where "EstTS = 9"
definition EstTE :: byte where "EstTE = 10"

datatype NeedParam = EnpNo | EnpNormal | EnpOverMaxLen

definition SetTraceParamMaxLen :: "64 word \<Rightarrow> 64 word \<Rightarrow> 64 word" where
  "SetTraceParamMaxLen len traceParamMaxLen = (if len < 1024 * 10 then len else traceParamMaxLen)"

text \<open>The bytes 45, 46 and 124 are the characters minus, full stop and vertical bar.\<close>

definition initType :: "64 word \<Rightarrow> gostring \<Rightarrow> int \<times> 64 word" where
  "initType traceParamMaxLen tid =
     (let maxLen = traceParamMaxLen;
          (typ, maxLen) =
            (case strings_Index tid 45 of
               None \<Rightarrow> (0, maxLen)
             | Some pos \<Rightarrow>
                 let flags = strings_Split (take pos tid) 46;
                     typ = (if length flags \<ge> 1
                            then (case ParseInt (flags ! 0) 16 32 of
                                    Some int64Type \<Rightarrow> int64Type | None \<Rightarrow> 0)
                            else 0);
                     maxLen = (if length flags \<ge> 2
                            then (case ParseUint (flags ! 1) 10 32 of
                                    Some uint64Len \<Rightarrow>
                                      if maxLen < word_of_nat uint64Len then word_of_nat uint64Len
                                      else maxLen
                                  | None \<Rightarrow> maxLen)
                            else maxLen)
                 in (typ, maxLen));
          typ = (if typ < 0 \<or> typ > 15 then 0 else typ)
      in (typ, maxLen))"

definition getNeedParam :: "byte \<Rightarrow> int \<Rightarrow> 64 word \<Rightarrow> 64 word \<Rightarrow> NeedParam" where
  "getNeedParam es typ len maxLen =
     (let es = (if es = EstTS then EstCS else if es = EstTE then EstCR else es) in
      if uint es AND typ = 0 then EnpNo
      else if len > maxLen * 1024 then EnpOverMaxLen
      else EnpNormal)"

definition zero_span :: SpanContext where
  "zero_span = \<lparr>scTraceType = 0, scParamMaxLen = 0, scTraceID = [], scSpanID = [],
     scParentSpanID = []\<rparr>"

definition SpanContext_Reset :: "SpanContext \<Rightarrow> SpanContext" where
  "SpanContext_Reset c = c\<lparr>scTraceID := [], scSpanID := [], scParentSpanID := [],
     scTraceType := 0, scParamMaxLen := 1\<rparr>"

definition SpanContext_Init :: "64 word \<Rightarrow> gostring \<Rightarrow> SpanContext \<Rightarrow> bool \<times> SpanContext" where
  "SpanContext_Init traceParamMaxLen traceKey c =
     (let traceKeys = strings_Split traceKey 124 in
      if length traceKeys = 2 then
        (let (typ, maxLen) = initType traceParamMaxLen (traceKeys ! 0)
         in (True, c\<lparr>scTraceID := traceKeys ! 0, scParentSpanID := traceKeys ! 1, scSpanID := [],
               scTraceType := typ, scParamMaxLen := maxLen\<rparr>))
      else if length traceKeys = 3 then
        (let (typ, maxLen) = initType traceParamMaxLen (traceKeys ! 0)
         in (True, c\<lparr>scTraceID := traceKeys ! 0, scParentSpanID := traceKeys ! 1,
               scSpanID := traceKeys ! 2, scTraceType := typ, scParamMaxLen := maxLen\<rparr>))
      else (False, SpanContext_Reset c))"

definition SpanContext_Open :: "64 word \<Rightarrow> gostring \<Rightarrow> SpanContext \<Rightarrow> bool \<times> SpanContext" where
  "SpanContext_Open traceParamMaxLen traceID c =
     (if length traceID > 0 then
        (let (typ, maxLen) = initType traceParamMaxLen traceID
         in (True, c\<lparr>scTraceID := traceID, scParentSpanID := [], scSpanID := [],
               scTraceType := typ, scParamMaxLen := maxLen\<rparr>))
      else (False, c))"

text \<open>\<^verbatim>\<open>NewSpanID\<close> and \<^verbatim>\<open>NewTraceID\<close> encode 8 and 16 bytes of the random source.\<close>

definition NewSpanID :: "bytes \<Rightarrow> gostring" where
  "NewSpanID sid = hex_EncodeToString sid"

definition NewTraceID :: "bytes \<Rightarrow> gostring" where
  "NewTraceID tid = hex_EncodeToString tid"

definition SpanContext_NewSpan :: "bytes \<Rightarrow> SpanContext \<Rightarrow> SpanContext" where
  "SpanContext_NewSpan sid c =
     (let c = c\<lparr>scSpanID := NewSpanID sid\<rparr> in
      if length (scParentSpanID c) = 0 then c\<lparr>scParentSpanID := scSpanID c\<rparr> else c)"

definition SpanContext_Key :: "byte \<Rightarrow> SpanContext \<Rightarrow> gostring" where
  "SpanContext_Key es c =
     (if es = EstCS \<or> es = EstCR \<or> es = EstTS \<or> es = EstTE
      then scTraceID c @ ascii ''|'' @ scSpanID c @ ascii ''|'' @ scParentSpanID c
      else if es = EstSR \<or> es = EstSS
      then scTraceID c @ ascii ''|'' @ scParentSpanID c @ ascii ''|*''
      else [])"

definition SpanContext_FullKey :: "bool \<Rightarrow> SpanContext \<Rightarrow> gostring" where
  "SpanContext_FullKey full c =
     (if full then scTraceID c @ ascii ''|'' @ scSpanID c @ ascii ''|'' @ scParentSpanID c
      else scTraceID c @ ascii ''|'' @ scSpanID c)"

section \<open>Traces\<close>

definition Trace_New :: Trace where
  "Trace_New = \<lparr>trCall = False, trSc = zero_span\<rparr>"

definition SetCall :: "bool \<Rightarrow> Trace \<Rightarrow> Trace" where
  "SetCall call t = t\<lparr>trCall := call\<rparr>"

definition GetTraceKey :: "byte \<Rightarrow> Trace \<Rightarrow> gostring" where
  "GetTraceKey es t = SpanContext_Key es (trSc t)"

definition GetTraceFullKey :: "bool \<Rightarrow> Trace \<Rightarrow> gostring" where
  "GetTraceFullKey full t = SpanContext_FullKey full (trSc t)"

definition Trace_NewSpan :: "bytes \<Rightarrow> Trace \<Rightarrow> Trace" where
  "Trace_NewSpan sid t = t\<lparr>trSc := SpanContext_NewSpan sid (trSc t)\<rparr>"

definition InitTrace :: "64 word \<Rightarrow> gostring \<Rightarrow> Trace \<Rightarrow> bool \<times> Trace" where
  "InitTrace traceParamMaxLen traceKey t =
     (case SpanContext_Init traceParamMaxLen traceKey (trSc t) of
        (ok, c) \<Rightarrow> (ok, t\<lparr>trSc := c\<rparr>))"

definition Trace_NeedTraceParam :: "byte \<Rightarrow> 64 word \<Rightarrow> Trace \<Rightarrow> NeedParam" where
  "Trace_NeedTraceParam es len t =
     getNeedParam es (scTraceType (trSc t)) len (scParamMaxLen (trSc t))"

definition OpenTrace :: "64 word \<Rightarrow> bytes \<Rightarrow> int \<Rightarrow> 64 word \<Rightarrow> Trace \<Rightarrow> bool \<times> Trace" where
  "OpenTrace traceParamMaxLen tid traceFlag maxLen t =
     (let traceID = NewTraceID tid;
          traceID = (if maxLen > 0
            then FormatInt traceFlag 16 @ ascii ''.'' @ FormatInt (sint maxLen) 10 @ ascii ''-'' @ traceID
            else FormatInt traceFlag 16 @ ascii ''-'' @ traceID);
          (call, c) = SpanContext_Open traceParamMaxLen traceID (trSc t)
      in (call, t\<lparr>trSc := c, trCall := call\<rparr>))"

definition NeedTraceParam :: "64 word \<Rightarrow> byte \<Rightarrow> gostring \<Rightarrow> 64 word \<Rightarrow> NeedParam" where
  "NeedTraceParam traceParamMaxLen es traceID len =
     (case initType traceParamMaxLen traceID of (typ, maxLen) \<Rightarrow> getNeedParam es typ len maxLen)"

section \<open>Flags of a trace id\<close>

text \<open>The invariant of a span context: type and parameter limit are those its trace id spells,
  and no id contains the separator.\<close>

definition span_ok :: "64 word \<Rightarrow> SpanContext \<Rightarrow> bool" where
  "span_ok traceParamMaxLen c \<longleftrightarrow>
     initType traceParamMaxLen (scTraceID c) = (scTraceType c, scParamMaxLen c)
     \<and> 124 \<notin> set (scTraceID c) \<and> 124 \<notin> set (scSpanID c)"

lemma ascii_seps:
  "ascii ''|'' = [124]" "ascii ''.'' = [46]" "ascii ''-'' = [45]" "ascii ''|*'' = [124, 42]"
  by (simp_all add: ascii_def)

lemma FormatInt_nonneg_alnum:
  assumes "0 \<le> i" and "2 \<le> base" and "base \<le> 36"
  shows "\<forall>c \<in> set (FormatInt i base). alnum c"
  using assms formatBits_alnum by (simp add: FormatInt_def)

lemma alnum_no_sep:
  assumes "\<forall>c \<in> set s. alnum c"
  shows "45 \<notin> set s" "46 \<notin> set s" "124 \<notin> set s"
  using assms alnum_not_sep by auto

lemma initType_flag:
  assumes "0 \<le> flag" and "flag \<le> 15"
  shows "initType mx (FormatInt flag 16 @ 45 # rest) = (flag, mx)"
proof -
  note ns = alnum_no_sep [OF FormatInt_nonneg_alnum [OF assms(1), of 16]]
  have "ParseInt (FormatInt flag 16) 16 32 = Some flag"
    using assms by (intro ParseInt_format) auto
  with ns assms show ?thesis
    by (simp add: initType_def strings_Index_append strings_Split_single)
qed

lemma initType_flag_len:
  assumes "0 \<le> flag" and "flag \<le> 15" and "len < 2 ^ 32"
  shows "initType mx (FormatInt flag 16 @ 46 # FormatInt (int len) 10 @ 45 # rest)
    = (flag, if mx < word_of_nat len then word_of_nat len else mx)"
proof -
  note ns = alnum_no_sep [OF FormatInt_nonneg_alnum [OF assms(1), of 16]]
    and ls = alnum_no_sep [OF FormatInt_nonneg_alnum [of "int len" 10]]
  let ?s = "FormatInt flag 16 @ 46 # FormatInt (int len) 10"
  have f: "ParseInt (FormatInt flag 16) 16 32 = Some flag"
    using assms by (intro ParseInt_format) auto
  have l: "ParseUint (FormatInt (int len) 10) 10 32 = Some len"
    using assms(3) by (simp add: FormatInt_def ParseUint_format)
  have i: "strings_Index (?s @ 45 # rest) 45 = Some (length ?s)"
    using ns ls by (intro strings_Index_append) simp
  have p: "strings_Split ?s 46 = [FormatInt flag 16, FormatInt (int len) 10]"
    using ns ls by (simp add: strings_Split_append strings_Split_single)
  have "initType mx (?s @ 45 # rest)
      = (flag, if mx < word_of_nat len then word_of_nat len else mx)"
    unfolding initType_def i using p f l assms by simp
  then show ?thesis by simp
qed

lemma sint_small:
  assumes "unat (w :: 64 word) < 2 ^ 32"
  shows "sint w = int (unat w)"
proof -
  from assms have "int (unat w) < int (2 ^ 32)"
    by (rule iffD2 [OF of_nat_less_iff])
  then have "uint w < 2 ^ 63"
    by simp
  moreover have "- (2 ^ 63) \<le> uint w"
    by (rule order_trans [of _ 0]) simp_all
  ultimately show ?thesis
    using sint_word_of_int_small [of "uint w", where ?'a = 64] by simp
qed

text \<open>The trace id that \<^verbatim>\<open>OpenTrace\<close> composes spells the flag and the limit it was given.\<close>

lemma OpenTrace_span:
  assumes "0 \<le> flag" and "flag \<le> 15" and "unat maxLen < 2 ^ 32"
  obtains c where "OpenTrace mx tid flag maxLen t = (True, t\<lparr>trSc := c, trCall := True\<rparr>)"
    and "span_ok mx c" and "scTraceType c = flag" and "scParamMaxLen c = max mx maxLen"
    and "scSpanID c = []" and "scParentSpanID c = []"
proof -
  let ?pre = "FormatInt flag 16 @ (if maxLen > 0 then 46 # FormatInt (int (unat maxLen)) 10 else [])"
  let ?id = "?pre @ 45 # hex_EncodeToString tid"
  have ty: "initType mx ?id = (flag, max mx maxLen)"
    using initType_flag [OF assms(1,2), of mx "hex_EncodeToString tid"]
      initType_flag_len [OF assms(1,2), of "unat maxLen" mx "hex_EncodeToString tid"] assms(3)
    by (auto simp: max_def word_gt_0)
  have bar: "124 \<notin> set ?id"
    using alnum_no_sep(3) [OF FormatInt_nonneg_alnum [OF assms(1), of 16]]
      alnum_no_sep(3) [OF FormatInt_nonneg_alnum [of "int (unat maxLen)" 10]]
      alnum_no_sep(3) [OF hex_alnum [of tid]]
    by simp
  let ?c = "(trSc t)\<lparr>scTraceID := ?id, scParentSpanID := [], scSpanID := [],
    scTraceType := flag, scParamMaxLen := max mx maxLen\<rparr>"
  have "OpenTrace mx tid flag maxLen t = (True, t\<lparr>trSc := ?c, trCall := True\<rparr>)"
    using ty by (cases "maxLen > 0") (simp_all add: OpenTrace_def SpanContext_Open_def
        NewTraceID_def ascii_seps sint_small [OF assms(3)] Let_def)
  moreover have "span_ok mx ?c"
    using ty bar by (simp add: span_ok_def)
  ultimately show thesis
    by (intro that [of ?c]) simp_all
qed

section \<open>The trace along a chain of calls\<close>

text \<open>A server that gets the short key of its caller's trace and opens a span of its own.\<close>

definition trace_hop :: "64 word \<Rightarrow> bytes \<Rightarrow> Trace \<Rightarrow> Trace" where
  "trace_hop traceParamMaxLen sid t =
     (case InitTrace traceParamMaxLen (GetTraceFullKey False t) Trace_New of
        (ok, t') \<Rightarrow> Trace_NewSpan sid (SetCall ok t'))"

fun trace_chain :: "64 word \<Rightarrow> Trace \<Rightarrow> bytes list \<Rightarrow> Trace list" where
  "trace_chain traceParamMaxLen t [] = [t]"
| "trace_chain traceParamMaxLen t (sid # sids) =
     t # trace_chain traceParamMaxLen (trace_hop traceParamMaxLen sid t) sids"

lemma Init_short_key:
  assumes "span_ok mx c"
  shows "SpanContext_Init mx (SpanContext_FullKey False c) d
    = (True, d\<lparr>scTraceID := scTraceID c, scParentSpanID := scSpanID c, scSpanID := [],
        scTraceType := scTraceType c, scParamMaxLen := scParamMaxLen c\<rparr>)"
  using assms
  by (simp add: SpanContext_Init_def SpanContext_FullKey_def ascii_seps span_ok_def
      strings_Split_append strings_Split_single)

lemma NewSpan_ok: "span_ok mx c \<Longrightarrow> span_ok mx (SpanContext_NewSpan sid c)"
  using alnum_no_sep(3) [OF hex_alnum [of sid]]
  by (simp add: span_ok_def SpanContext_NewSpan_def NewSpanID_def Let_def)

lemma trace_hop_span:
  assumes "span_ok mx (trSc t)" and "scSpanID (trSc t) \<noteq> []"
  shows "span_ok mx (trSc (trace_hop mx sid t))"
    and "trCall (trace_hop mx sid t)"
    and "scTraceID (trSc (trace_hop mx sid t)) = scTraceID (trSc t)"
    and "scTraceType (trSc (trace_hop mx sid t)) = scTraceType (trSc t)"
    and "scParamMaxLen (trSc (trace_hop mx sid t)) = scParamMaxLen (trSc t)"
    and "scSpanID (trSc (trace_hop mx sid t)) = hex_EncodeToString sid"
    and "scParentSpanID (trSc (trace_hop mx sid t)) = scSpanID (trSc t)"
proof -
  let ?c = "zero_span\<lparr>scTraceID := scTraceID (trSc t), scParentSpanID := scSpanID (trSc t),
    scSpanID := [], scTraceType := scTraceType (trSc t), scParamMaxLen := scParamMaxLen (trSc t)\<rparr>"
  have h: "trace_hop mx sid t = \<lparr>trCall = True, trSc = SpanContext_NewSpan sid ?c\<rparr>"
    by (simp add: trace_hop_def InitTrace_def GetTraceFullKey_def Init_short_key [OF assms(1)]
        Trace_New_def SetCall_def Trace_NewSpan_def)
  have "span_ok mx ?c"
    using assms(1) by (simp add: span_ok_def)
  then show "span_ok mx (trSc (trace_hop mx sid t))"
    by (simp add: h NewSpan_ok)
  show "trCall (trace_hop mx sid t)"
    "scTraceID (trSc (trace_hop mx sid t)) = scTraceID (trSc t)"
    "scTraceType (trSc (trace_hop mx sid t)) = scTraceType (trSc t)"
    "scParamMaxLen (trSc (trace_hop mx sid t)) = scParamMaxLen (trSc t)"
    "scSpanID (trSc (trace_hop mx sid t)) = hex_EncodeToString sid"
    "scParentSpanID (trSc (trace_hop mx sid t)) = scSpanID (trSc t)"
    using assms(2) by (simp_all add: h SpanContext_NewSpan_def NewSpanID_def)
qed

lemma length_trace_chain [simp]: "length (trace_chain mx t sids) = Suc (length sids)"
  by (induction sids arbitrary: t) simp_all

lemma trace_chain_spans:
  assumes "span_ok mx (trSc t)" and "scSpanID (trSc t) \<noteq> []" and "trCall t"
    and "\<forall>sid \<in> set sids. sid \<noteq> []" and "i \<le> length sids"
  shows "trCall (trace_chain mx t sids ! i)
    \<and> scTraceID (trSc (trace_chain mx t sids ! i)) = scTraceID (trSc t)
    \<and> scTraceType (trSc (trace_chain mx t sids ! i)) = scTraceType (trSc t)
    \<and> scParamMaxLen (trSc (trace_chain mx t sids ! i)) = scParamMaxLen (trSc t)
    \<and> (0 < i \<longrightarrow> scParentSpanID (trSc (trace_chain mx t sids ! i))
        = scSpanID (trSc (trace_chain mx t sids ! (i - 1))))"
  using assms
proof (induction sids arbitrary: t i)
  case Nil
  then show ?case by simp
next
  case (Cons sid sids)
  note hop = trace_hop_span [OF Cons.prems(1,2), of sid]
  have n: "scSpanID (trSc (trace_hop mx sid t)) \<noteq> []"
    using Cons.prems(4) hop(6) by simp
  show ?case
  proof (cases i)
    case 0
    with Cons.prems show ?thesis by simp
  next
    case (Suc j)
    have "trace_chain mx (trace_hop mx sid t) sids ! 0 = trace_hop mx sid t"
      by (cases sids) simp_all
    with Suc Cons.IH [OF hop(1) n hop(2), of j] Cons.prems hop show ?thesis
      by (cases j) simp_all
  qed
qed

section \<open>Properties\<close>

text \<open>A trace that a client opens with a flag from 0 to 15 and a limit keeps its id, its flag and
  its parameter limit along every chain of calls that passes the short key on: every server of
  the chain traces, its span's parent is the span of its caller, and it decides which
  parameters to log as the opener does.\<close>

theorem trace_follows_calls:
  assumes "0 \<le> flag" and "flag \<le> 15" and "unat maxLen < 2 ^ 32"
    and "OpenTrace mx tid flag maxLen Trace_New = (ok, t)"
    and "\<forall>sid \<in> set (sid0 # sids). length sid = 8"
    and "ts = trace_chain mx (Trace_NewSpan sid0 t) sids" and "i \<le> length sids"
  shows "ok \<and> trCall (ts ! i) \<and> scTraceID (trSc (ts ! i)) = scTraceID (trSc t)
    \<and> scTraceType (trSc (ts ! i)) = flag \<and> scParamMaxLen (trSc (ts ! i)) = max mx maxLen
    \<and> Trace_NeedTraceParam es len (ts ! i) = NeedTraceParam mx es (scTraceID (trSc t)) len
    \<and> (0 < i \<longrightarrow> scParentSpanID (trSc (ts ! i)) = scSpanID (trSc (ts ! (i - 1))))"
proof -
  obtain c where c: "ok" "t = Trace_New\<lparr>trSc := c, trCall := True\<rparr>" "span_ok mx c"
    "scTraceType c = flag" "scParamMaxLen c = max mx maxLen"
    using OpenTrace_span [OF assms(1-3), of mx tid Trace_New] assms(4) by auto
  have s: "span_ok mx (trSc (Trace_NewSpan sid0 t))" "trCall (Trace_NewSpan sid0 t)"
    using c by (simp_all add: Trace_NewSpan_def NewSpan_ok)
  have f: "scTraceID (trSc (Trace_NewSpan sid0 t)) = scTraceID c"
    "scTraceType (trSc (Trace_NewSpan sid0 t)) = flag"
    "scParamMaxLen (trSc (Trace_NewSpan sid0 t)) = max mx maxLen"
    "scSpanID (trSc (Trace_NewSpan sid0 t)) = hex_EncodeToString sid0"
    using c by (simp_all add: Trace_NewSpan_def SpanContext_NewSpan_def NewSpanID_def Let_def)
  have n: "scSpanID (trSc (Trace_NewSpan sid0 t)) \<noteq> []"
    using f(4) assms(5) by auto
  have "\<forall>sid \<in> set sids. sid \<noteq> []"
    using assms(5) by auto
  note ch = trace_chain_spans [OF s(1) n s(2) this assms(7), folded assms(6)]
  have "Trace_NeedTraceParam es len (ts ! i) = NeedTraceParam mx es (scTraceID c) len"
    using ch f c(3-5) by (simp add: Trace_NeedTraceParam_def NeedTraceParam_def span_ok_def)
  then show ?thesis
    using ch f c by simp
qed

theorem trace_follows_calls_witness:
  "\<exists>t. OpenTrace 1 (replicate 16 7) 15 2 Trace_New = (True, t)
    \<and> scTraceType (trSc (trace_chain 1 (Trace_NewSpan (replicate 8 1) t) [replicate 8 2] ! 1)) = 15"
proof -
  obtain ok t where o: "OpenTrace 1 (replicate 16 7) 15 2 Trace_New = (ok, t)"
    by (cases "OpenTrace 1 (replicate 16 7) 15 2 Trace_New")
  then show ?thesis
    using trace_follows_calls [OF _ _ _ o _ refl, of "replicate 8 1" "[replicate 8 2]" 1 EstCS 0]
    by simp
qed

end
