(* ===== verification/Current.thy ===== *)
theory Current
  imports Packets Trace
begin

text \<open>
  What a call carries in its context: \<^verbatim>\<open>tars/util/current/tarscurrent.go\<close> for the server and
  \<^verbatim>\<open>clientcurrent.go\<close> for the client. A context holds at most one pointer of either kind; the
  functions change what it points to, so the context is threaded through them. A nil map is
  \<open>None\<close>; connections and addresses are numbered.
\<close>

section \<open>Contexts\<close>

record Current =
  cuClientIP :: gostring
  cuClientPort :: gostring
  cuRecvPkgTs :: int64
  cuPacketType :: int8
  cuReqStatus :: "strmap option"
  cuResStatus :: "strmap option"
  cuReqContext :: "strmap option"
  cuResContext :: "strmap option"
  cuNeedDyeing :: bool
  cuDyeingUser :: gostring
  cuTrace :: "Trace option"
  cuRawConn :: "nat option"
  cuUdpAddr :: "nat option"

record ClientCurrent =
  ccIsHash :: bool
  ccHashCode :: uint32
  ccHashType :: int
  ccIsTimeout :: bool
  ccTimeout :: int
  ccServerIP :: gostring
  ccServerPort :: gostring

record Ctx =
  cxCurrent :: "Current option"
  cxClient :: "ClientCurrent option"

definition newCurrent :: Current where
  "newCurrent = \<lparr>cuClientIP = [], cuClientPort = [], cuRecvPkgTs = 0, cuPacketType = 0,
     cuReqStatus = None, cuResStatus = None, cuReqContext = None, cuResContext = None,
     cuNeedDyeing = False, cuDyeingUser = [], cuTrace = None, cuRawConn = None, cuUdpAddr = None\<rparr>"

definition ContextWithTarsCurrent :: "Ctx \<Rightarrow> Ctx" where
  "ContextWithTarsCurrent ctx = ctx\<lparr>cxCurrent := Some newCurrent\<rparr>"

definition newClientCurrent :: ClientCurrent where
  "newClientCurrent = \<lparr>ccIsHash = False, ccHashCode = 0, ccHashType = 0, ccIsTimeout = False,
     ccTimeout = 0, ccServerIP = [], ccServerPort = []\<rparr>"

definition ContextWithClientCurrent :: "Ctx \<Rightarrow> Ctx" where
  "ContextWithClientCurrent ctx = ctx\<lparr>cxClient := Some newClientCurrent\<rparr>"

text \<open>Reading a field, with the zero value where there is no current, and changing it.\<close>

definition fromCurrent :: "(Current \<Rightarrow> 'a) \<Rightarrow> 'a \<Rightarrow> Ctx \<Rightarrow> 'a \<times> bool" where
  "fromCurrent field zero ctx =
     (case cxCurrent ctx of Some tc \<Rightarrow> (field tc, True) | None \<Rightarrow> (zero, False))"

definition setCurrent :: "(Current \<Rightarrow> Current) \<Rightarrow> Ctx \<Rightarrow> bool \<times> Ctx" where
  "setCurrent upd ctx =
     (case cxCurrent ctx of Some tc \<Rightarrow> (True, ctx\<lparr>cxCurrent := Some (upd tc)\<rparr>) | None \<Rightarrow> (False, ctx))"

definition GetClientIPFromContext :: "Ctx \<Rightarrow> gostring \<times> bool" where
  "GetClientIPFromContext = fromCurrent cuClientIP []"

definition SetClientIPWithContext :: "gostring \<Rightarrow> Ctx \<Rightarrow> bool \<times> Ctx" where
  "SetClientIPWithContext ip = setCurrent (\<lambda>tc. tc\<lparr>cuClientIP := ip\<rparr>)"

definition GetClientPortFromContext :: "Ctx \<Rightarrow> gostring \<times> bool" where
  "GetClientPortFromContext = fromCurrent cuClientPort []"

definition SetClientPortWithContext :: "gostring \<Rightarrow> Ctx \<Rightarrow> bool \<times> Ctx" where
  "SetClientPortWithContext port = setCurrent (\<lambda>tc. tc\<lparr>cuClientPort := port\<rparr>)"

definition SetResponseStatus :: "strmap option \<Rightarrow> Ctx \<Rightarrow> bool \<times> Ctx" where
  "SetResponseStatus s = setCurrent (\<lambda>tc. tc\<lparr>cuResStatus := s\<rparr>)"

definition GetResponseStatus :: "Ctx \<Rightarrow> strmap option \<times> bool" where
  "GetResponseStatus = fromCurrent cuResStatus None"

definition SetResponseContext :: "strmap option \<Rightarrow> Ctx \<Rightarrow> bool \<times> Ctx" where
  "SetResponseContext c = setCurrent (\<lambda>tc. tc\<lparr>cuResContext := c\<rparr>)"

definition GetResponseContext :: "Ctx \<Rightarrow> strmap option \<times> bool" where
  "GetResponseContext = fromCurrent cuResContext None"

definition SetRequestStatus :: "strmap option \<Rightarrow> Ctx \<Rightarrow> bool \<times> Ctx" where
  "SetRequestStatus s = setCurrent (\<lambda>tc. tc\<lparr>cuReqStatus := s\<rparr>)"

definition GetRequestStatus :: "Ctx \<Rightarrow> strmap option \<times> bool" where
  "GetRequestStatus = fromCurrent cuReqStatus None"

definition SetRequestContext :: "strmap option \<Rightarrow> Ctx \<Rightarrow> bool \<times> Ctx" where
  "SetRequestContext c = setCurrent (\<lambda>tc. tc\<lparr>cuReqContext := c\<rparr>)"

definition GetRequestContext :: "Ctx \<Rightarrow> strmap option \<times> bool" where
  "GetRequestContext = fromCurrent cuReqContext None"

definition GetRecvPkgTsFromContext :: "Ctx \<Rightarrow> int64 \<times> bool" where
  "GetRecvPkgTsFromContext = fromCurrent cuRecvPkgTs 0"

definition SetRecvPkgTsFromContext :: "int64 \<Rightarrow> Ctx \<Rightarrow> bool \<times> Ctx" where
  "SetRecvPkgTsFromContext recvPkgTs = setCurrent (\<lambda>tc. tc\<lparr>cuRecvPkgTs := recvPkgTs\<rparr>)"

definition GetPacketTypeFromContext :: "Ctx \<Rightarrow> int8 \<times> bool" where
  "GetPacketTypeFromContext = fromCurrent cuPacketType 0"

definition SetPacketTypeFromContext :: "int8 \<Rightarrow> Ctx \<Rightarrow> bool \<times> Ctx" where
  "SetPacketTypeFromContext cPacketType = setCurrent (\<lambda>tc. tc\<lparr>cuPacketType := cPacketType\<rparr>)"

definition GetReqStatusValue :: "gostring \<Rightarrow> Ctx \<Rightarrow> gostring \<times> bool" where
  "GetReqStatusValue key ctx =
     (case GetRequestStatus ctx of
        (Some reqStatus, True) \<Rightarrow>
          (case map_of reqStatus key of Some v \<Rightarrow> (v, True) | None \<Rightarrow> ([], False))
      | (_, ok) \<Rightarrow> ([], ok))"

definition SetReqStatusValue :: "gostring \<Rightarrow> gostring \<Rightarrow> Ctx \<Rightarrow> bool \<times> Ctx" where
  "SetReqStatusValue key v ctx =
     (case GetRequestStatus ctx of
        (reqStatus, True) \<Rightarrow>
          SetRequestStatus (Some (AList.update key v (case reqStatus of None \<Rightarrow> [] | Some m \<Rightarrow> m))) ctx
      | (_, False) \<Rightarrow> (False, ctx))"

definition StatusDyedKey :: gostring where
  "StatusDyedKey = ascii ''STATUS_DYED_KEY''"

definition GetDyeingKey :: "Ctx \<Rightarrow> gostring \<times> bool" where
  "GetDyeingKey ctx =
     (case cxCurrent ctx of
        Some tc \<Rightarrow> (case cuReqStatus tc of
            Some m \<Rightarrow> (case map_of m StatusDyedKey of Some k \<Rightarrow> (k, True) | None \<Rightarrow> ([], False))
          | None \<Rightarrow> ([], False))
      | None \<Rightarrow> ([], False))"

definition SetDyeingKey :: "gostring \<Rightarrow> Ctx \<Rightarrow> bool \<times> Ctx" where
  "SetDyeingKey dyeingKey =
     setCurrent (\<lambda>tc. tc\<lparr>cuReqStatus := Some (AList.update StatusDyedKey dyeingKey
         (case cuReqStatus tc of None \<Rightarrow> [] | Some m \<Rightarrow> m)), cuNeedDyeing := True\<rparr>)"

definition GetDyeingUser :: "Ctx \<Rightarrow> gostring \<times> bool" where
  "GetDyeingUser = fromCurrent cuDyeingUser []"

definition SetDyeingUser :: "gostring \<Rightarrow> Ctx \<Rightarrow> bool \<times> Ctx" where
  "SetDyeingUser user = setCurrent (\<lambda>tc. tc\<lparr>cuDyeingUser := user\<rparr>)"

definition StatusTraceKey :: gostring where
  "StatusTraceKey = ascii ''STATUS_TRACE_KEY''"

definition SetTarsTrace :: "Trace \<Rightarrow> Ctx \<Rightarrow> bool \<times> Ctx" where
  "SetTarsTrace trace = setCurrent (\<lambda>tc. tc\<lparr>cuTrace := Some trace\<rparr>)"

definition GetTarsTrace :: "Ctx \<Rightarrow> Trace option \<times> bool" where
  "GetTarsTrace ctx =
     (case cxCurrent ctx of
        Some tc \<Rightarrow> (case cuTrace tc of Some t \<Rightarrow> (Some t, True) | None \<Rightarrow> (None, False))
      | None \<Rightarrow> (None, False))"

definition OpenTarsTrace :: "64 word \<Rightarrow> bytes \<Rightarrow> bool \<Rightarrow> Ctx \<Rightarrow> bool \<times> Ctx" where
  "OpenTarsTrace traceParamMaxLen tid traceParams =
     setCurrent (\<lambda>tc. tc\<lparr>cuTrace := Some (snd (OpenTrace traceParamMaxLen tid
       (if traceParams then 15 else 0) 0 Trace_New))\<rparr>)"

definition InitTarsTrace :: "64 word \<Rightarrow> gostring \<Rightarrow> Ctx \<Rightarrow> bool \<times> Ctx" where
  "InitTarsTrace traceParamMaxLen traceKey ctx =
     (case cxCurrent ctx of
        None \<Rightarrow> (False, ctx)
      | Some _ \<Rightarrow>
          (case InitTrace traceParamMaxLen traceKey Trace_New of
             (ok, trace) \<Rightarrow>
               if \<not> ok then (False, ctx) else SetTarsTrace (SetCall True trace) ctx))"

definition GetRawConn :: "Ctx \<Rightarrow> nat option \<times> nat option \<times> bool" where
  "GetRawConn ctx =
     (case cxCurrent ctx of Some tc \<Rightarrow> (cuRawConn tc, cuUdpAddr tc, True) | None \<Rightarrow> (None, None, False))"

definition SetRawConnWithContext :: "nat option \<Rightarrow> nat option \<Rightarrow> Ctx \<Rightarrow> bool \<times> Ctx" where
  "SetRawConnWithContext conn udpAddr =
     setCurrent (\<lambda>tc. tc\<lparr>cuRawConn := conn, cuUdpAddr := udpAddr\<rparr>)"

section \<open>The client's part\<close>

definition fromClient :: "(ClientCurrent \<Rightarrow> 'a) \<Rightarrow> 'a \<Rightarrow> Ctx \<Rightarrow> 'a \<times> bool" where
  "fromClient field zero ctx =
     (case cxClient ctx of Some cc \<Rightarrow> (field cc, True) | None \<Rightarrow> (zero, False))"

definition setClient :: "(ClientCurrent \<Rightarrow> ClientCurrent) \<Rightarrow> Ctx \<Rightarrow> bool \<times> Ctx" where
  "setClient upd ctx =
     (case cxClient ctx of Some cc \<Rightarrow> (True, ctx\<lparr>cxClient := Some (upd cc)\<rparr>) | None \<Rightarrow> (False, ctx))"

definition SetClientHash :: "int \<Rightarrow> uint32 \<Rightarrow> Ctx \<Rightarrow> bool \<times> Ctx" where
  "SetClientHash hashType hashCode =
     setClient (\<lambda>cc. cc\<lparr>ccIsHash := True, ccHashType := hashType, ccHashCode := hashCode\<rparr>)"

definition GetClientHash :: "Ctx \<Rightarrow> bool \<times> int \<times> uint32 \<times> bool" where
  "GetClientHash ctx =
     (case cxClient ctx of
        Some cc \<Rightarrow> (True, ccHashType cc, ccHashCode cc, ccIsHash cc)
      | None \<Rightarrow> (False, 0, 0, False))"

definition SetClientTimeout :: "int \<Rightarrow> Ctx \<Rightarrow> bool \<times> Ctx" where
  "SetClientTimeout timeout = setClient (\<lambda>cc. cc\<lparr>ccIsTimeout := True, ccTimeout := timeout\<rparr>)"

definition GetClientTimeout :: "Ctx \<Rightarrow> bool \<times> int \<times> bool" where
  "GetClientTimeout ctx =
     (case cxClient ctx of
        Some cc \<Rightarrow> (True, ccTimeout cc, ccIsTimeout cc)
      | None \<Rightarrow> (False, 0, False))"

definition GetServerIPFromContext :: "Ctx \<Rightarrow> gostring \<times> bool" where
  "GetServerIPFromContext = fromClient ccServerIP []"

definition SetServerIPWithContext :: "gostring \<Rightarrow> Ctx \<Rightarrow> bool \<times> Ctx" where
  "SetServerIPWithContext ip = setClient (\<lambda>cc. cc\<lparr>ccServerIP := ip\<rparr>)"

definition GetServerPortFromContext :: "Ctx \<Rightarrow> gostring \<times> bool" where
  "GetServerPortFromContext = fromClient ccServerPort []"

definition SetServerPortWithContext :: "gostring \<Rightarrow> Ctx \<Rightarrow> bool \<times> Ctx" where
  "SetServerPortWithContext port = setClient (\<lambda>cc. cc\<lparr>ccServerPort := port\<rparr>)"

section \<open>Fields\<close>

text \<open>The contract of a field of a context: setting it succeeds exactly when it can be read, it then
  reads as the value set, a failed setting changes nothing, and the last setting counts.\<close>

locale context_field =
  fixes get :: "Ctx \<Rightarrow> 'a \<times> bool" and put :: "'a \<Rightarrow> Ctx \<Rightarrow> bool \<times> Ctx"
  assumes put_ok: "fst (put v c) \<longleftrightarrow> snd (get c)"
    and get_put: "fst (put v c) \<Longrightarrow> get (snd (put v c)) = (v, True)"
    and put_fails: "\<not> fst (put v c) \<Longrightarrow> snd (put v c) = c"
    and put_put: "put w (snd (put v c)) = put w c"
begin

lemma get_put_fst: "snd (get c) \<Longrightarrow> fst (get (snd (put v c))) = v"
  using get_put [of v c] put_ok [of v c] by simp

lemma put_keeps_ok: "snd (get (snd (put v c))) = snd (get c)"
  using get_put [of v c] put_ok [of v c] put_fails [of v c] by (cases "fst (put v c)") auto

text \<open>After any number of settings the field reads as the last.\<close>

lemma last_put:
  assumes "snd (get c)"
  shows "get (foldl (\<lambda>c v. snd (put v c)) c (vs @ [v])) = (v, True)"
proof -
  have "snd (get (foldl (\<lambda>c v. snd (put v c)) c vs))"
    using assms by (induction vs arbitrary: c) (simp_all add: put_keeps_ok)
  then show ?thesis
    using get_put [of v "foldl (\<lambda>c v. snd (put v c)) c vs"] put_ok by simp
qed

end

lemmas context_defs = fromCurrent_def setCurrent_def fromClient_def setClient_def

interpretation client_ip: context_field GetClientIPFromContext SetClientIPWithContext
  by unfold_locales (auto simp: GetClientIPFromContext_def SetClientIPWithContext_def context_defs
      split: option.splits)

interpretation client_port: context_field GetClientPortFromContext SetClientPortWithContext
  by unfold_locales (auto simp: GetClientPortFromContext_def SetClientPortWithContext_def context_defs
      split: option.splits)

interpretation response_status: context_field GetResponseStatus SetResponseStatus
  by unfold_locales (auto simp: GetResponseStatus_def SetResponseStatus_def context_defs
      split: option.splits)

interpretation response_context: context_field GetResponseContext SetResponseContext
  by unfold_locales (auto simp: GetResponseContext_def SetResponseContext_def context_defs
      split: option.splits)

interpretation request_status: context_field GetRequestStatus SetRequestStatus
  by unfold_locales (auto simp: GetRequestStatus_def SetRequestStatus_def context_defs
      split: option.splits)

interpretation request_context: context_field GetRequestContext SetRequestContext
  by unfold_locales (auto simp: GetRequestContext_def SetRequestContext_def context_defs
      split: option.splits)

interpretation recv_ts: context_field GetRecvPkgTsFromContext SetRecvPkgTsFromContext
  by unfold_locales (auto simp: GetRecvPkgTsFromContext_def SetRecvPkgTsFromContext_def context_defs
      split: option.splits)

interpretation packet_type: context_field GetPacketTypeFromContext SetPacketTypeFromContext
  by unfold_locales (auto simp: GetPacketTypeFromContext_def SetPacketTypeFromContext_def context_defs
      split: option.splits)

interpretation dyeing_user: context_field GetDyeingUser SetDyeingUser
  by unfold_locales (auto simp: GetDyeingUser_def SetDyeingUser_def context_defs split: option.splits)

interpretation server_ip: context_field GetServerIPFromContext SetServerIPWithContext
  by unfold_locales (auto simp: GetServerIPFromContext_def SetServerIPWithContext_def context_defs
      split: option.splits)

interpretation server_port: context_field GetServerPortFromContext SetServerPortWithContext
  by unfold_locales (auto simp: GetServerPortFromContext_def SetServerPortWithContext_def context_defs
      split: option.splits)

lemma setCurrent_keeps [simp]: "cxCurrent (snd (setCurrent f ctx)) = None \<longleftrightarrow> cxCurrent ctx = None"
  by (simp add: setCurrent_def split: option.splits)

text \<open>The dyeing key is read back, and a status value too unless there is no current.\<close>

lemma dyeing_round_trip: "SetDyeingKey k ctx = (True, ctx') \<Longrightarrow> GetDyeingKey ctx' = (k, True)"
  by (auto simp: SetDyeingKey_def GetDyeingKey_def setCurrent_def update_conv split: option.splits)

lemma status_value_round_trip:
  "SetReqStatusValue k v ctx = (True, ctx') \<Longrightarrow> GetReqStatusValue k ctx' = (v, True)"
  by (auto simp: SetReqStatusValue_def GetReqStatusValue_def SetRequestStatus_def GetRequestStatus_def
      context_defs update_conv split: option.splits)

end
