(* ===== verification/Filters.thy ===== *)
theory Filters
  imports Current
begin

text \<open>
  Errors of a call, \<^verbatim>\<open>tars/errors.go\<close>, and the filters that wrap calls at the server and at
  the client, \<^verbatim>\<open>tars/filter.go\<close>. What a dispatcher or an invocation reads and changes is a
  state that it is given and returns, so a filter is a function from callees to callees and a
  middleware a function from filters to filters. A panic ends the process (\<^verbatim>\<open>tars/panic.go\<close>) and
  is an \<open>Inl\<close>.
\<close>

section \<open>Errors\<close>

text \<open>An error is a \<^verbatim>\<open>*Error\<close> of the package or any other, of which only its text is known.\<close>

datatype goError = RpcError int32 gostring | PlainError gostring

fun goError_Error :: "goError \<Rightarrow> gostring" where
  "goError_Error (RpcError code msg) = msg"
| "goError_Error (PlainError msg) = msg"

definition GetErrorCode :: "goError option \<Rightarrow> int32" where
  "GetErrorCode err =
     (case err of None \<Rightarrow> 0 | Some (RpcError code _) \<Rightarrow> code | Some (PlainError _) \<Rightarrow> 1)"

section \<open>Filters\<close>

text \<open>\<open>'a\<close> are the values a callee is passed, \<open>'s\<close> what it reads and changes.\<close>

type_synonym ('a, 's) callee = "'a \<Rightarrow> 's \<Rightarrow> gerr + goError option \<times> 's"
type_synonym ('a, 's) callFilter = "('a, 's) callee \<Rightarrow> ('a, 's) callee"
type_synonym ('a, 's) middleware = "('a, 's) callFilter \<Rightarrow> ('a, 's) callFilter"

text \<open>At the server a callee, \<^verbatim>\<open>Dispatch\<close>, is passed the implementation and the flag
  \<^verbatim>\<open>withContext\<close>, and works on the context, the two packets and the world \<open>'w\<close> around it; at the
  client a callee, \<^verbatim>\<open>Invoke\<close>, is passed the timeout.\<close>

record 'w inv =
  ivCtx :: Ctx
  ivReq :: RequestPacket
  ivRsp :: ResponsePacket
  ivWorld :: 'w

type_synonym ('f, 'w) Dispatch = "('f \<times> bool, 'w inv) callee"
type_synonym ('f, 'w) ServerFilter = "('f \<times> bool, 'w inv) callFilter"
type_synonym 'm ClientFilter = "(int, 'm) callFilter"

record ('f, 'w, 'm) filters =
  flCf :: "'m ClientFilter option"
  flPreCfs :: "'m ClientFilter list"
  flPostCfs :: "'m ClientFilter list"
  flCfms :: "(int, 'm) middleware list"
  flSf :: "('f, 'w) ServerFilter option"
  flPreSfs :: "('f, 'w) ServerFilter list"
  flPostSfs :: "('f, 'w) ServerFilter list"
  flSfms :: "('f \<times> bool, 'w inv) middleware list"

definition no_filters :: "('f, 'w, 'm) filters" where
  "no_filters = \<lparr>flCf = None, flPreCfs = [], flPostCfs = [], flCfms = [],
     flSf = None, flPreSfs = [], flPostSfs = [], flSfms = []\<rparr>"

definition registerClientFilter :: "'m ClientFilter option \<Rightarrow> ('f, 'w, 'm) filters \<Rightarrow> ('f, 'w, 'm) filters" where
  "registerClientFilter cf f = f\<lparr>flCf := cf\<rparr>"

definition registerPreClientFilter :: "'m ClientFilter \<Rightarrow> ('f, 'w, 'm) filters \<Rightarrow> ('f, 'w, 'm) filters" where
  "registerPreClientFilter cf f = f\<lparr>flPreCfs := flPreCfs f @ [cf]\<rparr>"

definition registerPostClientFilter :: "'m ClientFilter \<Rightarrow> ('f, 'w, 'm) filters \<Rightarrow> ('f, 'w, 'm) filters" where
  "registerPostClientFilter cf f = f\<lparr>flPostCfs := flPostCfs f @ [cf]\<rparr>"

definition registerServerFilter :: "('f, 'w) ServerFilter option \<Rightarrow> ('f, 'w, 'm) filters \<Rightarrow> ('f, 'w, 'm) filters" where
  "registerServerFilter sf f = f\<lparr>flSf := sf\<rparr>"

definition registerPreServerFilter :: "('f, 'w) ServerFilter \<Rightarrow> ('f, 'w, 'm) filters \<Rightarrow> ('f, 'w, 'm) filters" where
  "registerPreServerFilter sf f = f\<lparr>flPreSfs := flPreSfs f @ [sf]\<rparr>"

definition registerPostServerFilter :: "('f, 'w) ServerFilter \<Rightarrow> ('f, 'w, 'm) filters \<Rightarrow> ('f, 'w, 'm) filters" where
  "registerPostServerFilter sf f = f\<lparr>flPostSfs := flPostSfs f @ [sf]\<rparr>"

definition UseClientFilterMiddleware :: "(int, 'm) middleware list \<Rightarrow> ('f, 'w, 'm) filters \<Rightarrow> ('f, 'w, 'm) filters" where
  "UseClientFilterMiddleware cfm f = f\<lparr>flCfms := flCfms f @ cfm\<rparr>"

definition UseServerFilterMiddleware ::
    "('f \<times> bool, 'w inv) middleware list \<Rightarrow> ('f, 'w, 'm) filters \<Rightarrow> ('f, 'w, 'm) filters" where
  "UseServerFilterMiddleware sfm f = f\<lparr>flSfms := flSfms f @ sfm\<rparr>"

text \<open>The loop that wraps the filter, from the last index down: \<open>i\<close> middlewares are still to do.\<close>

fun wrapDown :: "('a, 's) middleware list \<Rightarrow> nat \<Rightarrow> ('a, 's) callFilter \<Rightarrow> ('a, 's) callFilter" where
  "wrapDown ms 0 cf = cf"
| "wrapDown ms (Suc i) cf = wrapDown ms i ((ms ! i) cf)"

definition getMiddlewareClientFilter :: "('f, 'w, 'm) filters \<Rightarrow> 'm ClientFilter option" where
  "getMiddlewareClientFilter f =
     (if length (flCfms f) \<le> 0 then None
      else Some (wrapDown (flCfms f) (length (flCfms f)) (\<lambda>invoke timeout msg. invoke timeout msg)))"

definition getMiddlewareServerFilter :: "('f, 'w, 'm) filters \<Rightarrow> ('f, 'w) ServerFilter option" where
  "getMiddlewareServerFilter f =
     (if length (flSfms f) \<le> 0 then None
      else Some (wrapDown (flSfms f) (length (flSfms f)) (\<lambda>d x s. d x s)))"

section \<open>Chains of middlewares\<close>

lemma wrapDown_append: "i \<le> length ms \<Longrightarrow> wrapDown (ms @ ns) i cf = wrapDown ms i cf"
  by (induction i arbitrary: cf) (auto simp: nth_append)

lemma wrapDown_all: "wrapDown ms (length ms) cf = foldr (\<lambda>m. m) ms cf"
  by (induction ms arbitrary: cf rule: rev_induct) (auto simp: wrapDown_append nth_append)

text \<open>A middleware that runs one step before the callee and one after it, in any case but a panic.
  What the steps do is theirs: \<open>before\<close> and \<open>after\<close> change the state, and \<open>after\<close> sees the error.\<close>

definition around :: "('s \<Rightarrow> 's) \<Rightarrow> (goError option \<Rightarrow> 's \<Rightarrow> 's) \<Rightarrow> ('a, 's) middleware" where
  "around before after = (\<lambda>filt d x s.
     case filt d x (before s) of Inl e \<Rightarrow> Inl e | Inr (err, s) \<Rightarrow> Inr (err, after err s))"

text \<open>A middleware that answers by itself and never calls the next filter.\<close>

definition shortcut :: "(('a, 's) callee) \<Rightarrow> ('a, 's) middleware" where
  "shortcut answer = (\<lambda>filt d x s. answer x s)"

text \<open>The contract of a registry of middlewares: using a list of them appends, a registry with none has
  no filter, and one with some has the filter in which the first registered is outermost.\<close>

locale middleware_chain =
  fixes registered :: "'r \<Rightarrow> ('a, 's) middleware list"
    and using_all :: "('a, 's) middleware list \<Rightarrow> 'r \<Rightarrow> 'r"
    and chain :: "'r \<Rightarrow> ('a, 's) callFilter option"
  assumes registered_using: "registered (using_all ms r) = registered r @ ms"
    and chain_none: "registered r = [] \<Longrightarrow> chain r = None"
    and chain_some: "registered r \<noteq> [] \<Longrightarrow> chain r = Some (foldr (\<lambda>m. m) (registered r) (\<lambda>d. d))"
begin

lemma chain_None_iff: "chain r = None \<longleftrightarrow> registered r = []"
  using chain_none chain_some by (cases "registered r = []") auto

lemma using_twice:
  assumes "ms @ ns \<noteq> []"
  shows "chain (using_all ns (using_all ms r)) = chain (using_all (ms @ ns) r)"
  using assms by (simp add: registered_using chain_some)

lemma foldr_around:
  "foldr (\<lambda>m. m) (map (\<lambda>(b, a). around b a) ps) filt d x s =
     (case filt d x (fold fst ps s) of
        Inl e \<Rightarrow> Inl e | Inr (err, s) \<Rightarrow> Inr (err, foldr (\<lambda>p. snd p err) ps s))"
  by (induction ps arbitrary: s) (auto simp: around_def split: sum.splits)

text \<open>The steps before the callee run in the order of registration and those after it in the reverse
  order.\<close>

lemma onion:
  assumes "registered r = []" and "ps \<noteq> []"
    and "chain (using_all (map (\<lambda>(b, a). around b a) ps) r) = Some filt"
  shows "filt d x s =
    (case d x (fold fst ps s) of
       Inl e \<Rightarrow> Inl e | Inr (err, s) \<Rightarrow> Inr (err, foldr (\<lambda>p. snd p err) ps s))"
proof -
  have "registered (using_all (map (\<lambda>(b, a). around b a) ps) r) = map (\<lambda>(b, a). around b a) ps"
    using assms(1) by (simp add: registered_using)
  with assms(2,3) have "filt = foldr (\<lambda>m. m) (map (\<lambda>(b, a). around b a) ps) (\<lambda>d. d)"
    by (auto simp: chain_some)
  then show ?thesis
    by (simp add: foldr_around)
qed

text \<open>A middleware that answers by itself hides the callee and everything registered after it, while
  what was registered before it still wraps its answer.\<close>

lemma rejects:
  assumes "registered r = map (\<lambda>(b, a). around b a) ps @ shortcut answer # ms"
    and "chain r = Some filt"
  shows "filt d x s =
    (case answer x (fold fst ps s) of
       Inl e \<Rightarrow> Inl e | Inr (err, s) \<Rightarrow> Inr (err, foldr (\<lambda>p. snd p err) ps s))"
proof -
  have "filt = foldr (\<lambda>m. m) (map (\<lambda>(b, a). around b a) ps) (shortcut answer (foldr (\<lambda>m. m) ms (\<lambda>d. d)))"
    using assms chain_some [of r] by auto
  then show ?thesis
    by (simp add: foldr_around shortcut_def)
qed

end

interpretation server_chain: middleware_chain flSfms UseServerFilterMiddleware getMiddlewareServerFilter
  by unfold_locales
    (simp_all add: UseServerFilterMiddleware_def getMiddlewareServerFilter_def wrapDown_all)

interpretation client_chain: middleware_chain flCfms UseClientFilterMiddleware getMiddlewareClientFilter
  by unfold_locales
    (simp_all add: UseClientFilterMiddleware_def getMiddlewareClientFilter_def wrapDown_all)

end
