(* ===== verification/Endpoint_Manager.thy ===== *)
theory Endpoint_Manager
  imports Adapter Endpoint_Parse Hash_Ring Filters "HOL-Library.List_Lexorder"
begin

text \<open>
  The endpoints of a servant at the client, \<^verbatim>\<open>endpointManager\<close> of \<^verbatim>\<open>tars/endpointmanager.go\<close>: the
  list the registry gives, the selectors built from it, the adapters made for endpoints on demand, and
  the channel of blocked adapters that are to be probed. Adapters are shared by pointer and live in a
  store; \<open>emEpList\<close>, \<open>emCheckAdapterList\<close> and the channel hold their places in it. The registry's answers,
  random numbers, the clock and \<^verbatim>\<open>md5\<close> are arguments. Locks make the operations atomic.
\<close>

section \<open>Outcomes\<close>

text \<open>An operation returns, ends the process in a panic, or waits on a full channel.\<close>

datatype 'a run = Done 'a | Crashed gerr | Blocked

fun bindRun :: "'a run \<Rightarrow> ('a \<Rightarrow> 'b run) \<Rightarrow> 'b run" where
  "bindRun (Done a) f = f a"
| "bindRun (Crashed e) f = Crashed e"
| "bindRun Blocked f = Blocked"

text \<open>Errors of the selectors are ignored, panics are not.\<close>

definition ignoring :: "selErr option \<times> 's \<Rightarrow> 's run" where
  "ignoring r = (case r of (Some (SelPanic e), _) \<Rightarrow> Crashed e | (_, s) \<Rightarrow> Done s)"

lemma bindRun_Done: "bindRun r f = Done b \<longleftrightarrow> (\<exists>a. r = Done a \<and> f a = Done b)"
  by (cases r) auto

section \<open>Order of endpoints\<close>

text \<open>\<^verbatim>\<open>crc32.ChecksumIEEE\<close>.\<close>

fun crcBits :: "nat \<Rightarrow> uint32 \<Rightarrow> uint32" where
  "crcBits 0 c = c"
| "crcBits (Suc k) c = crcBits k (if c AND 1 \<noteq> 0 then drop_bit 1 c XOR 0xEDB88320 else drop_bit 1 c)"

definition ChecksumIEEE :: "bytes \<Rightarrow> uint32" where
  "ChecksumIEEE data = NOT (foldl (\<lambda>c b. crcBits 8 (c XOR ucast b)) (NOT 0) data)"

text \<open>\<^verbatim>\<open>sort.Slice\<close> leaves the order of equal elements open; here it is the order before.\<close>

definition sortByCrc :: "Endpoint list \<Rightarrow> Endpoint list" where
  "sortByCrc eps = sort_key (\<lambda>ep. ChecksumIEEE (epKey ep)) eps"

definition sortByHost :: "EndpointF list \<Rightarrow> EndpointF list" where
  "sortByHost eps = sort_key efHost eps"

section \<open>State\<close>

record selectorSet =
  seRoundRobin :: RoundRobin
  seConHash :: ConsistentHash
  seModHash :: table

text \<open>\<open>emSelectors\<close> are three pointers that are set together, \<open>None\<close> when they are nil;
  \<open>emCheckAdapter\<close> is a channel of capacity 1000, \<open>None\<close> when it is nil.\<close>

record endpointManager =
  emObjName :: gostring
  emDirectProxy :: bool
  emAdps :: "AdapterProxy list"
  emEpList :: "(gostring \<times> nat) list"
  emActiveEp :: "Endpoint list"
  emActiveEpf :: "EndpointF list"
  emInactiveEpf :: "EndpointF list"
  emCheckAdapterList :: "(gostring \<times> nat) list"
  emCheckAdapter :: "nat list option"
  emWeightType :: int32
  emSelectors :: "selectorSet option"
  emLastInvoke :: int
  emInvokeNum :: int32

definition em_enableWeight :: "endpointManager \<Rightarrow> bool" where
  "em_enableWeight e \<longleftrightarrow> emWeightType e = EStaticWeight"

text \<open>The loop that compares weight types: one type for all, or \<^verbatim>\<open>ELoop\<close>.\<close>

definition commonWeightType :: "Endpoint list \<Rightarrow> int32" where
  "commonWeightType eps =
     (if list_all (\<lambda>ep. epWeightType ep = epWeightType (hd eps)) eps then epWeightType (hd eps) else ELoop)"

definition firstUpdateActiveEp ::
    "(bytes \<Rightarrow> bytes) \<Rightarrow> (nat \<Rightarrow> nat) \<Rightarrow> Endpoint list \<Rightarrow> endpointManager \<Rightarrow> endpointManager run" where
  "firstUpdateActiveEp md5 intn eps e =
     (if length eps = 0 then Done e
      else
        let e = e\<lparr>emWeightType := commonWeightType eps\<rparr>;
            sortedEps = sortByCrc eps
        in bindRun (ignoring (RoundRobin_Refresh intn sortedEps (RoundRobin_New (em_enableWeight e)))) (\<lambda>rr.
           let ch = ConsistentHash_Refresh md5 sortedEps (ConsistentHash_New (em_enableWeight e) KetamaHash) in
           bindRun (ignoring (ModHash_Refresh sortedEps (ModHash_New (em_enableWeight e)))) (\<lambda>mh.
           Done (e\<lparr>emActiveEp := sortedEps,
             emSelectors := Some \<lparr>seRoundRobin = rr, seConHash = ch, seModHash = mh\<rparr>\<rparr>))))"

definition blankManager :: "gostring \<Rightarrow> bool \<Rightarrow> endpointManager" where
  "blankManager objName direct = \<lparr>emObjName = objName, emDirectProxy = direct, emAdps = [], emEpList = [],
     emActiveEp = [], emActiveEpf = [], emInactiveEpf = [], emCheckAdapterList = [],
     emCheckAdapter = (if direct then None else Some []), emWeightType = 0, emSelectors = None,
     emLastInvoke = 0, emInvokeNum = 0\<rparr>"

text \<open>64 is the at sign, 58 the colon. The name is not empty.\<close>

fun parseAll :: "gostring list \<Rightarrow> Endpoint list run" where
  "parseAll [] = Done []"
| "parseAll (s # ss) =
     (case endpoint_Parse s of
        Inl err \<Rightarrow> Crashed err
      | Inr ep \<Rightarrow> bindRun (parseAll ss) (\<lambda>eps. Done (ep # eps)))"

definition newTarsEndpointManager ::
    "(bytes \<Rightarrow> bytes) \<Rightarrow> (nat \<Rightarrow> nat) \<Rightarrow> gostring \<Rightarrow> endpointManager run" where
  "newTarsEndpointManager md5 intn objName =
     (case strings_Index objName 64 of
        Some (Suc pos) \<Rightarrow>
          bindRun (parseAll (strings_Split (drop (Suc (Suc pos)) objName) 58)) (\<lambda>eps.
            firstUpdateActiveEp md5 intn eps (blankManager (take (Suc pos) objName) True))
      | _ \<Rightarrow> Done (blankManager objName False))"

section \<open>Refreshing\<close>

text \<open>\<^verbatim>\<open>epList.Range\<close> in \<^verbatim>\<open>findAndSetObj\<close>: adapters of endpoints that are gone are closed and forgotten.\<close>

definition dropUseless :: "gostring set \<Rightarrow> endpointManager \<Rightarrow> endpointManager" where
  "dropUseless keep e =
     e\<lparr>emAdps := fold (\<lambda>(key, i) adps. if key \<in> keep then adps else adps[i := adp_Close (adps ! i)])
         (emEpList e) (emAdps e),
       emEpList := filter (\<lambda>(key, i). key \<in> keep) (emEpList e)\<rparr>"

definition healthy :: "endpointManager \<Rightarrow> Endpoint \<Rightarrow> bool" where
  "healthy e ep = (case map_of (emEpList e) (epKey ep) of Some i \<Rightarrow> apStatus (emAdps e ! i) | None \<Rightarrow> True)"

text \<open>The part of \<^verbatim>\<open>findAndSetObj\<close> that installs a new list of active endpoints, with new selectors:
  first what it does to the adapters and the weight type, then the endpoints that are healthy.
  \<open>rnd k\<close> are the random numbers of the \<open>k\<close>-th refresh of the round robin.\<close>

definition keepUseful :: "EndpointF list \<Rightarrow> EndpointF list \<Rightarrow> endpointManager \<Rightarrow> endpointManager" where
  "keepUseful activeEp inactiveEp e =
     (let newEps = map Tars2endpoint activeEp;
          e = dropUseless (set (map epKey newEps) \<union> set (map (epKey \<circ> Tars2endpoint) inactiveEp)) e
      in e\<lparr>emWeightType := commonWeightType newEps\<rparr>)"

definition liveEps :: "EndpointF list \<Rightarrow> endpointManager \<Rightarrow> Endpoint list" where
  "liveEps activeEp e = sortByCrc (filter (healthy e) (map Tars2endpoint activeEp))"

definition setObj ::
    "(bytes \<Rightarrow> bytes) \<Rightarrow> (nat \<Rightarrow> nat \<Rightarrow> nat) \<Rightarrow> EndpointF list \<Rightarrow> EndpointF list
       \<Rightarrow> endpointManager \<Rightarrow> endpointManager run" where
  "setObj md5 rnd activeEp inactiveEp e =
     (let e = keepUseful activeEp inactiveEp e;
          sortedEps = liveEps activeEp e
      in bindRun (ignoring (RoundRobin_Refresh (rnd 0) sortedEps (RoundRobin_New (em_enableWeight e)))) (\<lambda>rr.
         let ch = ConsistentHash_Refresh md5 sortedEps (ConsistentHash_New (em_enableWeight e) KetamaHash);
             mh = ModHash_New (em_enableWeight e) in
         bindRun (ignoring (RoundRobin_Refresh (rnd 1) sortedEps rr)) (\<lambda>rr.
         Done (e\<lparr>emActiveEpf := activeEp, emInactiveEpf := inactiveEp, emActiveEp := sortedEps,
           emSelectors := Some \<lparr>seRoundRobin = rr, seConHash = ch, seModHash = mh\<rparr>\<rparr>))))"

text \<open>The answer of the registry is an error, or a return code with the active and inactive endpoints.\<close>

definition findAndSetObj ::
    "(bytes \<Rightarrow> bytes) \<Rightarrow> (nat \<Rightarrow> nat \<Rightarrow> nat) \<Rightarrow> goError + int32 \<times> EndpointF list \<times> EndpointF list
       \<Rightarrow> endpointManager \<Rightarrow> (goError option \<times> endpointManager) run" where
  "findAndSetObj md5 rnd answer e =
     (case answer of
        Inl err \<Rightarrow> Done (Some err, e)
      | Inr (ret, activeEp, inactiveEp) \<Rightarrow>
          if ret \<noteq> 0
          then Done (Some (PlainError (ascii ''findAndSetObj '' @ emObjName e @ ascii '' fail, ret: ''
                 @ fmt_d (sint ret))), e)
          else
            let activeEp = sortByHost activeEp in
            if activeEp = emActiveEpf e \<or> length activeEp = 0 then Done (None, e)
            else bindRun (setObj md5 rnd activeEp inactiveEp e) (\<lambda>e. Done (None, e)))"

definition doFresh ::
    "(bytes \<Rightarrow> bytes) \<Rightarrow> (nat \<Rightarrow> nat \<Rightarrow> nat) \<Rightarrow> goError + int32 \<times> EndpointF list \<times> EndpointF list
       \<Rightarrow> endpointManager \<Rightarrow> (goError option \<times> endpointManager) run" where
  "doFresh md5 rnd answer e =
     (if emDirectProxy e then Done (None, e) else findAndSetObj md5 rnd answer e)"

text \<open>The fallback of \<^verbatim>\<open>GetManager\<close> when the first refresh fails: the endpoints of the cache file.\<close>

definition fromCache ::
    "(bytes \<Rightarrow> bytes) \<Rightarrow> (nat \<Rightarrow> nat) \<Rightarrow> EndpointF list \<Rightarrow> endpointManager \<Rightarrow> endpointManager run" where
  "fromCache md5 intn cached e =
     (let e = e\<lparr>emActiveEpf := cached\<rparr>
      in firstUpdateActiveEp md5 intn (map Tars2endpoint (emActiveEpf e)) e)"

section \<open>Checking\<close>

text \<open>What the check of one adapter finds: whether the proxy's queue is full, whether the ping is sent,
  and whether the connection is made.\<close>

record checkEnv =
  keQueueFull :: bool
  keSent :: bool
  keConnected :: bool

definition withSelectors :: "endpointManager \<Rightarrow> (selectorSet \<Rightarrow> 'a run) \<Rightarrow> 'a run" where
  "withSelectors e f =
     (case emSelectors e of
        None \<Rightarrow> Crashed (Panic ''invalid memory address or nil pointer dereference'')
      | Some ss \<Rightarrow> f ss)"

text \<open>After the first failed check: the endpoint leaves the active list and the selectors.\<close>

definition dropEndpoint ::
    "(bytes \<Rightarrow> bytes) \<Rightarrow> (nat \<Rightarrow> nat) \<Rightarrow> Endpoint \<Rightarrow> endpointManager \<Rightarrow> endpointManager run" where
  "dropEndpoint md5 intn ep e =
     (let e = e\<lparr>emActiveEp := remove1 ep (emActiveEp e)\<rparr> in
      withSelectors e (\<lambda>ss.
        bindRun (ignoring (RoundRobin_Remove intn ep (seRoundRobin ss))) (\<lambda>rr.
        bindRun (ignoring (ConsistentHash_Remove md5 ep (seConHash ss))) (\<lambda>ch.
        bindRun (ignoring (ModHash_Remove ep (seModHash ss))) (\<lambda>mh.
        Done (e\<lparr>emSelectors := Some \<lparr>seRoundRobin = rr, seConHash = ch, seModHash = mh\<rparr>\<rparr>))))))"

text \<open>A blocked adapter that is to be probed goes to the channel, once.\<close>

definition queueCheck :: "gostring \<Rightarrow> nat \<Rightarrow> endpointManager \<Rightarrow> endpointManager run" where
  "queueCheck key i e =
     (if map_of (emCheckAdapterList e) key \<noteq> None then Done e
      else
        let e = e\<lparr>emCheckAdapterList := AList.update key i (emCheckAdapterList e)\<rparr> in
        (case emCheckAdapter e of
           None \<Rightarrow> Blocked
         | Some q \<Rightarrow> if length q < 1000 then Done (e\<lparr>emCheckAdapter := Some (q @ [i])\<rparr>) else Blocked))"

definition checkEndpoint ::
    "(bytes \<Rightarrow> bytes) \<Rightarrow> (nat \<Rightarrow> nat) \<Rightarrow> int \<Rightarrow> int \<Rightarrow> (nat \<Rightarrow> checkEnv) \<Rightarrow> EndpointF
       \<Rightarrow> endpointManager \<Rightarrow> endpointManager run" where
  "checkEndpoint md5 intn keepAliveInterval now env ef e =
     (let ep = Tars2endpoint ef in
      case map_of (emEpList e) (epKey ep) of
        None \<Rightarrow> Done e
      | Some i \<Rightarrow>
          let adp = emAdps e ! i;
              adp = (if keepAliveInterval > 0
                     then doKeepAlive keepAliveInterval (keQueueFull (env i)) now (keSent (env i)) adp else adp)
          in (case checkActive now (keConnected (env i)) adp of
                ((firstTime, needCheck), adp) \<Rightarrow>
                  let e = e\<lparr>emAdps := (emAdps e)[i := adp]\<rparr> in
                  bindRun (if firstTime then dropEndpoint md5 intn ep e else Done e) (\<lambda>e.
                  if needCheck then queueCheck (epKey ep) i e else Done e)))"

fun checkAll ::
    "(bytes \<Rightarrow> bytes) \<Rightarrow> (nat \<Rightarrow> nat) \<Rightarrow> int \<Rightarrow> int \<Rightarrow> (nat \<Rightarrow> checkEnv) \<Rightarrow> EndpointF list
       \<Rightarrow> endpointManager \<Rightarrow> endpointManager run" where
  "checkAll md5 intn ka now env [] e = Done e"
| "checkAll md5 intn ka now env (ef # efs) e =
     bindRun (checkEndpoint md5 intn ka now env ef e) (checkAll md5 intn ka now env efs)"

definition checkStatus ::
    "(bytes \<Rightarrow> bytes) \<Rightarrow> (nat \<Rightarrow> nat) \<Rightarrow> int \<Rightarrow> int \<Rightarrow> (nat \<Rightarrow> checkEnv) \<Rightarrow> endpointManager \<Rightarrow> endpointManager run" where
  "checkStatus md5 intn ka now env e = checkAll md5 intn ka now env (emActiveEpf e) e"

text \<open>After an answered probe: the adapter is reset and its endpoint is active again.\<close>

definition addAliveEp ::
    "(bytes \<Rightarrow> bytes) \<Rightarrow> (nat \<Rightarrow> nat) \<Rightarrow> Endpoint \<Rightarrow> endpointManager \<Rightarrow> endpointManager run" where
  "addAliveEp md5 intn ep e =
     (let e = e\<lparr>emActiveEp := sortByCrc (emActiveEp e @ [ep])\<rparr> in
      withSelectors e (\<lambda>ss.
        bindRun (ignoring (RoundRobin_Add intn ep (seRoundRobin ss))) (\<lambda>rr.
        bindRun (ignoring (ConsistentHash_Add md5 ep (seConHash ss))) (\<lambda>ch.
        bindRun (ignoring (ModHash_Add ep (seModHash ss))) (\<lambda>mh.
        Done (e\<lparr>emSelectors := Some \<lparr>seRoundRobin = rr, seConHash = ch, seModHash = mh\<rparr>\<rparr>))))))"

definition probeAnswered :: "(bytes \<Rightarrow> bytes) \<Rightarrow> (nat \<Rightarrow> nat) \<Rightarrow> int \<Rightarrow> nat \<Rightarrow> endpointManager \<Rightarrow> endpointManager run" where
  "probeAnswered md5 intn now i e =
     (let adp = adp_reset now (emAdps e ! i)
      in addAliveEp md5 intn (Tars2endpoint (apPoint adp)) (e\<lparr>emAdps := (emAdps e)[i := adp]\<rparr>))"

section \<open>Selecting\<close>

record Message =
  mgReq :: RequestPacket
  mgResp :: "ResponsePacket option"
  mgBeginTime :: int64
  mgEndTime :: int64
  mgStatus :: int32
  mgHashCode :: uint32
  mgHashType :: int
  mgIsHash :: bool

definition hashMod :: int where "hashMod = 0"
definition hashConsistent :: int where "hashConsistent = 1"

definition selectEndpoint :: "Message \<Rightarrow> selectorSet \<Rightarrow> (selErr + Endpoint) \<times> selectorSet" where
  "selectEndpoint msg ss =
     (if mgIsHash msg \<and> mgHashType msg = hashConsistent
      then (ConsistentHash_Select (mgHashCode msg) (seConHash ss), ss)
      else if mgIsHash msg \<and> mgHashType msg = hashMod
      then (case ModHash_Select (mgHashCode msg) (seModHash ss) of (r, mh) \<Rightarrow> (r, ss\<lparr>seModHash := mh\<rparr>))
      else (case RoundRobin_Select () (seRoundRobin ss) of (r, rr) \<Rightarrow> (r, ss\<lparr>seRoundRobin := rr\<rparr>)))"

text \<open>The adapter of a key, made when there is none.\<close>

definition adapterFor :: "gostring \<Rightarrow> EndpointF \<Rightarrow> endpointManager \<Rightarrow> nat \<times> endpointManager" where
  "adapterFor key epf e =
     (case map_of (emEpList e) key of
        Some i \<Rightarrow> (i, e)
      | None \<Rightarrow> (length (emAdps e), e\<lparr>emAdps := emAdps e @ [NewAdapterProxy epf],
          emEpList := AList.update key (length (emAdps e)) (emEpList e)\<rparr>))"

definition randomAdapter :: "(nat \<Rightarrow> nat) \<Rightarrow> endpointManager \<Rightarrow> (nat option \<times> endpointManager)" where
  "randomAdapter intn e =
     (if emDirectProxy e then (None, e)
      else let randomEpf = emActiveEpf e ! intn (length (emActiveEpf e))
           in (case adapterFor (epKey (Tars2endpoint randomEpf)) randomEpf e of (i, e) \<Rightarrow> (Some i, e)))"

definition SelectAdapterProxy ::
    "(nat \<Rightarrow> nat) \<Rightarrow> Message \<Rightarrow> endpointManager \<Rightarrow> ((nat option \<times> bool) \<times> endpointManager) run" where
  "SelectAdapterProxy intn msg e =
     (if emDirectProxy e \<and> length (emActiveEp e) = 0 then Done ((None, False), e)
      else if \<not> emDirectProxy e \<and> length (emActiveEpf e) = 0 then Done ((None, False), e)
      else (case emCheckAdapter e of
        Some (i # q) \<Rightarrow>
          Done ((Some i, True), e\<lparr>emCheckAdapter := Some q, emCheckAdapterList :=
            AList.delete (epKey (Tars2endpoint (apPoint (emAdps e ! i)))) (emCheckAdapterList e)\<rparr>)
      | _ \<Rightarrow>
          withSelectors e (\<lambda>ss.
            (case selectEndpoint msg ss of (r, ss) \<Rightarrow>
               let e = e\<lparr>emSelectors := Some ss\<rparr> in
               (case r of
                  Inl (SelPanic err) \<Rightarrow> Crashed err
                | Inl _ \<Rightarrow> (case randomAdapter intn e of (adp, e) \<Rightarrow> Done ((adp, False), e))
                | Inr ep \<Rightarrow>
                    (case adapterFor (epKey ep) (Endpoint2tars ep) e of (i, e) \<Rightarrow> Done ((Some i, False), e)))))))"

definition GetAllEndpoint :: "endpointManager \<Rightarrow> Endpoint list" where
  "GetAllEndpoint e = emActiveEp e"

definition preInvoke :: "int \<Rightarrow> endpointManager \<Rightarrow> endpointManager" where
  "preInvoke currUnixTime e = e\<lparr>emInvokeNum := emInvokeNum e + 1, emLastInvoke := currUnixTime\<rparr>"

definition postInvoke :: "endpointManager \<Rightarrow> endpointManager" where
  "postInvoke e = e\<lparr>emInvokeNum := emInvokeNum e - 1\<rparr>"

end
