(* ===== verification/Manager_Safety.thy ===== *)
theory Manager_Safety
  imports Endpoint_Manager
begin

text \<open>
  The invariant of the endpoint manager under all its operations, and what it gives for the selection of
  adapters: no nil pointer is followed, and a manager that knows an endpoint always finds an adapter.
\<close>

section \<open>Selectors\<close>

text \<open>The rebuilds of the schedules fail by a panic only, so an ignored error changes nothing.\<close>

definition panics_only :: "('s \<Rightarrow> selErr + 's) \<Rightarrow> bool" where
  "panics_only f \<longleftrightarrow> (\<forall>m e. f m = Inl e \<longrightarrow> (\<exists>g. e = SelPanic g))"

lemma panics_rebuild: "panics_only reBuildLocked" "panics_only (RoundRobin_reBuildLocked intn)"
  by (auto simp: panics_only_def reBuildLocked_def RoundRobin_reBuildLocked_def Let_def
      split: sum.splits if_splits)

lemma ignoring_finish: "panics_only f \<Longrightarrow> ignoring (finish m (f m)) = Done m' \<Longrightarrow> finish m (f m) = (None, m')"
  by (cases "f m") (fastforce simp: ignoring_def finish_def panics_only_def)+

lemma ignoring_Refresh:
  assumes "rebuilds f" and "panics_only f" and "ignoring (table_Refresh f eps m) = Done m'"
  shows "table_inv m' \<and> keys_of (endpoints m') = keys_of eps \<and> set (endpoints m') \<subseteq> set eps"
  using assms ignoring_finish [OF assms(2)] by (intro table_Refresh_inv) (auto simp: table_Refresh_def Let_def)

lemma ignoring_Add:
  assumes "rebuilds f" and "panics_only f" and "table_inv m" and "ignoring (table_Add f ep m) = Done m'"
  shows "table_inv m'"
proof (cases "addLocked ep m")
  case (Pair err m1)
  show ?thesis
  proof (cases err)
    case None
    with assms(4) Pair ignoring_finish [OF assms(2), of m1 m'] have "table_Add f ep m = (None, m')"
      by (simp add: table_Add_def)
    with table_Add_inv(1) [OF assms(1,3)] show ?thesis by blast
  next
    case (Some x)
    with assms(3,4) Pair show ?thesis
      by (auto simp: table_Add_def addLocked_def ignoring_def split: if_splits)
  qed
qed

lemma ignoring_Remove:
  assumes "rebuilds f" and "panics_only f" and "table_inv m" and "ignoring (table_Remove f ep m) = Done m'"
  shows "table_inv m'"
proof (cases "HashKey ep \<in> mapValues m")
  case True
  with assms(4) ignoring_finish [OF assms(2)] have "table_Remove f ep m = (None, m')"
    by (simp add: table_Remove_def Let_def)
  with table_Remove_inv(1) [OF assms(1,3)] show ?thesis by blast
next
  case False
  with assms(3,4) show ?thesis by (simp add: table_Remove_def ignoring_def)
qed

lemma RoundRobin_keeps:
  "ignoring (RoundRobin_Refresh intn eps r) = Done r' \<Longrightarrow> table_inv r'"
  "ignoring (RoundRobin_Add intn ep r) = Done r' \<Longrightarrow> table_inv r \<Longrightarrow> table_inv r'"
  "ignoring (RoundRobin_Remove intn ep r) = Done r' \<Longrightarrow> table_inv r \<Longrightarrow> table_inv r'"
  unfolding RoundRobin_Refresh_def RoundRobin_Add_def RoundRobin_Remove_def
  using ignoring_Refresh [OF RoundRobin_rebuilds panics_rebuild(2)]
    ignoring_Add [OF RoundRobin_rebuilds panics_rebuild(2)]
    ignoring_Remove [OF RoundRobin_rebuilds panics_rebuild(2)]
  by blast+

lemma ModHash_keeps:
  "ignoring (ModHash_Refresh eps m) = Done m' \<Longrightarrow> table_inv m'"
  "ignoring (ModHash_Add ep m) = Done m' \<Longrightarrow> table_inv m \<Longrightarrow> table_inv m'"
  "ignoring (ModHash_Remove ep m) = Done m' \<Longrightarrow> table_inv m \<Longrightarrow> table_inv m'"
  unfolding ModHash_Refresh_def ModHash_Add_def ModHash_Remove_def
  by (blast dest: ignoring_Refresh [OF reBuildLocked_rebuilds panics_rebuild(1)]
      intro: ignoring_Add [OF reBuildLocked_rebuilds panics_rebuild(1)]
        ignoring_Remove [OF reBuildLocked_rebuilds panics_rebuild(1)])+

lemma ring_addLocked_keys:
  assumes "set (sortedKeys c) = dom (map_of (hashRing c))"
  shows "set (sortedKeys (snd (ring_addLocked md5 ep c))) = dom (map_of (hashRing (snd (ring_addLocked md5 ep c))))"
  using assms foldl_update [of ep c "virtualKeys md5 c ep"]
  by (auto simp: ring_addLocked_def Let_def dom_update_keys)

lemma ring_Refresh_inv: "ring_inv (ConsistentHash_Refresh md5 eps c)"
proof -
  have "set (sortedKeys d) = dom (map_of (hashRing d)) \<Longrightarrow>
    set (sortedKeys (foldl (\<lambda>c ep. snd (ring_addLocked md5 ep c)) d eps))
      = dom (map_of (hashRing (foldl (\<lambda>c ep. snd (ring_addLocked md5 ep c)) d eps)))" for d
    by (induction eps arbitrary: d) (simp_all add: ring_addLocked_keys)
  then show ?thesis
    by (simp add: ConsistentHash_Refresh_def ring_sort_def ring_inv_def)
qed

lemma ConsistentHash_keeps:
  "ignoring (ConsistentHash_Add md5 ep c) = Done c' \<Longrightarrow> ring_inv c \<Longrightarrow> ring_inv c'"
  "ignoring (ConsistentHash_Remove md5 ep c) = Done c' \<Longrightarrow> ring_inv c \<Longrightarrow> ring_inv c'"
proof -
  show "ignoring (ConsistentHash_Add md5 ep c) = Done c' \<Longrightarrow> ring_inv c \<Longrightarrow> ring_inv c'"
    using Add_ring(1) [of c md5 ep c']
    by (auto simp: ignoring_def ConsistentHash_Add_def ring_addLocked_def Let_def split: if_splits)
  show "ignoring (ConsistentHash_Remove md5 ep c) = Done c' \<Longrightarrow> ring_inv c \<Longrightarrow> ring_inv c'"
    using Remove_ring(1) [of md5 ep c c']
    by (auto simp: ignoring_def ConsistentHash_Remove_def Let_def split: if_splits)
qed

section \<open>The invariant\<close>

definition selectors_ok :: "selectorSet \<Rightarrow> bool" where
  "selectors_ok ss \<longleftrightarrow> table_inv (seRoundRobin ss) \<and> ring_inv (seConHash ss) \<and> table_inv (seModHash ss)"

definition em_inv :: "endpointManager \<Rightarrow> bool" where
  "em_inv e \<longleftrightarrow>
     snd ` set (emEpList e) \<subseteq> {..<length (emAdps e)}
     \<and> (\<forall>q. emCheckAdapter e = Some q \<longrightarrow> set q \<subseteq> {..<length (emAdps e)})
     \<and> (emSelectors e = None \<longrightarrow> emActiveEp e = [] \<and> emActiveEpf e = [])
     \<and> (\<forall>ss. emSelectors e = Some ss \<longrightarrow> selectors_ok ss)
     \<and> (emDirectProxy e \<longrightarrow> emActiveEpf e = [])"

lemma em_inv_blank: "em_inv (blankManager objName direct)"
  by (simp add: em_inv_def blankManager_def)

lemma firstUpdate_keeps:
  assumes "em_inv (e\<lparr>emActiveEpf := []\<rparr>)" and "firstUpdateActiveEp md5 intn eps e = Done e'" and "eps \<noteq> []"
    and "emDirectProxy e \<longrightarrow> emActiveEpf e = []"
  shows "em_inv e'"
proof -
  let ?w = "em_enableWeight (e\<lparr>emWeightType := commonWeightType eps\<rparr>)"
  obtain rr mh where r: "ignoring (RoundRobin_Refresh intn (sortByCrc eps) (RoundRobin_New ?w)) = Done rr"
      "ignoring (ModHash_Refresh (sortByCrc eps) (ModHash_New ?w)) = Done mh"
    and e': "e' = e\<lparr>emWeightType := commonWeightType eps, emActiveEp := sortByCrc eps, emSelectors := Some \<lparr>seRoundRobin = rr,
      seConHash = ConsistentHash_Refresh md5 (sortByCrc eps) (ConsistentHash_New ?w KetamaHash), seModHash = mh\<rparr>\<rparr>"
    using assms(2,3) by (auto simp: firstUpdateActiveEp_def Let_def bindRun_Done)
  show ?thesis
    using assms(1,4) RoundRobin_keeps(1) [OF r(1)] ModHash_keeps(1) [OF r(2)] ring_Refresh_inv
    unfolding e' em_inv_def selectors_ok_def by simp
qed

lemma em_inv_active: "em_inv e \<Longrightarrow> em_inv (e\<lparr>emActiveEpf := []\<rparr>)"
  by (auto simp: em_inv_def split: option.splits)

lemma new_keeps:
  assumes "newTarsEndpointManager md5 intn objName = Done e"
  shows "em_inv e"
proof -
  have "em_inv e" if "firstUpdateActiveEp md5 intn eps (blankManager n True) = Done e" for eps n
  proof (cases "eps = []")
    case True
    with that em_inv_blank [of n True] show ?thesis by (simp add: firstUpdateActiveEp_def)
  next
    case False
    with firstUpdate_keeps [OF em_inv_active [OF em_inv_blank] that] show ?thesis by (simp add: blankManager_def)
  qed
  with assms em_inv_blank show ?thesis
    by (auto simp: newTarsEndpointManager_def bindRun_Done split: option.splits nat.splits)
qed

lemma fromCache_keeps:
  assumes "em_inv e" and "\<not> emDirectProxy e" and "fromCache md5 intn cached e = Done e'"
  shows "em_inv e'"
proof (cases "cached = []")
  case True
  with assms em_inv_active [of e] show ?thesis by (auto simp: fromCache_def firstUpdateActiveEp_def)
next
  case False
  have "em_inv (e\<lparr>emActiveEpf := cached, emActiveEpf := []\<rparr>)"
    using em_inv_active [OF assms(1)] by simp
  from firstUpdate_keeps [OF this] False assms(2,3) show ?thesis by (simp add: fromCache_def)
qed

lemma dropUseless_store:
  "length (emAdps (dropUseless keep e)) = length (emAdps e)"
  "set (emEpList (dropUseless keep e)) \<subseteq> set (emEpList e)"
  "emCheckAdapter (dropUseless keep e) = emCheckAdapter e" "emDirectProxy (dropUseless keep e) = emDirectProxy e"
proof -
  have "length (fold (\<lambda>(key, i) adps. if key \<in> keep then adps else adps[i := adp_Close (adps ! i)]) l adps)
    = length adps" for l adps
    by (induction l arbitrary: adps) auto
  then show "length (emAdps (dropUseless keep e)) = length (emAdps e)"
    by (simp add: dropUseless_def)
qed (auto simp: dropUseless_def)

lemma new_selectors:
  assumes "em_inv e" and "emSelectors e \<noteq> None \<or> \<not> emDirectProxy e"
    and "table_inv rr" and "ring_inv ch" and "table_inv mh"
    and "emDirectProxy e \<longrightarrow> epfs = []"
  shows "em_inv (e\<lparr>emActiveEpf := epfs, emInactiveEpf := iepfs, emActiveEp := eps,
    emSelectors := Some \<lparr>seRoundRobin = rr, seConHash = ch, seModHash = mh\<rparr>\<rparr>)"
  using assms by (simp add: em_inv_def selectors_ok_def)

lemma keepUseful_fields:
  "emSelectors (keepUseful a i e) = emSelectors e" "emActiveEp (keepUseful a i e) = emActiveEp e"
  "emActiveEpf (keepUseful a i e) = emActiveEpf e" "emDirectProxy (keepUseful a i e) = emDirectProxy e"
  "emCheckAdapter (keepUseful a i e) = emCheckAdapter e"
  "length (emAdps (keepUseful a i e)) = length (emAdps e)" "set (emEpList (keepUseful a i e)) \<subseteq> set (emEpList e)"
  by (simp_all add: keepUseful_def Let_def dropUseless_store) (simp_all add: dropUseless_def)

lemma keepUseful_keeps: "em_inv e \<Longrightarrow> em_inv (keepUseful a i e)"
  using image_mono [OF keepUseful_fields(7) [of a i e], of snd] by (auto simp: em_inv_def keepUseful_fields)

lemma setObj_Done:
  assumes "setObj md5 rnd activeEp inactiveEp e = Done e'"
  obtains d eps r1 rr where "d = keepUseful activeEp inactiveEp e" and "eps = liveEps activeEp d"
    and "ignoring (RoundRobin_Refresh (rnd 1) eps r1) = Done rr"
    and "e' = d\<lparr>emActiveEpf := activeEp, emInactiveEpf := inactiveEp, emActiveEp := eps,
      emSelectors := Some \<lparr>seRoundRobin = rr,
        seConHash = ConsistentHash_Refresh md5 eps (ConsistentHash_New (em_enableWeight d) KetamaHash),
        seModHash = ModHash_New (em_enableWeight d)\<rparr>\<rparr>"
  using assms by (auto simp: setObj_def Let_def bindRun_Done)

lemma setObj_keeps:
  assumes "em_inv e" and "\<not> emDirectProxy e" and "setObj md5 rnd activeEp inactiveEp e = Done e'"
  shows "em_inv e'"
  using assms(3)
proof (rule setObj_Done)
  fix d eps r1 rr
  assume d: "d = keepUseful activeEp inactiveEp e"
    and rr: "ignoring (RoundRobin_Refresh (rnd 1) eps r1) = Done rr"
    and e': "e' = d\<lparr>emActiveEpf := activeEp, emInactiveEpf := inactiveEp, emActiveEp := eps,
      emSelectors := Some \<lparr>seRoundRobin = rr,
        seConHash = ConsistentHash_Refresh md5 eps (ConsistentHash_New (em_enableWeight d) KetamaHash),
        seModHash = ModHash_New (em_enableWeight d)\<rparr>\<rparr>"
  have "em_inv d"
    using assms(1) d keepUseful_keeps by blast
  then show "em_inv e'"
    using e' assms(2) d RoundRobin_keeps(1) [OF rr] ring_Refresh_inv
    by (simp add: em_inv_def selectors_ok_def keepUseful_fields ModHash_New_def table_inv_def keys_of_def)
qed

lemma findAndSetObj_keeps:
  assumes "em_inv e" and "\<not> emDirectProxy e" and "findAndSetObj md5 rnd answer e = Done (err, e')"
  shows "em_inv e'"
  using assms setObj_keeps
  by (auto simp: findAndSetObj_def Let_def bindRun_Done split: sum.splits prod.splits if_splits)

lemma swap_selectors:
  assumes "em_inv e" and "emSelectors e = Some ss" and "table_inv rr" and "ring_inv ch" and "table_inv mh"
  shows "em_inv (e\<lparr>emActiveEp := eps, emSelectors := Some \<lparr>seRoundRobin = rr, seConHash = ch, seModHash = mh\<rparr>\<rparr>)"
  using assms by (simp add: em_inv_def selectors_ok_def)

lemma em_inv_selectors: "em_inv e \<Longrightarrow> emSelectors e = Some ss \<Longrightarrow> selectors_ok ss"
  by (simp add: em_inv_def)

lemma dropEndpoint_keeps:
  assumes "em_inv e" and "dropEndpoint md5 intn ep e = Done e'"
  shows "em_inv e'"
proof -
  obtain ss rr ch mh where ss: "emSelectors e = Some ss"
    and r: "ignoring (RoundRobin_Remove intn ep (seRoundRobin ss)) = Done rr"
      "ignoring (ConsistentHash_Remove md5 ep (seConHash ss)) = Done ch"
      "ignoring (ModHash_Remove ep (seModHash ss)) = Done mh"
    and e': "e' = e\<lparr>emActiveEp := remove1 ep (emActiveEp e),
      emSelectors := Some \<lparr>seRoundRobin = rr, seConHash = ch, seModHash = mh\<rparr>\<rparr>"
    using assms(2) by (auto simp: dropEndpoint_def withSelectors_def Let_def bindRun_Done split: option.splits)
  show ?thesis
    using em_inv_selectors [OF assms(1) ss] RoundRobin_keeps(3) [OF r(1)] ConsistentHash_keeps(2) [OF r(2)] ModHash_keeps(3) [OF r(3)]
    unfolding e' selectors_ok_def by (intro swap_selectors [OF assms(1) ss]) simp_all
qed

lemma addAliveEp_keeps:
  assumes "em_inv e" and "addAliveEp md5 intn ep e = Done e'"
  shows "em_inv e'"
proof -
  obtain ss rr ch mh where ss: "emSelectors e = Some ss"
    and r: "ignoring (RoundRobin_Add intn ep (seRoundRobin ss)) = Done rr"
      "ignoring (ConsistentHash_Add md5 ep (seConHash ss)) = Done ch"
      "ignoring (ModHash_Add ep (seModHash ss)) = Done mh"
    and e': "e' = e\<lparr>emActiveEp := sortByCrc (emActiveEp e @ [ep]),
      emSelectors := Some \<lparr>seRoundRobin = rr, seConHash = ch, seModHash = mh\<rparr>\<rparr>"
    using assms(2) by (auto simp: addAliveEp_def withSelectors_def Let_def bindRun_Done split: option.splits)
  show ?thesis
    using em_inv_selectors [OF assms(1) ss] RoundRobin_keeps(2) [OF r(1)] ConsistentHash_keeps(1) [OF r(2)] ModHash_keeps(2) [OF r(3)]
    unfolding e' selectors_ok_def by (intro swap_selectors [OF assms(1) ss]) simp_all
qed

lemma em_inv_adps: "em_inv e \<Longrightarrow> em_inv (e\<lparr>emAdps := (emAdps e)[i := adp]\<rparr>)"
  by (simp add: em_inv_def cong: option.case_cong)

lemma queueCheck_keeps:
  assumes "em_inv e" and "queueCheck key i e = Done e'" and "i < length (emAdps e)"
  shows "em_inv e'"
proof (cases "map_of (emCheckAdapterList e) key")
  case None
  then obtain q where "emCheckAdapter e = Some q" and "e' = e\<lparr>emCheckAdapterList :=
      AList.update key i (emCheckAdapterList e), emCheckAdapter := Some (q @ [i])\<rparr>"
    using assms(2) by (auto simp: queueCheck_def Let_def split: option.splits if_splits)
  with assms(1,3) show ?thesis by (simp add: em_inv_def)
next
  case (Some j)
  with assms(1,2) show ?thesis by (simp add: queueCheck_def)
qed

lemma epList_index: "em_inv e \<Longrightarrow> map_of (emEpList e) key = Some i \<Longrightarrow> i < length (emAdps e)"
  by (force simp: em_inv_def dest: map_of_SomeD)

lemma dropEndpoint_adps: "dropEndpoint md5 intn ep e = Done e' \<Longrightarrow> emAdps e' = emAdps e"
  by (auto simp: dropEndpoint_def withSelectors_def Let_def bindRun_Done split: option.splits)

lemma checkEndpoint_keeps:
  assumes "em_inv e" and "checkEndpoint md5 intn ka now env ef e = Done e'"
  shows "em_inv e'"
proof (cases "map_of (emEpList e) (epKey (Tars2endpoint ef))")
  case None
  with assms show ?thesis by (simp add: checkEndpoint_def)
next
  case (Some i)
  obtain first need adp e1 where e1: "(if first then dropEndpoint md5 intn (Tars2endpoint ef) (e\<lparr>emAdps := (emAdps e)[i := adp]\<rparr>)
      else Done (e\<lparr>emAdps := (emAdps e)[i := adp]\<rparr>)) = Done e1"
    and e': "(if need then queueCheck (epKey (Tars2endpoint ef)) i e1 else Done e1) = Done e'"
    using assms(2) Some by (auto simp: checkEndpoint_def Let_def bindRun_Done split: prod.splits)
  have "em_inv e1" and "length (emAdps e1) = length (emAdps e)"
    using e1 em_inv_adps [OF assms(1)] dropEndpoint_keeps dropEndpoint_adps by (fastforce split: if_splits)+
  with e' queueCheck_keeps [of e1] epList_index [OF assms(1) Some] show ?thesis
    by (auto split: if_splits)
qed

lemma checkAll_keeps: "em_inv e \<Longrightarrow> checkAll md5 intn ka now env efs e = Done e' \<Longrightarrow> em_inv e'"
  by (induction efs arbitrary: e) (auto simp: bindRun_Done dest: checkEndpoint_keeps)

lemma adapterFor_keeps:
  assumes "em_inv e" and "adapterFor key epf e = (i, e')"
  shows "em_inv e' \<and> i < length (emAdps e') \<and> map_of (emEpList e') key = Some i"
proof (cases "map_of (emEpList e) key")
  case None
  then have "AList.update key (length (emAdps e)) (emEpList e) = emEpList e @ [(key, length (emAdps e))]"
    by (simp add: update_new_append map_of_eq_None_iff)
  then have e': "i = length (emAdps e)" "e' = e\<lparr>emAdps := emAdps e @ [NewAdapterProxy epf],
      emEpList := emEpList e @ [(key, length (emAdps e))]\<rparr>"
    using None assms(2) by (auto simp: adapterFor_def)
  show ?thesis
    using assms(1) None less_SucI by (force simp: e' em_inv_def subset_iff map_add_def)
next
  case (Some j)
  with assms epList_index [OF assms(1) Some] show ?thesis by (simp add: adapterFor_def)
qed

section \<open>Selection\<close>

lemma selectEndpoint_safe:
  assumes "selectors_ok ss" and "selectEndpoint msg ss = (r, ss')"
  shows "selectors_ok ss' \<and> (case r of Inr ep \<Rightarrow> True | Inl err \<Rightarrow> err = NoSuchEndpoint)"
proof -
  have rr: "table_inv (seRoundRobin ss)" and mh: "table_inv (seModHash ss)"
    using assms(1) by (simp_all add: selectors_ok_def)
  note robin.select_member [OF rr TrueI, of "()"] modhash.select_member [OF mh TrueI, of "mgHashCode msg"]
    robin.select_keeps [OF rr, of "()"] modhash.select_keeps [OF mh, of "mgHashCode msg"]
  with assms show ?thesis
    by (auto simp: selectEndpoint_def selectors_ok_def ConsistentHash_Select_def
        split: if_splits sum.splits prod.splits)
qed

lemma SelectAdapterProxy_safe:
  assumes "em_inv e" and "\<And>n. 0 < n \<Longrightarrow> intn n < n"
  shows "\<exists>adp check e'. SelectAdapterProxy intn msg e = Done ((adp, check), e') \<and> em_inv e'
    \<and> (\<forall>i. adp = Some i \<longrightarrow> i < length (emAdps e'))
    \<and> (\<not> emDirectProxy e \<longrightarrow> adp = None \<longrightarrow> emActiveEpf e = [])"
proof (cases "(emDirectProxy e \<and> emActiveEp e = []) \<or> (\<not> emDirectProxy e \<and> emActiveEpf e = [])")
  case True
  with assms(1) show ?thesis by (auto simp: SelectAdapterProxy_def)
next
  case known: False
  show ?thesis
  proof (cases "\<exists>i q. emCheckAdapter e = Some (i # q)")
    case True
    with known assms(1) show ?thesis by (auto simp: SelectAdapterProxy_def em_inv_def)
  next
    case False
    obtain ss where ss: "emSelectors e = Some ss"
      using assms(1) known by (cases "emSelectors e") (auto simp: em_inv_def)
    obtain r ss' where r: "selectEndpoint msg ss = (r, ss')" by force
    note safe = selectEndpoint_safe [OF em_inv_selectors [OF assms(1) ss] r]
    let ?e = "e\<lparr>emSelectors := Some ss'\<rparr>"
    have inv: "em_inv ?e" using assms(1) safe ss by (simp add: em_inv_def)
    have sel: "SelectAdapterProxy intn msg e = (case r of
        Inl (SelPanic err) \<Rightarrow> Crashed err
      | Inl _ \<Rightarrow> (case randomAdapter intn ?e of (adp, e) \<Rightarrow> Done ((adp, False), e))
      | Inr ep \<Rightarrow> (case adapterFor (epKey ep) (Endpoint2tars ep) ?e of (i, e) \<Rightarrow> Done ((Some i, False), e)))"
      using known False ss r
      by (auto simp: SelectAdapterProxy_def withSelectors_def Let_def split: option.splits list.splits)
    show ?thesis
    proof (cases r)
      case (Inl err)
      then have "err = NoSuchEndpoint" using safe by simp
      then show ?thesis
        using sel Inl inv known adapterFor_keeps [OF inv]
        by (auto simp: randomAdapter_def Let_def split: prod.splits)
    next
      case (Inr ep)
      then show ?thesis
        using sel adapterFor_keeps [OF inv] by (auto split: prod.splits)
    qed
  qed
qed

text \<open>Without weights nothing panics, so the operations that rebuild the selectors return.\<close>

lemma addLocked_weight: "enableWeight (foldl (\<lambda>m ep. snd (addLocked ep m)) m eps) = enableWeight m"
  by (induction eps arbitrary: m) (simp_all add: addLocked_def)

lemma Refresh_unweighted:
  "\<not> enableWeight r \<Longrightarrow> \<exists>r'. ignoring (RoundRobin_Refresh intn eps r) = Done r' \<and> \<not> enableWeight r'"
  "\<not> enableWeight m \<Longrightarrow> \<exists>m'. ignoring (ModHash_Refresh eps m) = Done m'"
  by (simp_all add: ignoring_def RoundRobin_Refresh_def ModHash_Refresh_def table_Refresh_def Let_def finish_def
      RoundRobin_reBuildLocked_def reBuildLocked_def addLocked_weight)

lemma fromCache_unweighted:
  assumes "commonWeightType (map Tars2endpoint cached) \<noteq> EStaticWeight"
  shows "\<exists>e'. fromCache md5 intn cached e = Done e' \<and> emActiveEpf e' = cached \<and> emDirectProxy e' = emDirectProxy e"
proof -
  obtain rr mh where "ignoring (RoundRobin_Refresh intn eps (RoundRobin_New False)) = Done (rr eps)"
    and "ignoring (ModHash_Refresh eps (ModHash_New False)) = Done (mh eps)" for eps
    using Refresh_unweighted(1) [of "RoundRobin_New False"] Refresh_unweighted(2) [of "ModHash_New False"]
    by (simp add: RoundRobin_New_def ModHash_New_def) metis
  then show ?thesis
    using assms by (simp add: fromCache_def firstUpdateActiveEp_def em_enableWeight_def Let_def)
qed

lemma setObj_unweighted:
  assumes "commonWeightType (map Tars2endpoint activeEp) \<noteq> EStaticWeight"
  shows "\<exists>e'. setObj md5 rnd activeEp inactiveEp e = Done e'"
proof -
  have off: "\<not> em_enableWeight (keepUseful activeEp inactiveEp e)"
    using assms by (simp add: keepUseful_def em_enableWeight_def Let_def)
  let ?eps = "liveEps activeEp (keepUseful activeEp inactiveEp e)"
  obtain rr where rr: "ignoring (RoundRobin_Refresh (rnd 0) ?eps (RoundRobin_New False)) = Done rr" "\<not> enableWeight rr"
    using Refresh_unweighted(1) [of "RoundRobin_New False" "rnd 0" ?eps] by (auto simp: RoundRobin_New_def)
  moreover obtain rr' where "ignoring (RoundRobin_Refresh (rnd 1) ?eps rr) = Done rr'"
    using Refresh_unweighted(1) [OF rr(2), of "rnd 1" ?eps] by blast
  ultimately show ?thesis
    using off by (simp add: setObj_def Let_def)
qed

section \<open>Properties\<close>

text \<open>The life of a manager: it is made, refreshed, filled from the cache, checked, used, and told of answered
  probes, in any order.\<close>

inductive em_step :: "(bytes \<Rightarrow> bytes) \<Rightarrow> endpointManager \<Rightarrow> endpointManager \<Rightarrow> bool" for md5 where
  fresh: "doFresh md5 rnd answer e = Done (err, e') \<Longrightarrow> em_step md5 e e'"
| cache: "\<not> emDirectProxy e \<Longrightarrow> fromCache md5 intn cached e = Done e' \<Longrightarrow> em_step md5 e e'"
| check: "checkStatus md5 intn ka now env e = Done e' \<Longrightarrow> em_step md5 e e'"
| select: "(\<And>n. 0 < n \<Longrightarrow> intn n < n) \<Longrightarrow> SelectAdapterProxy intn msg e = Done (r, e') \<Longrightarrow> em_step md5 e e'"
| probe: "probeAnswered md5 intn now i e = Done e' \<Longrightarrow> em_step md5 e e'"
| pre: "em_step md5 e (preInvoke now e)"
| post: "em_step md5 e (postInvoke e)"

lemma em_step_keeps: "em_step md5 e e' \<Longrightarrow> em_inv e \<Longrightarrow> em_inv e'"
proof (induction rule: em_step.induct)
  case (fresh rnd answer e err e')
  then show ?case by (auto simp: doFresh_def split: if_splits intro: findAndSetObj_keeps)
next
  case (cache e intn cached e')
  then show ?case by (blast intro: fromCache_keeps)
next
  case (check intn ka now env e e')
  then show ?case by (auto simp: checkStatus_def intro: checkAll_keeps)
next
  case (select intn msg e r e')
  then show ?case using SelectAdapterProxy_safe [of e intn msg] by auto
next
  case (probe intn now i e e')
  then show ?case by (auto simp: probeAnswered_def Let_def intro: addAliveEp_keeps em_inv_adps)
qed (simp_all add: em_inv_def preInvoke_def postInvoke_def)

definition em_reach :: "(bytes \<Rightarrow> bytes) \<Rightarrow> endpointManager \<Rightarrow> bool" where
  "em_reach md5 e \<longleftrightarrow> (\<exists>intn objName e0. newTarsEndpointManager md5 intn objName = Done e0 \<and> (em_step md5)\<^sup>*\<^sup>* e0 e)"

lemma em_reach_inv: "em_reach md5 e \<Longrightarrow> em_inv e"
proof -
  have "(em_step md5)\<^sup>*\<^sup>* e0 e \<Longrightarrow> em_inv e0 \<Longrightarrow> em_inv e" for e0
    by (induction rule: rtranclp_induct) (auto intro: em_step_keeps)
  then show "em_reach md5 e \<Longrightarrow> em_inv e"
    using new_keeps by (auto simp: em_reach_def)
qed


text \<open>The endpoint of the witnesses below, without a weight.\<close>

definition plain_endpoint :: EndpointF where
  "plain_endpoint = demo_endpoint\<lparr>efWeightType := 0\<rparr>"

definition mod_message :: "uint32 \<Rightarrow> Message" where
  "mod_message code = \<lparr>mgReq = ping_request, mgResp = None, mgBeginTime = 0, mgEndTime = 0, mgStatus = 0,
     mgHashCode = code, mgHashType = hashMod, mgIsHash = True\<rparr>"

lemma plain_unweighted: "commonWeightType (map Tars2endpoint [plain_endpoint]) \<noteq> EStaticWeight"
  by (simp add: commonWeightType_def Tars2endpoint_def plain_endpoint_def demo_endpoint_def EStaticWeight_def Let_def)


text \<open>A refresh that changes the endpoints leaves the mod-hash selector empty: after it, until an endpoint is
  probed, every call that asks for mod hashing goes to a random endpoint, whatever its hash code.\<close>

theorem refresh_disables_modhash:
  assumes "findAndSetObj md5 rnd (Inr (0, eps, ieps)) e = Done (None, e')"
    and "eps \<noteq> []" and "sortByHost eps \<noteq> emActiveEpf e" and "\<not> emDirectProxy e"
    and "\<forall>i q. emCheckAdapter e \<noteq> Some (i # q)" and "mgIsHash msg" and "mgHashType msg = hashMod"
  shows "emActiveEpf e' = sortByHost eps \<and> SelectAdapterProxy intn msg e'
    = (case randomAdapter intn e' of (adp, e'') \<Rightarrow> Done ((adp, False), e''))"
proof -
  have ne: "sortByHost eps \<noteq> []"
    using assms(2) by (metis sortByHost_def set_sort set_empty)
  have "setObj md5 rnd (sortByHost eps) ieps e = Done e'"
    using assms(1,3) ne by (simp add: findAndSetObj_def Let_def bindRun_Done)
  then show ?thesis
  proof (rule setObj_Done)
    fix d act r1 rr
    assume "d = keepUseful (sortByHost eps) ieps e"
      and "e' = d\<lparr>emActiveEpf := sortByHost eps, emInactiveEpf := ieps, emActiveEp := act,
        emSelectors := Some \<lparr>seRoundRobin = rr,
          seConHash = ConsistentHash_Refresh md5 act (ConsistentHash_New (em_enableWeight d) KetamaHash),
          seModHash = ModHash_New (em_enableWeight d)\<rparr>\<rparr>"
    then show ?thesis
      using assms ne
      by (auto simp: SelectAdapterProxy_def withSelectors_def selectEndpoint_def keepUseful_fields Let_def
          ModHash_Select_def ModHash_New_def hashMod_def hashConsistent_def split: option.splits list.splits)
  qed
qed

theorem refresh_disables_modhash_witness:
  "\<exists>e'. findAndSetObj (\<lambda>x. x) (\<lambda>k n. 0) (Inr (0, [plain_endpoint], [])) (blankManager [65] False) = Done (None, e')
     \<and> SelectAdapterProxy (\<lambda>n. 0) (mod_message 5) e'
       = (case randomAdapter (\<lambda>n. 0) e' of (adp, e'') \<Rightarrow> Done ((adp, False), e''))"
proof -
  let ?e = "blankManager [65] False"
  from setObj_unweighted [OF plain_unweighted, of "\<lambda>x. x" "\<lambda>k n. 0" "[]" ?e]
  obtain e' where e': "findAndSetObj (\<lambda>x. x) (\<lambda>k n. 0) (Inr (0, [plain_endpoint], [])) ?e = Done (None, e')"
    by (auto simp: findAndSetObj_def sortByHost_def blankManager_def Let_def)
  from refresh_disables_modhash [OF this, of "mod_message 5" "\<lambda>n. 0"] this show ?thesis
    by (auto simp: sortByHost_def blankManager_def mod_message_def)
qed

end
