(* ===== verification/Protocol.thy ===== *)
theory Protocol
  imports Packets
begin

text \<open>
  Framing and packing of Tars packets: \<^verbatim>\<open>tars/protocol/tarsprotocol.go\<close> (the client's
  \<^verbatim>\<open>TarsProtocol\<close>), the packing half of \<^verbatim>\<open>tars/tarsprotocol.go\<close> (the server's
  \<^verbatim>\<open>Protocol\<close>) and the message types of \<^verbatim>\<open>requestf/request.go\<close>. A package on the wire is a
  four-byte big-endian length, which counts itself, and the packet's members.
\<close>

section \<open>Framing\<close>

datatype pkgStatus = PackageLess | PackageFull | PackageError

text \<open>\<^verbatim>\<open>TarsRequest\<close>, with the package variable \<^verbatim>\<open>maxPackageLength\<close> as its first argument.\<close>

definition TarsRequest :: "int \<Rightarrow> bytes \<Rightarrow> nat \<times> pkgStatus" where
  "TarsRequest maxPackageLength pkg =
     (if length pkg < 4 then (0, PackageLess)
      else let iHeaderLen = uint (Uint32 (take 4 pkg)) in
        if iHeaderLen < 4 \<or> iHeaderLen > maxPackageLength then (0, PackageError)
        else if int (length pkg) < iHeaderLen then (0, PackageLess)
        else (nat iHeaderLen, PackageFull))"

section \<open>The client's side\<close>

definition RequestPack :: "RequestPacket \<Rightarrow> bytes \<times> gerr option" where
  "RequestPack req =
     (case WriteSliceInt8 (replicate 4 0) (NewBuffer []) of (err, os) \<Rightarrow>
        if err \<noteq> None then ([], err)
        else (case RequestPacket_WriteTo req os of (err, os) \<Rightarrow>
          if err \<noteq> None then ([], err)
          else let bs = Buffer_ToBytes os
               in (PutUint32 (word_of_nat (length bs)) @ drop 4 bs, None)))"

text \<open>The expression \<^verbatim>\<open>pkg[4:]\<close> panics on a shorter slice.\<close>

definition ResponseUnpack :: "bytes \<Rightarrow> ResponsePacket \<times> gerr option" where
  "ResponseUnpack pkg =
     (if length pkg < 4 then (zero_response, Some (Panic ''slice bounds out of range''))
      else (case ResponsePacket_ReadFrom zero_response (NewReader (drop 4 pkg)) of
              (packet, err, _) \<Rightarrow> (packet, err)))"

section \<open>The server's side\<close>

definition TARSVERSION :: int16 where "TARSVERSION = 1"
definition TUPVERSION :: int16 where "TUPVERSION = 3"
definition TARSNORMAL :: int8 where "TARSNORMAL = 0"
definition TARSONEWAY :: int8 where "TARSONEWAY = 1"
definition TARSSERVERQUEUETIMEOUT :: int32 where "TARSSERVERQUEUETIMEOUT = - 6"
definition TARSMESSAGETYPEDYED :: int32 where "TARSMESSAGETYPEDYED = 4"
definition TARSMESSAGETYPETRACE :: int32 where "TARSMESSAGETYPETRACE = 256"

definition AddMessageType :: "int32 \<Rightarrow> RequestPacket \<Rightarrow> RequestPacket" where
  "AddMessageType t st = st\<lparr>rqIMessageType := rqIMessageType st OR t\<rparr>"

definition HasMessageType :: "int32 \<Rightarrow> RequestPacket \<Rightarrow> bool" where
  "HasMessageType t st \<longleftrightarrow> rqIMessageType st AND t \<noteq> 0"

definition req2Byte :: "ResponsePacket \<Rightarrow> bytes" where
  "req2Byte rsp =
     (let req = zero_request\<lparr>rqIVersion := rsIVersion rsp, rqIRequestId := rsIRequestId rsp,
            rqIMessageType := rsIMessageType rsp, rqCPacketType := rsCPacketType rsp,
            rqContext := rsContext rsp, rqStatus := rsStatus rsp, rqSBuffer := rsSBuffer rsp\<rparr>;
          bs = Buffer_ToBytes (snd (RequestPacket_WriteTo req (NewBuffer [])));
          sbuf = replicate 4 0 @ bs
      in PutUint32 (word_of_nat (length sbuf)) @ drop 4 sbuf)"

definition rsp2Byte :: "ResponsePacket \<Rightarrow> bytes" where
  "rsp2Byte rsp =
     (if rsIVersion rsp = TUPVERSION then req2Byte rsp
      else let bs = Buffer_ToBytes (snd (ResponsePacket_WriteTo rsp (NewBuffer [])));
               sbuf = replicate 4 0 @ bs
           in PutUint32 (word_of_nat (length sbuf)) @ drop 4 sbuf)"

text \<open>The error of \<^verbatim>\<open>ReadFrom\<close> is ignored, so the reply is built from what was read before it;
  a panic of \<^verbatim>\<open>pkg[4:]\<close> or of \<^verbatim>\<open>ReadFrom\<close> is not caught here.\<close>

definition InvokeTimeout :: "bytes \<Rightarrow> gerr + bytes" where
  "InvokeTimeout pkg =
     (if length pkg < 4 then Inl (Panic ''slice bounds out of range'')
      else (case RequestPacket_ReadFrom zero_request (NewReader (drop 4 pkg)) of
          (_, Some (Panic m), _) \<Rightarrow> Inl (Panic m)
        | (reqPackage, _, _) \<Rightarrow>
            Inr (rsp2Byte (zero_response\<lparr>rsIRequestId := rqIRequestId reqPackage, rsIRet := 1,
              rsSResultDesc := ascii ''server invoke timeout''\<rparr>))))"

definition reconnectMsg :: gostring where
  "reconnectMsg = ascii ''_reconnect_''"

definition GetCloseMsg :: bytes where
  "GetCloseMsg = rsp2Byte (zero_response\<lparr>rsIVersion := TARSVERSION, rsIRequestId := 0,
     rsSResultDesc := reconnectMsg\<rparr>)"

section \<open>Frames\<close>

definition frame :: "bytes \<Rightarrow> bytes" where
  "frame body = PutUint32 (word_of_nat (length body + 4)) @ body"

lemma length_frame [simp]: "length (frame body) = length body + 4"
  by (simp add: frame_def)

lemma drop_frame [simp]: "drop 4 (frame body) = body"
  by (simp add: frame_def)

lemma TarsRequest_bounds:
  assumes "TarsRequest maxLen pkg = (n, PackageFull)"
  shows "4 \<le> n \<and> n \<le> length pkg \<and> int n \<le> maxLen \<and> int n = uint (Uint32 (take 4 pkg))"
proof -
  have "n = nat (uint (Uint32 (take 4 pkg))) \<and> 4 \<le> uint (Uint32 (take 4 pkg))
    \<and> uint (Uint32 (take 4 pkg)) \<le> int (length pkg) \<and> uint (Uint32 (take 4 pkg)) \<le> maxLen"
    using assms by (auto simp: TarsRequest_def Let_def split: if_splits)
  then show ?thesis
    by linarith
qed

lemma TarsRequest_frame:
  assumes "length body + 4 < 2 ^ 32" and "int (length body + 4) \<le> maxLen"
  shows "TarsRequest maxLen (frame body @ rest) = (length (frame body), PackageFull)"
proof -
  have "uint (word_of_nat (length body + 4) :: uint32) = int (length body + 4)"
    using assms(1) by (simp only: unsigned_of_nat) (simp add: take_bit_nat_eq_self)
  then show ?thesis
    using assms(2) by (simp add: TarsRequest_def frame_def)
qed

lemma RequestPack_frame:
  assumes "okRequest req"
  shows "RequestPack req = (frame (encRequest req), None)"
  by (simp add: RequestPack_def NewBuffer_def Buffer_ToBytes_def frame_def add.commute
      appends_append [OF appends_slices(2)]
      appends_append [OF RequestPacket_WriteTo_enc [OF assms]])

lemma rsp2Byte_frame:
  assumes "okResponse rsp" and "rsIVersion rsp \<noteq> TUPVERSION"
  shows "rsp2Byte rsp = frame (encResponse rsp)"
  using assms(2)
  by (simp add: rsp2Byte_def NewBuffer_def Buffer_ToBytes_def frame_def Let_def add.commute
      appends_append [OF ResponsePacket_WriteTo_enc [OF assms(1)]])

text \<open>The request packet that carries a TUP response.\<close>

definition tupReply :: "ResponsePacket \<Rightarrow> RequestPacket" where
  "tupReply rsp = \<lparr>rqIVersion = TUPVERSION, rqCPacketType = rsCPacketType rsp,
     rqIMessageType = rsIMessageType rsp, rqIRequestId = rsIRequestId rsp,
     rqSServantName = [], rqSFuncName = [], rqSBuffer = rsSBuffer rsp, rqITimeout = 0,
     rqContext = rsContext rsp, rqStatus = rsStatus rsp\<rparr>"

lemma ok_tupReply: "okResponse rsp \<Longrightarrow> okRequest (tupReply rsp)"
  by (simp add: okResponse_def okRequest_def tupReply_def)

lemma rsp2Byte_tup:
  assumes "okResponse rsp" and "rsIVersion rsp = TUPVERSION"
  shows "rsp2Byte rsp = frame (encRequest (tupReply rsp))"
proof -
  have "zero_request\<lparr>rqIVersion := rsIVersion rsp, rqIRequestId := rsIRequestId rsp,
      rqIMessageType := rsIMessageType rsp, rqCPacketType := rsCPacketType rsp,
      rqContext := rsContext rsp, rqStatus := rsStatus rsp, rqSBuffer := rsSBuffer rsp\<rparr>
      = tupReply rsp"
    using assms(2) by (simp add: zero_request_def tupReply_def)
  then show ?thesis
    using assms(2)
    by (simp add: rsp2Byte_def req2Byte_def NewBuffer_def Buffer_ToBytes_def frame_def Let_def
        add.commute appends_append [OF RequestPacket_WriteTo_enc [OF ok_tupReply [OF assms(1)]]])
qed

lemma length_zero_packets:
  "length (encRequest zero_request) = 16" "length (encResponse zero_response) = 14"
  by (simp_all add: encRequest_def zero_request_def encResponse_def zero_response_def encInt_def
      encString_def encHead_def encVecInt8_def encStrMap_def)

section \<open>Properties\<close>

text \<open>A packed request is one complete package for the framing, whatever follows it in the
  stream, and its body decodes to the request.\<close>

theorem request_pack_wire:
  assumes "okRequest req" and "RequestPack req = (pkg, err)"
    and "length pkg < 2 ^ 32" and "int (length pkg) \<le> maxLen"
  shows "err = None \<and> TarsRequest maxLen (pkg @ rest) = (length pkg, PackageFull)
    \<and> reads_all (RequestPacket_ReadFrom zero_request (NewReader (drop 4 pkg))) req"
proof -
  have pkg: "pkg = frame (encRequest req)" "err = None"
    using assms(1,2) by (simp_all add: RequestPack_frame)
  then show ?thesis
    using assms TarsRequest_frame [of "encRequest req" maxLen rest]
      RequestPacket_ReadFrom_fresh [OF assms(1), of zero_request "NewReader (encRequest req)" "[]"]
    by simp
qed

theorem request_pack_wire_witness:
  "TarsRequest 10485760 (fst (RequestPack zero_request) @ [1, 2])
     = (length (fst (RequestPack zero_request)), PackageFull)"
proof -
  have "RequestPack zero_request = (frame (encRequest zero_request), None)"
    by (rule RequestPack_frame) simp
  with request_pack_wire [OF _ this, of 10485760 "[1, 2]"] show ?thesis
    by (simp add: length_zero_packets)
qed

text \<open>A response packed by the server is one complete package and unpacks at the client to
  the same response; a response to a TUP request is a request packet with the response's
  version, ids, status, context and buffer.\<close>

theorem response_wire:
  assumes "okResponse rsp" and "length (rsp2Byte rsp) < 2 ^ 32"
    and "int (length (rsp2Byte rsp)) \<le> maxLen"
  shows "TarsRequest maxLen (rsp2Byte rsp @ rest) = (length (rsp2Byte rsp), PackageFull)
    \<and> (rsIVersion rsp \<noteq> TUPVERSION \<longrightarrow> ResponseUnpack (rsp2Byte rsp) = (rsp, None))
    \<and> (rsIVersion rsp = TUPVERSION \<longrightarrow>
        reads_all (RequestPacket_ReadFrom zero_request (NewReader (drop 4 (rsp2Byte rsp))))
          (tupReply rsp))"
proof (cases "rsIVersion rsp = TUPVERSION")
  case True
  then have "rsp2Byte rsp = frame (encRequest (tupReply rsp))"
    using assms(1) by (simp add: rsp2Byte_tup)
  then show ?thesis
    using assms True TarsRequest_frame [of "encRequest (tupReply rsp)" maxLen rest]
      RequestPacket_ReadFrom_fresh [OF ok_tupReply [OF assms(1)], of zero_request
        "NewReader (encRequest (tupReply rsp))" "[]"]
    by simp
next
  case False
  then have "rsp2Byte rsp = frame (encResponse rsp)"
    using assms(1) by (simp add: rsp2Byte_frame)
  then show ?thesis
    using assms False TarsRequest_frame [of "encResponse rsp" maxLen rest]
      ResponsePacket_ReadFrom_enc [OF assms(1), of zero_response "NewReader (encResponse rsp)" "[]"]
    by (simp add: ResponseUnpack_def)
qed

theorem response_wire_witness:
  "ResponseUnpack (rsp2Byte zero_response) = (zero_response, None)"
proof -
  have v: "rsIVersion zero_response \<noteq> TUPVERSION"
    by (simp add: zero_response_def TUPVERSION_def)
  then have "rsp2Byte zero_response = frame (encResponse zero_response)"
    by (simp add: rsp2Byte_frame)
  with v response_wire [of zero_response 10485760 "[]"] show ?thesis
    by (simp add: length_zero_packets)
qed

text \<open>The framing accepts no package that is shorter than its header or longer than the
  configured maximum, and what it accepts is contained in the data.\<close>

theorem framing_bounds:
  assumes "TarsRequest maxLen pkg = (n, PackageFull)"
  shows "4 \<le> n \<and> n \<le> length pkg \<and> int n \<le> maxLen \<and> int n = uint (Uint32 (take 4 pkg))"
  by (rule TarsRequest_bounds [OF assms])

theorem framing_bounds_witness:
  "4 \<le> (4 :: nat) \<and> (4 :: nat) \<le> length [0 :: byte, 0, 0, 4]"
proof -
  have "TarsRequest 10 [0, 0, 0, 4] = (4, PackageFull)"
    by (simp add: TarsRequest_def Uint32_def)
  from framing_bounds [OF this] show ?thesis by simp
qed

text \<open>The reply to a call that timed out carries the request's id and the return code 1, but
  neither the request's version nor its packet type: whatever the request was, the reply is
  packed as version 0 and normal packet.\<close>

theorem invoke_timeout_reply:
  assumes "okRequest req"
  shows "\<exists>pkg. InvokeTimeout (frame (encRequest req)) = Inr pkg \<and> ResponseUnpack pkg
    = (zero_response\<lparr>rsIRequestId := rqIRequestId req, rsIRet := 1,
        rsSResultDesc := ascii ''server invoke timeout''\<rparr>, None)"
proof -
  let ?rsp = "zero_response\<lparr>rsIRequestId := rqIRequestId req, rsIRet := 1,
        rsSResultDesc := ascii ''server invoke timeout''\<rparr>"
  have ok: "okResponse ?rsp" and v: "rsIVersion ?rsp \<noteq> TUPVERSION"
    by (simp_all add: okResponse_def zero_response_def okStrMap_def ascii_def TUPVERSION_def)
  have "InvokeTimeout (frame (encRequest req)) = Inr (frame (encResponse ?rsp))"
    using RequestPacket_ReadFrom_fresh [OF assms, of zero_request "NewReader (encRequest req)" "[]"]
      rsp2Byte_frame [OF ok v]
    by (simp add: InvokeTimeout_def)
  then show ?thesis
    using ResponsePacket_ReadFrom_enc [OF ok, of zero_response "NewReader (encResponse ?rsp)" "[]"]
    by (simp add: ResponseUnpack_def)
qed

theorem invoke_timeout_reply_witness:
  "\<exists>pkg. InvokeTimeout (frame (encRequest ping_request)) = Inr pkg \<and> ResponseUnpack pkg
    = (zero_response\<lparr>rsIRequestId := rqIRequestId ping_request, rsIRet := 1,
        rsSResultDesc := ascii ''server invoke timeout''\<rparr>, None)"
  by (rule invoke_timeout_reply) simp

end
