(* ===== verification/Servant_Protocol.thy ===== *)
theory Servant_Protocol
  imports Filters Protocol
begin

text \<open>
  A call at the server: \<^verbatim>\<open>Protocol.Invoke\<close> of \<^verbatim>\<open>tars/tarsprotocol.go\<close>, from the bytes of a
  package to the bytes of its answer. \<open>serveRequest\<close> is what \<^verbatim>\<open>Invoke\<close> does between reading the
  request and packing the response. The dispatcher, generated from a Tars file, is an argument;
  the clock is read at most three times. A filter or the dispatcher may change everything it is
  given pointers to, the request packet included, so the shared status map is covered by
  what they return.
\<close>

section \<open>Invoke\<close>

record ('f, 'w, 'm) servant =
  spFilters :: "('f, 'w, 'm) filters"
  spDispatcher :: "('f, 'w) Dispatch"
  spServerImp :: 'f
  spWithContext :: bool

definition NewTarsProtocol ::
    "('f, 'w, 'm) filters \<Rightarrow> ('f, 'w) Dispatch \<Rightarrow> 'f \<Rightarrow> bool \<Rightarrow> ('f, 'w, 'm) servant" where
  "NewTarsProtocol app dispatcher imp withContext =
     \<lparr>spFilters = app, spDispatcher = dispatcher, spServerImp = imp, spWithContext = withContext\<rparr>"

text \<open>The clock in milliseconds at the start, at the check of the timeout and at the end.\<close>

record Clock =
  ckStart :: int64
  ckNow :: int64
  ckEnd :: int64

text \<open>The arguments of \<^verbatim>\<open>ReportStatFromServer\<close>.\<close>

record ServerReport =
  srInterfaceName :: gostring
  srMasterName :: gostring
  srReturnValue :: int32
  srTotalRspTime :: int64

definition takeDyeing :: "RequestPacket \<Rightarrow> Ctx \<Rightarrow> Ctx" where
  "takeDyeing req ctx =
     (if HasMessageType TARSMESSAGETYPEDYED req
      then (case map_of (rqStatus req) StatusDyedKey of
              Some dyeingKey \<Rightarrow> snd (SetDyeingKey dyeingKey ctx) | None \<Rightarrow> ctx)
      else ctx)"

definition takeTrace :: "64 word \<Rightarrow> RequestPacket \<Rightarrow> Ctx \<Rightarrow> Ctx" where
  "takeTrace traceParamMaxLen req ctx =
     (if HasMessageType TARSMESSAGETYPETRACE req
      then (case map_of (rqStatus req) StatusTraceKey of
              Some traceKey \<Rightarrow> snd (InitTarsTrace traceParamMaxLen traceKey ctx) | None \<Rightarrow> ctx)
      else ctx)"

definition queueTimeout :: "bool \<Rightarrow> RequestPacket \<Rightarrow> int64 \<Rightarrow> int64 \<Rightarrow> bool" where
  "queueTimeout ok req now recvPkgTs \<longleftrightarrow>
     ok \<and> sint (rqITimeout req) > 0 \<and> sint (now - recvPkgTs) > sint (rqITimeout req)"

text \<open>The loops over the old filters: each overwrites the error of the one before.\<close>

fun runFilters ::
    "('a, 's) callFilter list \<Rightarrow> ('a, 's) callee \<Rightarrow> 'a \<Rightarrow> goError option \<Rightarrow> 's \<Rightarrow> gerr + goError option \<times> 's" where
  "runFilters [] d x err s = Inr (err, s)"
| "runFilters (v # vs) d x err s =
     (case v d x s of Inl e \<Rightarrow> Inl e | Inr (err, s) \<Rightarrow> runFilters vs d x err s)"

definition callServant :: "('f, 'w, 'm) servant \<Rightarrow> 'w inv \<Rightarrow> gerr + goError option \<times> 'w inv" where
  "callServant p s =
     (let d = spDispatcher p; x = (spServerImp p, spWithContext p) in
      case flSf (spFilters p) of
        Some sf \<Rightarrow> sf d x s
      | None \<Rightarrow>
          (case getMiddlewareServerFilter (spFilters p) of
             Some sf \<Rightarrow> sf d x s
           | None \<Rightarrow>
               (case runFilters (flPreSfs (spFilters p)) d x None s of
                  Inl e \<Rightarrow> Inl e
                | Inr (_, s) \<Rightarrow>
                    (case d x s of
                       Inl e \<Rightarrow> Inl e
                     | Inr (err, s) \<Rightarrow> runFilters (flPostSfs (spFilters p)) d x err s))))"

definition putError :: "goError option \<Rightarrow> ResponsePacket \<Rightarrow> ResponsePacket" where
  "putError err rsp =
     (case err of
        None \<Rightarrow> rsp
      | Some err \<Rightarrow>
          let rsp = rsp\<lparr>rsIRet := 1, rsSResultDesc := goError_Error err\<rparr>
          in (case err of RpcError code _ \<Rightarrow> rsp\<lparr>rsIRet := code\<rparr> | PlainError _ \<Rightarrow> rsp))"

definition serveBody ::
    "('f, 'w, 'm) servant \<Rightarrow> bool \<Rightarrow> int64 \<Rightarrow> int64 \<Rightarrow> 'w inv \<Rightarrow> gerr + 'w inv" where
  "serveBody p ok recvPkgTs now s =
     (if queueTimeout ok (ivReq s) now recvPkgTs
      then Inr (s\<lparr>ivRsp := (ivRsp s)\<lparr>rsIRet := TARSSERVERQUEUETIMEOUT\<rparr>\<rparr>)
      else if rqSFuncName (ivReq s) \<noteq> ascii ''tars_ping''
      then (let ctx = ivCtx s;
                ctx = (if spWithContext p
                       then snd (SetRequestContext (Some (rqContext (ivReq s)))
                              (snd (SetRequestStatus (Some (rqStatus (ivReq s))) ctx)))
                       else ctx)
            in (case callServant p (s\<lparr>ivCtx := ctx\<rparr>) of
                  Inl e \<Rightarrow> Inl e
                | Inr (err, s) \<Rightarrow> Inr (s\<lparr>ivRsp := putError err (ivRsp s)\<rparr>)))
      else Inr s)"

definition serverReports :: "int8 \<Rightarrow> int64 \<Rightarrow> int64 \<Rightarrow> 'w inv \<Rightarrow> ServerReport list" where
  "serverReports packetType recvPkgTs endTime s =
     (let report = \<lambda>master. \<lparr>srInterfaceName = rqSFuncName (ivReq s), srMasterName = master,
            srReturnValue = rsIRet (ivRsp s), srTotalRspTime = endTime - recvPkgTs\<rparr>
      in if packetType = TARSONEWAY then [report (ascii ''one_way_client'')]
         else if packetType = TARSNORMAL then [report (ascii ''stat_from_server'')]
         else [])"

definition serveRequest ::
    "('f, 'w, 'm) servant \<Rightarrow> 64 word \<Rightarrow> Clock \<Rightarrow> RequestPacket \<Rightarrow> Ctx \<Rightarrow> 'w
       \<Rightarrow> gerr + 'w inv \<times> ServerReport list" where
  "serveRequest p traceParamMaxLen clock req ctx w =
     (let ctx = takeTrace traceParamMaxLen req (takeDyeing req ctx);
          (recvPkgTs, ok) = GetRecvPkgTsFromContext ctx;
          recvPkgTs = (if ok then recvPkgTs else ckStart clock);
          rsp = zero_response\<lparr>rsIVersion := rqIVersion req, rsIRequestId := rqIRequestId req\<rparr>
      in (case serveBody p ok recvPkgTs (ckNow clock) \<lparr>ivCtx = ctx, ivReq = req, ivRsp = rsp, ivWorld = w\<rparr> of
            Inl e \<Rightarrow> Inl e
          | Inr s \<Rightarrow>
              let s = s\<lparr>ivRsp := (ivRsp s)\<lparr>rsCPacketType := rqCPacketType (ivReq s)\<rparr>\<rparr>;
                  s = s\<lparr>ivCtx := snd (SetPacketTypeFromContext (rsCPacketType (ivRsp s)) (ivCtx s))\<rparr>
              in Inr (s, serverReports (rqCPacketType req) recvPkgTs (ckEnd clock) s)))"

text \<open>The error of \<^verbatim>\<open>ReadFrom\<close> is ignored: the packet holds what was read before it.\<close>

definition Invoke ::
    "('f, 'w, 'm) servant \<Rightarrow> 64 word \<Rightarrow> Clock \<Rightarrow> bytes \<Rightarrow> Ctx \<Rightarrow> 'w
       \<Rightarrow> gerr + bytes \<times> 'w inv \<times> ServerReport list" where
  "Invoke p traceParamMaxLen clock req ctx w =
     (if length req < 4 then Inl (Panic ''slice bounds out of range'')
      else (case RequestPacket_ReadFrom zero_request (NewReader (drop 4 req)) of
          (_, Some (Panic m), _) \<Rightarrow> Inl (Panic m)
        | (reqPackage, _, _) \<Rightarrow>
            (case serveRequest p traceParamMaxLen clock reqPackage ctx w of
               Inl e \<Rightarrow> Inl e
             | Inr (s, reports) \<Rightarrow> Inr (rsp2Byte (ivRsp s), s, reports))))"

section \<open>Behaviour\<close>

lemma putError_None [simp]: "putError None rsp = rsp"
  by (simp add: putError_def)

lemma putError_fields [simp]:
  "rsIVersion (putError err rsp) = rsIVersion rsp" "rsIRequestId (putError err rsp) = rsIRequestId rsp"
  "rsSBuffer (putError err rsp) = rsSBuffer rsp" "rsStatus (putError err rsp) = rsStatus rsp"
  "rsContext (putError err rsp) = rsContext rsp"
  "rsIRet (putError (Some e) rsp) = GetErrorCode (Some e)"
  "rsSResultDesc (putError (Some e) rsp) = goError_Error e"
  by (simp_all add: putError_def GetErrorCode_def Let_def split: goError.splits option.splits)

text \<open>On a packed request \<^verbatim>\<open>Invoke\<close> is \<open>serveRequest\<close> on the packet.\<close>

lemma Invoke_packed:
  assumes "okRequest req" and "RequestPack req = (pkg, None)"
  shows "Invoke p traceLen clock pkg ctx w =
    (case serveRequest p traceLen clock req ctx w of
       Inl e \<Rightarrow> Inl e | Inr (s, reports) \<Rightarrow> Inr (rsp2Byte (ivRsp s), s, reports))"
proof -
  have pkg: "pkg = frame (encRequest req)"
    using assms by (simp add: RequestPack_frame)
  then show ?thesis
    using RequestPacket_ReadFrom_fresh [OF assms(1), of zero_request "NewReader (encRequest req)" "[]"]
    by (simp add: Invoke_def)
qed

lemma current_after_keys:
  "cxCurrent (takeTrace n req (takeDyeing req ctx)) = None \<longleftrightarrow> cxCurrent ctx = None"
  by (auto simp: takeTrace_def takeDyeing_def InitTarsTrace_def SetTarsTrace_def SetDyeingKey_def
      setCurrent_def split: option.splits prod.splits)

lemma recv_ts_after_keys:
  "GetRecvPkgTsFromContext (takeTrace n req (takeDyeing req ctx)) = GetRecvPkgTsFromContext ctx"
  by (auto simp: takeTrace_def takeDyeing_def InitTarsTrace_def SetTarsTrace_def SetDyeingKey_def
      GetRecvPkgTsFromContext_def fromCurrent_def setCurrent_def split: option.splits prod.splits)

text \<open>The packet type the transport reads afterwards is that of the request.\<close>

lemma serveRequest_packet_type:
  assumes "serveRequest p n clock req ctx w = Inr (s, reports)"
  shows "rsCPacketType (ivRsp s) = rqCPacketType (ivReq s)
    \<and> (cxCurrent (ivCtx s) \<noteq> None \<longrightarrow> GetPacketTypeFromContext (ivCtx s) = (rqCPacketType (ivReq s), True))"
  using assms
  by (auto simp: serveRequest_def Let_def GetPacketTypeFromContext_def SetPacketTypeFromContext_def
      context_defs split: sum.splits prod.splits option.splits)

text \<open>What \<^verbatim>\<open>Invoke\<close> hands to the filters and the dispatcher.\<close>

definition callState :: "('f, 'w, 'm) servant \<Rightarrow> 64 word \<Rightarrow> RequestPacket \<Rightarrow> Ctx \<Rightarrow> 'w \<Rightarrow> 'w inv" where
  "callState p n req ctx w =
     (let ctx = takeTrace n req (takeDyeing req ctx) in
      \<lparr>ivCtx = if spWithContext p
          then snd (SetRequestContext (Some (rqContext req)) (snd (SetRequestStatus (Some (rqStatus req)) ctx)))
          else ctx,
       ivReq = req,
       ivRsp = zero_response\<lparr>rsIVersion := rqIVersion req, rsIRequestId := rqIRequestId req\<rparr>,
       ivWorld = w\<rparr>)"

text \<open>The answer to a request that is not dispatched.\<close>

definition ownReply :: "int32 \<Rightarrow> RequestPacket \<Rightarrow> ResponsePacket" where
  "ownReply ret req = zero_response\<lparr>rsIVersion := rqIVersion req, rsIRequestId := rqIRequestId req,
     rsIRet := ret, rsCPacketType := rqCPacketType req\<rparr>"

definition expired :: "Ctx \<Rightarrow> Clock \<Rightarrow> RequestPacket \<Rightarrow> bool" where
  "expired ctx clock req \<longleftrightarrow>
     (case GetRecvPkgTsFromContext ctx of (recvPkgTs, ok) \<Rightarrow> queueTimeout ok req (ckNow clock) recvPkgTs)"

lemma expired_queueTimeout:
  "GetRecvPkgTsFromContext ctx = (t, ok) \<Longrightarrow>
   queueTimeout ok req (ckNow clock) (if ok then t else u) = expired ctx clock req"
  by (auto simp: expired_def queueTimeout_def)

lemma serveRequest_dispatched:
  assumes "\<not> expired ctx clock req" and "rqSFuncName req \<noteq> ascii ''tars_ping''"
    and "callServant p (callState p n req ctx w) = Inr (err, s)"
  shows "\<exists>s' reports. serveRequest p n clock req ctx w = Inr (s', reports) \<and> ivWorld s' = ivWorld s
    \<and> ivReq s' = ivReq s \<and> (cxCurrent (ivCtx s') = None \<longleftrightarrow> cxCurrent (ivCtx s) = None)
    \<and> ivRsp s' = (putError err (ivRsp s))\<lparr>rsCPacketType := rqCPacketType (ivReq s)\<rparr>"
proof -
  obtain t ok where ts: "GetRecvPkgTsFromContext ctx = (t, ok)"
    by (cases "GetRecvPkgTsFromContext ctx")
  note q = expired_queueTimeout [OF ts, of req clock "ckStart clock"]
  show ?thesis
    using assms q
    by (cases ok; cases "spWithContext p")
      (simp_all add: serveRequest_def serveBody_def callState_def Let_def recv_ts_after_keys ts
        SetPacketTypeFromContext_def)
qed

lemma serveRequest_fails:
  assumes "\<not> expired ctx clock req" and "rqSFuncName req \<noteq> ascii ''tars_ping''"
    and "callServant p (callState p n req ctx w) = Inl e"
  shows "serveRequest p n clock req ctx w = Inl e"
proof -
  obtain t ok where ts: "GetRecvPkgTsFromContext ctx = (t, ok)"
    by (cases "GetRecvPkgTsFromContext ctx")
  note q = expired_queueTimeout [OF ts, of req clock "ckStart clock"]
  show ?thesis
    using assms q
    by (cases ok; cases "spWithContext p")
      (simp_all add: serveRequest_def serveBody_def callState_def Let_def recv_ts_after_keys ts)
qed

lemma serveRequest_own:
  assumes "expired ctx clock req \<or> rqSFuncName req = ascii ''tars_ping''"
  shows "\<exists>s reports. serveRequest p n clock req ctx w = Inr (s, reports) \<and> ivWorld s = w \<and> ivReq s = req
    \<and> (cxCurrent (ivCtx s) = None \<longleftrightarrow> cxCurrent ctx = None)
    \<and> ivRsp s = ownReply (if expired ctx clock req then TARSSERVERQUEUETIMEOUT else 0) req"
proof -
  obtain t ok where ts: "GetRecvPkgTsFromContext ctx = (t, ok)"
    by (cases "GetRecvPkgTsFromContext ctx")
  note q = expired_queueTimeout [OF ts, of req clock "ckStart clock"]
  show ?thesis
    using assms q
    by (cases ok; cases "expired ctx clock req")
      (simp_all add: serveRequest_def serveBody_def Let_def recv_ts_after_keys ts ownReply_def
        zero_response_def SetPacketTypeFromContext_def current_after_keys)
qed

lemma callServant_plain:
  "spFilters p = no_filters \<Longrightarrow>
   callServant p s = spDispatcher p (spServerImp p, spWithContext p) s"
  by (auto simp: callServant_def no_filters_def getMiddlewareServerFilter_def Let_def
      split: sum.splits)

lemma callServant_filter:
  assumes "flSf (spFilters p) = None" and "getMiddlewareServerFilter (spFilters p) = Some filt"
  shows "callServant p s = filt (spDispatcher p) (spServerImp p, spWithContext p) s"
  using assms by (simp add: callServant_def Let_def)

lemma ok_ownReply [simp]: "okResponse (ownReply ret req)"
  by (simp add: okResponse_def ownReply_def zero_response_def okStrMap_def)

lemma ownReply_version [simp]: "rsIVersion (ownReply ret req) = rqIVersion req"
  by (simp add: ownReply_def)

lemma Invoke_unpack:
  assumes "okRequest req" and "RequestPack req = (pkg, None)"
    and "serveRequest p n clock req ctx w = Inr (s, reports)"
    and "okResponse (ivRsp s)" and "rsIVersion (ivRsp s) \<noteq> TUPVERSION"
  shows "\<exists>bs. Invoke p n clock pkg ctx w = Inr (bs, s, reports) \<and> ResponseUnpack bs = (ivRsp s, None)"
  using assms ResponsePacket_ReadFrom_enc [OF assms(4), of zero_response "NewReader (encResponse (ivRsp s))" "[]"]
  by (simp add: Invoke_packed rsp2Byte_frame ResponseUnpack_def)

section \<open>Properties\<close>

text \<open>A servant for the witnesses: it echoes the buffer, counts its calls, and knows one function.\<close>

definition echo_dispatch :: "(unit, nat) Dispatch" where
  "echo_dispatch = (\<lambda>x s.
     if rqSFuncName (ivReq s) = ascii ''echo''
     then Inr (None, s\<lparr>ivRsp := (ivRsp s)\<lparr>rsSBuffer := rqSBuffer (ivReq s)\<rparr>, ivWorld := Suc (ivWorld s)\<rparr>)
     else Inr (Some (RpcError (- 3) (ascii ''no function'')), s\<lparr>ivWorld := Suc (ivWorld s)\<rparr>))"

definition echo_servant :: "(unit, nat, unit) servant" where
  "echo_servant = NewTarsProtocol no_filters echo_dispatch () False"

definition echo_request :: "gostring \<Rightarrow> RequestPacket" where
  "echo_request fn = zero_request\<lparr>rqIRequestId := 5, rqSFuncName := fn, rqSBuffer := [1, 2], rqITimeout := 10\<rparr>"

definition bare_ctx :: Ctx where
  "bare_ctx = \<lparr>cxCurrent = None, cxClient = None\<rparr>"

lemma ok_echo_request: "length fn < 2 ^ 32 \<Longrightarrow> okRequest (echo_request fn)"
  by (simp add: okRequest_def echo_request_def zero_request_def okStrMap_def)

lemma packed: "okRequest req \<Longrightarrow> RequestPack req = (fst (RequestPack req), None)"
  by (simp add: RequestPack_frame)

lemma bare_not_expired [simp]: "\<not> expired bare_ctx clock req"
  by (simp add: expired_def queueTimeout_def bare_ctx_def GetRecvPkgTsFromContext_def fromCurrent_def)

text \<open>A call is answered as if the dispatcher had been called locally: the client that packs a
  request gets, unpacked, the response the dispatcher left, with the request's packet type and, if
  the dispatcher returned an error, the error's code and text in it.\<close>

theorem remote_call:
  assumes "okRequest req" and "RequestPack req = (pkg, None)" and "spFilters p = no_filters"
    and "\<not> expired ctx clock req" and "rqSFuncName req \<noteq> ascii ''tars_ping''"
    and "spDispatcher p (spServerImp p, spWithContext p) (callState p n req ctx w) = Inr (err, s)"
    and "okResponse (putError err (ivRsp s))" and "rsIVersion (ivRsp s) \<noteq> TUPVERSION"
  shows "\<exists>bs s' reports rsp. Invoke p n clock pkg ctx w = Inr (bs, s', reports) \<and> ivWorld s' = ivWorld s
    \<and> ResponseUnpack bs = (rsp, None) \<and> rsCPacketType rsp = rqCPacketType (ivReq s)
    \<and> rsIRequestId rsp = rsIRequestId (ivRsp s) \<and> rsSBuffer rsp = rsSBuffer (ivRsp s)
    \<and> rsIRet rsp = (if err = None then rsIRet (ivRsp s) else GetErrorCode err)
    \<and> rsSResultDesc rsp = (case err of None \<Rightarrow> rsSResultDesc (ivRsp s) | Some e \<Rightarrow> goError_Error e)"
proof -
  have call: "callServant p (callState p n req ctx w) = Inr (err, s)"
    using assms(3,6) by (simp add: callServant_plain)
  obtain s' reports where s': "serveRequest p n clock req ctx w = Inr (s', reports)"
    "ivWorld s' = ivWorld s" "ivRsp s' = (putError err (ivRsp s))\<lparr>rsCPacketType := rqCPacketType (ivReq s)\<rparr>"
    using serveRequest_dispatched [OF assms(4,5) call] by blast
  have "okResponse (ivRsp s')" "rsIVersion (ivRsp s') \<noteq> TUPVERSION"
    using assms(7,8) by (simp_all add: s' okResponse_def)
  from Invoke_unpack [OF assms(1,2) s'(1) this] show ?thesis
    using s'(2,3) by (cases err) auto
qed

theorem remote_call_witness:
  "\<exists>bs s' reports rsp. Invoke echo_servant 1 \<lparr>ckStart = 0, ckNow = 0, ckEnd = 0\<rparr>
      (fst (RequestPack (echo_request (ascii ''echo'')))) bare_ctx 3 = Inr (bs, s', reports) \<and> ivWorld s' = 4
    \<and> ResponseUnpack bs = (rsp, None) \<and> rsSBuffer rsp = [1, 2] \<and> rsIRet rsp = 0"
proof -
  let ?req = "echo_request (ascii ''echo'')"
  let ?s = "callState echo_servant 1 ?req bare_ctx 3"
  have ok: "okRequest ?req" by (rule ok_echo_request) (simp add: ascii_def)
  have fn: "rqSFuncName ?req \<noteq> ascii ''tars_ping''" by (simp add: echo_request_def ascii_def)
  have d: "spDispatcher echo_servant (spServerImp echo_servant, spWithContext echo_servant) ?s
    = Inr (None, ?s\<lparr>ivRsp := (ivRsp ?s)\<lparr>rsSBuffer := [1, 2]\<rparr>, ivWorld := 4\<rparr>)"
    by (simp add: echo_servant_def NewTarsProtocol_def echo_dispatch_def callState_def Let_def
        echo_request_def)
  have "spFilters echo_servant = no_filters"
    by (simp add: echo_servant_def NewTarsProtocol_def)
  from remote_call [OF ok packed [OF ok] this bare_not_expired fn d,
      of "\<lparr>ckStart = 0, ckNow = 0, ckEnd = 0\<rparr>"]
  show ?thesis
    by (auto simp: putError_def callState_def Let_def echo_request_def zero_request_def
        zero_response_def okResponse_def okStrMap_def TUPVERSION_def)
qed


definition late_ctx :: Ctx where
  "late_ctx = bare_ctx\<lparr>cxCurrent := Some (newCurrent\<lparr>cuRecvPkgTs := 100\<rparr>)\<rparr>"


text \<open>Middlewares that work before and after the call do their first parts in the order in which
  they were used and their second parts in the reverse order; a middleware that answers by itself
  hides the dispatcher and all middlewares behind it, and only those before it see its answer.\<close>

theorem middleware_order:
  fixes p :: "('f, 'w, 'm) servant"
  defines "run \<equiv> \<lambda>ps d s. case d (spServerImp p, spWithContext p) (fold fst ps s) of
     Inl e \<Rightarrow> Inl e | Inr (err, s) \<Rightarrow> Inr (err, foldr (\<lambda>q. snd q err) ps s)"
  shows "(ps \<noteq> [] \<and> spFilters p = UseServerFilterMiddleware (map (\<lambda>(b, a). around b a) ps) no_filters
        \<longrightarrow> callServant p s = run ps (spDispatcher p) s)
    \<and> (spFilters p = UseServerFilterMiddleware (map (\<lambda>(b, a). around b a) ps @ shortcut answer # ms) no_filters
        \<longrightarrow> callServant p s = run ps answer s)"
proof (intro conjI impI; (elim conjE)?)
  have old: "spFilters p = UseServerFilterMiddleware ms no_filters \<Longrightarrow> flSf (spFilters p) = None" for ms
    by (simp add: UseServerFilterMiddleware_def no_filters_def)
  {
    assume ps: "ps \<noteq> []"
      and f: "spFilters p = UseServerFilterMiddleware (map (\<lambda>(b, a). around b a) ps) no_filters"
    have "flSfms (spFilters p) \<noteq> []"
      using ps by (simp add: f server_chain.registered_using)
    then obtain filt where filt: "getMiddlewareServerFilter (spFilters p) = Some filt"
      using server_chain.chain_some by blast
    have "flSfms no_filters = []" by (simp add: no_filters_def)
    from server_chain.onion [OF this ps filt [unfolded f]] callServant_filter [OF old [OF f] filt]
    show "callServant p s = run ps (spDispatcher p) s"
      by (simp add: run_def)
  next
    assume f: "spFilters p
      = UseServerFilterMiddleware (map (\<lambda>(b, a). around b a) ps @ shortcut answer # ms) no_filters"
    have reg: "flSfms (spFilters p) = map (\<lambda>(b, a). around b a) ps @ shortcut answer # ms"
      by (simp add: f server_chain.registered_using) (simp add: no_filters_def)
    then obtain filt where filt: "getMiddlewareServerFilter (spFilters p) = Some filt"
      using server_chain.chain_some [of "spFilters p"] by auto
    from server_chain.rejects [OF reg filt] callServant_filter [OF old [OF f] filt]
    show "callServant p s = run ps answer s"
      by (simp add: run_def)
  }
qed

text \<open>Two middlewares that leave their marks in the world.\<close>

definition marking :: "nat \<Rightarrow> ('f \<times> bool, nat list inv) middleware" where
  "marking k = around (\<lambda>s. s\<lparr>ivWorld := ivWorld s @ [k]\<rparr>) (\<lambda>err s. s\<lparr>ivWorld := ivWorld s @ [k + 1]\<rparr>)"

definition marked_servant :: "(unit, nat list, unit) servant" where
  "marked_servant = NewTarsProtocol
     (UseServerFilterMiddleware [marking 10, marking 20] no_filters)
     (\<lambda>x s. Inr (None, s\<lparr>ivWorld := ivWorld s @ [0]\<rparr>)) () False"

theorem middleware_order_witness:
  "\<exists>s. callServant marked_servant (callState marked_servant 1 zero_request bare_ctx []) = Inr (None, s)
     \<and> ivWorld s = [10, 20, 0, 21, 11]"
proof -
  let ?mark = "\<lambda>k. (\<lambda>s. s\<lparr>ivWorld := ivWorld s @ [k]\<rparr>, \<lambda>err s. s\<lparr>ivWorld := ivWorld s @ [k + 1]\<rparr>)"
  have "spFilters marked_servant
      = UseServerFilterMiddleware (map (\<lambda>(b, a). around b a) [?mark 10, ?mark 20]) no_filters"
    by (simp add: marked_servant_def NewTarsProtocol_def marking_def)
  with middleware_order [of "[?mark 10, ?mark 20]" marked_servant
      "callState marked_servant 1 zero_request bare_ctx []"]
  show ?thesis
    by (simp add: marked_servant_def NewTarsProtocol_def callState_def Let_def)
qed

text \<open>One post filter that succeeds hides the error of the dispatcher: the client gets the
  response as the dispatcher left it, as after a success.\<close>

theorem post_filter_hides_error:
  assumes "okRequest req" and "RequestPack req = (pkg, None)"
    and "spFilters p = registerPostServerFilter (\<lambda>d x s. Inr (None, s\<lparr>ivWorld := log (ivWorld s)\<rparr>)) no_filters"
    and "\<not> expired ctx clock req" and "rqSFuncName req \<noteq> ascii ''tars_ping''"
    and "spDispatcher p (spServerImp p, spWithContext p) (callState p n req ctx w) = Inr (Some e, s)"
    and "okResponse (ivRsp s)" and "rsIVersion (ivRsp s) \<noteq> TUPVERSION"
  shows "\<exists>bs s' reports. Invoke p n clock pkg ctx w = Inr (bs, s', reports)
    \<and> ResponseUnpack bs = ((ivRsp s)\<lparr>rsCPacketType := rqCPacketType (ivReq s)\<rparr>, None)"
proof -
  have "callServant p (callState p n req ctx w) = Inr (None, s\<lparr>ivWorld := log (ivWorld s)\<rparr>)"
    using assms(3,6)
    by (simp add: callServant_def registerPostServerFilter_def no_filters_def
        getMiddlewareServerFilter_def)
  from serveRequest_dispatched [OF assms(4,5) this] obtain s' reports where s':
    "serveRequest p n clock req ctx w = Inr (s', reports)"
    "ivRsp s' = (ivRsp s)\<lparr>rsCPacketType := rqCPacketType (ivReq s)\<rparr>"
    by auto
  have "okResponse (ivRsp s')" "rsIVersion (ivRsp s') \<noteq> TUPVERSION"
    using assms(7,8) by (simp_all add: s' okResponse_def)
  from Invoke_unpack [OF assms(1,2) s'(1) this] s'(2) show ?thesis
    by auto
qed

theorem post_filter_hides_error_witness:
  "\<exists>bs s' reports rsp.
     Invoke (echo_servant\<lparr>spFilters := registerPostServerFilter (\<lambda>d x s. Inr (None, s\<lparr>ivWorld := Suc (ivWorld s)\<rparr>)) no_filters\<rparr>)
       1 \<lparr>ckStart = 0, ckNow = 0, ckEnd = 0\<rparr> (fst (RequestPack (echo_request (ascii ''nope'')))) bare_ctx 3
       = Inr (bs, s', reports)
     \<and> ResponseUnpack bs = (rsp, None) \<and> rsIRet rsp = 0 \<and> rsSResultDesc rsp = []"
proof -
  let ?p = "echo_servant\<lparr>spFilters := registerPostServerFilter (\<lambda>d x s. Inr (None, s\<lparr>ivWorld := Suc (ivWorld s)\<rparr>)) no_filters\<rparr>"
  let ?req = "echo_request (ascii ''nope'')"
  let ?s = "callState ?p 1 ?req bare_ctx 3"
  have ok: "okRequest ?req" by (rule ok_echo_request) (simp add: ascii_def)
  have fn: "rqSFuncName ?req \<noteq> ascii ''tars_ping''" by (simp add: echo_request_def ascii_def)
  have d: "spDispatcher ?p (spServerImp ?p, spWithContext ?p) ?s
    = Inr (Some (RpcError (- 3) (ascii ''no function'')), ?s\<lparr>ivWorld := 4\<rparr>)"
    by (simp add: echo_servant_def NewTarsProtocol_def echo_dispatch_def callState_def Let_def
        echo_request_def ascii_def)
  have f: "spFilters ?p = registerPostServerFilter (\<lambda>d x s. Inr (None, s\<lparr>ivWorld := Suc (ivWorld s)\<rparr>)) no_filters"
    by simp
  from post_filter_hides_error [OF ok packed [OF ok] f bare_not_expired fn d,
      of "\<lparr>ckStart = 0, ckNow = 0, ckEnd = 0\<rparr>"]
  show ?thesis
    by (auto simp: callState_def Let_def echo_request_def zero_request_def
        zero_response_def okResponse_def okStrMap_def TUPVERSION_def)
qed

end
