(* ===== verification/Client_Proxy.thy ===== *)
theory Client_Proxy
  imports Manager_Safety Servant_Protocol
begin

text \<open>
  A call at the client, \<^verbatim>\<open>TarsInvoke\<close> and \<^verbatim>\<open>doInvoke\<close> of \<^verbatim>\<open>tars/servant.go\<close> with \<^verbatim>\<open>Send\<close> of
  \<^verbatim>\<open>tars/adapter.go\<close>. \<^verbatim>\<open>doInvoke\<close> is cut at the points where other goroutines matter into steps on the
  state of the proxy; \<open>doInvoke\<close> runs them one after the other, \<open>Client_Calls\<close> interleaves them with those of
  other calls. The clock, in milliseconds (seconds for the adapter's counters), the result of the transport's
  \<^verbatim>\<open>Send\<close> and the answer are arguments.
\<close>

section \<open>Messages\<close>

definition TARSSERVERSUCCESS :: int32 where "TARSSERVERSUCCESS = 0"
definition TARSINVOKETIMEOUT :: int32 where "TARSINVOKETIMEOUT = - 7"

definition Message_Init :: "int64 \<Rightarrow> Message \<Rightarrow> Message" where
  "Message_Init now m = m\<lparr>mgBeginTime := now\<rparr>"

definition Message_End :: "int64 \<Rightarrow> Message \<Rightarrow> Message" where
  "Message_End now m = m\<lparr>mgEndTime := now\<rparr>"

definition Message_Cost :: "Message \<Rightarrow> int64" where
  "Message_Cost m = mgEndTime m - mgBeginTime m"

definition SetHash :: "uint32 \<Rightarrow> int \<Rightarrow> Message \<Rightarrow> Message" where
  "SetHash code h m = m\<lparr>mgHashCode := code, mgHashType := h, mgIsHash := True\<rparr>"

section \<open>The request\<close>

record ServantProxy =
  sxName :: gostring
  sxTimeout :: int
  sxVersion :: int16
  sxPush :: bool

text \<open>64 is the at sign; the scheme of a name ends with a colon and two slashes.\<close>

fun afterScheme :: "gostring \<Rightarrow> gostring option" where
  "afterScheme [] = None"
| "afterScheme (c # rest) =
     (if take 3 (c # rest) = ascii ''://'' then Some (drop 2 rest) else afterScheme rest)"

definition newServantProxy :: "int \<Rightarrow> gostring \<Rightarrow> ServantProxy" where
  "newServantProxy asyncInvokeTimeout objName =
     (let name = (case strings_Index objName 64 of Some (Suc pos) \<Rightarrow> take (Suc pos) objName | _ \<Rightarrow> objName);
          name = (case afterScheme name of
                    Some rest \<Rightarrow> if length name > length rest + 3 then rest else name | None \<Rightarrow> name)
      in \<lparr>sxName = name, sxTimeout = asyncInvokeTimeout, sxVersion = TARSVERSION, sxPush = False\<rparr>)"

definition TarsSetTimeout :: "int \<Rightarrow> ServantProxy \<Rightarrow> ServantProxy" where
  "TarsSetTimeout t s = s\<lparr>sxTimeout := t\<rparr>"

definition TarsSetVersion :: "int16 \<Rightarrow> ServantProxy \<Rightarrow> ServantProxy" where
  "TarsSetVersion iVersion s = s\<lparr>sxVersion := iVersion\<rparr>"

definition SetPushCallback :: "ServantProxy \<Rightarrow> ServantProxy" where
  "SetPushCallback s = s\<lparr>sxPush := True\<rparr>"

text \<open>The keys that travel in the status of a request, with the bits that announce them.\<close>

definition putDyeing :: "Ctx \<Rightarrow> strmap \<times> int32 \<Rightarrow> strmap \<times> int32" where
  "putDyeing ctx = (\<lambda>(status, msgType).
     case GetDyeingKey ctx of
       (dyeingKey, True) \<Rightarrow> (AList.update StatusDyedKey dyeingKey status, msgType OR TARSMESSAGETYPEDYED)
     | _ \<Rightarrow> (status, msgType))"

definition putTrace :: "Ctx \<Rightarrow> strmap \<times> int32 \<Rightarrow> strmap \<times> int32" where
  "putTrace ctx = (\<lambda>(status, msgType).
     case GetTarsTrace ctx of
       (Some trace, True) \<Rightarrow>
         if trCall trace
         then (AList.update StatusTraceKey (GetTraceFullKey False trace) status, msgType OR TARSMESSAGETYPETRACE)
         else (status, msgType)
     | _ \<Rightarrow> (status, msgType))"

definition newRequest ::
    "ServantProxy \<Rightarrow> int32 \<Rightarrow> byte \<Rightarrow> gostring \<Rightarrow> bytes \<Rightarrow> strmap \<Rightarrow> strmap \<Rightarrow> Ctx \<Rightarrow> RequestPacket" where
  "newRequest s requestID cType sFuncName buf status reqContext ctx =
     (let (status, msgType) = putTrace ctx (putDyeing ctx (status, 0))
      in \<lparr>rqIVersion = sxVersion s, rqCPacketType = ucast cType, rqIMessageType = msgType,
          rqIRequestId = requestID, rqSServantName = sxName s, rqSFuncName = sFuncName,
          rqSBuffer = map ucast buf, rqITimeout = word_of_int (sxTimeout s),
          rqContext = reqContext, rqStatus = status\<rparr>)"

text \<open>The message with the hash and the timeout that the context of the call sets.\<close>

definition newMessage :: "ServantProxy \<Rightarrow> int64 \<Rightarrow> RequestPacket \<Rightarrow> ResponsePacket \<Rightarrow> Ctx \<Rightarrow> Message \<times> int" where
  "newMessage s now req resp ctx =
     (let msg = Message_Init now \<lparr>mgReq = req, mgResp = Some resp, mgBeginTime = 0, mgEndTime = 0, mgStatus = 0,
            mgHashCode = 0, mgHashType = 0, mgIsHash = False\<rparr>;
          msg = (case GetClientHash ctx of
                   (True, hashType, hashCode, isHash) \<Rightarrow>
                     msg\<lparr>mgIsHash := isHash, mgHashType := hashType, mgHashCode := hashCode\<rparr>
                 | _ \<Rightarrow> msg)
      in (case GetClientTimeout ctx of
            (True, to, True) \<Rightarrow> (msg\<lparr>mgReq := req\<lparr>rqITimeout := word_of_int to\<rparr>\<rparr>, to)
          | _ \<Rightarrow> (msg, sxTimeout s)))"

section \<open>The steps of doInvoke\<close>

text \<open>What the calls of a proxy share: the endpoint manager with its adapters, the number of calls under way,
  the channels that wait for responses, by adapter and request id, and the adapters that got the push callback.\<close>

record callWorld =
  cwManager :: endpointManager
  cwQueueLen :: int32
  cwResp :: "nat \<times> int32 \<Rightarrow> nat option"
  cwPushing :: "nat set"

text \<open>What an invocation reads and changes.\<close>

record cinv =
  ciCtx :: Ctx
  ciMsg :: Message
  ciWorld :: callWorld

definition onAdapter :: "nat \<Rightarrow> (AdapterProxy \<Rightarrow> AdapterProxy) \<Rightarrow> cinv \<Rightarrow> cinv" where
  "onAdapter i f s =
     (let e = cwManager (ciWorld s)
      in s\<lparr>ciWorld := (ciWorld s)\<lparr>cwManager := e\<lparr>emAdps := (emAdps e)[i := f (emAdps e ! i)]\<rparr>\<rparr>\<rparr>)"

definition adapterPoint :: "nat \<Rightarrow> cinv \<Rightarrow> EndpointF" where
  "adapterPoint i s = apPoint (emAdps (cwManager (ciWorld s)) ! i)"

text \<open>A run that waits for ever is what Go reports when no goroutine can go on.\<close>

definition runResult :: "'a run \<Rightarrow> gerr + 'a" where
  "runResult r = (case r of
     Done a \<Rightarrow> Inr a | Crashed e \<Rightarrow> Inl e | Blocked \<Rightarrow> Inl (Panic ''all goroutines are asleep''))"

definition di_select :: "(nat \<Rightarrow> nat) \<Rightarrow> cinv \<Rightarrow> gerr + (goError + nat \<times> bool) \<times> cinv" where
  "di_select intn s =
     (case runResult (SelectAdapterProxy intn (ciMsg s) (cwManager (ciWorld s))) of
        Inl e \<Rightarrow> Inl e
      | Inr ((adp, needCheck), e) \<Rightarrow>
          Inr (case adp of
                 None \<Rightarrow> Inl (PlainError (ascii ''no adapter Proxy selected:'' @ rqSServantName (mgReq (ciMsg s))))
               | Some i \<Rightarrow> Inr (i, needCheck),
               s\<lparr>ciWorld := (ciWorld s)\<lparr>cwManager := e\<rparr>\<rparr>))"

definition di_admit :: "int \<Rightarrow> cinv \<Rightarrow> goError option" where
  "di_admit objQueueMax s =
     (if sint (cwQueueLen (ciWorld s)) > objQueueMax
      then Some (PlainError (ascii ''invoke queue is full:'' @ rqSServantName (mgReq (ciMsg s)))) else None)"

definition di_register :: "bool \<Rightarrow> nat \<Rightarrow> nat \<Rightarrow> cinv \<Rightarrow> cinv" where
  "di_register push i readCh s =
     (let ep = adapterPoint i s;
          ctx = snd (SetServerPortWithContext (fmt_d (sint (efPort ep)))
                  (snd (SetServerIPWithContext (efHost ep) (ciCtx s))));
          w = ciWorld s
      in s\<lparr>ciCtx := ctx, ciWorld := w\<lparr>cwQueueLen := cwQueueLen w + 1,
           cwResp := (cwResp w)((i, rqIRequestId (mgReq (ciMsg s))) \<mapsto> readCh),
           cwPushing := (if push then insert i (cwPushing w) else cwPushing w)\<rparr>\<rparr>)"

text \<open>\<open>sent\<close> is the error of packing or of the transport. The call is over, with its result, or goes on to wait.\<close>

definition di_send :: "nat \<Rightarrow> int \<Rightarrow> goError option \<Rightarrow> cinv \<Rightarrow> goError option option \<times> cinv" where
  "di_send i now sent s =
     (let s = onAdapter i sendAdd s in
      case sent of
        Some err \<Rightarrow> (Some (Some err), onAdapter i failAdd s)
      | None \<Rightarrow>
          if rqCPacketType (mgReq (ciMsg s)) = TARSONEWAY then (Some None, onAdapter i (successAdd now) s)
          else (None, s))"

definition di_timeout :: "nat \<Rightarrow> int64 \<Rightarrow> cinv \<Rightarrow> goError \<times> cinv" where
  "di_timeout i nowMs s =
     (let s = onAdapter i failAdd (s\<lparr>ciMsg := (ciMsg s)\<lparr>mgStatus := TARSINVOKETIMEOUT\<rparr>\<rparr>);
          s = s\<lparr>ciMsg := Message_End nowMs (ciMsg s)\<rparr>;
          m = ciMsg s; ep = adapterPoint i s
      in (PlainError (ascii ''request timeout, begin time:'' @ fmt_d (sint (mgBeginTime m))
            @ ascii '', cost:'' @ fmt_d (sint (Message_Cost m)) @ ascii '', obj:'' @ rqSServantName (mgReq m)
            @ ascii '', func:'' @ rqSFuncName (mgReq m) @ ascii '', addr:('' @ efHost ep @ ascii '':''
            @ fmt_d (sint (efPort ep)) @ ascii ''), reqid:'' @ fmt_d (sint (rqIRequestId (mgReq m)))), s))"

text \<open>The error that a response stands for.\<close>

definition respError :: "int32 \<Rightarrow> ResponsePacket \<Rightarrow> goError option" where
  "respError status rsp =
     (if status \<noteq> TARSSERVERSUCCESS \<or> rsIRet rsp \<noteq> 0 then
        if rsSResultDesc rsp = [] then Some (PlainError (ascii ''basef error code '' @ fmt_d (sint (rsIRet rsp))))
        else if rsIRet rsp \<noteq> 0 \<and> rsIRet rsp \<noteq> 1 then Some (RpcError (rsIRet rsp) (rsSResultDesc rsp))
        else Some (PlainError (rsSResultDesc rsp))
      else None)"

text \<open>The reset of a probed adapter, which \<^verbatim>\<open>doInvoke\<close> starts as a goroutine, is \<open>probeAnswered\<close>.\<close>

definition di_answer :: "nat \<Rightarrow> int \<Rightarrow> ResponsePacket \<Rightarrow> cinv \<Rightarrow> goError option \<times> cinv" where
  "di_answer i now rsp s =
     (let s = onAdapter i (successAdd now) (s\<lparr>ciMsg := (ciMsg s)\<lparr>mgResp := Some rsp\<rparr>\<rparr>)
      in (respError (mgStatus (ciMsg s)) rsp, s))"

definition di_leave :: "nat \<Rightarrow> cinv \<Rightarrow> cinv" where
  "di_leave i s =
     (let w = ciWorld s
      in s\<lparr>ciWorld := w\<lparr>cwQueueLen := cwQueueLen w - 1,
           cwResp := (cwResp w)((i, rqIRequestId (mgReq (ciMsg s))) := None)\<rparr>\<rparr>)"

section \<open>A call alone\<close>

text \<open>What a call meets: the random source, the limit of the queue, the clock, whether sending fails, and the
  response, if it comes in time.\<close>

record callEnv =
  ceIntn :: "nat \<Rightarrow> nat"
  ceQueueMax :: int
  ceNow :: int
  ceNowMs :: int64
  ceSent :: "goError option"
  ceReply :: "ResponsePacket option"
  cePush :: bool
  ceCh :: nat
  ceMd5 :: "bytes \<Rightarrow> bytes"

definition di_wait :: "callEnv \<Rightarrow> nat \<Rightarrow> bool \<Rightarrow> cinv \<Rightarrow> gerr + goError option \<times> cinv" where
  "di_wait env i needCheck s =
     (case ceReply env of
        None \<Rightarrow> (case di_timeout i (ceNowMs env) s of (err, s) \<Rightarrow> Inr (Some err, s))
      | Some rsp \<Rightarrow>
          (case di_answer i (ceNow env) rsp s of
             (err, s) \<Rightarrow>
               if needCheck
               then (case runResult (probeAnswered (ceMd5 env) (ceIntn env) (ceNow env) i (cwManager (ciWorld s))) of
                       Inl e \<Rightarrow> Inl e
                     | Inr e \<Rightarrow> Inr (err, s\<lparr>ciWorld := (ciWorld s)\<lparr>cwManager := e\<rparr>\<rparr>))
               else Inr (err, s)))"

definition doInvoke :: "callEnv \<Rightarrow> (int, cinv) callee" where
  "doInvoke env timeout s =
     (case di_select (ceIntn env) s of
        Inl e \<Rightarrow> Inl e
      | Inr (Inl err, s) \<Rightarrow> Inr (Some err, s)
      | Inr (Inr (i, needCheck), s) \<Rightarrow>
          (case di_admit (ceQueueMax env) s of
             Some err \<Rightarrow> Inr (Some err, s)
           | None \<Rightarrow>
               (case di_send i (ceNow env) (ceSent env) (di_register (cePush env) i (ceCh env) s) of
                  (Some err, s) \<Rightarrow> Inr (err, di_leave i s)
                | (None, s) \<Rightarrow>
                    (case di_wait env i needCheck s of
                       Inl e \<Rightarrow> Inl e
                     | Inr (err, s) \<Rightarrow> Inr (err, di_leave i s)))))"

section \<open>TarsInvoke\<close>

text \<open>The old client filters: errors of pre and post filters are logged only, so unlike at the server they do
  not replace the error of the call.\<close>

fun runClientFilters :: "(int, cinv) callFilter list \<Rightarrow> (int, cinv) callee \<Rightarrow> int \<Rightarrow> cinv \<Rightarrow> gerr + cinv" where
  "runClientFilters [] d timeout s = Inr s"
| "runClientFilters (v # vs) d timeout s =
     (case v d timeout s of Inl e \<Rightarrow> Inl e | Inr (_, s) \<Rightarrow> runClientFilters vs d timeout s)"

definition callClient ::
    "('f, 'w, cinv) filters \<Rightarrow> (int, cinv) callee \<Rightarrow> int \<Rightarrow> cinv \<Rightarrow> gerr + goError option \<times> cinv" where
  "callClient fs d timeout s =
     (case flCf fs of
        Some cf \<Rightarrow> cf d timeout s
      | None \<Rightarrow>
          (case getMiddlewareClientFilter fs of
             Some cf \<Rightarrow> cf d timeout s
           | None \<Rightarrow>
               (case runClientFilters (flPreCfs fs) d timeout s of
                  Inl e \<Rightarrow> Inl e
                | Inr s \<Rightarrow>
                    (case d timeout s of
                       Inl e \<Rightarrow> Inl e
                     | Inr (err, s) \<Rightarrow>
                         (case runClientFilters (flPostCfs fs) d timeout s of
                            Inl e \<Rightarrow> Inl e | Inr s \<Rightarrow> Inr (err, s))))))"

text \<open>The counts of successes, timeouts and failures that are reported for a call.\<close>

record ClientReport =
  crSucc :: int32
  crTimeout :: int32
  crExec :: int32

definition clientReport :: "goError option \<Rightarrow> Message \<Rightarrow> ClientReport" where
  "clientReport err msg =
     (if err = None then \<lparr>crSucc = 1, crTimeout = 0, crExec = 0\<rparr>
      else if mgResp msg \<noteq> None \<and> mgStatus msg = TARSINVOKETIMEOUT then \<lparr>crSucc = 0, crTimeout = 1, crExec = 0\<rparr>
      else \<lparr>crSucc = 0, crTimeout = 0, crExec = 1\<rparr>)"

definition onManager :: "(endpointManager \<Rightarrow> endpointManager) \<Rightarrow> cinv \<Rightarrow> cinv" where
  "onManager f s = s\<lparr>ciWorld := (ciWorld s)\<lparr>cwManager := f (cwManager (ciWorld s))\<rparr>\<rparr>"

text \<open>The result is the error, what \<^verbatim>\<open>resp\<close> points to and the report.\<close>

definition TarsInvoke ::
    "('f, 'w, cinv) filters \<Rightarrow> (int, cinv) callee \<Rightarrow> ServantProxy \<Rightarrow> int32 \<Rightarrow> Clock \<Rightarrow> byte \<Rightarrow> gostring \<Rightarrow> bytes
       \<Rightarrow> strmap \<Rightarrow> strmap \<Rightarrow> ResponsePacket \<Rightarrow> Ctx \<Rightarrow> callWorld
       \<Rightarrow> gerr + (goError option \<times> ResponsePacket \<times> ClientReport) \<times> cinv" where
  "TarsInvoke fs invoke p requestID clock cType sFuncName buf status reqContext resp ctx w =
     (let req = newRequest p requestID cType sFuncName buf status reqContext ctx;
          (msg, timeout) = newMessage p (ckStart clock) req resp ctx;
          s = onManager (preInvoke (sint (ckNow clock))) \<lparr>ciCtx = ctx, ciMsg = msg, ciWorld = w\<rparr>
      in (case callClient fs invoke timeout s of
            Inl e \<Rightarrow> Inl e
          | Inr (err, s) \<Rightarrow>
              let s = onManager postInvoke s;
                  s = s\<lparr>ciMsg := Message_End (ckEnd clock) (ciMsg s)\<rparr> in
              if err \<noteq> None then Inr ((err, resp, clientReport err (ciMsg s)), s)
              else (case mgResp (ciMsg s) of
                      None \<Rightarrow> Inl (Panic ''invalid memory address or nil pointer dereference'')
                    | Some rsp \<Rightarrow> Inr ((None, rsp, clientReport None (ciMsg s)), s))))"

end
