(* ===== verification/Remote_Call.thy ===== *)
theory Remote_Call
  imports Client_Proxy
begin

text \<open>
  A call from the client's proxy to the server's dispatcher and back: \<^verbatim>\<open>TarsInvoke\<close> of \<^verbatim>\<open>tars/servant.go\<close>
  together with \<^verbatim>\<open>Protocol.Invoke\<close> of \<^verbatim>\<open>tars/tarsprotocol.go\<close>. The response that reaches the client is the one
  the server packed for its request.
\<close>

section \<open>The client\<close>

lemma select_not_probing:
  assumes "\<forall>i q. emCheckAdapter e \<noteq> Some (i # q)" and "SelectAdapterProxy intn msg e = Done ((adp, check), e')"
  shows "\<not> check"
  using assms
  by (auto simp: SelectAdapterProxy_def withSelectors_def Let_def
      split: if_splits option.splits list.splits prod.splits sum.splits selErr.splits)

lemma di_select_found:
  assumes "em_inv (cwManager (ciWorld s))" and "\<And>n. 0 < n \<Longrightarrow> intn n < n"
    and "\<not> emDirectProxy (cwManager (ciWorld s))" and "emActiveEpf (cwManager (ciWorld s)) \<noteq> []"
    and "\<forall>i q. emCheckAdapter (cwManager (ciWorld s)) \<noteq> Some (i # q)"
  shows "\<exists>i e. di_select intn s = Inr (Inr (i, False), s\<lparr>ciWorld := (ciWorld s)\<lparr>cwManager := e\<rparr>\<rparr>)"
proof -
  from SelectAdapterProxy_safe [OF assms(1,2), of "ciMsg s"] obtain adp check e' where
    sel: "SelectAdapterProxy intn (ciMsg s) (cwManager (ciWorld s)) = Done ((adp, check), e')" "adp \<noteq> None"
    using assms(3,4) by blast
  then show ?thesis
    using select_not_probing [OF assms(5) sel(1)] by (auto simp: di_select_def runResult_def)
qed

lemma onAdapter_keeps [simp]:
  "ciCtx (onAdapter i f s) = ciCtx s" "ciMsg (onAdapter i f s) = ciMsg s"
  "cwQueueLen (ciWorld (onAdapter i f s)) = cwQueueLen (ciWorld s)"
  "cwResp (ciWorld (onAdapter i f s)) = cwResp (ciWorld s)"
  by (simp_all add: onAdapter_def Let_def)

text \<open>A call that is sent and answered returns the error its response stands for, and leaves the proxy's queue and
  channels as they were.\<close>

lemma doInvoke_answered:
  assumes "di_select (ceIntn env) s = Inr (Inr (i, False), s\<lparr>ciWorld := (ciWorld s)\<lparr>cwManager := e\<rparr>\<rparr>)"
    and "sint (cwQueueLen (ciWorld s)) \<le> ceQueueMax env" and "rqCPacketType (mgReq (ciMsg s)) \<noteq> TARSONEWAY"
    and "ceSent env = None" and "ceReply env = Some rsp"
    and "cwResp (ciWorld s) (i, rqIRequestId (mgReq (ciMsg s))) = None"
  shows "\<exists>s'. doInvoke env timeout s = Inr (respError (mgStatus (ciMsg s)) rsp, s')
    \<and> ciMsg s' = (ciMsg s)\<lparr>mgResp := Some rsp\<rparr>
    \<and> cwQueueLen (ciWorld s') = cwQueueLen (ciWorld s) \<and> cwResp (ciWorld s') = cwResp (ciWorld s)"
  using assms
  by (simp add: doInvoke_def di_admit_def di_register_def di_send_def di_wait_def di_answer_def di_leave_def
      Let_def fun_upd_idem_iff)

lemma callClient_plain: "callClient no_filters d timeout s = d timeout s"
  by (auto simp: callClient_def no_filters_def getMiddlewareClientFilter_def split: sum.splits)

lemma newMessage_fields:
  assumes "newMessage p t req resp ctx = (msg, timeout)"
  shows "mgStatus msg = 0" "rqIRequestId (mgReq msg) = rqIRequestId req"
    "rqCPacketType (mgReq msg) = rqCPacketType req" "rqSFuncName (mgReq msg) = rqSFuncName req"
  using assms
  by (auto simp: newMessage_def Message_Init_def Let_def split: prod.splits bool.splits)

lemma newRequest_fields [simp]:
  "rqIRequestId (newRequest p rid cType fn buf st rc ctx) = rid"
  "rqCPacketType (newRequest p rid cType fn buf st rc ctx) = ucast cType"
  "rqSFuncName (newRequest p rid cType fn buf st rc ctx) = fn"
  by (simp_all add: newRequest_def Let_def split: prod.splits)

lemma preInvoke_fields [simp]:
  "emDirectProxy (preInvoke t e) = emDirectProxy e" "emActiveEpf (preInvoke t e) = emActiveEpf e"
  "emCheckAdapter (preInvoke t e) = emCheckAdapter e"
  by (simp_all add: preInvoke_def)

lemma TarsInvoke_answered:
  assumes "em_inv (cwManager w)" and "\<And>n. 0 < n \<Longrightarrow> ceIntn env n < n"
    and "\<not> emDirectProxy (cwManager w)" and "emActiveEpf (cwManager w) \<noteq> []"
    and "\<forall>i q. emCheckAdapter (cwManager w) \<noteq> Some (i # q)"
    and "sint (cwQueueLen w) \<le> ceQueueMax env" and "\<And>i. cwResp w (i, rid) = None"
    and "cType \<noteq> 1" and "ceSent env = None" and "ceReply env = Some rsp"
  shows "\<exists>s report. TarsInvoke no_filters (doInvoke env) p rid clock cType fn buf st rc resp ctx w
      = Inr ((respError 0 rsp, if respError 0 rsp = None then rsp else resp, report), s)
    \<and> cwQueueLen (ciWorld s) = cwQueueLen w \<and> cwResp (ciWorld s) = cwResp w"
proof -
  let ?req = "newRequest p rid cType fn buf st rc ctx"
  obtain msg timeout where msg: "newMessage p (ckStart clock) ?req resp ctx = (msg, timeout)" by force
  note m = newMessage_fields [OF msg]
  let ?s = "onManager (preInvoke (sint (ckNow clock))) \<lparr>ciCtx = ctx, ciMsg = msg, ciWorld = w\<rparr>"
  have "em_inv (preInvoke (sint (ckNow clock)) (cwManager w))"
    using assms(1) by (simp add: em_inv_def preInvoke_def)
  then obtain i e where
    sel: "di_select (ceIntn env) ?s = Inr (Inr (i, False), ?s\<lparr>ciWorld := (ciWorld ?s)\<lparr>cwManager := e\<rparr>\<rparr>)"
    using di_select_found [of ?s "ceIntn env"] assms(2-5) by (auto simp: onManager_def)
  have two: "rqCPacketType (mgReq msg) \<noteq> TARSONEWAY"
  proof -
    have "(ucast cType :: int8) = 1 \<Longrightarrow> cType = 1"
      by (metis ucast_id ucast_1)
    with assms(8) m(3) show ?thesis by (auto simp: TARSONEWAY_def)
  qed
  from doInvoke_answered [OF sel, of rsp timeout] obtain s' where
    "doInvoke env timeout ?s = Inr (respError 0 rsp, s')" "ciMsg s' = msg\<lparr>mgResp := Some rsp\<rparr>"
    "cwQueueLen (ciWorld s') = cwQueueLen w" "cwResp (ciWorld s') = cwResp w"
    using two assms(6,7,9,10) m by (auto simp: onManager_def)
  then show ?thesis
    by (simp add: TarsInvoke_def Let_def msg callClient_plain onManager_def Message_End_def)
qed

section \<open>Properties\<close>

text \<open>The server's error as the client sees it.\<close>

lemma respError_put:
  assumes "err = None \<Longrightarrow> rsIRet rsp = 0"
    and "\<And>e. err = Some e \<Longrightarrow> goError_Error e \<noteq> [] \<and> (\<forall>c m. e = RpcError c m \<longrightarrow> c \<noteq> 0 \<and> c \<noteq> 1)"
  shows "respError 0 ((putError err rsp)\<lparr>rsCPacketType := t\<rparr>) = err"
  using assms
  by (cases err; cases "the err") (auto simp: respError_def putError_def TARSSERVERSUCCESS_def Let_def)

text \<open>An error with code 0 is a success for the client, one with code 1 loses its type, which \<^verbatim>\<open>GetErrorCode\<close> makes up
  for, and one without text becomes a text of its code.\<close>

lemma respError_other:
  "respError 0 (putError (Some (RpcError 0 m)) rsp) = None"
  "m \<noteq> [] \<Longrightarrow> respError 0 (putError (Some (RpcError 1 m)) rsp) = Some (PlainError m)"
  "c \<noteq> 0 \<Longrightarrow> respError 0 (putError (Some (RpcError c [])) rsp)
     = Some (PlainError (ascii ''basef error code '' @ fmt_d (sint c)))"
  by (simp_all add: respError_def putError_def TARSSERVERSUCCESS_def)

lemma call_transparent:
  assumes "req = mgReq (fst (newMessage p (ckStart clock) (newRequest p rid cType fn buf st rc ctx) resp ctx))"
    and "em_reach md5 (cwManager w)" and "\<And>n. 0 < n \<Longrightarrow> ceIntn env n < n"
    and "\<not> emDirectProxy (cwManager w)" and "emActiveEpf (cwManager w) \<noteq> []"
    and "\<forall>i q. emCheckAdapter (cwManager w) \<noteq> Some (i # q)"
    and "sint (cwQueueLen w) \<le> ceQueueMax env" and "\<And>i. cwResp w (i, rid) = None"
    and "cType \<noteq> 1" and "okRequest req" and "RequestPack req = (pkg, None)"
    and "\<not> expired sctx sclock req" and "fn \<noteq> ascii ''tars_ping''"
    and "callServant sp (callState sp n req sctx sw) = Inr (err, s)"
    and "okResponse (putError err (ivRsp s))" and "rsIVersion (ivRsp s) \<noteq> TUPVERSION"
    and "err = None \<Longrightarrow> rsIRet (ivRsp s) = 0"
    and "\<And>e. err = Some e \<Longrightarrow> goError_Error e \<noteq> [] \<and> (\<forall>c m. e = RpcError c m \<longrightarrow> c \<noteq> 0 \<and> c \<noteq> 1)"
  shows "\<exists>bs s' reports rsp c report. Invoke sp n sclock pkg sctx sw = Inr (bs, s', reports)
    \<and> ResponseUnpack bs = (rsp, None)
    \<and> TarsInvoke (no_filters :: ('g, 'v, cinv) filters) (doInvoke (env\<lparr>ceSent := None, ceReply := Some rsp\<rparr>)) p rid clock cType fn buf st rc resp ctx w
      = Inr ((err, if err = None then (ivRsp s)\<lparr>rsCPacketType := rqCPacketType (ivReq s)\<rparr> else resp, report), c)
    \<and> ivWorld s' = ivWorld s \<and> cwQueueLen (ciWorld c) = cwQueueLen w \<and> cwResp (ciWorld c) = cwResp w"
proof -
  obtain msg timeout where
    "newMessage p (ckStart clock) (newRequest p rid cType fn buf st rc ctx) resp ctx = (msg, timeout)" by force
  then have "rqSFuncName req \<noteq> ascii ''tars_ping''"
    using newMessage_fields(4) assms(13) by (simp add: assms(1))
  from serveRequest_dispatched [OF assms(12) this assms(14)] obtain s' reports where s':
    "serveRequest sp n sclock req sctx sw = Inr (s', reports)" "ivWorld s' = ivWorld s"
    "ivRsp s' = (putError err (ivRsp s))\<lparr>rsCPacketType := rqCPacketType (ivReq s)\<rparr>"
    by blast
  have "okResponse (ivRsp s')" "rsIVersion (ivRsp s') \<noteq> TUPVERSION"
    using assms(15,16) by (simp_all add: s' okResponse_def)
  from Invoke_unpack [OF assms(10,11) s'(1) this] obtain bs where
    bs: "Invoke sp n sclock pkg sctx sw = Inr (bs, s', reports)" "ResponseUnpack bs = (ivRsp s', None)"
    by blast
  have err: "respError 0 (ivRsp s') = err"
    using respError_put [OF assms(17,18)] by (simp add: s'(3))
  from TarsInvoke_answered [OF em_reach_inv [OF assms(2)], of "env\<lparr>ceSent := None, ceReply := Some (ivRsp s')\<rparr>"
      rid cType "ivRsp s'" p clock fn buf st rc resp ctx] assms(3-9) obtain c report where
    "TarsInvoke (no_filters :: ('g, 'v, cinv) filters) (doInvoke (env\<lparr>ceSent := None, ceReply := Some (ivRsp s')\<rparr>)) p rid clock cType fn buf st rc resp ctx w
      = Inr ((err, if err = None then ivRsp s' else resp, report), c)"
    "cwQueueLen (ciWorld c) = cwQueueLen w" "cwResp (ciWorld c) = cwResp w"
    by (auto simp: err)
  then show ?thesis
    using bs s'(2,3) by (cases err) auto
qed


text \<open>A proxy that knows one endpoint, and the state of the client before its first call.\<close>

definition demo_proxy :: ServantProxy where
  "demo_proxy = newServantProxy 3000 [65]"

definition demo_env :: callEnv where
  "demo_env = \<lparr>ceIntn = \<lambda>n. 0, ceQueueMax = 100, ceNow = 0, ceNowMs = 0, ceSent = None, ceReply = None,
     cePush = False, ceCh = 0, ceMd5 = \<lambda>x. x\<rparr>"

definition demo_world :: "endpointManager \<Rightarrow> callWorld" where
  "demo_world e = \<lparr>cwManager = e, cwQueueLen = 0, cwResp = \<lambda>k. None, cwPushing = {}\<rparr>"

lemma demo_manager:
  "\<exists>e. em_reach (\<lambda>x. x) e \<and> emActiveEpf e = [plain_endpoint] \<and> \<not> emDirectProxy e \<and> emCheckAdapter e = Some []"
proof -
  let ?b = "blankManager [65] False"
  from fromCache_unweighted [OF plain_unweighted, of "\<lambda>x. x" "\<lambda>n. 0" ?b]
  obtain e where e: "fromCache (\<lambda>x. x) (\<lambda>n. 0) [plain_endpoint] ?b = Done e"
      "emActiveEpf e = [plain_endpoint]" "\<not> emDirectProxy e"
    by (auto simp: blankManager_def)
  have "newTarsEndpointManager (\<lambda>x. x) (\<lambda>n. 0) [65] = Done ?b"
    by (simp add: newTarsEndpointManager_def)
  moreover have "em_step (\<lambda>x. x) ?b e"
    by (rule em_step.cache [OF _ e(1)]) (simp add: blankManager_def)
  moreover have "emCheckAdapter e = Some []"
    using e(1) by (auto simp: fromCache_def firstUpdateActiveEp_def Let_def bindRun_Done blankManager_def)
  ultimately show ?thesis
    using e unfolding em_reach_def by blast
qed


section \<open>What travels with a call\<close>

lemma dyed_and_traced:
  "HasMessageType TARSMESSAGETYPEDYED (newRequest p rid cType fn buf st rc ctx) \<longleftrightarrow> snd (GetDyeingKey ctx)"
  "HasMessageType TARSMESSAGETYPETRACE (newRequest p rid cType fn buf st rc ctx)
     \<longleftrightarrow> (case GetTarsTrace ctx of (Some t, True) \<Rightarrow> trCall t | _ \<Rightarrow> False)"
  by (auto simp: newRequest_def putTrace_def putDyeing_def HasMessageType_def TARSMESSAGETYPEDYED_def
      TARSMESSAGETYPETRACE_def Let_def split: prod.splits option.splits bool.splits)

lemma keys_differ [simp]: "StatusDyedKey \<noteq> StatusTraceKey" "StatusTraceKey \<noteq> StatusDyedKey"
  by (simp_all add: StatusDyedKey_def StatusTraceKey_def ascii_def)

lemma status_keys:
  "GetDyeingKey ctx = (k, True) \<Longrightarrow> map_of (rqStatus (newRequest p rid cType fn buf st rc ctx)) StatusDyedKey = Some k"
  "GetTarsTrace ctx = (Some t, True) \<Longrightarrow> trCall t \<Longrightarrow>
     map_of (rqStatus (newRequest p rid cType fn buf st rc ctx)) StatusTraceKey = Some (GetTraceFullKey False t)"
  by (auto simp: newRequest_def putTrace_def putDyeing_def update_conv' Let_def
      split: prod.splits option.splits bool.splits if_splits)

lemma InitTrace_key:
  assumes "124 \<notin> set (scTraceID (trSc t))" and "124 \<notin> set (scSpanID (trSc t))"
  shows "\<exists>t'. InitTrace n (GetTraceFullKey False t) Trace_New = (True, t') \<and> scTraceID (trSc t') = scTraceID (trSc t)
    \<and> scParentSpanID (trSc t') = scSpanID (trSc t)"
  using assms strings_Split_append [OF assms(1), of "scSpanID (trSc t)"] strings_Split_single [OF assms(2)]
  by (simp add: InitTrace_def GetTraceFullKey_def SpanContext_FullKey_def SpanContext_Init_def ascii_def Let_def
      split: prod.splits)

lemma takeDyeing_key:
  assumes "GetDyeingKey ctx = (k, True)" and "cxCurrent sctx \<noteq> None"
  shows "GetDyeingKey (takeTrace n req (takeDyeing (newRequest p rid cType fn buf st rc ctx) sctx)) = (k, True)"
  using assms dyed_and_traced(1) [of p rid cType fn buf st rc ctx] status_keys(1) [OF assms(1), of p rid cType fn buf st rc]
  by (auto simp: takeTrace_def takeDyeing_def InitTarsTrace_def SetTarsTrace_def SetDyeingKey_def GetDyeingKey_def
      setCurrent_def update_conv' split: option.splits prod.splits)

lemma takeTrace_key:
  assumes "GetTarsTrace ctx = (Some t, True)" and "trCall t" and "cxCurrent sctx \<noteq> None"
    and "124 \<notin> set (scTraceID (trSc t))" and "124 \<notin> set (scSpanID (trSc t))"
  shows "\<exists>t'. GetTarsTrace (takeTrace n (newRequest p rid cType fn buf st rc ctx) sctx) = (Some t', True) \<and> trCall t'
    \<and> scTraceID (trSc t') = scTraceID (trSc t) \<and> scParentSpanID (trSc t') = scSpanID (trSc t)"
proof -
  obtain t' where t': "InitTrace n (GetTraceFullKey False t) Trace_New = (True, t')"
    "scTraceID (trSc t') = scTraceID (trSc t)" "scParentSpanID (trSc t') = scSpanID (trSc t)"
    using InitTrace_key [OF assms(4,5)] by blast
  show ?thesis
    using assms(1-3) t' dyed_and_traced(2) [of p rid cType fn buf st rc ctx]
      status_keys(2) [OF assms(1,2), of p rid cType fn buf st rc]
    by (auto simp: takeTrace_def InitTarsTrace_def SetTarsTrace_def GetTarsTrace_def setCurrent_def SetCall_def
        split: option.splits)
qed

text \<open>C25: A call carries its context: the server that takes up the request of a dyed and traced caller works under
  the caller's dyeing key and in the caller's trace, as a child of its span, and the request has the timeout that
  the context sets, or else the proxy's.\<close>

theorem context_travels:
  assumes "req = newRequest p rid cType fn buf st rc ctx" and "cxCurrent sctx \<noteq> None"
    and "sctx' = takeTrace n req (takeDyeing req sctx)"
  shows "(\<forall>k. GetDyeingKey ctx = (k, True) \<longrightarrow> GetDyeingKey sctx' = (k, True))
    \<and> (\<not> snd (GetDyeingKey ctx) \<longrightarrow> GetDyeingKey sctx' = GetDyeingKey sctx)
    \<and> (\<forall>t. GetTarsTrace ctx = (Some t, True) \<and> trCall t \<and> 124 \<notin> set (scTraceID (trSc t)) \<union> set (scSpanID (trSc t))
        \<longrightarrow> (\<exists>t'. GetTarsTrace sctx' = (Some t', True) \<and> trCall t' \<and> scTraceID (trSc t') = scTraceID (trSc t)
             \<and> scParentSpanID (trSc t') = scSpanID (trSc t)))
    \<and> rqITimeout (mgReq (fst (newMessage p now req resp ctx)))
      = word_of_int (case GetClientTimeout ctx of (True, to, True) \<Rightarrow> to | _ \<Rightarrow> sxTimeout p)"
proof (intro conjI allI impI)
  show "GetDyeingKey ctx = (k, True) \<Longrightarrow> GetDyeingKey sctx' = (k, True)" for k
    using takeDyeing_key assms by blast
  show "\<not> snd (GetDyeingKey ctx) \<Longrightarrow> GetDyeingKey sctx' = GetDyeingKey sctx"
    using assms dyed_and_traced(1)
    by (auto simp: takeTrace_def takeDyeing_def InitTarsTrace_def SetTarsTrace_def GetDyeingKey_def setCurrent_def
        split: option.splits prod.splits)
  have "cxCurrent (takeDyeing req sctx) \<noteq> None"
    using assms(2) by (auto simp: takeDyeing_def SetDyeingKey_def setCurrent_def split: option.splits)
  then show "\<exists>t'. GetTarsTrace sctx' = (Some t', True) \<and> trCall t' \<and> scTraceID (trSc t') = scTraceID (trSc t)
      \<and> scParentSpanID (trSc t') = scSpanID (trSc t)"
    if "GetTarsTrace ctx = (Some t, True) \<and> trCall t \<and> 124 \<notin> set (scTraceID (trSc t)) \<union> set (scSpanID (trSc t))" for t
    using takeTrace_key that assms(1,3) by blast
  show "rqITimeout (mgReq (fst (newMessage p now req resp ctx)))
      = word_of_int (case GetClientTimeout ctx of (True, to, True) \<Rightarrow> to | _ \<Rightarrow> sxTimeout p)"
    by (auto simp: assms(1) newMessage_def newRequest_def Message_Init_def Let_def split: prod.splits bool.splits)
qed

text \<open>A dyed caller with a trace of its own and a timeout for this call.\<close>

definition dyed_ctx :: Ctx where
  "dyed_ctx = \<lparr>cxCurrent = Some (newCurrent\<lparr>cuReqStatus := Some [(StatusDyedKey, [100])],
       cuTrace := Some \<lparr>trCall = True, trSc = zero_span\<lparr>scTraceID := [49], scSpanID := [50]\<rparr>\<rparr>\<rparr>),
     cxClient = Some (newClientCurrent\<lparr>ccIsTimeout := True, ccTimeout := 250\<rparr>)\<rparr>"

theorem context_travels_witness:
  "\<exists>t. GetDyeingKey (takeTrace 1 (newRequest demo_proxy 7 0 [] [] [] [] dyed_ctx)
        (takeDyeing (newRequest demo_proxy 7 0 [] [] [] [] dyed_ctx) (ContextWithTarsCurrent bare_ctx))) = ([100], True)
    \<and> GetTarsTrace (takeTrace 1 (newRequest demo_proxy 7 0 [] [] [] [] dyed_ctx)
        (takeDyeing (newRequest demo_proxy 7 0 [] [] [] [] dyed_ctx) (ContextWithTarsCurrent bare_ctx))) = (Some t, True)
    \<and> scTraceID (trSc t) = [49] \<and> scParentSpanID (trSc t) = [50]"
proof -
  have "GetDyeingKey dyed_ctx = ([100], True)"
    and "GetTarsTrace dyed_ctx = (Some \<lparr>trCall = True, trSc = zero_span\<lparr>scTraceID := [49], scSpanID := [50]\<rparr>\<rparr>, True)"
    and "cxCurrent (ContextWithTarsCurrent bare_ctx) \<noteq> None"
    by (simp_all add: dyed_ctx_def GetDyeingKey_def GetTarsTrace_def ContextWithTarsCurrent_def)
  then show ?thesis
    using context_travels [where req = "newRequest demo_proxy 7 0 [] [] [] [] dyed_ctx" and n = 1 and now = 0
        and resp = zero_response, OF refl _ refl, of "ContextWithTarsCurrent bare_ctx"]
    by auto
qed

end
