(* ===== verification/Tup.thy ===== *)
theory Tup
  imports Struct_Codec
begin

text \<open>
  \<^verbatim>\<open>tars/protocol/tup/tup.go\<close>: the attribute set of the TUP protocol, a map from names to
  encoded values that is itself encoded as a map of byte vectors. The map is an association
  list with distinct keys in the order the run-time enumerates it, as for the string maps.
\<close>

section \<open>Values\<close>

text \<open>The dynamic types that \<^verbatim>\<open>putBase\<close>, \<^verbatim>\<open>doPut\<close> and \<^verbatim>\<open>getBase\<close> distinguish. A value of the
  interface \<^verbatim>\<open>TarsStructIF\<close> is given by its two methods; \<open>VSlice\<close> is a slice \<^verbatim>\<open>[]T\<close> and
  \<open>VArray\<close> an array; \<open>VOther\<close> is any other type and \<open>VNil\<close> the nil interface.\<close>

datatype tupval =
    VInt64 int64 | VInt32 int32 | VInt16 int16 | VInt8 int8
  | VUint32 uint32 | VUint16 uint16 | VUint8 uint8
  | VBool bool | VFloat64 uint64 | VFloat32 uint32 | VString gostring
  | VStruct "byte \<Rightarrow> writer" "byte \<Rightarrow> bool \<Rightarrow> Reader \<Rightarrow> gerr option \<times> Reader"
  | VSlice "tupval list" | VArray "tupval list" | VOther | VNil

type_synonym UniAttribute = "(gostring \<times> bytes) list"

definition NewUniAttribute :: UniAttribute where
  "NewUniAttribute = []"

definition PutBuffer :: "gostring \<Rightarrow> bytes \<Rightarrow> UniAttribute \<Rightarrow> UniAttribute" where
  "PutBuffer k buf u = AList.update k buf u"

text \<open>A missing key also sets the destination to nil.\<close>

definition GetBuffer :: "gostring \<Rightarrow> UniAttribute \<Rightarrow> bytes \<times> gerr option" where
  "GetBuffer k u = (case map_of u k of Some v \<Rightarrow> (v, None) | None \<Rightarrow> ([], Some (NoKey k)))"

section \<open>Encoding\<close>

definition encodeEntry :: "gostring \<times> bytes \<Rightarrow> writer" where
  "encodeEntry kv = (case kv of (k, v) \<Rightarrow>
     wseq [WriteString k 0, WriteHead SimpleList 1, WriteHead BYTE 0,
           WriteInt32 (word_of_nat (length v)) 0, WriteBytes v])"

definition Encode :: "UniAttribute \<Rightarrow> writer" where
  "Encode u = wseq ([WriteHead MAP 0, WriteInt32 (word_of_nat (length u)) 0] @ map encodeEntry u)"

text \<open>The loop of \<^verbatim>\<open>Decode\<close>; an entry without a value is dropped.\<close>

fun decodeEntries :: "nat \<Rightarrow> UniAttribute \<Rightarrow> Reader \<Rightarrow> UniAttribute \<times> gerr option \<times> Reader" where
  "decodeEntries 0 u r = (u, None, r)"
| "decodeEntries (Suc n) u r =
     rstep (ReadString [] 0 False r)
       (\<lambda>k r. case SkipToNoCheck 1 False r of (hv, ty, err, r) \<Rightarrow>
          if err \<noteq> None then (u, err, r)
          else if \<not> hv then decodeEntries n u r
          else if ty = SimpleList then
            rstep (SkipTo BYTE 0 True r)
              (\<lambda>_ r. rstep (ReadInt32 0 0 True r)
                 (\<lambda>byteLen r. rstep (ReadBytes [] byteLen True r)
                    (\<lambda>v r. decodeEntries n (AList.update k v u) r) (\<lambda>_. u))
                 (\<lambda>_. u))
              (\<lambda>_. u)
          else (u, Some RequireVector, r))
       (\<lambda>_. u)"

definition Decode :: "UniAttribute \<Rightarrow> Reader \<Rightarrow> UniAttribute \<times> gerr option \<times> Reader" where
  "Decode u r =
     rstep (SkipTo MAP 0 False r)
       (\<lambda>_ r. rstep (ReadInt32 0 0 True r) (\<lambda>len r. decodeEntries (nat (sint len)) u r) (\<lambda>_. u))
       (\<lambda>_. u)"

section \<open>Putting and getting values\<close>

definition putBase :: "tupval \<Rightarrow> writer" where
  "putBase data =
     (case data of
        VInt64 d \<Rightarrow> WriteInt64 d 0 | VInt32 d \<Rightarrow> WriteInt32 d 0
      | VInt16 d \<Rightarrow> WriteInt16 d 0 | VInt8 d \<Rightarrow> WriteInt8 d 0
      | VUint32 d \<Rightarrow> WriteUint32 d 0 | VUint16 d \<Rightarrow> WriteUint16 d 0
      | VUint8 d \<Rightarrow> WriteUint8 d 0 | VBool d \<Rightarrow> WriteBool d 0
      | VFloat64 d \<Rightarrow> WriteFloat64 d 0 | VFloat32 d \<Rightarrow> WriteFloat32 d 0
      | VString d \<Rightarrow> WriteString d 0 | VStruct wb _ \<Rightarrow> wb 0
      | _ \<Rightarrow> (\<lambda>b. (Some (NotSupported ''put''), b)))"

definition is_VInt8 :: "tupval \<Rightarrow> bool" where
  "is_VInt8 v = (case v of VInt8 _ \<Rightarrow> True | _ \<Rightarrow> False)"

definition is_VUint8 :: "tupval \<Rightarrow> bool" where
  "is_VUint8 v = (case v of VUint8 _ \<Rightarrow> True | _ \<Rightarrow> False)"

definition byte_of :: "tupval \<Rightarrow> byte" where
  "byte_of v = (case v of VInt8 b \<Rightarrow> b | VUint8 b \<Rightarrow> b | _ \<Rightarrow> 0)"

definition putSimpleList :: "nat \<Rightarrow> writer \<Rightarrow> writer" where
  "putSimpleList n content =
     wseq [WriteHead SimpleList 0, WriteHead BYTE 0, WriteInt32 (word_of_nat n) 0, content]"

definition panics :: "string \<Rightarrow> writer" where
  "panics m b = (Some (Panic m), b)"

text \<open>Slices and arrays: an empty one is an empty \<^verbatim>\<open>LIST\<close>; the first element decides about the
  simple form, which then asserts the type \<^verbatim>\<open>[]int8\<close> or \<^verbatim>\<open>[]uint8\<close> and panics for anything
  else; \<open>isSlice\<close> says that the value is a slice.\<close>

fun doPut :: "tupval \<Rightarrow> writer"
  and doPutElems :: "bool \<Rightarrow> tupval list \<Rightarrow> writer"
  and doPutAll :: "tupval list \<Rightarrow> writer" where
  "doPut (VSlice xs) = doPutElems True xs"
| "doPut (VArray xs) = doPutElems False xs"
| "doPut VNil = panics ''nil type''"
| "doPut v = putBase v"
| "doPutElems isSlice xs =
     (case xs of
        [] \<Rightarrow> wseq [WriteHead LIST 0, WriteInt32 0 0]
      | x # _ \<Rightarrow>
          if is_VInt8 x then putSimpleList (length xs)
            (if isSlice \<and> list_all is_VInt8 xs then WriteSliceInt8 (map byte_of xs)
             else panics ''interface conversion'')
          else if is_VUint8 x then putSimpleList (length xs)
            (if isSlice \<and> list_all is_VUint8 xs then WriteSliceUint8 (map byte_of xs)
             else panics ''interface conversion'')
          else wseq [WriteHead LIST 0, WriteInt32 (word_of_nat (length xs)) 0, doPutAll xs])"
| "doPutAll [] = wseq []"
| "doPutAll (x # xs) = wseq [doPut x, doPutAll xs]"

definition Put :: "gostring \<Rightarrow> tupval \<Rightarrow> UniAttribute \<Rightarrow> gerr option \<times> UniAttribute" where
  "Put k data u =
     (case doPut data (NewBuffer []) of (err, os) \<Rightarrow>
        if err = None then (None, AList.update k (Buffer_ToBytes os) u) else (err, u))"

text \<open>\<^verbatim>\<open>getBase\<close> reads into the destination, whose type selects the read.\<close>

definition getBase :: "tupval \<Rightarrow> Reader \<Rightarrow> tupval \<times> gerr option \<times> Reader" where
  "getBase data r =
     (case data of
        VInt64 d \<Rightarrow> into VInt64 (ReadInt64 d 0 True r) | VInt32 d \<Rightarrow> into VInt32 (ReadInt32 d 0 True r)
      | VInt16 d \<Rightarrow> into VInt16 (ReadInt16 d 0 True r) | VInt8 d \<Rightarrow> into VInt8 (ReadInt8 d 0 True r)
      | VUint32 d \<Rightarrow> into VUint32 (ReadUint32 d 0 True r) | VUint16 d \<Rightarrow> into VUint16 (ReadUint16 d 0 True r)
      | VUint8 d \<Rightarrow> into VUint8 (ReadUint8 d 0 True r) | VBool d \<Rightarrow> into VBool (ReadBool d 0 True r)
      | VFloat64 d \<Rightarrow> into VFloat64 (ReadFloat64 d 0 True r)
      | VFloat32 d \<Rightarrow> into VFloat32 (ReadFloat32 d 0 True r)
      | VString d \<Rightarrow> into VString (ReadString d 0 True r)
      | VStruct _ rb \<Rightarrow> (case rb 0 True r of (err, r) \<Rightarrow> (data, err, r))
      | _ \<Rightarrow> (data, Some (NotSupported ''get''), r))"

text \<open>A slice destination only has its head and length read.\<close>

definition DoGet :: "tupval \<Rightarrow> Reader \<Rightarrow> tupval \<times> gerr option \<times> Reader" where
  "DoGet data r =
     (case data of
        VSlice _ \<Rightarrow>
          (case SkipToNoCheck 0 False r of (hv, ty, err, r) \<Rightarrow>
             if err \<noteq> None then (data, err, r)
             else if \<not> hv then (data, None, r)
             else if ty = LIST then rstep (ReadInt32 0 0 True r) (\<lambda>_ r. (data, None, r)) (\<lambda>_. data)
             else if ty = SimpleList then (data, Some (NotSupported ''simple_list''), r)
             else (data, Some RequireVector, r))
      | VNil \<Rightarrow> (data, Some (Panic ''nil type''), r)
      | _ \<Rightarrow> getBase data r)"

definition Get :: "gostring \<Rightarrow> UniAttribute \<Rightarrow> gerr option" where
  "Get k u = (case map_of u k of
      Some _ \<Rightarrow> Some (NotSupported ''Get'') | None \<Rightarrow> Some (NoKey k))"

section \<open>Reading back\<close>

definition encEntry :: "gostring \<times> bytes \<Rightarrow> bytes" where
  "encEntry kv = encString (fst kv) 0 @ encHead SimpleList 1 @ encHead BYTE 0
     @ encInt (int (length (snd kv))) 0 @ snd kv"

definition encAttribute :: "UniAttribute \<Rightarrow> bytes" where
  "encAttribute u = encHead MAP 0 @ encInt (int (length u)) 0 @ concat (map encEntry u)"

definition okAttribute :: "UniAttribute \<Rightarrow> bool" where
  "okAttribute u \<longleftrightarrow> length u < 2 ^ 31 \<and> distinct (map fst u)
     \<and> (\<forall>(k, v) \<in> set u. length k < 2 ^ 32 \<and> length v < 2 ^ 31)"

lemma appends_WriteLen:
  "n < 2 ^ 31 \<Longrightarrow> appends (WriteInt32 (word_of_nat n) tag) (encInt (int n) tag)"
  using appends_WriteInt32 [of "word_of_nat n" tag] by (simp only: sint_word_of_nat_small)

lemma appends_encodeEntry:
  assumes "length (snd kv) < 2 ^ 31"
  shows "appends (encodeEntry kv) (encEntry kv)"
  using assms
  by (cases kv) (simp add: encodeEntry_def encEntry_def appends_def appends_append [OF appends_WriteHead]
      appends_append [OF appends_WriteLen] appends_append [OF appends_WriteString]
      appends_append [OF appends_slices(3)])

lemma appends_Encode:
  assumes "okAttribute u"
  shows "appends (Encode u) (encAttribute u)"
proof -
  have "list_all2 appends ([WriteHead MAP 0, WriteInt32 (word_of_nat (length u)) 0] @ map encodeEntry u)
    ([encHead MAP 0, encInt (int (length u)) 0] @ map encEntry u)"
    using assms by (auto simp: okAttribute_def list.rel_map appends_WriteHead appends_WriteLen
        intro!: list.rel_refl_strong appends_encodeEntry)
  from appends_wseq [OF this] show ?thesis
    by (simp add: Encode_def encAttribute_def del: wseq.simps)
qed

text \<open>An entry is read back, unless its value is empty and the data ends there: the zero-length
  read then reports the end of the data.\<close>

lemma decodeEntry:
  assumes u: "unread r = encEntry (k, v) @ xs" and k: "length k < 2 ^ 32" and v: "length v < 2 ^ 31"
  shows "v \<noteq> [] \<or> xs \<noteq> [] \<Longrightarrow> decodeEntries (Suc n) u r
      = decodeEntries n (AList.update k v u) (adv (length (encEntry (k, v))) r)"
    and "v = [] \<Longrightarrow> xs = [] \<Longrightarrow> \<exists>r'. decodeEntries (Suc n) u r = (u, Some EOF, r')"
proof -
  let ?n = "int (length v)"
  let ?r1 = "adv (length (encString k 0)) r"
  let ?r2 = "adv (length (encHead SimpleList 1)) ?r1"
  let ?r3 = "adv (length (encHead BYTE 0)) ?r2"
  let ?r4 = "adv (length (encInt ?n 0)) ?r3"
  have "ReadString [] 0 False r = (k, None, ?r1)"
    using u k by (intro cString.rd_enc) (auto simp: encEntry_def)
  moreover have "SkipToNoCheck 1 False ?r1 = (True, SimpleList, None, ?r2)"
    using u by (intro SkipToNoCheck_found) (simp_all add: encEntry_def jce_ty_defs)
  moreover have "SkipTo BYTE 0 True ?r2 = (True, None, ?r3)"
    using u by (intro SkipTo_found) (simp_all add: encEntry_def jce_ty_defs)
  moreover have "ReadInt32 0 0 True ?r3 = (word_of_int ?n, None, ?r4)"
    using u v by (intro ReadInt32_enc) (simp_all add: encEntry_def)
  moreover have len: "sint (word_of_int ?n :: int32) = ?n"
    using v by (intro sint_of_int) simp_all
  ultimately have step: "decodeEntries (Suc n) u r = rstep (buf_Read (length v) ?r4)
      (\<lambda>v r. decodeEntries n (AList.update k v u) r) (\<lambda>_. u)"
    by (simp add: ReadBytes_def)
  have u4: "unread ?r4 = v @ xs"
    using u by (simp add: encEntry_def)
  { assume "v \<noteq> [] \<or> xs \<noteq> []"
    then have "buf_Read (length v) ?r4 = (v, None, adv (length v) ?r4)"
      using u4 by (intro Read_unread) auto
    then show "decodeEntries (Suc n) u r
        = decodeEntries n (AList.update k v u) (adv (length (encEntry (k, v))) r)"
      using step by (simp add: encEntry_def add.assoc) }
  { assume "v = []" and "xs = []"
    then have "off ?r4 \<ge> length (ref ?r4)"
      using u4 unread_nonempty [of ?r4] by simp
    then show "\<exists>r'. decodeEntries (Suc n) u r = (u, Some EOF, r')"
      using step by (simp add: buf_Read_def) }
qed

lemma encEntry_nonempty [simp]: "encEntry kv \<noteq> []"
  by (simp add: encEntry_def encHead_def)

lemma concat_encEntry [simp]: "concat (map encEntry m) = [] \<longleftrightarrow> m = []"
  by (cases m) simp_all

lemma decodeEntries_enc:
  assumes "unread r = concat (map encEntry m) @ xs"
    and "\<forall>(k, v) \<in> set m. length k < 2 ^ 32 \<and> length v < 2 ^ 31"
    and "distinct (map fst m)" and "fst ` set m \<inter> fst ` set m0 = {}"
    and "m = [] \<or> snd (last m) \<noteq> [] \<or> xs \<noteq> []"
  shows "decodeEntries (length m + n) m0 r
    = decodeEntries n (m0 @ m) (adv (length (concat (map encEntry m))) r)"
  using assms
proof (induction m arbitrary: m0 r)
  case (Cons kv m)
  obtain k v where kv: "kv = (k, v)" by (cases kv)
  have "decodeEntries (Suc (length m + n)) m0 r
      = decodeEntries (length m + n) (AList.update k v m0) (adv (length (encEntry (k, v))) r)"
    using Cons.prems kv by (intro decodeEntry(1) [of r k v "concat (map encEntry m) @ xs"])
      (auto split: if_splits simp del: concat_eq_Nil_conv)
  moreover have "AList.update k v m0 = m0 @ [(k, v)]"
    using Cons.prems kv by (intro update_new_append) auto
  moreover have "decodeEntries (length m + n) (m0 @ [(k, v)]) (adv (length (encEntry (k, v))) r)
      = decodeEntries n ((m0 @ [(k, v)]) @ m) (adv (length (concat (map encEntry m)))
          (adv (length (encEntry (k, v))) r))"
    using Cons.prems kv by (intro Cons.IH) (auto split: if_splits)
  ultimately show ?case
    using kv by (simp add: add.assoc del: decodeEntries.simps)
qed simp

lemma Decode_enc:
  assumes "unread r = encAttribute u @ xs" and "okAttribute u"
  shows "Decode w r = decodeEntries (length u) w
    (adv (length (encHead MAP 0) + length (encInt (int (length u)) 0)) r)"
proof -
  let ?n = "int (length u)"
  let ?r1 = "adv (length (encHead MAP 0)) r"
  have "SkipTo MAP 0 False r = (True, None, ?r1)"
    using assms(1) by (intro SkipTo_found) (simp_all add: encAttribute_def jce_ty_defs)
  moreover have "ReadInt32 0 0 True ?r1 = (word_of_int ?n, None, adv (length (encInt ?n 0)) ?r1)"
    using assms by (intro ReadInt32_enc) (simp_all add: encAttribute_def okAttribute_def)
  moreover have "sint (word_of_int ?n :: int32) = ?n"
    using assms by (intro sint_of_int) (simp_all add: okAttribute_def)
  ultimately show ?thesis by (simp add: Decode_def)
qed

lemma snd_Encode: "okAttribute u \<Longrightarrow> snd (Encode u []) = encAttribute u"
  using appends_append [OF appends_Encode, of u "[]"] by simp

lemma attribute_decoded:
  assumes "okAttribute u" and "u = [] \<or> snd (last u) \<noteq> []"
  shows "fst (Encode u []) = None
    \<and> reads_all (Decode NewUniAttribute (NewReader (snd (Encode u [])))) u"
proof -
  have "decodeEntries (length u + 0) [] (adv (length (encHead MAP 0) + length (encInt (int (length u)) 0))
      (NewReader (encAttribute u))) = decodeEntries 0 ([] @ u) (adv (length (concat (map encEntry u)))
      (adv (length (encHead MAP 0) + length (encInt (int (length u)) 0)) (NewReader (encAttribute u))))"
    using assms by (intro decodeEntries_enc) (auto simp: okAttribute_def encAttribute_def)
  then show ?thesis
    using Decode_enc [of "NewReader (encAttribute u)" u "[]" "[]"] assms(1)
      appends_append [OF appends_Encode [OF assms(1)], of "[]"]
    by (simp add: NewUniAttribute_def reads_all_def) (simp add: encAttribute_def)
qed

section \<open>Properties\<close>

text \<open>An attribute set is encoded without error and decodes, into a new set, to itself, when
  the value that is written last is not empty.\<close>

theorem tup_round_trip:
  assumes "okAttribute u" and "u = [] \<or> snd (last u) \<noteq> []"
  shows "fst (Encode u []) = None
    \<and> reads_all (Decode NewUniAttribute (NewReader (snd (Encode u [])))) u"
  using assms by (rule attribute_decoded)

theorem tup_round_trip_witness:
  "reads_all (Decode NewUniAttribute (NewReader (snd (Encode [([97], []), ([98], [1, 2])] []))))
     [([97], []), ([98], [1, 2])]"
  using tup_round_trip [of "[([97], []), ([98], [1, 2])]"] by (simp add: okAttribute_def)

text \<open>An attribute set whose last written value is empty is encoded without error, but its
  decoding fails with the end-of-data error and loses that entry. As a Go map is written in an
  arbitrary order, a set with an empty value decodes or not by chance.\<close>

theorem tup_empty_value_fails:
  assumes "okAttribute (u @ [(k, [])])"
  shows "fst (Encode (u @ [(k, [])]) []) = None
    \<and> (\<exists>r. Decode NewUniAttribute (NewReader (snd (Encode (u @ [(k, [])]) []))) = (u, Some EOF, r))"
proof -
  let ?u = "u @ [(k, [])]"
  let ?r = "adv (length (encHead MAP 0) + length (encInt (int (length ?u)) 0)) (NewReader (encAttribute ?u))"
  let ?r' = "adv (length (concat (map encEntry u))) ?r"
  have unr: "unread ?r = concat (map encEntry u) @ encEntry (k, [])"
    by (simp add: encAttribute_def)
  have unr': "unread ?r' = encEntry (k, [])"
    by (simp only: unread_adv [of _ ?r] unr) simp
  have "decodeEntries (length u + 1) [] ?r = decodeEntries 1 ([] @ u) ?r'"
    using assms unr by (intro decodeEntries_enc) (auto simp: okAttribute_def)
  moreover have "\<exists>r. decodeEntries (Suc 0) u ?r' = (u, Some EOF, r)"
    using assms unr' by (intro decodeEntry(2) [of _ k "[]" "[]"]) (auto simp: okAttribute_def)
  ultimately show ?thesis
    using Decode_enc [of "NewReader (encAttribute ?u)" ?u "[]" "[]"] assms
      appends_append [OF appends_Encode [OF assms], of "[]"]
    by (simp add: NewUniAttribute_def del: decodeEntries.simps)
qed

theorem tup_empty_value_fails_witness:
  "\<exists>r. Decode NewUniAttribute (NewReader (snd (Encode [([98], [1, 2]), ([97], [])] [])))
     = ([([98], [1, 2])], Some EOF, r)"
  using tup_empty_value_fails [of "[([98], [1, 2])]" "[97]"] by (simp add: okAttribute_def)

text \<open>The destination has the type of the value.\<close>

definition same_kind :: "tupval \<Rightarrow> tupval \<Rightarrow> bool" where
  "same_kind d v =
     (case v of
        VInt64 _ \<Rightarrow> (case d of VInt64 _ \<Rightarrow> True | _ \<Rightarrow> False)
      | VInt32 _ \<Rightarrow> (case d of VInt32 _ \<Rightarrow> True | _ \<Rightarrow> False)
      | VInt16 _ \<Rightarrow> (case d of VInt16 _ \<Rightarrow> True | _ \<Rightarrow> False)
      | VInt8 _ \<Rightarrow> (case d of VInt8 _ \<Rightarrow> True | _ \<Rightarrow> False)
      | VUint32 _ \<Rightarrow> (case d of VUint32 _ \<Rightarrow> True | _ \<Rightarrow> False)
      | VUint16 _ \<Rightarrow> (case d of VUint16 _ \<Rightarrow> True | _ \<Rightarrow> False)
      | VUint8 _ \<Rightarrow> (case d of VUint8 _ \<Rightarrow> True | _ \<Rightarrow> False)
      | VBool _ \<Rightarrow> (case d of VBool _ \<Rightarrow> True | _ \<Rightarrow> False)
      | VFloat64 _ \<Rightarrow> (case d of VFloat64 _ \<Rightarrow> True | _ \<Rightarrow> False)
      | VFloat32 _ \<Rightarrow> (case d of VFloat32 _ \<Rightarrow> True | _ \<Rightarrow> False)
      | VString s \<Rightarrow> (case d of VString _ \<Rightarrow> length s < 2 ^ 32 | _ \<Rightarrow> False)
      | _ \<Rightarrow> False)"

lemma reads_all_into: "reads_all x v \<Longrightarrow> reads_all (into f x) (f v)"
  by (auto simp: reads_all_def into_def split: prod.splits)

context field_codec
begin

lemma reads_enc: "ok v \<Longrightarrow> reads_all (rd d tag require (NewReader (enc v tag))) v"
  using rd_enc [of v "NewReader (enc v tag)" tag "[]"] by simp

end

lemmas reads_encs = cInt8.reads_enc cInt16.reads_enc cInt32.reads_enc cInt64.reads_enc
  cUint8.reads_enc cUint16.reads_enc cUint32.reads_enc cBool.reads_enc cFloat32.reads_enc
  cFloat64.reads_enc cString.reads_enc

lemma doPut_DoGet:
  assumes "same_kind d v"
  shows "\<exists>e. appends (doPut v) e \<and> reads_all (DoGet d (NewReader e)) v"
  using assms
  by (cases v; cases d; simp add: same_kind_def putBase_def DoGet_def getBase_def)
    (rule exI, rule conjI, rule appends_values, rule reads_all_into, rule reads_encs, simp)+

text \<open>A base value put under a name is read back, from the buffer got for that name, into a
  destination of its type; every other name keeps its buffer.\<close>

theorem tup_put_get:
  assumes "same_kind d v" and "Put k v u = (err, u')"
  shows "err = None \<and> snd (GetBuffer k u') = None
    \<and> reads_all (DoGet d (NewReader (fst (GetBuffer k u')))) v
    \<and> (\<forall>j. j \<noteq> k \<longrightarrow> GetBuffer j u' = GetBuffer j u)"
proof -
  obtain e where e: "appends (doPut v) e" "reads_all (DoGet d (NewReader e)) v"
    using doPut_DoGet [OF assms(1)] by blast
  then show ?thesis
    using assms(2) appends_append [OF e(1), of "[]"]
    by (auto simp: Put_def NewBuffer_def Buffer_ToBytes_def GetBuffer_def update_conv')
qed

theorem tup_put_get_witness:
  "reads_all (DoGet (VInt32 0) (NewReader (fst (GetBuffer [97] (snd (Put [97] (VInt32 (- 70000)) [])))))) (VInt32 (- 70000))"
  using tup_put_get [of "VInt32 0" "VInt32 (- 70000)" "[97]" "[]"] by (simp add: same_kind_def prod_eq_iff)

end
