(* ===== verification/Struct_Members.thy ===== *)
theory Struct_Members
  imports Struct_Codec
begin

text \<open>
  What the code that \<^verbatim>\<open>tars2go\<close> generates for members and parameters has in common: members are read one
  after the other into a struct, vectors are written in \<^verbatim>\<open>LIST\<close> form, maps as pairs under the tags 0 and 1.
  The locale \<open>value_codec\<close> is what any generated type promises; base types and block forms of structs
  fulfil it, and vectors and maps of types that do fulfil it again, so that the codec of a struct follows
  from those of its members.
\<close>

section \<open>Members\<close>

type_synonym 'v value_reader = "'v \<Rightarrow> byte \<Rightarrow> bool \<Rightarrow> Reader \<Rightarrow> 'v \<times> gerr option \<times> Reader"
type_synonym 's member_reader = "'s \<Rightarrow> Reader \<Rightarrow> 's \<times> gerr option \<times> Reader"

text \<open>\<^verbatim>\<open>readBuf.ReadX(&st.Member, tag, require)\<close>: the member is given by its selector and its update.\<close>

definition member :: "'v value_reader \<Rightarrow> ('s \<Rightarrow> 'v) \<Rightarrow> (('v \<Rightarrow> 'v) \<Rightarrow> 's \<Rightarrow> 's) \<Rightarrow> byte \<Rightarrow> bool \<Rightarrow> 's member_reader" where
  "member rd sel upd tag require st r = into (\<lambda>v. upd (\<lambda>_. v) st) (rd (sel st) tag require r)"

fun readMembers :: "'s member_reader list \<Rightarrow> 's member_reader" where
  "readMembers [] st r = (st, None, r)"
| "readMembers (m # ms) st r = thenR (m st r) (readMembers ms)"

section \<open>Vectors\<close>

definition WriteVec :: "('v \<Rightarrow> byte \<Rightarrow> writer) \<Rightarrow> 'v list \<Rightarrow> byte \<Rightarrow> writer" where
  "WriteVec wr vs tag =
     wseq ([WriteHead LIST tag, WriteInt32 (word_of_nat (length vs)) 0] @ map (\<lambda>v. wr v 0) vs)"

text \<open>The elements are read into the fresh slice of zero values.\<close>

fun readElems :: "'v value_reader \<Rightarrow> nat \<Rightarrow> nat \<Rightarrow> 'v list \<Rightarrow> Reader \<Rightarrow> 'v list \<times> gerr option \<times> Reader" where
  "readElems rd 0 i vs r = (vs, None, r)"
| "readElems rd (Suc n) i vs r =
     thenR (into (\<lambda>x. vs[i := x]) (rd (vs ! i) 0 False r)) (\<lambda>vs r. readElems rd n (Suc i) vs r)"

text \<open>The generated code asks for the head with \<^verbatim>\<open>SkipToNoCheck(tag, true)\<close>, whatever \<open>require\<close> is.\<close>

definition ReadVec :: "'v value_reader \<Rightarrow> 'v \<Rightarrow> 'v list value_reader" where
  "ReadVec rd zero vs tag require r =
     (case SkipToNoCheck tag True r of (_, ty, err, r) \<Rightarrow>
        if err \<noteq> None then (vs, err, r)
        else if ty = LIST then
          rstep (ReadInt32 0 0 True r)
            (\<lambda>len r. if sint len < 0 then (vs, Some (Panic ''makeslice: len out of range''), r)
               else readElems rd (nat (sint len)) 0 (replicate (nat (sint len)) zero) r)
            (\<lambda>_. vs)
        else if ty = SimpleList then (vs, Some (NotSupported ''SimpleList''), r)
        else (vs, Some RequireVector, r))"

section \<open>Maps\<close>

definition WriteMap :: "('k \<Rightarrow> byte \<Rightarrow> writer) \<Rightarrow> ('v \<Rightarrow> byte \<Rightarrow> writer) \<Rightarrow> ('k \<times> 'v) list \<Rightarrow> byte \<Rightarrow> writer" where
  "WriteMap wrK wrV m tag =
     wseq ([WriteHead MAP tag, WriteInt32 (word_of_nat (length m)) 0]
       @ concat (map (\<lambda>(k, v). [wrK k 0, wrV v 1]) m))"

fun readPairs :: "'k value_reader \<Rightarrow> 'k \<Rightarrow> 'v value_reader \<Rightarrow> 'v \<Rightarrow> nat \<Rightarrow> ('k \<times> 'v) list member_reader" where
  "readPairs rdK k0 rdV v0 0 m r = (m, None, r)"
| "readPairs rdK k0 rdV v0 (Suc n) m r =
     rstep (rdK k0 0 False r)
       (\<lambda>k r. rstep (rdV v0 1 False r)
          (\<lambda>v r. readPairs rdK k0 rdV v0 n (AList.update k v m) r) (\<lambda>_. m))
       (\<lambda>_. m)"

definition ReadMap :: "'k value_reader \<Rightarrow> 'k \<Rightarrow> 'v value_reader \<Rightarrow> 'v \<Rightarrow> ('k \<times> 'v) list value_reader" where
  "ReadMap rdK k0 rdV v0 m tag require r =
     rstep (SkipTo MAP tag True r)
       (\<lambda>_ r. rstep (ReadInt32 0 0 True r)
          (\<lambda>len r. readPairs rdK k0 rdV v0 (nat (sint len)) [] r) (\<lambda>_. m))
       (\<lambda>_. m)"

section \<open>The contract of a generated type\<close>

locale value_codec =
  fixes wr :: "'v \<Rightarrow> byte \<Rightarrow> writer"
    and rd :: "'v value_reader"
    and enc :: "'v \<Rightarrow> byte \<Rightarrow> bytes"
    and ok :: "'v \<Rightarrow> bool"
  assumes wr_value: "ok v \<Longrightarrow> appends (wr v tag) (enc v tag)"
    and rd_value: "ok v \<Longrightarrow> unread r = enc v tag @ xs \<Longrightarrow>
      rd d tag require r = (v, None, adv (length (enc v tag)) r)"

sublocale field_codec \<subseteq> value_codec wr rd enc ok
  by unfold_locales (simp_all add: wr_enc rd_enc)

definition encBlock :: "('s \<Rightarrow> bytes) \<Rightarrow> 's \<Rightarrow> byte \<Rightarrow> bytes" where
  "encBlock enc st tag = encHead StructBegin tag @ enc st @ encHead StructEnd 0"

definition encVec :: "('v \<Rightarrow> byte \<Rightarrow> bytes) \<Rightarrow> 'v list \<Rightarrow> byte \<Rightarrow> bytes" where
  "encVec enc vs tag = encHead LIST tag @ encInt (int (length vs)) 0 @ concat (map (\<lambda>v. enc v 0) vs)"

definition encMap :: "('k \<Rightarrow> byte \<Rightarrow> bytes) \<Rightarrow> ('v \<Rightarrow> byte \<Rightarrow> bytes) \<Rightarrow> ('k \<times> 'v) list \<Rightarrow> byte \<Rightarrow> bytes" where
  "encMap encK encV m tag =
     encHead MAP tag @ encInt (int (length m)) 0 @ concat (map (\<lambda>(k, v). encK k 0 @ encV v 1) m)"

definition okVec :: "('v \<Rightarrow> bool) \<Rightarrow> 'v list \<Rightarrow> bool" where
  "okVec ok vs \<longleftrightarrow> length vs < 2 ^ 31 \<and> list_all ok vs"

definition okMap :: "('k \<Rightarrow> bool) \<Rightarrow> ('v \<Rightarrow> bool) \<Rightarrow> ('k \<times> 'v) list \<Rightarrow> bool" where
  "okMap okK okV m \<longleftrightarrow> length m < 2 ^ 31 \<and> distinct (map fst m) \<and> list_all (\<lambda>(k, v). okK k \<and> okV v) m"

lemma enc_not_empty [simp]:
  "encHead ty tag \<noteq> []" "encInt n tag \<noteq> []" "encString s tag \<noteq> []" "encBlock enc st tag \<noteq> []"
  "encVec encV vs tag \<noteq> []" "encMap encK encV m tag \<noteq> []"
  by (simp_all add: encHead_def encInt_def encString_def encBlock_def encVec_def encMap_def)

lemma appends_len:
  "n < 2 ^ 31 \<Longrightarrow> appends (WriteInt32 (word_of_nat n) tag) (encInt (int n) tag)"
  using appends_WriteInt32 [of "word_of_nat n" tag] by (simp only: sint_word_of_nat_small)

lemma ReadInt32_len:
  assumes "unread r = encInt (int n) 0 @ xs" and "n < 2 ^ 31"
  shows "ReadInt32 0 0 True r = (word_of_int (int n), None, adv (length (encInt (int n) 0)) r)"
    and "nat (sint (word_of_int (int n) :: int32)) = n" and "\<not> sint (word_of_int (int n) :: int32) < 0"
proof -
  show "ReadInt32 0 0 True r = (word_of_int (int n), None, adv (length (encInt (int n) 0)) r)"
    using assms by (intro ReadInt32_enc) simp_all
  have "sint (word_of_int (int n) :: int32) = int n"
    using assms(2) by (intro sint_of_int) simp_all
  then show "nat (sint (word_of_int (int n) :: int32)) = n" and "\<not> sint (word_of_int (int n) :: int32) < 0"
    by simp_all
qed

section \<open>Vectors and maps of such types\<close>

context value_codec
begin

lemma readElems_enc:
  assumes "list_all ok vs" and "unread r = concat (map (\<lambda>v. enc v 0) vs) @ xs"
    and "i + length vs = length ws"
  shows "readElems rd (length vs) i ws r
    = (take i ws @ vs, None, adv (length (concat (map (\<lambda>v. enc v 0) vs))) r)"
  using assms
proof (induction vs arbitrary: i ws r)
  case (Cons v vs)
  let ?r = "adv (length (enc v 0)) r"
  have "rd (ws ! i) 0 False r = (v, None, ?r)"
    using Cons.prems by (intro rd_value) auto
  moreover have "readElems rd (length vs) (Suc i) (ws[i := v]) ?r
      = (take (Suc i) (ws[i := v]) @ vs, None, adv (length (concat (map (\<lambda>v. enc v 0) vs))) ?r)"
    using Cons.prems by (intro Cons.IH) auto
  moreover have "take (Suc i) (ws[i := v]) = take i ws @ [v]"
    using Cons.prems by (simp add: take_Suc_conv_app_nth)
  ultimately show ?case
    by simp
qed simp

lemma ReadVec_enc:
  assumes "okVec ok vs" and u: "unread r = encVec enc vs tag @ xs"
  shows "ReadVec rd zero ws tag require r = (vs, None, adv (length (encVec enc vs tag)) r)"
proof -
  let ?r1 = "adv (length (encHead LIST tag)) r"
  let ?r2 = "adv (length (encInt (int (length vs)) 0)) ?r1"
  have "SkipToNoCheck tag True r = (True, LIST, None, ?r1)"
    using u by (intro SkipToNoCheck_found) (simp_all add: encVec_def jce_ty_defs)
  moreover have u1: "unread ?r1 = encInt (int (length vs)) 0 @ concat (map (\<lambda>v. enc v 0) vs) @ xs"
    using u by (simp add: encVec_def)
  moreover have "readElems rd (length vs) 0 (replicate (length vs) zero) ?r2
      = (take 0 (replicate (length vs) zero) @ vs, None, adv (length (concat (map (\<lambda>v. enc v 0) vs))) ?r2)"
    using assms(1) by (intro readElems_enc) (simp_all add: okVec_def u encVec_def)
  ultimately show ?thesis
    using ReadInt32_len [OF u1] assms(1)
    by (simp add: ReadVec_def okVec_def encVec_def add.assoc)
qed

lemma WriteVec_enc:
  assumes "okVec ok vs"
  shows "appends (WriteVec wr vs tag) (encVec enc vs tag)"
proof -
  have "list_all2 appends ([WriteHead LIST tag, WriteInt32 (word_of_nat (length vs)) 0] @ map (\<lambda>v. wr v 0) vs)
      ([encHead LIST tag, encInt (int (length vs)) 0] @ map (\<lambda>v. enc v 0) vs)"
    using assms by (auto simp: okVec_def list_all_iff list.rel_map appends_WriteHead
        intro!: list.rel_refl_strong wr_value appends_len)
  from appends_wseq [OF this] show ?thesis
    by (simp add: WriteVec_def encVec_def del: wseq.simps)
qed

lemma vec_codec: "value_codec (WriteVec wr) (ReadVec rd zero) (encVec enc) (okVec ok)"
  by unfold_locales (simp_all add: WriteVec_enc ReadVec_enc)

end

locale map_codec =
  key: value_codec wrK rdK encK okK + val: value_codec wrV rdV encV okV
  for wrK :: "'k \<Rightarrow> byte \<Rightarrow> writer" and rdK encK okK
    and wrV :: "'v \<Rightarrow> byte \<Rightarrow> writer" and rdV encV okV
begin

lemma readPairs_enc:
  assumes "list_all (\<lambda>(k, v). okK k \<and> okV v) m"
    and "unread r = concat (map (\<lambda>(k, v). encK k 0 @ encV v 1) m) @ xs"
    and "distinct (map fst m)" and "fst ` set m \<inter> fst ` set m0 = {}"
  shows "readPairs rdK k0 rdV v0 (length m) m0 r
    = (m0 @ m, None, adv (length (concat (map (\<lambda>(k, v). encK k 0 @ encV v 1) m))) r)"
  using assms
proof (induction m arbitrary: m0 r)
  case (Cons kv m)
  obtain k v where kv: "kv = (k, v)"
    by (cases kv)
  let ?r1 = "adv (length (encK k 0)) r" and ?r2 = "adv (length (encV v 1)) (adv (length (encK k 0)) r)"
  have "rdK k0 0 False r = (k, None, ?r1)"
    using Cons.prems kv by (intro key.rd_value) auto
  moreover have "rdV v0 1 False ?r1 = (v, None, ?r2)"
    using Cons.prems kv by (intro val.rd_value) auto
  moreover have "AList.update k v m0 = m0 @ [(k, v)]"
    using Cons.prems kv by (intro update_new_append) auto
  moreover have "readPairs rdK k0 rdV v0 (length m) (m0 @ [(k, v)]) ?r2
      = ((m0 @ [(k, v)]) @ m, None, adv (length (concat (map (\<lambda>(k, v). encK k 0 @ encV v 1) m))) ?r2)"
    using Cons.prems kv by (intro Cons.IH) auto
  ultimately show ?case
    using kv by (simp add: add.assoc)
qed simp

lemma ReadMap_enc:
  assumes "okMap okK okV m" and u: "unread r = encMap encK encV m tag @ xs"
  shows "ReadMap rdK k0 rdV v0 w tag require r = (m, None, adv (length (encMap encK encV m tag)) r)"
proof -
  let ?ps = "concat (map (\<lambda>(k, v). encK k 0 @ encV v 1) m)"
  let ?r1 = "adv (length (encHead MAP tag)) r"
  let ?r2 = "adv (length (encInt (int (length m)) 0)) ?r1"
  have "SkipTo MAP tag True r = (True, None, ?r1)"
    using u by (intro SkipTo_found) (simp_all add: encMap_def jce_ty_defs)
  moreover have u1: "unread ?r1 = encInt (int (length m)) 0 @ ?ps @ xs"
    using u by (simp add: encMap_def)
  moreover have "readPairs rdK k0 rdV v0 (length m) [] ?r2 = ([] @ m, None, adv (length ?ps) ?r2)"
    using assms(1) by (intro readPairs_enc) (simp_all add: okMap_def u encMap_def)
  ultimately show ?thesis
    using ReadInt32_len [OF u1] assms(1)
    by (simp add: ReadMap_def okMap_def encMap_def add.assoc)
qed

lemma WriteMap_enc:
  assumes "okMap okK okV m"
  shows "appends (WriteMap wrK wrV m tag) (encMap encK encV m tag)"
proof -
  have "list_all (\<lambda>(k, v). okK k \<and> okV v) m \<Longrightarrow>
      list_all2 appends (concat (map (\<lambda>(k, v). [wrK k 0, wrV v 1]) m)) (concat (map (\<lambda>(k, v). [encK k 0, encV v 1]) m))"
    by (induction m) (auto intro: key.wr_value val.wr_value)
  then have l: "list_all2 appends ([WriteHead MAP tag, WriteInt32 (word_of_nat (length m)) 0]
        @ concat (map (\<lambda>(k, v). [wrK k 0, wrV v 1]) m))
      ([encHead MAP tag, encInt (int (length m)) 0] @ concat (map (\<lambda>(k, v). [encK k 0, encV v 1]) m))"
    using assms by (auto simp: okMap_def appends_WriteHead intro!: appends_len)
  have "concat (concat (map (\<lambda>(k, v). [encK k 0, encV v 1]) m)) = concat (map (\<lambda>(k, v). encK k 0 @ encV v 1) m)"
    by (induction m) auto
  with appends_wseq [OF l] show ?thesis
    by (simp add: WriteMap_def encMap_def del: wseq.simps)
qed

lemma map_codec: "value_codec (WriteMap wrK wrV) (ReadMap rdK k0 rdV v0) (encMap encK encV) (okMap okK okV)"
  by unfold_locales (simp_all add: WriteMap_enc ReadMap_enc)

end

section \<open>Structs\<close>

text \<open>A struct whose members are all replaced by reading, so that it does not matter what it held before.\<close>

locale plain_struct = struct_codec name Reset WriteTo ReadFrom enc ok "\<lambda>_. True"
  for name and Reset :: "'s \<Rightarrow> 's" and WriteTo ReadFrom enc ok

sublocale plain_struct \<subseteq> block: value_codec "WriteBlock WriteTo" "ReadBlock name Reset ReadFrom" "encBlock enc" ok
  using ReadBlock_newer [where fs = "[]"] WriteBlock_enc
  by unfold_locales (simp_all add: encBlock_def add.assoc)

text \<open>The block form stays readable when a newer version of the struct has more members.\<close>

definition block_compatible :: "'s value_reader \<Rightarrow> ('s \<Rightarrow> writer) \<Rightarrow> ('s \<Rightarrow> bool) \<Rightarrow> bool" where
  "block_compatible rb wt ok \<longleftrightarrow> (\<forall>st w fs tag require r xs. ok st \<and> wfFields fs
     \<and> unread r = encHead StructBegin tag @ snd (wt st []) @ encFields fs @ encHead StructEnd 0 @ xs
     \<longrightarrow> (\<exists>r'. rb w tag require r = (st, None, r') \<and> unread r' = xs))"

context plain_struct
begin

lemma compatible: "block_compatible (ReadBlock name Reset ReadFrom) WriteTo ok"
  unfolding block_compatible_def
proof (intro allI impI, elim conjE)
  fix st w fs tag require r xs
  assume st: "ok st" "wfFields fs"
    and u: "unread r = encHead StructBegin tag @ snd (WriteTo st []) @ encFields fs @ encHead StructEnd 0 @ xs"
  have "snd (WriteTo st []) = enc st"
    using appends_append [OF WriteTo_enc [OF st(1)], of "[]"] by simp
  with u ReadBlock_newer [OF st(1) TrueI st(2), of r tag xs w require]
  show "\<exists>r'. ReadBlock name Reset ReadFrom w tag require r = (st, None, r') \<and> unread r' = xs"
    by simp
qed

end

text \<open>What reading one member does when the bytes \<open>bs\<close> are next: it changes the struct by \<open>f\<close>.\<close>

definition reads_member :: "'s member_reader \<Rightarrow> bytes \<Rightarrow> ('s \<Rightarrow> 's) \<Rightarrow> bool" where
  "reads_member m bs f \<longleftrightarrow> (\<forall>w r xs. unread r = bs @ xs \<longrightarrow> m w r = (f w, None, adv (length bs) r))"

lemma reads_members_Nil: "reads_member (readMembers []) (concat []) (\<lambda>w. w)"
  by (simp add: reads_member_def)

lemma reads_members_Cons:
  assumes "reads_member m bs f" and "reads_member (readMembers ms) (concat bss) g"
  shows "reads_member (readMembers (m # ms)) (concat (bs # bss)) (\<lambda>w. g (f w))"
  using assms unfolding reads_member_def by simp

lemmas reads_members = reads_members_Cons reads_members_Nil

lemma members_read:
  assumes "reads_member (readMembers ms) bs f" and "\<And>w. f w = st" and "unread r = bs @ xs"
  shows "readMembers ms w r = (st, None, adv (length bs) r)"
  using assms by (simp add: reads_member_def)

context value_codec
begin

lemma member_enc:
  "ok (sel st) \<Longrightarrow> reads_member (member rd sel upd tag require) (enc (sel st) tag) (upd (\<lambda>_. sel st))"
  using rd_value by (auto simp: reads_member_def member_def)

end

end
