(* ===== verification/Service_Calls.thy ===== *)
theory Service_Calls
  imports Remote_Call Tup Struct_Members
begin

text \<open>
  The shapes of the proxies and dispatchers that \<^verbatim>\<open>tars2go\<close> generates for an interface (the files
  \<^verbatim>\<open>*.tars.go\<close> under \<^verbatim>\<open>tars/protocol/res\<close>), as functions of the description of a method: its
  name, the parameters it takes and returns, each with a tag and the code that writes and reads it. The variables
  of a method are a record \<open>'a\<close>; the implementation of a service, and the package \<^verbatim>\<open>encoding/json\<close>, are
  arguments.
\<close>

section \<open>Errors\<close>

text \<open>The texts of the errors of the codec and of the generated code; 39 is the quote.\<close>

fun errText :: "gerr \<Rightarrow> gostring" where
  "errText EOF = ascii ''EOF''"
| "errText (SimpleListHead ty) = ascii ''simple list need byte head. but get '' @ fmt_d (uint ty)"
| "errText InvalidType = ascii ''invalid type''"
| "errText (RequireNotFound tag e) =
     ascii ''can not find Tag '' @ fmt_d (uint tag) @ ascii ''. But require. '' @ errText e"
| "errText (RequireStop tag tagCur tyCur) =
     ascii ''can not find Tag '' @ fmt_d (uint tag) @ ascii ''. But require. tagCur: '' @ fmt_d (uint tagCur)
     @ ascii '', tyCur: '' @ fmt_d (uint tyCur)"
| "errText (TypeNotMatch ty tyCur) =
     ascii ''type not match, need '' @ fmt_d (uint ty) @ ascii '', bug '' @ fmt_d (uint tyCur)"
| "errText (ReadSliceErr t e) = ascii ''read '' @ ascii t @ ascii '' error:'' @ errText e"
| "errText (TypeMismatch t tag got) =
     ascii ''read '' @ 39 # ascii t @ 39 # ascii '' type mismatch, tag:'' @ fmt_d (uint tag) @ ascii '', get type:'' @ ascii got"
| "errText (ReadErr t tag e) =
     (if t = ''string4'' \<or> t = ''string1'' then ascii ''read '' @ ascii t @ ascii '' tag:''
      else ascii ''read '' @ 39 # ascii t @ 39 # ascii '' tag:'') @ fmt_d (uint tag) @ ascii '' error:'' @ errText e"
| "errText (NeedString tag got) =
     ascii ''need string, tag:'' @ fmt_d (uint tag) @ ascii '', but type is '' @ ascii got"
| "errText RequireVector = ascii ''require vector, but not''"
| "errText (RequireStruct t tag) =
     ascii ''require '' @ ascii t @ ascii '', but not exist. tag '' @ fmt_d (uint tag)"
| "errText (NoKey k) = ascii ''tup get error: donot find key: '' @ k"
| "errText (NotSupported t) =
     (if t = ''put'' then ascii ''tup put error: not support type''
      else if t = ''get'' then ascii ''tup get error: not support type''
      else if t = ''Get'' then ascii ''tup not support! Please use GetBuffer()''
      else ascii ''not support '' @ ascii t @ ascii '' type'')"
| "errText (Panic m) = ascii m"

text \<open>What a part of a generated function comes to: a panic, an error it returns, or a value it goes on with.\<close>

type_synonym 'a outcome = "gerr + goError + 'a"

definition fromErr :: "gerr option \<Rightarrow> 'a \<Rightarrow> 'a outcome" where
  "fromErr err a = (case err of
     None \<Rightarrow> Inr (Inr a) | Some (Panic m) \<Rightarrow> Inl (Panic m) | Some e \<Rightarrow> Inr (Inl (PlainError (errText e))))"

definition andThen :: "'a outcome \<Rightarrow> ('a \<Rightarrow> 'b outcome) \<Rightarrow> 'b outcome" where
  "andThen x f = (case x of Inl e \<Rightarrow> Inl e | Inr (Inl err) \<Rightarrow> Inr (Inl err) | Inr (Inr a) \<Rightarrow> f a)"

section \<open>Parameters and methods\<close>

record 'a param =
  pmName :: gostring
  pmTag :: byte
  pmWrite :: "'a \<Rightarrow> byte \<Rightarrow> writer"
  pmRead :: "byte \<Rightarrow> 'a member_reader"
  pmReset :: "'a \<Rightarrow> 'a"

definition param :: "string \<Rightarrow> byte \<Rightarrow> ('v \<Rightarrow> byte \<Rightarrow> writer) \<Rightarrow> 'v value_reader \<Rightarrow> ('a \<Rightarrow> 'v)
    \<Rightarrow> (('v \<Rightarrow> 'v) \<Rightarrow> 'a \<Rightarrow> 'a) \<Rightarrow> 'a param" where
  "param name tag wr rd sel upd =
     \<lparr>pmName = ascii name, pmTag = tag, pmWrite = (\<lambda>a. wr (sel a)), pmRead = (\<lambda>tag. member rd sel upd tag True),
      pmReset = (\<lambda>a. a)\<rparr>"

text \<open>Before a struct is filled from JSON it is reset.\<close>

definition structParam :: "string \<Rightarrow> byte \<Rightarrow> ('v \<Rightarrow> byte \<Rightarrow> writer) \<Rightarrow> 'v value_reader \<Rightarrow> ('v \<Rightarrow> 'v) \<Rightarrow> ('a \<Rightarrow> 'v)
    \<Rightarrow> (('v \<Rightarrow> 'v) \<Rightarrow> 'a \<Rightarrow> 'a) \<Rightarrow> 'a param" where
  "structParam name tag wr rd Reset sel upd = (param name tag wr rd sel upd)\<lparr>pmReset := upd Reset\<rparr>"

text \<open>In all these interfaces the parameters that go in come before those that come out.\<close>

record 'a rpcMethod =
  mdName :: gostring
  mdGo :: gostring
  mdIn :: "'a param list"
  mdOut :: "'a param list"
  mdRet :: "'a param option"

definition mdResults :: "'a rpcMethod \<Rightarrow> 'a param list" where
  "mdResults m = (case mdRet m of None \<Rightarrow> [] | Some p \<Rightarrow> [p]) @ mdOut m"

definition writeAll :: "writer list \<Rightarrow> bytes outcome" where
  "writeAll ws = (case wseq ws (NewBuffer []) of (err, b) \<Rightarrow> fromErr err (Buffer_ToBytes b))"

definition writeParams :: "'a param list \<Rightarrow> 'a \<Rightarrow> bytes outcome" where
  "writeParams ps a = writeAll (map (\<lambda>p. pmWrite p a (pmTag p)) ps)"

definition readParams :: "'a param list \<Rightarrow> 'a member_reader" where
  "readParams ps = readMembers (map (\<lambda>p. pmRead p (pmTag p)) ps)"

section \<open>The dispatcher\<close>

text \<open>\<^verbatim>\<open>encoding/json\<close>: decoding a request into an object, storing a member of the object into a
  variable, and encoding the results.\<close>

record ('j, 'a) json =
  jsDecode :: "bytes \<Rightarrow> goError + 'j"
  jsGet :: "'j \<Rightarrow> gostring \<Rightarrow> 'a \<Rightarrow> goError + 'a"
  jsMarshal :: "gostring list \<Rightarrow> 'a \<Rightarrow> goError + bytes"

definition JSONVERSION :: int16 where "JSONVERSION = 5"

fun readTup :: "'a param list \<Rightarrow> UniAttribute \<Rightarrow> 'a \<Rightarrow> 'a outcome" where
  "readTup [] u a = Inr (Inr a)"
| "readTup (p # ps) u a =
     (case pmRead p 0 a (NewReader (fst (GetBuffer (pmName p) u))) of
        (a, err, _) \<Rightarrow> andThen (fromErr err a) (readTup ps u))"

fun readJson :: "('j, 'a) json \<Rightarrow> 'j \<Rightarrow> 'a param list \<Rightarrow> 'a \<Rightarrow> 'a outcome" where
  "readJson js j [] a = Inr (Inr a)"
| "readJson js j (p # ps) a =
     (case jsGet js j (pmName p) (pmReset p a) of Inl e \<Rightarrow> Inr (Inl e) | Inr a \<Rightarrow> readJson js j ps a)"

text \<open>A method without parameters does not look at the version. The error of \<^verbatim>\<open>Decode\<close> is not looked at.\<close>

definition readArgs :: "('j, 'a) json \<Rightarrow> 'a param list \<Rightarrow> int16 \<Rightarrow> bytes \<Rightarrow> 'a \<Rightarrow> 'a outcome" where
  "readArgs js ps version data a =
     (if ps = [] then Inr (Inr a)
      else if version = TARSVERSION then (case readParams ps a (NewReader data) of (a, err, _) \<Rightarrow> fromErr err a)
      else if version = TUPVERSION then
        (case Decode NewUniAttribute (NewReader data) of
           (_, Some (Panic m), _) \<Rightarrow> Inl (Panic m)
         | (u, _, _) \<Rightarrow> readTup ps u a)
      else if version = JSONVERSION then
        (case jsDecode js data of
           Inl e \<Rightarrow> Inr (Inl (PlainError (ascii ''decode reqpacket failed, error: '' @ goError_Error e)))
         | Inr j \<Rightarrow> readJson js j ps a)
      else Inr (Inl (PlainError (ascii ''decode reqpacket fail, error version: '' @ fmt_d (sint version)))))"

fun putTup :: "'a param list \<Rightarrow> 'a \<Rightarrow> UniAttribute \<Rightarrow> UniAttribute outcome" where
  "putTup [] a u = Inr (Inr u)"
| "putTup (p # ps) a u =
     andThen (writeAll [pmWrite p a 0]) (\<lambda>b. putTup ps a (PutBuffer (pmName p) b u))"

text \<open>The return value is also put under the empty name.\<close>

definition putTupRet :: "'a param option \<Rightarrow> 'a \<Rightarrow> UniAttribute outcome" where
  "putTupRet ret a =
     (case ret of
        None \<Rightarrow> Inr (Inr NewUniAttribute)
      | Some p \<Rightarrow> andThen (writeAll [pmWrite p a 0])
          (\<lambda>b. Inr (Inr (PutBuffer (ascii ''tars_ret'') b (PutBuffer [] b NewUniAttribute)))))"

definition writeResults :: "('j, 'a) json \<Rightarrow> 'a rpcMethod \<Rightarrow> int16 \<Rightarrow> 'a \<Rightarrow> bytes outcome" where
  "writeResults js m version a =
     (if version = TARSVERSION then writeParams (mdResults m) a
      else if version = TUPVERSION then
        andThen (andThen (putTupRet (mdRet m) a) (putTup (mdOut m) a)) (\<lambda>u. writeAll [Encode u])
      else if version = JSONVERSION then
        (case jsMarshal js (map pmName (mdResults m)) a of
           Inl e \<Rightarrow> Inr (Inl e) | Inr bs \<Rightarrow> writeAll [WriteSliceUint8 bs])
      else Inr (Inr (NewBuffer [])))"

text \<open>A servant's implementation: whether its methods take the context, and what a call of one of them with the
  variables of the dispatcher does. Results, context and world are returned.\<close>

record ('a, 'w) servantImp =
  siWithContext :: bool
  siCall :: "gostring \<Rightarrow> Ctx option \<Rightarrow> 'a \<Rightarrow> 'w \<Rightarrow> gerr + (goError option \<times> 'a) \<times> Ctx option \<times> 'w"

definition respMap :: "strmap option \<times> bool \<Rightarrow> strmap" where
  "respMap x = (case x of (Some m, True) \<Rightarrow> m | _ \<Rightarrow> [])"

definition dispatchRsp :: "RequestPacket \<Rightarrow> bytes \<Rightarrow> Ctx \<Rightarrow> ResponsePacket" where
  "dispatchRsp req buf ctx =
     \<lparr>rsIVersion = rqIVersion req, rsCPacketType = 0, rsIRequestId = rqIRequestId req, rsIMessageType = 0,
      rsIRet = 0, rsSBuffer = buf, rsStatus = respMap (GetResponseStatus ctx), rsSResultDesc = [],
      rsContext = respMap (GetResponseContext ctx)\<rparr>"

definition callImp :: "('a, 'w) servantImp \<Rightarrow> bool \<Rightarrow> 'a rpcMethod \<Rightarrow> 'a \<Rightarrow> 'w inv
    \<Rightarrow> gerr + (goError option \<times> 'a) \<times> 'w inv" where
  "callImp imp withContext m a s =
     (if withContext \<noteq> siWithContext imp then Inl (Panic ''interface conversion'')
      else (case siCall imp (mdGo m) (if withContext then Some (ivCtx s) else None) a (ivWorld s) of
              Inl e \<Rightarrow> Inl e
            | Inr (res, ctx, w) \<Rightarrow>
                Inr (res, s\<lparr>ivWorld := w, ivCtx := (if withContext then (case ctx of Some c \<Rightarrow> c | None \<Rightarrow> ivCtx s) else ivCtx s)\<rparr>)))"

definition dispatchCase :: "('j, 'a) json \<Rightarrow> 'a \<Rightarrow> 'a rpcMethod \<Rightarrow> (('a, 'w) servantImp, 'w) Dispatch" where
  "dispatchCase js zero m = (\<lambda>(imp, withContext) s.
     case readArgs js (mdIn m) (rqIVersion (ivReq s)) (rqSBuffer (ivReq s)) zero of
       Inl e \<Rightarrow> Inl e
     | Inr (Inl err) \<Rightarrow> Inr (Some err, s)
     | Inr (Inr a) \<Rightarrow>
         (case callImp imp withContext m a s of
            Inl e \<Rightarrow> Inl e
          | Inr ((Some err, _), s) \<Rightarrow> Inr (Some err, s)
          | Inr ((None, a), s) \<Rightarrow>
              (case writeResults js m (rqIVersion (ivReq s)) a of
                 Inl e \<Rightarrow> Inl e
               | Inr (Inl err) \<Rightarrow> Inr (Some err, s)
               | Inr (Inr buf) \<Rightarrow> Inr (None, s\<lparr>ivRsp := dispatchRsp (ivReq s) buf (ivCtx s)\<rparr>))))"

definition dispatchService :: "('j, 'a) json \<Rightarrow> 'a \<Rightarrow> 'a rpcMethod list \<Rightarrow> (('a, 'w) servantImp, 'w) Dispatch" where
  "dispatchService js zero methods = (\<lambda>x s.
     case find (\<lambda>m. mdName m = rqSFuncName (ivReq s)) methods of
       None \<Rightarrow> Inr (Some (PlainError (ascii ''func mismatch'')), s)
     | Some m \<Rightarrow> dispatchCase js zero m x s)"

section \<open>The proxy\<close>

text \<open>\<^verbatim>\<open>TarsInvoke\<close> of the servant a proxy holds: packet type, function, buffer, status and context.\<close>

type_synonym 'w invoker =
  "byte \<Rightarrow> gostring \<Rightarrow> bytes \<Rightarrow> strmap \<Rightarrow> strmap \<Rightarrow> 'w \<Rightarrow> gerr + (goError option \<times> ResponsePacket) \<times> 'w"

text \<open>The optional maps of a call are its context and its status; after the call they hold those of the response.\<close>

definition optMaps :: "strmap list \<Rightarrow> strmap \<times> strmap" where
  "optMaps opts = (case opts of [c] \<Rightarrow> (c, []) | [c, s] \<Rightarrow> (c, s) | _ \<Rightarrow> ([], []))"

definition optsAfter :: "ResponsePacket \<Rightarrow> strmap list \<Rightarrow> strmap list" where
  "optsAfter rsp opts =
     (case opts of [c] \<Rightarrow> [rsContext rsp] | [c, s] \<Rightarrow> [rsContext rsp, rsStatus rsp] | _ \<Rightarrow> opts)"

text \<open>The arguments are all written, those that only come out too.\<close>

definition proxySend :: "byte \<Rightarrow> 'a rpcMethod \<Rightarrow> 'w invoker \<Rightarrow> 'a \<Rightarrow> strmap list \<Rightarrow> 'w
    \<Rightarrow> (ResponsePacket \<Rightarrow> 'w \<Rightarrow> gerr + (goError option \<times> 'a \<times> strmap list) \<times> 'w)
    \<Rightarrow> gerr + (goError option \<times> 'a \<times> strmap list) \<times> 'w" where
  "proxySend cType m invoke a opts w k =
     (case writeParams (mdIn m @ mdOut m) a of
        Inl e \<Rightarrow> Inl e
      | Inr (Inl err) \<Rightarrow> Inr ((Some err, a, opts), w)
      | Inr (Inr buf) \<Rightarrow>
          (case optMaps opts of (contextMap, statusMap) \<Rightarrow>
             (case invoke cType (mdName m) buf statusMap contextMap w of
                Inl e \<Rightarrow> Inl e
              | Inr ((Some err, _), w) \<Rightarrow> Inr ((Some err, a, opts), w)
              | Inr ((None, tarsResp), w) \<Rightarrow> k tarsResp w)))"

definition proxyCall :: "'a rpcMethod \<Rightarrow> 'w invoker \<Rightarrow> 'a \<Rightarrow> strmap list \<Rightarrow> 'w
    \<Rightarrow> gerr + (goError option \<times> 'a \<times> strmap list) \<times> 'w" where
  "proxyCall m invoke a opts w = proxySend 0 m invoke a opts w (\<lambda>tarsResp w.
     case readParams (mdResults m) a (NewReader (rsSBuffer tarsResp)) of
       (_, Some (Panic x), _) \<Rightarrow> Inl (Panic x)
     | (a, Some e, _) \<Rightarrow> Inr ((Some (PlainError (errText e)), a, opts), w)
     | (a, None, _) \<Rightarrow> Inr ((None, a, optsAfter tarsResp opts), w))"

definition proxyOneWay :: "'a rpcMethod \<Rightarrow> 'w invoker \<Rightarrow> 'a \<Rightarrow> strmap list \<Rightarrow> 'w
    \<Rightarrow> gerr + (goError option \<times> 'a \<times> strmap list) \<times> 'w" where
  "proxyOneWay m invoke a opts w = proxySend 1 m invoke a opts w (\<lambda>tarsResp w. Inr ((None, a, opts), w))"

text \<open>The servant of a proxy.\<close>

definition tarsInvoker :: "('g, 'v, cinv) filters \<Rightarrow> callEnv \<Rightarrow> ServantProxy \<Rightarrow> int32 \<Rightarrow> Clock \<Rightarrow> Ctx \<Rightarrow> callWorld invoker" where
  "tarsInvoker fs env p rid clock ctx cType fn buf status reqContext w =
     (case TarsInvoke fs (doInvoke env) p rid clock cType fn buf status reqContext zero_response ctx w of
        Inl e \<Rightarrow> Inl e
      | Inr ((err, rsp, report), c) \<Rightarrow> Inr ((err, rsp), ciWorld c))"

end
