(* ===== verification/Service_Contract.thy ===== *)
theory Service_Contract
  imports Service_Calls
begin

text \<open>
  What the generated proxies and dispatchers promise, as the locale \<open>rpc_service\<close> over the description of a
  service: a call through the proxy, the client, the server and the dispatcher is a call of the implementation.
\<close>

section \<open>Parameters\<close>

lemma fromErr_None [simp]: "fromErr None a = Inr (Inr a)"
  by (simp add: fromErr_def)

lemma andThen_ok [simp]: "andThen (Inr (Inr a)) f = f a"
  by (simp add: andThen_def)

text \<open>A parameter on the wire, and the variables \<open>b\<close> after reading the parameter of \<open>a\<close> into them.\<close>

definition encParam :: "'a param \<Rightarrow> 'a \<Rightarrow> byte \<Rightarrow> bytes" where
  "encParam p a tag = snd (pmWrite p a tag [])"

definition transfer :: "'a param \<Rightarrow> 'a \<Rightarrow> 'a \<Rightarrow> 'a" where
  "transfer p a b = fst (pmRead p 0 b (NewReader (encParam p a 0)))"

definition codec_param :: "('a \<Rightarrow> bool) \<Rightarrow> 'a param \<Rightarrow> bool" where
  "codec_param ok p \<longleftrightarrow> (\<forall>a tag. ok a \<longrightarrow> appends (pmWrite p a tag) (encParam p a tag)
     \<and> reads_member (pmRead p tag) (encParam p a tag) (transfer p a) \<and> encParam p a tag \<noteq> [])"

lemma appends_unique: "appends w bs \<Longrightarrow> snd (w []) = bs"
  using appends_append [of w bs "[]"] by simp

context value_codec
begin

lemma transfer_value:
  "ok (sel a) \<Longrightarrow> transfer (param n tag wr rd sel upd) a b = upd (\<lambda>_. sel a) b"
  "ok (sel a) \<Longrightarrow> transfer (structParam n tag wr rd Reset sel upd) a b = upd (\<lambda>_. sel a) b"
  using appends_unique [OF wr_value, of "sel a" 0] rd_value [of "sel a" "NewReader (enc (sel a) 0)" 0 "[]" "sel b" True]
  by (simp_all add: transfer_def encParam_def param_def structParam_def member_def)

lemma encParam_value:
  "ok (sel a) \<Longrightarrow> encParam (param n tag wr rd sel upd) a t = enc (sel a) t"
  "ok (sel a) \<Longrightarrow> encParam (structParam n tag wr rd Reset sel upd) a t = enc (sel a) t"
  using appends_unique [OF wr_value] by (simp_all add: encParam_def param_def structParam_def)

lemma codec_value:
  assumes "\<And>a. okA a \<Longrightarrow> ok (sel a)" and "\<And>v tag. enc v tag \<noteq> []"
  shows "codec_param okA (param n tag wr rd sel upd)"
    and "codec_param okA (structParam n tag wr rd Reset sel upd)"
proof -
  have "appends (wr (sel a) t) (encParam (param n tag wr rd sel upd) a t)
      \<and> reads_member (member rd sel upd t True) (encParam (param n tag wr rd sel upd) a t) (upd (\<lambda>_. sel a))
      \<and> encParam (param n tag wr rd sel upd) a t \<noteq> []" if "okA a" for a t
    using wr_value [OF assms(1) [OF that], of t] appends_unique [OF wr_value [OF assms(1) [OF that]], of t]
      member_enc [of sel a upd t True, OF assms(1) [OF that]]
    by (simp add: encParam_def param_def assms(2))
  moreover have "transfer (param n tag wr rd sel upd) a = upd (\<lambda>_. sel a)"
    "transfer (structParam n tag wr rd Reset sel upd) a = upd (\<lambda>_. sel a)" if "okA a" for a
    using transfer_value [of sel a, OF assms(1) [OF that]] by blast+
  ultimately show "codec_param okA (param n tag wr rd sel upd)"
    and "codec_param okA (structParam n tag wr rd Reset sel upd)"
    by (simp_all add: codec_param_def) (simp_all add: param_def structParam_def encParam_def)
qed

end

definition encParams :: "'a param list \<Rightarrow> 'a \<Rightarrow> bytes" where
  "encParams ps a = concat (map (\<lambda>p. encParam p a (pmTag p)) ps)"

definition transferAll :: "'a param list \<Rightarrow> 'a \<Rightarrow> 'a \<Rightarrow> 'a" where
  "transferAll ps a = fold (\<lambda>p. transfer p a) ps"

lemma encParams_append: "encParams (ps @ qs) a = encParams ps a @ encParams qs a"
  by (simp add: encParams_def)

lemma writeParams_enc:
  assumes "\<forall>p \<in> set ps. codec_param ok p" and "ok a"
  shows "writeParams ps a = Inr (Inr (encParams ps a))"
proof -
  have "list_all2 appends (map (\<lambda>p. pmWrite p a (pmTag p)) ps) (map (\<lambda>p. encParam p a (pmTag p)) ps)"
    using assms by (auto simp: list.rel_map codec_param_def intro!: list.rel_refl_strong)
  from appends_append [OF appends_wseq [OF this], of "[]"] show ?thesis
    by (simp add: writeParams_def writeAll_def encParams_def NewBuffer_def Buffer_ToBytes_def)
qed

lemma readParams_enc:
  assumes "\<forall>p \<in> set ps. codec_param ok p" and "ok a"
  shows "reads_member (readParams ps) (encParams ps a) (transferAll ps a)"
  using assms(1)
proof (induction ps)
  case (Cons p ps)
  then have "reads_member (pmRead p (pmTag p)) (encParam p a (pmTag p)) (transfer p a)"
    using assms(2) by (simp add: codec_param_def)
  then show ?case
    using reads_members_Cons [of _ _ _ "map (\<lambda>p. pmRead p (pmTag p)) ps" "map (\<lambda>p. encParam p a (pmTag p)) ps"] Cons
    by (simp add: readParams_def encParams_def transferAll_def comp_def del: readMembers.simps)
qed (simp add: readParams_def encParams_def transferAll_def reads_member_def)

lemma readParams_run:
  assumes "\<forall>p \<in> set ps. codec_param ok p" and "ok a"
  shows "\<exists>r. readParams ps b (NewReader (encParams ps a @ xs)) = (transferAll ps a b, None, r)"
  using readParams_enc [OF assms] by (simp add: reads_member_def)

section \<open>Parameters by name\<close>

lemma readTup_named:
  assumes "\<forall>p \<in> set ps. codec_param ok p \<and> map_of u (pmName p) = Some (encParam p a 0)" and "ok a"
  shows "readTup ps u b = Inr (Inr (transferAll ps a b))"
  using assms(1)
proof (induction ps arbitrary: b)
  case (Cons p ps)
  then have "reads_member (pmRead p 0) (encParam p a 0) (transfer p a)"
    using assms(2) by (simp add: codec_param_def)
  then have "pmRead p 0 b (NewReader (encParam p a 0)) = (transfer p a b, None, adv (length (encParam p a 0)) (NewReader (encParam p a 0)))"
    by (simp add: reads_member_def)
  then show ?case
    using Cons by (simp add: GetBuffer_def transferAll_def)
qed (simp add: transferAll_def)

definition tupOf :: "'a param list \<Rightarrow> 'a \<Rightarrow> UniAttribute \<Rightarrow> UniAttribute" where
  "tupOf ps a = fold (\<lambda>p. PutBuffer (pmName p) (encParam p a 0)) ps"

definition tupResults :: "'a rpcMethod \<Rightarrow> 'a \<Rightarrow> UniAttribute" where
  "tupResults m a = tupOf (mdOut m) a
     (case mdRet m of None \<Rightarrow> [] | Some p \<Rightarrow> tupOf [p] a (PutBuffer [] (encParam p a 0) []))"

lemma PutBuffer_last:
  assumes "b \<noteq> []" and "u = [] \<or> snd (last u) \<noteq> []"
  shows "PutBuffer k b u \<noteq> [] \<and> snd (last (PutBuffer k b u)) \<noteq> []"
  using assms(2)
proof (induction u)
  case (Cons x u)
  then show ?case
    using assms(1) by (cases "fst x = k"; cases u) (auto simp: PutBuffer_def split: prod.splits)
qed (simp add: PutBuffer_def assms(1))

lemma tupOf_last:
  "\<forall>p \<in> set ps. codec_param ok p \<Longrightarrow> ok a \<Longrightarrow> u = [] \<or> snd (last u) \<noteq> []
   \<Longrightarrow> tupOf ps a u = [] \<or> snd (last (tupOf ps a u)) \<noteq> []"
  by (induction ps arbitrary: u) (auto simp: tupOf_def codec_param_def PutBuffer_last)

lemma writeAll_param: "codec_param ok p \<Longrightarrow> ok a \<Longrightarrow> writeAll [pmWrite p a 0] = Inr (Inr (encParam p a 0))"
  using appends_append [of "pmWrite p a 0" "encParam p a 0" "[]"]
  by (simp add: writeAll_def codec_param_def NewBuffer_def Buffer_ToBytes_def)

lemma putTup_enc:
  "\<forall>p \<in> set ps. codec_param ok p \<Longrightarrow> ok a \<Longrightarrow> putTup ps a u = Inr (Inr (tupOf ps a u))"
  by (induction ps arbitrary: u) (simp_all add: writeAll_param [of ok] tupOf_def)

lemma tupOf_simps [simp]:
  "tupOf [] a u = u" "tupOf (p # ps) a u = tupOf ps a (PutBuffer (pmName p) (encParam p a 0) u)"
  by (simp_all add: tupOf_def)

lemma map_of_PutBuffer [simp]: "map_of (PutBuffer k b u) = (map_of u)(k \<mapsto> b)"
  by (simp add: PutBuffer_def update_conv')

lemma map_of_tupOf_other: "k \<notin> pmName ` set ps \<Longrightarrow> map_of (tupOf ps a u) k = map_of u k"
  by (induction ps arbitrary: u) simp_all

lemma map_of_tupOf:
  "distinct (map pmName ps) \<Longrightarrow> p \<in> set ps \<Longrightarrow> map_of (tupOf ps a u) (pmName p) = Some (encParam p a 0)"
  by (induction ps arbitrary: u) (auto simp: map_of_tupOf_other)

section \<open>The contract\<close>

lemma callImp_keeps:
  "callImp imp wc m a s = Inr (res, s') \<Longrightarrow> ivReq s' = ivReq s \<and> ivRsp s' = ivRsp s"
  by (auto simp: callImp_def split: if_splits sum.splits)

lemma mdResults_set: "set (mdResults m) = set_option (mdRet m) \<union> set (mdOut m)"
  by (auto simp: mdResults_def split: option.splits)

text \<open>The client can send a call: what its endpoint manager knows is reachable and has an endpoint, no adapter is
  up for a probe, its queue has room and the request id is not in use.\<close>

definition clientReady :: "callEnv \<Rightarrow> int32 \<Rightarrow> callWorld \<Rightarrow> bool" where
  "clientReady env rid w \<longleftrightarrow> (\<exists>md5. em_reach md5 (cwManager w)) \<and> (\<forall>n. 0 < n \<longrightarrow> ceIntn env n < n)
     \<and> \<not> emDirectProxy (cwManager w) \<and> emActiveEpf (cwManager w) \<noteq> []
     \<and> (\<forall>i q. emCheckAdapter (cwManager w) \<noteq> Some (i # q))
     \<and> sint (cwQueueLen w) \<le> ceQueueMax env \<and> (\<forall>i. cwResp w (i, rid) = None)"

text \<open>Errors that the protocol carries unchanged.\<close>

definition plainErr :: "goError option \<Rightarrow> bool" where
  "plainErr err \<longleftrightarrow> (\<forall>e. err = Some e \<longrightarrow> goError_Error e \<noteq> [] \<and> (\<forall>c m. e = RpcError c m \<longrightarrow> c \<noteq> 0 \<and> c \<noteq> 1))"

lemma message_request:
  "rqSFuncName (mgReq (fst (newMessage p t req resp ctx))) = rqSFuncName req"
  "rqIVersion (mgReq (fst (newMessage p t req resp ctx))) = rqIVersion req"
  "rqSBuffer (mgReq (fst (newMessage p t req resp ctx))) = rqSBuffer req"
  by (auto simp: newMessage_def Message_Init_def Let_def split: prod.splits bool.splits)

lemma newRequest_content [simp]:
  "rqIVersion (newRequest p rid cType fn buf st rc ctx) = sxVersion p"
  "rqSBuffer (newRequest p rid cType fn buf st rc ctx) = buf"
  by (simp_all add: newRequest_def Let_def map_idI split: prod.splits)

locale rpc_service =
  fixes zero :: 'a and methods :: "'a rpcMethod list" and ok :: "'a \<Rightarrow> bool"
  assumes names: "distinct (map mdName methods)"
    and codecs: "m \<in> set methods \<Longrightarrow> p \<in> set (mdIn m) \<union> set (mdResults m) \<Longrightarrow> codec_param ok p"
    and no_ping: "m \<in> set methods \<Longrightarrow> mdName m \<noteq> ascii ''tars_ping''"
    and tup_names: "m \<in> set methods \<Longrightarrow> distinct ([] # map pmName (mdResults m))
      \<and> (\<forall>p. mdRet m = Some p \<longrightarrow> pmName p = ascii ''tars_ret'')"
begin

lemma dispatch_found:
  assumes "m \<in> set methods" and "rqSFuncName (ivReq s) = mdName m"
  shows "dispatchService js zero methods x s = dispatchCase js zero m x s"
proof -
  have "find (\<lambda>m'. mdName m' = mdName m) methods = Some m"
    using assms(1) names by (induction methods) (auto simp: image_iff)
  then show ?thesis
    using assms(2) by (simp add: dispatchService_def)
qed

lemma write_args:
  "m \<in> set methods \<Longrightarrow> ok a \<Longrightarrow> writeParams (mdIn m @ mdOut m) a = Inr (Inr (encParams (mdIn m) a @ encParams (mdOut m) a))"
  using writeParams_enc [of "mdIn m @ mdOut m" ok a] codecs by (auto simp: encParams_append mdResults_set)

lemma dispatch_tars:
  assumes m: "m \<in> set methods" "rqSFuncName (ivReq s) = mdName m" and "rqIVersion (ivReq s) = TARSVERSION"
    and "rqSBuffer (ivReq s) = encParams (mdIn m) a @ xs" and "ok a"
    and c: "callImp imp wc m (transferAll (mdIn m) a zero) s = Inr ((err, v), s')" and "err = None \<Longrightarrow> ok v"
  shows "dispatchService js zero methods (imp, wc) s = Inr (err, if err = None
    then s'\<lparr>ivRsp := dispatchRsp (ivReq s) (encParams (mdResults m) v) (ivCtx s')\<rparr> else s')"
proof -
  have "\<exists>r. readParams (mdIn m) zero (NewReader (encParams (mdIn m) a @ xs)) = (transferAll (mdIn m) a zero, None, r)"
    using m(1) codecs assms(5) by (intro readParams_run [of _ ok]) auto
  then have "readArgs js (mdIn m) (rqIVersion (ivReq s)) (rqSBuffer (ivReq s)) zero = Inr (Inr (transferAll (mdIn m) a zero))"
    using assms(3,4) by (auto simp: readArgs_def transferAll_def)
  moreover have "writeResults js m TARSVERSION v = Inr (Inr (encParams (mdResults m) v))" if "err = None"
    using writeParams_enc [of "mdResults m" ok v] codecs m(1) assms(7) [OF that] by (simp add: writeResults_def)
  ultimately show ?thesis
    using c callImp_keeps [OF c] assms(3)
    by (cases err) (simp_all add: dispatch_found [OF m] dispatchCase_def)
qed

lemma writeResults_tup:
  assumes m: "m \<in> set methods" and "ok v"
  shows "writeResults js m TUPVERSION v = fromErr (fst (Encode (tupResults m v) [])) (snd (Encode (tupResults m v) []))"
proof -
  note names = tup_names [OF m] and cs = codecs [OF m]
  have "andThen (putTupRet (mdRet m) v) (putTup (mdOut m) v) = Inr (Inr (tupResults m v))"
    using assms(2) cs names
    by (auto simp: putTupRet_def tupResults_def putTup_enc [of _ ok] writeAll_param [of ok]
        NewUniAttribute_def mdResults_def split: option.splits)
  then show ?thesis
    by (simp add: writeResults_def writeAll_def NewBuffer_def Buffer_ToBytes_def TUPVERSION_def TARSVERSION_def
        split: prod.splits)
qed

lemma results_named:
  assumes "m \<in> set methods" and "ok v"
  shows "readTup (mdResults m) (tupResults m v) b = Inr (Inr (transferAll (mdResults m) v b))"
proof (rule readTup_named [of _ ok])
  show "\<forall>p \<in> set (mdResults m). codec_param ok p \<and> map_of (tupResults m v) (pmName p) = Some (encParam p v 0)"
    using tup_names [OF assms(1)] codecs [OF assms(1)]
    by (auto simp: mdResults_def tupResults_def map_of_tupOf map_of_tupOf_other split: option.splits)
qed (rule assms(2))

text \<open>A request in the TUP encoding, with its parameters by name in any order, is the same call.\<close>

lemma dispatch_tup:
  assumes m: "m \<in> set methods" "rqSFuncName (ivReq s) = mdName m" and ver: "rqIVersion (ivReq s) = TUPVERSION"
    and u: "rqSBuffer (ivReq s) = snd (Encode u [])" "okAttribute u" "u = [] \<or> snd (last u) \<noteq> []"
    and args: "\<forall>p \<in> set (mdIn m). map_of u (pmName p) = Some (encParam p a 0)" and "ok a"
    and c: "callImp imp wc m (transferAll (mdIn m) a zero) s = Inr ((err, v), s')"
    and out: "err = None \<Longrightarrow> ok v \<and> okAttribute (tupResults m v)"
  shows "dispatchService js zero methods (imp, wc) s = Inr (err, if err = None
    then s'\<lparr>ivRsp := dispatchRsp (ivReq s) (snd (Encode (tupResults m v) [])) (ivCtx s')\<rparr> else s')"
proof -
  obtain r where "Decode NewUniAttribute (NewReader (snd (Encode u []))) = (u, None, r)"
    using attribute_decoded [OF u(2,3)] by (auto simp: reads_all_def)
  moreover have "readTup (mdIn m) u zero = Inr (Inr (transferAll (mdIn m) a zero))"
    using args codecs [OF m(1)] assms(8) by (intro readTup_named [of _ ok]) auto
  ultimately have "readArgs js (mdIn m) (rqIVersion (ivReq s)) (rqSBuffer (ivReq s)) zero = Inr (Inr (transferAll (mdIn m) a zero))"
    by (auto simp: readArgs_def ver u(1) TUPVERSION_def TARSVERSION_def transferAll_def)
  moreover have "writeResults js m TUPVERSION v = Inr (Inr (snd (Encode (tupResults m v) [])))" if "err = None"
    using writeResults_tup [OF m(1), of v js] out [OF that] appends_append [OF appends_Encode, of "tupResults m v" "[]"] by simp
  ultimately show ?thesis
    using c callImp_keeps [OF c] ver
    by (cases err) (simp_all add: dispatch_found [OF m] dispatchCase_def)
qed

lemma results_last:
  assumes "m \<in> set methods" and "ok v"
  shows "tupResults m v = [] \<or> snd (last (tupResults m v)) \<noteq> []"
proof -
  have "\<forall>p \<in> set (mdOut m). codec_param ok p" and "mdRet m = Some p \<Longrightarrow> encParam p v 0 \<noteq> []" for p
    using codecs [OF assms(1)] assms(2) by (auto simp: mdResults_def codec_param_def)
  then show ?thesis
    unfolding tupResults_def using assms(2)
    by (intro tupOf_last [of _ ok]) (auto simp: PutBuffer_last split: option.splits)
qed

text \<open>Both encodings: the same call, and results that read back to the same variables.\<close>

lemma encodings_agree:
  assumes m: "m \<in> set methods" and name: "rqSFuncName (ivReq s) = mdName m" and ver: "rqIVersion (ivReq s) = TUPVERSION"
    and u: "rqSBuffer (ivReq s) = snd (Encode u [])" "okAttribute u" "u = [] \<or> snd (last u) \<noteq> []"
    and args: "\<forall>p \<in> set (mdIn m). map_of u (pmName p) = Some (encParam p a 0)" and "ok a"
    and c: "callImp imp wc m (transferAll (mdIn m) a zero) s = Inr ((err, v), s')"
    and out: "err = None \<Longrightarrow> ok v \<and> okAttribute (tupResults m v)"
    and s0: "s0 = s\<lparr>ivReq := (ivReq s)\<lparr>rqIVersion := TARSVERSION, rqSBuffer := encParams (mdIn m) a @ encParams (mdOut m) a\<rparr>\<rparr>"
  shows "\<exists>t t0. dispatchService js zero methods (imp, wc) s = Inr (err, t)
    \<and> dispatchService js zero methods (imp, wc) s0 = Inr (err, t0)
    \<and> ivWorld t = ivWorld s' \<and> ivWorld t0 = ivWorld s' \<and> ivCtx t = ivCtx s' \<and> ivCtx t0 = ivCtx s'
    \<and> (err = None \<longrightarrow> (\<exists>r r0. Decode NewUniAttribute (NewReader (rsSBuffer (ivRsp t))) = (tupResults m v, None, r)
        \<and> readTup (mdResults m) (tupResults m v) b = Inr (Inr (transferAll (mdResults m) v b))
        \<and> readParams (mdResults m) b (NewReader (rsSBuffer (ivRsp t0))) = (transferAll (mdResults m) v b, None, r0)))"
proof -
  let ?q = "(ivReq s)\<lparr>rqIVersion := TARSVERSION, rqSBuffer := encParams (mdIn m) a @ encParams (mdOut m) a\<rparr>"
  have c0: "callImp imp wc m (transferAll (mdIn m) a zero) s0 = Inr ((err, v), s'\<lparr>ivReq := ?q\<rparr>)"
    using c by (auto simp: callImp_def s0 split: if_splits sum.splits option.splits)
  note t = dispatch_tup [where js = js, OF m name ver u args assms(8) c out]
  have t0: "dispatchService js zero methods (imp, wc) s0 = Inr (err, if err = None
      then s'\<lparr>ivReq := ?q, ivRsp := dispatchRsp (ivReq s0) (encParams (mdResults m) v) (ivCtx s')\<rparr> else s'\<lparr>ivReq := ?q\<rparr>)"
    using dispatch_tars [OF m _ _ _ assms(8) c0, of "encParams (mdOut m) a" js] out name by (simp add: s0)
  show ?thesis
  proof (cases err)
    case None
    then have "okAttribute (tupResults m v)" "ok v"
      using out by simp_all
    moreover from this obtain r where "Decode NewUniAttribute (NewReader (snd (Encode (tupResults m v) []))) = (tupResults m v, None, r)"
      using attribute_decoded results_last [OF m] by (auto simp: reads_all_def)
    moreover obtain r0 where "readParams (mdResults m) b (NewReader (encParams (mdResults m) v)) = (transferAll (mdResults m) v b, None, r0)"
      using readParams_run [of "mdResults m" ok v b "[]"] codecs [OF m] \<open>ok v\<close> by auto
    ultimately show ?thesis
      using t t0 None results_named [OF m] by (simp add: dispatchRsp_def)
  qed (use t t0 in simp)
qed

lemma proxy_answered:
  assumes "m \<in> set methods" and "ok a" and "optMaps opts = (c, st)"
    and "invoke 0 (mdName m) (encParams (mdIn m) a @ encParams (mdOut m) a) st c w = Inr ((err, rsp), w')"
    and "err = None \<Longrightarrow> rsSBuffer rsp = encParams (mdResults m) v \<and> ok v"
  shows "proxyCall m invoke a opts w = Inr (if err = None
    then (None, transferAll (mdResults m) v a, optsAfter rsp opts) else (err, a, opts), w')"
proof -
  have "\<exists>r. readParams (mdResults m) a (NewReader (encParams (mdResults m) v @ [])) = (transferAll (mdResults m) v a, None, r)"
    if "err = None"
    using assms(1) codecs assms(5) [OF that] by (intro readParams_run [of _ ok]) auto
  then show ?thesis
    using assms(3-5) by (cases err) (auto simp: proxyCall_def proxySend_def write_args [OF assms(1,2)])
qed

text \<open>The whole way: proxy, client, server, dispatcher, implementation and back.\<close>

lemma typed_call:
  assumes "m \<in> set methods" and "ok a" and opts: "optMaps opts = (c, st)" and "clientReady env rid w"
    and "sxVersion p = TARSVERSION"
    and req: "req = mgReq (fst (newMessage p (ckStart clock) (newRequest p rid 0 (mdName m)
      (encParams (mdIn m) a @ encParams (mdOut m) a) st c ctx) zero_response ctx))"
    and "okRequest req" and "RequestPack req = (pkg, None)" and "\<not> expired sctx sclock req"
    and sp: "spFilters sp = no_filters" "spDispatcher sp = dispatchService js zero methods"
    and call: "callImp (spServerImp sp) (spWithContext sp) m (transferAll (mdIn m) a zero) (callState sp n req sctx sw)
      = Inr ((err, v), s)" and "err = None \<Longrightarrow> ok v" and "plainErr err"
    and rsp: "rsp = putError err (if err = None then dispatchRsp req (encParams (mdResults m) v) (ivCtx s) else ivRsp s)"
    and "okResponse rsp"
  shows "\<exists>bs s' reports reply w'. Invoke sp n sclock pkg sctx sw = Inr (bs, s', reports)
    \<and> ResponseUnpack bs = (reply, None) \<and> ivWorld s' = ivWorld s
    \<and> proxyCall m (tarsInvoker (no_filters :: ('g, 'v, cinv) filters) (env\<lparr>ceSent := None, ceReply := Some reply\<rparr>) p rid clock ctx) a opts w
      = Inr (if err = None then (None, transferAll (mdResults m) v a, optsAfter rsp opts) else (err, a, opts), w')
    \<and> cwQueueLen w' = cwQueueLen w \<and> cwResp w' = cwResp w"
proof -
  let ?buf = "encParams (mdIn m) a @ encParams (mdOut m) a"
  let ?s0 = "callState sp n req sctx sw"
  obtain md5 where w: "em_reach md5 (cwManager w)" "\<And>n. 0 < n \<Longrightarrow> ceIntn env n < n"
    "\<not> emDirectProxy (cwManager w)" "emActiveEpf (cwManager w) \<noteq> []"
    "\<forall>i q. emCheckAdapter (cwManager w) \<noteq> Some (i # q)" "sint (cwQueueLen w) \<le> ceQueueMax env"
    "\<And>i. cwResp w (i, rid) = None"
    using assms(4) unfolding clientReady_def by blast
  have r: "rqSFuncName req = mdName m" "rqIVersion req = TARSVERSION" "rqSBuffer req = ?buf"
    using assms(5) by (simp_all add: req message_request)
  have s0: "ivReq ?s0 = req"
    by (simp add: callState_def Let_def)
  define s1 where "s1 = (if err = None then s\<lparr>ivRsp := dispatchRsp req (encParams (mdResults m) v) (ivCtx s)\<rparr> else s)"
  have call1: "callServant sp ?s0 = Inr (err, s1)"
    using dispatch_tars [OF assms(1) _ _ _ assms(2) call assms(13), of "encParams (mdOut m) a" js]
    by (simp add: callServant_plain [OF sp(1)] sp(2) s0 r s1_def)
  have s: "rsIRet (ivRsp s) = 0 \<and> rsIVersion (ivRsp s) = rqIVersion req"
    using callImp_keeps [OF call] by (simp add: callState_def Let_def zero_response_def)
  have s1: "putError err (ivRsp s1) = rsp" "rsIVersion (ivRsp s1) \<noteq> TUPVERSION" "err = None \<Longrightarrow> rsIRet (ivRsp s1) = 0"
    "ivWorld s1 = ivWorld s"
    using s r(2) by (simp_all add: s1_def rsp dispatchRsp_def TARSVERSION_def TUPVERSION_def)
  have e: "\<And>e. err = Some e \<Longrightarrow> goError_Error e \<noteq> [] \<and> (\<forall>c m. e = RpcError c m \<longrightarrow> c \<noteq> 0 \<and> c \<noteq> 1)"
    using assms(14) by (simp add: plainErr_def)
  have ok: "okResponse (putError err (ivRsp s1))"
    using assms(16) by (simp only: s1)
  from call_transparent [where ?'g = 'g and ?'v = 'v, OF req w zero_neq_one assms(7-9) no_ping [OF assms(1)] call1 ok s1(2) s1(3) e]
  obtain bs s' reports reply cinv report where
    out: "Invoke sp n sclock pkg sctx sw = Inr (bs, s', reports)" "ResponseUnpack bs = (reply, None)"
      "TarsInvoke (no_filters :: ('g, 'v, cinv) filters) (doInvoke (env\<lparr>ceSent := None, ceReply := Some reply\<rparr>)) p rid clock 0
        (mdName m) ?buf st c zero_response ctx w
        = Inr ((err, if err = None then (ivRsp s1)\<lparr>rsCPacketType := rqCPacketType (ivReq s1)\<rparr> else zero_response, report), cinv)"
      "ivWorld s' = ivWorld s1" "cwQueueLen (ciWorld cinv) = cwQueueLen w" "cwResp (ciWorld cinv) = cwResp w"
    by blast
  let ?rsp = "if err = None then (ivRsp s1)\<lparr>rsCPacketType := rqCPacketType (ivReq s1)\<rparr> else zero_response"
  let ?inv = "tarsInvoker (no_filters :: ('g, 'v, cinv) filters) (env\<lparr>ceSent := None, ceReply := Some reply\<rparr>) p rid clock ctx"
  have "?inv 0 (mdName m) ?buf st c w = Inr ((err, ?rsp), ciWorld cinv)"
    by (simp add: tarsInvoker_def out(3))
  from proxy_answered [where invoke = ?inv and v = v, OF assms(1,2) opts this]
  have "proxyCall m ?inv a opts w = Inr (if err = None
      then (None, transferAll (mdResults m) v a, optsAfter ?rsp opts) else (err, a, opts), ciWorld cinv)"
    using assms(13) by (simp add: s1_def dispatchRsp_def)
  moreover have "optsAfter ?rsp opts = optsAfter rsp opts" if "err = None"
    using that by (auto simp: optsAfter_def rsp s1_def dispatchRsp_def split: list.splits)
  ultimately show ?thesis
    using out s1(4) by auto
qed

end

end
