(* ===== verification/Registry_Service.thy ===== *)
theory Registry_Service
  imports Service_Contract Endpoints
begin

text \<open>
  The registry's interface \<^verbatim>\<open>QueryF\<close> (\<^verbatim>\<open>res/queryf/QueryF.tars.go\<close>): the description of each method
  is the case of \<^verbatim>\<open>Dispatch\<close> for it, from which the generated proxy functions follow. The variables of the
  methods are one record, with the return values.
\<close>

section \<open>Vectors of endpoints\<close>

definition zero_EndpointF :: EndpointF where
  "zero_EndpointF =
     \<lparr>efHost = [], efPort = 0, efTimeout = 0, efIstcp = 0, efGrid = 0, efGroupworkid = 0, efGrouprealid = 0,
      efSetId = [], efQos = 0, efBakFlag = 0, efWeight = 0, efWeightType = 0, efAuthType = 0\<rparr>"

interpretation pEndpointF: plain_struct "''EndpointF''" EndpointF_ResetDefault EndpointF_WriteTo EndpointF_ReadFrom
  encEndpointF okEndpointF
  by unfold_locales (simp_all add: EndpointF_WriteTo_enc EndpointF_ReadFrom_enc)

interpretation bEndpointF: value_codec EndpointF_WriteBlock EndpointF_ReadBlock "encBlock encEndpointF" okEndpointF
  unfolding EndpointF_WriteBlock_def EndpointF_ReadBlock_def by (rule pEndpointF.block.value_codec_axioms)

interpretation vEndpointF: value_codec "WriteVec EndpointF_WriteBlock" "ReadVec EndpointF_ReadBlock zero_EndpointF"
  "encVec (encBlock encEndpointF)" "okVec okEndpointF"
  by (rule bEndpointF.vec_codec)

section \<open>The interface\<close>

record QueryFVars =
  qvId :: gostring
  qvRetEndpoints :: "EndpointF list"
  qvActiveEp :: "EndpointF list"
  qvInactiveEp :: "EndpointF list"
  qvRet :: int32
  qvSStation :: gostring
  qvSetId :: gostring

definition zero_QueryFVars :: QueryFVars where
  "zero_QueryFVars =
     \<lparr>qvId = [], qvRetEndpoints = [], qvActiveEp = [], qvInactiveEp = [], qvRet = 0,
     qvSStation = [], qvSetId = []\<rparr>"

definition QueryF_findObjectById :: "QueryFVars rpcMethod" where
  "QueryF_findObjectById =
     \<lparr>mdName = ascii ''findObjectById'', mdGo = ascii ''FindObjectById'',
      mdIn = [param ''id'' 1 WriteString ReadString qvId qvId_update],
      mdOut = [],
      mdRet = Some (param ''tars_ret'' 0 (WriteVec EndpointF_WriteBlock) (ReadVec EndpointF_ReadBlock zero_EndpointF) qvRetEndpoints qvRetEndpoints_update)\<rparr>"

definition QueryF_FindObjectByIdWithContext :: "'w invoker \<Rightarrow> QueryFVars \<Rightarrow> strmap list \<Rightarrow> 'w
    \<Rightarrow> gerr + (goError option \<times> QueryFVars \<times> strmap list) \<times> 'w" where
  "QueryF_FindObjectByIdWithContext = proxyCall QueryF_findObjectById"

definition QueryF_FindObjectByIdOneWayWithContext :: "'w invoker \<Rightarrow> QueryFVars \<Rightarrow> strmap list \<Rightarrow> 'w
    \<Rightarrow> gerr + (goError option \<times> QueryFVars \<times> strmap list) \<times> 'w" where
  "QueryF_FindObjectByIdOneWayWithContext = proxyOneWay QueryF_findObjectById"

definition QueryF_FindObjectById :: "(Ctx \<Rightarrow> 'w invoker) \<Rightarrow> QueryFVars \<Rightarrow> strmap list \<Rightarrow> 'w
    \<Rightarrow> gerr + (goError option \<times> QueryFVars \<times> strmap list) \<times> 'w" where
  "QueryF_FindObjectById invoke = QueryF_FindObjectByIdWithContext (invoke bare_ctx)"

definition QueryF_findObjectById4Any :: "QueryFVars rpcMethod" where
  "QueryF_findObjectById4Any =
     \<lparr>mdName = ascii ''findObjectById4Any'', mdGo = ascii ''FindObjectById4Any'',
      mdIn = [param ''id'' 1 WriteString ReadString qvId qvId_update],
      mdOut = [param ''activeEp'' 2 (WriteVec EndpointF_WriteBlock) (ReadVec EndpointF_ReadBlock zero_EndpointF) qvActiveEp qvActiveEp_update,
        param ''inactiveEp'' 3 (WriteVec EndpointF_WriteBlock) (ReadVec EndpointF_ReadBlock zero_EndpointF) qvInactiveEp qvInactiveEp_update],
      mdRet = Some (param ''tars_ret'' 0 WriteInt32 ReadInt32 qvRet qvRet_update)\<rparr>"

definition QueryF_FindObjectById4AnyWithContext :: "'w invoker \<Rightarrow> QueryFVars \<Rightarrow> strmap list \<Rightarrow> 'w
    \<Rightarrow> gerr + (goError option \<times> QueryFVars \<times> strmap list) \<times> 'w" where
  "QueryF_FindObjectById4AnyWithContext = proxyCall QueryF_findObjectById4Any"

definition QueryF_FindObjectById4AnyOneWayWithContext :: "'w invoker \<Rightarrow> QueryFVars \<Rightarrow> strmap list \<Rightarrow> 'w
    \<Rightarrow> gerr + (goError option \<times> QueryFVars \<times> strmap list) \<times> 'w" where
  "QueryF_FindObjectById4AnyOneWayWithContext = proxyOneWay QueryF_findObjectById4Any"

definition QueryF_FindObjectById4Any :: "(Ctx \<Rightarrow> 'w invoker) \<Rightarrow> QueryFVars \<Rightarrow> strmap list \<Rightarrow> 'w
    \<Rightarrow> gerr + (goError option \<times> QueryFVars \<times> strmap list) \<times> 'w" where
  "QueryF_FindObjectById4Any invoke = QueryF_FindObjectById4AnyWithContext (invoke bare_ctx)"

definition QueryF_findObjectById4All :: "QueryFVars rpcMethod" where
  "QueryF_findObjectById4All =
     \<lparr>mdName = ascii ''findObjectById4All'', mdGo = ascii ''FindObjectById4All'',
      mdIn = [param ''id'' 1 WriteString ReadString qvId qvId_update],
      mdOut = [param ''activeEp'' 2 (WriteVec EndpointF_WriteBlock) (ReadVec EndpointF_ReadBlock zero_EndpointF) qvActiveEp qvActiveEp_update,
        param ''inactiveEp'' 3 (WriteVec EndpointF_WriteBlock) (ReadVec EndpointF_ReadBlock zero_EndpointF) qvInactiveEp qvInactiveEp_update],
      mdRet = Some (param ''tars_ret'' 0 WriteInt32 ReadInt32 qvRet qvRet_update)\<rparr>"

definition QueryF_FindObjectById4AllWithContext :: "'w invoker \<Rightarrow> QueryFVars \<Rightarrow> strmap list \<Rightarrow> 'w
    \<Rightarrow> gerr + (goError option \<times> QueryFVars \<times> strmap list) \<times> 'w" where
  "QueryF_FindObjectById4AllWithContext = proxyCall QueryF_findObjectById4All"

definition QueryF_FindObjectById4AllOneWayWithContext :: "'w invoker \<Rightarrow> QueryFVars \<Rightarrow> strmap list \<Rightarrow> 'w
    \<Rightarrow> gerr + (goError option \<times> QueryFVars \<times> strmap list) \<times> 'w" where
  "QueryF_FindObjectById4AllOneWayWithContext = proxyOneWay QueryF_findObjectById4All"

definition QueryF_FindObjectById4All :: "(Ctx \<Rightarrow> 'w invoker) \<Rightarrow> QueryFVars \<Rightarrow> strmap list \<Rightarrow> 'w
    \<Rightarrow> gerr + (goError option \<times> QueryFVars \<times> strmap list) \<times> 'w" where
  "QueryF_FindObjectById4All invoke = QueryF_FindObjectById4AllWithContext (invoke bare_ctx)"

definition QueryF_findObjectByIdInSameGroup :: "QueryFVars rpcMethod" where
  "QueryF_findObjectByIdInSameGroup =
     \<lparr>mdName = ascii ''findObjectByIdInSameGroup'', mdGo = ascii ''FindObjectByIdInSameGroup'',
      mdIn = [param ''id'' 1 WriteString ReadString qvId qvId_update],
      mdOut = [param ''activeEp'' 2 (WriteVec EndpointF_WriteBlock) (ReadVec EndpointF_ReadBlock zero_EndpointF) qvActiveEp qvActiveEp_update,
        param ''inactiveEp'' 3 (WriteVec EndpointF_WriteBlock) (ReadVec EndpointF_ReadBlock zero_EndpointF) qvInactiveEp qvInactiveEp_update],
      mdRet = Some (param ''tars_ret'' 0 WriteInt32 ReadInt32 qvRet qvRet_update)\<rparr>"

definition QueryF_FindObjectByIdInSameGroupWithContext :: "'w invoker \<Rightarrow> QueryFVars \<Rightarrow> strmap list \<Rightarrow> 'w
    \<Rightarrow> gerr + (goError option \<times> QueryFVars \<times> strmap list) \<times> 'w" where
  "QueryF_FindObjectByIdInSameGroupWithContext = proxyCall QueryF_findObjectByIdInSameGroup"

definition QueryF_FindObjectByIdInSameGroupOneWayWithContext :: "'w invoker \<Rightarrow> QueryFVars \<Rightarrow> strmap list \<Rightarrow> 'w
    \<Rightarrow> gerr + (goError option \<times> QueryFVars \<times> strmap list) \<times> 'w" where
  "QueryF_FindObjectByIdInSameGroupOneWayWithContext = proxyOneWay QueryF_findObjectByIdInSameGroup"

definition QueryF_FindObjectByIdInSameGroup :: "(Ctx \<Rightarrow> 'w invoker) \<Rightarrow> QueryFVars \<Rightarrow> strmap list \<Rightarrow> 'w
    \<Rightarrow> gerr + (goError option \<times> QueryFVars \<times> strmap list) \<times> 'w" where
  "QueryF_FindObjectByIdInSameGroup invoke = QueryF_FindObjectByIdInSameGroupWithContext (invoke bare_ctx)"

definition QueryF_findObjectByIdInSameStation :: "QueryFVars rpcMethod" where
  "QueryF_findObjectByIdInSameStation =
     \<lparr>mdName = ascii ''findObjectByIdInSameStation'', mdGo = ascii ''FindObjectByIdInSameStation'',
      mdIn = [param ''id'' 1 WriteString ReadString qvId qvId_update,
        param ''sStation'' 2 WriteString ReadString qvSStation qvSStation_update],
      mdOut = [param ''activeEp'' 3 (WriteVec EndpointF_WriteBlock) (ReadVec EndpointF_ReadBlock zero_EndpointF) qvActiveEp qvActiveEp_update,
        param ''inactiveEp'' 4 (WriteVec EndpointF_WriteBlock) (ReadVec EndpointF_ReadBlock zero_EndpointF) qvInactiveEp qvInactiveEp_update],
      mdRet = Some (param ''tars_ret'' 0 WriteInt32 ReadInt32 qvRet qvRet_update)\<rparr>"

definition QueryF_FindObjectByIdInSameStationWithContext :: "'w invoker \<Rightarrow> QueryFVars \<Rightarrow> strmap list \<Rightarrow> 'w
    \<Rightarrow> gerr + (goError option \<times> QueryFVars \<times> strmap list) \<times> 'w" where
  "QueryF_FindObjectByIdInSameStationWithContext = proxyCall QueryF_findObjectByIdInSameStation"

definition QueryF_FindObjectByIdInSameStationOneWayWithContext :: "'w invoker \<Rightarrow> QueryFVars \<Rightarrow> strmap list \<Rightarrow> 'w
    \<Rightarrow> gerr + (goError option \<times> QueryFVars \<times> strmap list) \<times> 'w" where
  "QueryF_FindObjectByIdInSameStationOneWayWithContext = proxyOneWay QueryF_findObjectByIdInSameStation"

definition QueryF_FindObjectByIdInSameStation :: "(Ctx \<Rightarrow> 'w invoker) \<Rightarrow> QueryFVars \<Rightarrow> strmap list \<Rightarrow> 'w
    \<Rightarrow> gerr + (goError option \<times> QueryFVars \<times> strmap list) \<times> 'w" where
  "QueryF_FindObjectByIdInSameStation invoke = QueryF_FindObjectByIdInSameStationWithContext (invoke bare_ctx)"

definition QueryF_findObjectByIdInSameSet :: "QueryFVars rpcMethod" where
  "QueryF_findObjectByIdInSameSet =
     \<lparr>mdName = ascii ''findObjectByIdInSameSet'', mdGo = ascii ''FindObjectByIdInSameSet'',
      mdIn = [param ''id'' 1 WriteString ReadString qvId qvId_update,
        param ''setId'' 2 WriteString ReadString qvSetId qvSetId_update],
      mdOut = [param ''activeEp'' 3 (WriteVec EndpointF_WriteBlock) (ReadVec EndpointF_ReadBlock zero_EndpointF) qvActiveEp qvActiveEp_update,
        param ''inactiveEp'' 4 (WriteVec EndpointF_WriteBlock) (ReadVec EndpointF_ReadBlock zero_EndpointF) qvInactiveEp qvInactiveEp_update],
      mdRet = Some (param ''tars_ret'' 0 WriteInt32 ReadInt32 qvRet qvRet_update)\<rparr>"

definition QueryF_FindObjectByIdInSameSetWithContext :: "'w invoker \<Rightarrow> QueryFVars \<Rightarrow> strmap list \<Rightarrow> 'w
    \<Rightarrow> gerr + (goError option \<times> QueryFVars \<times> strmap list) \<times> 'w" where
  "QueryF_FindObjectByIdInSameSetWithContext = proxyCall QueryF_findObjectByIdInSameSet"

definition QueryF_FindObjectByIdInSameSetOneWayWithContext :: "'w invoker \<Rightarrow> QueryFVars \<Rightarrow> strmap list \<Rightarrow> 'w
    \<Rightarrow> gerr + (goError option \<times> QueryFVars \<times> strmap list) \<times> 'w" where
  "QueryF_FindObjectByIdInSameSetOneWayWithContext = proxyOneWay QueryF_findObjectByIdInSameSet"

definition QueryF_FindObjectByIdInSameSet :: "(Ctx \<Rightarrow> 'w invoker) \<Rightarrow> QueryFVars \<Rightarrow> strmap list \<Rightarrow> 'w
    \<Rightarrow> gerr + (goError option \<times> QueryFVars \<times> strmap list) \<times> 'w" where
  "QueryF_FindObjectByIdInSameSet invoke = QueryF_FindObjectByIdInSameSetWithContext (invoke bare_ctx)"

definition QueryF_methods :: "QueryFVars rpcMethod list" where
  "QueryF_methods =
     [QueryF_findObjectById, QueryF_findObjectById4Any, QueryF_findObjectById4All,
      QueryF_findObjectByIdInSameGroup, QueryF_findObjectByIdInSameStation,
      QueryF_findObjectByIdInSameSet]"

definition QueryF_Dispatch :: "('j, QueryFVars) json \<Rightarrow> ((QueryFVars, 'w) servantImp, 'w) Dispatch" where
  "QueryF_Dispatch js = dispatchService js zero_QueryFVars QueryF_methods"

definition okQueryFVars :: "QueryFVars \<Rightarrow> bool" where
  "okQueryFVars v \<longleftrightarrow> list_all (\<lambda>s. length s < 2 ^ 32)
       [qvId v, qvSStation v, qvSetId v]
     \<and> okVec okEndpointF (qvRetEndpoints v)
     \<and> okVec okEndpointF (qvActiveEp v)
     \<and> okVec okEndpointF (qvInactiveEp v)"

lemmas QueryF_defs = QueryF_findObjectById_def QueryF_findObjectById4Any_def QueryF_findObjectById4All_def
  QueryF_findObjectByIdInSameGroup_def QueryF_findObjectByIdInSameStation_def
  QueryF_findObjectByIdInSameSet_def

interpretation sQueryF: rpc_service zero_QueryFVars QueryF_methods okQueryFVars
proof unfold_locales
  show "codec_param okQueryFVars p" if "m \<in> set QueryF_methods" and "p \<in> set (mdIn m) \<union> set (mdResults m)" for m p
    using that unfolding QueryF_methods_def
    by (auto simp: QueryF_defs mdResults_def okQueryFVars_def intro!: cString.codec_value vEndpointF.codec_value cInt32.codec_value)
qed (auto simp: QueryF_methods_def QueryF_defs mdResults_def param_def structParam_def ascii_def)

end
