(* ===== verification/Stat_Structs.thy ===== *)
theory Stat_Structs
  imports Struct_Members
begin

text \<open>
  The structs generated from \<^verbatim>\<open>StatF.tars\<close> and \<^verbatim>\<open>PropertyF.tars\<close>: \<^verbatim>\<open>res/statf/StatF.go\<close> and
  \<^verbatim>\<open>res/propertyf/PropertyF.go\<close>. A member is named after its Go name with a prefix for the struct.
\<close>

interpretation iInts: map_codec WriteInt32 ReadInt32 "\<lambda>v. encInt (sint v)" "\<lambda>_. True"
  WriteInt32 ReadInt32 "\<lambda>v. encInt (sint v)" "\<lambda>_. True"
  by unfold_locales

interpretation mInts: value_codec "WriteMap WriteInt32 WriteInt32" "ReadMap ReadInt32 0 ReadInt32 0"
  "encMap (\<lambda>v. encInt (sint v)) (\<lambda>v. encInt (sint v))" "okMap (\<lambda>_. True) (\<lambda>_. True)"
  by (rule iInts.map_codec)

section \<open>Statistics of calls\<close>

record StatMicMsgHead =
  smhMasterName :: gostring
  smhSlaveName :: gostring
  smhInterfaceName :: gostring
  smhMasterIp :: gostring
  smhSlaveIp :: gostring
  smhSlavePort :: int32
  smhReturnValue :: int32
  smhSlaveSetName :: gostring
  smhSlaveSetArea :: gostring
  smhSlaveSetID :: gostring
  smhTarsVersion :: gostring

definition StatMicMsgHead_ResetDefault :: "StatMicMsgHead \<Rightarrow> StatMicMsgHead" where
  "StatMicMsgHead_ResetDefault st = st"

definition StatMicMsgHead_ReadFrom :: "StatMicMsgHead member_reader" where
  "StatMicMsgHead_ReadFrom st = readMembers
     [member ReadString smhMasterName smhMasterName_update 0 True,
      member ReadString smhSlaveName smhSlaveName_update 1 True,
      member ReadString smhInterfaceName smhInterfaceName_update 2 True,
      member ReadString smhMasterIp smhMasterIp_update 3 True,
      member ReadString smhSlaveIp smhSlaveIp_update 4 True,
      member ReadInt32 smhSlavePort smhSlavePort_update 5 True,
      member ReadInt32 smhReturnValue smhReturnValue_update 6 True,
      member ReadString smhSlaveSetName smhSlaveSetName_update 7 False,
      member ReadString smhSlaveSetArea smhSlaveSetArea_update 8 False,
      member ReadString smhSlaveSetID smhSlaveSetID_update 9 False,
      member ReadString smhTarsVersion smhTarsVersion_update 10 False] (StatMicMsgHead_ResetDefault st)"

definition StatMicMsgHead_WriteTo :: "StatMicMsgHead \<Rightarrow> writer" where
  "StatMicMsgHead_WriteTo st = wseq
     [WriteString (smhMasterName st) 0,
      WriteString (smhSlaveName st) 1,
      WriteString (smhInterfaceName st) 2,
      WriteString (smhMasterIp st) 3,
      WriteString (smhSlaveIp st) 4,
      WriteInt32 (smhSlavePort st) 5,
      WriteInt32 (smhReturnValue st) 6,
      WriteString (smhSlaveSetName st) 7,
      WriteString (smhSlaveSetArea st) 8,
      WriteString (smhSlaveSetID st) 9,
      WriteString (smhTarsVersion st) 10]"

definition StatMicMsgHead_ReadBlock :: "StatMicMsgHead value_reader" where
  "StatMicMsgHead_ReadBlock = ReadBlock ''StatMicMsgHead'' StatMicMsgHead_ResetDefault StatMicMsgHead_ReadFrom"

definition StatMicMsgHead_WriteBlock :: "StatMicMsgHead \<Rightarrow> byte \<Rightarrow> writer" where
  "StatMicMsgHead_WriteBlock = WriteBlock StatMicMsgHead_WriteTo"

definition zero_StatMicMsgHead :: StatMicMsgHead where
  "zero_StatMicMsgHead =
     \<lparr>smhMasterName = [], smhSlaveName = [], smhInterfaceName = [], smhMasterIp = [],
     smhSlaveIp = [], smhSlavePort = 0, smhReturnValue = 0, smhSlaveSetName = [],
     smhSlaveSetArea = [], smhSlaveSetID = [], smhTarsVersion = []\<rparr>"

definition encStatMicMsgHead :: "StatMicMsgHead \<Rightarrow> bytes" where
  "encStatMicMsgHead st = concat
     [encString (smhMasterName st) 0,
      encString (smhSlaveName st) 1,
      encString (smhInterfaceName st) 2,
      encString (smhMasterIp st) 3,
      encString (smhSlaveIp st) 4,
      encInt (sint (smhSlavePort st)) 5,
      encInt (sint (smhReturnValue st)) 6,
      encString (smhSlaveSetName st) 7,
      encString (smhSlaveSetArea st) 8,
      encString (smhSlaveSetID st) 9,
      encString (smhTarsVersion st) 10]"

definition okStatMicMsgHead :: "StatMicMsgHead \<Rightarrow> bool" where
  "okStatMicMsgHead st \<longleftrightarrow> list_all (\<lambda>s. length s < 2 ^ 32)
       [smhMasterName st, smhSlaveName st, smhInterfaceName st, smhMasterIp st, smhSlaveIp st,
        smhSlaveSetName st, smhSlaveSetArea st, smhSlaveSetID st, smhTarsVersion st]"

interpretation cStatMicMsgHead: plain_struct "''StatMicMsgHead''" StatMicMsgHead_ResetDefault StatMicMsgHead_WriteTo StatMicMsgHead_ReadFrom encStatMicMsgHead okStatMicMsgHead
proof unfold_locales
  show "appends (StatMicMsgHead_WriteTo st) (encStatMicMsgHead st)" if "okStatMicMsgHead st" for st
    unfolding StatMicMsgHead_WriteTo_def encStatMicMsgHead_def
    by (rule appends_wseq) (use that in \<open>simp add: okStatMicMsgHead_def cString.wr_value cInt32.wr_value\<close>)
  show "StatMicMsgHead_ReadFrom w r = (st, None, adv (length (encStatMicMsgHead st)) r)" if "okStatMicMsgHead st" and u: "unread r = encStatMicMsgHead st @ xs" for st w r xs
    unfolding StatMicMsgHead_ReadFrom_def
    by (rule members_read [OF _ _ u], unfold encStatMicMsgHead_def)
      (rule reads_members cString.member_enc cInt32.member_enc
       | use that in \<open>simp add: okStatMicMsgHead_def\<close>)+
qed simp_all

interpretation bStatMicMsgHead: value_codec StatMicMsgHead_WriteBlock StatMicMsgHead_ReadBlock "encBlock encStatMicMsgHead" okStatMicMsgHead
  unfolding StatMicMsgHead_WriteBlock_def StatMicMsgHead_ReadBlock_def by (rule cStatMicMsgHead.block.value_codec_axioms)

record StatMicMsgBody =
  smbCount :: int32
  smbTimeoutCount :: int32
  smbExecCount :: int32
  smbIntervalCount :: "(int32 \<times> int32) list"
  smbTotalRspTime :: int64
  smbMaxRspTime :: int32
  smbMinRspTime :: int32

definition StatMicMsgBody_ResetDefault :: "StatMicMsgBody \<Rightarrow> StatMicMsgBody" where
  "StatMicMsgBody_ResetDefault st = st"

definition StatMicMsgBody_ReadFrom :: "StatMicMsgBody member_reader" where
  "StatMicMsgBody_ReadFrom st = readMembers
     [member ReadInt32 smbCount smbCount_update 0 True,
      member ReadInt32 smbTimeoutCount smbTimeoutCount_update 1 True,
      member ReadInt32 smbExecCount smbExecCount_update 2 True,
      member (ReadMap ReadInt32 0 ReadInt32 0) smbIntervalCount smbIntervalCount_update 3 True,
      member ReadInt64 smbTotalRspTime smbTotalRspTime_update 4 True,
      member ReadInt32 smbMaxRspTime smbMaxRspTime_update 5 True,
      member ReadInt32 smbMinRspTime smbMinRspTime_update 6 True] (StatMicMsgBody_ResetDefault st)"

definition StatMicMsgBody_WriteTo :: "StatMicMsgBody \<Rightarrow> writer" where
  "StatMicMsgBody_WriteTo st = wseq
     [WriteInt32 (smbCount st) 0,
      WriteInt32 (smbTimeoutCount st) 1,
      WriteInt32 (smbExecCount st) 2,
      WriteMap WriteInt32 WriteInt32 (smbIntervalCount st) 3,
      WriteInt64 (smbTotalRspTime st) 4,
      WriteInt32 (smbMaxRspTime st) 5,
      WriteInt32 (smbMinRspTime st) 6]"

definition StatMicMsgBody_ReadBlock :: "StatMicMsgBody value_reader" where
  "StatMicMsgBody_ReadBlock = ReadBlock ''StatMicMsgBody'' StatMicMsgBody_ResetDefault StatMicMsgBody_ReadFrom"

definition StatMicMsgBody_WriteBlock :: "StatMicMsgBody \<Rightarrow> byte \<Rightarrow> writer" where
  "StatMicMsgBody_WriteBlock = WriteBlock StatMicMsgBody_WriteTo"

definition zero_StatMicMsgBody :: StatMicMsgBody where
  "zero_StatMicMsgBody =
     \<lparr>smbCount = 0, smbTimeoutCount = 0, smbExecCount = 0, smbIntervalCount = [],
     smbTotalRspTime = 0, smbMaxRspTime = 0, smbMinRspTime = 0\<rparr>"

definition encStatMicMsgBody :: "StatMicMsgBody \<Rightarrow> bytes" where
  "encStatMicMsgBody st = concat
     [encInt (sint (smbCount st)) 0,
      encInt (sint (smbTimeoutCount st)) 1,
      encInt (sint (smbExecCount st)) 2,
      encMap (\<lambda>v. encInt (sint v)) (\<lambda>v. encInt (sint v)) (smbIntervalCount st) 3,
      encInt (sint (smbTotalRspTime st)) 4,
      encInt (sint (smbMaxRspTime st)) 5,
      encInt (sint (smbMinRspTime st)) 6]"

definition okStatMicMsgBody :: "StatMicMsgBody \<Rightarrow> bool" where
  "okStatMicMsgBody st \<longleftrightarrow> okMap (\<lambda>_. True) (\<lambda>_. True) (smbIntervalCount st)"

interpretation cStatMicMsgBody: plain_struct "''StatMicMsgBody''" StatMicMsgBody_ResetDefault StatMicMsgBody_WriteTo StatMicMsgBody_ReadFrom encStatMicMsgBody okStatMicMsgBody
proof unfold_locales
  show "appends (StatMicMsgBody_WriteTo st) (encStatMicMsgBody st)" if "okStatMicMsgBody st" for st
    unfolding StatMicMsgBody_WriteTo_def encStatMicMsgBody_def
    by (rule appends_wseq) (use that in \<open>simp add: okStatMicMsgBody_def cInt32.wr_value mInts.wr_value cInt64.wr_value\<close>)
  show "StatMicMsgBody_ReadFrom w r = (st, None, adv (length (encStatMicMsgBody st)) r)" if "okStatMicMsgBody st" and u: "unread r = encStatMicMsgBody st @ xs" for st w r xs
    unfolding StatMicMsgBody_ReadFrom_def
    by (rule members_read [OF _ _ u], unfold encStatMicMsgBody_def)
      (rule reads_members cInt32.member_enc mInts.member_enc cInt64.member_enc
       | use that in \<open>simp add: okStatMicMsgBody_def\<close>)+
qed simp_all

interpretation bStatMicMsgBody: value_codec StatMicMsgBody_WriteBlock StatMicMsgBody_ReadBlock "encBlock encStatMicMsgBody" okStatMicMsgBody
  unfolding StatMicMsgBody_WriteBlock_def StatMicMsgBody_ReadBlock_def by (rule cStatMicMsgBody.block.value_codec_axioms)

record StatSampleMsg =
  ssmUnid :: gostring
  ssmMasterName :: gostring
  ssmSlaveName :: gostring
  ssmInterfaceName :: gostring
  ssmMasterIp :: gostring
  ssmSlaveIp :: gostring
  ssmDepth :: int32
  ssmWidth :: int32
  ssmParentWidth :: int32

definition StatSampleMsg_ResetDefault :: "StatSampleMsg \<Rightarrow> StatSampleMsg" where
  "StatSampleMsg_ResetDefault st = st"

definition StatSampleMsg_ReadFrom :: "StatSampleMsg member_reader" where
  "StatSampleMsg_ReadFrom st = readMembers
     [member ReadString ssmUnid ssmUnid_update 0 True,
      member ReadString ssmMasterName ssmMasterName_update 1 True,
      member ReadString ssmSlaveName ssmSlaveName_update 2 True,
      member ReadString ssmInterfaceName ssmInterfaceName_update 3 True,
      member ReadString ssmMasterIp ssmMasterIp_update 4 True,
      member ReadString ssmSlaveIp ssmSlaveIp_update 5 True,
      member ReadInt32 ssmDepth ssmDepth_update 6 True,
      member ReadInt32 ssmWidth ssmWidth_update 7 True,
      member ReadInt32 ssmParentWidth ssmParentWidth_update 8 True] (StatSampleMsg_ResetDefault st)"

definition StatSampleMsg_WriteTo :: "StatSampleMsg \<Rightarrow> writer" where
  "StatSampleMsg_WriteTo st = wseq
     [WriteString (ssmUnid st) 0,
      WriteString (ssmMasterName st) 1,
      WriteString (ssmSlaveName st) 2,
      WriteString (ssmInterfaceName st) 3,
      WriteString (ssmMasterIp st) 4,
      WriteString (ssmSlaveIp st) 5,
      WriteInt32 (ssmDepth st) 6,
      WriteInt32 (ssmWidth st) 7,
      WriteInt32 (ssmParentWidth st) 8]"

definition StatSampleMsg_ReadBlock :: "StatSampleMsg value_reader" where
  "StatSampleMsg_ReadBlock = ReadBlock ''StatSampleMsg'' StatSampleMsg_ResetDefault StatSampleMsg_ReadFrom"

definition StatSampleMsg_WriteBlock :: "StatSampleMsg \<Rightarrow> byte \<Rightarrow> writer" where
  "StatSampleMsg_WriteBlock = WriteBlock StatSampleMsg_WriteTo"

definition zero_StatSampleMsg :: StatSampleMsg where
  "zero_StatSampleMsg =
     \<lparr>ssmUnid = [], ssmMasterName = [], ssmSlaveName = [], ssmInterfaceName = [], ssmMasterIp = [],
     ssmSlaveIp = [], ssmDepth = 0, ssmWidth = 0, ssmParentWidth = 0\<rparr>"

definition encStatSampleMsg :: "StatSampleMsg \<Rightarrow> bytes" where
  "encStatSampleMsg st = concat
     [encString (ssmUnid st) 0,
      encString (ssmMasterName st) 1,
      encString (ssmSlaveName st) 2,
      encString (ssmInterfaceName st) 3,
      encString (ssmMasterIp st) 4,
      encString (ssmSlaveIp st) 5,
      encInt (sint (ssmDepth st)) 6,
      encInt (sint (ssmWidth st)) 7,
      encInt (sint (ssmParentWidth st)) 8]"

definition okStatSampleMsg :: "StatSampleMsg \<Rightarrow> bool" where
  "okStatSampleMsg st \<longleftrightarrow> list_all (\<lambda>s. length s < 2 ^ 32)
       [ssmUnid st, ssmMasterName st, ssmSlaveName st, ssmInterfaceName st, ssmMasterIp st,
        ssmSlaveIp st]"

interpretation cStatSampleMsg: plain_struct "''StatSampleMsg''" StatSampleMsg_ResetDefault StatSampleMsg_WriteTo StatSampleMsg_ReadFrom encStatSampleMsg okStatSampleMsg
proof unfold_locales
  show "appends (StatSampleMsg_WriteTo st) (encStatSampleMsg st)" if "okStatSampleMsg st" for st
    unfolding StatSampleMsg_WriteTo_def encStatSampleMsg_def
    by (rule appends_wseq) (use that in \<open>simp add: okStatSampleMsg_def cString.wr_value cInt32.wr_value\<close>)
  show "StatSampleMsg_ReadFrom w r = (st, None, adv (length (encStatSampleMsg st)) r)" if "okStatSampleMsg st" and u: "unread r = encStatSampleMsg st @ xs" for st w r xs
    unfolding StatSampleMsg_ReadFrom_def
    by (rule members_read [OF _ _ u], unfold encStatSampleMsg_def)
      (rule reads_members cString.member_enc cInt32.member_enc
       | use that in \<open>simp add: okStatSampleMsg_def\<close>)+
qed simp_all

interpretation bStatSampleMsg: value_codec StatSampleMsg_WriteBlock StatSampleMsg_ReadBlock "encBlock encStatSampleMsg" okStatSampleMsg
  unfolding StatSampleMsg_WriteBlock_def StatSampleMsg_ReadBlock_def by (rule cStatSampleMsg.block.value_codec_axioms)

interpretation vStatSampleMsg: value_codec "WriteVec StatSampleMsg_WriteBlock" "ReadVec StatSampleMsg_ReadBlock zero_StatSampleMsg"
  "encVec (encBlock encStatSampleMsg)" "okVec okStatSampleMsg"
  by (rule bStatSampleMsg.vec_codec)

record ProxyInfo =
  pxiBFromClient :: bool

definition ProxyInfo_ResetDefault :: "ProxyInfo \<Rightarrow> ProxyInfo" where
  "ProxyInfo_ResetDefault st = st"

definition ProxyInfo_ReadFrom :: "ProxyInfo member_reader" where
  "ProxyInfo_ReadFrom st = readMembers
     [member ReadBool pxiBFromClient pxiBFromClient_update 0 True] (ProxyInfo_ResetDefault st)"

definition ProxyInfo_WriteTo :: "ProxyInfo \<Rightarrow> writer" where
  "ProxyInfo_WriteTo st = wseq
     [WriteBool (pxiBFromClient st) 0]"

definition ProxyInfo_ReadBlock :: "ProxyInfo value_reader" where
  "ProxyInfo_ReadBlock = ReadBlock ''ProxyInfo'' ProxyInfo_ResetDefault ProxyInfo_ReadFrom"

definition ProxyInfo_WriteBlock :: "ProxyInfo \<Rightarrow> byte \<Rightarrow> writer" where
  "ProxyInfo_WriteBlock = WriteBlock ProxyInfo_WriteTo"

definition zero_ProxyInfo :: ProxyInfo where
  "zero_ProxyInfo =
     \<lparr>pxiBFromClient = False\<rparr>"

definition encProxyInfo :: "ProxyInfo \<Rightarrow> bytes" where
  "encProxyInfo st = concat
     [encInt (of_bool (pxiBFromClient st)) 0]"

definition okProxyInfo :: "ProxyInfo \<Rightarrow> bool" where
  "okProxyInfo st \<longleftrightarrow> True"

interpretation cProxyInfo: plain_struct "''ProxyInfo''" ProxyInfo_ResetDefault ProxyInfo_WriteTo ProxyInfo_ReadFrom encProxyInfo okProxyInfo
proof unfold_locales
  show "appends (ProxyInfo_WriteTo st) (encProxyInfo st)" if "okProxyInfo st" for st
    unfolding ProxyInfo_WriteTo_def encProxyInfo_def
    by (rule appends_wseq) (use that in \<open>simp add: okProxyInfo_def cBool.wr_value\<close>)
  show "ProxyInfo_ReadFrom w r = (st, None, adv (length (encProxyInfo st)) r)" if "okProxyInfo st" and u: "unread r = encProxyInfo st @ xs" for st w r xs
    unfolding ProxyInfo_ReadFrom_def
    by (rule members_read [OF _ _ u], unfold encProxyInfo_def)
      (rule reads_members cBool.member_enc
       | use that in \<open>simp add: okProxyInfo_def\<close>)+
qed simp_all

interpretation bProxyInfo: value_codec ProxyInfo_WriteBlock ProxyInfo_ReadBlock "encBlock encProxyInfo" okProxyInfo
  unfolding ProxyInfo_WriteBlock_def ProxyInfo_ReadBlock_def by (rule cProxyInfo.block.value_codec_axioms)

section \<open>Properties\<close>

record StatPropMsgHead =
  sphModuleName :: gostring
  sphIp :: gostring
  sphPropertyName :: gostring
  sphSetName :: gostring
  sphSetArea :: gostring
  sphSetID :: gostring
  sphSContainer :: gostring
  sphIPropertyVer :: int32

definition StatPropMsgHead_ResetDefault :: "StatPropMsgHead \<Rightarrow> StatPropMsgHead" where
  "StatPropMsgHead_ResetDefault st = st\<lparr>sphIPropertyVer := 1\<rparr>"

definition StatPropMsgHead_ReadFrom :: "StatPropMsgHead member_reader" where
  "StatPropMsgHead_ReadFrom st = readMembers
     [member ReadString sphModuleName sphModuleName_update 0 True,
      member ReadString sphIp sphIp_update 1 True,
      member ReadString sphPropertyName sphPropertyName_update 2 True,
      member ReadString sphSetName sphSetName_update 3 False,
      member ReadString sphSetArea sphSetArea_update 4 False,
      member ReadString sphSetID sphSetID_update 5 False,
      member ReadString sphSContainer sphSContainer_update 6 False,
      member ReadInt32 sphIPropertyVer sphIPropertyVer_update 7 False] (StatPropMsgHead_ResetDefault st)"

definition StatPropMsgHead_WriteTo :: "StatPropMsgHead \<Rightarrow> writer" where
  "StatPropMsgHead_WriteTo st = wseq
     [WriteString (sphModuleName st) 0,
      WriteString (sphIp st) 1,
      WriteString (sphPropertyName st) 2,
      WriteString (sphSetName st) 3,
      WriteString (sphSetArea st) 4,
      WriteString (sphSetID st) 5,
      WriteString (sphSContainer st) 6,
      WriteInt32 (sphIPropertyVer st) 7]"

definition StatPropMsgHead_ReadBlock :: "StatPropMsgHead value_reader" where
  "StatPropMsgHead_ReadBlock = ReadBlock ''StatPropMsgHead'' StatPropMsgHead_ResetDefault StatPropMsgHead_ReadFrom"

definition StatPropMsgHead_WriteBlock :: "StatPropMsgHead \<Rightarrow> byte \<Rightarrow> writer" where
  "StatPropMsgHead_WriteBlock = WriteBlock StatPropMsgHead_WriteTo"

definition zero_StatPropMsgHead :: StatPropMsgHead where
  "zero_StatPropMsgHead =
     \<lparr>sphModuleName = [], sphIp = [], sphPropertyName = [], sphSetName = [], sphSetArea = [],
     sphSetID = [], sphSContainer = [], sphIPropertyVer = 0\<rparr>"

definition encStatPropMsgHead :: "StatPropMsgHead \<Rightarrow> bytes" where
  "encStatPropMsgHead st = concat
     [encString (sphModuleName st) 0,
      encString (sphIp st) 1,
      encString (sphPropertyName st) 2,
      encString (sphSetName st) 3,
      encString (sphSetArea st) 4,
      encString (sphSetID st) 5,
      encString (sphSContainer st) 6,
      encInt (sint (sphIPropertyVer st)) 7]"

definition okStatPropMsgHead :: "StatPropMsgHead \<Rightarrow> bool" where
  "okStatPropMsgHead st \<longleftrightarrow> list_all (\<lambda>s. length s < 2 ^ 32)
       [sphModuleName st, sphIp st, sphPropertyName st, sphSetName st, sphSetArea st, sphSetID st,
        sphSContainer st]"

interpretation cStatPropMsgHead: plain_struct "''StatPropMsgHead''" StatPropMsgHead_ResetDefault StatPropMsgHead_WriteTo StatPropMsgHead_ReadFrom encStatPropMsgHead okStatPropMsgHead
proof unfold_locales
  show "appends (StatPropMsgHead_WriteTo st) (encStatPropMsgHead st)" if "okStatPropMsgHead st" for st
    unfolding StatPropMsgHead_WriteTo_def encStatPropMsgHead_def
    by (rule appends_wseq) (use that in \<open>simp add: okStatPropMsgHead_def cString.wr_value cInt32.wr_value\<close>)
  show "StatPropMsgHead_ReadFrom w r = (st, None, adv (length (encStatPropMsgHead st)) r)" if "okStatPropMsgHead st" and u: "unread r = encStatPropMsgHead st @ xs" for st w r xs
    unfolding StatPropMsgHead_ReadFrom_def
    by (rule members_read [OF _ _ u], unfold encStatPropMsgHead_def)
      (rule reads_members cString.member_enc cInt32.member_enc
       | use that in \<open>simp add: okStatPropMsgHead_def\<close>)+
qed simp_all

interpretation bStatPropMsgHead: value_codec StatPropMsgHead_WriteBlock StatPropMsgHead_ReadBlock "encBlock encStatPropMsgHead" okStatPropMsgHead
  unfolding StatPropMsgHead_WriteBlock_def StatPropMsgHead_ReadBlock_def by (rule cStatPropMsgHead.block.value_codec_axioms)

record StatPropInfo =
  spiPolicy :: gostring
  spiValue :: gostring

definition StatPropInfo_ResetDefault :: "StatPropInfo \<Rightarrow> StatPropInfo" where
  "StatPropInfo_ResetDefault st = st"

definition StatPropInfo_ReadFrom :: "StatPropInfo member_reader" where
  "StatPropInfo_ReadFrom st = readMembers
     [member ReadString spiPolicy spiPolicy_update 0 True,
      member ReadString spiValue spiValue_update 1 True] (StatPropInfo_ResetDefault st)"

definition StatPropInfo_WriteTo :: "StatPropInfo \<Rightarrow> writer" where
  "StatPropInfo_WriteTo st = wseq
     [WriteString (spiPolicy st) 0,
      WriteString (spiValue st) 1]"

definition StatPropInfo_ReadBlock :: "StatPropInfo value_reader" where
  "StatPropInfo_ReadBlock = ReadBlock ''StatPropInfo'' StatPropInfo_ResetDefault StatPropInfo_ReadFrom"

definition StatPropInfo_WriteBlock :: "StatPropInfo \<Rightarrow> byte \<Rightarrow> writer" where
  "StatPropInfo_WriteBlock = WriteBlock StatPropInfo_WriteTo"

definition zero_StatPropInfo :: StatPropInfo where
  "zero_StatPropInfo =
     \<lparr>spiPolicy = [], spiValue = []\<rparr>"

definition encStatPropInfo :: "StatPropInfo \<Rightarrow> bytes" where
  "encStatPropInfo st = concat
     [encString (spiPolicy st) 0,
      encString (spiValue st) 1]"

definition okStatPropInfo :: "StatPropInfo \<Rightarrow> bool" where
  "okStatPropInfo st \<longleftrightarrow> list_all (\<lambda>s. length s < 2 ^ 32)
       [spiPolicy st, spiValue st]"

interpretation cStatPropInfo: plain_struct "''StatPropInfo''" StatPropInfo_ResetDefault StatPropInfo_WriteTo StatPropInfo_ReadFrom encStatPropInfo okStatPropInfo
proof unfold_locales
  show "appends (StatPropInfo_WriteTo st) (encStatPropInfo st)" if "okStatPropInfo st" for st
    unfolding StatPropInfo_WriteTo_def encStatPropInfo_def
    by (rule appends_wseq) (use that in \<open>simp add: okStatPropInfo_def cString.wr_value\<close>)
  show "StatPropInfo_ReadFrom w r = (st, None, adv (length (encStatPropInfo st)) r)" if "okStatPropInfo st" and u: "unread r = encStatPropInfo st @ xs" for st w r xs
    unfolding StatPropInfo_ReadFrom_def
    by (rule members_read [OF _ _ u], unfold encStatPropInfo_def)
      (rule reads_members cString.member_enc
       | use that in \<open>simp add: okStatPropInfo_def\<close>)+
qed simp_all

interpretation bStatPropInfo: value_codec StatPropInfo_WriteBlock StatPropInfo_ReadBlock "encBlock encStatPropInfo" okStatPropInfo
  unfolding StatPropInfo_WriteBlock_def StatPropInfo_ReadBlock_def by (rule cStatPropInfo.block.value_codec_axioms)

interpretation vStatPropInfo: value_codec "WriteVec StatPropInfo_WriteBlock" "ReadVec StatPropInfo_ReadBlock zero_StatPropInfo"
  "encVec (encBlock encStatPropInfo)" "okVec okStatPropInfo"
  by (rule bStatPropInfo.vec_codec)

record StatPropMsgBody =
  spbVInfo :: "StatPropInfo list"

definition StatPropMsgBody_ResetDefault :: "StatPropMsgBody \<Rightarrow> StatPropMsgBody" where
  "StatPropMsgBody_ResetDefault st = st"

definition StatPropMsgBody_ReadFrom :: "StatPropMsgBody member_reader" where
  "StatPropMsgBody_ReadFrom st = readMembers
     [member (ReadVec StatPropInfo_ReadBlock zero_StatPropInfo) spbVInfo spbVInfo_update 0 True] (StatPropMsgBody_ResetDefault st)"

definition StatPropMsgBody_WriteTo :: "StatPropMsgBody \<Rightarrow> writer" where
  "StatPropMsgBody_WriteTo st = wseq
     [WriteVec StatPropInfo_WriteBlock (spbVInfo st) 0]"

definition StatPropMsgBody_ReadBlock :: "StatPropMsgBody value_reader" where
  "StatPropMsgBody_ReadBlock = ReadBlock ''StatPropMsgBody'' StatPropMsgBody_ResetDefault StatPropMsgBody_ReadFrom"

definition StatPropMsgBody_WriteBlock :: "StatPropMsgBody \<Rightarrow> byte \<Rightarrow> writer" where
  "StatPropMsgBody_WriteBlock = WriteBlock StatPropMsgBody_WriteTo"

definition zero_StatPropMsgBody :: StatPropMsgBody where
  "zero_StatPropMsgBody =
     \<lparr>spbVInfo = []\<rparr>"

definition encStatPropMsgBody :: "StatPropMsgBody \<Rightarrow> bytes" where
  "encStatPropMsgBody st = concat
     [encVec (encBlock encStatPropInfo) (spbVInfo st) 0]"

definition okStatPropMsgBody :: "StatPropMsgBody \<Rightarrow> bool" where
  "okStatPropMsgBody st \<longleftrightarrow> okVec okStatPropInfo (spbVInfo st)"

interpretation cStatPropMsgBody: plain_struct "''StatPropMsgBody''" StatPropMsgBody_ResetDefault StatPropMsgBody_WriteTo StatPropMsgBody_ReadFrom encStatPropMsgBody okStatPropMsgBody
proof unfold_locales
  show "appends (StatPropMsgBody_WriteTo st) (encStatPropMsgBody st)" if "okStatPropMsgBody st" for st
    unfolding StatPropMsgBody_WriteTo_def encStatPropMsgBody_def
    by (rule appends_wseq) (use that in \<open>simp add: okStatPropMsgBody_def vStatPropInfo.wr_value\<close>)
  show "StatPropMsgBody_ReadFrom w r = (st, None, adv (length (encStatPropMsgBody st)) r)" if "okStatPropMsgBody st" and u: "unread r = encStatPropMsgBody st @ xs" for st w r xs
    unfolding StatPropMsgBody_ReadFrom_def
    by (rule members_read [OF _ _ u], unfold encStatPropMsgBody_def)
      (rule reads_members vStatPropInfo.member_enc
       | use that in \<open>simp add: okStatPropMsgBody_def\<close>)+
qed simp_all

interpretation bStatPropMsgBody: value_codec StatPropMsgBody_WriteBlock StatPropMsgBody_ReadBlock "encBlock encStatPropMsgBody" okStatPropMsgBody
  unfolding StatPropMsgBody_WriteBlock_def StatPropMsgBody_ReadBlock_def by (rule cStatPropMsgBody.block.value_codec_axioms)

end
