(* ===== verification/Service_Structs.thy ===== *)
theory Service_Structs
  imports Struct_Members
begin

text \<open>
  The structs generated for the other services of the framework: \<^verbatim>\<open>res/configf/ConfigF.go\<close>,
  \<^verbatim>\<open>res/notifyf/NotifyF.go\<close>, \<^verbatim>\<open>res/logf/LogF.go\<close> and \<^verbatim>\<open>res/nodef/NodeF.go\<close>.
\<close>

section \<open>Configuration\<close>

record ConfigInfo =
  cfiAppname :: gostring
  cfiServername :: gostring
  cfiFilename :: gostring
  cfiBAppOnly :: bool
  cfiHost :: gostring
  cfiSetdivision :: gostring

definition ConfigInfo_ResetDefault :: "ConfigInfo \<Rightarrow> ConfigInfo" where
  "ConfigInfo_ResetDefault st = st\<lparr>cfiBAppOnly := False\<rparr>"

definition ConfigInfo_ReadFrom :: "ConfigInfo member_reader" where
  "ConfigInfo_ReadFrom st = readMembers
     [member ReadString cfiAppname cfiAppname_update 0 True,
      member ReadString cfiServername cfiServername_update 1 True,
      member ReadString cfiFilename cfiFilename_update 2 True,
      member ReadBool cfiBAppOnly cfiBAppOnly_update 3 True,
      member ReadString cfiHost cfiHost_update 4 False,
      member ReadString cfiSetdivision cfiSetdivision_update 5 False] (ConfigInfo_ResetDefault st)"

definition ConfigInfo_WriteTo :: "ConfigInfo \<Rightarrow> writer" where
  "ConfigInfo_WriteTo st = wseq
     [WriteString (cfiAppname st) 0,
      WriteString (cfiServername st) 1,
      WriteString (cfiFilename st) 2,
      WriteBool (cfiBAppOnly st) 3,
      WriteString (cfiHost st) 4,
      WriteString (cfiSetdivision st) 5]"

definition ConfigInfo_ReadBlock :: "ConfigInfo value_reader" where
  "ConfigInfo_ReadBlock = ReadBlock ''ConfigInfo'' ConfigInfo_ResetDefault ConfigInfo_ReadFrom"

definition ConfigInfo_WriteBlock :: "ConfigInfo \<Rightarrow> byte \<Rightarrow> writer" where
  "ConfigInfo_WriteBlock = WriteBlock ConfigInfo_WriteTo"

definition zero_ConfigInfo :: ConfigInfo where
  "zero_ConfigInfo =
     \<lparr>cfiAppname = [], cfiServername = [], cfiFilename = [], cfiBAppOnly = False, cfiHost = [],
     cfiSetdivision = []\<rparr>"

definition encConfigInfo :: "ConfigInfo \<Rightarrow> bytes" where
  "encConfigInfo st = concat
     [encString (cfiAppname st) 0,
      encString (cfiServername st) 1,
      encString (cfiFilename st) 2,
      encInt (of_bool (cfiBAppOnly st)) 3,
      encString (cfiHost st) 4,
      encString (cfiSetdivision st) 5]"

definition okConfigInfo :: "ConfigInfo \<Rightarrow> bool" where
  "okConfigInfo st \<longleftrightarrow> list_all (\<lambda>s. length s < 2 ^ 32)
       [cfiAppname st, cfiServername st, cfiFilename st, cfiHost st, cfiSetdivision st]"

interpretation cConfigInfo: plain_struct "''ConfigInfo''" ConfigInfo_ResetDefault ConfigInfo_WriteTo ConfigInfo_ReadFrom encConfigInfo okConfigInfo
proof unfold_locales
  show "appends (ConfigInfo_WriteTo st) (encConfigInfo st)" if "okConfigInfo st" for st
    unfolding ConfigInfo_WriteTo_def encConfigInfo_def
    by (rule appends_wseq) (use that in \<open>simp add: okConfigInfo_def cString.wr_value cBool.wr_value\<close>)
  show "ConfigInfo_ReadFrom w r = (st, None, adv (length (encConfigInfo st)) r)" if "okConfigInfo st" and u: "unread r = encConfigInfo st @ xs" for st w r xs
    unfolding ConfigInfo_ReadFrom_def
    by (rule members_read [OF _ _ u], unfold encConfigInfo_def)
      (rule reads_members cString.member_enc cBool.member_enc
       | use that in \<open>simp add: okConfigInfo_def\<close>)+
qed simp_all

interpretation bConfigInfo: value_codec ConfigInfo_WriteBlock ConfigInfo_ReadBlock "encBlock encConfigInfo" okConfigInfo
  unfolding ConfigInfo_WriteBlock_def ConfigInfo_ReadBlock_def by (rule cConfigInfo.block.value_codec_axioms)

record GetConfigListInfo =
  gclAppname :: gostring
  gclServername :: gostring
  gclBAppOnly :: bool
  gclHost :: gostring
  gclSetdivision :: gostring
  gclContainername :: gostring

definition GetConfigListInfo_ResetDefault :: "GetConfigListInfo \<Rightarrow> GetConfigListInfo" where
  "GetConfigListInfo_ResetDefault st = st\<lparr>gclBAppOnly := False, gclHost := [], gclSetdivision := [], gclContainername := []\<rparr>"

definition GetConfigListInfo_ReadFrom :: "GetConfigListInfo member_reader" where
  "GetConfigListInfo_ReadFrom st = readMembers
     [member ReadString gclAppname gclAppname_update 0 True,
      member ReadString gclServername gclServername_update 1 False,
      member ReadBool gclBAppOnly gclBAppOnly_update 2 False,
      member ReadString gclHost gclHost_update 3 False,
      member ReadString gclSetdivision gclSetdivision_update 4 False,
      member ReadString gclContainername gclContainername_update 5 False] (GetConfigListInfo_ResetDefault st)"

definition GetConfigListInfo_WriteTo :: "GetConfigListInfo \<Rightarrow> writer" where
  "GetConfigListInfo_WriteTo st = wseq
     [WriteString (gclAppname st) 0,
      WriteString (gclServername st) 1,
      WriteBool (gclBAppOnly st) 2,
      WriteString (gclHost st) 3,
      WriteString (gclSetdivision st) 4,
      WriteString (gclContainername st) 5]"

definition GetConfigListInfo_ReadBlock :: "GetConfigListInfo value_reader" where
  "GetConfigListInfo_ReadBlock = ReadBlock ''GetConfigListInfo'' GetConfigListInfo_ResetDefault GetConfigListInfo_ReadFrom"

definition GetConfigListInfo_WriteBlock :: "GetConfigListInfo \<Rightarrow> byte \<Rightarrow> writer" where
  "GetConfigListInfo_WriteBlock = WriteBlock GetConfigListInfo_WriteTo"

definition zero_GetConfigListInfo :: GetConfigListInfo where
  "zero_GetConfigListInfo =
     \<lparr>gclAppname = [], gclServername = [], gclBAppOnly = False, gclHost = [], gclSetdivision = [],
     gclContainername = []\<rparr>"

definition encGetConfigListInfo :: "GetConfigListInfo \<Rightarrow> bytes" where
  "encGetConfigListInfo st = concat
     [encString (gclAppname st) 0,
      encString (gclServername st) 1,
      encInt (of_bool (gclBAppOnly st)) 2,
      encString (gclHost st) 3,
      encString (gclSetdivision st) 4,
      encString (gclContainername st) 5]"

definition okGetConfigListInfo :: "GetConfigListInfo \<Rightarrow> bool" where
  "okGetConfigListInfo st \<longleftrightarrow> list_all (\<lambda>s. length s < 2 ^ 32)
       [gclAppname st, gclServername st, gclHost st, gclSetdivision st, gclContainername st]"

interpretation cGetConfigListInfo: plain_struct "''GetConfigListInfo''" GetConfigListInfo_ResetDefault GetConfigListInfo_WriteTo GetConfigListInfo_ReadFrom encGetConfigListInfo okGetConfigListInfo
proof unfold_locales
  show "appends (GetConfigListInfo_WriteTo st) (encGetConfigListInfo st)" if "okGetConfigListInfo st" for st
    unfolding GetConfigListInfo_WriteTo_def encGetConfigListInfo_def
    by (rule appends_wseq) (use that in \<open>simp add: okGetConfigListInfo_def cString.wr_value cBool.wr_value\<close>)
  show "GetConfigListInfo_ReadFrom w r = (st, None, adv (length (encGetConfigListInfo st)) r)" if "okGetConfigListInfo st" and u: "unread r = encGetConfigListInfo st @ xs" for st w r xs
    unfolding GetConfigListInfo_ReadFrom_def
    by (rule members_read [OF _ _ u], unfold encGetConfigListInfo_def)
      (rule reads_members cString.member_enc cBool.member_enc
       | use that in \<open>simp add: okGetConfigListInfo_def\<close>)+
qed simp_all

interpretation bGetConfigListInfo: value_codec GetConfigListInfo_WriteBlock GetConfigListInfo_ReadBlock "encBlock encGetConfigListInfo" okGetConfigListInfo
  unfolding GetConfigListInfo_WriteBlock_def GetConfigListInfo_ReadBlock_def by (rule cGetConfigListInfo.block.value_codec_axioms)

section \<open>Notifications\<close>

record NotifyKey =
  nkName :: gostring
  nkIp :: gostring
  nkPage :: int32

definition NotifyKey_ResetDefault :: "NotifyKey \<Rightarrow> NotifyKey" where
  "NotifyKey_ResetDefault st = st"

definition NotifyKey_ReadFrom :: "NotifyKey member_reader" where
  "NotifyKey_ReadFrom st = readMembers
     [member ReadString nkName nkName_update 1 True,
      member ReadString nkIp nkIp_update 2 True,
      member ReadInt32 nkPage nkPage_update 3 True] (NotifyKey_ResetDefault st)"

definition NotifyKey_WriteTo :: "NotifyKey \<Rightarrow> writer" where
  "NotifyKey_WriteTo st = wseq
     [WriteString (nkName st) 1,
      WriteString (nkIp st) 2,
      WriteInt32 (nkPage st) 3]"

definition NotifyKey_ReadBlock :: "NotifyKey value_reader" where
  "NotifyKey_ReadBlock = ReadBlock ''NotifyKey'' NotifyKey_ResetDefault NotifyKey_ReadFrom"

definition NotifyKey_WriteBlock :: "NotifyKey \<Rightarrow> byte \<Rightarrow> writer" where
  "NotifyKey_WriteBlock = WriteBlock NotifyKey_WriteTo"

definition zero_NotifyKey :: NotifyKey where
  "zero_NotifyKey =
     \<lparr>nkName = [], nkIp = [], nkPage = 0\<rparr>"

definition encNotifyKey :: "NotifyKey \<Rightarrow> bytes" where
  "encNotifyKey st = concat
     [encString (nkName st) 1,
      encString (nkIp st) 2,
      encInt (sint (nkPage st)) 3]"

definition okNotifyKey :: "NotifyKey \<Rightarrow> bool" where
  "okNotifyKey st \<longleftrightarrow> list_all (\<lambda>s. length s < 2 ^ 32)
       [nkName st, nkIp st]"

interpretation cNotifyKey: plain_struct "''NotifyKey''" NotifyKey_ResetDefault NotifyKey_WriteTo NotifyKey_ReadFrom encNotifyKey okNotifyKey
proof unfold_locales
  show "appends (NotifyKey_WriteTo st) (encNotifyKey st)" if "okNotifyKey st" for st
    unfolding NotifyKey_WriteTo_def encNotifyKey_def
    by (rule appends_wseq) (use that in \<open>simp add: okNotifyKey_def cString.wr_value cInt32.wr_value\<close>)
  show "NotifyKey_ReadFrom w r = (st, None, adv (length (encNotifyKey st)) r)" if "okNotifyKey st" and u: "unread r = encNotifyKey st @ xs" for st w r xs
    unfolding NotifyKey_ReadFrom_def
    by (rule members_read [OF _ _ u], unfold encNotifyKey_def)
      (rule reads_members cString.member_enc cInt32.member_enc
       | use that in \<open>simp add: okNotifyKey_def\<close>)+
qed simp_all

interpretation bNotifyKey: value_codec NotifyKey_WriteBlock NotifyKey_ReadBlock "encBlock encNotifyKey" okNotifyKey
  unfolding NotifyKey_WriteBlock_def NotifyKey_ReadBlock_def by (rule cNotifyKey.block.value_codec_axioms)

record NotifyItem =
  nitSTimeStamp :: gostring
  nitSServerId :: gostring
  nitILevel :: int32
  nitSMessage :: gostring

definition NotifyItem_ResetDefault :: "NotifyItem \<Rightarrow> NotifyItem" where
  "NotifyItem_ResetDefault st = st"

definition NotifyItem_ReadFrom :: "NotifyItem member_reader" where
  "NotifyItem_ReadFrom st = readMembers
     [member ReadString nitSTimeStamp nitSTimeStamp_update 1 True,
      member ReadString nitSServerId nitSServerId_update 2 True,
      member ReadInt32 nitILevel nitILevel_update 3 True,
      member ReadString nitSMessage nitSMessage_update 4 True] (NotifyItem_ResetDefault st)"

definition NotifyItem_WriteTo :: "NotifyItem \<Rightarrow> writer" where
  "NotifyItem_WriteTo st = wseq
     [WriteString (nitSTimeStamp st) 1,
      WriteString (nitSServerId st) 2,
      WriteInt32 (nitILevel st) 3,
      WriteString (nitSMessage st) 4]"

definition NotifyItem_ReadBlock :: "NotifyItem value_reader" where
  "NotifyItem_ReadBlock = ReadBlock ''NotifyItem'' NotifyItem_ResetDefault NotifyItem_ReadFrom"

definition NotifyItem_WriteBlock :: "NotifyItem \<Rightarrow> byte \<Rightarrow> writer" where
  "NotifyItem_WriteBlock = WriteBlock NotifyItem_WriteTo"

definition zero_NotifyItem :: NotifyItem where
  "zero_NotifyItem =
     \<lparr>nitSTimeStamp = [], nitSServerId = [], nitILevel = 0, nitSMessage = []\<rparr>"

definition encNotifyItem :: "NotifyItem \<Rightarrow> bytes" where
  "encNotifyItem st = concat
     [encString (nitSTimeStamp st) 1,
      encString (nitSServerId st) 2,
      encInt (sint (nitILevel st)) 3,
      encString (nitSMessage st) 4]"

definition okNotifyItem :: "NotifyItem \<Rightarrow> bool" where
  "okNotifyItem st \<longleftrightarrow> list_all (\<lambda>s. length s < 2 ^ 32)
       [nitSTimeStamp st, nitSServerId st, nitSMessage st]"

interpretation cNotifyItem: plain_struct "''NotifyItem''" NotifyItem_ResetDefault NotifyItem_WriteTo NotifyItem_ReadFrom encNotifyItem okNotifyItem
proof unfold_locales
  show "appends (NotifyItem_WriteTo st) (encNotifyItem st)" if "okNotifyItem st" for st
    unfolding NotifyItem_WriteTo_def encNotifyItem_def
    by (rule appends_wseq) (use that in \<open>simp add: okNotifyItem_def cString.wr_value cInt32.wr_value\<close>)
  show "NotifyItem_ReadFrom w r = (st, None, adv (length (encNotifyItem st)) r)" if "okNotifyItem st" and u: "unread r = encNotifyItem st @ xs" for st w r xs
    unfolding NotifyItem_ReadFrom_def
    by (rule members_read [OF _ _ u], unfold encNotifyItem_def)
      (rule reads_members cString.member_enc cInt32.member_enc
       | use that in \<open>simp add: okNotifyItem_def\<close>)+
qed simp_all

interpretation bNotifyItem: value_codec NotifyItem_WriteBlock NotifyItem_ReadBlock "encBlock encNotifyItem" okNotifyItem
  unfolding NotifyItem_WriteBlock_def NotifyItem_ReadBlock_def by (rule cNotifyItem.block.value_codec_axioms)

interpretation vNotifyItem: value_codec "WriteVec NotifyItem_WriteBlock" "ReadVec NotifyItem_ReadBlock zero_NotifyItem"
  "encVec (encBlock encNotifyItem)" "okVec okNotifyItem"
  by (rule bNotifyItem.vec_codec)

record NotifyInfo =
  nfoNextpage :: int32
  nfoNotifyItems :: "NotifyItem list"

definition NotifyInfo_ResetDefault :: "NotifyInfo \<Rightarrow> NotifyInfo" where
  "NotifyInfo_ResetDefault st = st"

definition NotifyInfo_ReadFrom :: "NotifyInfo member_reader" where
  "NotifyInfo_ReadFrom st = readMembers
     [member ReadInt32 nfoNextpage nfoNextpage_update 1 True,
      member (ReadVec NotifyItem_ReadBlock zero_NotifyItem) nfoNotifyItems nfoNotifyItems_update 2 True] (NotifyInfo_ResetDefault st)"

definition NotifyInfo_WriteTo :: "NotifyInfo \<Rightarrow> writer" where
  "NotifyInfo_WriteTo st = wseq
     [WriteInt32 (nfoNextpage st) 1,
      WriteVec NotifyItem_WriteBlock (nfoNotifyItems st) 2]"

definition NotifyInfo_ReadBlock :: "NotifyInfo value_reader" where
  "NotifyInfo_ReadBlock = ReadBlock ''NotifyInfo'' NotifyInfo_ResetDefault NotifyInfo_ReadFrom"

definition NotifyInfo_WriteBlock :: "NotifyInfo \<Rightarrow> byte \<Rightarrow> writer" where
  "NotifyInfo_WriteBlock = WriteBlock NotifyInfo_WriteTo"

definition zero_NotifyInfo :: NotifyInfo where
  "zero_NotifyInfo =
     \<lparr>nfoNextpage = 0, nfoNotifyItems = []\<rparr>"

definition encNotifyInfo :: "NotifyInfo \<Rightarrow> bytes" where
  "encNotifyInfo st = concat
     [encInt (sint (nfoNextpage st)) 1,
      encVec (encBlock encNotifyItem) (nfoNotifyItems st) 2]"

definition okNotifyInfo :: "NotifyInfo \<Rightarrow> bool" where
  "okNotifyInfo st \<longleftrightarrow> okVec okNotifyItem (nfoNotifyItems st)"

interpretation cNotifyInfo: plain_struct "''NotifyInfo''" NotifyInfo_ResetDefault NotifyInfo_WriteTo NotifyInfo_ReadFrom encNotifyInfo okNotifyInfo
proof unfold_locales
  show "appends (NotifyInfo_WriteTo st) (encNotifyInfo st)" if "okNotifyInfo st" for st
    unfolding NotifyInfo_WriteTo_def encNotifyInfo_def
    by (rule appends_wseq) (use that in \<open>simp add: okNotifyInfo_def cInt32.wr_value vNotifyItem.wr_value\<close>)
  show "NotifyInfo_ReadFrom w r = (st, None, adv (length (encNotifyInfo st)) r)" if "okNotifyInfo st" and u: "unread r = encNotifyInfo st @ xs" for st w r xs
    unfolding NotifyInfo_ReadFrom_def
    by (rule members_read [OF _ _ u], unfold encNotifyInfo_def)
      (rule reads_members cInt32.member_enc vNotifyItem.member_enc
       | use that in \<open>simp add: okNotifyInfo_def\<close>)+
qed simp_all

interpretation bNotifyInfo: value_codec NotifyInfo_WriteBlock NotifyInfo_ReadBlock "encBlock encNotifyInfo" okNotifyInfo
  unfolding NotifyInfo_WriteBlock_def NotifyInfo_ReadBlock_def by (rule cNotifyInfo.block.value_codec_axioms)

record ReportInfo =
  rpiEType :: int32
  rpiSApp :: gostring
  rpiSSet :: gostring
  rpiSContainer :: gostring
  rpiSServer :: gostring
  rpiSMessage :: gostring
  rpiSThreadId :: gostring
  rpiELevel :: int32

definition ReportInfo_ResetDefault :: "ReportInfo \<Rightarrow> ReportInfo" where
  "ReportInfo_ResetDefault st = st"

definition ReportInfo_ReadFrom :: "ReportInfo member_reader" where
  "ReportInfo_ReadFrom st = readMembers
     [member ReadInt32 rpiEType rpiEType_update 1 True,
      member ReadString rpiSApp rpiSApp_update 2 True,
      member ReadString rpiSSet rpiSSet_update 3 True,
      member ReadString rpiSContainer rpiSContainer_update 4 True,
      member ReadString rpiSServer rpiSServer_update 5 True,
      member ReadString rpiSMessage rpiSMessage_update 6 True,
      member ReadString rpiSThreadId rpiSThreadId_update 7 False,
      member ReadInt32 rpiELevel rpiELevel_update 8 False] (ReportInfo_ResetDefault st)"

definition ReportInfo_WriteTo :: "ReportInfo \<Rightarrow> writer" where
  "ReportInfo_WriteTo st = wseq
     [WriteInt32 (rpiEType st) 1,
      WriteString (rpiSApp st) 2,
      WriteString (rpiSSet st) 3,
      WriteString (rpiSContainer st) 4,
      WriteString (rpiSServer st) 5,
      WriteString (rpiSMessage st) 6,
      WriteString (rpiSThreadId st) 7,
      WriteInt32 (rpiELevel st) 8]"

definition ReportInfo_ReadBlock :: "ReportInfo value_reader" where
  "ReportInfo_ReadBlock = ReadBlock ''ReportInfo'' ReportInfo_ResetDefault ReportInfo_ReadFrom"

definition ReportInfo_WriteBlock :: "ReportInfo \<Rightarrow> byte \<Rightarrow> writer" where
  "ReportInfo_WriteBlock = WriteBlock ReportInfo_WriteTo"

definition zero_ReportInfo :: ReportInfo where
  "zero_ReportInfo =
     \<lparr>rpiEType = 0, rpiSApp = [], rpiSSet = [], rpiSContainer = [], rpiSServer = [],
     rpiSMessage = [], rpiSThreadId = [], rpiELevel = 0\<rparr>"

definition encReportInfo :: "ReportInfo \<Rightarrow> bytes" where
  "encReportInfo st = concat
     [encInt (sint (rpiEType st)) 1,
      encString (rpiSApp st) 2,
      encString (rpiSSet st) 3,
      encString (rpiSContainer st) 4,
      encString (rpiSServer st) 5,
      encString (rpiSMessage st) 6,
      encString (rpiSThreadId st) 7,
      encInt (sint (rpiELevel st)) 8]"

definition okReportInfo :: "ReportInfo \<Rightarrow> bool" where
  "okReportInfo st \<longleftrightarrow> list_all (\<lambda>s. length s < 2 ^ 32)
       [rpiSApp st, rpiSSet st, rpiSContainer st, rpiSServer st, rpiSMessage st, rpiSThreadId st]"

interpretation cReportInfo: plain_struct "''ReportInfo''" ReportInfo_ResetDefault ReportInfo_WriteTo ReportInfo_ReadFrom encReportInfo okReportInfo
proof unfold_locales
  show "appends (ReportInfo_WriteTo st) (encReportInfo st)" if "okReportInfo st" for st
    unfolding ReportInfo_WriteTo_def encReportInfo_def
    by (rule appends_wseq) (use that in \<open>simp add: okReportInfo_def cInt32.wr_value cString.wr_value\<close>)
  show "ReportInfo_ReadFrom w r = (st, None, adv (length (encReportInfo st)) r)" if "okReportInfo st" and u: "unread r = encReportInfo st @ xs" for st w r xs
    unfolding ReportInfo_ReadFrom_def
    by (rule members_read [OF _ _ u], unfold encReportInfo_def)
      (rule reads_members cInt32.member_enc cString.member_enc
       | use that in \<open>simp add: okReportInfo_def\<close>)+
qed simp_all

interpretation bReportInfo: value_codec ReportInfo_WriteBlock ReportInfo_ReadBlock "encBlock encReportInfo" okReportInfo
  unfolding ReportInfo_WriteBlock_def ReportInfo_ReadBlock_def by (rule cReportInfo.block.value_codec_axioms)

section \<open>Logs\<close>

record LogInfo =
  lgiAppname :: gostring
  lgiServername :: gostring
  lgiSFilename :: gostring
  lgiSFormat :: gostring
  lgiSetdivision :: gostring
  lgiBHasSufix :: bool
  lgiBHasAppNamePrefix :: bool
  lgiBHasSquareBracket :: bool
  lgiSConcatStr :: gostring
  lgiSSepar :: gostring
  lgiSLogType :: gostring

definition LogInfo_ResetDefault :: "LogInfo \<Rightarrow> LogInfo" where
  "LogInfo_ResetDefault st = st\<lparr>lgiBHasSufix := True, lgiBHasAppNamePrefix := True, lgiBHasSquareBracket := False, lgiSConcatStr := ascii ''_'', lgiSSepar := ascii ''|'', lgiSLogType := []\<rparr>"

definition LogInfo_ReadFrom :: "LogInfo member_reader" where
  "LogInfo_ReadFrom st = readMembers
     [member ReadString lgiAppname lgiAppname_update 0 True,
      member ReadString lgiServername lgiServername_update 1 True,
      member ReadString lgiSFilename lgiSFilename_update 2 True,
      member ReadString lgiSFormat lgiSFormat_update 3 True,
      member ReadString lgiSetdivision lgiSetdivision_update 4 False,
      member ReadBool lgiBHasSufix lgiBHasSufix_update 5 False,
      member ReadBool lgiBHasAppNamePrefix lgiBHasAppNamePrefix_update 6 False,
      member ReadBool lgiBHasSquareBracket lgiBHasSquareBracket_update 7 False,
      member ReadString lgiSConcatStr lgiSConcatStr_update 8 False,
      member ReadString lgiSSepar lgiSSepar_update 9 False,
      member ReadString lgiSLogType lgiSLogType_update 10 False] (LogInfo_ResetDefault st)"

definition LogInfo_WriteTo :: "LogInfo \<Rightarrow> writer" where
  "LogInfo_WriteTo st = wseq
     [WriteString (lgiAppname st) 0,
      WriteString (lgiServername st) 1,
      WriteString (lgiSFilename st) 2,
      WriteString (lgiSFormat st) 3,
      WriteString (lgiSetdivision st) 4,
      WriteBool (lgiBHasSufix st) 5,
      WriteBool (lgiBHasAppNamePrefix st) 6,
      WriteBool (lgiBHasSquareBracket st) 7,
      WriteString (lgiSConcatStr st) 8,
      WriteString (lgiSSepar st) 9,
      WriteString (lgiSLogType st) 10]"

definition LogInfo_ReadBlock :: "LogInfo value_reader" where
  "LogInfo_ReadBlock = ReadBlock ''LogInfo'' LogInfo_ResetDefault LogInfo_ReadFrom"

definition LogInfo_WriteBlock :: "LogInfo \<Rightarrow> byte \<Rightarrow> writer" where
  "LogInfo_WriteBlock = WriteBlock LogInfo_WriteTo"

definition zero_LogInfo :: LogInfo where
  "zero_LogInfo =
     \<lparr>lgiAppname = [], lgiServername = [], lgiSFilename = [], lgiSFormat = [], lgiSetdivision = [],
     lgiBHasSufix = False, lgiBHasAppNamePrefix = False, lgiBHasSquareBracket = False,
     lgiSConcatStr = [], lgiSSepar = [], lgiSLogType = []\<rparr>"

definition encLogInfo :: "LogInfo \<Rightarrow> bytes" where
  "encLogInfo st = concat
     [encString (lgiAppname st) 0,
      encString (lgiServername st) 1,
      encString (lgiSFilename st) 2,
      encString (lgiSFormat st) 3,
      encString (lgiSetdivision st) 4,
      encInt (of_bool (lgiBHasSufix st)) 5,
      encInt (of_bool (lgiBHasAppNamePrefix st)) 6,
      encInt (of_bool (lgiBHasSquareBracket st)) 7,
      encString (lgiSConcatStr st) 8,
      encString (lgiSSepar st) 9,
      encString (lgiSLogType st) 10]"

definition okLogInfo :: "LogInfo \<Rightarrow> bool" where
  "okLogInfo st \<longleftrightarrow> list_all (\<lambda>s. length s < 2 ^ 32)
       [lgiAppname st, lgiServername st, lgiSFilename st, lgiSFormat st, lgiSetdivision st,
        lgiSConcatStr st, lgiSSepar st, lgiSLogType st]"

interpretation cLogInfo: plain_struct "''LogInfo''" LogInfo_ResetDefault LogInfo_WriteTo LogInfo_ReadFrom encLogInfo okLogInfo
proof unfold_locales
  show "appends (LogInfo_WriteTo st) (encLogInfo st)" if "okLogInfo st" for st
    unfolding LogInfo_WriteTo_def encLogInfo_def
    by (rule appends_wseq) (use that in \<open>simp add: okLogInfo_def cString.wr_value cBool.wr_value\<close>)
  show "LogInfo_ReadFrom w r = (st, None, adv (length (encLogInfo st)) r)" if "okLogInfo st" and u: "unread r = encLogInfo st @ xs" for st w r xs
    unfolding LogInfo_ReadFrom_def
    by (rule members_read [OF _ _ u], unfold encLogInfo_def)
      (rule reads_members cString.member_enc cBool.member_enc
       | use that in \<open>simp add: okLogInfo_def\<close>)+
qed simp_all

interpretation bLogInfo: value_codec LogInfo_WriteBlock LogInfo_ReadBlock "encBlock encLogInfo" okLogInfo
  unfolding LogInfo_WriteBlock_def LogInfo_ReadBlock_def by (rule cLogInfo.block.value_codec_axioms)

section \<open>Nodes\<close>

record ServerInfo =
  sviApplication :: gostring
  sviServerName :: gostring
  sviPid :: int32
  sviAdapter :: gostring

definition ServerInfo_ResetDefault :: "ServerInfo \<Rightarrow> ServerInfo" where
  "ServerInfo_ResetDefault st = st"

definition ServerInfo_ReadFrom :: "ServerInfo member_reader" where
  "ServerInfo_ReadFrom st = readMembers
     [member ReadString sviApplication sviApplication_update 0 True,
      member ReadString sviServerName sviServerName_update 1 True,
      member ReadInt32 sviPid sviPid_update 2 True,
      member ReadString sviAdapter sviAdapter_update 3 False] (ServerInfo_ResetDefault st)"

definition ServerInfo_WriteTo :: "ServerInfo \<Rightarrow> writer" where
  "ServerInfo_WriteTo st = wseq
     [WriteString (sviApplication st) 0,
      WriteString (sviServerName st) 1,
      WriteInt32 (sviPid st) 2,
      WriteString (sviAdapter st) 3]"

definition ServerInfo_ReadBlock :: "ServerInfo value_reader" where
  "ServerInfo_ReadBlock = ReadBlock ''ServerInfo'' ServerInfo_ResetDefault ServerInfo_ReadFrom"

definition ServerInfo_WriteBlock :: "ServerInfo \<Rightarrow> byte \<Rightarrow> writer" where
  "ServerInfo_WriteBlock = WriteBlock ServerInfo_WriteTo"

definition zero_ServerInfo :: ServerInfo where
  "zero_ServerInfo =
     \<lparr>sviApplication = [], sviServerName = [], sviPid = 0, sviAdapter = []\<rparr>"

definition encServerInfo :: "ServerInfo \<Rightarrow> bytes" where
  "encServerInfo st = concat
     [encString (sviApplication st) 0,
      encString (sviServerName st) 1,
      encInt (sint (sviPid st)) 2,
      encString (sviAdapter st) 3]"

definition okServerInfo :: "ServerInfo \<Rightarrow> bool" where
  "okServerInfo st \<longleftrightarrow> list_all (\<lambda>s. length s < 2 ^ 32)
       [sviApplication st, sviServerName st, sviAdapter st]"

interpretation cServerInfo: plain_struct "''ServerInfo''" ServerInfo_ResetDefault ServerInfo_WriteTo ServerInfo_ReadFrom encServerInfo okServerInfo
proof unfold_locales
  show "appends (ServerInfo_WriteTo st) (encServerInfo st)" if "okServerInfo st" for st
    unfolding ServerInfo_WriteTo_def encServerInfo_def
    by (rule appends_wseq) (use that in \<open>simp add: okServerInfo_def cString.wr_value cInt32.wr_value\<close>)
  show "ServerInfo_ReadFrom w r = (st, None, adv (length (encServerInfo st)) r)" if "okServerInfo st" and u: "unread r = encServerInfo st @ xs" for st w r xs
    unfolding ServerInfo_ReadFrom_def
    by (rule members_read [OF _ _ u], unfold encServerInfo_def)
      (rule reads_members cString.member_enc cInt32.member_enc
       | use that in \<open>simp add: okServerInfo_def\<close>)+
qed simp_all

interpretation bServerInfo: value_codec ServerInfo_WriteBlock ServerInfo_ReadBlock "encBlock encServerInfo" okServerInfo
  unfolding ServerInfo_WriteBlock_def ServerInfo_ReadBlock_def by (rule cServerInfo.block.value_codec_axioms)

end
