(* ===== verification/Framework_Services.thy ===== *)
theory Framework_Services
  imports Service_Contract Stat_Structs Service_Structs
begin

text \<open>
  The interfaces of the other services of the framework: \<^verbatim>\<open>Config\<close>, \<^verbatim>\<open>Log\<close>, \<^verbatim>\<open>Notify\<close>, \<^verbatim>\<open>StatF\<close>,
  \<^verbatim>\<open>PropertyF\<close>, \<^verbatim>\<open>AdminF\<close> and \<^verbatim>\<open>ServerF\<close> (the files \<^verbatim>\<open>*.tars.go\<close> under \<^verbatim>\<open>tars/protocol/res\<close>), each as the
  descriptions of its methods, its proxy functions and its dispatcher.
\<close>

section \<open>Vectors and maps\<close>

interpretation vString: value_codec "WriteVec WriteString" "ReadVec ReadString []" "encVec encString"
  "okVec (\<lambda>s. length s < 2 ^ 32)"
  by (rule cString.vec_codec)

interpretation iStatMicMsg: map_codec StatMicMsgHead_WriteBlock StatMicMsgHead_ReadBlock "encBlock encStatMicMsgHead"
  okStatMicMsgHead StatMicMsgBody_WriteBlock StatMicMsgBody_ReadBlock "encBlock encStatMicMsgBody" okStatMicMsgBody
  by unfold_locales

interpretation mStatMicMsgHead: value_codec "WriteMap StatMicMsgHead_WriteBlock StatMicMsgBody_WriteBlock"
  "ReadMap StatMicMsgHead_ReadBlock zero_StatMicMsgHead StatMicMsgBody_ReadBlock zero_StatMicMsgBody"
  "encMap (encBlock encStatMicMsgHead) (encBlock encStatMicMsgBody)" "okMap okStatMicMsgHead okStatMicMsgBody"
  by (rule iStatMicMsg.map_codec)

interpretation iStatPropMsg: map_codec StatPropMsgHead_WriteBlock StatPropMsgHead_ReadBlock "encBlock encStatPropMsgHead"
  okStatPropMsgHead StatPropMsgBody_WriteBlock StatPropMsgBody_ReadBlock "encBlock encStatPropMsgBody" okStatPropMsgBody
  by unfold_locales

interpretation mStatPropMsgHead: value_codec "WriteMap StatPropMsgHead_WriteBlock StatPropMsgBody_WriteBlock"
  "ReadMap StatPropMsgHead_ReadBlock zero_StatPropMsgHead StatPropMsgBody_ReadBlock zero_StatPropMsgBody"
  "encMap (encBlock encStatPropMsgHead) (encBlock encStatPropMsgBody)" "okMap okStatPropMsgHead okStatPropMsgBody"
  by (rule iStatPropMsg.map_codec)

section \<open>Configuration\<close>

record ConfigVars =
  cvApp :: gostring
  cvServer :: gostring
  cvVf :: "gostring list"
  cvRet :: int32
  cvFilename :: gostring
  cvConfig :: gostring
  cvAppServerName :: gostring
  cvHost :: gostring
  cvResult :: gostring
  cvConfigInfo :: ConfigInfo
  cvConfigInfoGetConfigListInfo :: GetConfigListInfo

definition zero_ConfigVars :: ConfigVars where
  "zero_ConfigVars =
     \<lparr>cvApp = [], cvServer = [], cvVf = [], cvRet = 0, cvFilename = [], cvConfig = [],
     cvAppServerName = [], cvHost = [], cvResult = [], cvConfigInfo = zero_ConfigInfo,
     cvConfigInfoGetConfigListInfo = zero_GetConfigListInfo\<rparr>"

definition Config_ListConfig_case :: "ConfigVars rpcMethod" where
  "Config_ListConfig_case =
     \<lparr>mdName = ascii ''ListConfig'', mdGo = ascii ''ListConfig'',
      mdIn = [param ''app'' 1 WriteString ReadString cvApp cvApp_update,
        param ''server'' 2 WriteString ReadString cvServer cvServer_update],
      mdOut = [param ''vf'' 3 (WriteVec WriteString) (ReadVec ReadString []) cvVf cvVf_update],
      mdRet = Some (param ''tars_ret'' 0 WriteInt32 ReadInt32 cvRet cvRet_update)\<rparr>"

definition Config_ListConfigWithContext :: "'w invoker \<Rightarrow> ConfigVars \<Rightarrow> strmap list \<Rightarrow> 'w
    \<Rightarrow> gerr + (goError option \<times> ConfigVars \<times> strmap list) \<times> 'w" where
  "Config_ListConfigWithContext = proxyCall Config_ListConfig_case"

definition Config_ListConfigOneWayWithContext :: "'w invoker \<Rightarrow> ConfigVars \<Rightarrow> strmap list \<Rightarrow> 'w
    \<Rightarrow> gerr + (goError option \<times> ConfigVars \<times> strmap list) \<times> 'w" where
  "Config_ListConfigOneWayWithContext = proxyOneWay Config_ListConfig_case"

definition Config_ListConfig :: "(Ctx \<Rightarrow> 'w invoker) \<Rightarrow> ConfigVars \<Rightarrow> strmap list \<Rightarrow> 'w
    \<Rightarrow> gerr + (goError option \<times> ConfigVars \<times> strmap list) \<times> 'w" where
  "Config_ListConfig invoke = Config_ListConfigWithContext (invoke bare_ctx)"

definition Config_loadConfig :: "ConfigVars rpcMethod" where
  "Config_loadConfig =
     \<lparr>mdName = ascii ''loadConfig'', mdGo = ascii ''LoadConfig'',
      mdIn = [param ''app'' 1 WriteString ReadString cvApp cvApp_update,
        param ''server'' 2 WriteString ReadString cvServer cvServer_update,
        param ''filename'' 3 WriteString ReadString cvFilename cvFilename_update],
      mdOut = [param ''config'' 4 WriteString ReadString cvConfig cvConfig_update],
      mdRet = Some (param ''tars_ret'' 0 WriteInt32 ReadInt32 cvRet cvRet_update)\<rparr>"

definition Config_LoadConfigWithContext :: "'w invoker \<Rightarrow> ConfigVars \<Rightarrow> strmap list \<Rightarrow> 'w
    \<Rightarrow> gerr + (goError option \<times> ConfigVars \<times> strmap list) \<times> 'w" where
  "Config_LoadConfigWithContext = proxyCall Config_loadConfig"

definition Config_LoadConfigOneWayWithContext :: "'w invoker \<Rightarrow> ConfigVars \<Rightarrow> strmap list \<Rightarrow> 'w
    \<Rightarrow> gerr + (goError option \<times> ConfigVars \<times> strmap list) \<times> 'w" where
  "Config_LoadConfigOneWayWithContext = proxyOneWay Config_loadConfig"

definition Config_LoadConfig :: "(Ctx \<Rightarrow> 'w invoker) \<Rightarrow> ConfigVars \<Rightarrow> strmap list \<Rightarrow> 'w
    \<Rightarrow> gerr + (goError option \<times> ConfigVars \<times> strmap list) \<times> 'w" where
  "Config_LoadConfig invoke = Config_LoadConfigWithContext (invoke bare_ctx)"

definition Config_loadConfigByHost :: "ConfigVars rpcMethod" where
  "Config_loadConfigByHost =
     \<lparr>mdName = ascii ''loadConfigByHost'', mdGo = ascii ''LoadConfigByHost'',
      mdIn = [param ''appServerName'' 1 WriteString ReadString cvAppServerName cvAppServerName_update,
        param ''filename'' 2 WriteString ReadString cvFilename cvFilename_update,
        param ''host'' 3 WriteString ReadString cvHost cvHost_update],
      mdOut = [param ''config'' 4 WriteString ReadString cvConfig cvConfig_update],
      mdRet = Some (param ''tars_ret'' 0 WriteInt32 ReadInt32 cvRet cvRet_update)\<rparr>"

definition Config_LoadConfigByHostWithContext :: "'w invoker \<Rightarrow> ConfigVars \<Rightarrow> strmap list \<Rightarrow> 'w
    \<Rightarrow> gerr + (goError option \<times> ConfigVars \<times> strmap list) \<times> 'w" where
  "Config_LoadConfigByHostWithContext = proxyCall Config_loadConfigByHost"

definition Config_LoadConfigByHostOneWayWithContext :: "'w invoker \<Rightarrow> ConfigVars \<Rightarrow> strmap list \<Rightarrow> 'w
    \<Rightarrow> gerr + (goError option \<times> ConfigVars \<times> strmap list) \<times> 'w" where
  "Config_LoadConfigByHostOneWayWithContext = proxyOneWay Config_loadConfigByHost"

definition Config_LoadConfigByHost :: "(Ctx \<Rightarrow> 'w invoker) \<Rightarrow> ConfigVars \<Rightarrow> strmap list \<Rightarrow> 'w
    \<Rightarrow> gerr + (goError option \<times> ConfigVars \<times> strmap list) \<times> 'w" where
  "Config_LoadConfigByHost invoke = Config_LoadConfigByHostWithContext (invoke bare_ctx)"

definition Config_checkConfig :: "ConfigVars rpcMethod" where
  "Config_checkConfig =
     \<lparr>mdName = ascii ''checkConfig'', mdGo = ascii ''CheckConfig'',
      mdIn = [param ''appServerName'' 1 WriteString ReadString cvAppServerName cvAppServerName_update,
        param ''filename'' 2 WriteString ReadString cvFilename cvFilename_update,
        param ''host'' 3 WriteString ReadString cvHost cvHost_update],
      mdOut = [param ''result'' 4 WriteString ReadString cvResult cvResult_update],
      mdRet = Some (param ''tars_ret'' 0 WriteInt32 ReadInt32 cvRet cvRet_update)\<rparr>"

definition Config_CheckConfigWithContext :: "'w invoker \<Rightarrow> ConfigVars \<Rightarrow> strmap list \<Rightarrow> 'w
    \<Rightarrow> gerr + (goError option \<times> ConfigVars \<times> strmap list) \<times> 'w" where
  "Config_CheckConfigWithContext = proxyCall Config_checkConfig"

definition Config_CheckConfigOneWayWithContext :: "'w invoker \<Rightarrow> ConfigVars \<Rightarrow> strmap list \<Rightarrow> 'w
    \<Rightarrow> gerr + (goError option \<times> ConfigVars \<times> strmap list) \<times> 'w" where
  "Config_CheckConfigOneWayWithContext = proxyOneWay Config_checkConfig"

definition Config_CheckConfig :: "(Ctx \<Rightarrow> 'w invoker) \<Rightarrow> ConfigVars \<Rightarrow> strmap list \<Rightarrow> 'w
    \<Rightarrow> gerr + (goError option \<times> ConfigVars \<times> strmap list) \<times> 'w" where
  "Config_CheckConfig invoke = Config_CheckConfigWithContext (invoke bare_ctx)"

definition Config_ListConfigByInfo_case :: "ConfigVars rpcMethod" where
  "Config_ListConfigByInfo_case =
     \<lparr>mdName = ascii ''ListConfigByInfo'', mdGo = ascii ''ListConfigByInfo'',
      mdIn = [structParam ''configInfo'' 1 ConfigInfo_WriteBlock ConfigInfo_ReadBlock ConfigInfo_ResetDefault cvConfigInfo cvConfigInfo_update],
      mdOut = [param ''vf'' 2 (WriteVec WriteString) (ReadVec ReadString []) cvVf cvVf_update],
      mdRet = Some (param ''tars_ret'' 0 WriteInt32 ReadInt32 cvRet cvRet_update)\<rparr>"

definition Config_ListConfigByInfoWithContext :: "'w invoker \<Rightarrow> ConfigVars \<Rightarrow> strmap list \<Rightarrow> 'w
    \<Rightarrow> gerr + (goError option \<times> ConfigVars \<times> strmap list) \<times> 'w" where
  "Config_ListConfigByInfoWithContext = proxyCall Config_ListConfigByInfo_case"

definition Config_ListConfigByInfoOneWayWithContext :: "'w invoker \<Rightarrow> ConfigVars \<Rightarrow> strmap list \<Rightarrow> 'w
    \<Rightarrow> gerr + (goError option \<times> ConfigVars \<times> strmap list) \<times> 'w" where
  "Config_ListConfigByInfoOneWayWithContext = proxyOneWay Config_ListConfigByInfo_case"

definition Config_ListConfigByInfo :: "(Ctx \<Rightarrow> 'w invoker) \<Rightarrow> ConfigVars \<Rightarrow> strmap list \<Rightarrow> 'w
    \<Rightarrow> gerr + (goError option \<times> ConfigVars \<times> strmap list) \<times> 'w" where
  "Config_ListConfigByInfo invoke = Config_ListConfigByInfoWithContext (invoke bare_ctx)"

definition Config_loadConfigByInfo :: "ConfigVars rpcMethod" where
  "Config_loadConfigByInfo =
     \<lparr>mdName = ascii ''loadConfigByInfo'', mdGo = ascii ''LoadConfigByInfo'',
      mdIn = [structParam ''configInfo'' 1 ConfigInfo_WriteBlock ConfigInfo_ReadBlock ConfigInfo_ResetDefault cvConfigInfo cvConfigInfo_update],
      mdOut = [param ''config'' 2 WriteString ReadString cvConfig cvConfig_update],
      mdRet = Some (param ''tars_ret'' 0 WriteInt32 ReadInt32 cvRet cvRet_update)\<rparr>"

definition Config_LoadConfigByInfoWithContext :: "'w invoker \<Rightarrow> ConfigVars \<Rightarrow> strmap list \<Rightarrow> 'w
    \<Rightarrow> gerr + (goError option \<times> ConfigVars \<times> strmap list) \<times> 'w" where
  "Config_LoadConfigByInfoWithContext = proxyCall Config_loadConfigByInfo"

definition Config_LoadConfigByInfoOneWayWithContext :: "'w invoker \<Rightarrow> ConfigVars \<Rightarrow> strmap list \<Rightarrow> 'w
    \<Rightarrow> gerr + (goError option \<times> ConfigVars \<times> strmap list) \<times> 'w" where
  "Config_LoadConfigByInfoOneWayWithContext = proxyOneWay Config_loadConfigByInfo"

definition Config_LoadConfigByInfo :: "(Ctx \<Rightarrow> 'w invoker) \<Rightarrow> ConfigVars \<Rightarrow> strmap list \<Rightarrow> 'w
    \<Rightarrow> gerr + (goError option \<times> ConfigVars \<times> strmap list) \<times> 'w" where
  "Config_LoadConfigByInfo invoke = Config_LoadConfigByInfoWithContext (invoke bare_ctx)"

definition Config_checkConfigByInfo :: "ConfigVars rpcMethod" where
  "Config_checkConfigByInfo =
     \<lparr>mdName = ascii ''checkConfigByInfo'', mdGo = ascii ''CheckConfigByInfo'',
      mdIn = [structParam ''configInfo'' 1 ConfigInfo_WriteBlock ConfigInfo_ReadBlock ConfigInfo_ResetDefault cvConfigInfo cvConfigInfo_update],
      mdOut = [param ''result'' 2 WriteString ReadString cvResult cvResult_update],
      mdRet = Some (param ''tars_ret'' 0 WriteInt32 ReadInt32 cvRet cvRet_update)\<rparr>"

definition Config_CheckConfigByInfoWithContext :: "'w invoker \<Rightarrow> ConfigVars \<Rightarrow> strmap list \<Rightarrow> 'w
    \<Rightarrow> gerr + (goError option \<times> ConfigVars \<times> strmap list) \<times> 'w" where
  "Config_CheckConfigByInfoWithContext = proxyCall Config_checkConfigByInfo"

definition Config_CheckConfigByInfoOneWayWithContext :: "'w invoker \<Rightarrow> ConfigVars \<Rightarrow> strmap list \<Rightarrow> 'w
    \<Rightarrow> gerr + (goError option \<times> ConfigVars \<times> strmap list) \<times> 'w" where
  "Config_CheckConfigByInfoOneWayWithContext = proxyOneWay Config_checkConfigByInfo"

definition Config_CheckConfigByInfo :: "(Ctx \<Rightarrow> 'w invoker) \<Rightarrow> ConfigVars \<Rightarrow> strmap list \<Rightarrow> 'w
    \<Rightarrow> gerr + (goError option \<times> ConfigVars \<times> strmap list) \<times> 'w" where
  "Config_CheckConfigByInfo invoke = Config_CheckConfigByInfoWithContext (invoke bare_ctx)"

definition Config_ListAllConfigByInfo_case :: "ConfigVars rpcMethod" where
  "Config_ListAllConfigByInfo_case =
     \<lparr>mdName = ascii ''ListAllConfigByInfo'', mdGo = ascii ''ListAllConfigByInfo'',
      mdIn = [structParam ''configInfo'' 1 GetConfigListInfo_WriteBlock GetConfigListInfo_ReadBlock GetConfigListInfo_ResetDefault cvConfigInfoGetConfigListInfo cvConfigInfoGetConfigListInfo_update],
      mdOut = [param ''vf'' 2 (WriteVec WriteString) (ReadVec ReadString []) cvVf cvVf_update],
      mdRet = Some (param ''tars_ret'' 0 WriteInt32 ReadInt32 cvRet cvRet_update)\<rparr>"

definition Config_ListAllConfigByInfoWithContext :: "'w invoker \<Rightarrow> ConfigVars \<Rightarrow> strmap list \<Rightarrow> 'w
    \<Rightarrow> gerr + (goError option \<times> ConfigVars \<times> strmap list) \<times> 'w" where
  "Config_ListAllConfigByInfoWithContext = proxyCall Config_ListAllConfigByInfo_case"

definition Config_ListAllConfigByInfoOneWayWithContext :: "'w invoker \<Rightarrow> ConfigVars \<Rightarrow> strmap list \<Rightarrow> 'w
    \<Rightarrow> gerr + (goError option \<times> ConfigVars \<times> strmap list) \<times> 'w" where
  "Config_ListAllConfigByInfoOneWayWithContext = proxyOneWay Config_ListAllConfigByInfo_case"

definition Config_ListAllConfigByInfo :: "(Ctx \<Rightarrow> 'w invoker) \<Rightarrow> ConfigVars \<Rightarrow> strmap list \<Rightarrow> 'w
    \<Rightarrow> gerr + (goError option \<times> ConfigVars \<times> strmap list) \<times> 'w" where
  "Config_ListAllConfigByInfo invoke = Config_ListAllConfigByInfoWithContext (invoke bare_ctx)"

definition Config_methods :: "ConfigVars rpcMethod list" where
  "Config_methods =
     [Config_ListConfig_case, Config_loadConfig, Config_loadConfigByHost, Config_checkConfig,
      Config_ListConfigByInfo_case, Config_loadConfigByInfo, Config_checkConfigByInfo,
      Config_ListAllConfigByInfo_case]"

definition Config_Dispatch :: "('j, ConfigVars) json \<Rightarrow> ((ConfigVars, 'w) servantImp, 'w) Dispatch" where
  "Config_Dispatch js = dispatchService js zero_ConfigVars Config_methods"

definition okConfigVars :: "ConfigVars \<Rightarrow> bool" where
  "okConfigVars v \<longleftrightarrow> list_all (\<lambda>s. length s < 2 ^ 32)
       [cvApp v, cvServer v, cvFilename v, cvConfig v, cvAppServerName v, cvHost v, cvResult v]
     \<and> okVec (\<lambda>s. length s < 2 ^ 32) (cvVf v)
     \<and> okConfigInfo (cvConfigInfo v)
     \<and> okGetConfigListInfo (cvConfigInfoGetConfigListInfo v)"

lemmas Config_defs = Config_ListConfig_case_def Config_loadConfig_def Config_loadConfigByHost_def
  Config_checkConfig_def Config_ListConfigByInfo_case_def Config_loadConfigByInfo_def
  Config_checkConfigByInfo_def Config_ListAllConfigByInfo_case_def

interpretation sConfig: rpc_service zero_ConfigVars Config_methods okConfigVars
proof unfold_locales
  show "codec_param okConfigVars p" if "m \<in> set Config_methods" and "p \<in> set (mdIn m) \<union> set (mdResults m)" for m p
    using that unfolding Config_methods_def
    by (auto simp: Config_defs mdResults_def okConfigVars_def intro!: cString.codec_value vString.codec_value cInt32.codec_value value_codec.codec_value [OF bConfigInfo.value_codec_axioms] value_codec.codec_value [OF bGetConfigListInfo.value_codec_axioms])
qed (auto simp: Config_methods_def Config_defs mdResults_def param_def structParam_def ascii_def)

section \<open>Logs\<close>

record LogVars =
  lvApp :: gostring
  lvServer :: gostring
  lvFile :: gostring
  lvFormat :: gostring
  lvBuffer :: "gostring list"
  lvInfo :: LogInfo

definition zero_LogVars :: LogVars where
  "zero_LogVars =
     \<lparr>lvApp = [], lvServer = [], lvFile = [], lvFormat = [], lvBuffer = [], lvInfo = zero_LogInfo\<rparr>"

definition Log_logger :: "LogVars rpcMethod" where
  "Log_logger =
     \<lparr>mdName = ascii ''logger'', mdGo = ascii ''Logger'',
      mdIn = [param ''app'' 1 WriteString ReadString lvApp lvApp_update,
        param ''server'' 2 WriteString ReadString lvServer lvServer_update,
        param ''file'' 3 WriteString ReadString lvFile lvFile_update,
        param ''format'' 4 WriteString ReadString lvFormat lvFormat_update,
        param ''buffer'' 5 (WriteVec WriteString) (ReadVec ReadString []) lvBuffer lvBuffer_update],
      mdOut = [],
      mdRet = None\<rparr>"

definition Log_LoggerWithContext :: "'w invoker \<Rightarrow> LogVars \<Rightarrow> strmap list \<Rightarrow> 'w
    \<Rightarrow> gerr + (goError option \<times> LogVars \<times> strmap list) \<times> 'w" where
  "Log_LoggerWithContext = proxyCall Log_logger"

definition Log_LoggerOneWayWithContext :: "'w invoker \<Rightarrow> LogVars \<Rightarrow> strmap list \<Rightarrow> 'w
    \<Rightarrow> gerr + (goError option \<times> LogVars \<times> strmap list) \<times> 'w" where
  "Log_LoggerOneWayWithContext = proxyOneWay Log_logger"

definition Log_Logger :: "(Ctx \<Rightarrow> 'w invoker) \<Rightarrow> LogVars \<Rightarrow> strmap list \<Rightarrow> 'w
    \<Rightarrow> gerr + (goError option \<times> LogVars \<times> strmap list) \<times> 'w" where
  "Log_Logger invoke = Log_LoggerWithContext (invoke bare_ctx)"

definition Log_loggerbyInfo :: "LogVars rpcMethod" where
  "Log_loggerbyInfo =
     \<lparr>mdName = ascii ''loggerbyInfo'', mdGo = ascii ''LoggerbyInfo'',
      mdIn = [structParam ''info'' 1 LogInfo_WriteBlock LogInfo_ReadBlock LogInfo_ResetDefault lvInfo lvInfo_update,
        param ''buffer'' 2 (WriteVec WriteString) (ReadVec ReadString []) lvBuffer lvBuffer_update],
      mdOut = [],
      mdRet = None\<rparr>"

definition Log_LoggerbyInfoWithContext :: "'w invoker \<Rightarrow> LogVars \<Rightarrow> strmap list \<Rightarrow> 'w
    \<Rightarrow> gerr + (goError option \<times> LogVars \<times> strmap list) \<times> 'w" where
  "Log_LoggerbyInfoWithContext = proxyCall Log_loggerbyInfo"

definition Log_LoggerbyInfoOneWayWithContext :: "'w invoker \<Rightarrow> LogVars \<Rightarrow> strmap list \<Rightarrow> 'w
    \<Rightarrow> gerr + (goError option \<times> LogVars \<times> strmap list) \<times> 'w" where
  "Log_LoggerbyInfoOneWayWithContext = proxyOneWay Log_loggerbyInfo"

definition Log_LoggerbyInfo :: "(Ctx \<Rightarrow> 'w invoker) \<Rightarrow> LogVars \<Rightarrow> strmap list \<Rightarrow> 'w
    \<Rightarrow> gerr + (goError option \<times> LogVars \<times> strmap list) \<times> 'w" where
  "Log_LoggerbyInfo invoke = Log_LoggerbyInfoWithContext (invoke bare_ctx)"

definition Log_methods :: "LogVars rpcMethod list" where
  "Log_methods =
     [Log_logger, Log_loggerbyInfo]"

definition Log_Dispatch :: "('j, LogVars) json \<Rightarrow> ((LogVars, 'w) servantImp, 'w) Dispatch" where
  "Log_Dispatch js = dispatchService js zero_LogVars Log_methods"

definition okLogVars :: "LogVars \<Rightarrow> bool" where
  "okLogVars v \<longleftrightarrow> list_all (\<lambda>s. length s < 2 ^ 32)
       [lvApp v, lvServer v, lvFile v, lvFormat v]
     \<and> okVec (\<lambda>s. length s < 2 ^ 32) (lvBuffer v)
     \<and> okLogInfo (lvInfo v)"

lemmas Log_defs = Log_logger_def Log_loggerbyInfo_def

interpretation sLog: rpc_service zero_LogVars Log_methods okLogVars
proof unfold_locales
  show "codec_param okLogVars p" if "m \<in> set Log_methods" and "p \<in> set (mdIn m) \<union> set (mdResults m)" for m p
    using that unfolding Log_methods_def
    by (auto simp: Log_defs mdResults_def okLogVars_def intro!: cString.codec_value vString.codec_value value_codec.codec_value [OF bLogInfo.value_codec_axioms])
qed (auto simp: Log_methods_def Log_defs mdResults_def param_def structParam_def ascii_def)

section \<open>Notifications\<close>

record NotifyVars =
  nvSServerName :: gostring
  nvSThreadId :: gostring
  nvSMessage :: gostring
  nvLevel :: int32
  nvStKey :: NotifyKey
  nvStInfo :: NotifyInfo
  nvRet :: int32
  nvInfo :: ReportInfo

definition zero_NotifyVars :: NotifyVars where
  "zero_NotifyVars =
     \<lparr>nvSServerName = [], nvSThreadId = [], nvSMessage = [], nvLevel = 0, nvStKey = zero_NotifyKey,
     nvStInfo = zero_NotifyInfo, nvRet = 0, nvInfo = zero_ReportInfo\<rparr>"

definition Notify_reportServer :: "NotifyVars rpcMethod" where
  "Notify_reportServer =
     \<lparr>mdName = ascii ''reportServer'', mdGo = ascii ''ReportServer'',
      mdIn = [param ''sServerName'' 1 WriteString ReadString nvSServerName nvSServerName_update,
        param ''sThreadId'' 2 WriteString ReadString nvSThreadId nvSThreadId_update,
        param ''sMessage'' 3 WriteString ReadString nvSMessage nvSMessage_update],
      mdOut = [],
      mdRet = None\<rparr>"

definition Notify_ReportServerWithContext :: "'w invoker \<Rightarrow> NotifyVars \<Rightarrow> strmap list \<Rightarrow> 'w
    \<Rightarrow> gerr + (goError option \<times> NotifyVars \<times> strmap list) \<times> 'w" where
  "Notify_ReportServerWithContext = proxyCall Notify_reportServer"

definition Notify_ReportServerOneWayWithContext :: "'w invoker \<Rightarrow> NotifyVars \<Rightarrow> strmap list \<Rightarrow> 'w
    \<Rightarrow> gerr + (goError option \<times> NotifyVars \<times> strmap list) \<times> 'w" where
  "Notify_ReportServerOneWayWithContext = proxyOneWay Notify_reportServer"

definition Notify_ReportServer :: "(Ctx \<Rightarrow> 'w invoker) \<Rightarrow> NotifyVars \<Rightarrow> strmap list \<Rightarrow> 'w
    \<Rightarrow> gerr + (goError option \<times> NotifyVars \<times> strmap list) \<times> 'w" where
  "Notify_ReportServer invoke = Notify_ReportServerWithContext (invoke bare_ctx)"

definition Notify_notifyServer :: "NotifyVars rpcMethod" where
  "Notify_notifyServer =
     \<lparr>mdName = ascii ''notifyServer'', mdGo = ascii ''NotifyServer'',
      mdIn = [param ''sServerName'' 1 WriteString ReadString nvSServerName nvSServerName_update,
        param ''level'' 2 WriteInt32 ReadInt32 nvLevel nvLevel_update,
        param ''sMessage'' 3 WriteString ReadString nvSMessage nvSMessage_update],
      mdOut = [],
      mdRet = None\<rparr>"

definition Notify_NotifyServerWithContext :: "'w invoker \<Rightarrow> NotifyVars \<Rightarrow> strmap list \<Rightarrow> 'w
    \<Rightarrow> gerr + (goError option \<times> NotifyVars \<times> strmap list) \<times> 'w" where
  "Notify_NotifyServerWithContext = proxyCall Notify_notifyServer"

definition Notify_NotifyServerOneWayWithContext :: "'w invoker \<Rightarrow> NotifyVars \<Rightarrow> strmap list \<Rightarrow> 'w
    \<Rightarrow> gerr + (goError option \<times> NotifyVars \<times> strmap list) \<times> 'w" where
  "Notify_NotifyServerOneWayWithContext = proxyOneWay Notify_notifyServer"

definition Notify_NotifyServer :: "(Ctx \<Rightarrow> 'w invoker) \<Rightarrow> NotifyVars \<Rightarrow> strmap list \<Rightarrow> 'w
    \<Rightarrow> gerr + (goError option \<times> NotifyVars \<times> strmap list) \<times> 'w" where
  "Notify_NotifyServer invoke = Notify_NotifyServerWithContext (invoke bare_ctx)"

definition Notify_getNotifyInfo :: "NotifyVars rpcMethod" where
  "Notify_getNotifyInfo =
     \<lparr>mdName = ascii ''getNotifyInfo'', mdGo = ascii ''GetNotifyInfo'',
      mdIn = [structParam ''stKey'' 1 NotifyKey_WriteBlock NotifyKey_ReadBlock NotifyKey_ResetDefault nvStKey nvStKey_update],
      mdOut = [structParam ''stInfo'' 2 NotifyInfo_WriteBlock NotifyInfo_ReadBlock NotifyInfo_ResetDefault nvStInfo nvStInfo_update],
      mdRet = Some (param ''tars_ret'' 0 WriteInt32 ReadInt32 nvRet nvRet_update)\<rparr>"

definition Notify_GetNotifyInfoWithContext :: "'w invoker \<Rightarrow> NotifyVars \<Rightarrow> strmap list \<Rightarrow> 'w
    \<Rightarrow> gerr + (goError option \<times> NotifyVars \<times> strmap list) \<times> 'w" where
  "Notify_GetNotifyInfoWithContext = proxyCall Notify_getNotifyInfo"

definition Notify_GetNotifyInfoOneWayWithContext :: "'w invoker \<Rightarrow> NotifyVars \<Rightarrow> strmap list \<Rightarrow> 'w
    \<Rightarrow> gerr + (goError option \<times> NotifyVars \<times> strmap list) \<times> 'w" where
  "Notify_GetNotifyInfoOneWayWithContext = proxyOneWay Notify_getNotifyInfo"

definition Notify_GetNotifyInfo :: "(Ctx \<Rightarrow> 'w invoker) \<Rightarrow> NotifyVars \<Rightarrow> strmap list \<Rightarrow> 'w
    \<Rightarrow> gerr + (goError option \<times> NotifyVars \<times> strmap list) \<times> 'w" where
  "Notify_GetNotifyInfo invoke = Notify_GetNotifyInfoWithContext (invoke bare_ctx)"

definition Notify_reportNotifyInfo :: "NotifyVars rpcMethod" where
  "Notify_reportNotifyInfo =
     \<lparr>mdName = ascii ''reportNotifyInfo'', mdGo = ascii ''ReportNotifyInfo'',
      mdIn = [structParam ''info'' 1 ReportInfo_WriteBlock ReportInfo_ReadBlock ReportInfo_ResetDefault nvInfo nvInfo_update],
      mdOut = [],
      mdRet = None\<rparr>"

definition Notify_ReportNotifyInfoWithContext :: "'w invoker \<Rightarrow> NotifyVars \<Rightarrow> strmap list \<Rightarrow> 'w
    \<Rightarrow> gerr + (goError option \<times> NotifyVars \<times> strmap list) \<times> 'w" where
  "Notify_ReportNotifyInfoWithContext = proxyCall Notify_reportNotifyInfo"

definition Notify_ReportNotifyInfoOneWayWithContext :: "'w invoker \<Rightarrow> NotifyVars \<Rightarrow> strmap list \<Rightarrow> 'w
    \<Rightarrow> gerr + (goError option \<times> NotifyVars \<times> strmap list) \<times> 'w" where
  "Notify_ReportNotifyInfoOneWayWithContext = proxyOneWay Notify_reportNotifyInfo"

definition Notify_ReportNotifyInfo :: "(Ctx \<Rightarrow> 'w invoker) \<Rightarrow> NotifyVars \<Rightarrow> strmap list \<Rightarrow> 'w
    \<Rightarrow> gerr + (goError option \<times> NotifyVars \<times> strmap list) \<times> 'w" where
  "Notify_ReportNotifyInfo invoke = Notify_ReportNotifyInfoWithContext (invoke bare_ctx)"

definition Notify_methods :: "NotifyVars rpcMethod list" where
  "Notify_methods =
     [Notify_reportServer, Notify_notifyServer, Notify_getNotifyInfo, Notify_reportNotifyInfo]"

definition Notify_Dispatch :: "('j, NotifyVars) json \<Rightarrow> ((NotifyVars, 'w) servantImp, 'w) Dispatch" where
  "Notify_Dispatch js = dispatchService js zero_NotifyVars Notify_methods"

definition okNotifyVars :: "NotifyVars \<Rightarrow> bool" where
  "okNotifyVars v \<longleftrightarrow> list_all (\<lambda>s. length s < 2 ^ 32)
       [nvSServerName v, nvSThreadId v, nvSMessage v]
     \<and> okNotifyKey (nvStKey v)
     \<and> okNotifyInfo (nvStInfo v)
     \<and> okReportInfo (nvInfo v)"

lemmas Notify_defs = Notify_reportServer_def Notify_notifyServer_def Notify_getNotifyInfo_def
  Notify_reportNotifyInfo_def

interpretation sNotify: rpc_service zero_NotifyVars Notify_methods okNotifyVars
proof unfold_locales
  show "codec_param okNotifyVars p" if "m \<in> set Notify_methods" and "p \<in> set (mdIn m) \<union> set (mdResults m)" for m p
    using that unfolding Notify_methods_def
    by (auto simp: Notify_defs mdResults_def okNotifyVars_def intro!: cString.codec_value cInt32.codec_value value_codec.codec_value [OF bNotifyKey.value_codec_axioms] value_codec.codec_value [OF bNotifyInfo.value_codec_axioms] value_codec.codec_value [OF bReportInfo.value_codec_axioms])
qed (auto simp: Notify_methods_def Notify_defs mdResults_def param_def structParam_def ascii_def)

section \<open>Statistics\<close>

record StatFVars =
  svMsg :: "(StatMicMsgHead \<times> StatMicMsgBody) list"
  svBFromClient :: bool
  svRet :: int32
  svMsgStatSampleMsg :: "StatSampleMsg list"

definition zero_StatFVars :: StatFVars where
  "zero_StatFVars =
     \<lparr>svMsg = [], svBFromClient = False, svRet = 0, svMsgStatSampleMsg = []\<rparr>"

definition StatF_reportMicMsg :: "StatFVars rpcMethod" where
  "StatF_reportMicMsg =
     \<lparr>mdName = ascii ''reportMicMsg'', mdGo = ascii ''ReportMicMsg'',
      mdIn = [param ''msg'' 1 (WriteMap StatMicMsgHead_WriteBlock StatMicMsgBody_WriteBlock) (ReadMap StatMicMsgHead_ReadBlock zero_StatMicMsgHead StatMicMsgBody_ReadBlock zero_StatMicMsgBody) svMsg svMsg_update,
        param ''bFromClient'' 2 WriteBool ReadBool svBFromClient svBFromClient_update],
      mdOut = [],
      mdRet = Some (param ''tars_ret'' 0 WriteInt32 ReadInt32 svRet svRet_update)\<rparr>"

definition StatF_ReportMicMsgWithContext :: "'w invoker \<Rightarrow> StatFVars \<Rightarrow> strmap list \<Rightarrow> 'w
    \<Rightarrow> gerr + (goError option \<times> StatFVars \<times> strmap list) \<times> 'w" where
  "StatF_ReportMicMsgWithContext = proxyCall StatF_reportMicMsg"

definition StatF_ReportMicMsgOneWayWithContext :: "'w invoker \<Rightarrow> StatFVars \<Rightarrow> strmap list \<Rightarrow> 'w
    \<Rightarrow> gerr + (goError option \<times> StatFVars \<times> strmap list) \<times> 'w" where
  "StatF_ReportMicMsgOneWayWithContext = proxyOneWay StatF_reportMicMsg"

definition StatF_ReportMicMsg :: "(Ctx \<Rightarrow> 'w invoker) \<Rightarrow> StatFVars \<Rightarrow> strmap list \<Rightarrow> 'w
    \<Rightarrow> gerr + (goError option \<times> StatFVars \<times> strmap list) \<times> 'w" where
  "StatF_ReportMicMsg invoke = StatF_ReportMicMsgWithContext (invoke bare_ctx)"

definition StatF_reportSampleMsg :: "StatFVars rpcMethod" where
  "StatF_reportSampleMsg =
     \<lparr>mdName = ascii ''reportSampleMsg'', mdGo = ascii ''ReportSampleMsg'',
      mdIn = [param ''msg'' 1 (WriteVec StatSampleMsg_WriteBlock) (ReadVec StatSampleMsg_ReadBlock zero_StatSampleMsg) svMsgStatSampleMsg svMsgStatSampleMsg_update],
      mdOut = [],
      mdRet = Some (param ''tars_ret'' 0 WriteInt32 ReadInt32 svRet svRet_update)\<rparr>"

definition StatF_ReportSampleMsgWithContext :: "'w invoker \<Rightarrow> StatFVars \<Rightarrow> strmap list \<Rightarrow> 'w
    \<Rightarrow> gerr + (goError option \<times> StatFVars \<times> strmap list) \<times> 'w" where
  "StatF_ReportSampleMsgWithContext = proxyCall StatF_reportSampleMsg"

definition StatF_ReportSampleMsgOneWayWithContext :: "'w invoker \<Rightarrow> StatFVars \<Rightarrow> strmap list \<Rightarrow> 'w
    \<Rightarrow> gerr + (goError option \<times> StatFVars \<times> strmap list) \<times> 'w" where
  "StatF_ReportSampleMsgOneWayWithContext = proxyOneWay StatF_reportSampleMsg"

definition StatF_ReportSampleMsg :: "(Ctx \<Rightarrow> 'w invoker) \<Rightarrow> StatFVars \<Rightarrow> strmap list \<Rightarrow> 'w
    \<Rightarrow> gerr + (goError option \<times> StatFVars \<times> strmap list) \<times> 'w" where
  "StatF_ReportSampleMsg invoke = StatF_ReportSampleMsgWithContext (invoke bare_ctx)"

definition StatF_methods :: "StatFVars rpcMethod list" where
  "StatF_methods =
     [StatF_reportMicMsg, StatF_reportSampleMsg]"

definition StatF_Dispatch :: "('j, StatFVars) json \<Rightarrow> ((StatFVars, 'w) servantImp, 'w) Dispatch" where
  "StatF_Dispatch js = dispatchService js zero_StatFVars StatF_methods"

definition okStatFVars :: "StatFVars \<Rightarrow> bool" where
  "okStatFVars v \<longleftrightarrow> okMap okStatMicMsgHead okStatMicMsgBody (svMsg v)
     \<and> okVec okStatSampleMsg (svMsgStatSampleMsg v)"

lemmas StatF_defs = StatF_reportMicMsg_def StatF_reportSampleMsg_def

interpretation sStatF: rpc_service zero_StatFVars StatF_methods okStatFVars
proof unfold_locales
  show "codec_param okStatFVars p" if "m \<in> set StatF_methods" and "p \<in> set (mdIn m) \<union> set (mdResults m)" for m p
    using that unfolding StatF_methods_def
    by (auto simp: StatF_defs mdResults_def okStatFVars_def intro!: mStatMicMsgHead.codec_value cBool.codec_value cInt32.codec_value value_codec.codec_value [OF vStatSampleMsg.value_codec_axioms])
qed (auto simp: StatF_methods_def StatF_defs mdResults_def param_def structParam_def ascii_def)

section \<open>Properties\<close>

record PropertyFVars =
  pvStatmsg :: "(StatPropMsgHead \<times> StatPropMsgBody) list"
  pvRet :: int32

definition zero_PropertyFVars :: PropertyFVars where
  "zero_PropertyFVars =
     \<lparr>pvStatmsg = [], pvRet = 0\<rparr>"

definition PropertyF_reportPropMsg :: "PropertyFVars rpcMethod" where
  "PropertyF_reportPropMsg =
     \<lparr>mdName = ascii ''reportPropMsg'', mdGo = ascii ''ReportPropMsg'',
      mdIn = [param ''statmsg'' 1 (WriteMap StatPropMsgHead_WriteBlock StatPropMsgBody_WriteBlock) (ReadMap StatPropMsgHead_ReadBlock zero_StatPropMsgHead StatPropMsgBody_ReadBlock zero_StatPropMsgBody) pvStatmsg pvStatmsg_update],
      mdOut = [],
      mdRet = Some (param ''tars_ret'' 0 WriteInt32 ReadInt32 pvRet pvRet_update)\<rparr>"

definition PropertyF_ReportPropMsgWithContext :: "'w invoker \<Rightarrow> PropertyFVars \<Rightarrow> strmap list \<Rightarrow> 'w
    \<Rightarrow> gerr + (goError option \<times> PropertyFVars \<times> strmap list) \<times> 'w" where
  "PropertyF_ReportPropMsgWithContext = proxyCall PropertyF_reportPropMsg"

definition PropertyF_ReportPropMsgOneWayWithContext :: "'w invoker \<Rightarrow> PropertyFVars \<Rightarrow> strmap list \<Rightarrow> 'w
    \<Rightarrow> gerr + (goError option \<times> PropertyFVars \<times> strmap list) \<times> 'w" where
  "PropertyF_ReportPropMsgOneWayWithContext = proxyOneWay PropertyF_reportPropMsg"

definition PropertyF_ReportPropMsg :: "(Ctx \<Rightarrow> 'w invoker) \<Rightarrow> PropertyFVars \<Rightarrow> strmap list \<Rightarrow> 'w
    \<Rightarrow> gerr + (goError option \<times> PropertyFVars \<times> strmap list) \<times> 'w" where
  "PropertyF_ReportPropMsg invoke = PropertyF_ReportPropMsgWithContext (invoke bare_ctx)"

definition PropertyF_methods :: "PropertyFVars rpcMethod list" where
  "PropertyF_methods =
     [PropertyF_reportPropMsg]"

definition PropertyF_Dispatch :: "('j, PropertyFVars) json \<Rightarrow> ((PropertyFVars, 'w) servantImp, 'w) Dispatch" where
  "PropertyF_Dispatch js = dispatchService js zero_PropertyFVars PropertyF_methods"

definition okPropertyFVars :: "PropertyFVars \<Rightarrow> bool" where
  "okPropertyFVars v \<longleftrightarrow> okMap okStatPropMsgHead okStatPropMsgBody (pvStatmsg v)"

lemmas PropertyF_defs = PropertyF_reportPropMsg_def

interpretation sPropertyF: rpc_service zero_PropertyFVars PropertyF_methods okPropertyFVars
proof unfold_locales
  show "codec_param okPropertyFVars p" if "m \<in> set PropertyF_methods" and "p \<in> set (mdIn m) \<union> set (mdResults m)" for m p
    using that unfolding PropertyF_methods_def
    by (auto simp: PropertyF_defs mdResults_def okPropertyFVars_def intro!: mStatPropMsgHead.codec_value cInt32.codec_value)
qed (auto simp: PropertyF_methods_def PropertyF_defs mdResults_def param_def structParam_def ascii_def)

section \<open>Administration\<close>

record AdminFVars =
  avCommand :: gostring
  avRetText :: gostring

definition zero_AdminFVars :: AdminFVars where
  "zero_AdminFVars =
     \<lparr>avCommand = [], avRetText = []\<rparr>"

definition AdminF_shutdown :: "AdminFVars rpcMethod" where
  "AdminF_shutdown =
     \<lparr>mdName = ascii ''shutdown'', mdGo = ascii ''Shutdown'',
      mdIn = [],
      mdOut = [],
      mdRet = None\<rparr>"

definition AdminF_ShutdownWithContext :: "'w invoker \<Rightarrow> AdminFVars \<Rightarrow> strmap list \<Rightarrow> 'w
    \<Rightarrow> gerr + (goError option \<times> AdminFVars \<times> strmap list) \<times> 'w" where
  "AdminF_ShutdownWithContext = proxyCall AdminF_shutdown"

definition AdminF_ShutdownOneWayWithContext :: "'w invoker \<Rightarrow> AdminFVars \<Rightarrow> strmap list \<Rightarrow> 'w
    \<Rightarrow> gerr + (goError option \<times> AdminFVars \<times> strmap list) \<times> 'w" where
  "AdminF_ShutdownOneWayWithContext = proxyOneWay AdminF_shutdown"

definition AdminF_Shutdown :: "(Ctx \<Rightarrow> 'w invoker) \<Rightarrow> AdminFVars \<Rightarrow> strmap list \<Rightarrow> 'w
    \<Rightarrow> gerr + (goError option \<times> AdminFVars \<times> strmap list) \<times> 'w" where
  "AdminF_Shutdown invoke = AdminF_ShutdownWithContext (invoke bare_ctx)"

definition AdminF_notify :: "AdminFVars rpcMethod" where
  "AdminF_notify =
     \<lparr>mdName = ascii ''notify'', mdGo = ascii ''Notify'',
      mdIn = [param ''command'' 1 WriteString ReadString avCommand avCommand_update],
      mdOut = [],
      mdRet = Some (param ''tars_ret'' 0 WriteString ReadString avRetText avRetText_update)\<rparr>"

definition AdminF_NotifyWithContext :: "'w invoker \<Rightarrow> AdminFVars \<Rightarrow> strmap list \<Rightarrow> 'w
    \<Rightarrow> gerr + (goError option \<times> AdminFVars \<times> strmap list) \<times> 'w" where
  "AdminF_NotifyWithContext = proxyCall AdminF_notify"

definition AdminF_NotifyOneWayWithContext :: "'w invoker \<Rightarrow> AdminFVars \<Rightarrow> strmap list \<Rightarrow> 'w
    \<Rightarrow> gerr + (goError option \<times> AdminFVars \<times> strmap list) \<times> 'w" where
  "AdminF_NotifyOneWayWithContext = proxyOneWay AdminF_notify"

definition AdminF_Notify :: "(Ctx \<Rightarrow> 'w invoker) \<Rightarrow> AdminFVars \<Rightarrow> strmap list \<Rightarrow> 'w
    \<Rightarrow> gerr + (goError option \<times> AdminFVars \<times> strmap list) \<times> 'w" where
  "AdminF_Notify invoke = AdminF_NotifyWithContext (invoke bare_ctx)"

definition AdminF_methods :: "AdminFVars rpcMethod list" where
  "AdminF_methods =
     [AdminF_shutdown, AdminF_notify]"

definition AdminF_Dispatch :: "('j, AdminFVars) json \<Rightarrow> ((AdminFVars, 'w) servantImp, 'w) Dispatch" where
  "AdminF_Dispatch js = dispatchService js zero_AdminFVars AdminF_methods"

definition okAdminFVars :: "AdminFVars \<Rightarrow> bool" where
  "okAdminFVars v \<longleftrightarrow> list_all (\<lambda>s. length s < 2 ^ 32)
       [avCommand v, avRetText v]"

lemmas AdminF_defs = AdminF_shutdown_def AdminF_notify_def

interpretation sAdminF: rpc_service zero_AdminFVars AdminF_methods okAdminFVars
proof unfold_locales
  show "codec_param okAdminFVars p" if "m \<in> set AdminF_methods" and "p \<in> set (mdIn m) \<union> set (mdResults m)" for m p
    using that unfolding AdminF_methods_def
    by (auto simp: AdminF_defs mdResults_def okAdminFVars_def intro!: cString.codec_value)
qed (auto simp: AdminF_methods_def AdminF_defs mdResults_def param_def structParam_def ascii_def)

section \<open>Nodes\<close>

record ServerFVars =
  dvServerInfo :: ServerInfo
  dvRet :: int32
  dvApp :: gostring
  dvServerName :: gostring
  dvVersion :: gostring

definition zero_ServerFVars :: ServerFVars where
  "zero_ServerFVars =
     \<lparr>dvServerInfo = zero_ServerInfo, dvRet = 0, dvApp = [], dvServerName = [], dvVersion = []\<rparr>"

definition ServerF_keepAlive :: "ServerFVars rpcMethod" where
  "ServerF_keepAlive =
     \<lparr>mdName = ascii ''keepAlive'', mdGo = ascii ''KeepAlive'',
      mdIn = [structParam ''serverInfo'' 1 ServerInfo_WriteBlock ServerInfo_ReadBlock ServerInfo_ResetDefault dvServerInfo dvServerInfo_update],
      mdOut = [],
      mdRet = Some (param ''tars_ret'' 0 WriteInt32 ReadInt32 dvRet dvRet_update)\<rparr>"

definition ServerF_KeepAliveWithContext :: "'w invoker \<Rightarrow> ServerFVars \<Rightarrow> strmap list \<Rightarrow> 'w
    \<Rightarrow> gerr + (goError option \<times> ServerFVars \<times> strmap list) \<times> 'w" where
  "ServerF_KeepAliveWithContext = proxyCall ServerF_keepAlive"

definition ServerF_KeepAliveOneWayWithContext :: "'w invoker \<Rightarrow> ServerFVars \<Rightarrow> strmap list \<Rightarrow> 'w
    \<Rightarrow> gerr + (goError option \<times> ServerFVars \<times> strmap list) \<times> 'w" where
  "ServerF_KeepAliveOneWayWithContext = proxyOneWay ServerF_keepAlive"

definition ServerF_KeepAlive :: "(Ctx \<Rightarrow> 'w invoker) \<Rightarrow> ServerFVars \<Rightarrow> strmap list \<Rightarrow> 'w
    \<Rightarrow> gerr + (goError option \<times> ServerFVars \<times> strmap list) \<times> 'w" where
  "ServerF_KeepAlive invoke = ServerF_KeepAliveWithContext (invoke bare_ctx)"

definition ServerF_reportVersion :: "ServerFVars rpcMethod" where
  "ServerF_reportVersion =
     \<lparr>mdName = ascii ''reportVersion'', mdGo = ascii ''ReportVersion'',
      mdIn = [param ''app'' 1 WriteString ReadString dvApp dvApp_update,
        param ''serverName'' 2 WriteString ReadString dvServerName dvServerName_update,
        param ''version'' 3 WriteString ReadString dvVersion dvVersion_update],
      mdOut = [],
      mdRet = Some (param ''tars_ret'' 0 WriteInt32 ReadInt32 dvRet dvRet_update)\<rparr>"

definition ServerF_ReportVersionWithContext :: "'w invoker \<Rightarrow> ServerFVars \<Rightarrow> strmap list \<Rightarrow> 'w
    \<Rightarrow> gerr + (goError option \<times> ServerFVars \<times> strmap list) \<times> 'w" where
  "ServerF_ReportVersionWithContext = proxyCall ServerF_reportVersion"

definition ServerF_ReportVersionOneWayWithContext :: "'w invoker \<Rightarrow> ServerFVars \<Rightarrow> strmap list \<Rightarrow> 'w
    \<Rightarrow> gerr + (goError option \<times> ServerFVars \<times> strmap list) \<times> 'w" where
  "ServerF_ReportVersionOneWayWithContext = proxyOneWay ServerF_reportVersion"

definition ServerF_ReportVersion :: "(Ctx \<Rightarrow> 'w invoker) \<Rightarrow> ServerFVars \<Rightarrow> strmap list \<Rightarrow> 'w
    \<Rightarrow> gerr + (goError option \<times> ServerFVars \<times> strmap list) \<times> 'w" where
  "ServerF_ReportVersion invoke = ServerF_ReportVersionWithContext (invoke bare_ctx)"

definition ServerF_methods :: "ServerFVars rpcMethod list" where
  "ServerF_methods =
     [ServerF_keepAlive, ServerF_reportVersion]"

definition ServerF_Dispatch :: "('j, ServerFVars) json \<Rightarrow> ((ServerFVars, 'w) servantImp, 'w) Dispatch" where
  "ServerF_Dispatch js = dispatchService js zero_ServerFVars ServerF_methods"

definition okServerFVars :: "ServerFVars \<Rightarrow> bool" where
  "okServerFVars v \<longleftrightarrow> list_all (\<lambda>s. length s < 2 ^ 32)
       [dvApp v, dvServerName v, dvVersion v]
     \<and> okServerInfo (dvServerInfo v)"

lemmas ServerF_defs = ServerF_keepAlive_def ServerF_reportVersion_def

interpretation sServerF: rpc_service zero_ServerFVars ServerF_methods okServerFVars
proof unfold_locales
  show "codec_param okServerFVars p" if "m \<in> set ServerF_methods" and "p \<in> set (mdIn m) \<union> set (mdResults m)" for m p
    using that unfolding ServerF_methods_def
    by (auto simp: ServerF_defs mdResults_def okServerFVars_def intro!: value_codec.codec_value [OF bServerInfo.value_codec_axioms] cInt32.codec_value cString.codec_value)
qed (auto simp: ServerF_methods_def ServerF_defs mdResults_def param_def structParam_def ascii_def)

end
