(* ===== verification/Service_Properties.thy ===== *)
theory Service_Properties
  imports Registry_Service Framework_Services
begin

text \<open>
  Calls of the generated services over the whole stack. The registry stands for all: its properties rest on the
  locale \<open>rpc_service\<close>, which is interpreted on all eight services.
\<close>

lemma param_fields [simp]:
  "pmTag (param n t wr rd sel upd) = t" "pmName (param n t wr rd sel upd) = ascii n"
  "pmTag (structParam n t wr rd Reset sel upd) = t" "pmName (structParam n t wr rd Reset sel upd) = ascii n"
  by (simp_all add: param_def structParam_def)

section \<open>A call of the registry\<close>


text \<open>A registry that knows one endpoint for every object and counts its calls, and its caller.\<close>

definition demo_json :: "(unit, 'a) json" where
  "demo_json = \<lparr>jsDecode = (\<lambda>_. Inr ()), jsGet = (\<lambda>_ _ v. Inr v), jsMarshal = (\<lambda>_ _. Inr [])\<rparr>"

definition demo_registry :: "((QueryFVars, nat) servantImp, nat, unit) servant" where
  "demo_registry = NewTarsProtocol no_filters (QueryF_Dispatch demo_json)
     \<lparr>siWithContext = False,
      siCall = (\<lambda>name ctx v n. Inr ((None, v\<lparr>qvRet := 0, qvActiveEp := [demo_endpoint]\<rparr>), ctx, Suc n))\<rparr> False"

definition demo_query :: QueryFVars where
  "demo_query = zero_QueryFVars\<lparr>qvId := [65]\<rparr>"

lemma query_transfers:
  "okQueryFVars a \<Longrightarrow> transferAll (mdIn QueryF_findObjectById4Any) a b = b\<lparr>qvId := qvId a\<rparr>"
  "okQueryFVars a \<Longrightarrow> transferAll (mdResults QueryF_findObjectById4Any) a b
     = b\<lparr>qvRet := qvRet a, qvActiveEp := qvActiveEp a, qvInactiveEp := qvInactiveEp a\<rparr>"
  by (simp_all add: transferAll_def QueryF_findObjectById4Any_def mdResults_def okQueryFVars_def
      cString.transfer_value cInt32.transfer_value vEndpointF.transfer_value)

lemma demo_query_ok: "okQueryFVars demo_query" "okQueryFVars (demo_query\<lparr>qvActiveEp := [demo_endpoint]\<rparr>)"
  by (simp_all add: okQueryFVars_def demo_query_def zero_QueryFVars_def okVec_def okEndpointF_def demo_endpoint_def)

lemma demo_query_bytes:
  "encParams (mdIn QueryF_findObjectById4Any) demo_query = encString [65] 1"
  "encParams (mdOut QueryF_findObjectById4Any) demo_query
     = encVec (encBlock encEndpointF) [] 2 @ encVec (encBlock encEndpointF) [] 3"
  "encParams (mdResults QueryF_findObjectById4Any) (demo_query\<lparr>qvActiveEp := [demo_endpoint]\<rparr>)
     = encInt 0 0 @ encVec (encBlock encEndpointF) [demo_endpoint] 2 @ encVec (encBlock encEndpointF) [] 3"
  using demo_query_ok
  by (simp_all add: encParams_def QueryF_findObjectById4Any_def mdResults_def okQueryFVars_def
      cString.encParam_value cInt32.encParam_value vEndpointF.encParam_value)
    (simp_all add: demo_query_def zero_QueryFVars_def)

lemma demo_bytes_small:
  "length (encString [65] 1 @ encVec (encBlock encEndpointF) [] 2 @ encVec (encBlock encEndpointF) [] 3) < 2 ^ 31"
  "length (encInt 0 0 @ encVec (encBlock encEndpointF) [demo_endpoint] 2 @ encVec (encBlock encEndpointF) [] 3) < 2 ^ 31"
  by (simp_all add: encVec_def encBlock_def encString_def encHead_def encInt_def encEndpointF_def demo_endpoint_def jce_ty_defs)

lemma demo_ready: "em_reach md5 e \<Longrightarrow> emActiveEpf e = [plain_endpoint] \<Longrightarrow> \<not> emDirectProxy e \<Longrightarrow> emCheckAdapter e = Some []
    \<Longrightarrow> clientReady demo_env 7 (demo_world e)"
  by (auto simp: clientReady_def demo_env_def demo_world_def)

lemma bare_maps: "respMap (GetResponseStatus bare_ctx) = []" "respMap (GetResponseContext bare_ctx) = []"
  by (simp_all add: respMap_def GetResponseStatus_def GetResponseContext_def fromCurrent_def bare_ctx_def)


section \<open>The two encodings of a request\<close>

text \<open>C35: The dispatcher of the configuration service makes the same call of the implementation for a request in the TUP
  encoding, with the parameters by name in any order, as for one in the Tars encoding, and leaves the same error,
  context and world. The results it packs into an attribute set decode to that set, and reading them by name gives
  the variables that reading the Tars encoding by tag gives.\<close>

theorem config_encodings_agree:
  assumes "m \<in> set Config_methods" and "rqSFuncName (ivReq s) = mdName m" and "rqIVersion (ivReq s) = TUPVERSION"
    and "rqSBuffer (ivReq s) = snd (Encode u [])" and "okAttribute u" and "u = [] \<or> snd (last u) \<noteq> []"
    and "\<forall>p \<in> set (mdIn m). map_of u (pmName p) = Some (encParam p a 0)" and "okConfigVars a"
    and "callImp imp wc m (transferAll (mdIn m) a zero_ConfigVars) s = Inr ((err, v), s')"
    and "err = None \<Longrightarrow> okConfigVars v \<and> okAttribute (tupResults m v)"
    and "s0 = s\<lparr>ivReq := (ivReq s)\<lparr>rqIVersion := TARSVERSION, rqSBuffer := encParams (mdIn m) a @ encParams (mdOut m) a\<rparr>\<rparr>"
  shows "\<exists>t t0. Config_Dispatch js (imp, wc) s = Inr (err, t)
    \<and> Config_Dispatch js (imp, wc) s0 = Inr (err, t0)
    \<and> ivWorld t = ivWorld s' \<and> ivWorld t0 = ivWorld s' \<and> ivCtx t = ivCtx s' \<and> ivCtx t0 = ivCtx s'
    \<and> (err = None \<longrightarrow> (\<exists>r r0. Decode NewUniAttribute (NewReader (rsSBuffer (ivRsp t))) = (tupResults m v, None, r)
        \<and> readTup (mdResults m) (tupResults m v) b = Inr (Inr (transferAll (mdResults m) v b))
        \<and> readParams (mdResults m) b (NewReader (rsSBuffer (ivRsp t0))) = (transferAll (mdResults m) v b, None, r0)))"
  unfolding Config_Dispatch_def using assms by (rule sConfig.encodings_agree)

text \<open>A configuration service with one file for every server, and a request for it by name.\<close>

definition demo_config :: "(ConfigVars, nat) servantImp" where
  "demo_config = \<lparr>siWithContext = False,
     siCall = (\<lambda>name ctx v n. Inr ((None, v\<lparr>cvConfig := cvApp v @ [46], cvRet := 0\<rparr>), ctx, Suc n))\<rparr>"

definition demo_load :: ConfigVars where
  "demo_load = zero_ConfigVars\<lparr>cvApp := [65], cvServer := [66], cvFilename := [67]\<rparr>"

definition demo_attributes :: UniAttribute where
  "demo_attributes = [(ascii ''filename'', encString [67] 0), (ascii ''app'', encString [65] 0), (ascii ''server'', encString [66] 0)]"

definition demo_inv :: "nat inv" where
  "demo_inv = \<lparr>ivCtx = bare_ctx, ivReq = zero_request\<lparr>rqSFuncName := ascii ''loadConfig'', rqIVersion := TUPVERSION,
     rqSBuffer := snd (Encode demo_attributes [])\<rparr>, ivRsp = zero_response, ivWorld = 0\<rparr>"

lemma demo_load_ok: "okConfigVars demo_load" "okConfigVars (demo_load\<lparr>cvConfig := [65, 46], cvRet := 0\<rparr>)"
  by (simp_all add: okConfigVars_def demo_load_def zero_ConfigVars_def okVec_def okConfigInfo_def okGetConfigListInfo_def
      zero_ConfigInfo_def zero_GetConfigListInfo_def)

lemma load_transfers:
  "transferAll (mdIn Config_loadConfig) demo_load zero_ConfigVars = demo_load"
  "transferAll (mdResults Config_loadConfig) (demo_load\<lparr>cvConfig := [65, 46], cvRet := 0\<rparr>) zero_ConfigVars
     = zero_ConfigVars\<lparr>cvConfig := [65, 46]\<rparr>"
  using demo_load_ok
  by (simp_all add: transferAll_def Config_loadConfig_def mdResults_def okConfigVars_def cString.transfer_value cInt32.transfer_value)
    (simp_all add: demo_load_def zero_ConfigVars_def)

lemma demo_results:
  "tupResults Config_loadConfig (demo_load\<lparr>cvConfig := [65, 46], cvRet := 0\<rparr>)
     = [([], encInt 0 0), (ascii ''tars_ret'', encInt 0 0), (ascii ''config'', encString [65, 46] 0)]"
  using demo_load_ok
  by (simp add: tupResults_def Config_loadConfig_def okConfigVars_def cString.encParam_value cInt32.encParam_value PutBuffer_def ascii_def)

lemma demo_attributes_ok:
  "okAttribute demo_attributes" "snd (last demo_attributes) \<noteq> []"
  "okAttribute [([], encInt 0 0), (ascii ''tars_ret'', encInt 0 0), (ascii ''config'', encString [65, 46] 0)]"
  by (simp_all add: okAttribute_def demo_attributes_def encString_def encHead_def encInt_def ascii_def jce_ty_defs)

theorem config_encodings_agree_witness:
  "\<exists>t u r. Config_Dispatch (demo_json :: (unit, ConfigVars) json) (demo_config, False) demo_inv = Inr (None, t) \<and> ivWorld t = 1
    \<and> Decode NewUniAttribute (NewReader (rsSBuffer (ivRsp t))) = (u, None, r)
    \<and> readTup (mdResults Config_loadConfig) u zero_ConfigVars = Inr (Inr (zero_ConfigVars\<lparr>cvConfig := [65, 46]\<rparr>))"
proof -
  let ?m = Config_loadConfig and ?v = "demo_load\<lparr>cvConfig := [65, 46], cvRet := 0\<rparr>"
  have m: "?m \<in> set Config_methods" "rqSFuncName (ivReq demo_inv) = mdName ?m" "rqIVersion (ivReq demo_inv) = TUPVERSION"
    "rqSBuffer (ivReq demo_inv) = snd (Encode demo_attributes [])"
    by (simp_all add: Config_methods_def Config_loadConfig_def demo_inv_def)
  have args: "\<forall>p \<in> set (mdIn ?m). map_of demo_attributes (pmName p) = Some (encParam p demo_load 0)"
    using demo_load_ok(1)
    by (simp add: Config_loadConfig_def okConfigVars_def cString.encParam_value)
      (simp add: demo_attributes_def demo_load_def zero_ConfigVars_def ascii_def)
  have call: "callImp demo_config False ?m (transferAll (mdIn ?m) demo_load zero_ConfigVars) demo_inv
      = Inr ((None, ?v), demo_inv\<lparr>ivWorld := 1\<rparr>)"
    unfolding load_transfers by (simp add: callImp_def demo_config_def demo_inv_def demo_load_def zero_ConfigVars_def)
  have "(None :: goError option) = None \<Longrightarrow> okConfigVars ?v \<and> okAttribute (tupResults ?m ?v)"
    by (simp add: demo_load_ok demo_results demo_attributes_ok)
  from config_encodings_agree [where js = "demo_json :: (unit, ConfigVars) json" and b = zero_ConfigVars, OF m
      demo_attributes_ok(1) disjI2 [OF demo_attributes_ok(2)] args demo_load_ok(1) call this refl]
  show ?thesis
    by (auto simp: load_transfers)
qed

section \<open>The structs\<close>

text \<open>C11: Every struct generated for the framework's services is read back from its block form, with nested vectors
  and maps and whatever the struct that is read into held before, also when a newer peer has appended members of
  its own, and reading stops just behind the block.\<close>

theorem generated_structs_compatible:
  "block_compatible EndpointF_ReadBlock EndpointF_WriteTo okEndpointF
    \<and> block_compatible StatMicMsgHead_ReadBlock StatMicMsgHead_WriteTo okStatMicMsgHead
    \<and> block_compatible StatMicMsgBody_ReadBlock StatMicMsgBody_WriteTo okStatMicMsgBody
    \<and> block_compatible StatSampleMsg_ReadBlock StatSampleMsg_WriteTo okStatSampleMsg
    \<and> block_compatible ProxyInfo_ReadBlock ProxyInfo_WriteTo okProxyInfo
    \<and> block_compatible StatPropMsgHead_ReadBlock StatPropMsgHead_WriteTo okStatPropMsgHead
    \<and> block_compatible StatPropInfo_ReadBlock StatPropInfo_WriteTo okStatPropInfo
    \<and> block_compatible StatPropMsgBody_ReadBlock StatPropMsgBody_WriteTo okStatPropMsgBody
    \<and> block_compatible ConfigInfo_ReadBlock ConfigInfo_WriteTo okConfigInfo
    \<and> block_compatible GetConfigListInfo_ReadBlock GetConfigListInfo_WriteTo okGetConfigListInfo
    \<and> block_compatible NotifyKey_ReadBlock NotifyKey_WriteTo okNotifyKey
    \<and> block_compatible NotifyItem_ReadBlock NotifyItem_WriteTo okNotifyItem
    \<and> block_compatible NotifyInfo_ReadBlock NotifyInfo_WriteTo okNotifyInfo
    \<and> block_compatible ReportInfo_ReadBlock ReportInfo_WriteTo okReportInfo
    \<and> block_compatible LogInfo_ReadBlock LogInfo_WriteTo okLogInfo
    \<and> block_compatible ServerInfo_ReadBlock ServerInfo_WriteTo okServerInfo"
  unfolding EndpointF_ReadBlock_def StatMicMsgHead_ReadBlock_def StatMicMsgBody_ReadBlock_def StatSampleMsg_ReadBlock_def ProxyInfo_ReadBlock_def StatPropMsgHead_ReadBlock_def StatPropInfo_ReadBlock_def StatPropMsgBody_ReadBlock_def ConfigInfo_ReadBlock_def GetConfigListInfo_ReadBlock_def NotifyKey_ReadBlock_def NotifyItem_ReadBlock_def NotifyInfo_ReadBlock_def ReportInfo_ReadBlock_def LogInfo_ReadBlock_def ServerInfo_ReadBlock_def
  by (intro conjI pEndpointF.compatible cStatMicMsgHead.compatible cStatMicMsgBody.compatible cStatSampleMsg.compatible cProxyInfo.compatible cStatPropMsgHead.compatible cStatPropInfo.compatible cStatPropMsgBody.compatible cConfigInfo.compatible cGetConfigListInfo.compatible cNotifyKey.compatible cNotifyItem.compatible cNotifyInfo.compatible cReportInfo.compatible cLogInfo.compatible cServerInfo.compatible)

lemma block_compatibleD:
  assumes "block_compatible rb wt ok" and "ok st" and "wfFields fs"
    and "unread r = encHead StructBegin tag @ snd (wt st []) @ encFields fs @ encHead StructEnd 0 @ xs"
  shows "\<exists>r'. rb w tag require r = (st, None, r') \<and> unread r' = xs"
  using assms unfolding block_compatible_def by blast

text \<open>A body with one property, and a newer member behind it.\<close>

theorem generated_structs_compatible_witness:
  "\<exists>r'. StatPropMsgBody_ReadBlock zero_StatPropMsgBody 1 True (NewReader (encHead StructBegin 1
      @ snd (StatPropMsgBody_WriteTo \<lparr>spbVInfo = [\<lparr>spiPolicy = [83], spiValue = [49]\<rparr>]\<rparr> [])
      @ encFields [(9, JInt 4)] @ encHead StructEnd 0 @ [5]))
    = (\<lparr>spbVInfo = [\<lparr>spiPolicy = [83], spiValue = [49]\<rparr>]\<rparr>, None, r') \<and> unread r' = [5]"
proof -
  have "block_compatible StatPropMsgBody_ReadBlock StatPropMsgBody_WriteTo okStatPropMsgBody"
    using generated_structs_compatible by (elim conjE)
  then show ?thesis
    by (rule block_compatibleD [where fs = "[(9, JInt 4)]"]) (simp_all add: okStatPropMsgBody_def okStatPropInfo_def okVec_def)
qed

end
