(* ===== verification/Framing_Contract.thy ===== *)
theory Framing_Contract
  imports Protocol
begin

text \<open>
  What the receive loops of \<^verbatim>\<open>tars/transport\<close> need of \<^verbatim>\<open>ParsePackage\<close> (the method of the
  \<^verbatim>\<open>ServerProtocol\<close> and \<^verbatim>\<open>ClientProtocol\<close> interfaces of \<^verbatim>\<open>common.go\<close>): the contract
  \<open>stream_framing\<close> and its consequences for a stream that arrives in arbitrary chunks, then the
  interpretation on \<^verbatim>\<open>TarsRequest\<close>, which both implementations call.
\<close>

type_synonym parser = "bytes \<Rightarrow> nat \<times> pkgStatus"

section \<open>Splitting a stream into packages\<close>

text \<open>The abstract specification: \<open>splits parse buf ps rest bad\<close> when \<open>buf\<close> holds the packages
  \<open>ps\<close> and then \<open>rest\<close>, which is incomplete or, when \<open>bad\<close>, malformed.\<close>

inductive splits :: "parser \<Rightarrow> bytes \<Rightarrow> bytes list \<Rightarrow> bytes \<Rightarrow> bool \<Rightarrow> bool" for parse where
  less: "snd (parse buf) = PackageLess \<Longrightarrow> splits parse buf [] buf False"
| bad: "snd (parse buf) = PackageError \<Longrightarrow> splits parse buf [] buf True"
| full: "parse buf = (n, PackageFull) \<Longrightarrow> splits parse (drop n buf) ps rest b
    \<Longrightarrow> splits parse buf (take n buf # ps) rest b"

inductive_cases splits_Nil_E: "splits parse buf [] rest b"
inductive_cases splits_Cons_E: "splits parse buf (p # ps) rest b"

lemma splits_concat: "splits parse buf ps rest b \<Longrightarrow> buf = concat ps @ rest"
proof (induction rule: splits.induct)
  case (full buf n ps rest b)
  then show ?case by (metis append_assoc append_take_drop_id concat.simps(2))
qed simp_all

lemma splits_unique:
  "splits parse buf ps rest b \<Longrightarrow> splits parse buf ps' rest' b'
   \<Longrightarrow> ps' = ps \<and> rest' = rest \<and> b' = b"
proof (induction arbitrary: ps' rest' b' rule: splits.induct)
  case (less buf)
  from less.prems less.hyps show ?case by (cases rule: splits.cases) auto
next
  case (bad buf)
  from bad.prems bad.hyps show ?case by (cases rule: splits.cases) auto
next
  case (full buf n ps rest b)
  from full.prems show ?case
  proof (cases rule: splits.cases)
    case (full m qs)
    then show ?thesis using \<open>parse buf = (n, PackageFull)\<close> full.IH by auto
  qed (use full.hyps in auto)
qed

section \<open>The contract\<close>

locale stream_framing =
  fixes parse :: parser
  assumes empty_less: "snd (parse []) = PackageLess"
    and full_bounds: "parse buf = (n, PackageFull) \<Longrightarrow> 0 < n \<and> n \<le> length buf"
    and full_ext: "parse buf = (n, PackageFull) \<Longrightarrow> parse (buf @ extra) = (n, PackageFull)"
    and error_ext: "snd (parse buf) = PackageError \<Longrightarrow> snd (parse (buf @ extra)) = PackageError"
begin

lemma full_drop_shorter:
  assumes "parse buf = (n, PackageFull)"
  shows "length (drop n buf) < length buf"
  using full_bounds [OF assms] by auto

lemma splits_total: "\<exists>ps rest b. splits parse buf ps rest b"
proof (induction buf rule: length_induct)
  case (1 buf)
  show ?case
  proof (cases "snd (parse buf)")
    case PackageFull
    then obtain n where n: "parse buf = (n, PackageFull)" by (cases "parse buf") auto
    with 1 full_drop_shorter [OF n] obtain ps rest b where "splits parse (drop n buf) ps rest b"
      by blast
    with n show ?thesis by (blast intro: splits.full)
  qed (blast intro: splits.intros)+
qed

text \<open>More data: what was a package stays one, and the rest is split on with the new data.\<close>

lemma splits_append:
  assumes "splits parse buf ps rest False" and "splits parse (rest @ extra) qs rest' b"
  shows "splits parse (buf @ extra) (ps @ qs) rest' b"
  using assms
proof (induction buf ps rest "False" rule: splits.induct)
  case (full buf n ps rest)
  from full_bounds [OF full.hyps(1)] have "n \<le> length buf" by simp
  with full full_ext [OF full.hyps(1)] show ?case
    using splits.full [of parse "buf @ extra" n "ps @ qs" rest' b] by simp
qed simp_all

lemma splits_error_append:
  assumes "splits parse buf ps rest True"
  shows "splits parse (buf @ extra) ps (rest @ extra) True"
  using assms
proof (induction buf ps rest "True" rule: splits.induct)
  case (full buf n ps rest)
  from full_bounds [OF full.hyps(1)] have "n \<le> length buf" by simp
  with full full_ext [OF full.hyps(1)] show ?case
    using splits.full [of parse "buf @ extra" n ps "rest @ extra" True] by simp
qed (simp_all add: splits.bad error_ext)

lemma splits_rest_less: "splits parse buf ps rest False \<Longrightarrow> snd (parse rest) = PackageLess"
  by (induction buf ps rest False rule: splits.induct) simp_all

lemma splits_packages:
  assumes "\<And>p extra. p \<in> set ps \<Longrightarrow> parse (p @ extra) = (length p, PackageFull)"
    and "snd (parse rest) = PackageLess"
  shows "splits parse (concat ps @ rest) ps rest False"
  using assms(1)
proof (induction ps)
  case Nil
  then show ?case using assms(2) by (simp add: splits.less)
next
  case (Cons p ps)
  then show ?case
    using splits.full [of parse "p @ concat ps @ rest" "length p" ps rest False] by simp
qed

end

section \<open>The framing of the Tars protocol\<close>

interpretation tars_framing: stream_framing "TarsRequest maxPackageLength"
proof
  show "snd (TarsRequest maxPackageLength []) = PackageLess"
    by (simp add: TarsRequest_def)
next
  fix buf n assume *: "TarsRequest maxPackageLength buf = (n, PackageFull)"
  show "0 < n \<and> n \<le> length buf"
    using TarsRequest_bounds [OF *] by simp
  fix extra
  from * have "4 \<le> length buf" by (auto simp: TarsRequest_def split: if_splits)
  with * show "TarsRequest maxPackageLength (buf @ extra) = (n, PackageFull)"
    by (auto simp: TarsRequest_def Let_def split: if_splits)
next
  fix buf extra assume *: "snd (TarsRequest maxPackageLength buf) = PackageError"
  then have "4 \<le> length buf" by (auto simp: TarsRequest_def split: if_splits)
  with * show "snd (TarsRequest maxPackageLength (buf @ extra)) = PackageError"
    by (auto simp: TarsRequest_def Let_def split: if_splits)
qed

end
