(* ===== verification/Tcp_Server.thy ===== *)
theory Tcp_Server
  imports Framing_Contract "HOL-Library.Multiset" "HOL-Library.AList"
begin

text \<open>
  The server side of \<^verbatim>\<open>tars/transport\<close>: \<^verbatim>\<open>tarsserver.go\<close>, \<^verbatim>\<open>tcphandler.go\<close>,
  \<^verbatim>\<open>udphandler.go\<close>. The interface \<^verbatim>\<open>ServerProtocol\<close> is a record of functions. One accepted
  connection is the state \<open>tcpConn\<close>: the receive loop, the handlers it started and has not yet
  seen finish, and what was written to the peer. The interleavings of loop, handlers and
  deferred close are the step relation \<open>tcp_step\<close>. Times are read from the clock by the code
  and are arguments here.
\<close>

section \<open>Server and configuration\<close>

text \<open>\<open>'e\<close> is what a handler finds when it runs (the clock, the application's state). A panic
  in \<^verbatim>\<open>Invoke\<close> or \<^verbatim>\<open>InvokeTimeout\<close> ends the process and is an \<open>Inl\<close>; the number beside
  the response is the packet type that \<^verbatim>\<open>Invoke\<close> leaves in the context.\<close>

record 'e ServerProtocol =
  svInvoke :: "'e \<Rightarrow> bytes \<Rightarrow> gerr + bytes \<times> int8"
  svParsePackage :: parser
  svInvokeTimeout :: "bytes \<Rightarrow> gerr + bytes"
  svGetCloseMsg :: bytes

record TarsServerConf =
  cfProto :: string
  cfMaxInvoke :: int32
  cfHandleTimeout :: int
  cfIdleTimeout :: int
  cfQueueCap :: int

record TarsServer =
  tsConf :: TarsServerConf
  tsLastInvoke :: int
  tsIsClosed :: int32
  tsNumInvoke :: int32
  tsNumConn :: int32

definition NewTarsServer :: "TarsServerConf \<Rightarrow> int \<Rightarrow> TarsServer" where
  "NewTarsServer conf now =
     \<lparr>tsConf = conf, tsLastInvoke = now, tsIsClosed = 0, tsNumInvoke = 0, tsNumConn = 0\<rparr>"

datatype ServerHandler = TcpHandler | UdpHandler

definition getHandler :: "TarsServer \<Rightarrow> gerr + ServerHandler" where
  "getHandler ts =
     (if cfProto (tsConf ts) = ''tcp'' then Inr TcpHandler
      else if cfProto (tsConf ts) = ''udp'' then Inr UdpHandler
      else Inl (Panic (''unsupport protocol: '' @ cfProto (tsConf ts))))"

definition IsZombie :: "int \<Rightarrow> int \<Rightarrow> TarsServer \<Rightarrow> bool" where
  "IsZombie timeout now ts \<longleftrightarrow>
     cfMaxInvoke (tsConf ts) \<noteq> 0 \<and> tsNumInvoke ts = cfMaxInvoke (tsConf ts)
     \<and> tsLastInvoke ts + timeout < now"

text \<open>\<open>inTime\<close>: whether \<^verbatim>\<open>Invoke\<close> returned before the context of the time-out was done. A
  packet type that was not set reads as 0.\<close>

definition ts_invoke ::
    "'e ServerProtocol \<Rightarrow> TarsServerConf \<Rightarrow> bool \<Rightarrow> 'e \<Rightarrow> bytes \<Rightarrow> gerr + bytes \<times> int8" where
  "ts_invoke svr cfg inTime env pkg =
     (if cfHandleTimeout cfg = 0 then svInvoke svr env pkg
      else (case (if inTime then svInvoke svr env pkg else Inr ([], 0)) of
          Inl e \<Rightarrow> Inl e
        | Inr (rsp, cPacketType) \<Rightarrow>
            if length rsp = 0
            then (case svInvokeTimeout svr pkg of Inl e \<Rightarrow> Inl e | Inr rsp \<Rightarrow> Inr (rsp, cPacketType))
            else Inr (rsp, cPacketType)))"

section \<open>A TCP connection\<close>

datatype recvState = RecvLoop | RecvDefer | RecvClosed

text \<open>\<open>idleTime\<close> and \<open>numInvoke\<close> are \<^verbatim>\<open>connInfo\<close>'s; \<open>currBuffer\<close> is the receive loop's (nil
  and empty coincide: the code resets an empty buffer to nil, and appending nothing to nil is
  nil); \<open>running\<close> are the packages whose handler has been started or queued and not finished;
  \<open>written\<close> is what the handlers and the shutdown wrote. \<open>stream\<close> and \<open>handled\<close> record the bytes
  read and the packages handed to handlers, for the statements below.\<close>

record tcpConn =
  idleTime :: int
  numInvoke :: int32
  currBuffer :: bytes
  recvSt :: recvState
  running :: "bytes list"
  written :: "bytes list"
  stream :: bytes
  handled :: "bytes list"

definition newConn :: "int \<Rightarrow> tcpConn" where
  "newConn now = \<lparr>idleTime = now, numInvoke = 0, currBuffer = [], recvSt = RecvLoop,
     running = [], written = [], stream = [], handled = []\<rparr>"

text \<open>\<^verbatim>\<open>handleConn\<close> starts a goroutine, or queues one for the pool: either way the handler is
  pending.\<close>

definition handleConn :: "bytes \<Rightarrow> tcpConn \<Rightarrow> tcpConn" where
  "handleConn pkg st = st\<lparr>running := running st @ [pkg], handled := handled st @ [pkg]\<rparr>"

text \<open>The handler: it invokes, writes the response unless the call was one-way, and counts
  itself out. \<open>None\<close>: the process ended. \<open>writeOk\<close>: whether the write to the peer succeeded.\<close>

definition handlerRun ::
    "'e ServerProtocol \<Rightarrow> TarsServerConf \<Rightarrow> nat \<Rightarrow> bool \<Rightarrow> 'e \<Rightarrow> bool \<Rightarrow> tcpConn \<Rightarrow> tcpConn option" where
  "handlerRun svr cfg i inTime env writeOk st =
     (case ts_invoke svr cfg inTime env (running st ! i) of
        Inl _ \<Rightarrow> None
      | Inr (rsp, cPacketType) \<Rightarrow>
          (let st = (if cPacketType = TARSONEWAY \<or> \<not> writeOk then st
                     else st\<lparr>written := written st @ [rsp]\<rparr>)
           in Some (st\<lparr>running := take i (running st) @ drop (Suc i) (running st),
                       numInvoke := numInvoke st - 1\<rparr>)))"

datatype loopEnd = LoopBreak | LoopReturn | LoopPanic

text \<open>The inner loop of \<^verbatim>\<open>recv\<close>, which hands out the complete packages of \<^verbatim>\<open>currBuffer\<close>.
  \<open>None\<close>: more rounds than the fuel allows.\<close>

fun recvPackages :: "parser \<Rightarrow> nat \<Rightarrow> tcpConn \<Rightarrow> (loopEnd \<times> tcpConn) option" where
  "recvPackages ParsePackage 0 st = None"
| "recvPackages ParsePackage (Suc k) st =
     (case ParsePackage (currBuffer st) of (pkgLen, status) \<Rightarrow>
        if status = PackageLess then Some (LoopBreak, st)
        else if status = PackageFull then
          (let st = st\<lparr>numInvoke := numInvoke st + 1\<rparr> in
           if length (currBuffer st) < pkgLen then Some (LoopPanic, st)
           else
             let pkg = take pkgLen (currBuffer st);
                 st = handleConn pkg (st\<lparr>currBuffer := drop pkgLen (currBuffer st)\<rparr>)
             in if length (currBuffer st) > 0 then recvPackages ParsePackage k st
                else Some (LoopBreak, st\<lparr>currBuffer := []\<rparr>))
        else Some (LoopReturn, st))"

datatype netErr = NoDataError | RemoteEOF | OtherError

definition isNoDataError :: "netErr \<Rightarrow> bool" where
  "isNoDataError err \<longleftrightarrow> err = NoDataError"

datatype readResult = ReadData bytes | ReadFail netErr

text \<open>One round of the outer loop of \<^verbatim>\<open>recv\<close>: \<open>now\<close> is the clock before the read, \<open>later\<close> the
  clock after it, \<open>res\<close> what the read returns. The fuel is enough for every buffer
  (\<open>recvPackages_splits\<close> below); \<open>None\<close> stands for the panic that ends the process.\<close>

definition recvRound ::
    "'e ServerProtocol \<Rightarrow> TarsServerConf \<Rightarrow> int32 \<Rightarrow> int \<Rightarrow> int \<Rightarrow> readResult \<Rightarrow> tcpConn \<Rightarrow> tcpConn option" where
  "recvRound svr cfg isClosed now later res st =
     (let st = st\<lparr>idleTime := now\<rparr> in
      case res of
        ReadFail err \<Rightarrow>
          if isClosed = 1 \<and> currBuffer st = [] then Some (st\<lparr>recvSt := RecvDefer\<rparr>)
          else if length (currBuffer st) = 0 \<and> numInvoke st = 0
              \<and> idleTime st + cfIdleTimeout cfg div 1000000000 < later
            then Some (st\<lparr>recvSt := RecvDefer\<rparr>)
          else if isNoDataError err then Some st
          else Some (st\<lparr>recvSt := RecvDefer\<rparr>)
      | ReadData bs \<Rightarrow>
          let st = st\<lparr>currBuffer := currBuffer st @ bs, stream := stream st @ bs\<rparr> in
          case recvPackages (svParsePackage svr) (length (currBuffer st) + 1) st of
            Some (LoopBreak, st) \<Rightarrow> Some st
          | Some (LoopReturn, st) \<Rightarrow> Some (st\<lparr>recvSt := RecvDefer\<rparr>)
          | _ \<Rightarrow> None)"

text \<open>One tick of the deferred function of \<^verbatim>\<open>recv\<close>: it waits for the handlers, then closes.\<close>

definition recvDeferTick :: "tcpConn \<Rightarrow> tcpConn" where
  "recvDeferTick st =
     (if numInvoke st = 0 then st\<lparr>recvSt := RecvClosed, idleTime := 0\<rparr> else st)"

section \<open>The connections of a listener\<close>

record tcpHandler =
  hConns :: "(gostring \<times> tcpConn) list"
  hIsListenClosed :: int32

definition sendCloseMsg :: "'e ServerProtocol \<Rightarrow> tcpHandler \<Rightarrow> tcpHandler" where
  "sendCloseMsg svr h = h\<lparr>hConns :=
     map (\<lambda>(key, conn). (key, conn\<lparr>written := written conn @ [svGetCloseMsg svr]\<rparr>)) (hConns h)\<rparr>"

definition OnShutdown :: "'e ServerProtocol \<Rightarrow> tcpHandler \<Rightarrow> tcpHandler" where
  "OnShutdown svr h =
     (if hIsListenClosed h = 1 then (sendCloseMsg svr h)\<lparr>hIsListenClosed := 2\<rparr> else h)"

definition CloseIdles :: "'e ServerProtocol \<Rightarrow> int \<Rightarrow> int \<Rightarrow> tcpHandler \<Rightarrow> bool \<times> tcpHandler" where
  "CloseIdles svr n now h =
     (let h = (if hIsListenClosed h = 1 then (sendCloseMsg svr h)\<lparr>hIsListenClosed := 2\<rparr> else h)
      in (foldl (\<lambda>allClosed (key, conn).
            if sint (numInvoke conn) > 0 \<or> idleTime conn + n > now then False else allClosed)
          True (hConns h), h))"

text \<open>One round of the accept loop of \<^verbatim>\<open>Handle\<close>, with what \<^verbatim>\<open>Accept\<close> returns; \<open>Inl\<close>: the
  loop is left.\<close>

definition acceptRound ::
    "int \<Rightarrow> gostring option \<Rightarrow> TarsServer \<times> tcpHandler \<Rightarrow> (TarsServer \<times> tcpHandler) + (TarsServer \<times> tcpHandler)" where
  "acceptRound now res s =
     (case s of (ts, h) \<Rightarrow>
        if tsIsClosed ts = 1 then Inl (ts, h\<lparr>hIsListenClosed := 1\<rparr>)
        else (case res of
            None \<Rightarrow> Inr (ts, h)
          | Some key \<Rightarrow> Inr (ts\<lparr>tsNumConn := tsNumConn ts + 1\<rparr>,
              h\<lparr>hConns := AList.update key (newConn now) (hConns h)\<rparr>)))"

section \<open>The UDP handler\<close>

text \<open>A datagram is one package. \<open>udpInvoke\<close> is the goroutine: count in, invoke, write, count
  out; the result pairs the response written, if any, with the server.\<close>

definition udpInvoke ::
    "'e ServerProtocol \<Rightarrow> bool \<Rightarrow> 'e \<Rightarrow> bool \<Rightarrow> bytes \<Rightarrow> TarsServer \<Rightarrow> (bytes option \<times> TarsServer) option" where
  "udpInvoke svr inTime env writeOk pkg ts =
     (let ts = ts\<lparr>tsNumInvoke := tsNumInvoke ts + 1\<rparr> in
      case ts_invoke svr (tsConf ts) inTime env pkg of
        Inl _ \<Rightarrow> None
      | Inr (rsp, cPacketType) \<Rightarrow>
          Some (if cPacketType = TARSONEWAY \<or> \<not> writeOk then None else Some rsp,
                ts\<lparr>tsNumInvoke := tsNumInvoke ts - 1\<rparr>))"

definition udp_CloseIdles :: "TarsServer \<Rightarrow> bool" where
  "udp_CloseIdles ts \<longleftrightarrow> tsNumInvoke ts = 0"

section \<open>Interleavings\<close>

text \<open>The receive loop, the handlers and the shutdown of the listener run concurrently. A round
  is taken when fewer than \<open>2 ^ 32\<close> handlers are pending after it, the range of the counter.\<close>

inductive tcp_step :: "'e ServerProtocol \<Rightarrow> TarsServerConf \<Rightarrow> tcpConn \<Rightarrow> tcpConn \<Rightarrow> bool"
  for svr cfg where
  round: "recvSt st = RecvLoop \<Longrightarrow> recvRound svr cfg isClosed now later res st = Some st'
    \<Longrightarrow> length (running st') < 2 ^ 32 \<Longrightarrow> tcp_step svr cfg st st'"
| handler: "i < length (running st) \<Longrightarrow> handlerRun svr cfg i inTime env writeOk st = Some st'
    \<Longrightarrow> tcp_step svr cfg st st'"
| tick: "recvSt st = RecvDefer \<Longrightarrow> tcp_step svr cfg st (recvDeferTick st)"
| closeMsg: "tcp_step svr cfg st (st\<lparr>written := written st @ [svGetCloseMsg svr]\<rparr>)"

definition tcp_reach :: "'e ServerProtocol \<Rightarrow> TarsServerConf \<Rightarrow> tcpConn \<Rightarrow> bool" where
  "tcp_reach svr cfg st \<longleftrightarrow> (\<exists>now. (tcp_step svr cfg)\<^sup>*\<^sup>* (newConn now) st)"

text \<open>The round's inner loop splits the buffer.\<close>

definition take_packages :: "bytes list \<Rightarrow> bytes \<Rightarrow> tcpConn \<Rightarrow> tcpConn" where
  "take_packages ps rest st = st\<lparr>numInvoke := numInvoke st + of_nat (length ps), currBuffer := rest,
     running := running st @ ps, handled := handled st @ ps\<rparr>"

lemma take_packages_simps [simp]:
  "numInvoke (take_packages ps rest st) = numInvoke st + of_nat (length ps)"
  "currBuffer (take_packages ps rest st) = rest" "recvSt (take_packages ps rest st) = recvSt st"
  "running (take_packages ps rest st) = running st @ ps"
  "handled (take_packages ps rest st) = handled st @ ps"
  "stream (take_packages ps rest st) = stream st" "written (take_packages ps rest st) = written st"
  by (simp_all add: take_packages_def)

lemma take_packages_Cons:
  "take_packages ps rest (handleConn p (st\<lparr>numInvoke := numInvoke st + 1, currBuffer := b\<rparr>))
   = take_packages (p # ps) rest st"
  by (cases st) (simp add: take_packages_def handleConn_def algebra_simps)

context stream_framing
begin

lemma recvPackages_splits:
  assumes "splits parse buf ps rest bad" and "currBuffer st = buf" and "length buf < k"
  shows "recvPackages parse k st
    = Some (if bad then LoopReturn else LoopBreak, take_packages ps rest st)"
  using assms
proof (induction arbitrary: st k rule: splits.induct)
  case (less buf)
  then show ?case
    by (cases k; cases "parse buf"; cases st) (auto simp: take_packages_def)
next
  case (bad buf)
  then show ?case
    by (cases k; cases "parse buf"; cases st) (auto simp: take_packages_def)
next
  case (full buf n ps rest b)
  let ?st = "handleConn (take n buf) (st\<lparr>numInvoke := numInvoke st + 1, currBuffer := drop n buf\<rparr>)"
  obtain j where k: "k = Suc j" using full.prems by (cases k) auto
  have n: "n \<le> length buf" using full_bounds [OF full.hyps(1)] by simp
  have cur: "currBuffer ?st = drop n buf" by (simp add: handleConn_def)
  have step: "recvPackages parse k st = (if length (drop n buf) > 0 then recvPackages parse j ?st
      else Some (LoopBreak, ?st\<lparr>currBuffer := []\<rparr>))"
    using k full.hyps(1) full.prems n by (simp add: handleConn_def Let_def)
  show ?case
  proof (cases "length (drop n buf) > 0")
    case True
    with step full.IH [OF cur, of j] full_drop_shorter [OF full.hyps(1)] full.prems k
    show ?thesis by (simp add: take_packages_Cons)
  next
    case False
    then have "drop n buf = []" by simp
    with full.hyps(2) splits_unique [OF splits.less [of parse "[]"]] empty_less
    have e: "ps = []" "rest = []" "\<not> b" by auto
    have "?st\<lparr>currBuffer := []\<rparr> = take_packages [] [] ?st" by (simp add: take_packages_def)
    with step False e show ?thesis
      by (simp add: take_packages_Cons del: take_packages_simps)
  qed
qed

text \<open>The outcome of a round that read data.\<close>

lemma recvRound_data:
  assumes "svParsePackage svr = parse" and "splits parse (currBuffer st @ bs) ps rest bad"
  shows "recvRound svr cfg isClosed now later (ReadData bs) st
    = Some (take_packages ps rest (st\<lparr>idleTime := now, stream := stream st @ bs,
        recvSt := if bad then RecvDefer else recvSt st\<rparr>))"
  using recvPackages_splits [OF assms(2), of "st\<lparr>idleTime := now,
      currBuffer := currBuffer st @ bs, stream := stream st @ bs\<rparr>" "length (currBuffer st @ bs) + 1"]
  by (cases st) (simp add: recvRound_def assms(1) Let_def take_packages_def del: recvPackages.simps)

end

section \<open>The invariant of a connection\<close>

definition is_reply :: "'e ServerProtocol \<Rightarrow> TarsServerConf \<Rightarrow> bytes list \<Rightarrow> bytes \<Rightarrow> bool" where
  "is_reply svr cfg pkgs w \<longleftrightarrow> w = svGetCloseMsg svr \<or>
     (\<exists>pkg \<in> set pkgs. \<exists>inTime env t. ts_invoke svr cfg inTime env pkg = Inr (w, t) \<and> t \<noteq> TARSONEWAY)"

definition tcp_inv :: "'e ServerProtocol \<Rightarrow> TarsServerConf \<Rightarrow> tcpConn \<Rightarrow> bool" where
  "tcp_inv svr cfg st \<longleftrightarrow>
     numInvoke st = of_nat (length (running st)) \<and> length (running st) < 2 ^ 32
     \<and> set (running st) \<subseteq> set (handled st)
     \<and> (\<exists>bad. splits (svParsePackage svr) (stream st) (handled st) (currBuffer st) bad
          \<and> (recvSt st = RecvLoop \<longrightarrow> \<not> bad))
     \<and> (recvSt st = RecvClosed \<longrightarrow> running st = [])
     \<and> (\<forall>w \<in> set (written st). is_reply svr cfg (handled st) w)"

lemma tcp_inv_newConn:
  assumes "stream_framing (svParsePackage svr)"
  shows "tcp_inv svr cfg (newConn now)"
  using stream_framing.empty_less [OF assms]
  by (auto simp: tcp_inv_def newConn_def intro: splits.less)

lemma is_reply_mono: "is_reply svr cfg ps w \<Longrightarrow> set ps \<subseteq> set qs \<Longrightarrow> is_reply svr cfg qs w"
  unfolding is_reply_def by blast

lemma round_data_keeps:
  assumes framing: "stream_framing (svParsePackage svr)" and inv: "tcp_inv svr cfg st"
    and loop: "recvSt st = RecvLoop"
    and st': "recvRound svr cfg isClosed now later (ReadData bs) st = Some st'"
    and fin: "length (running st') < 2 ^ 32"
  shows "tcp_inv svr cfg st'"
proof -
  from inv loop have sp: "splits (svParsePackage svr) (stream st) (handled st) (currBuffer st) False"
    by (auto simp: tcp_inv_def)
  obtain ps rest bad where sp': "splits (svParsePackage svr) (currBuffer st @ bs) ps rest bad"
    using stream_framing.splits_total [OF framing] by blast
  let ?st = "st\<lparr>idleTime := now, stream := stream st @ bs,
    recvSt := if bad then RecvDefer else recvSt st\<rparr>"
  have st'': "st' = take_packages ps rest ?st"
    using st' stream_framing.recvRound_data [OF framing refl sp'] by simp
  have "splits (svParsePackage svr) (stream st @ bs) (handled st @ ps) rest bad"
    by (rule stream_framing.splits_append [OF framing sp sp'])
  then show ?thesis
    using inv loop fin unfolding tcp_inv_def st''
    by (auto intro: is_reply_mono)
qed

lemma round_fail_keeps:
  assumes inv: "tcp_inv svr cfg st" and loop: "recvSt st = RecvLoop"
    and st': "recvRound svr cfg isClosed now later (ReadFail err) st = Some st'"
  shows "tcp_inv svr cfg st'"
proof -
  from st' have "\<exists>r. r \<in> {RecvLoop, RecvDefer} \<and> st' = st\<lparr>idleTime := now, recvSt := r\<rparr>"
    using loop by (cases st) (auto simp: recvRound_def Let_def split: if_splits)
  then show ?thesis
    using inv loop by (auto simp: tcp_inv_def)
qed

lemma handlerRun_result:
  assumes "ts_invoke svr cfg inTime env (running st ! i) = Inr (rsp, t)"
  shows "handlerRun svr cfg i inTime env writeOk st = Some (st\<lparr>
    written := written st @ (if t = TARSONEWAY \<or> \<not> writeOk then [] else [rsp]),
    running := take i (running st) @ drop (Suc i) (running st), numInvoke := numInvoke st - 1\<rparr>)"
  using assms by (cases st) (simp add: handlerRun_def)

lemma handler_keeps:
  assumes inv: "tcp_inv svr cfg st" and i: "i < length (running st)"
    and st': "handlerRun svr cfg i inTime env writeOk st = Some st'"
  shows "tcp_inv svr cfg st'"
proof -
  obtain rsp t where rsp: "ts_invoke svr cfg inTime env (running st ! i) = Inr (rsp, t)"
    using st' by (auto simp: handlerRun_def split: sum.splits)
  let ?run = "take i (running st) @ drop (Suc i) (running st)"
  have run: "length ?run = length (running st) - 1" "set ?run \<subseteq> set (running st)"
    using i by (auto dest: in_set_takeD in_set_dropD)
  have num: "(of_nat (length (running st)) :: int32) - 1 = of_nat (length (running st) - 1)"
    using i by (simp add: of_nat_diff)
  have "running st ! i \<in> set (handled st)"
    using inv i by (auto simp: tcp_inv_def)
  then have "t \<noteq> TARSONEWAY \<Longrightarrow> is_reply svr cfg (handled st) rsp"
    using rsp unfolding is_reply_def by blast
  moreover have "st' = st\<lparr>written := written st @ (if t = TARSONEWAY \<or> \<not> writeOk then [] else [rsp]),
      running := ?run, numInvoke := numInvoke st - 1\<rparr>"
    using st' handlerRun_result [OF rsp] by simp
  moreover have "set ?run \<subseteq> set (handled st)" "length ?run < 2 ^ 32" "running st \<noteq> []"
    using inv run i by (auto simp: tcp_inv_def)
  ultimately show ?thesis
    using inv run(1) num by (auto simp: tcp_inv_def)
qed

lemma tcp_step_keeps:
  assumes "stream_framing (svParsePackage svr)" and "tcp_step svr cfg st st'" and "tcp_inv svr cfg st"
  shows "tcp_inv svr cfg st'"
  using assms(2,3)
proof (cases rule: tcp_step.cases)
  case (round isClosed now later res)
  then show ?thesis
    using assms(1,3) by (cases res) (auto intro: round_data_keeps round_fail_keeps)
next
  case (handler i inTime env writeOk)
  then show ?thesis using assms(3) by (blast intro: handler_keeps)
next
  case tick
  have "numInvoke st = 0 \<Longrightarrow> running st = []"
    using assms(3) by (auto simp: tcp_inv_def word_of_nat_eq_0_iff dest!: dvd_imp_le)
  then show ?thesis
    using assms(3) tick by (auto simp: tcp_inv_def recvDeferTick_def)
next
  case closeMsg
  then show ?thesis using assms(3) by (auto simp: tcp_inv_def is_reply_def)
qed

lemma tcp_reach_inv:
  assumes "stream_framing (svParsePackage svr)" and "tcp_reach svr cfg st"
  shows "tcp_inv svr cfg st"
proof -
  obtain now where "(tcp_step svr cfg)\<^sup>*\<^sup>* (newConn now) st"
    using assms(2) by (auto simp: tcp_reach_def)
  then show ?thesis
    by (induction rule: rtranclp_induct)
      (auto intro: tcp_inv_newConn tcp_step_keeps assms(1))
qed

section \<open>Properties\<close>

text \<open>C3: However the peer's bytes are cut into reads and however reads, handlers, failures and
  shutdown interleave, the packages handed to the handlers are exactly the complete packages of
  the stream, in order, and the loop's buffer holds the incomplete rest.\<close>

theorem server_stream_split:
  assumes "tcp_reach svr cfg st" and "svParsePackage svr = TarsRequest maxLen"
    and "stream st = concat ps @ rest"
    and "\<And>p extra. p \<in> set ps \<Longrightarrow> TarsRequest maxLen (p @ extra) = (length p, PackageFull)"
    and "snd (TarsRequest maxLen rest) = PackageLess"
  shows "handled st = ps \<and> currBuffer st = rest"
proof -
  have "tcp_inv svr cfg st"
    using assms(1,2) tars_framing.stream_framing_axioms by (simp add: tcp_reach_inv)
  then obtain bad where "splits (TarsRequest maxLen) (concat ps @ rest) (handled st) (currBuffer st) bad"
    using assms(2,3) by (auto simp: tcp_inv_def)
  from splits_unique [OF tars_framing.splits_packages [OF assms(4,5)] this] show ?thesis
    by simp
qed

text \<open>A server for the witnesses: it answers every package with one byte.\<close>

definition echo_server :: "unit ServerProtocol" where
  "echo_server = \<lparr>svInvoke = \<lambda>_ pkg. Inr ([7], 0), svParsePackage = TarsRequest 100,
     svInvokeTimeout = \<lambda>_. Inr [9], svGetCloseMsg = [8]\<rparr>"

definition echo_conf :: TarsServerConf where
  "echo_conf = \<lparr>cfProto = ''tcp'', cfMaxInvoke = 0, cfHandleTimeout = 1000, cfIdleTimeout = 0,
     cfQueueCap = 0\<rparr>"

definition echo_conn :: tcpConn where
  "echo_conn = \<lparr>idleTime = 6, numInvoke = 1, currBuffer = [0, 0], recvSt = RecvLoop,
     running = [[0, 0, 0, 4]], written = [], stream = [0, 0, 0, 4, 0, 0], handled = [[0, 0, 0, 4]]\<rparr>"

lemma echo_conn_reached: "tcp_reach echo_server echo_conf echo_conn"
proof -
  have "recvRound echo_server echo_conf 0 6 6 (ReadData [0, 0, 0, 4, 0, 0]) (newConn 5) = Some echo_conn"
    by code_simp
  then have "tcp_step echo_server echo_conf (newConn 5) echo_conn"
    by (rule tcp_step.round [rotated]) (simp_all add: newConn_def echo_conn_def)
  then show ?thesis unfolding tcp_reach_def by blast
qed

theorem server_stream_split_witness:
  "handled echo_conn = [[0, 0, 0, 4]] \<and> currBuffer echo_conn = [0, 0]"
  by (rule server_stream_split [OF echo_conn_reached, of 100])
    (auto simp: echo_server_def echo_conn_def TarsRequest_def Uint32_def)



text \<open>The receive loop restarts the idle time before every read, so a connection whose reads
  time out within the idle timeout is kept open however long it has been without a package:
  the idle timeout has no effect unless a single read outlasts it.\<close>

fun idleRounds :: "'e ServerProtocol \<Rightarrow> TarsServerConf \<Rightarrow> (int \<times> int) list \<Rightarrow> tcpConn \<Rightarrow> tcpConn option" where
  "idleRounds svr cfg [] st = Some st"
| "idleRounds svr cfg ((now, later) # ts) st =
     (case recvRound svr cfg 0 now later (ReadFail NoDataError) st of
        None \<Rightarrow> None | Some st \<Rightarrow> idleRounds svr cfg ts st)"

theorem idle_connection_kept:
  assumes "\<forall>(now, later) \<in> set ts. later \<le> now + cfIdleTimeout cfg div 1000000000"
    and "recvSt st = RecvLoop"
  shows "\<exists>t. idleRounds svr cfg ts st = Some (st\<lparr>idleTime := t\<rparr>)"
  using assms
proof (induction ts arbitrary: st)
  case Nil
  then show ?case by (metis (full_types) idleRounds.simps(1) tcpConn.surjective tcpConn.update_convs(1))
next
  case (Cons p ts)
  obtain now later where p: "p = (now, later)" by force
  have "recvRound svr cfg 0 now later (ReadFail NoDataError) st = Some (st\<lparr>idleTime := now\<rparr>)"
    using Cons.prems p by (auto simp: recvRound_def isNoDataError_def)
  moreover obtain t where "idleRounds svr cfg ts (st\<lparr>idleTime := now\<rparr>)
      = Some (st\<lparr>idleTime := now, idleTime := t\<rparr>)"
    using Cons.IH [of "st\<lparr>idleTime := now\<rparr>"] Cons.prems by auto
  ultimately show ?case
    using p by auto
qed

theorem idle_connection_kept_witness:
  "\<exists>t. idleRounds echo_server (echo_conf\<lparr>cfIdleTimeout := 600000000000\<rparr>) [(0, 1), (100000, 100001)]
     (newConn 0) = Some ((newConn 0)\<lparr>idleTime := t\<rparr>)"
  by (rule idle_connection_kept) (simp_all add: newConn_def echo_conf_def)

text \<open>When the handle timeout expires, the timeout reply is written to the peer even when the
  package was a one-way call: the packet type is read from a context that \<^verbatim>\<open>Invoke\<close> has not
  filled in.\<close>

theorem timeout_replies_to_oneway:
  assumes "cfHandleTimeout cfg \<noteq> 0" and "svInvokeTimeout svr (running st ! i) = Inr rsp"
  shows "\<exists>st'. handlerRun svr cfg i False env True st = Some st' \<and> written st' = written st @ [rsp]"
proof -
  have "ts_invoke svr cfg False env (running st ! i) = Inr (rsp, 0)"
    using assms by (simp add: ts_invoke_def)
  from handlerRun_result [OF this] show ?thesis
    by (simp add: TARSONEWAY_def)
qed

theorem timeout_replies_to_oneway_witness:
  "\<exists>st'. handlerRun (echo_server\<lparr>svInvoke := \<lambda>_ _. Inr ([], TARSONEWAY)\<rparr>) echo_conf 0 False () True echo_conn
     = Some st' \<and> written st' = [[9]]"
  using timeout_replies_to_oneway [of echo_conf "echo_server\<lparr>svInvoke := \<lambda>_ _. Inr ([], TARSONEWAY)\<rparr>"
      echo_conn 0 "[9]" "()"]
  by (simp add: echo_conf_def echo_server_def echo_conn_def)

text \<open>The zombie check compares the server's own invoke count with the maximum; the TCP
  handler counts per connection and leaves that count alone, so however many connections a TCP
  server accepts, it is never reported as a zombie.\<close>

theorem tcp_never_zombie:
  "foldl (\<lambda>s (now, res). case acceptRound now res s of Inl s' \<Rightarrow> s' | Inr s' \<Rightarrow> s')
     (NewTarsServer conf start, h) rounds = (ts, h') \<longrightarrow> \<not> IsZombie timeout clock ts"
proof -
  have step: "tsNumInvoke (fst s) = 0 \<and> tsConf (fst s) = conf
    \<Longrightarrow> tsNumInvoke (fst (case acceptRound now res s of Inl s' \<Rightarrow> s' | Inr s' \<Rightarrow> s')) = 0
      \<and> tsConf (fst (case acceptRound now res s of Inl s' \<Rightarrow> s' | Inr s' \<Rightarrow> s')) = conf" for s now res
    by (cases s) (auto simp: acceptRound_def split: option.splits)
  have "tsNumInvoke (fst s) = 0 \<and> tsConf (fst s) = conf \<Longrightarrow>
    tsNumInvoke (fst (foldl (\<lambda>s (now, res). case acceptRound now res s of Inl s' \<Rightarrow> s' | Inr s' \<Rightarrow> s') s rounds)) = 0
    \<and> tsConf (fst (foldl (\<lambda>s (now, res). case acceptRound now res s of Inl s' \<Rightarrow> s' | Inr s' \<Rightarrow> s') s rounds)) = conf" for s
    by (induction rounds arbitrary: s) (auto simp: step split: prod.splits)
  from this [of "(NewTarsServer conf start, h)"] show ?thesis
    by (auto simp: NewTarsServer_def IsZombie_def)
qed

theorem tcp_never_zombie_witness:
  "\<not> IsZombie 5 99 (fst (foldl (\<lambda>s (now, res). case acceptRound now res s of Inl s' \<Rightarrow> s' | Inr s' \<Rightarrow> s')
     (NewTarsServer (echo_conf\<lparr>cfMaxInvoke := 1\<rparr>) 0, \<lparr>hConns = [], hIsListenClosed = 0\<rparr>) [(3, Some [])]))"
  using tcp_never_zombie [of "echo_conf\<lparr>cfMaxInvoke := 1\<rparr>" 0 "\<lparr>hConns = [], hIsListenClosed = 0\<rparr>"
      "[(3, Some [])]"]
  by (metis prod.collapse)

end
