(* ===== verification/Tcp_Client.thy ===== *)
theory Tcp_Client
  imports Tcp_Server
begin

text \<open>
  The client side of \<^verbatim>\<open>tars/transport\<close>: \<^verbatim>\<open>tarsclient.go\<close>. A \<^verbatim>\<open>TarsClient\<close> keeps one current
  connection, but the goroutines of a former one may still run after a reconnect, so the state
  holds every connection opened so far, each with its send and receive goroutine, and the flag
  \<^verbatim>\<open>isClosed\<close>, the counters and the two queues that all of them share. The interleavings are
  the step relation \<open>client_step\<close>.
\<close>

section \<open>State\<close>

record sendMsg =
  smReq :: bytes
  smRetry :: uint8

record TarsClientConf =
  ccQueueLen :: int
  ccIdleTimeout :: int
  ccWriteTimeout :: int

text \<open>Where the goroutine of \<^verbatim>\<open>send\<close> is: at the top of its loop, at the select that waits for a
  message, before the write of a message, or returned.\<close>

datatype senderPc = AtTop | AtSelect | Sending sendMsg | SenderDone

text \<open>\<open>cnDone\<close> says that \<^verbatim>\<open>connDone\<close> holds a value; \<open>cnWritten\<close> are the messages written without
  an error.\<close>

record connection =
  cnOpen :: bool
  cnSender :: senderPc
  cnReceiving :: bool
  cnDone :: bool
  cnBuffer :: bytes
  cnWritten :: "sendMsg list"

text \<open>\<open>tcConns\<close> lists the connections in the order of \<^verbatim>\<open>ReConnect\<close>, the last is the current
  one; \<open>tcReceived\<close> are the packages given to \<^verbatim>\<open>Recv\<close>, \<open>tcAccepted\<close> the requests for which
  \<^verbatim>\<open>Send\<close> returned nil.\<close>

record TarsClient =
  tcConf :: TarsClientConf
  tcConns :: "connection list"
  tcIsClosed :: bool
  tcIdleTime :: int
  tcInvokeNum :: int32
  tcSendQueue :: "sendMsg list"
  tcSendFailQueue :: "sendMsg list"
  tcReceived :: "bytes list"
  tcAccepted :: "bytes list"

definition NewTarsClient :: "TarsClientConf \<Rightarrow> TarsClient" where
  "NewTarsClient conf =
     \<lparr>tcConf = (if ccQueueLen conf \<le> 0 then conf\<lparr>ccQueueLen := 100\<rparr> else conf),
      tcConns = [], tcIsClosed = True, tcIdleTime = 0, tcInvokeNum = 0, tcSendQueue = [],
      tcSendFailQueue = [], tcReceived = [], tcAccepted = []\<rparr>"

section \<open>Operations\<close>

text \<open>\<open>dial\<close> is the error of the dial, if any.\<close>

definition ReConnect :: "string option \<Rightarrow> int \<Rightarrow> TarsClient \<Rightarrow> string option \<times> TarsClient" where
  "ReConnect dial now tc =
     (if tcIsClosed tc then
        if dial \<noteq> None then (dial, tc)
        else (None, tc\<lparr>tcIdleTime := now, tcIsClosed := False,
          tcConns := tcConns tc @ [\<lparr>cnOpen = True, cnSender = AtTop, cnReceiving = True,
            cnDone = False, cnBuffer = [], cnWritten = []\<rparr>]\<rparr>)
      else (None, tc))"

text \<open>\<open>timedOut\<close>: the write timer fires before the queue takes the message. \<open>None\<close>: blocked.\<close>

definition Send ::
    "string option \<Rightarrow> int \<Rightarrow> bool \<Rightarrow> bytes \<Rightarrow> TarsClient \<Rightarrow> (string option \<times> TarsClient) option" where
  "Send dial now timedOut req tc =
     (case ReConnect dial now tc of (err, tc) \<Rightarrow>
        if err \<noteq> None then Some (err, tc)
        else if ccWriteTimeout (tcConf tc) > 0 \<and> timedOut
          then Some (Some ''tars client write timeout'', tc)
        else if int (length (tcSendQueue tc)) < ccQueueLen (tcConf tc)
          then Some (None, tc\<lparr>tcSendQueue := tcSendQueue tc @ [\<lparr>smReq = req, smRetry = 0\<rparr>],
                 tcAccepted := tcAccepted tc @ [req]\<rparr>)
        else None)"

definition upd_conn :: "nat \<Rightarrow> (connection \<Rightarrow> connection) \<Rightarrow> TarsClient \<Rightarrow> TarsClient" where
  "upd_conn i f tc = tc\<lparr>tcConns := (tcConns tc)[i := f (tcConns tc ! i)]\<rparr>"

definition set_pc :: "nat \<Rightarrow> senderPc \<Rightarrow> TarsClient \<Rightarrow> TarsClient" where
  "set_pc i pc = upd_conn i (\<lambda>c. c\<lparr>cnSender := pc\<rparr>)"

text \<open>\<^verbatim>\<open>connection.close(conn)\<close> for the connection number \<open>i\<close>, and \<^verbatim>\<open>TarsClient.Close\<close>.\<close>

definition conn_close :: "nat \<Rightarrow> TarsClient \<Rightarrow> TarsClient" where
  "conn_close i tc = (upd_conn i (\<lambda>c. c\<lparr>cnOpen := False\<rparr>) tc)\<lparr>tcIsClosed := True\<rparr>"

definition Close :: "TarsClient \<Rightarrow> TarsClient" where
  "Close tc =
     (if \<not> tcIsClosed tc \<and> tcConns tc \<noteq> []
      then (upd_conn (length (tcConns tc) - 1) (\<lambda>c. c\<lparr>cnOpen := False\<rparr>) tc)\<lparr>tcIsClosed := True\<rparr>
      else tc)"

text \<open>One tick of \<^verbatim>\<open>GraceClose\<close>: whether it returns, and the client.\<close>

definition graceCloseTick :: "TarsClient \<Rightarrow> bool \<times> TarsClient" where
  "graceCloseTick tc = (if sint (tcInvokeNum tc) \<le> 0 then (True, Close tc) else (False, tc))"

text \<open>\<^verbatim>\<open>send\<close>: the check of \<^verbatim>\<open>connDone\<close>, the select with its priority for failed messages (the
  flag \<open>tick\<close> says that the ticker is chosen), and the write.\<close>

definition sendTop :: "nat \<Rightarrow> TarsClient \<Rightarrow> TarsClient" where
  "sendTop i tc =
     (if cnDone (tcConns tc ! i)
      then upd_conn i (\<lambda>c. c\<lparr>cnDone := False, cnSender := SenderDone\<rparr>) tc
      else set_pc i AtSelect tc)"

definition sendSelect :: "nat \<Rightarrow> bool \<Rightarrow> int \<Rightarrow> TarsClient \<Rightarrow> TarsClient option" where
  "sendSelect i tick now tc =
     (case tcSendFailQueue tc of
        m # ms \<Rightarrow> Some (set_pc i (Sending m) (tc\<lparr>tcSendFailQueue := ms\<rparr>))
      | [] \<Rightarrow>
          if tick then
            if tcIsClosed tc then Some (set_pc i SenderDone tc)
            else if tcInvokeNum tc = 0 \<and> tcIdleTime tc + ccIdleTimeout (tcConf tc) < now
              then Some (set_pc i SenderDone (conn_close i tc))
            else Some (set_pc i AtTop tc)
          else (case tcSendQueue tc of
              m # ms \<Rightarrow> Some (set_pc i (Sending m) (tc\<lparr>tcSendQueue := ms\<rparr>))
            | [] \<Rightarrow> None))"

text \<open>\<open>writeOk\<close>: the write returns nil, which it does on an open connection only. The failed
  message goes to the queue of capacity one; \<open>None\<close>: blocked on it.\<close>

definition sendWrite :: "nat \<Rightarrow> sendMsg \<Rightarrow> bool \<Rightarrow> int \<Rightarrow> TarsClient \<Rightarrow> TarsClient option" where
  "sendWrite i m writeOk now tc =
     (let tc = tc\<lparr>tcInvokeNum := tcInvokeNum tc + 1, tcIdleTime := now\<rparr> in
      if writeOk \<and> cnOpen (tcConns tc ! i)
      then Some (upd_conn i (\<lambda>c. c\<lparr>cnWritten := cnWritten c @ [m], cnSender := AtTop\<rparr>) tc)
      else if length (tcSendFailQueue tc) < 1
      then Some (set_pc i SenderDone (conn_close i
             (tc\<lparr>tcSendFailQueue := tcSendFailQueue tc @ [m\<lparr>smRetry := smRetry m + 1\<rparr>]\<rparr>)))
      else None)"

text \<open>\<^verbatim>\<open>recv\<close>: its inner loop, with fuel, and one round of the outer loop.\<close>

fun clientPackages :: "parser \<Rightarrow> nat \<Rightarrow> bytes \<Rightarrow> TarsClient \<Rightarrow> (loopEnd \<times> bytes \<times> TarsClient) option" where
  "clientPackages ParsePackage 0 buff tc = None"
| "clientPackages ParsePackage (Suc k) buff tc =
     (case ParsePackage buff of (pkgLen, status) \<Rightarrow>
        if status = PackageLess then Some (LoopBreak, buff, tc)
        else if status = PackageFull then
          (let tc = tc\<lparr>tcInvokeNum := tcInvokeNum tc - 1\<rparr> in
           if length buff < pkgLen then Some (LoopPanic, buff, tc)
           else
             let pkg = take pkgLen buff;
                 buff = drop pkgLen buff;
                 tc = tc\<lparr>tcReceived := tcReceived tc @ [pkg]\<rparr>
             in if length buff > 0 then clientPackages ParsePackage k buff tc
                else Some (LoopBreak, [], tc))
        else Some (LoopReturn, buff, tc))"

definition recvReturn :: "nat \<Rightarrow> TarsClient \<Rightarrow> TarsClient" where
  "recvReturn i tc = upd_conn i (\<lambda>c. c\<lparr>cnReceiving := False, cnDone := True\<rparr>) tc"

definition clientRound :: "parser \<Rightarrow> nat \<Rightarrow> readResult \<Rightarrow> TarsClient \<Rightarrow> TarsClient option" where
  "clientRound ParsePackage i res tc =
     (case res of
        ReadFail err \<Rightarrow>
          if isNoDataError err then Some tc else Some (recvReturn i (conn_close i tc))
      | ReadData bs \<Rightarrow>
          let buff = cnBuffer (tcConns tc ! i) @ bs in
          case clientPackages ParsePackage (length buff + 1) buff tc of
            Some (LoopBreak, buf, tc) \<Rightarrow> Some (upd_conn i (\<lambda>c. c\<lparr>cnBuffer := buf\<rparr>) tc)
          | Some (LoopReturn, buf, tc) \<Rightarrow> Some (recvReturn i (conn_close i tc))
          | _ \<Rightarrow> None)"

section \<open>Interleavings\<close>

inductive client_step :: "parser \<Rightarrow> TarsClient \<Rightarrow> TarsClient \<Rightarrow> bool" for parse where
  reconnect: "ReConnect dial now tc = (err, tc') \<Longrightarrow> client_step parse tc tc'"
| send: "Send dial now timedOut req tc = Some (err, tc') \<Longrightarrow> client_step parse tc tc'"
| close: "client_step parse tc (Close tc)"
| grace: "graceCloseTick tc = (returns, tc') \<Longrightarrow> client_step parse tc tc'"
| top: "i < length (tcConns tc) \<Longrightarrow> cnSender (tcConns tc ! i) = AtTop
    \<Longrightarrow> client_step parse tc (sendTop i tc)"
| select: "i < length (tcConns tc) \<Longrightarrow> cnSender (tcConns tc ! i) = AtSelect
    \<Longrightarrow> sendSelect i tick now tc = Some tc' \<Longrightarrow> client_step parse tc tc'"
| wrote: "i < length (tcConns tc) \<Longrightarrow> cnSender (tcConns tc ! i) = Sending m
    \<Longrightarrow> sendWrite i m writeOk now tc = Some tc' \<Longrightarrow> client_step parse tc tc'"
| recv: "i < length (tcConns tc) \<Longrightarrow> cnReceiving (tcConns tc ! i)
    \<Longrightarrow> cnOpen (tcConns tc ! i) \<or> (\<exists>err. res = ReadFail err)
    \<Longrightarrow> clientRound parse i res tc = Some tc' \<Longrightarrow> client_step parse tc tc'"

definition client_reach :: "parser \<Rightarrow> TarsClientConf \<Rightarrow> TarsClient \<Rightarrow> bool" where
  "client_reach parse conf tc \<longleftrightarrow> (client_step parse)\<^sup>*\<^sup>* (NewTarsClient conf) tc"

section \<open>No request is lost or sent twice\<close>

text \<open>The requests a client still has or has written: written by some connection, taken by a
  sender, waiting for a retry, or queued.\<close>

definition conn_reqs :: "connection \<Rightarrow> bytes multiset" where
  "conn_reqs c = mset (map smReq (cnWritten c))
     + (case cnSender c of Sending m \<Rightarrow> {#smReq m#} | _ \<Rightarrow> {#})"

definition client_reqs :: "TarsClient \<Rightarrow> bytes multiset" where
  "client_reqs tc = sum_list (map conn_reqs (tcConns tc))
     + mset (map smReq (tcSendFailQueue tc)) + mset (map smReq (tcSendQueue tc))"

lemma sum_list_upd:
  "i < length xs \<Longrightarrow> sum_list (map f (xs[i := y])) + f (xs ! i) = sum_list (map f xs) + (f y :: 'b multiset)"
  by (induction xs arbitrary: i) (auto simp: nth_Cons ac_simps split: nat.splits)

lemma client_reqs_upd:
  assumes "i < length (tcConns tc)"
  shows "client_reqs (upd_conn i f tc) + conn_reqs (tcConns tc ! i)
    = client_reqs tc + conn_reqs (f (tcConns tc ! i))"
  using sum_list_upd [OF assms, of conn_reqs "f (tcConns tc ! i)"]
  by (simp add: client_reqs_def upd_conn_def ac_simps)

lemma client_reqs_upd_same:
  assumes "i < length (tcConns tc)" and "conn_reqs (f (tcConns tc ! i)) = conn_reqs (tcConns tc ! i)"
  shows "client_reqs (upd_conn i f tc) = client_reqs tc"
  using client_reqs_upd [OF assms(1), of f] assms(2) by simp

lemma upd_conn_simps [simp]:
  "length (tcConns (upd_conn i f tc)) = length (tcConns tc)"
  "tcConf (upd_conn i f tc) = tcConf tc" "tcIsClosed (upd_conn i f tc) = tcIsClosed tc"
  "tcInvokeNum (upd_conn i f tc) = tcInvokeNum tc" "tcIdleTime (upd_conn i f tc) = tcIdleTime tc"
  "tcSendQueue (upd_conn i f tc) = tcSendQueue tc"
  "tcSendFailQueue (upd_conn i f tc) = tcSendFailQueue tc"
  "tcReceived (upd_conn i f tc) = tcReceived tc" "tcAccepted (upd_conn i f tc) = tcAccepted tc"
  "i < length (tcConns tc) \<Longrightarrow> tcConns (upd_conn i f tc) ! i = f (tcConns tc ! i)"
  by (simp_all add: upd_conn_def)

lemma upd_conn_twice:
  "i < length (tcConns tc) \<Longrightarrow> upd_conn i f (upd_conn i g tc) = upd_conn i (\<lambda>c. f (g c)) tc"
  by (simp add: upd_conn_def)

lemma conn_reqs_flags [simp]:
  "conn_reqs (c\<lparr>cnOpen := b\<rparr>) = conn_reqs c" "conn_reqs (c\<lparr>cnBuffer := bs\<rparr>) = conn_reqs c"
  "conn_reqs (c\<lparr>cnReceiving := b, cnDone := b'\<rparr>) = conn_reqs c"
  "conn_reqs (c\<lparr>cnDone := b, cnSender := pc\<rparr>) = conn_reqs (c\<lparr>cnSender := pc\<rparr>)"
  by (simp_all add: conn_reqs_def)

lemma client_reqs_flags [simp]:
  "client_reqs (tc\<lparr>tcIsClosed := b\<rparr>) = client_reqs tc"
  "client_reqs (tc\<lparr>tcInvokeNum := n, tcIdleTime := t\<rparr>) = client_reqs tc"
  "client_reqs (tc\<lparr>tcInvokeNum := n\<rparr>) = client_reqs tc"
  "client_reqs (tc\<lparr>tcReceived := r\<rparr>) = client_reqs tc"
  by (simp_all add: client_reqs_def)

text \<open>The operations that move no request.\<close>

definition keeps_reqs :: "TarsClient \<Rightarrow> TarsClient \<Rightarrow> bool" where
  "keeps_reqs tc tc' \<longleftrightarrow> client_reqs tc' = client_reqs tc \<and> tcAccepted tc' = tcAccepted tc
     \<and> length (tcConns tc') = length (tcConns tc)"

lemma conn_close_keeps: "i < length (tcConns tc) \<Longrightarrow> keeps_reqs tc (conn_close i tc)"
  by (simp add: keeps_reqs_def conn_close_def client_reqs_upd_same)

lemma recvReturn_keeps: "i < length (tcConns tc) \<Longrightarrow> keeps_reqs tc (recvReturn i tc)"
  by (simp add: keeps_reqs_def recvReturn_def client_reqs_upd_same)

lemma Close_keeps: "keeps_reqs tc (Close tc)"
  by (simp add: keeps_reqs_def Close_def client_reqs_upd_same)

lemma clientPackages_keeps:
  "clientPackages parse k buf tc = Some (e, buf', tc') \<Longrightarrow>
   keeps_reqs tc tc' \<and> tcConns tc' = tcConns tc"
proof (induction parse k buf tc rule: clientPackages.induct)
  case (2 parse k buf tc)
  then show ?case
    by (auto simp: Let_def keeps_reqs_def split: prod.splits if_splits)
qed simp

lemma keeps_reqs_trans: "keeps_reqs tc tc' \<Longrightarrow> keeps_reqs tc' tc'' \<Longrightarrow> keeps_reqs tc tc''"
  by (simp add: keeps_reqs_def)

lemma clientRound_keeps:
  assumes "i < length (tcConns tc)" and "clientRound parse i res tc = Some tc'"
  shows "keeps_reqs tc tc'"
proof (cases res)
  case (ReadFail err)
  with assms show ?thesis
    using recvReturn_keeps [of i "conn_close i tc"] conn_close_keeps [OF assms(1)]
    by (auto simp: clientRound_def keeps_reqs_def split: if_splits)
next
  case (ReadData bs)
  with assms obtain e buf tc1 where
    p: "clientPackages parse (length (cnBuffer (tcConns tc ! i) @ bs) + 1)
          (cnBuffer (tcConns tc ! i) @ bs) tc = Some (e, buf, tc1)"
    by (auto simp: clientRound_def Let_def simp del: clientPackages.simps split: option.splits)
  from clientPackages_keeps [OF p] have k: "keeps_reqs tc tc1" by simp
  then have i: "i < length (tcConns tc1)" using assms(1) by (simp add: keeps_reqs_def)
  have "tc' = upd_conn i (\<lambda>c. c\<lparr>cnBuffer := buf\<rparr>) tc1 \<or> tc' = recvReturn i (conn_close i tc1)"
    using assms(2) p ReadData
    by (auto simp: clientRound_def Let_def simp del: clientPackages.simps split: loopEnd.splits)
  then have "keeps_reqs tc1 tc'"
    using i conn_close_keeps [OF i] recvReturn_keeps [of i "conn_close i tc1"]
    by (auto simp: keeps_reqs_def client_reqs_upd_same)
  with k show ?thesis by (rule keeps_reqs_trans)
qed

lemma conn_reqs_pc:
  "cnSender c = AtSelect \<Longrightarrow> conn_reqs (c\<lparr>cnSender := Sending m\<rparr>) = conn_reqs c + {#smReq m#}"
  "cnSender c = Sending m \<Longrightarrow> conn_reqs c = conn_reqs (c\<lparr>cnSender := SenderDone\<rparr>) + {#smReq m#}"
  "cnSender c = AtSelect \<Longrightarrow> conn_reqs (c\<lparr>cnSender := SenderDone\<rparr>) = conn_reqs c"
  "cnSender c = AtSelect \<Longrightarrow> conn_reqs (c\<lparr>cnSender := AtTop\<rparr>) = conn_reqs c"
  "cnSender c = AtTop \<Longrightarrow> conn_reqs (c\<lparr>cnSender := AtSelect\<rparr>) = conn_reqs c"
  "cnSender c = AtTop \<Longrightarrow> conn_reqs (c\<lparr>cnSender := SenderDone\<rparr>) = conn_reqs c"
  "cnSender c = Sending m \<Longrightarrow>
     conn_reqs (c\<lparr>cnWritten := cnWritten c @ [m], cnSender := AtTop\<rparr>) = conn_reqs c"
  by (simp_all add: conn_reqs_def)

lemma sendTop_keeps:
  "i < length (tcConns tc) \<Longrightarrow> cnSender (tcConns tc ! i) = AtTop \<Longrightarrow> keeps_reqs tc (sendTop i tc)"
  by (simp add: keeps_reqs_def sendTop_def set_pc_def client_reqs_upd_same conn_reqs_pc)

lemma set_pc_keeps:
  "i < length (tcConns tc) \<Longrightarrow> conn_reqs ((tcConns tc ! i)\<lparr>cnSender := pc\<rparr>) = conn_reqs (tcConns tc ! i)
   \<Longrightarrow> keeps_reqs tc (set_pc i pc tc)"
  by (simp add: keeps_reqs_def set_pc_def client_reqs_upd_same)

lemma conn_close_simps [simp]:
  "length (tcConns (conn_close i tc)) = length (tcConns tc)"
  "i < length (tcConns tc) \<Longrightarrow> tcConns (conn_close i tc) ! i = (tcConns tc ! i)\<lparr>cnOpen := False\<rparr>"
  by (simp_all add: conn_close_def)

lemma fetch_keeps:
  assumes "i < length (tcConns tc)" and "cnSender (tcConns tc ! i) = AtSelect"
    and "tcConns tc1 = tcConns tc" and "tcAccepted tc1 = tcAccepted tc"
    and "client_reqs tc1 + {#smReq m#} = client_reqs tc"
  shows "keeps_reqs tc (set_pc i (Sending m) tc1)"
  using client_reqs_upd [of i tc1 "\<lambda>c. c\<lparr>cnSender := Sending m\<rparr>"] assms
  by (simp add: keeps_reqs_def set_pc_def conn_reqs_pc)

lemma sendSelect_keeps:
  assumes "i < length (tcConns tc)" and "cnSender (tcConns tc ! i) = AtSelect"
    and "sendSelect i tick now tc = Some tc'"
  shows "keeps_reqs tc tc'"
proof -
  have pc: "keeps_reqs tc (set_pc i SenderDone (conn_close i tc))"
    "keeps_reqs tc (set_pc i SenderDone tc)" "keeps_reqs tc (set_pc i AtTop tc)"
    using assms(1,2) keeps_reqs_trans [OF conn_close_keeps set_pc_keeps]
    by (simp_all add: set_pc_keeps conn_reqs_pc)
  have "keeps_reqs tc (set_pc i (Sending m) (tc\<lparr>tcSendFailQueue := ms\<rparr>))"
    if "tcSendFailQueue tc = m # ms" for m ms
    using assms(1,2) that by (intro fetch_keeps) (simp_all add: client_reqs_def)
  moreover have "keeps_reqs tc (set_pc i (Sending m) (tc\<lparr>tcSendQueue := ms\<rparr>))"
    if "tcSendQueue tc = m # ms" for m ms
    using assms(1,2) that by (intro fetch_keeps) (simp_all add: client_reqs_def)
  ultimately show ?thesis
    using assms(3) pc by (auto simp: sendSelect_def split: list.splits if_splits)
qed

lemma sendWrite_keeps:
  assumes "i < length (tcConns tc)" and "cnSender (tcConns tc ! i) = Sending m"
    and "sendWrite i m writeOk now tc = Some tc'"
  shows "keeps_reqs tc tc'"
proof -
  define tc1 where "tc1 = tc\<lparr>tcInvokeNum := tcInvokeNum tc + 1, tcIdleTime := now\<rparr>"
  define tc2 where "tc2 = conn_close i (tc1\<lparr>tcSendFailQueue :=
    tcSendFailQueue tc1 @ [m\<lparr>smRetry := smRetry m + 1\<rparr>]\<rparr>)"
  have t1: "i < length (tcConns tc1)" "tcConns tc1 = tcConns tc" "keeps_reqs tc tc1"
    using assms(1) by (simp_all add: tc1_def keeps_reqs_def)
  have t2: "tcAccepted tc2 = tcAccepted tc"
    "length (tcConns tc2) = length (tcConns tc)" "cnSender (tcConns tc2 ! i) = Sending m"
    using t1 assms(2) by (simp_all add: tc2_def conn_close_def keeps_reqs_def)
  have "client_reqs tc2 = client_reqs (tc1\<lparr>tcSendFailQueue :=
      tcSendFailQueue tc1 @ [m\<lparr>smRetry := smRetry m + 1\<rparr>]\<rparr>)"
    using t1(1) by (simp add: tc2_def conn_close_def client_reqs_upd_same)
  then have r2: "client_reqs tc2 = client_reqs tc + {#smReq m#}"
    by (simp add: tc1_def client_reqs_def)
  from assms(3) consider
      "tc' = upd_conn i (\<lambda>c. c\<lparr>cnWritten := cnWritten c @ [m], cnSender := AtTop\<rparr>) tc1"
    | "tc' = set_pc i SenderDone tc2"
    by (auto simp: sendWrite_def Let_def tc1_def tc2_def split: if_splits)
  then show ?thesis
  proof cases
    case 1
    then show ?thesis
      using t1 assms(2) by (simp add: keeps_reqs_def client_reqs_upd_same conn_reqs_pc)
  next
    case 2
    have "client_reqs (set_pc i SenderDone tc2) + {#smReq m#} = client_reqs tc2"
      using client_reqs_upd [of i tc2 "\<lambda>c. c\<lparr>cnSender := SenderDone\<rparr>"] t2 assms(1)
        conn_reqs_pc(2) [of "tcConns tc2 ! i" m]
      by (simp add: set_pc_def)
    then show ?thesis
      using 2 t2 r2 by (simp add: keeps_reqs_def set_pc_def)
  qed
qed

definition reqs_inv :: "TarsClient \<Rightarrow> bool" where
  "reqs_inv tc \<longleftrightarrow> client_reqs tc = mset (tcAccepted tc)"

lemma keeps_reqs_inv: "keeps_reqs tc tc' \<Longrightarrow> reqs_inv tc \<Longrightarrow> reqs_inv tc'"
  by (simp add: keeps_reqs_def reqs_inv_def)

lemma ReConnect_inv: "ReConnect dial now tc = (err, tc') \<Longrightarrow> reqs_inv tc \<Longrightarrow> reqs_inv tc'"
  by (auto simp: ReConnect_def reqs_inv_def client_reqs_def conn_reqs_def split: if_splits)

lemma Send_inv:
  assumes "Send dial now timedOut req tc = Some (err, tc')" and "reqs_inv tc"
  shows "reqs_inv tc'"
proof -
  obtain e tc1 where r: "ReConnect dial now tc = (e, tc1)" by force
  with ReConnect_inv assms have "reqs_inv tc1" by blast
  then show ?thesis
    using assms(1) r by (auto simp: Send_def reqs_inv_def client_reqs_def split: if_splits)
qed

lemma client_step_inv: "client_step parse tc tc' \<Longrightarrow> reqs_inv tc \<Longrightarrow> reqs_inv tc'"
proof (induction rule: client_step.induct)
  case (grace tc returns tc')
  then show ?case
    by (auto simp: graceCloseTick_def intro: keeps_reqs_inv [OF Close_keeps] split: if_splits)
qed (blast intro: ReConnect_inv Send_inv keeps_reqs_inv Close_keeps sendTop_keeps sendSelect_keeps
      sendWrite_keeps clientRound_keeps)+

lemma client_reach_inv:
  assumes "client_reach parse conf tc"
  shows "reqs_inv tc"
proof -
  have "reqs_inv (NewTarsClient conf)"
    by (simp add: NewTarsClient_def reqs_inv_def client_reqs_def)
  with assms show ?thesis
    unfolding client_reach_def by (induction rule: rtranclp_induct) (auto intro: client_step_inv)
qed

section \<open>The received stream\<close>

definition got_packages :: "bytes list \<Rightarrow> TarsClient \<Rightarrow> TarsClient" where
  "got_packages ps tc = tc\<lparr>tcInvokeNum := tcInvokeNum tc - of_nat (length ps),
     tcReceived := tcReceived tc @ ps\<rparr>"

lemma got_packages_Nil [simp]: "got_packages [] tc = tc"
  by (simp add: got_packages_def)

lemma got_packages_append:
  "got_packages qs (upd_conn i f (got_packages ps tc)) = upd_conn i f (got_packages (ps @ qs) tc)"
  by (cases tc) (simp add: got_packages_def upd_conn_def algebra_simps)

lemma got_packages_Cons:
  "got_packages ps (tc\<lparr>tcInvokeNum := tcInvokeNum tc - 1, tcReceived := tcReceived tc @ [p]\<rparr>)
   = got_packages (p # ps) tc"
  by (cases tc) (simp add: got_packages_def algebra_simps)

lemma got_packages_conns [simp]: "tcConns (got_packages ps tc) = tcConns tc"
  by (simp add: got_packages_def)

text \<open>Reads of one connection that all return data.\<close>

fun clientFeed :: "parser \<Rightarrow> nat \<Rightarrow> bytes list \<Rightarrow> TarsClient \<Rightarrow> TarsClient option" where
  "clientFeed ParsePackage i [] tc = Some tc"
| "clientFeed ParsePackage i (c # cs) tc =
     (case clientRound ParsePackage i (ReadData c) tc of
        None \<Rightarrow> None | Some tc \<Rightarrow> clientFeed ParsePackage i cs tc)"

context stream_framing
begin

lemma clientPackages_splits:
  assumes "splits parse buf ps rest bad" and "length buf < k"
  shows "clientPackages parse k buf tc
    = Some (if bad then LoopReturn else LoopBreak, rest, got_packages ps tc)"
  using assms
proof (induction arbitrary: tc k rule: splits.induct)
  case (full buf n ps rest b)
  let ?tc = "tc\<lparr>tcInvokeNum := tcInvokeNum tc - 1, tcReceived := tcReceived tc @ [take n buf]\<rparr>"
  obtain j where k: "k = Suc j" using full.prems by (cases k) auto
  have n: "n \<le> length buf" using full_bounds [OF full.hyps(1)] by simp
  have step: "clientPackages parse k buf tc = (if length (drop n buf) > 0
      then clientPackages parse j (drop n buf) ?tc else Some (LoopBreak, [], ?tc))"
    using k full.hyps(1) n by (simp add: Let_def)
  show ?case
  proof (cases "length (drop n buf) > 0")
    case True
    with step full.IH [of j ?tc] full_drop_shorter [OF full.hyps(1)] full.prems k
    show ?thesis by (simp add: got_packages_Cons)
  next
    case False
    then have "drop n buf = []" by simp
    with full.hyps(2) splits_unique [OF splits.less [of parse "[]"]] empty_less
    have e: "ps = []" "rest = []" "\<not> b" by auto
    with step False got_packages_Cons [of "[]" tc "take n buf"] show ?thesis by simp
  qed
qed (case_tac k; force simp: split_beta)+

lemma clientRound_data:
  assumes "splits parse (cnBuffer (tcConns tc ! i) @ bs) ps rest False"
  shows "clientRound parse i (ReadData bs) tc
    = Some (upd_conn i (\<lambda>c. c\<lparr>cnBuffer := rest\<rparr>) (got_packages ps tc))"
  using clientPackages_splits [OF assms, of "length (cnBuffer (tcConns tc ! i) @ bs) + 1" tc]
  by (simp add: clientRound_def Let_def del: clientPackages.simps)

lemma clientFeed_splits:
  assumes "splits parse (cnBuffer (tcConns tc ! i) @ concat cs) ps rest False"
    and "i < length (tcConns tc)" and "snd (parse (cnBuffer (tcConns tc ! i))) = PackageLess"
  shows "clientFeed parse i cs tc = Some (upd_conn i (\<lambda>c. c\<lparr>cnBuffer := rest\<rparr>) (got_packages ps tc))"
  using assms
proof (induction cs arbitrary: tc ps)
  case Nil
  with splits_unique [OF splits.less [of parse, OF Nil.prems(3)], of ps rest False] show ?case
    by (simp add: upd_conn_def)
next
  case (Cons c cs)
  let ?buf = "cnBuffer (tcConns tc ! i)"
  obtain ps1 rest1 bad1 where s1: "splits parse (?buf @ c) ps1 rest1 bad1"
    using splits_total by blast
  have all: "splits parse ((?buf @ c) @ concat cs) ps rest False"
    using Cons.prems(1) by simp
  have "\<not> bad1"
    using splits_unique [OF all] splits_error_append [of "?buf @ c" ps1 rest1 "concat cs"] s1
    by (cases bad1) auto
  with s1 have s1: "splits parse (?buf @ c) ps1 rest1 False" by simp
  obtain qs rest2 b2 where s2: "splits parse (rest1 @ concat cs) qs rest2 b2"
    using splits_total by blast
  have ps: "ps = ps1 @ qs" "rest2 = rest" "\<not> b2"
    using splits_unique [OF all splits_append [OF s1 s2]] by simp_all
  let ?tc = "upd_conn i (\<lambda>c. c\<lparr>cnBuffer := rest1\<rparr>) (got_packages ps1 tc)"
  have "clientFeed parse i cs ?tc
      = Some (upd_conn i (\<lambda>c. c\<lparr>cnBuffer := rest\<rparr>) (got_packages qs ?tc))"
    using Cons.IH [of ?tc qs] Cons.prems(2) s2 ps splits_rest_less [OF s1] by simp
  then show ?case
    using clientRound_data [OF s1] ps Cons.prems(2)
    by (simp add: got_packages_append upd_conn_twice)
qed

end

section \<open>Properties\<close>

text \<open>C4: No request is lost and none is sent twice: in every reachable state, whatever
  connections broke in between, the requests accepted by \<^verbatim>\<open>Send\<close> are, as a multiset, those
  written without error on some connection, those in the hands of a sender, the failed one
  kept for retry and the queued ones.\<close>

theorem requests_conserved:
  assumes "client_reach parse conf tc"
  shows "mset (tcAccepted tc)
    = mset (map smReq (concat (map cnWritten (tcConns tc))))
      + (\<Sum>c\<leftarrow>tcConns tc. case cnSender c of Sending m \<Rightarrow> {#smReq m#} | _ \<Rightarrow> {#})
      + mset (map smReq (tcSendFailQueue tc)) + mset (map smReq (tcSendQueue tc))"
proof -
  have "sum_list (map conn_reqs cs) = mset (map smReq (concat (map cnWritten cs)))
      + (\<Sum>c\<leftarrow>cs. case cnSender c of Sending m \<Rightarrow> {#smReq m#} | _ \<Rightarrow> {#})" for cs
    by (induction cs) (simp_all add: conn_reqs_def ac_simps)
  then show ?thesis
    using client_reach_inv [OF assms] by (simp add: reqs_inv_def client_reqs_def)
qed

text \<open>A client for the witnesses, and runs of it.\<close>

definition demo_conf :: TarsClientConf where
  "demo_conf = \<lparr>ccQueueLen = 2, ccIdleTimeout = 10, ccWriteTimeout = 0\<rparr>"

fun run_ops :: "(TarsClient \<Rightarrow> TarsClient option) list \<Rightarrow> TarsClient \<Rightarrow> TarsClient option" where
  "run_ops [] tc = Some tc"
| "run_ops (f # fs) tc = (case f tc of None \<Rightarrow> None | Some tc \<Rightarrow> run_ops fs tc)"

definition at_pc :: "nat \<Rightarrow> senderPc \<Rightarrow> (TarsClient \<Rightarrow> TarsClient option) \<Rightarrow> TarsClient \<Rightarrow> TarsClient option" where
  "at_pc i pc f tc = (if i < length (tcConns tc) \<and> cnSender (tcConns tc ! i) = pc then f tc else None)"

definition op_send where "op_send req tc = map_option snd (Send None 0 False req tc)"
definition op_reconnect where "op_reconnect tc = Some (snd (ReConnect None 0 tc))"
definition op_top where "op_top i = at_pc i AtTop (\<lambda>tc. Some (sendTop i tc))"
definition op_select where "op_select i = at_pc i AtSelect (sendSelect i False 0)"
definition op_write where "op_write i m ok = at_pc i (Sending m) (sendWrite i m ok 0)"
definition op_recv where "op_recv parse i res tc =
  (if i < length (tcConns tc) \<and> cnReceiving (tcConns tc ! i)
      \<and> (cnOpen (tcConns tc ! i) \<or> res = ReadFail RemoteEOF)
   then clientRound parse i res tc else None)"

lemma op_steps:
  "op_send req tc = Some tc' \<Longrightarrow> client_step parse tc tc'"
  "op_reconnect tc = Some tc' \<Longrightarrow> client_step parse tc tc'"
  "op_top i tc = Some tc' \<Longrightarrow> client_step parse tc tc'"
  "op_select i tc = Some tc' \<Longrightarrow> client_step parse tc tc'"
  "op_write i m ok tc = Some tc' \<Longrightarrow> client_step parse tc tc'"
  "op_recv parse i res tc = Some tc' \<Longrightarrow> client_step parse tc tc'"
proof -
  show "op_send req tc = Some tc' \<Longrightarrow> client_step parse tc tc'"
    by (auto simp: op_send_def intro: client_step.send)
  show "op_reconnect tc = Some tc' \<Longrightarrow> client_step parse tc tc'"
    by (auto simp: op_reconnect_def intro: client_step.reconnect [OF surjective_pairing])
qed (auto simp: op_top_def op_select_def op_write_def op_recv_def at_pc_def split: if_splits
    intro: client_step.intros)

lemma run_ops_reach:
  assumes "run_ops fs tc = Some tc'"
    and "\<And>f t t'. f \<in> set fs \<Longrightarrow> f t = Some t' \<Longrightarrow> client_step parse t t'"
  shows "(client_step parse)\<^sup>*\<^sup>* tc tc'"
  using assms
proof (induction fs arbitrary: tc)
  case (Cons f fs)
  then obtain t where t: "f tc = Some t" "run_ops fs t = Some tc'" by (auto split: option.splits)
  have "(client_step parse)\<^sup>*\<^sup>* t tc'"
    using Cons.prems(2) by (intro Cons.IH [OF t(2)]) (metis list.set_intros(2))
  moreover have "client_step parse tc t"
    using Cons.prems(2) [of f tc t] t(1) by simp
  ultimately show ?case by (rule converse_rtranclp_into_rtranclp [rotated])
qed simp

lemmas op_defs = op_send_def op_reconnect_def op_top_def op_select_def op_write_def op_recv_def at_pc_def
  demo_conf_def NewTarsClient_def Send_def ReConnect_def sendTop_def sendSelect_def sendWrite_def
  set_pc_def upd_conn_def conn_close_def recvReturn_def

theorem requests_conserved_witness:
  "\<exists>tc. client_reach (TarsRequest 100) demo_conf tc \<and> tcAccepted tc = [[1], [2]]
     \<and> {#[1], [2]#} = mset (map smReq (concat (map cnWritten (tcConns tc))))
      + (\<Sum>c\<leftarrow>tcConns tc. case cnSender c of Sending m \<Rightarrow> {#smReq m#} | _ \<Rightarrow> {#})
      + mset (map smReq (tcSendFailQueue tc)) + mset (map smReq (tcSendQueue tc))"
proof -
  let ?ops = "[op_send [1], op_send [2], op_top 0, op_select 0,
    op_write 0 \<lparr>smReq = [1], smRetry = 0\<rparr> False]"
  obtain tc where tc: "run_ops ?ops (NewTarsClient demo_conf) = Some tc" "tcAccepted tc = [[1], [2]]"
    by (simp add: op_defs)
  then have "client_reach (TarsRequest 100) demo_conf tc"
    unfolding client_reach_def by (elim run_ops_reach) (auto intro: op_steps)
  with tc(2) requests_conserved [OF this] show ?thesis by force
qed

text \<open>However the server's bytes are cut into reads, the packages given to \<^verbatim>\<open>Recv\<close> are
  exactly the complete packages of the stream, in order, each counted off the outstanding
  calls, and the loop keeps the incomplete rest.\<close>

theorem client_stream_split:
  assumes "i < length (tcConns tc)" and "cnBuffer (tcConns tc ! i) = []"
    and "concat chunks = concat ps @ rest"
    and "\<And>p extra. p \<in> set ps \<Longrightarrow> TarsRequest maxLen (p @ extra) = (length p, PackageFull)"
    and "snd (TarsRequest maxLen rest) = PackageLess"
  shows "\<exists>tc'. clientFeed (TarsRequest maxLen) i chunks tc = Some tc'
    \<and> tcReceived tc' = tcReceived tc @ ps \<and> cnBuffer (tcConns tc' ! i) = rest
    \<and> tcInvokeNum tc' = tcInvokeNum tc - of_nat (length ps)"
  using tars_framing.clientFeed_splits [of maxLen tc i chunks ps rest] assms(1,2,3)
    tars_framing.splits_packages [OF assms(4,5)] tars_framing.empty_less
  by (simp add: got_packages_def)

theorem client_stream_split_witness:
  "\<exists>tc'. clientFeed (TarsRequest 100) 0 [[0, 0, 0], [5, 9, 0, 0], [0]] (snd (ReConnect None 0 (NewTarsClient demo_conf)))
      = Some tc' \<and> tcReceived tc' = [[0, 0, 0, 5, 9]] \<and> cnBuffer (tcConns tc' ! 0) = [0, 0, 0]"
  using client_stream_split [of 0 "snd (ReConnect None 0 (NewTarsClient demo_conf))"
      "[[0, 0, 0], [5, 9, 0, 0], [0]]" "[[0, 0, 0, 5, 9]]" "[0, 0, 0]" 100]
  by (force simp: op_defs TarsRequest_def Uint32_def)

text \<open>A sender that outlives its connection closes the wrong one: it waits for a message
  while its connection breaks and another is opened, takes the next request, fails to write it
  and marks the client closed. The current connection is then open and served, yet the next
  request opens one more beside it.\<close>

theorem stale_sender_closes_client:
  "\<exists>tc conf. client_reach parse conf tc \<and> tcIsClosed tc
    \<and> (let c = last (tcConns tc) in cnOpen c \<and> cnReceiving c \<and> cnSender c = AtTop)
    \<and> (\<exists>tc'. Send None now False req tc = Some (None, tc') \<and> length (filter cnOpen (tcConns tc')) = 2)"
proof -
  let ?m1 = "\<lparr>smReq = [1], smRetry = 0\<rparr>" and ?m2 = "\<lparr>smReq = [2], smRetry = 0\<rparr>"
  let ?ops = "[op_send [1], op_top 0, op_select 0, op_write 0 ?m1 True, op_top 0,
    op_recv parse 0 (ReadFail RemoteEOF), op_send [2], op_select 0, op_write 0 ?m2 False]"
  obtain tc where tc: "run_ops ?ops (NewTarsClient demo_conf) = Some tc"
    and "tcIsClosed tc" "let c = last (tcConns tc) in cnOpen c \<and> cnReceiving c \<and> cnSender c = AtTop"
    and "\<exists>tc'. Send None now False req tc = Some (None, tc') \<and> length (filter cnOpen (tcConns tc')) = 2"
    by (simp add: op_defs clientRound_def isNoDataError_def)
  moreover have "client_reach parse demo_conf tc"
    unfolding client_reach_def by (rule run_ops_reach [OF tc]) (auto intro: op_steps)
  ultimately show ?thesis by blast
qed

text \<open>The count of outstanding calls goes wrong for good when a write fails: the failed write
  is counted and so is its retry, but only one response comes. The client can reach a state
  where every request has been written once and answered and nothing is queued, yet the count
  is 1: the sender's idle check, which asks for 0, never closes the connection and
  \<^verbatim>\<open>GraceClose\<close> waits until its context ends.\<close>

theorem invoke_count_drifts:
  "\<exists>tc conf. client_reach (TarsRequest 100) conf tc
    \<and> tcAccepted tc = map smReq (concat (map cnWritten (tcConns tc)))
    \<and> length (tcReceived tc) = length (tcAccepted tc) \<and> tcSendQueue tc = [] \<and> tcSendFailQueue tc = []
    \<and> tcInvokeNum tc = 1 \<and> \<not> fst (graceCloseTick tc)"
proof -
  let ?m1 = "\<lparr>smReq = [1], smRetry = 0\<rparr>" and ?m2 = "\<lparr>smReq = [1], smRetry = 1\<rparr>"
  let ?ops = "[op_send [1], op_top 0, op_select 0, op_write 0 ?m1 False, op_reconnect,
    op_top 1, op_select 1, op_write 1 ?m2 True, op_recv (TarsRequest 100) 1 (ReadData [0, 0, 0, 4])]"
  have parse: "TarsRequest 100 [0, 0, 0, 4] = (4, PackageFull)"
    by (simp add: TarsRequest_def Uint32_def)
  obtain tc where tc: "run_ops ?ops (NewTarsClient demo_conf) = Some tc"
    and "tcAccepted tc = map smReq (concat (map cnWritten (tcConns tc)))"
    and "length (tcReceived tc) = length (tcAccepted tc)" "tcSendQueue tc = []" "tcSendFailQueue tc = []"
    "tcInvokeNum tc = 1" "\<not> fst (graceCloseTick tc)"
    by (simp add: op_defs clientRound_def parse graceCloseTick_def)
  moreover have "client_reach (TarsRequest 100) demo_conf tc"
    unfolding client_reach_def by (rule run_ops_reach [OF tc]) (auto intro: op_steps)
  ultimately show ?thesis by blast
qed

end
