(* ===== verification/Request_Ids.thy ===== *)
theory Request_Ids
  imports Go_Prelude
begin

text \<open>
  The ids of requests, \<^verbatim>\<open>genRequestID\<close> of \<^verbatim>\<open>tars/servant.go\<close>. All proxies of a process share the counter
  \<^verbatim>\<open>msgID\<close>, and each id is made by a compare-and-swap and one or more atomic additions, between which
  other goroutines may do theirs. The counter therefore sees some sequence of these two
  operations, and what is shown of ids is shown for every such sequence.
\<close>

section \<open>The counter\<close>

definition maxInt32 :: int32 where "maxInt32 = push_bit 31 1 - 1"

definition swapMax :: "int32 \<Rightarrow> int32" where
  "swapMax msgID = (if msgID = maxInt32 then 1 else msgID)"

text \<open>The loop of additions until the value is not 0, which is kept for messages the server pushes. It
  yields the id, which is the new value of the counter.\<close>

partial_function (option) addLoop :: "int32 \<Rightarrow> int32 option" where
  "addLoop msgID = (let v = msgID + 1 in if v \<noteq> 0 then Some v else addLoop v)"

definition genRequestID :: "int32 \<Rightarrow> int32 option" where
  "genRequestID msgID = addLoop (swapMax msgID)"

lemma genRequestID_returns:
  "genRequestID msgID = Some (if msgID = maxInt32 then 2 else if msgID = - 1 then 1 else msgID + 1)"
proof -
  have loop: "addLoop c = Some (if c = - 1 then 1 else c + 1)" for c
    by (subst addLoop.simps, subst addLoop.simps) (auto simp: Let_def eq_neg_iff_add_eq_0)
  show ?thesis
    by (auto simp: genRequestID_def swapMax_def loop maxInt32_def)
qed

section \<open>Interleavings\<close>

datatype idOp = Swap | Bump

text \<open>The ids handed out by a sequence of operations, and the counter after it.\<close>

fun idRun :: "idOp list \<Rightarrow> int32 \<Rightarrow> int32 list \<times> int32" where
  "idRun [] c = ([], c)"
| "idRun (Swap # ops) c = idRun ops (swapMax c)"
| "idRun (Bump # ops) c =
     (let v = c + 1; (ids, c') = idRun ops v in (if v \<noteq> 0 then v # ids else ids, c'))"

text \<open>One goroutine alone performs a sequence that yields one id.\<close>

lemma genRequestID_run:
  assumes "genRequestID c = Some v"
  shows "idRun [Swap, Bump] c = ([v], v) \<or> idRun [Swap, Bump, Bump] c = ([v], v)"
  using assms eq_neg_iff_add_eq_0 [of c 1]
  by (auto simp: genRequestID_returns swapMax_def Let_def maxInt32_def split: if_splits)

lemma sint_max: "sint maxInt32 = 2 ^ 31 - 1"
  by (simp add: maxInt32_def)

lemma sint_zero_iff: "sint (c :: int32) = 0 \<longleftrightarrow> c = 0"
  by (metis signed_word_eqI sint_0)

lemma sint_range32: "- (2 ^ 31) \<le> sint (c :: int32)" "sint (c :: int32) < 2 ^ 31"
  using sint_ge [of c] sint_lt [of c] by simp_all

lemma sint_step: "sint (c + 1 :: int32) = (if c = maxInt32 then - (2 ^ 31) else sint c + 1)"
proof (cases "c = maxInt32")
  case False
  then have "sint c \<noteq> 2 ^ 31 - 1"
    using sint_max by (metis signed_word_eqI)
  then have "sint (c + 1) = sint c + 1"
    using sint_range32 [of c] by (simp add: sint_word_ariths(1) signed_take_bit_int_eq_self)
  with False show ?thesis by simp
qed (simp add: maxInt32_def)

text \<open>A lower bound on how many ids are handed out from the value \<open>c\<close> on until \<open>x\<close> is: along the
  numbers, without 0, or from the largest one back to 1.\<close>

definition ids_until :: "int \<Rightarrow> int \<Rightarrow> int" where
  "ids_until x c =
     (if 1 \<le> c \<and> c < x then x - c
      else if c < x then x - c - (if c < 0 \<and> 0 < x then 1 else 0)
      else if 2 \<le> x then (2 ^ 31 - 1 - c) + (x - 1)
      else 2 ^ 32 - (c - x) - (if c < 0 \<or> 0 < x then 1 else 0))"

lemma ids_until_swap: "ids_until x (sint c) \<le> ids_until x (sint (swapMax c))"
  using sint_max by (auto simp: swapMax_def ids_until_def)

lemma ids_until_bump:
  assumes "x \<noteq> 0" and "- (2 ^ 31) \<le> x" and "x < 2 ^ 31"
  shows "sint (c + 1 :: int32) = x \<Longrightarrow> ids_until x (sint c) \<le> 1"
    and "sint (c + 1 :: int32) \<noteq> x \<Longrightarrow> sint (c + 1) \<noteq> 0 \<Longrightarrow> ids_until x (sint c) \<le> ids_until x (sint (c + 1)) + 1"
    and "sint (c + 1 :: int32) = 0 \<Longrightarrow> ids_until x (sint c) \<le> ids_until x 0"
  using assms sint_range32 [of c] sint_max sint_step [of c]
  by (auto simp: ids_until_def split: if_splits)

lemma run_bound:
  assumes "idRun ops c = (ids, c')" and "k < length ids"
  shows "ids ! k \<noteq> 0 \<and> ids_until (sint (ids ! k)) (sint c) \<le> int k + 1"
  using assms
proof (induction ops c arbitrary: ids k rule: idRun.induct)
  case (2 ops c)
  then show ?case using ids_until_swap order_trans by fastforce
next
  case (3 ops c)
  obtain ids' where rest: "idRun ops (c + 1) = (ids', c')" "ids = (if c + 1 \<noteq> 0 then (c + 1) # ids' else ids')"
    using 3(2) by (auto simp: Let_def split: prod.splits)
  note IH = 3(1) [OF refl rest(1)]
  show ?case
  proof (cases "c + 1 = 0 \<or> 0 < k")
    case True
    then obtain j where j: "ids ! k = ids' ! j" "j < length ids'" "int j + (if c + 1 = 0 then 0 else 1) = int k"
      using rest(2) 3(3) by (cases k) (auto split: if_splits)
    have x: "sint (ids' ! j) \<noteq> 0" using IH [OF j(2)] by (simp add: sint_zero_iff)
    show ?thesis
      using IH [OF j(2)] j(1,3) ids_until_bump [OF x sint_range32, of c]
      by (cases "sint (c + 1) = sint (ids' ! j)") (auto simp: sint_zero_iff split: if_splits)
  next
    case False
    then show ?thesis
      using rest(2) ids_until_bump(1) [of "sint (c + 1)" c] sint_range32 [of "c + 1"] by (simp add: sint_zero_iff)
  qed
qed simp

lemma ids_until_self: "x \<noteq> 0 \<Longrightarrow> - (2 ^ 31) \<le> x \<Longrightarrow> x < 2 ^ 31 \<Longrightarrow> 2 ^ 31 - 2 \<le> ids_until x x"
  by (auto simp: ids_until_def)

lemma run_apart:
  assumes "idRun ops c = (ids, c')" and "i < j" and "j < length ids" and "ids ! i = ids ! j"
  shows "2 ^ 31 - 2 \<le> int j - int i"
  using assms
proof (induction ops c arbitrary: ids i j rule: idRun.induct)
  case (3 ops c)
  obtain ids' where rest: "idRun ops (c + 1) = (ids', c')" "ids = (if c + 1 \<noteq> 0 then (c + 1) # ids' else ids')"
    using 3(2) by (auto simp: Let_def split: prod.splits)
  note IH = 3(1) [OF refl rest(1)]
  show ?case
  proof (cases "c + 1 \<noteq> 0 \<and> i = 0")
    case True
    then obtain k where k: "j = Suc k" "k < length ids'" "ids' ! k = c + 1"
      using rest(2) 3(3-5) by (cases j) auto
    then show ?thesis
      using run_bound [OF rest(1) k(2)] ids_until_self [OF _ sint_range32, of "c + 1"] True
      by (simp add: sint_zero_iff)
  next
    case False
    then show ?thesis
      using rest(2) 3(3-5) IH [of "i - 1" "j - 1"] IH [of i j]
      by (cases i; cases j) (auto split: if_splits)
  qed
qed simp_all

lemma run_distinct:
  assumes "idRun ops c = (ids, c')"
  shows "distinct (take (2 ^ 31 - 2) (drop n ids))"
  unfolding distinct_conv_nth
proof (intro allI impI)
  fix i j assume "i < length (take (2 ^ 31 - 2) (drop n ids))" "j < length (take (2 ^ 31 - 2) (drop n ids))" "i \<noteq> j"
  then show "take (2 ^ 31 - 2) (drop n ids) ! i \<noteq> take (2 ^ 31 - 2) (drop n ids) ! j"
    using run_apart [OF assms, of "n + i" "n + j"] run_apart [OF assms, of "n + j" "n + i"]
    by (cases "i < j") (auto simp: less_diff_conv add.commute)
qed

section \<open>Property\<close>

text \<open>C26: However the goroutines that make requests interleave, and whatever the counter was, no request gets
  the id 0 and any 2147483646 requests in a row have different ids, although the counter wraps around.\<close>

theorem request_ids_distinct:
  "0 \<notin> set (fst (idRun ops msgID)) \<and> distinct (take (2 ^ 31 - 2) (drop n (fst (idRun ops msgID))))"
proof -
  obtain ids c' where run: "idRun ops msgID = (ids, c')" by force
  have "0 \<notin> set ids"
    using run_bound [OF run] by (metis in_set_conv_nth)
  then show ?thesis
    using run_distinct [OF run] by (simp add: run)
qed

end
