(* ===== verification/Client_Calls.thy ===== *)
theory Client_Calls
  imports Remote_Call Request_Ids "HOL-Library.Multiset"
begin

text \<open>
  The calls of a process side by side: \<^verbatim>\<open>doInvoke\<close> of \<^verbatim>\<open>tars/servant.go\<close> cut into the steps of \<open>Client_Proxy\<close>,
  \<^verbatim>\<open>Recv\<close> and \<^verbatim>\<open>onPush\<close> of \<^verbatim>\<open>tars/adapter.go\<close>, keep-alive pings and the endpoint manager's own work, interleaved
  in any way. A call's channel has no buffer: \<^verbatim>\<open>Recv\<close> waits until the call receives or the read timeout
  passes. Every call is one \<^verbatim>\<open>TarsInvoke\<close> that runs \<^verbatim>\<open>doInvoke\<close> once.
\<close>

section \<open>Receiving\<close>

datatype recvAction = Pushed | Ignored | Handed nat | Dropped

definition Recv :: "nat \<Rightarrow> ResponsePacket \<Rightarrow> callWorld \<Rightarrow> recvAction" where
  "Recv i packet w =
     (if rsIRequestId packet = 0 then Pushed
      else if rsCPacketType packet = TARSONEWAY then Ignored
      else (case cwResp w (i, rsIRequestId packet) of Some ch \<Rightarrow> Handed ch | None \<Rightarrow> Dropped))"

datatype pushAction = Reconnect | Callback bytes | NoCallback

definition onPush :: "nat \<Rightarrow> ResponsePacket \<Rightarrow> callWorld \<Rightarrow> pushAction" where
  "onPush i pkg w =
     (if rsSResultDesc pkg = reconnectMsg then Reconnect
      else if i \<notin> cwPushing w then NoCallback
      else Callback (map ucast (rsSBuffer pkg)))"

section \<open>State\<close>

text \<open>How a call ends: with an error of its own, as a one-way call, or with a response.\<close>

datatype outcome = Gave goError | Posted | Answered ResponsePacket

datatype phase =
    Born
  | Chosen nat bool
  | Admitted nat bool
  | Registered nat bool
  | Waiting nat bool
  | Leaving nat outcome
  | Over "nat option" outcome

record call =
  clCtx :: Ctx
  clMsg :: Message
  clPhase :: phase

text \<open>\<open>kDeliv\<close> are the goroutines of \<^verbatim>\<open>Recv\<close> that wait to hand over a packet: adapter, channel (the number of the
  call) and packet. \<open>kPings\<close> counts keep-alive pings under way, \<open>kProbes\<close> are the goroutines that reset a probed
  adapter. \<open>kIds\<close> and \<open>kGot\<close> record the ids handed out and the packets that came.\<close>

record client =
  kMsgID :: int32
  kWorld :: callWorld
  kCalls :: "call list"
  kDeliv :: "(nat \<times> nat \<times> ResponsePacket) list"
  kPings :: nat
  kProbes :: "nat list"
  kIds :: "int32 list"
  kGot :: "(nat \<times> ResponsePacket) list"

definition new_client :: "int32 \<Rightarrow> endpointManager \<Rightarrow> client" where
  "new_client msgID e = \<lparr>kMsgID = msgID, kWorld = \<lparr>cwManager = e, cwQueueLen = 0, cwResp = \<lambda>k. None, cwPushing = {}\<rparr>,
     kCalls = [], kDeliv = [], kPings = 0, kProbes = [], kIds = [], kGot = []\<rparr>"

definition callInv :: "nat \<Rightarrow> client \<Rightarrow> cinv" where
  "callInv i k = \<lparr>ciCtx = clCtx (kCalls k ! i), ciMsg = clMsg (kCalls k ! i), ciWorld = kWorld k\<rparr>"

definition putCall :: "nat \<Rightarrow> cinv \<Rightarrow> phase \<Rightarrow> client \<Rightarrow> client" where
  "putCall i s ph k = k\<lparr>kWorld := ciWorld s,
     kCalls := (kCalls k)[i := \<lparr>clCtx = ciCtx s, clMsg = ciMsg s, clPhase = ph\<rparr>]\<rparr>"

definition addQueue :: "int32 \<Rightarrow> client \<Rightarrow> client" where
  "addQueue d k = k\<lparr>kWorld := (kWorld k)\<lparr>cwQueueLen := cwQueueLen (kWorld k) + d\<rparr>\<rparr>"

definition setManager :: "endpointManager \<Rightarrow> client \<Rightarrow> client" where
  "setManager e k = k\<lparr>kWorld := (kWorld k)\<lparr>cwManager := e\<rparr>\<rparr>"

definition takeId :: "int32 \<Rightarrow> client \<Rightarrow> client" where
  "takeId v k = k\<lparr>kMsgID := v, kIds := kIds k @ [v]\<rparr>"

definition inPhase :: "nat \<Rightarrow> phase \<Rightarrow> client \<Rightarrow> bool" where
  "inPhase i ph k \<longleftrightarrow> i < length (kCalls k) \<and> clPhase (kCalls k ! i) = ph"

inductive calls_step :: "(bytes \<Rightarrow> bytes) \<Rightarrow> int \<Rightarrow> client \<Rightarrow> client \<Rightarrow> bool" for md5 objQueueMax where
  swap: "calls_step md5 objQueueMax k (k\<lparr>kMsgID := swapMax (kMsgID k)\<rparr>)"
| skip: "kMsgID k + 1 = 0 \<Longrightarrow> calls_step md5 objQueueMax k (k\<lparr>kMsgID := 0\<rparr>)"
| call: "v = kMsgID k + 1 \<Longrightarrow> v \<noteq> 0 \<Longrightarrow> rqIRequestId (mgReq msg) = v \<Longrightarrow>
    calls_step md5 objQueueMax k (takeId v (k\<lparr>kCalls := kCalls k @ [\<lparr>clCtx = ctx, clMsg = msg, clPhase = Born\<rparr>]\<rparr>))"
| ping: "v = kMsgID k + 1 \<Longrightarrow> v \<noteq> 0 \<Longrightarrow>
    calls_step md5 objQueueMax k (addQueue 1 (takeId v (k\<lparr>kPings := Suc (kPings k)\<rparr>)))"
| pinged: "kPings k = Suc n \<Longrightarrow> calls_step md5 objQueueMax k (addQueue (- 1) (k\<lparr>kPings := n\<rparr>))"
| choose: "inPhase i Born k \<Longrightarrow> di_select intn (callInv i k) = Inr (r, s) \<Longrightarrow>
    calls_step md5 objQueueMax k (putCall i s (case r of Inl err \<Rightarrow> Over None (Gave err) | Inr (a, c) \<Rightarrow> Chosen a c) k)"
| admit: "inPhase i (Chosen a c) k \<Longrightarrow> calls_step md5 objQueueMax k
    (putCall i (callInv i k) (case di_admit objQueueMax (callInv i k) of Some err \<Rightarrow> Over None (Gave err) | None \<Rightarrow> Admitted a c) k)"
| register: "inPhase i (Admitted a c) k \<Longrightarrow>
    calls_step md5 objQueueMax k (putCall i (di_register push a i (callInv i k)) (Registered a c) k)"
| send: "inPhase i (Registered a c) k \<Longrightarrow> di_send a now sent (callInv i k) = (r, s) \<Longrightarrow> calls_step md5 objQueueMax k
    (putCall i s (case r of None \<Rightarrow> Waiting a c | Some None \<Rightarrow> Leaving a Posted | Some (Some err) \<Rightarrow> Leaving a (Gave err)) k)"
| timeout: "inPhase i (Waiting a c) k \<Longrightarrow> di_timeout a nowMs (callInv i k) = (err, s) \<Longrightarrow>
    calls_step md5 objQueueMax k (putCall i s (Leaving a (Gave err)) k)"
| recv: "ResponseUnpack pkg = (p, None) \<Longrightarrow> calls_step md5 objQueueMax k
    (k\<lparr>kGot := kGot k @ [(a, p)],
       kDeliv := kDeliv k @ (case Recv a p (kWorld k) of Handed ch \<Rightarrow> [(a, ch, p)] | _ \<Rightarrow> [])\<rparr>)"
| give_up: "kDeliv k = ds @ d # ds' \<Longrightarrow> calls_step md5 objQueueMax k (k\<lparr>kDeliv := ds @ ds'\<rparr>)"
| answer: "inPhase i (Waiting a c) k \<Longrightarrow> kDeliv k = ds @ (a', i, p) # ds' \<Longrightarrow> di_answer a now p (callInv i k) = (err, s) \<Longrightarrow>
    calls_step md5 objQueueMax k
      ((putCall i s (Leaving a (Answered p)) k)\<lparr>kDeliv := ds @ ds', kProbes := (if c then kProbes k @ [a] else kProbes k)\<rparr>)"
| leave: "inPhase i (Leaving a out) k \<Longrightarrow>
    calls_step md5 objQueueMax k (putCall i (di_leave a (callInv i k)) (Over (Some a) out) k)"
| probe: "kProbes k = ps @ a # ps' \<Longrightarrow> probeAnswered md5 intn now a (cwManager (kWorld k)) = Done e \<Longrightarrow>
    calls_step md5 objQueueMax k (setManager e (k\<lparr>kProbes := ps @ ps'\<rparr>))"
| manage: "em_step md5 (cwManager (kWorld k)) e \<Longrightarrow> calls_step md5 objQueueMax k (setManager e k)"

definition calls_reach :: "(bytes \<Rightarrow> bytes) \<Rightarrow> int \<Rightarrow> client \<Rightarrow> bool" where
  "calls_reach md5 objQueueMax k \<longleftrightarrow>
     (\<exists>msgID e. em_reach md5 e \<and> (calls_step md5 objQueueMax)\<^sup>*\<^sup>* (new_client msgID e) k)"

section \<open>What the invariant sees\<close>

definition ridOf :: "call \<Rightarrow> int32" where
  "ridOf c = rqIRequestId (mgReq (clMsg c))"

text \<open>The adapter on which a call is registered, the one it was registered on, and its response.\<close>

fun openOn :: "phase \<Rightarrow> nat option" where
  "openOn (Registered a c) = Some a"
| "openOn (Waiting a c) = Some a"
| "openOn (Leaving a out) = Some a"
| "openOn _ = None"

fun usedOn :: "phase \<Rightarrow> nat option" where
  "usedOn (Over a out) = a"
| "usedOn ph = openOn ph"

fun answerOf :: "phase \<Rightarrow> (nat \<times> ResponsePacket) option" where
  "answerOf (Leaving a (Answered p)) = Some (a, p)"
| "answerOf (Over (Some a) (Answered p)) = Some (a, p)"
| "answerOf _ = None"

definition rids :: "client \<Rightarrow> int32 list" where "rids k = map ridOf (kCalls k)"
definition opens :: "client \<Rightarrow> nat option list" where "opens k = map (openOn \<circ> clPhase) (kCalls k)"
definition useds :: "client \<Rightarrow> nat option list" where "useds k = map (usedOn \<circ> clPhase) (kCalls k)"
definition answers :: "client \<Rightarrow> (nat \<times> ResponsePacket) option list" where
  "answers k = map (answerOf \<circ> clPhase) (kCalls k)"

lemmas view_defs = rids_def opens_def useds_def answers_def

lemma view_putCall:
  assumes "i < length (kCalls k)" and "mgReq (ciMsg s) = mgReq (clMsg (kCalls k ! i))"
  shows "rids (putCall i s ph k) = rids k" "opens (putCall i s ph k) = (opens k)[i := openOn ph]"
    "useds (putCall i s ph k) = (useds k)[i := usedOn ph]" "answers (putCall i s ph k) = (answers k)[i := answerOf ph]"
  using assms by (auto simp: view_defs putCall_def ridOf_def map_update intro!: nth_equalityI simp: nth_list_update)

lemma view_at:
  assumes "inPhase i ph k"
  shows "opens k ! i = openOn ph" "useds k ! i = usedOn ph" "answers k ! i = answerOf ph" "i < length (kCalls k)"
    "mgReq (ciMsg (callInv i k)) = mgReq (clMsg (kCalls k ! i))" "rids k ! i = rqIRequestId (mgReq (ciMsg (callInv i k)))"
  using assms by (auto simp: inPhase_def view_defs callInv_def ridOf_def)

lemma open_used: "i < length (rids k) \<Longrightarrow> opens k ! i = Some a \<Longrightarrow> useds k ! i = Some a"
  by (cases "clPhase (kCalls k ! i)") (auto simp: view_defs)

lemma view_length [simp]:
  "length (opens k) = length (rids k)" "length (useds k) = length (rids k)" "length (answers k) = length (rids k)"
  "length (kCalls k) = length (rids k)"
  by (simp_all add: view_defs)

lemma view_updates [simp]:
  "rids (kDeliv_update fa k) = rids k" "opens (kDeliv_update fa k) = opens k" "useds (kDeliv_update fa k) = useds k" "answers (kDeliv_update fa k) = answers k"
  "rids (kProbes_update fb k) = rids k" "opens (kProbes_update fb k) = opens k" "useds (kProbes_update fb k) = useds k" "answers (kProbes_update fb k) = answers k"
  "rids (kMsgID_update fc k) = rids k" "opens (kMsgID_update fc k) = opens k" "useds (kMsgID_update fc k) = useds k" "answers (kMsgID_update fc k) = answers k"
  "rids (kPings_update fd k) = rids k" "opens (kPings_update fd k) = opens k" "useds (kPings_update fd k) = useds k" "answers (kPings_update fd k) = answers k"
  "rids (kIds_update fe k) = rids k" "opens (kIds_update fe k) = opens k" "useds (kIds_update fe k) = useds k" "answers (kIds_update fe k) = answers k"
  "rids (kGot_update fg k) = rids k" "opens (kGot_update fg k) = opens k" "useds (kGot_update fg k) = useds k" "answers (kGot_update fg k) = answers k"
  "rids (kWorld_update fh k) = rids k" "opens (kWorld_update fh k) = opens k" "useds (kWorld_update fh k) = useds k" "answers (kWorld_update fh k) = answers k"
  by (simp_all add: view_defs)

section \<open>The invariant\<close>

text \<open>The ids are those of some interleaving on the counter, and calls have ids of their own as long as ids differ.\<close>

definition ids_inv :: "client \<Rightarrow> bool" where
  "ids_inv k \<longleftrightarrow> (\<exists>c ops. idRun ops c = (kIds k, kMsgID k))
     \<and> set (rids k) \<subseteq> set (kIds k) \<and> (distinct (kIds k) \<longrightarrow> distinct (rids k))"

text \<open>A channel belongs to a registered call and, as long as ids differ, every registered call has its channel.\<close>

definition resp_inv :: "client \<Rightarrow> bool" where
  "resp_inv k \<longleftrightarrow>
     (\<forall>a v i. cwResp (kWorld k) (a, v) = Some i \<longrightarrow> i < length (rids k) \<and> opens k ! i = Some a \<and> rids k ! i = v)
     \<and> (distinct (kIds k) \<longrightarrow>
          (\<forall>i a. i < length (rids k) \<longrightarrow> opens k ! i = Some a \<longrightarrow> cwResp (kWorld k) (a, rids k ! i) = Some i))"

definition queue_inv :: "client \<Rightarrow> bool" where
  "queue_inv k \<longleftrightarrow> cwQueueLen (kWorld k) = word_of_nat (length (filter (\<lambda>x. x \<noteq> None) (opens k)) + kPings k)"

text \<open>Packets wait for, and answer, calls that use their adapter and have their id; no packet is used twice.\<close>

definition deliv_inv :: "client \<Rightarrow> bool" where
  "deliv_inv k \<longleftrightarrow>
     (\<forall>(a, i, p) \<in> set (kDeliv k). i < length (rids k) \<and> useds k ! i = Some a \<and> rsIRequestId p = rids k ! i)
     \<and> (\<forall>i a p. i < length (rids k) \<longrightarrow> answers k ! i = Some (a, p) \<longrightarrow> useds k ! i = Some a \<and> rsIRequestId p = rids k ! i)
     \<and> mset (map (\<lambda>(a, i, p). Some (a, p)) (kDeliv k)) + mset (filter (\<lambda>x. x \<noteq> None) (answers k)) \<subseteq># mset (map Some (kGot k))"

lemma idRun_append: "idRun (xs @ ys) c = (case idRun xs c of (ids, d) \<Rightarrow> case idRun ys d of (ids', e) \<Rightarrow> (ids @ ids', e))"
  by (induction xs c rule: idRun.induct) (auto simp: Let_def split: prod.splits)

lemma idRun_extend:
  assumes "\<exists>c ops. idRun ops c = (ids, d)" and "idRun [x] d = (ids', e)"
  shows "\<exists>c ops. idRun ops c = (ids @ ids', e)"
  using assms by (metis (mono_tags, lifting) idRun_append case_prod_conv)

lemma filter_update:
  "i < length xs \<Longrightarrow> length (filter P (xs[i := v])) + (if P (xs ! i) then 1 else 0)
     = length (filter P xs) + (if P v then 1 else 0)"
proof (induction xs arbitrary: i)
  case (Cons x xs)
  from Cons.IH [of "i - 1"] Cons.prems show ?case by (cases i) (auto split: if_splits)
qed simp

lemma mset_filter_update:
  "i < length xs \<Longrightarrow> xs ! i = None \<Longrightarrow>
   mset (filter (\<lambda>x. x \<noteq> None) (xs[i := Some y])) = add_mset (Some y) (mset (filter (\<lambda>x. x \<noteq> None) xs))"
  by (induction xs arbitrary: i) (auto split: nat.splits)

text \<open>Steps of a call that neither register it nor end it leave everything the invariant sees alone.\<close>

definition calls_inv :: "client \<Rightarrow> bool" where
  "calls_inv k \<longleftrightarrow> ids_inv k \<and> resp_inv k \<and> queue_inv k \<and> deliv_inv k"

lemmas inv_defs = calls_inv_def ids_inv_def resp_inv_def queue_inv_def deliv_inv_def

lemma quiet_keeps:
  assumes "calls_inv k" and "inPhase i ph k" and "mgReq (ciMsg s) = mgReq (ciMsg (callInv i k))"
    and "cwQueueLen (ciWorld s) = cwQueueLen (kWorld k)" and "cwResp (ciWorld s) = cwResp (kWorld k)"
    and "openOn ph' = openOn ph" and "usedOn ph' = usedOn ph" and "answerOf ph' = answerOf ph"
  shows "calls_inv (putCall i s ph' k)"
proof -
  note at = view_at [OF assms(2)]
  have s: "mgReq (ciMsg s) = mgReq (clMsg (kCalls k ! i))" using assms(3) at(5) by simp
  have same: "opens (putCall i s ph' k) = opens k" "useds (putCall i s ph' k) = useds k"
      "answers (putCall i s ph' k) = answers k" "rids (putCall i s ph' k) = rids k"
    using view_putCall [OF at(4) s, of ph'] at(1-3) assms(6-8) by (metis list_update_id)+
  moreover have "kWorld (putCall i s ph' k) = ciWorld s" "kIds (putCall i s ph' k) = kIds k" "kMsgID (putCall i s ph' k) = kMsgID k"
      "kDeliv (putCall i s ph' k) = kDeliv k" "kPings (putCall i s ph' k) = kPings k" "kGot (putCall i s ph' k) = kGot k"
    by (simp_all add: putCall_def)
  ultimately show ?thesis
    using assms(1,4,5) by (simp add: inv_defs)
qed

lemma own_id:
  "calls_inv k \<Longrightarrow> distinct (kIds k) \<Longrightarrow> i < length (rids k) \<Longrightarrow> j < length (rids k) \<Longrightarrow> rids k ! j = rids k ! i \<Longrightarrow> j = i"
  by (simp add: inv_defs nth_eq_iff_index_eq)

lemma deliv_mono:
  assumes "deliv_inv k" and "rids k' = rids k" and "answers k' = answers k" and "kDeliv k' = kDeliv k" and "kGot k' = kGot k"
    and "\<And>i a. i < length (rids k) \<Longrightarrow> useds k ! i = Some a \<Longrightarrow> useds k' ! i = Some a"
  shows "deliv_inv k'"
  using assms unfolding deliv_inv_def by (auto simp del: mset_map mset_filter)

lemma register_keeps:
  assumes "calls_inv k" and "inPhase i (Admitted a c) k"
  shows "calls_inv (putCall i (di_register push a i (callInv i k)) (Registered a c) k)"
proof -
  let ?s = "di_register push a i (callInv i k)" and ?v = "rids k ! i"
  let ?k = "putCall i ?s (Registered a c) k"
  note at = view_at [OF assms(2)]
  have s: "ciMsg ?s = ciMsg (callInv i k)" "cwQueueLen (ciWorld ?s) = cwQueueLen (kWorld k) + 1"
      "cwResp (ciWorld ?s) = (cwResp (kWorld k))((a, ?v) \<mapsto> i)"
    by (simp_all add: di_register_def at(6) Let_def) (simp_all add: callInv_def)
  have v: "rids ?k = rids k" "opens ?k = (opens k)[i := Some a]" "useds ?k = (useds k)[i := Some a]" "answers ?k = answers k"
    using view_putCall [OF at(4), of ?s "Registered a c"] at s(1) list_update_id [of "answers k" i] by simp_all
  have k: "kWorld ?k = ciWorld ?s" "kIds ?k = kIds k" "kMsgID ?k = kMsgID k"
      "kDeliv ?k = kDeliv k" "kPings ?k = kPings k" "kGot ?k = kGot k"
    by (simp_all add: putCall_def)
  have "ids_inv ?k"
    using assms(1) by (simp add: inv_defs v k)
  moreover have "resp_inv ?k"
    using assms(1) [unfolded calls_inv_def resp_inv_def] at(1,4) own_id [OF assms(1), of i]
    by (auto simp: resp_inv_def v k s nth_list_update split: if_splits)
  moreover have "queue_inv ?k"
    using assms(1) [unfolded calls_inv_def queue_inv_def] at(1,4) filter_update [of i "opens k" "\<lambda>x. x \<noteq> None" "Some a"]
    by (simp add: queue_inv_def v k s)
  moreover have "deliv_inv ?k"
    by (rule deliv_mono [of k]) (use assms(1) at in \<open>auto simp: calls_inv_def v k nth_list_update\<close>)
  ultimately show ?thesis by (simp add: calls_inv_def)
qed

lemma leave_keeps:
  assumes "calls_inv k" and "inPhase i (Leaving a out) k"
  shows "calls_inv (putCall i (di_leave a (callInv i k)) (Over (Some a) out) k)"
proof -
  let ?s = "di_leave a (callInv i k)" and ?v = "rids k ! i"
  let ?k = "putCall i ?s (Over (Some a) out) k"
  note at = view_at [OF assms(2)]
  have s: "ciMsg ?s = ciMsg (callInv i k)" "cwQueueLen (ciWorld ?s) = cwQueueLen (kWorld k) - 1"
      "cwResp (ciWorld ?s) = (cwResp (kWorld k))((a, ?v) := None)"
    by (simp_all add: di_leave_def at(6) Let_def) (simp_all add: callInv_def)
  have "answerOf (Over (Some a) out) = answerOf (Leaving a out)"
    by (cases out) auto
  then have v: "rids ?k = rids k" "opens ?k = (opens k)[i := None]" "useds ?k = useds k" "answers ?k = answers k"
    using view_putCall [OF at(4), of ?s "Over (Some a) out"] at s(1) list_update_id [of "answers k" i]
      list_update_id [of "useds k" i] by simp_all
  have k: "kWorld ?k = ciWorld ?s" "kIds ?k = kIds k" "kMsgID ?k = kMsgID k"
      "kDeliv ?k = kDeliv k" "kPings ?k = kPings k" "kGot ?k = kGot k"
    by (simp_all add: putCall_def)
  have "ids_inv ?k"
    using assms(1) by (simp add: inv_defs v k)
  moreover have "resp_inv ?k"
    using assms(1) [unfolded calls_inv_def resp_inv_def] at(1,4) own_id [OF assms(1), of i]
    by (auto simp: resp_inv_def v k s nth_list_update split: if_splits)
  moreover have "queue_inv ?k"
    using assms(1) [unfolded calls_inv_def queue_inv_def] at(1,4)
      filter_update [of i "opens k" "\<lambda>x. x \<noteq> None" None, symmetric]
    by (simp add: queue_inv_def v k s)
  moreover have "deliv_inv ?k"
    using assms(1) by (simp add: inv_defs v k)
  ultimately show ?thesis by (simp add: calls_inv_def)
qed

lemma answer_keeps:
  assumes "calls_inv k" and "inPhase i (Waiting a c) k" and "kDeliv k = ds @ (a', i, p) # ds'"
    and "di_answer a now p (callInv i k) = (err, s)"
  shows "calls_inv ((putCall i s (Leaving a (Answered p)) k)\<lparr>kDeliv := ds @ ds', kProbes := ps\<rparr>)"
proof -
  let ?k = "(putCall i s (Leaving a (Answered p)) k)\<lparr>kDeliv := ds @ ds', kProbes := ps\<rparr>"
  note at = view_at [OF assms(2)]
  have a': "a' = a" "rsIRequestId p = rids k ! i"
    using assms(1,3) at(2) by (auto simp: inv_defs)
  have s: "mgReq (ciMsg s) = mgReq (ciMsg (callInv i k))" "cwQueueLen (ciWorld s) = cwQueueLen (kWorld k)"
      "cwResp (ciWorld s) = cwResp (kWorld k)"
    using assms(4) by (auto simp: di_answer_def onAdapter_def callInv_def Let_def)
  have v: "rids ?k = rids k" "opens ?k = opens k" "useds ?k = useds k" "answers ?k = (answers k)[i := Some (a, p)]"
    using view_putCall [OF at(4), of s "Leaving a (Answered p)"] at(1,2,5) s(1) list_update_id [of "opens k" i]
      list_update_id [of "useds k" i] by simp_all
  have k: "kWorld ?k = ciWorld s" "kIds ?k = kIds k" "kMsgID ?k = kMsgID k"
      "kDeliv ?k = ds @ ds'" "kPings ?k = kPings k" "kGot ?k = kGot k"
    by (simp_all add: putCall_def)
  have "ids_inv ?k" "resp_inv ?k" "queue_inv ?k"
    using assms(1) s unfolding inv_defs v k by simp_all
  moreover have "deliv_inv ?k"
    using assms(1) [unfolded calls_inv_def deliv_inv_def] at(2-4) a' mset_filter_update [of i "answers k" "(a, p)"]
    unfolding deliv_inv_def v k assms(3)
    by (intro conjI) (auto simp: nth_list_update simp del: mset_filter split: if_splits)
  ultimately show ?thesis by (simp add: calls_inv_def)
qed

lemma deliv_update:
  assumes "calls_inv k"
    and "\<And>a i p. (a, i, p) \<in> set d \<Longrightarrow> i < length (rids k) \<and> useds k ! i = Some a \<and> rsIRequestId p = rids k ! i"
    and "mset (map (\<lambda>(a, i, p). Some (a, p)) d) + mset (filter (\<lambda>x. x \<noteq> None) (answers k)) \<subseteq># mset (map Some g)"
  shows "calls_inv (k\<lparr>kGot := g, kDeliv := d\<rparr>)"
proof -
  have "ids_inv (k\<lparr>kGot := g, kDeliv := d\<rparr>)" "resp_inv (k\<lparr>kGot := g, kDeliv := d\<rparr>)" "queue_inv (k\<lparr>kGot := g, kDeliv := d\<rparr>)"
    using assms(1) by (simp_all add: calls_inv_def ids_inv_def resp_inv_def queue_inv_def)
  moreover have "deliv_inv (k\<lparr>kGot := g, kDeliv := d\<rparr>)"
    using assms(1) [unfolded calls_inv_def deliv_inv_def] assms(2,3)
    by (auto simp: deliv_inv_def simp del: mset_map mset_filter)
  ultimately show ?thesis by (simp add: calls_inv_def)
qed

lemma deliv_part:
  assumes "calls_inv k"
  shows "(a, i, p) \<in> set (kDeliv k) \<Longrightarrow> i < length (rids k) \<and> useds k ! i = Some a \<and> rsIRequestId p = rids k ! i"
    and "mset (map (\<lambda>(a, i, p). Some (a, p)) (kDeliv k)) + mset (filter (\<lambda>x. x \<noteq> None) (answers k)) \<subseteq># mset (map Some (kGot k))"
  using assms unfolding calls_inv_def deliv_inv_def by blast+

lemma recv_keeps:
  assumes "calls_inv k"
  shows "calls_inv (k\<lparr>kGot := kGot k @ [(a, p)],
    kDeliv := kDeliv k @ (case Recv a p (kWorld k) of Handed ch \<Rightarrow> [(a, ch, p)] | _ \<Rightarrow> [])\<rparr>)"
    (is "calls_inv (k\<lparr>kGot := _, kDeliv := _ @ ?d\<rparr>)")
proof (rule deliv_update [OF assms])
  have handed: "i < length (rids k) \<and> useds k ! i = Some a \<and> rsIRequestId p = rids k ! i" if "Recv a p (kWorld k) = Handed i" for i
  proof -
    have "i < length (rids k)" "opens k ! i = Some a" "rsIRequestId p = rids k ! i"
      using assms that by (auto simp: Recv_def calls_inv_def resp_inv_def split: if_splits option.splits)
    then show ?thesis
      using open_used by simp
  qed
  show "i < length (rids k) \<and> useds k ! i = Some b \<and> rsIRequestId q = rids k ! i" if "(b, i, q) \<in> set (kDeliv k @ ?d)" for b i q
    using that deliv_part(1) [OF assms] handed by (auto split: recvAction.splits)
  have "mset (map (\<lambda>(a, i, p). Some (a, p)) ?d) \<subseteq># {#Some (a, p)#}"
    by (auto split: recvAction.splits)
  from subset_mset.add_mono [OF deliv_part(2) [OF assms] this]
  show "mset (map (\<lambda>(a, i, p). Some (a, p)) (kDeliv k @ ?d)) + mset (filter (\<lambda>x. x \<noteq> None) (answers k))
      \<subseteq># mset (map Some (kGot k @ [(a, p)]))"
    by (simp add: ac_simps)
qed

lemma give_up_keeps:
  assumes "calls_inv k" and "kDeliv k = ds @ d # ds'"
  shows "calls_inv (k\<lparr>kDeliv := ds @ ds'\<rparr>)"
proof -
  have "calls_inv (k\<lparr>kGot := kGot k, kDeliv := ds @ ds'\<rparr>)"
  proof (rule deliv_update [OF assms(1)])
    show "i < length (rids k) \<and> useds k ! i = Some b \<and> rsIRequestId q = rids k ! i" if "(b, i, q) \<in> set (ds @ ds')" for b i q
      using that deliv_part(1) [OF assms(1)] assms(2) by auto
    show "mset (map (\<lambda>(a, i, p). Some (a, p)) (ds @ ds')) + mset (filter (\<lambda>x. x \<noteq> None) (answers k))
        \<subseteq># mset (map Some (kGot k))"
      by (rule subset_mset.order_trans [OF _ deliv_part(2) [OF assms(1)]]) (simp add: assms(2))
  qed
  then show ?thesis by simp
qed

lemma new_ids_keep:
  assumes "calls_inv k"
  shows "calls_inv (k\<lparr>kMsgID := swapMax (kMsgID k)\<rparr>)"
    and "kMsgID k + 1 = 0 \<Longrightarrow> calls_inv (k\<lparr>kMsgID := 0\<rparr>)"
    and "v = kMsgID k + 1 \<Longrightarrow> v \<noteq> 0 \<Longrightarrow> ridOf c = v \<Longrightarrow> clPhase c = Born \<Longrightarrow>
      calls_inv (takeId v (k\<lparr>kCalls := kCalls k @ [c]\<rparr>))"
    and "v = kMsgID k + 1 \<Longrightarrow> v \<noteq> 0 \<Longrightarrow> calls_inv (addQueue 1 (takeId v (k\<lparr>kPings := Suc (kPings k)\<rparr>)))"
proof -
  have run: "\<exists>c ops. idRun ops c = (kIds k, kMsgID k)"
    using assms by (simp add: inv_defs)
  have swap: "\<exists>c ops. idRun ops c = (kIds k, swapMax (kMsgID k))"
    using idRun_extend [OF run, of Swap "[]"] by simp
  have zero: "kMsgID k + 1 = 0 \<Longrightarrow> \<exists>c ops. idRun ops c = (kIds k, 0)"
    using idRun_extend [OF run, of Bump "[]" 0] by (simp add: Let_def)
  have bump: "v = kMsgID k + 1 \<Longrightarrow> v \<noteq> 0 \<Longrightarrow> \<exists>c ops. idRun ops c = (kIds k @ [v], v)" for v
    using idRun_extend [OF run, of Bump "[v]" v] by (simp add: Let_def)
  show "calls_inv (k\<lparr>kMsgID := swapMax (kMsgID k)\<rparr>)"
    using assms swap by (simp add: inv_defs)
  show "kMsgID k + 1 = 0 \<Longrightarrow> calls_inv (k\<lparr>kMsgID := 0\<rparr>)"
    using assms zero by (simp add: inv_defs)
  show "calls_inv (takeId v (k\<lparr>kCalls := kCalls k @ [c]\<rparr>))"
    if v: "v = kMsgID k + 1" "v \<noteq> 0" and c: "ridOf c = v" "clPhase c = Born"
  proof -
    let ?k = "takeId v (k\<lparr>kCalls := kCalls k @ [c]\<rparr>)"
    have "rids ?k = rids k @ [v]" "opens ?k = opens k @ [None]" "useds ?k = useds k @ [None]" "answers ?k = answers k @ [None]"
      using c by (simp_all add: view_defs takeId_def)
    moreover have "kIds ?k = kIds k @ [v]" "kMsgID ?k = v" "kWorld ?k = kWorld k" "kDeliv ?k = kDeliv k"
        "kPings ?k = kPings k" "kGot ?k = kGot k"
      by (simp_all add: takeId_def)
    ultimately show ?thesis
      using assms bump [OF v] by (auto simp: inv_defs nth_append less_Suc_eq)
  qed
  show "v = kMsgID k + 1 \<Longrightarrow> v \<noteq> 0 \<Longrightarrow> calls_inv (addQueue 1 (takeId v (k\<lparr>kPings := Suc (kPings k)\<rparr>)))"
    using assms bump by (auto simp: inv_defs addQueue_def takeId_def)
qed

lemma calls_step_keeps:
  assumes "calls_step md5 objQueueMax k k'" and "calls_inv k"
  shows "calls_inv k'"
  using assms
proof (induction rule: calls_step.induct)
  case (choose i k intn r s)
  then have "mgReq (ciMsg s) = mgReq (ciMsg (callInv i k))" "cwQueueLen (ciWorld s) = cwQueueLen (kWorld k)"
      "cwResp (ciWorld s) = cwResp (kWorld k)"
    by (auto simp: di_select_def callInv_def split: sum.splits)
  then show ?case
    by (intro quiet_keeps [OF choose(3,1)]) (auto split: sum.splits prod.splits)
next
  case (admit i a c k)
  then show ?case
    by (intro quiet_keeps [OF admit(2,1)]) (auto simp: callInv_def split: option.splits)
next
  case (send i a c k now sent r s)
  then have "mgReq (ciMsg s) = mgReq (ciMsg (callInv i k))" "cwQueueLen (ciWorld s) = cwQueueLen (kWorld k)"
      "cwResp (ciWorld s) = cwResp (kWorld k)"
    by (auto simp: di_send_def onAdapter_def callInv_def Let_def split: option.splits if_splits)
  then show ?case
    by (intro quiet_keeps [OF send(3,1)]) (auto split: option.splits)
next
  case (timeout i a c k nowMs err s)
  then have "mgReq (ciMsg s) = mgReq (ciMsg (callInv i k))" "cwQueueLen (ciWorld s) = cwQueueLen (kWorld k)"
      "cwResp (ciWorld s) = cwResp (kWorld k)"
    by (auto simp: di_timeout_def onAdapter_def callInv_def Message_End_def Let_def)
  then show ?case
    by (intro quiet_keeps [OF timeout(3,1)]) auto
next
  case (call v k msg ctx)
  then show ?case by (intro new_ids_keep) (auto simp: ridOf_def)
next
  case (pinged k n)
  then show ?case by (simp add: inv_defs addQueue_def)
next
  case (probe k ps a ps' intn now e)
  then show ?case by (simp add: inv_defs setManager_def)
next
  case (manage k e)
  then show ?case by (simp add: inv_defs setManager_def)
qed (blast intro: new_ids_keep register_keeps leave_keeps answer_keeps recv_keeps give_up_keeps)+

lemma calls_reach_inv: "calls_reach md5 objQueueMax k \<Longrightarrow> calls_inv k"
proof -
  have "idRun [] msgID = ([], msgID)" for msgID by simp
  then have new: "calls_inv (new_client msgID e)" for msgID e
    by (auto simp: inv_defs new_client_def rids_def opens_def useds_def answers_def) (metis idRun.simps(1))
  have "(calls_step md5 objQueueMax)\<^sup>*\<^sup>* k0 k \<Longrightarrow> calls_inv k0 \<Longrightarrow> calls_inv k" for k0
    by (induction rule: rtranclp_induct) (auto intro: calls_step_keeps)
  then show "calls_reach md5 objQueueMax k \<Longrightarrow> calls_inv k"
    using new by (auto simp: calls_reach_def)
qed

section \<open>Progress\<close>

lemma putCall_at:
  assumes "i < length (kCalls k)"
  shows "inPhase i ph (putCall i s ph k)" "callInv i (putCall i s ph k) = s"
    "length (kCalls (putCall i s ph k)) = length (kCalls k)" "kDeliv (putCall i s ph k) = kDeliv k"
    "kGot (putCall i s ph k) = kGot k" "kWorld (putCall i s ph k) = ciWorld s"
  using assms by (simp_all add: inPhase_def putCall_def callInv_def del: view_length)

text \<open>A call that is admitted and whose response comes can be carried through.\<close>

lemma call_completes:
  assumes "inPhase i Born k" and "di_select intn (callInv i k) = Inr (Inr (a, c), s)"
    and "di_admit objQueueMax s = None" and "rqCPacketType (mgReq (ciMsg s)) \<noteq> TARSONEWAY"
    and "ResponseUnpack pkg = (p, None)" and "rsIRequestId p = rqIRequestId (mgReq (ciMsg s))"
    and "rsIRequestId p \<noteq> 0" and "rsCPacketType p \<noteq> TARSONEWAY"
  shows "\<exists>k'. (calls_step md5 objQueueMax)\<^sup>*\<^sup>* k k' \<and> inPhase i (Over (Some a) (Answered p)) k'"
proof -
  let ?step = "calls_step md5 objQueueMax"
  have i: "i < length (kCalls k)" using assms(1) by (simp add: inPhase_def del: view_length)
  define k1 where "k1 = putCall i s (Chosen a c) k"
  define k2 where "k2 = putCall i s (Admitted a c) k1"
  define s3 where "s3 = di_register False a i s"
  define k3 where "k3 = putCall i s3 (Registered a c) k2"
  define s4 where "s4 = onAdapter a sendAdd s3"
  define k4 where "k4 = putCall i s4 (Waiting a c) k3"
  define k5 where "k5 = k4\<lparr>kGot := kGot k4 @ [(a, p)], kDeliv := kDeliv k4 @ [(a, i, p)]\<rparr>"
  have len: "i < length (kCalls k1)" "i < length (kCalls k2)" "i < length (kCalls k3)" "i < length (kCalls k4)"
    using i by (simp_all add: k1_def k2_def k3_def k4_def putCall_at(3) del: view_length)
  have at: "inPhase i (Chosen a c) k1" "callInv i k1 = s" "inPhase i (Admitted a c) k2" "callInv i k2 = s"
      "inPhase i (Registered a c) k3" "callInv i k3 = s3" "inPhase i (Waiting a c) k4" "callInv i k4 = s4"
    using i len by (simp_all add: k1_def k2_def k3_def k4_def putCall_at)
  have send: "di_send a 0 None (callInv i k3) = (None, s4)"
    using assms(4) by (simp add: at s4_def s3_def di_send_def di_register_def onAdapter_def Let_def)
  have "?step\<^sup>*\<^sup>* k k1"
    using calls_step.choose [OF assms(1,2), of md5 objQueueMax] by (auto intro!: r_into_rtranclp simp: k1_def)
  also have "?step\<^sup>*\<^sup>* k1 k2"
    using calls_step.admit [OF at(1), of md5 objQueueMax] assms(3) by (auto intro!: r_into_rtranclp simp: at k2_def)
  also have "?step\<^sup>*\<^sup>* k2 k3"
    using calls_step.register [OF at(3), of md5 objQueueMax False] by (auto intro!: r_into_rtranclp simp: at k3_def s3_def)
  also have "?step\<^sup>*\<^sup>* k3 k4"
    using calls_step.send [OF at(5) send, of md5 objQueueMax] by (auto intro!: r_into_rtranclp simp: k4_def)
  also have "?step\<^sup>*\<^sup>* k4 k5"
  proof -
    have "cwResp (kWorld k4) (a, rsIRequestId p) = Some i"
      by (simp add: k4_def putCall_at [OF len(3)] s4_def s3_def onAdapter_def di_register_def assms(6) Let_def)
    then show ?thesis
      using calls_step.recv [OF assms(5), of md5 objQueueMax k4 a] assms(7,8) by (auto intro!: r_into_rtranclp simp: k5_def Recv_def)
  qed
  finally have run: "?step\<^sup>*\<^sup>* k k5" by simp
  have k5: "inPhase i (Waiting a c) k5" "callInv i k5 = s4" "kDeliv k5 = kDeliv k4 @ (a, i, p) # []"
    using at(7,8) by (simp_all add: k5_def inPhase_def callInv_def del: view_length)
  obtain err s6 where s6: "di_answer a 0 p (callInv i k5) = (err, s6)" by force
  define k6 where "k6 = (putCall i s6 (Leaving a (Answered p)) k5)\<lparr>kDeliv := kDeliv k4,
    kProbes := (if c then kProbes k5 @ [a] else kProbes k5)\<rparr>"
  have "?step k5 k6"
    using calls_step.answer [OF k5(1,3) s6] by (simp add: k6_def)
  moreover have leaving: "inPhase i (Leaving a (Answered p)) k6"
    using k5(1) by (simp add: k6_def putCall_def inPhase_def del: view_length)
  ultimately have "?step\<^sup>*\<^sup>* k (putCall i (di_leave a (callInv i k6)) (Over (Some a) (Answered p)) k6)"
    using run calls_step.leave [OF leaving, of md5 objQueueMax] by (meson rtranclp.rtrancl_into_rtrancl)
  moreover have "i < length (kCalls k6)"
    using leaving by (simp add: inPhase_def del: view_length)
  ultimately show ?thesis
    using putCall_at(1) by blast
qed

section \<open>Properties\<close>

definition answered :: "client \<Rightarrow> (nat \<times> ResponsePacket) list" where
  "answered k = List.map_filter (answerOf \<circ> clPhase) (kCalls k)"

lemma answered_got:
  assumes "calls_inv k"
  shows "mset (answered k) \<subseteq># mset (kGot k)"
proof -
  have "map Some (List.map_filter f xs) = filter (\<lambda>x. x \<noteq> None) (map f xs)" for f :: "call \<Rightarrow> 'b option" and xs
    by (induction xs) (auto simp: List.map_filter_def)
  then have "map Some (answered k) = filter (\<lambda>x. x \<noteq> None) (answers k)"
    unfolding answered_def answers_def .
  then have "mset (map Some (answered k)) \<subseteq># mset (map Some (kGot k))"
    using subset_mset.order_trans [OF mset_subset_eq_add_right deliv_part(2) [OF assms]] by metis
  from image_mset_subseteq_mono [OF this, of the] show ?thesis
    by (simp add: multiset.map_comp comp_def)
qed

text \<open>C8: However calls, responses, timeouts, pings, probes and refreshes interleave, a call that ends with a response got
  one that came from the adapter it was sent to, with its own request id, and no response ends two calls. The
  queue length counts exactly the registered calls and the pings under way, every channel belongs to a
  registered call with its id, and up to 2147483646 requests every registered call still has its channel.\<close>

theorem responses_reach_callers:
  assumes "calls_reach md5 objQueueMax k"
  shows "(\<forall>i a p. inPhase i (Over (Some a) (Answered p)) k \<longrightarrow> rsIRequestId p = ridOf (kCalls k ! i))
    \<and> mset (answered k) \<subseteq># mset (kGot k)
    \<and> cwQueueLen (kWorld k)
      = word_of_nat (length (filter (\<lambda>c. openOn (clPhase c) \<noteq> None) (kCalls k)) + kPings k)
    \<and> (\<forall>a v i. cwResp (kWorld k) (a, v) = Some i \<longrightarrow>
        i < length (kCalls k) \<and> openOn (clPhase (kCalls k ! i)) = Some a \<and> ridOf (kCalls k ! i) = v)
    \<and> (length (kIds k) \<le> 2 ^ 31 - 2 \<longrightarrow> (\<forall>i a. i < length (kCalls k) \<longrightarrow>
        openOn (clPhase (kCalls k ! i)) = Some a \<longrightarrow> cwResp (kWorld k) (a, ridOf (kCalls k ! i)) = Some i))"
proof -
  note inv = calls_reach_inv [OF assms]
  have view: "rids k ! i = ridOf (kCalls k ! i)" "opens k ! i = openOn (clPhase (kCalls k ! i))" if "i < length (rids k)" for i
    using that by (simp_all add: view_defs del: view_length)
  have ids: "rsIRequestId p = ridOf (kCalls k ! i)" if ph: "inPhase i (Over (Some a) (Answered p)) k" for i a p
    using inv view_at [OF ph] view(1) [of i] by (auto simp: calls_inv_def deliv_inv_def)
  obtain c ops where "idRun ops c = (kIds k, kMsgID k)"
    using inv by (auto simp: calls_inv_def ids_inv_def)
  then have "distinct (kIds k)" if "length (kIds k) \<le> 2 ^ 31 - 2"
    using run_distinct [of ops c "kIds k" "kMsgID k" 0] that by simp
  then have own: "cwResp (kWorld k) (a, ridOf (kCalls k ! i)) = Some i"
    if "length (kIds k) \<le> 2 ^ 31 - 2" "i < length (kCalls k)" "openOn (clPhase (kCalls k ! i)) = Some a" for i a
    using inv view [of i] that by (auto simp: calls_inv_def resp_inv_def)
  have belongs: "i < length (kCalls k) \<and> openOn (clPhase (kCalls k ! i)) = Some a \<and> ridOf (kCalls k ! i) = v"
    if "cwResp (kWorld k) (a, v) = Some i" for a v i
    using inv view [of i] that by (simp add: calls_inv_def resp_inv_def)
  have "length (filter (\<lambda>x. x \<noteq> None) (opens k)) = length (filter (\<lambda>c. openOn (clPhase c) \<noteq> None) (kCalls k))"
    by (simp add: opens_def filter_map comp_def)
  then show ?thesis
    using ids answered_got [OF inv] own belongs inv by (simp add: calls_inv_def queue_inv_def)
qed

text \<open>A client whose first call, with the id 1, is answered.\<close>

lemma answered_client:
  "\<exists>k a p. calls_reach (\<lambda>x. x) 100 k \<and> inPhase 0 (Over (Some a) (Answered p)) k \<and> rsIRequestId p = 1"
proof -
  obtain e where e: "em_reach (\<lambda>x. x) e" "emActiveEpf e = [plain_endpoint]" "\<not> emDirectProxy e" "emCheckAdapter e = Some []"
    using demo_manager by blast
  define msg where "msg = (mod_message 5)\<lparr>mgReq := ping_request\<lparr>rqIRequestId := 1\<rparr>\<rparr>"
  define k where "k = takeId 1 ((new_client 0 e)\<lparr>kCalls := [\<lparr>clCtx = bare_ctx, clMsg = msg, clPhase = Born\<rparr>]\<rparr>)"
  have first: "calls_step (\<lambda>x. x) 100 (new_client 0 e) k"
    using calls_step.call [of 1 "new_client 0 e" msg "\<lambda>x. x" 100 bare_ctx] by (simp add: k_def new_client_def msg_def)
  have born: "inPhase 0 Born k" "callInv 0 k = \<lparr>ciCtx = bare_ctx, ciMsg = msg, ciWorld = demo_world e\<rparr>"
    by (simp_all add: k_def takeId_def new_client_def inPhase_def callInv_def demo_world_def del: view_length)
  obtain a e' where sel: "di_select (\<lambda>n. 0) (callInv 0 k)
      = Inr (Inr (a, False), (callInv 0 k)\<lparr>ciWorld := (demo_world e)\<lparr>cwManager := e'\<rparr>\<rparr>)"
    using di_select_found [of "callInv 0 k" "\<lambda>n. 0"] em_reach_inv [OF e(1)] e by (auto simp: born demo_world_def)
  let ?p = "zero_response\<lparr>rsIRequestId := 1\<rparr>"
  have unpack: "ResponseUnpack (rsp2Byte ?p) = (?p, None)"
    using ResponsePacket_ReadFrom_enc [of ?p zero_response "NewReader (encResponse ?p)" "[]"]
    by (simp add: rsp2Byte_frame ResponseUnpack_def okResponse_def okStrMap_def zero_response_def TUPVERSION_def)
  obtain k' where k': "(calls_step (\<lambda>x. x) 100)\<^sup>*\<^sup>* k k'" "inPhase 0 (Over (Some a) (Answered ?p)) k'"
    using call_completes [OF born(1) sel _ _ unpack, of 100 "\<lambda>x. x"]
    by (auto simp: born di_admit_def demo_world_def msg_def ping_request_def TARSONEWAY_def zero_response_def)
  have "calls_reach (\<lambda>x. x) 100 k'"
    using e(1) first k'(1) unfolding calls_reach_def by (meson converse_rtranclp_into_rtranclp)
  with k'(2) show ?thesis
    by (intro exI conjI) (auto simp: zero_response_def)
qed

theorem responses_reach_callers_witness:
  "\<exists>k a p. calls_reach (\<lambda>x. x) 100 k \<and> inPhase 0 (Over (Some a) (Answered p)) k \<and> ridOf (kCalls k ! 0) = 1"
  using answered_client responses_reach_callers [of "\<lambda>x. x" 100] by metis

end
