(* ===== verification/Time_Wheel.thy ===== *)
theory Time_Wheel
  imports Codec_Write
begin

text \<open>
  The timing wheel behind the timeouts of calls, \<^verbatim>\<open>tars/util/rtimer/timewheel.go\<close>. Channels are numbers, made in
  ascending order; a timeout is a channel that gets closed. Durations are nanoseconds. The ticker of a wheel is
  a step that happens once in its period; a panic is an \<open>Inl\<close>.
\<close>

section \<open>Wheels\<close>

text \<open>Go's division truncates towards zero.\<close>

definition go_div :: "int \<Rightarrow> int \<Rightarrow> int" where
  "go_div a b = sgn a * (\<bar>a\<bar> div b)"

record TimeWheel =
  twT :: int
  twMaxT :: int
  twWheel :: "nat list"
  twCurrPos :: nat

text \<open>The wheel with the channels made and closed so far.\<close>

record wheelState =
  wsWheel :: TimeWheel
  wsFresh :: nat
  wsClosed :: "nat set"

definition NewTimeWheel :: "int \<Rightarrow> nat \<Rightarrow> gerr + wheelState" where
  "NewTimeWheel t sz =
     (if t \<le> 0 then Inl (Panic ''non-positive interval for NewTicker'')
      else Inr \<lparr>wsWheel = \<lparr>twT = t, twMaxT = t * int sz, twWheel = [0..<sz], twCurrPos = 0\<rparr>,
                wsFresh = sz, wsClosed = {}\<rparr>)"

definition tw_After :: "int \<Rightarrow> wheelState \<Rightarrow> gerr + nat" where
  "tw_After timeout ws =
     (let tw = wsWheel ws in
      if timeout \<ge> twMaxT tw then Inl (Panic ''timeout is bigger than maxT'')
      else let pos = go_div timeout (twT tw);
               pos = (if 0 < pos then pos - 1 else pos);
               pos = int (twCurrPos tw) + pos - int (length (twWheel tw)) * go_div (int (twCurrPos tw) + pos) (int (length (twWheel tw)))
           in if pos < 0 then Inl (Panic ''index out of range'') else Inr (twWheel tw ! nat pos))"

text \<open>One round of \<^verbatim>\<open>run\<close>.\<close>

definition tw_tick :: "wheelState \<Rightarrow> wheelState" where
  "tw_tick ws =
     (let tw = wsWheel ws; oldestC = twWheel tw ! twCurrPos tw;
          tw = tw\<lparr>twWheel := (twWheel tw)[twCurrPos tw := wsFresh ws],
                  twCurrPos := (twCurrPos tw + 1) mod length (twWheel tw)\<rparr>
      in \<lparr>wsWheel = tw, wsFresh = Suc (wsFresh ws), wsClosed = insert oldestC (wsClosed ws)\<rparr>)"

text \<open>The package's \<^verbatim>\<open>After\<close>: one wheel for each duration, made at its first use.\<close>

type_synonym timerMap = "int \<rightharpoonup> wheelState"

definition rtimer_After :: "int \<Rightarrow> int \<Rightarrow> timerMap \<Rightarrow> gerr + nat \<times> timerMap" where
  "rtimer_After accuracy t m =
     (case m t of
        Some v \<Rightarrow> (case tw_After t v of Inl e \<Rightarrow> Inl e | Inr c \<Rightarrow> Inr (c, m))
      | None \<Rightarrow>
          (case NewTimeWheel (go_div t accuracy) (nat (accuracy + 1)) of
             Inl e \<Rightarrow> Inl e
           | Inr v \<Rightarrow> (case tw_After t v of Inl e \<Rightarrow> Inl e | Inr c \<Rightarrow> Inr (c, m(t \<mapsto> v)))))"

section \<open>The invariant\<close>

text \<open>The wheel holds different channels that are open, and the position is on it.\<close>

definition wheel_inv :: "wheelState \<Rightarrow> bool" where
  "wheel_inv ws \<longleftrightarrow> (let tw = wsWheel ws in
     twCurrPos tw < length (twWheel tw) \<and> distinct (twWheel tw)
     \<and> set (twWheel tw) \<inter> wsClosed ws = {} \<and> set (twWheel tw) \<union> wsClosed ws \<subseteq> {..<wsFresh ws})"

lemma new_wheel: "0 < sz \<Longrightarrow> NewTimeWheel t sz = Inr ws \<Longrightarrow> wheel_inv ws"
  by (auto simp: NewTimeWheel_def wheel_inv_def split: if_splits)

lemma tick_fields [simp]:
  "length (twWheel (wsWheel (tw_tick ws))) = length (twWheel (wsWheel ws))"
  "twT (wsWheel (tw_tick ws)) = twT (wsWheel ws)" "twMaxT (wsWheel (tw_tick ws)) = twMaxT (wsWheel ws)"
  "twCurrPos (wsWheel (tw_tick ws)) = (twCurrPos (wsWheel ws) + 1) mod length (twWheel (wsWheel ws))"
  by (simp_all add: tw_tick_def Let_def)

lemma tick_keeps:
  assumes "wheel_inv ws"
  shows "wheel_inv (tw_tick ws)"
proof -
  let ?w = "twWheel (wsWheel ws)" and ?p = "twCurrPos (wsWheel ws)"
  have w: "?p < length ?w" "distinct ?w" "set ?w \<inter> wsClosed ws = {}" "set ?w \<union> wsClosed ws \<subseteq> {..<wsFresh ws}"
    using assms by (simp_all add: wheel_inv_def Let_def)
  have "?w ! ?p \<in> {..<wsFresh ws}"
    using w(4) nth_mem [OF w(1)] by (meson UnCI subsetD)
  then have mem: "?w ! ?p \<in> set ?w" "?w ! ?p \<noteq> wsFresh ws" "?w ! ?p < wsFresh ws"
    using nth_mem [OF w(1)] by simp_all
  have fresh: "wsFresh ws \<notin> set ?w" "wsFresh ws \<notin> wsClosed ws" using w(4) by auto
  have "set (?w[?p := wsFresh ws]) = insert (wsFresh ws) (set ?w - {?w ! ?p})"
    using w(2,1) by (rule set_update_distinct)
  moreover have "distinct (?w[?p := wsFresh ws])"
    using w(1,2) fresh(1) by (simp add: distinct_list_update)
  ultimately show ?thesis
    using w fresh(2) mem
    by (auto simp: wheel_inv_def tw_tick_def Let_def less_Suc_eq intro: mod_less_divisor)
qed

definition ticks :: "nat \<Rightarrow> wheelState \<Rightarrow> wheelState" where
  "ticks n = tw_tick ^^ n"

lemma ticks_simps [simp]: "ticks 0 ws = ws" "ticks (Suc n) ws = tw_tick (ticks n ws)"
  by (simp_all add: ticks_def)

lemma ticks_add: "ticks (m + n) ws = ticks m (ticks n ws)"
  by (simp add: ticks_def funpow_add)

lemma ticks_fields [simp]:
  "length (twWheel (wsWheel (ticks n ws))) = length (twWheel (wsWheel ws))"
  "twT (wsWheel (ticks n ws)) = twT (wsWheel ws)" "twMaxT (wsWheel (ticks n ws)) = twMaxT (wsWheel ws)"
  by (induction n) simp_all

lemma ticks_keep: "wheel_inv ws \<Longrightarrow> wheel_inv (ticks n ws)"
  by (induction n) (simp_all add: tick_keeps)

lemma ticks_pos:
  "wheel_inv ws \<Longrightarrow> twCurrPos (wsWheel (ticks n ws)) = (twCurrPos (wsWheel ws) + n) mod length (twWheel (wsWheel ws))"
  by (induction n) (simp_all add: wheel_inv_def Let_def mod_Suc_eq)

lemma ticks_closed_mono: "c \<in> wsClosed ws \<Longrightarrow> c \<in> wsClosed (ticks n ws)"
  by (induction n) (simp_all add: tw_tick_def Let_def)

text \<open>A channel \<open>p\<close> places ahead stays on the wheel for \<open>p\<close> ticks and is closed by the next.\<close>

lemma stays_on_wheel:
  assumes "wheel_inv ws" and "p < length (twWheel (wsWheel ws))" and "j \<le> p"
  shows "twWheel (wsWheel (ticks j ws)) ! ((twCurrPos (wsWheel ws) + p) mod length (twWheel (wsWheel ws)))
    = twWheel (wsWheel ws) ! ((twCurrPos (wsWheel ws) + p) mod length (twWheel (wsWheel ws)))"
  using assms(3)
proof (induction j)
  case (Suc j)
  let ?n = "length (twWheel (wsWheel ws))" and ?c = "twCurrPos (wsWheel ws)"
  have "(?c + j) mod ?n \<noteq> (?c + p) mod ?n"
  proof
    assume "(?c + j) mod ?n = (?c + p) mod ?n"
    then have "?n dvd p - j"
      using Suc.prems mod_eq_dvd_iff_nat [of "?c + j" "?c + p" ?n] by simp
    with Suc.prems assms(2) show False by (auto dest: dvd_imp_le)
  qed
  with Suc assms show ?case
    by (simp add: tw_tick_def Let_def ticks_pos [OF assms(1)])
qed simp

lemma closes_exactly:
  assumes "wheel_inv ws" and "p < length (twWheel (wsWheel ws))"
    and "c = twWheel (wsWheel ws) ! ((twCurrPos (wsWheel ws) + p) mod length (twWheel (wsWheel ws)))"
  shows "c \<in> wsClosed (ticks j ws) \<longleftrightarrow> p < j"
proof (cases "p < j")
  case True
  let ?n = "length (twWheel (wsWheel ws))"
  have "c \<in> wsClosed (ticks (Suc p) ws)"
    using stays_on_wheel [OF assms(1,2) order_refl] assms(3) ticks_pos [OF assms(1), of p]
    by (simp add: tw_tick_def Let_def)
  moreover have "ticks j ws = ticks (j - Suc p) (ticks (Suc p) ws)"
    using True ticks_add [of "j - Suc p" "Suc p" ws] by simp
  ultimately show ?thesis
    using True ticks_closed_mono by metis
next
  case False
  have "(twCurrPos (wsWheel ws) + p) mod length (twWheel (wsWheel ws)) < length (twWheel (wsWheel (ticks j ws)))"
    using assms(2) by (auto intro: mod_less_divisor)
  then have "c \<in> set (twWheel (wsWheel (ticks j ws)))"
    using stays_on_wheel [OF assms(1,2), of j] False assms(3) nth_mem by (metis not_less)
  then show ?thesis
    using ticks_keep [OF assms(1), of j] False by (auto simp: wheel_inv_def Let_def)
qed

section \<open>Accuracy\<close>

lemma go_div_pos [simp]: "0 \<le> a \<Longrightarrow> 0 < b \<Longrightarrow> go_div a b = a div b"
  by (cases "a = 0") (auto simp: go_div_def sgn_if)

lemma After_places:
  assumes "wheel_inv ws" and "0 < twT (wsWheel ws)" and "k = timeout div twT (wsWheel ws)" and "1 \<le> k"
    and "timeout < twMaxT (wsWheel ws)"
  shows "tw_After timeout ws = Inr (twWheel (wsWheel ws) !
    ((twCurrPos (wsWheel ws) + nat (k - 1)) mod length (twWheel (wsWheel ws))))"
proof -
  let ?n = "length (twWheel (wsWheel ws))" and ?c = "twCurrPos (wsWheel ws)"
  have n: "0 < ?n" using assms(1) by (auto simp: wheel_inv_def Let_def)
  have t: "0 \<le> timeout"
    using assms(2-4) by (metis div_neg_pos_less0 linorder_not_le not_one_le_zero order_trans zero_le_one)
  let ?a = "int ?c + (k - 1)"
  have "?a - int ?n * (?a div int ?n) = int ((?c + nat (k - 1)) mod ?n)"
    using assms(4) by (simp add: minus_mult_div_eq_mod of_nat_mod)
  then show ?thesis
    using assms n t by (simp add: tw_After_def Let_def add.commute)
qed

text \<open>A wheel for timeouts of length \<open>a * t\<close> at the time \<open>x\<close> after it was made: its ticker ticks at the multiples of \<open>t\<close>.\<close>

definition wheelAt :: "int \<Rightarrow> int \<Rightarrow> int \<Rightarrow> gerr + wheelState" where
  "wheelAt a t x = (case NewTimeWheel t (nat (a + 1)) of Inl e \<Rightarrow> Inl e | Inr ws \<Rightarrow> Inr (ticks (nat (x div t)) ws))"

lemma wheelAt_later:
  assumes "0 < t" and "0 \<le> x" and "x \<le> y" and "wheelAt a t x = Inr ws"
  shows "wheelAt a t y = Inr (ticks (nat (y div t) - nat (x div t)) ws)"
proof -
  have "nat (x div t) \<le> nat (y div t)"
    using assms(1,3) by (simp add: zdiv_mono1 nat_mono)
  then show ?thesis
    using assms(4) ticks_add [of "nat (y div t) - nat (x div t)" "nat (x div t)"]
    by (auto simp: wheelAt_def split: sum.splits)
qed

text \<open>C27: A timeout of a duration that the accuracy divides never fires late, and early by less than one part
  in the accuracy, whenever it is set: with the default accuracy a call of 3000 ms times out after more
  than 2850 and at most 3000 ms.\<close>

theorem timer_accuracy:
  assumes "0 < accuracy" and "0 < t" and "0 \<le> x"
  shows "\<exists>ws c. wheelAt accuracy t x = Inr ws \<and> tw_After (accuracy * t) ws = Inr c
    \<and> (\<forall>y ws'. x \<le> y \<longrightarrow> wheelAt accuracy t y = Inr ws' \<longrightarrow>
         (c \<in> wsClosed ws' \<longrightarrow> accuracy * t - t < y - x) \<and> (accuracy * t \<le> y - x \<longrightarrow> c \<in> wsClosed ws'))"
proof -
  obtain ws0 where new: "NewTimeWheel t (nat (accuracy + 1)) = Inr ws0" "twT (wsWheel ws0) = t"
      "twMaxT (wsWheel ws0) = t * (accuracy + 1)" "length (twWheel (wsWheel ws0)) = nat (accuracy + 1)"
    using assms by (simp add: NewTimeWheel_def)
  have inv0: "wheel_inv ws0" by (rule new_wheel [OF _ new(1)]) (use assms(1) in simp)
  define ws where "ws = ticks (nat (x div t)) ws0"
  have at: "wheelAt accuracy t x = Inr ws" by (simp add: wheelAt_def new(1) ws_def)
  have ws: "wheel_inv ws" "twT (wsWheel ws) = t" "twMaxT (wsWheel ws) = t * (accuracy + 1)"
      "length (twWheel (wsWheel ws)) = nat (accuracy + 1)"
    using new ticks_keep [OF inv0] by (simp_all add: ws_def)
  have k: "accuracy = accuracy * t div t" using assms(2) by simp
  obtain c where c: "tw_After (accuracy * t) ws = Inr c" "c = twWheel (wsWheel ws) !
      ((twCurrPos (wsWheel ws) + nat (accuracy - 1)) mod length (twWheel (wsWheel ws)))"
    using After_places [OF ws(1), of accuracy "accuracy * t"] ws(2,3) assms k by (auto simp: algebra_simps)
  have "(c \<in> wsClosed ws' \<longrightarrow> accuracy * t - t < y - x) \<and> (accuracy * t \<le> y - x \<longrightarrow> c \<in> wsClosed ws')"
    if y: "x \<le> y" "wheelAt accuracy t y = Inr ws'" for y ws'
  proof -
    have "ws' = ticks (nat (y div t) - nat (x div t)) ws"
      using wheelAt_later [OF assms(2,3) y(1) at] y(2) by simp
    moreover have "nat (accuracy - 1) < length (twWheel (wsWheel ws))"
      using ws(4) assms(1) by simp
    ultimately have "c \<in> wsClosed ws' \<longleftrightarrow> nat (accuracy - 1) < nat (y div t) - nat (x div t)"
      using closes_exactly [OF ws(1) _ c(2)] by simp
    also have "\<dots> \<longleftrightarrow> accuracy \<le> y div t - x div t"
    proof -
      have "0 \<le> x div t" "0 \<le> y div t"
        using assms y(1) by (simp_all add: pos_imp_zdiv_nonneg_iff)
      then show ?thesis using assms(1) by linarith
    qed
    finally have closed: "c \<in> wsClosed ws' \<longleftrightarrow> accuracy \<le> y div t - x div t" .
    have q: "0 \<le> x mod t" "x mod t < t" "0 \<le> y mod t" "y mod t < t"
      using assms(2) by simp_all
    have step: "accuracy \<le> d \<longleftrightarrow> accuracy * t \<le> d * t" "accuracy * t \<le> d * t \<or> d * t \<le> accuracy * t - t" for d
    proof -
      have "d \<le> accuracy - 1 \<Longrightarrow> d * t \<le> (accuracy - 1) * t"
        using assms(2) by simp
      then show "accuracy \<le> d \<longleftrightarrow> accuracy * t \<le> d * t" "accuracy * t \<le> d * t \<or> d * t \<le> accuracy * t - t"
        using assms(2) by (cases "accuracy \<le> d"; simp add: left_diff_distrib)+
    qed
    have "y - x = (y div t - x div t) * t + (y mod t - x mod t)"
      using div_mult_mod_eq [of x t] div_mult_mod_eq [of y t] unfolding left_diff_distrib by linarith
    then show ?thesis
      using closed step [of "y div t - x div t"] q by linarith
  qed
  with at c(1) show ?thesis by blast
qed

theorem timer_accuracy_witness:
  "\<exists>ws c. wheelAt 20 150 1000 = Inr ws \<and> tw_After 3000 ws = Inr c
    \<and> (\<forall>ws'. wheelAt 20 150 4000 = Inr ws' \<longrightarrow> c \<in> wsClosed ws') \<and> (\<forall>ws'. wheelAt 20 150 3850 = Inr ws' \<longrightarrow> c \<notin> wsClosed ws')"
proof -
  have "0 < (20 :: int)" "0 < (150 :: int)" "0 \<le> (1000 :: int)" by simp_all
  from timer_accuracy [OF this] obtain ws c where "wheelAt 20 150 1000 = Inr ws" "tw_After (20 * 150) ws = Inr c"
    and fires: "\<And>y ws'. 1000 \<le> y \<Longrightarrow> wheelAt 20 150 y = Inr ws' \<Longrightarrow>
      (c \<in> wsClosed ws' \<longrightarrow> 20 * 150 - 150 < y - 1000) \<and> (20 * 150 \<le> y - 1000 \<longrightarrow> c \<in> wsClosed ws')"
    by blast
  with fires [of 4000] fires [of 3850] show ?thesis by auto
qed

text \<open>A duration that is not positive, such as a timeout of 0, panics.\<close>

lemma nonpositive_timeout_panics:
  assumes "0 < accuracy" and "t < accuracy" and "m t = None"
  shows "rtimer_After accuracy t m = Inl (Panic ''non-positive interval for NewTicker'')"
proof -
  have "go_div t accuracy \<le> 0"
    using assms(1,2) pos_imp_zdiv_nonneg_iff [of accuracy "\<bar>t\<bar>"]
    by (cases "0 < t") (auto simp: go_div_def sgn_if zdiv_eq_0_iff)
  then show ?thesis
    using assms(3) by (simp add: rtimer_After_def NewTimeWheel_def)
qed

end
