(* ===== verification/Server_Stack.thy ===== *)
theory Server_Stack
  imports Servant_Protocol Tcp_Server Go_Strings
begin

text \<open>
  The server put together: the TCP handler of \<^verbatim>\<open>tars/transport/tcphandler.go\<close> with the servant of
  \<^verbatim>\<open>tars/tarsprotocol.go\<close> as its \<^verbatim>\<open>ServerProtocol\<close>. The handler makes the context of a call,
  \<^verbatim>\<open>Invoke\<close> answers, and the packet type left in the context says whether the answer is sent.
\<close>

section \<open>The context of a call\<close>

text \<open>58 is the colon. The address is that of the peer, as \<^verbatim>\<open>RemoteAddr().String()\<close> gives it.\<close>

definition tcp_getConnContext :: "gostring \<Rightarrow> int64 \<Rightarrow> nat \<Rightarrow> gerr + Ctx" where
  "tcp_getConnContext remoteAddr now conn =
     (let ctx = ContextWithTarsCurrent \<lparr>cxCurrent = None, cxClient = None\<rparr>;
          ipPort = strings_Split remoteAddr 58
      in if length ipPort < 2 then Inl (Panic ''index out of range'')
         else
           let ctx = snd (SetClientIPWithContext (ipPort ! 0) ctx);
               ctx = snd (SetClientPortWithContext (ipPort ! 1) ctx);
               ctx = snd (SetRecvPkgTsFromContext now ctx)
           in Inr (snd (SetRawConnWithContext (Some conn) None ctx)))"

definition udp_getConnContext :: "gostring \<Rightarrow> gostring \<Rightarrow> int64 \<Rightarrow> nat \<Rightarrow> nat \<Rightarrow> Ctx" where
  "udp_getConnContext ip port now conn udpAddr =
     (let ctx = ContextWithTarsCurrent \<lparr>cxCurrent = None, cxClient = None\<rparr>;
          ctx = snd (SetClientIPWithContext ip ctx);
          ctx = snd (SetClientPortWithContext port ctx);
          ctx = snd (SetRecvPkgTsFromContext now ctx)
      in snd (SetRawConnWithContext (Some conn) (Some udpAddr) ctx))"

text \<open>What a handler finds when it runs.\<close>

record 'w callEnv =
  ceRemoteAddr :: gostring
  ceRecv :: int64
  ceConn :: nat
  ceClock :: Clock
  ceWorld :: 'w

definition tarsServant :: "('f, 'w, 'm) servant \<Rightarrow> int \<Rightarrow> 64 word \<Rightarrow> 'w callEnv ServerProtocol" where
  "tarsServant p maxPackageLength traceParamMaxLen =
     \<lparr>svInvoke = \<lambda>env pkg.
        (case tcp_getConnContext (ceRemoteAddr env) (ceRecv env) (ceConn env) of
           Inl e \<Rightarrow> Inl e
         | Inr ctx \<Rightarrow>
             (case Invoke p traceParamMaxLen (ceClock env) pkg ctx (ceWorld env) of
                Inl e \<Rightarrow> Inl e
              | Inr (rsp, s, _) \<Rightarrow> Inr (rsp, fst (GetPacketTypeFromContext (ivCtx s))))),
      svParsePackage = TarsRequest maxPackageLength,
      svInvokeTimeout = InvokeTimeout, svGetCloseMsg = GetCloseMsg\<rparr>"

section \<open>Replies\<close>

text \<open>A dispatcher that leaves the request and the ids alone, keeps the current in the context, and
  answers with what fits in a packet. The generated dispatchers do.\<close>

definition keepsCall :: "('f, 'w) Dispatch \<Rightarrow> bool" where
  "keepsCall d \<longleftrightarrow> (\<forall>x s err s'. okRequest (ivReq s) \<longrightarrow> okResponse (ivRsp s) \<longrightarrow> d x s = Inr (err, s') \<longrightarrow>
     ivReq s' = ivReq s \<and> rsIRequestId (ivRsp s') = rsIRequestId (ivRsp s)
     \<and> rsIVersion (ivRsp s') = rsIVersion (ivRsp s)
     \<and> (cxCurrent (ivCtx s) \<noteq> None \<longrightarrow> cxCurrent (ivCtx s') \<noteq> None)
     \<and> okResponse (putError err (ivRsp s')))"

definition answers :: "RequestPacket \<Rightarrow> bytes \<Rightarrow> bool" where
  "answers req w \<longleftrightarrow> (\<exists>rsp. ResponseUnpack w = (rsp, None) \<and> rsIRequestId rsp = rqIRequestId req
     \<and> (rqCPacketType req = TARSONEWAY \<longrightarrow> rsSResultDesc rsp = ascii ''server invoke timeout''))"

lemma conn_context:
  "tcp_getConnContext addr now conn = Inr ctx \<Longrightarrow> cxCurrent ctx \<noteq> None"
  by (auto simp: tcp_getConnContext_def Let_def ContextWithTarsCurrent_def SetClientIPWithContext_def
      SetClientPortWithContext_def SetRecvPkgTsFromContext_def SetRawConnWithContext_def setCurrent_def
      split: if_splits)

lemma callState_simps [simp]:
  "ivReq (callState p n req ctx w) = req"
  "rsIRequestId (ivRsp (callState p n req ctx w)) = rqIRequestId req"
  "rsIVersion (ivRsp (callState p n req ctx w)) = rqIVersion req"
  "cxCurrent (ivCtx (callState p n req ctx w)) = None \<longleftrightarrow> cxCurrent ctx = None"
  "okResponse (ivRsp (callState p n req ctx w))"
  by (simp_all add: callState_def Let_def SetRequestContext_def SetRequestStatus_def
      current_after_keys okResponse_def zero_response_def okStrMap_def)

lemma ownReply_id: "rsIRequestId (ownReply ret req) = rqIRequestId req"
  by (simp add: ownReply_def)

text \<open>The servant's answers to a request keep its id, version and packet type.\<close>

lemma serveRequest_honest:
  assumes s: "serveRequest p n clock req ctx w = Inr (s, reports)" and plain: "spFilters p = no_filters"
    and d: "keepsCall (spDispatcher p)" and ctx: "cxCurrent ctx \<noteq> None" and ok: "okRequest req"
  shows "okResponse (ivRsp s) \<and> rsIVersion (ivRsp s) = rqIVersion req \<and> rsIRequestId (ivRsp s) = rqIRequestId req
    \<and> GetPacketTypeFromContext (ivCtx s) = (rqCPacketType req, True)"
proof -
  have "okResponse (ivRsp s) \<and> rsIVersion (ivRsp s) = rqIVersion req
    \<and> rsIRequestId (ivRsp s) = rqIRequestId req \<and> ivReq s = req \<and> cxCurrent (ivCtx s) \<noteq> None"
  proof (cases "expired ctx clock req \<or> rqSFuncName req = ascii ''tars_ping''")
    case True
    from serveRequest_own [OF True, where p = p and n = n and w = w] s ctx show ?thesis
      by (auto simp: ownReply_id)
  next
    case False
    show ?thesis
    proof (cases "spDispatcher p (spServerImp p, spWithContext p) (callState p n req ctx w)")
      case (Inl e)
      then show ?thesis
        using s False plain serveRequest_fails [of ctx clock req p n w e] by (simp add: callServant_plain)
    next
      case (Inr r)
      obtain err s1 where r: "r = (err, s1)" by (cases r)
      have call: "callServant p (callState p n req ctx w) = Inr (err, s1)"
        using Inr r plain by (simp add: callServant_plain)
      have "ivReq s1 = req" "rsIRequestId (ivRsp s1) = rqIRequestId req"
        "rsIVersion (ivRsp s1) = rqIVersion req" "cxCurrent (ivCtx s1) \<noteq> None"
        "okResponse (putError err (ivRsp s1))"
        using d Inr r ctx ok unfolding keepsCall_def by (metis callState_simps)+
      with serveRequest_dispatched [OF _ _ call, of clock] False s show ?thesis
        by (auto simp: okResponse_def)
    qed
  qed
  with serveRequest_packet_type [OF s] show ?thesis
    by simp
qed

lemma servant_answers:
  assumes plain: "spFilters p = no_filters" and d: "keepsCall (spDispatcher p)"
    and ok: "okRequest req" and v: "rqIVersion req \<noteq> TUPVERSION" and pkg: "RequestPack req = (pkg, None)"
    and inv: "svInvoke (tarsServant p maxLen n) env pkg = Inr (w, t)" and t: "t \<noteq> TARSONEWAY"
  shows "answers req w"
proof -
  obtain ctx where ctx: "tcp_getConnContext (ceRemoteAddr env) (ceRecv env) (ceConn env) = Inr ctx"
    using inv by (auto simp: tarsServant_def split: sum.splits)
  obtain s reports where s: "Invoke p n (ceClock env) pkg ctx (ceWorld env) = Inr (w, s, reports)"
    "t = fst (GetPacketTypeFromContext (ivCtx s))"
    using inv ctx by (auto simp: tarsServant_def split: sum.splits)
  then have serve: "serveRequest p n (ceClock env) req ctx (ceWorld env) = Inr (s, reports)"
    by (auto simp: Invoke_packed [OF ok pkg] split: sum.splits)
  note h = serveRequest_honest [OF serve plain d conn_context [OF ctx] ok]
  have "ResponseUnpack w = (ivRsp s, None)"
    using Invoke_unpack [OF ok pkg serve] h v s(1) by auto
  then show ?thesis
    using h s(2) t by (simp add: answers_def)
qed

lemma timeout_answers:
  assumes "okRequest req" and "RequestPack req = (pkg, None)" and "InvokeTimeout pkg = Inr w"
  shows "answers req w"
  using invoke_timeout_reply [OF assms(1)] assms RequestPack_frame [OF assms(1)]
  by (auto simp: answers_def)

lemma svInvoke_nonempty: "svInvoke (tarsServant p maxLen n) env pkg = Inr (w, t) \<Longrightarrow> w \<noteq> []"
  by (auto simp: tarsServant_def Invoke_def rsp2Byte_def req2Byte_def Let_def PutUint32_def
      split: sum.splits if_splits prod.splits option.splits gerr.splits)

lemma ts_invoke_answers:
  assumes "spFilters p = no_filters" and "keepsCall (spDispatcher p)"
    and "okRequest req" and "rqIVersion req \<noteq> TUPVERSION" and "RequestPack req = (pkg, None)"
    and "ts_invoke (tarsServant p maxLen n) cfg inTime env pkg = Inr (w, t)" and "t \<noteq> TARSONEWAY"
  shows "answers req w"
proof (cases "svInvoke (tarsServant p maxLen n) env pkg = Inr (w, t)")
  case True
  then show ?thesis using servant_answers assms by blast
next
  case False
  then have "svInvokeTimeout (tarsServant p maxLen n) pkg = Inr w"
    using assms(6) by (auto simp: ts_invoke_def svInvoke_nonempty split: if_splits sum.splits)
  then show ?thesis using timeout_answers assms by (simp add: tarsServant_def)
qed

section \<open>Properties\<close>


text \<open>A connection that has read one request and answered it.\<close>

lemma echo_keepsCall: "keepsCall (spDispatcher echo_servant)"
  by (auto simp: keepsCall_def echo_servant_def NewTarsProtocol_def echo_dispatch_def okRequest_def
      okResponse_def ascii_def split: if_splits)

lemma echo_packed: "RequestPack (echo_request (ascii ''echo'')) = (frame (encRequest (echo_request (ascii ''echo''))), None)"
  and echo_length: "length (encRequest (echo_request (ascii ''echo''))) = 25"
  by (simp_all add: RequestPack_frame ok_echo_request ascii_def)
    (simp add: encRequest_def echo_request_def zero_request_def encInt_def encString_def encHead_def
      encVecInt8_def encStrMap_def)

definition echo_env :: "nat callEnv" where
  "echo_env = \<lparr>ceRemoteAddr = ascii ''h:1'', ceRecv = 7, ceConn = 0,
     ceClock = \<lparr>ckStart = 7, ckNow = 8, ckEnd = 9\<rparr>, ceWorld = 0\<rparr>"

lemma echo_invoke:
  "\<exists>w. svInvoke (tarsServant echo_servant 1000 1) echo_env (frame (encRequest (echo_request (ascii ''echo'')))) = Inr (w, 0)"
proof -
  let ?req = "echo_request (ascii ''echo'')" and ?clock = "ceClock echo_env"
  obtain ctx where ctx: "tcp_getConnContext (ceRemoteAddr echo_env) (ceRecv echo_env) (ceConn echo_env) = Inr ctx"
    and recv: "GetRecvPkgTsFromContext ctx = (7, True)"
    by (simp add: tcp_getConnContext_def echo_env_def ascii_def ContextWithTarsCurrent_def Let_def
        SetClientIPWithContext_def SetClientPortWithContext_def SetRecvPkgTsFromContext_def
        SetRawConnWithContext_def GetRecvPkgTsFromContext_def context_defs)
  have "\<not> expired ctx ?clock ?req"
    by (simp add: expired_def recv queueTimeout_def echo_env_def echo_request_def)
  moreover have "rqSFuncName ?req \<noteq> ascii ''tars_ping''"
    by (simp add: echo_request_def ascii_def)
  moreover obtain r where "callServant echo_servant (callState echo_servant 1 ?req ctx 0) = Inr r"
    by (simp add: echo_servant_def NewTarsProtocol_def callServant_plain echo_dispatch_def echo_request_def)
  ultimately obtain s reports where s: "serveRequest echo_servant 1 ?clock ?req ctx 0 = Inr (s, reports)"
    using serveRequest_dispatched by (metis surj_pair)
  have ok: "okRequest ?req" by (rule ok_echo_request) (simp add: ascii_def)
  have "GetPacketTypeFromContext (ivCtx s) = (0, True)"
    using serveRequest_honest [OF s _ echo_keepsCall conn_context [OF ctx] ok]
    by (simp add: echo_servant_def NewTarsProtocol_def echo_request_def zero_request_def)
  then show ?thesis
    using s Invoke_packed [OF ok echo_packed, of echo_servant 1 ?clock ctx 0]
    by (simp add: tarsServant_def ctx) (simp add: echo_env_def)
qed

lemma echo_reached:
  "\<exists>st. tcp_reach (tarsServant echo_servant 1000 1) echo_conf st
     \<and> stream st = frame (encRequest (echo_request (ascii ''echo''))) \<and> length (written st) = 1"
proof -
  let ?svr = "tarsServant echo_servant 1000 1" and ?pkg = "frame (encRequest (echo_request (ascii ''echo'')))"
  have parse: "svParsePackage ?svr = TarsRequest 1000" by (simp add: tarsServant_def)
  have full: "TarsRequest 1000 (?pkg @ extra) = (length ?pkg, PackageFull)" for extra
    by (rule TarsRequest_frame) (simp_all add: echo_length)
  have "splits (TarsRequest 1000) ?pkg [?pkg] [] False"
    using tars_framing.splits_packages [where ps = "[?pkg]" and rest = "[]"] full
    by (simp add: TarsRequest_def [of _ "[]"])
  then have "recvRound ?svr echo_conf 0 0 0 (ReadData ?pkg) (newConn 0)
      = Some (take_packages [?pkg] [] ((newConn 0)\<lparr>idleTime := 0, stream := ?pkg\<rparr>))"
    using stream_framing.recvRound_data [OF tars_framing.stream_framing_axioms parse, of "newConn 0" ?pkg]
    by (simp add: newConn_def)
  then have one: "tcp_step ?svr echo_conf (newConn 0) (take_packages [?pkg] [] ((newConn 0)\<lparr>idleTime := 0, stream := ?pkg\<rparr>))"
    by (rule tcp_step.round [rotated]) (simp_all add: newConn_def)
  let ?st = "take_packages [?pkg] [] ((newConn 0)\<lparr>idleTime := 0, stream := ?pkg\<rparr>)"
  obtain w where w: "svInvoke ?svr echo_env ?pkg = Inr (w, 0)" using echo_invoke by blast
  with svInvoke_nonempty [OF w] have "ts_invoke ?svr echo_conf True echo_env (running ?st ! 0) = Inr (w, 0)"
    by (simp add: ts_invoke_def newConn_def)
  from handlerRun_result [OF this, of True] obtain st' where st': "handlerRun ?svr echo_conf 0 True echo_env True ?st = Some st'"
    "written st' = [w]" "stream st' = ?pkg"
    by (simp add: TARSONEWAY_def newConn_def)
  have "tcp_step ?svr echo_conf ?st st'"
    by (rule tcp_step.handler [OF _ st'(1)]) (simp add: newConn_def)
  then have "(tcp_step ?svr echo_conf)\<^sup>*\<^sup>* (newConn 0) st'"
    by (rule rtranclp.rtrancl_into_rtrancl [OF r_into_rtranclp, of "tcp_step ?svr echo_conf", OF one])
  then have "tcp_reach ?svr echo_conf st'"
    unfolding tcp_reach_def by (rule exI)
  with st'(2,3) show ?thesis
    by (intro exI [of _ st']) simp
qed


end
