(* ===== verification/Tars_Lexer.thy ===== *)
theory Tars_Lexer
  imports Go_Strings
begin

text \<open>
  The lexer of the interface compiler \<^verbatim>\<open>tars2go\<close>, \<^verbatim>\<open>tars/tools/tars2go/lex.go\<close>. A panic of the
  lexer is an \<open>Inl\<close> with the source, the line and the reason. The value of a floating-point
  literal is not kept: the parser uses its text only, so what matters of \<^verbatim>\<open>ParseFloat\<close> is whether it
  accepts the text.
\<close>

section \<open>Tokens\<close>

datatype TK =
    tkEos | tkBraceLeft | tkBraceRight | tkSemi | tkEq | tkShl | tkShr | tkComma | tkPtl | tkPtr
  | tkSquareLeft | tkSquarerRight | tkInclude
  | tkModule | tkEnum | tkStruct | tkInterface | tkRequire | tkOptional | tkConst | tkUnsigned
  | tkVoid | tkOut | tkKey | tkTrue | tkFalse
  | tkTInt | tkTBool | tkTShort | tkTByte | tkTLong | tkTFloat | tkTDouble | tkTString | tkTVector
  | tkTMap | tkTArray
  | tkName | tkString | tkInteger | tkFloat

text \<open>The tokens between the dummy tokens of the enumeration.\<close>

definition keywordTokens :: "TK list" where
  "keywordTokens = [tkModule, tkEnum, tkStruct, tkInterface, tkRequire, tkOptional, tkConst, tkUnsigned,
     tkVoid, tkOut, tkKey, tkTrue, tkFalse]"

definition typeTokens :: "TK list" where
  "typeTokens = [tkTInt, tkTBool, tkTShort, tkTByte, tkTLong, tkTFloat, tkTDouble, tkTString,
     tkTVector, tkTMap, tkTArray]"

fun TokenMap :: "TK \<Rightarrow> gostring" where
  "TokenMap tkEos = ascii ''<eos>''"
| "TokenMap tkBraceLeft = ascii ''{''"
| "TokenMap tkBraceRight = ascii ''}''"
| "TokenMap tkSemi = ascii '';''"
| "TokenMap tkEq = ascii ''=''"
| "TokenMap tkShl = ascii ''<''"
| "TokenMap tkShr = ascii ''>''"
| "TokenMap tkComma = ascii '',''"
| "TokenMap tkPtl = ascii ''(''"
| "TokenMap tkPtr = ascii '')''"
| "TokenMap tkSquareLeft = ascii ''[''"
| "TokenMap tkSquarerRight = ascii '']''"
| "TokenMap tkInclude = ascii ''#include''"
| "TokenMap tkModule = ascii ''module''"
| "TokenMap tkEnum = ascii ''enum''"
| "TokenMap tkStruct = ascii ''struct''"
| "TokenMap tkInterface = ascii ''interface''"
| "TokenMap tkRequire = ascii ''require''"
| "TokenMap tkOptional = ascii ''optional''"
| "TokenMap tkConst = ascii ''const''"
| "TokenMap tkUnsigned = ascii ''unsigned''"
| "TokenMap tkVoid = ascii ''void''"
| "TokenMap tkOut = ascii ''out''"
| "TokenMap tkKey = ascii ''key''"
| "TokenMap tkTrue = ascii ''true''"
| "TokenMap tkFalse = ascii ''false''"
| "TokenMap tkTInt = ascii ''int''"
| "TokenMap tkTBool = ascii ''bool''"
| "TokenMap tkTShort = ascii ''short''"
| "TokenMap tkTByte = ascii ''byte''"
| "TokenMap tkTLong = ascii ''long''"
| "TokenMap tkTFloat = ascii ''float''"
| "TokenMap tkTDouble = ascii ''double''"
| "TokenMap tkTString = ascii ''string''"
| "TokenMap tkTVector = ascii ''vector''"
| "TokenMap tkTMap = ascii ''map''"
| "TokenMap tkTArray = ascii ''array''"
| "TokenMap tkName = ascii ''<name>''"
| "TokenMap tkString = ascii ''<string>''"
| "TokenMap tkInteger = ascii ''<INTEGER>''"
| "TokenMap tkFloat = ascii ''<FLOAT>''"

text \<open>\<open>semI\<close> is the value of an integer, \<open>semS\<close> the text; \<^verbatim>\<open>SemInfo\<close> is a nil pointer for the other
  tokens.\<close>

record SemInfo =
  semI :: int
  semS :: gostring

record Token =
  tokT :: TK
  tokS :: "SemInfo option"
  tokLine :: nat

record LexState =
  lxCurrent :: byte
  lxLineNumber :: nat
  lxTokenBuff :: bytes
  lxBuff :: bytes
  lxSource :: gostring

datatype reason =
    LexIllegalIdent | LexIllegalQualifier | LexNotInclude | LexNoQuote | LexOpenComment
  | LexSlash | LexUnrecognized byte | LexBadNumber gostring
  | Expect TK | NotExpect TK | NotUnsigned TK | ExpectType | Redefine gostring
  | ExpectCommaOrBrace | NoNumber | NoString | BadDefault | ExpectTag | ExpectRequire
  | ExpectSemiOrEq | NoDefault | DuplicateTag int | ExpectCommaOrPtr | ConstContainer | ExpectSquareOrComma
  | NameConflict gostring | NotDefined gostring | NoDefaultValue gostring | ExpectIncludeOrModule
  | CircularReference gostring | NilType | SecondModule | BadPath

datatype parseErr = ParseErr gostring nat reason

section \<open>Characters\<close>

definition ch :: "char \<Rightarrow> byte" where
  "ch c = word_of_nat (of_char c)"

definition EOS :: byte where
  "EOS = 0"

definition isNewLine :: "byte \<Rightarrow> bool" where
  "isNewLine b \<longleftrightarrow> b = 13 \<or> b = 10"

definition isNumber :: "byte \<Rightarrow> bool" where
  "isNumber b \<longleftrightarrow> ch CHR ''0'' \<le> b \<and> b \<le> ch CHR ''9'' \<or> b = ch CHR ''-''"

definition isHexNumber :: "byte \<Rightarrow> bool" where
  "isHexNumber b \<longleftrightarrow> ch CHR ''a'' \<le> b \<and> b \<le> ch CHR ''f'' \<or> ch CHR ''A'' \<le> b \<and> b \<le> ch CHR ''F''"

definition isLetter :: "byte \<Rightarrow> bool" where
  "isLetter b \<longleftrightarrow> ch CHR ''a'' \<le> b \<and> b \<le> ch CHR ''z''
     \<or> ch CHR ''A'' \<le> b \<and> b \<le> ch CHR ''Z'' \<or> b = ch CHR ''_''"

definition isType :: "TK \<Rightarrow> bool" where
  "isType t \<longleftrightarrow> t \<in> set typeTokens"

definition isNumberType :: "TK \<Rightarrow> bool" where
  "isNumberType t \<longleftrightarrow> t \<in> {tkTInt, tkTBool, tkTShort, tkTByte, tkTLong, tkTFloat, tkTDouble}"

section \<open>Numbers\<close>

text \<open>\<^verbatim>\<open>strconv.ParseInt(s, 0, 64)\<close> on a string without underscores, which the lexer never collects:
  the base is the one the prefix after the sign says.\<close>

definition ParseUint0 :: "gostring \<Rightarrow> nat option" where
  "ParseUint0 s =
     (if s = [] then None
      else if hd s = ch CHR ''0'' then
        (if length s \<ge> 3 \<and> (s ! 1 = ch CHR ''b'' \<or> s ! 1 = ch CHR ''B'')
         then parseDigits 2 (2 ^ 64 - 1) 0 (drop 2 s)
         else if length s \<ge> 3 \<and> (s ! 1 = ch CHR ''o'' \<or> s ! 1 = ch CHR ''O'')
         then parseDigits 8 (2 ^ 64 - 1) 0 (drop 2 s)
         else if length s \<ge> 3 \<and> (s ! 1 = ch CHR ''x'' \<or> s ! 1 = ch CHR ''X'')
         then parseDigits 16 (2 ^ 64 - 1) 0 (drop 2 s)
         else parseDigits 8 (2 ^ 64 - 1) 0 (tl s))
      else parseDigits 10 (2 ^ 64 - 1) 0 s)"

definition ParseInt0 :: "gostring \<Rightarrow> int option" where
  "ParseInt0 s =
     (if s = [] then None
      else let neg = hd s = ch CHR ''-'';
               s = (if hd s = ch CHR ''+'' \<or> neg then tl s else s)
           in (case ParseUint0 s of
                 None \<Rightarrow> None
               | Some un \<Rightarrow>
                   if \<not> neg \<and> un \<ge> 2 ^ 63 then None
                   else if neg \<and> un > 2 ^ 63 then None
                   else Some (if neg then - int un else int un)))"

text \<open>Whether \<^verbatim>\<open>strconv.ParseFloat(s, 64)\<close> accepts a string made of digits, signs, full stops and the
  letters of a hexadecimal number, with at least one full stop: it has one sign at most, one
  full stop and some digit, and its value does not round to infinity. The hexadecimal form
  needs an exponent and is never accepted.\<close>

definition ParseFloat_ok :: "gostring \<Rightarrow> bool" where
  "ParseFloat_ok s =
     (let s = (if s \<noteq> [] \<and> (hd s = ch CHR ''+'' \<or> hd s = ch CHR ''-'') then tl s else s) in
      case strings_Split s (ch CHR ''.'') of
        [a, b] \<Rightarrow>
          a @ b \<noteq> [] \<and> (\<forall>c \<in> set (a @ b). ch CHR ''0'' \<le> c \<and> c \<le> ch CHR ''9'')
          \<and> foldl (\<lambda>n c. n * 10 + (unat c - 48)) 0 (a @ b) < (2 ^ 1024 - 2 ^ 970) * 10 ^ length b
      | _ \<Rightarrow> False)"

section \<open>Reading\<close>

type_synonym 'a lexed = "parseErr + 'a \<times> LexState"

definition lexErr :: "reason \<Rightarrow> LexState \<Rightarrow> parseErr" where
  "lexErr err ls = ParseErr (lxSource ls) (lxLineNumber ls) err"

definition lex_next :: "LexState \<Rightarrow> LexState" where
  "lex_next ls =
     (case lxBuff ls of
        [] \<Rightarrow> ls\<lparr>lxCurrent := EOS\<rparr>
      | b # bs \<Rightarrow> ls\<lparr>lxCurrent := b, lxBuff := bs\<rparr>)"

definition incLine :: "LexState \<Rightarrow> LexState" where
  "incLine ls =
     (let old = lxCurrent ls;
          ls = lex_next ls;
          ls = (if isNewLine (lxCurrent ls) \<and> lxCurrent ls \<noteq> old then lex_next ls else ls)
      in ls\<lparr>lxLineNumber := lxLineNumber ls + 1\<rparr>)"

definition writeToken :: "LexState \<Rightarrow> LexState" where
  "writeToken ls = lex_next (ls\<lparr>lxTokenBuff := lxTokenBuff ls @ [lxCurrent ls]\<rparr>)"

text \<open>The number of characters left, the current one included.\<close>

definition lex_size :: "LexState \<Rightarrow> nat" where
  "lex_size ls = length (lxBuff ls) + (if lxCurrent ls = EOS then 0 else 1)"

lemma lex_size_next [simp]: "lxCurrent ls \<noteq> EOS \<Longrightarrow> lex_size (lex_next ls) < lex_size ls"
  by (auto simp: lex_size_def lex_next_def split: list.splits)

lemma lex_size_next_le [simp]: "lex_size (lex_next ls) \<le> lex_size ls"
  by (auto simp: lex_size_def lex_next_def split: list.splits)

lemma lex_size_tokenBuff [simp]: "lex_size (ls\<lparr>lxTokenBuff := b\<rparr>) = lex_size ls"
  by (simp add: lex_size_def)

lemma lex_size_line [simp]: "lex_size (ls\<lparr>lxLineNumber := n\<rparr>) = lex_size ls"
  by (simp add: lex_size_def)

lemma lex_size_writeToken: "lxCurrent ls \<noteq> EOS \<Longrightarrow> lex_size (writeToken ls) < lex_size ls"
  using lex_size_next [of "ls\<lparr>lxTokenBuff := lxTokenBuff ls @ [lxCurrent ls]\<rparr>"]
  by (simp add: writeToken_def)

lemma lex_size_incLine: "lxCurrent ls \<noteq> EOS \<Longrightarrow> lex_size (incLine ls) < lex_size ls"
  using le_less_trans [OF lex_size_next_le [of "lex_next ls"] lex_size_next [of ls]]
  by (simp add: incLine_def Let_def)

lemma not_EOS:
  "isNumber b \<Longrightarrow> b \<noteq> EOS" "isHexNumber b \<Longrightarrow> b \<noteq> EOS" "isLetter b \<Longrightarrow> b \<noteq> EOS" "isNewLine b \<Longrightarrow> b \<noteq> EOS"
  by (auto simp: isNumber_def isHexNumber_def isLetter_def isNewLine_def EOS_def ch_def)

text \<open>The loop of \<^verbatim>\<open>readNumber\<close>, with \<^verbatim>\<open>hasDot\<close> and \<^verbatim>\<open>isHex\<close>.\<close>

function readNumber_loop :: "bool \<Rightarrow> bool \<Rightarrow> LexState \<Rightarrow> bool \<times> LexState" where
  "readNumber_loop hasDot isHex ls =
     (let c = lxCurrent ls in
      if isNumber c \<or> c = ch CHR ''.'' \<or> c = ch CHR ''x'' \<or> c = ch CHR ''X''
        \<or> isHex \<and> isHexNumber c
      then readNumber_loop (hasDot \<or> c = ch CHR ''.'')
             (isHex \<or> c \<noteq> ch CHR ''.'' \<and> (c = ch CHR ''x'' \<or> c = ch CHR ''X'')) (writeToken ls)
      else (hasDot, ls))"
  by auto
termination
  by (relation "measure (\<lambda>(_, _, ls). lex_size ls)")
    (auto intro!: lex_size_writeToken dest: not_EOS simp: EOS_def ch_def)

definition readNumber :: "LexState \<Rightarrow> (TK \<times> SemInfo option) lexed" where
  "readNumber ls =
     (let (hasDot, ls) = readNumber_loop False False ls;
          s = lxTokenBuff ls
      in if hasDot then
           (if ParseFloat_ok s then Inr ((tkFloat, Some \<lparr>semI = 0, semS = s\<rparr>), ls)
            else Inl (lexErr (LexBadNumber s) ls))
         else (case ParseInt0 s of
             Some i \<Rightarrow> Inr ((tkInteger, Some \<lparr>semI = i, semS = s\<rparr>), ls)
           | None \<Rightarrow> Inl (lexErr (LexBadNumber s) ls)))"

function readIdent_loop :: "byte \<Rightarrow> LexState \<Rightarrow> parseErr + LexState" where
  "readIdent_loop prev ls =
     (let c = lxCurrent ls in
      if isLetter c \<or> isNumber c \<or> c = ch CHR '':'' then
        (if isNumber c \<and> prev = ch CHR '':'' then Inl (lexErr LexIllegalIdent ls)
         else readIdent_loop c (writeToken ls))
      else Inr ls)"
  by auto
termination
  by (relation "measure (\<lambda>(_, ls). lex_size ls)")
    (auto intro!: lex_size_writeToken dest: not_EOS simp: EOS_def ch_def)

text \<open>\<^verbatim>\<open>strings.Count(s, ":")\<close>, \<^verbatim>\<open>strings.Count(s, "::")\<close>, whose occurrences do not overlap, and the text
  after the first \<^verbatim>\<open>"::"\<close>.\<close>

definition count_colon :: "gostring \<Rightarrow> nat" where
  "count_colon s = length (filter (\<lambda>c. c = ch CHR '':'') s)"

fun count_colons :: "gostring \<Rightarrow> nat" where
  "count_colons (c # d # s) =
     (if c = ch CHR '':'' \<and> d = ch CHR '':'' then Suc (count_colons s) else count_colons (d # s))"
| "count_colons _ = 0"

fun after_colons :: "gostring \<Rightarrow> gostring" where
  "after_colons (c # d # s) =
     (if c = ch CHR '':'' \<and> d = ch CHR '':'' then s else after_colons (d # s))"
| "after_colons s = s"

text \<open>The token of a word: the keyword or type with this text, or a name.\<close>

definition wordToken :: "gostring \<Rightarrow> TK \<times> SemInfo option" where
  "wordToken s =
     (case find (\<lambda>t. TokenMap t = s) keywordTokens of
        Some t \<Rightarrow> (t, None)
      | None \<Rightarrow> (case find (\<lambda>t. TokenMap t = s) typeTokens of
            Some t \<Rightarrow> (t, None)
          | None \<Rightarrow> (tkName, Some \<lparr>semI = 0, semS = s\<rparr>)))"

definition readIdent :: "LexState \<Rightarrow> (TK \<times> SemInfo option) lexed" where
  "readIdent ls =
     (case readIdent_loop 0 ls of
        Inl e \<Rightarrow> Inl e
      | Inr ls \<Rightarrow>
          (let s = lxTokenBuff ls in
           if count_colon s > 0 then
             (let s = (if count_colons s = 2 \<and> count_colon s = 4 then after_colons s else s) in
              if count_colons s \<noteq> 1 \<or> count_colon s \<noteq> 2 then Inl (lexErr LexIllegalQualifier ls)
              else Inr (wordToken s, ls))
           else Inr (wordToken s, ls)))"

function letters_loop :: "LexState \<Rightarrow> LexState" where
  "letters_loop ls = (if isLetter (lxCurrent ls) then letters_loop (writeToken ls) else ls)"
  by auto
termination
  by (relation "measure lex_size") (auto intro!: lex_size_writeToken dest: not_EOS)

definition readSharp :: "LexState \<Rightarrow> (TK \<times> SemInfo option) lexed" where
  "readSharp ls =
     (let ls = letters_loop (lex_next ls) in
      if lxTokenBuff ls \<noteq> ascii ''include'' then Inl (lexErr LexNotInclude ls)
      else Inr ((tkInclude, None), ls))"

function readString_loop :: "LexState \<Rightarrow> parseErr + LexState" where
  "readString_loop ls =
     (if lxCurrent ls = EOS then Inl (lexErr LexNoQuote ls)
      else if lxCurrent ls = 34 then Inr (lex_next ls)
      else readString_loop (writeToken ls))"
  by auto
termination
  by (relation "measure lex_size") (auto intro!: lex_size_writeToken)

definition readString :: "LexState \<Rightarrow> (TK \<times> SemInfo option) lexed" where
  "readString ls =
     (case readString_loop (lex_next ls) of
        Inl e \<Rightarrow> Inl e
      | Inr ls \<Rightarrow> Inr ((tkString, Some \<lparr>semI = 0, semS = lxTokenBuff ls\<rparr>), ls))"

text \<open>A comment that ends in a star at the end of the file is accepted.\<close>

function readLongComment :: "LexState \<Rightarrow> parseErr + LexState" where
  "readLongComment ls =
     (if lxCurrent ls = EOS then Inl (lexErr LexOpenComment ls)
      else if isNewLine (lxCurrent ls) then readLongComment (incLine ls)
      else if lxCurrent ls = ch CHR ''*'' then
        (if lxCurrent (lex_next ls) = EOS then Inr (lex_next ls)
         else if lxCurrent (lex_next ls) = ch CHR ''/'' then Inr (lex_next (lex_next ls))
         else readLongComment (lex_next ls))
      else readLongComment (lex_next ls))"
  by auto
termination
  by (relation "measure lex_size") (auto intro!: lex_size_incLine)

function skipLine :: "LexState \<Rightarrow> LexState" where
  "skipLine ls =
     (if \<not> isNewLine (lxCurrent ls) \<and> lxCurrent ls \<noteq> EOS then skipLine (lex_next ls) else ls)"
  by auto
termination
  by (relation "measure lex_size") auto

declare readNumber_loop.simps [simp del] readIdent_loop.simps [simp del] letters_loop.simps [simp del]
  readString_loop.simps [simp del] readLongComment.simps [simp del] skipLine.simps [simp del]

section \<open>Sizes\<close>

lemma lex_size_skipLine: "lex_size (skipLine ls) \<le> lex_size ls"
proof (induction ls rule: skipLine.induct)
  case (1 ls)
  then show ?case
    using lex_size_next_le [of ls] by (subst skipLine.simps) (auto intro: order_trans)
qed

lemma lex_size_next_leI: "lex_size x \<le> lex_size (lex_next ls) \<Longrightarrow> lex_size x \<le> lex_size ls"
  by (rule order_trans [OF _ lex_size_next_le])

lemma lex_size_readLongComment: "readLongComment ls = Inr ls' \<Longrightarrow> lex_size ls' \<le> lex_size ls"
proof (induction ls rule: readLongComment.induct)
  case (1 ls)
  from 1(4) have "lxCurrent ls \<noteq> EOS"
    by (auto simp: readLongComment.simps)
  with 1 lex_size_incLine [of ls] show ?case
    by (subst (asm) (4) readLongComment.simps)
      (auto split: if_splits intro: lex_size_next_leI lex_size_next_leI [OF lex_size_next_le])
qed

section \<open>The lexer\<close>

definition llexDefault :: "LexState \<Rightarrow> (TK \<times> SemInfo option) lexed" where
  "llexDefault ls =
     (if isNumber (lxCurrent ls) then readNumber ls
      else if isLetter (lxCurrent ls) then readIdent ls
      else Inl (lexErr (LexUnrecognized (lxCurrent ls)) ls))"

text \<open>The characters 9, 11, 12 and 32 are blanks; 34 is the quotation mark.\<close>

function llex :: "LexState \<Rightarrow> (TK \<times> SemInfo option) lexed" where
  "llex ls0 =
     (let ls = ls0\<lparr>lxTokenBuff := []\<rparr>;
          c = lxCurrent ls
      in if c = EOS then Inr ((tkEos, None), ls)
         else if c = 32 \<or> c = 9 \<or> c = 12 \<or> c = 11 then llex (lex_next ls)
         else if isNewLine c then llex (incLine ls)
         else if c = ch CHR ''/'' then
           (if lxCurrent (lex_next ls) = ch CHR ''/'' then llex (skipLine (lex_next ls))
            else if lxCurrent (lex_next ls) = ch CHR ''*'' then
              (case readLongComment (lex_next (lex_next ls)) of
                 Inl e \<Rightarrow> Inl e
               | Inr ls \<Rightarrow> llex ls)
            else Inl (lexErr LexSlash (lex_next ls)))
         else if c = ch CHR ''{'' then Inr ((tkBraceLeft, None), lex_next ls)
         else if c = ch CHR ''}'' then Inr ((tkBraceRight, None), lex_next ls)
         else if c = ch CHR '';'' then Inr ((tkSemi, None), lex_next ls)
         else if c = ch CHR ''='' then Inr ((tkEq, None), lex_next ls)
         else if c = ch CHR ''<'' then Inr ((tkShl, None), lex_next ls)
         else if c = ch CHR ''>'' then Inr ((tkShr, None), lex_next ls)
         else if c = ch CHR '','' then Inr ((tkComma, None), lex_next ls)
         else if c = ch CHR ''('' then Inr ((tkPtl, None), lex_next ls)
         else if c = ch CHR '')'' then Inr ((tkPtr, None), lex_next ls)
         else if c = ch CHR ''['' then Inr ((tkSquareLeft, None), lex_next ls)
         else if c = ch CHR '']'' then Inr ((tkSquarerRight, None), lex_next ls)
         else if c = 34 then readString ls
         else if c = ch CHR ''#'' then readSharp ls
         else llexDefault ls)"
  by auto
termination
proof (relation "measure lex_size", goal_cases)
  case (2 ls c)
  then show ?case
    using lex_size_next [of "ls\<lparr>lxTokenBuff := []\<rparr>"] by simp
next
  case (3 ls c)
  then show ?case
    using lex_size_incLine [of "ls\<lparr>lxTokenBuff := []\<rparr>"] by simp
next
  case (4 ls c)
  then show ?case
    using lex_size_next [of "ls\<lparr>lxTokenBuff := []\<rparr>"]
      lex_size_skipLine [of "lex_next (ls\<lparr>lxTokenBuff := []\<rparr>)"] by simp
next
  case (5 ls c ls')
  then show ?case
    using lex_size_next [of "ls\<lparr>lxTokenBuff := []\<rparr>"]
      lex_size_next_leI [OF lex_size_readLongComment [OF 5(9)]] by simp
qed simp

declare llex.simps [simp del]

definition NextToken :: "LexState \<Rightarrow> Token lexed" where
  "NextToken ls =
     (case llex ls of
        Inl e \<Rightarrow> Inl e
      | Inr ((t, s), ls) \<Rightarrow> Inr (\<lparr>tokT = t, tokS = s, tokLine = lxLineNumber ls\<rparr>, ls))"

definition NewLexState :: "gostring \<Rightarrow> bytes \<Rightarrow> LexState" where
  "NewLexState source buff =
     \<lparr>lxCurrent = 32, lxLineNumber = 1, lxTokenBuff = [], lxBuff = buff, lxSource = source\<rparr>"

end
