(* ===== verification/Tars_Tokens.thy ===== *)
theory Tars_Tokens
  imports Tars_Lexer
begin

text \<open>
  Facts on the lexer of \<^verbatim>\<open>tars2go\<close>: every token but the end of the stream consumes input, so
  reading all tokens of a file ends; and printed tokens are read back.
\<close>

section \<open>Progress\<close>

lemma ch_simps [simp]:
  "ch CHR ''.'' = 46" "ch CHR ''x'' = 120" "ch CHR ''X'' = 88" "ch CHR '':'' = 58"
  "ch CHR ''*'' = 42" "ch CHR ''/'' = 47" "ch CHR ''{'' = 123" "ch CHR ''}'' = 125"
  "ch CHR '';'' = 59" "ch CHR ''='' = 61" "ch CHR ''<'' = 60" "ch CHR ''>'' = 62"
  "ch CHR '','' = 44" "ch CHR ''('' = 40" "ch CHR '')'' = 41" "ch CHR ''['' = 91"
  "ch CHR '']'' = 93" "ch CHR ''#'' = 35" "ch CHR ''0'' = 48" "ch CHR ''b'' = 98"
  "ch CHR ''9'' = 57" "ch CHR ''B'' = 66" "ch CHR ''o'' = 111" "ch CHR ''O'' = 79"
  "ch CHR ''-'' = 45" "ch CHR ''+'' = 43" "ch CHR ''a'' = 97" "ch CHR ''f'' = 102"
  "ch CHR ''A'' = 65" "ch CHR ''F'' = 70" "ch CHR ''z'' = 122" "ch CHR ''Z'' = 90"
  "ch CHR ''_'' = 95"
  by (simp_all add: ch_def)

lemma lex_size_writeToken_le: "lex_size (writeToken ls) \<le> lex_size ls"
  unfolding writeToken_def
  by (rule order_trans [OF lex_size_next_le]) simp

lemma readNumber_loop_size: "lex_size (snd (readNumber_loop d h ls)) \<le> lex_size ls"
proof (induction d h ls rule: readNumber_loop.induct)
  case (1 d h ls)
  then show ?case
    using lex_size_writeToken_le [of ls]
    by (subst readNumber_loop.simps) (auto simp: Let_def intro: order_trans)
qed

lemma readIdent_loop_size: "readIdent_loop p ls = Inr ls' \<Longrightarrow> lex_size ls' \<le> lex_size ls"
proof (induction p ls rule: readIdent_loop.induct)
  case (1 p ls)
  then show ?case
    using lex_size_writeToken_le [of ls]
    by (subst (asm) (2) readIdent_loop.simps)
      (auto simp: Let_def split: if_splits intro: order_trans)
qed

lemma letters_loop_size: "lex_size (letters_loop ls) \<le> lex_size ls"
proof (induction ls rule: letters_loop.induct)
  case (1 ls)
  then show ?case
    using lex_size_writeToken_le [of ls]
    by (subst letters_loop.simps) (auto intro: order_trans)
qed

lemma readString_loop_size: "readString_loop ls = Inr ls' \<Longrightarrow> lex_size ls' \<le> lex_size ls"
proof (induction ls rule: readString_loop.induct)
  case (1 ls)
  then show ?case
    using lex_size_writeToken_le [of ls]
    by (subst (asm) (2) readString_loop.simps) (auto split: if_splits intro: order_trans)
qed

lemma readNumber_size:
  assumes "readNumber ls = Inr (r, ls')" and "isNumber (lxCurrent ls)"
  shows "lex_size ls' < lex_size ls"
proof -
  have "lex_size (snd (readNumber_loop False False ls)) < lex_size ls"
    using readNumber_loop_size lex_size_writeToken [OF not_EOS(1) [OF assms(2)]] assms(2)
    by (subst readNumber_loop.simps) (auto simp: Let_def intro: le_less_trans)
  with assms(1) show ?thesis
    by (auto simp: readNumber_def Let_def split: prod.splits if_splits option.splits)
qed

lemma readIdent_size:
  assumes "readIdent ls = Inr (r, ls')" and "isLetter (lxCurrent ls)"
  shows "lex_size ls' < lex_size ls"
proof -
  obtain l where l: "readIdent_loop 0 ls = Inr l" "ls' = l"
    using assms(1) by (auto simp: readIdent_def Let_def split: sum.splits if_splits)
  have "readIdent_loop (lxCurrent ls) (writeToken ls) = Inr l"
    using l(1) assms(2) by (subst (asm) readIdent_loop.simps) (auto simp: Let_def split: if_splits)
  from readIdent_loop_size [OF this] show ?thesis
    using lex_size_writeToken [OF not_EOS(3) [OF assms(2)]] l(2) by simp
qed

lemma find_in_set: "find P ts = Some t \<Longrightarrow> t \<in> set ts"
  by (auto simp: find_Some_iff)

lemma wordToken_not_eos: "fst (wordToken s) \<noteq> tkEos"
proof -
  have "tkEos \<notin> set keywordTokens" "tkEos \<notin> set typeTokens"
    by (simp_all add: keywordTokens_def typeTokens_def)
  then show ?thesis
    by (auto simp: wordToken_def split: option.splits dest: find_in_set)
qed

lemma llexDefault_size:
  assumes "llexDefault ls = Inr (r, ls')"
  shows "fst r \<noteq> tkEos \<and> lex_size ls' < lex_size ls"
proof -
  have "fst r \<noteq> tkEos"
    using assms wordToken_not_eos
    by (auto simp: llexDefault_def readNumber_def readIdent_def Let_def
        split: if_splits prod.splits option.splits sum.splits)
  moreover have "lex_size ls' < lex_size ls"
    using assms readNumber_size [of ls r ls'] readIdent_size [of ls r ls']
    by (auto simp: llexDefault_def split: if_splits)
  ultimately show ?thesis by simp
qed

lemma readString_size:
  assumes "readString ls = Inr (r, ls')" and "lxCurrent ls \<noteq> EOS"
  shows "fst r = tkString \<and> lex_size ls' < lex_size ls"
proof -
  obtain l where "readString_loop (lex_next ls) = Inr l" "ls' = l" "fst r = tkString"
    using assms(1) by (auto simp: readString_def split: sum.splits)
  with readString_loop_size [of "lex_next ls" l] lex_size_next [OF assms(2)] show ?thesis
    by simp
qed

lemma readSharp_size:
  assumes "readSharp ls = Inr (r, ls')" and "lxCurrent ls \<noteq> EOS"
  shows "fst r = tkInclude \<and> lex_size ls' < lex_size ls"
  using assms le_less_trans [OF letters_loop_size [of "lex_next ls"] lex_size_next [OF assms(2)]]
  by (auto simp: readSharp_def Let_def split: if_splits)

text \<open>The branches of \<^verbatim>\<open>llex\<close> that return at once.\<close>

lemma llex_branches:
  assumes "llex ls0 = Inr (r, ls')" and ls: "ls = ls0\<lparr>lxTokenBuff := []\<rparr>"
  obtains (eos) "fst r = tkEos" "ls' = ls" "lxCurrent ls = EOS"
  | (step) "fst r \<noteq> tkEos" "lex_size ls' < lex_size ls"
  | (skip) l where "llex l = Inr (r, ls')" "lex_size l < lex_size ls"
proof -
  let ?c = "lxCurrent ls"
  note u = assms(1) [unfolded llex.simps [of ls0], folded ls]
  consider (1) "?c = EOS" | (2) "?c \<noteq> EOS" "?c = 32 \<or> ?c = 9 \<or> ?c = 12 \<or> ?c = 11"
    | (3) "?c \<noteq> EOS" "\<not> (?c = 32 \<or> ?c = 9 \<or> ?c = 12 \<or> ?c = 11)" "isNewLine ?c"
    | (4) "?c \<noteq> EOS" "\<not> (?c = 32 \<or> ?c = 9 \<or> ?c = 12 \<or> ?c = 11)" "\<not> isNewLine ?c" "?c = ch CHR ''/''"
    | (5) "?c \<noteq> EOS" "\<not> (?c = 32 \<or> ?c = 9 \<or> ?c = 12 \<or> ?c = 11)" "\<not> isNewLine ?c" "?c \<noteq> ch CHR ''/''"
    by blast
  then show thesis
  proof cases
    case 1
    with u eos show thesis by (auto simp: Let_def)
  next
    case 2
    with u skip lex_size_next [of ls] show thesis by (simp add: Let_def)
  next
    case 3
    with u skip lex_size_incLine [of ls] show thesis by (simp add: Let_def)
  next
    case 4
    show thesis
    proof (cases "lxCurrent (lex_next ls) = ch CHR ''/''")
      case True
      then have "llex (skipLine (lex_next ls)) = Inr (r, ls')"
        using u 4 by (simp add: Let_def)
      with skip lex_size_skipLine [of "lex_next ls"] lex_size_next [OF 4(1)] show thesis
        by simp
    next
      case False
      then obtain l where "readLongComment (lex_next (lex_next ls)) = Inr l" "llex l = Inr (r, ls')"
        using u 4 by (auto simp: Let_def split: if_splits sum.splits)
      with skip lex_size_next_leI [OF lex_size_readLongComment] lex_size_next [OF 4(1)] show thesis
        by (meson le_less_trans)
    qed
  next
    case 5
    have "fst r \<noteq> tkEos \<and> lex_size ls' < lex_size ls"
      using u 5 lex_size_next [OF 5(1)] readString_size [of ls r ls'] readSharp_size [of ls r ls']
        llexDefault_size [of ls r ls']
      by (auto simp: Let_def split: if_splits)
    with step show thesis by simp
  qed
qed

lemma llex_size:
  "llex ls = Inr (r, ls') \<Longrightarrow>
    (if fst r = tkEos then lxCurrent ls' = EOS else lex_size ls' < lex_size ls)
    \<and> lex_size ls' \<le> lex_size ls"
proof (induction ls rule: measure_induct_rule [of lex_size])
  case (less ls)
  show ?case
  proof (rule llex_branches [OF less.prems refl], goal_cases eos step skip)
    case eos
    then show ?thesis by simp
  next
    case step
    then show ?thesis by simp
  next
    case (skip l)
    with less.IH [of l] show ?thesis by (auto split: if_splits)
  qed
qed

lemma NextToken_size:
  assumes "NextToken ls = Inr (tk, ls')"
  shows "lex_size ls' \<le> lex_size ls" "tokT tk = tkEos \<Longrightarrow> lxCurrent ls' = EOS"
    "tokT tk \<noteq> tkEos \<Longrightarrow> lex_size ls' < lex_size ls"
  using assms llex_size [of ls _ ls']
  by (auto simp: NextToken_def split: sum.splits prod.splits if_splits)

text \<open>At the end of the data every further token is the end of the stream.\<close>

lemma NextToken_eos:
  "lxCurrent ls = EOS \<Longrightarrow> NextToken ls
    = Inr (\<lparr>tokT = tkEos, tokS = None, tokLine = lxLineNumber ls\<rparr>, ls\<lparr>lxTokenBuff := []\<rparr>)"
  by (simp add: NextToken_def llex.simps)

section \<open>Reading words\<close>

text \<open>The lexer in line \<open>ln\<close> before the text \<open>s\<close>.\<close>

fun lx_at :: "gostring \<Rightarrow> nat \<Rightarrow> bytes \<Rightarrow> bytes \<Rightarrow> LexState" where
  "lx_at src ln tb [] = \<lparr>lxCurrent = EOS, lxLineNumber = ln, lxTokenBuff = tb, lxBuff = [], lxSource = src\<rparr>"
| "lx_at src ln tb (c # s) =
     \<lparr>lxCurrent = c, lxLineNumber = ln, lxTokenBuff = tb, lxBuff = s, lxSource = src\<rparr>"

lemma NewLexState_at: "NewLexState src b = lx_at src 1 [] (32 # b)"
  by (simp add: NewLexState_def)

lemma lx_at_fields [simp]:
  "lxCurrent (lx_at src ln tb (c # s)) = c" "lxTokenBuff (lx_at src ln tb s) = tb"
  "lxLineNumber (lx_at src ln tb s) = ln" "(lx_at src ln tb s)\<lparr>lxTokenBuff := tb'\<rparr> = lx_at src ln tb' s"
  by (cases s; simp)+

lemma lx_at_Nil [simp]: "lxCurrent (lx_at src ln tb []) = EOS"
  by simp

lemma lex_next_at [simp]: "lex_next (lx_at src ln tb (c # s)) = lx_at src ln tb s"
  by (cases s) (simp_all add: lex_next_def)

lemma writeToken_at [simp]: "writeToken (lx_at src ln tb (c # s)) = lx_at src ln (tb @ [c]) s"
proof -
  have "writeToken (lx_at src ln tb (c # s)) = lex_next (lx_at src ln (tb @ [c]) (c # s))"
    by (simp add: writeToken_def)
  then show ?thesis
    by (simp del: lx_at.simps)
qed

declare lx_at.simps [simp del]

definition wordChar :: "byte \<Rightarrow> bool" where
  "wordChar c \<longleftrightarrow> isLetter c \<or> isNumber c"

text \<open>Text after which a word or a number ends.\<close>

definition stops :: "bytes \<Rightarrow> bool" where
  "stops s \<longleftrightarrow> (s = [] \<or> \<not> wordChar (hd s) \<and> hd s \<noteq> 58 \<and> hd s \<noteq> 46)"

lemma wordChar_not: "wordChar c \<Longrightarrow> c \<notin> {0, 9, 10, 11, 12, 13, 32, 34, 35, 40, 41, 44, 46, 47, 58, 59, 60, 61, 62, 91, 93, 123, 125}"
  by (auto simp: wordChar_def isLetter_def isNumber_def)

lemma stops_punct [simp]:
  "stops []" "stops (32 # s)" "stops (60 # s)" "stops (62 # s)" "stops (44 # s)" "stops (59 # s)"
  by (simp_all add: stops_def wordChar_def isLetter_def isNumber_def)

lemma current_stops:
  assumes "stops rest"
  shows "\<not> isLetter (lxCurrent (lx_at src ln tb rest))" "\<not> isNumber (lxCurrent (lx_at src ln tb rest))"
    "lxCurrent (lx_at src ln tb rest) \<notin> {46, 58, 88, 120}"
  using assms
  by (cases rest; auto simp: stops_def wordChar_def isLetter_def isNumber_def EOS_def)+

lemma readIdent_loop_word:
  assumes "\<forall>c \<in> set w. wordChar c" and "stops rest" and "prev \<noteq> 58"
  shows "readIdent_loop prev (lx_at src ln tb (w @ rest)) = Inr (lx_at src ln (tb @ w) rest)"
  using assms(1,3)
proof (induction w arbitrary: prev tb)
  case Nil
  then show ?case
    using current_stops [OF assms(2), of src ln tb]
    by (subst readIdent_loop.simps) (simp add: Let_def)
next
  case (Cons c w)
  moreover have "c \<noteq> 58"
    using Cons.prems wordChar_not [of c] by auto
  ultimately show ?case
    by (subst readIdent_loop.simps) (auto simp: Let_def wordChar_def)
qed

lemma count_colon_word: "\<forall>c \<in> set w. wordChar c \<Longrightarrow> count_colon w = 0"
  using wordChar_not by (auto simp: count_colon_def)

definition isWord :: "bytes \<Rightarrow> bool" where
  "isWord w \<longleftrightarrow> w \<noteq> [] \<and> isLetter (hd w) \<and> (\<forall>c \<in> set w. wordChar c)"

lemma llex_wordChar:
  assumes "wordChar c"
  shows "llex (lx_at src ln tb (c # s)) = llexDefault (lx_at src ln [] (c # s))"
  using wordChar_not [OF assms]
  by (subst llex.simps) (simp add: Let_def EOS_def isNewLine_def)

lemma letter_not_number: "isLetter c \<Longrightarrow> \<not> isNumber c"
  by (auto simp: isLetter_def isNumber_def word_le_nat_alt)

lemma llex_word:
  assumes "isWord w" and "stops rest"
  shows "llex (lx_at src ln tb (w @ rest)) = Inr (wordToken w, lx_at src ln w rest)"
proof -
  obtain c w' where w: "w = c # w'" and c: "isLetter c" "wordChar c" "\<not> isNumber c"
    using assms(1) letter_not_number by (cases w) (auto simp: isWord_def)
  have "llex (lx_at src ln tb (w @ rest)) = readIdent (lx_at src ln [] (w @ rest))"
    using c llex_wordChar [OF c(2)] by (simp add: w llexDefault_def)
  also have "\<dots> = Inr (wordToken w, lx_at src ln w rest)"
    using readIdent_loop_word [of w rest 0 src ln "[]"] assms
    by (simp add: readIdent_def isWord_def count_colon_word Let_def)
  finally show ?thesis .
qed

lemma llex_blank: "llex (lx_at src ln tb (32 # s)) = llex (lx_at src ln [] s)"
  by (subst llex.simps) (simp add: EOS_def)

lemma llex_punct:
  "llex (lx_at src ln tb (123 # s)) = Inr ((tkBraceLeft, None), lx_at src ln [] s)"
  "llex (lx_at src ln tb (125 # s)) = Inr ((tkBraceRight, None), lx_at src ln [] s)"
  "llex (lx_at src ln tb (59 # s)) = Inr ((tkSemi, None), lx_at src ln [] s)"
  "llex (lx_at src ln tb (61 # s)) = Inr ((tkEq, None), lx_at src ln [] s)"
  "llex (lx_at src ln tb (60 # s)) = Inr ((tkShl, None), lx_at src ln [] s)"
  "llex (lx_at src ln tb (62 # s)) = Inr ((tkShr, None), lx_at src ln [] s)"
  "llex (lx_at src ln tb (44 # s)) = Inr ((tkComma, None), lx_at src ln [] s)"
  "llex (lx_at src ln tb (40 # s)) = Inr ((tkPtl, None), lx_at src ln [] s)"
  "llex (lx_at src ln tb (41 # s)) = Inr ((tkPtr, None), lx_at src ln [] s)"
  "llex (lx_at src ln tb (91 # s)) = Inr ((tkSquareLeft, None), lx_at src ln [] s)"
  "llex (lx_at src ln tb (93 # s)) = Inr ((tkSquarerRight, None), lx_at src ln [] s)"
  by (subst llex.simps, simp add: EOS_def isNewLine_def)+

section \<open>Reading numbers and strings\<close>

lemma readNumber_loop_digits:
  assumes "\<forall>c \<in> set w. isNumber c" and "stops rest"
  shows "readNumber_loop False False (lx_at src ln tb (w @ rest)) = (False, lx_at src ln (tb @ w) rest)"
  using assms(1)
proof (induction w arbitrary: tb)
  case Nil
  then show ?case
    using current_stops [OF assms(2), of src ln tb]
    by (subst readNumber_loop.simps) (simp add: Let_def)
next
  case (Cons c w)
  then have "c \<noteq> 46" "c \<noteq> 120" "c \<noteq> 88"
    by (auto simp: isNumber_def)
  with Cons show ?case
    by (subst readNumber_loop.simps) (simp add: Let_def)
qed

lemma ParseUint0_format:
  assumes "n < 2 ^ 64"
  shows "ParseUint0 (formatBits 10 n) = Some n"
proof (cases "n = 0")
  case True
  then show ?thesis
    by (simp add: ParseUint0_def formatBits.simps digit_char_def)
next
  case False
  with formatBits_10_hd [of n] parseDigits_format [of 10 n "2 ^ 64 - 1" "[]"] assms show ?thesis
    by (simp add: ParseUint0_def)
qed

lemma ParseInt0_format:
  assumes "- (2 ^ 63) \<le> i" and "i < 2 ^ 63"
  shows "ParseInt0 (FormatInt i 10) = Some i"
proof (cases "i < 0")
  case True
  with assms ParseUint0_format [of "nat (- i)"] show ?thesis
    by (simp add: ParseInt0_def FormatInt_def Let_def nat_le_iff nat_less_iff)
next
  case False
  have "48 \<le> unat (hd (formatBits 10 (nat i)))"
    using formatBits_10_digits [of "nat i"] hd_in_set [of "formatBits 10 (nat i)"] by simp
  then have "hd (formatBits 10 (nat i)) \<noteq> 45" "hd (formatBits 10 (nat i)) \<noteq> 43"
    by auto
  with False assms ParseUint0_format [of "nat i"] show ?thesis
    by (simp add: ParseInt0_def FormatInt_def Let_def nat_less_iff not_le)
qed

lemma FormatInt_10_number: "\<forall>c \<in> set (FormatInt i 10). isNumber c"
  using formatBits_10_digits [of "nat (- i)"] formatBits_10_digits [of "nat i"]
  by (auto simp: FormatInt_def isNumber_def word_le_nat_alt)

lemma llex_integer:
  assumes "- (2 ^ 63) \<le> i" and "i < 2 ^ 63" and "stops rest"
  shows "llex (lx_at src ln tb (FormatInt i 10 @ rest))
    = Inr ((tkInteger, Some \<lparr>semI = i, semS = FormatInt i 10\<rparr>), lx_at src ln (FormatInt i 10) rest)"
proof -
  obtain c w where w: "FormatInt i 10 = c # w"
    by (cases "FormatInt i 10") (auto simp: FormatInt_def split: if_splits)
  then have c: "isNumber c" "wordChar c"
    using FormatInt_10_number [of i] by (simp_all add: wordChar_def)
  have "llex (lx_at src ln tb (FormatInt i 10 @ rest)) = readNumber (lx_at src ln [] (FormatInt i 10 @ rest))"
    using c llex_wordChar [OF c(2)] by (simp add: w llexDefault_def)
  then show ?thesis
    using readNumber_loop_digits [OF FormatInt_10_number assms(3), of src ln "[]" i]
      ParseInt0_format [OF assms(1,2)]
    by (simp add: readNumber_def Let_def)
qed

lemma readString_loop_text:
  assumes "34 \<notin> set s" and "EOS \<notin> set s"
  shows "readString_loop (lx_at src ln tb (s @ 34 # rest)) = Inr (lx_at src ln (tb @ s) rest)"
  using assms
proof (induction s arbitrary: tb)
  case Nil
  then show ?case by (subst readString_loop.simps) (simp add: EOS_def)
next
  case (Cons c s)
  then show ?case by (subst readString_loop.simps) auto
qed

lemma llex_string:
  assumes "34 \<notin> set s" and "EOS \<notin> set s"
  shows "llex (lx_at src ln tb (34 # s @ 34 # rest))
    = Inr ((tkString, Some \<lparr>semI = 0, semS = s\<rparr>), lx_at src ln s rest)"
  using readString_loop_text [OF assms, of src ln "[]" rest]
  by (subst llex.simps) (simp add: EOS_def isNewLine_def readString_def)

lemma letters_loop_word:
  assumes "\<forall>c \<in> set w. isLetter c" and "stops rest"
  shows "letters_loop (lx_at src ln tb (w @ rest)) = lx_at src ln (tb @ w) rest"
  using assms(1)
proof (induction w arbitrary: tb)
  case Nil
  then show ?case
    using current_stops [OF assms(2), of src ln tb] by (subst letters_loop.simps) simp
next
  case (Cons c w)
  then show ?case by (subst letters_loop.simps) simp
qed

lemma llex_include:
  assumes "stops rest"
  shows "llex (lx_at src ln tb (ascii ''#include'' @ rest))
    = Inr ((tkInclude, None), lx_at src ln (ascii ''include'') rest)"
proof -
  have "\<forall>c \<in> set (ascii ''include''). isLetter c"
    by (simp add: ascii_def isLetter_def)
  from letters_loop_word [OF this assms, of src ln "[]"] show ?thesis
    by (subst llex.simps)
      (simp add: EOS_def isNewLine_def readSharp_def ascii_def)
qed

section \<open>Reading a file\<close>

text \<open>All tokens up to the end of the stream.\<close>

function tokens :: "LexState \<Rightarrow> parseErr + Token list" where
  "tokens ls =
     (case NextToken ls of
        Inl e \<Rightarrow> Inl e
      | Inr (tk, ls') \<Rightarrow>
          if tokT tk = tkEos then Inr [tk]
          else (case tokens ls' of Inl e \<Rightarrow> Inl e | Inr tks \<Rightarrow> Inr (tk # tks)))"
  by auto
termination
  by (relation "measure lex_size") (auto dest: NextToken_size)

declare tokens.simps [simp del]

definition punctuation :: "TK list" where
  "punctuation = [tkBraceLeft, tkBraceRight, tkSemi, tkEq, tkShl, tkShr, tkComma, tkPtl, tkPtr,
     tkSquareLeft, tkSquarerRight]"

definition showToken :: "TK \<times> SemInfo option \<Rightarrow> bytes" where
  "showToken ti =
     (case ti of
        (t, Some i) \<Rightarrow> if t = tkString then 34 # semS i @ [34] else semS i
      | (t, None) \<Rightarrow> TokenMap t)"

text \<open>The tokens a file can spell: punctuation, words that are keywords or types, names that are
  neither, strings without quotation marks and the decimal form of 64-bit integers.\<close>

definition okToken :: "TK \<times> SemInfo option \<Rightarrow> bool" where
  "okToken ti =
     (case ti of
        (t, None) \<Rightarrow> t \<in> set punctuation \<or> t = tkInclude \<or> t \<in> set keywordTokens \<or> t \<in> set typeTokens
      | (t, Some i) \<Rightarrow>
          (if t = tkName then isWord (semS i) \<and> wordToken (semS i) = ti
           else if t = tkString then semI i = 0 \<and> 34 \<notin> set (semS i) \<and> EOS \<notin> set (semS i)
           else t = tkInteger \<and> - (2 ^ 63) \<le> semI i \<and> semI i < 2 ^ 63 \<and> semS i = FormatInt (semI i) 10))"

lemma words_ok:
  "list_all (\<lambda>t. isWord (TokenMap t) \<and> wordToken (TokenMap t) = (t, None)) (keywordTokens @ typeTokens)"
  by (simp add: keywordTokens_def typeTokens_def wordToken_def ascii_def isWord_def wordChar_def isLetter_def)

lemma words_read_back:
  "t \<in> set keywordTokens \<or> t \<in> set typeTokens
    \<Longrightarrow> isWord (TokenMap t) \<and> wordToken (TokenMap t) = (t, None)"
  using words_ok by (auto simp: list_all_iff)

text \<open>What the lexer keeps of a token in its buffer.\<close>

definition tokText :: "TK \<times> SemInfo option \<Rightarrow> bytes" where
  "tokText ti =
     (case ti of
        (t, Some i) \<Rightarrow> semS i
      | (t, None) \<Rightarrow> if t \<in> set punctuation then [] else if t = tkInclude then ascii ''include'' else TokenMap t)"

lemma punctuation_not_word:
  "tkInclude \<notin> set punctuation" "t \<in> set keywordTokens \<or> t \<in> set typeTokens \<Longrightarrow> t \<notin> set punctuation \<and> t \<noteq> tkInclude"
  by (auto simp: punctuation_def keywordTokens_def typeTokens_def)

lemma llex_shown:
  assumes "okToken ti" and "stops rest"
  shows "llex (lx_at src ln tb (showToken ti @ rest)) = Inr (ti, lx_at src ln (tokText ti) rest)"
proof -
  obtain t i where ti: "ti = (t, i)" by (cases ti)
  show ?thesis
  proof (cases i)
    case (Some j)
    consider (name) "t = tkName" | (str) "t = tkString" | (int) "t = tkInteger"
      using assms(1) by (auto simp: ti Some okToken_def split: if_splits)
    then show ?thesis
    proof cases
      case name
      with assms llex_word [of "semS j" rest src ln tb] show ?thesis
        by (auto simp: ti Some okToken_def showToken_def tokText_def)
    next
      case str
      with assms llex_string [of "semS j" src ln tb rest] show ?thesis
        by (auto simp: ti Some okToken_def showToken_def tokText_def)
    next
      case int
      with assms llex_integer [of "semI j" rest src ln tb] show ?thesis
        by (auto simp: ti Some okToken_def showToken_def tokText_def)
    qed
  next
    case None
    consider (punct) "t \<in> set punctuation" | (incl) "t = tkInclude"
      | (wrd) "t \<in> set keywordTokens \<or> t \<in> set typeTokens"
      using assms(1) by (auto simp: ti None okToken_def)
    then show ?thesis
    proof cases
      case punct
      then show ?thesis
        by (auto simp: ti None showToken_def tokText_def punctuation_def ascii_def llex_punct)
    next
      case incl
      with llex_include [OF assms(2), of src ln tb] show ?thesis
        by (auto simp: ti None showToken_def tokText_def punctuation_not_word)
    next
      case wrd
      with words_read_back [OF wrd] punctuation_not_word(2) [OF wrd]
        llex_word [OF _ assms(2), of "TokenMap t" src ln tb] show ?thesis
        by (simp add: ti None showToken_def tokText_def)
    qed
  qed
qed

lemma tkEos_not_spelt:
  "tkEos \<notin> set punctuation" "tkEos \<notin> set keywordTokens" "tkEos \<notin> set typeTokens"
  by (simp_all add: punctuation_def keywordTokens_def typeTokens_def)

lemma okToken_not_eos:
  assumes "okToken ti"
  shows "fst ti \<noteq> tkEos"
proof (cases ti)
  case (Pair t i)
  with assms show ?thesis
    using tkEos_not_spelt by (cases i) (auto simp: okToken_def)
qed

definition mkToken :: "TK \<times> SemInfo option \<Rightarrow> Token" where
  "mkToken ti = \<lparr>tokT = fst ti, tokS = snd ti, tokLine = 1\<rparr>"

text \<open>A text that spells tokens with a blank before each.\<close>

definition spell :: "(TK \<times> SemInfo option) list \<Rightarrow> bytes" where
  "spell tis = concat (map (\<lambda>ti. 32 # showToken ti) tis)"

lemma stops_spell [simp]: "stops (spell tis)"
  by (cases tis) (simp_all add: spell_def)

lemma NextToken_spell:
  assumes "okToken ti"
  shows "NextToken (lx_at src ln tb (spell (ti # tis)))
    = Inr (\<lparr>tokT = fst ti, tokS = snd ti, tokLine = ln\<rparr>, lx_at src ln (tokText ti) (spell tis))"
proof -
  have "llex (lx_at src ln [] (showToken ti @ spell tis)) = Inr (ti, lx_at src ln (tokText ti) (spell tis))"
    using assms by (rule llex_shown) simp
  moreover have "spell (ti # tis) = 32 # showToken ti @ spell tis"
    by (simp add: spell_def)
  ultimately show ?thesis
    by (cases ti) (simp add: NextToken_def llex_blank)
qed

lemma tokens_shown:
  assumes "\<forall>ti \<in> set tis. okToken ti"
  shows "tokens (lx_at src 1 tb (spell tis)) = Inr (map mkToken tis @ [mkToken (tkEos, None)])"
  using assms
proof (induction tis arbitrary: tb)
  case Nil
  then show ?case
    by (subst tokens.simps) (simp add: spell_def NextToken_eos mkToken_def)
next
  case (Cons ti tis)
  then show ?case
    using okToken_not_eos [of ti] by (subst tokens.simps) (simp add: NextToken_spell mkToken_def)
qed

text \<open>C33: Tokens written with a blank before each are read back from a file that holds them, and the
  reading ends with the token of the end of the stream.\<close>

theorem lexer_round_trip:
  assumes "\<forall>ti \<in> set tis. okToken ti"
  shows "tokens (NewLexState src (spell tis)) = Inr (map mkToken tis @ [mkToken (tkEos, None)])"
proof -
  have "NextToken (NewLexState src (spell tis)) = NextToken (lx_at src 1 [] (spell tis))"
    by (simp add: NewLexState_at NextToken_def llex_blank)
  then have "tokens (NewLexState src (spell tis)) = tokens (lx_at src 1 [] (spell tis))"
    by (simp add: tokens.simps)
  with tokens_shown [OF assms, of src "[]"] show ?thesis by simp
qed

theorem lexer_round_trip_witness:
  "tokens (NewLexState [] (ascii '' enum { -12''))
    = Inr (map mkToken [(tkEnum, None), (tkBraceLeft, None),
        (tkInteger, Some \<lparr>semI = - 12, semS = ascii ''-12''\<rparr>)] @ [mkToken (tkEos, None)])"
proof -
  have "okToken ti" if "ti \<in> set [(tkEnum, None), (tkBraceLeft, None),
        (tkInteger, Some \<lparr>semI = - 12, semS = ascii ''-12''\<rparr>)]" for ti
    using that
    by (auto simp: okToken_def punctuation_def keywordTokens_def FormatInt_def formatBits.simps
        digit_char_def ascii_def)
  with lexer_round_trip [of "[(tkEnum, None), (tkBraceLeft, None),
        (tkInteger, Some \<lparr>semI = - 12, semS = ascii ''-12''\<rparr>)]" "[]"] show ?thesis
    by (simp add: spell_def showToken_def ascii_def)
qed

end
