(* ===== verification/Tars_Parser.thy ===== *)
theory Tars_Parser
  imports Tars_Tokens
begin

text \<open>
  The grammar of \<^verbatim>\<open>tars2go\<close>: the parser of \<^verbatim>\<open>tars/tools/tars2go/parse.go\<close> for the contents of a
  module. The parser's state is threaded through its functions. \<open>None\<close> stands for a run that does
  not end, \<open>Inl\<close> for a panic with its position and reason. Loops are partial functions in the
  option monad, so that not returning is a value the theorems speak about. The field \<^verbatim>\<open>lastT\<close> is
  written but never read and is left out.
\<close>

section \<open>The syntax tree\<close>

text \<open>A nil pointer to a type is \<open>None\<close>; an unset \<^verbatim>\<open>CType\<close> is the zero token.\<close>

datatype VarType = VarType (vtType: TK) (vtUnsigned: bool) (vtTypeSt: gostring) (vtCType: TK)
  (vtTypeK: "VarType option") (vtTypeV: "VarType option") (vtTypeL: int)

record StructMember =
  smTag :: int32
  smRequire :: bool
  smType :: VarType
  smKey :: gostring
  smDefault :: gostring
  smDefType :: TK

record StructInfo =
  stName :: gostring
  stMb :: "StructMember list"
  stDependModule :: "gostring list"
  stDependModuleWithJce :: "(gostring \<times> gostring) list"

record ArgInfo =
  agName :: gostring
  agIsOut :: bool
  agType :: VarType

record FunInfo =
  fnName :: gostring
  fnHasRet :: bool
  fnRetType :: "VarType option"
  fnArgs :: "ArgInfo list"

record InterfaceInfo =
  itName :: gostring
  itFun :: "FunInfo list"
  itDependModule :: "gostring list"
  itDependModuleWithJce :: "(gostring \<times> gostring) list"

text \<open>The three kinds of an enum member: with a value, with the name of another, with neither.\<close>

datatype EnumMember = EnumValue (emKey: gostring) int32 | EnumName (emKey: gostring) gostring
  | EnumPlain (emKey: gostring)

record EnumInfo =
  enModule :: gostring
  enName :: gostring
  enMb :: "EnumMember list"

record ConstInfo =
  cnType :: VarType
  cnName :: gostring
  cnValue :: gostring

record HashKeyInfo =
  hkName :: gostring
  hkMember :: "gostring list"

record Parse =
  psSource :: gostring
  psModule :: gostring
  psInclude :: "gostring list"
  psStruct :: "StructInfo list"
  psInterface :: "InterfaceInfo list"
  psEnum :: "EnumInfo list"
  psConst :: "ConstInfo list"
  psHashKey :: "HashKeyInfo list"
  psLex :: LexState
  psT :: "Token option"
  psProtoName :: gostring

section \<open>Runs of the parser\<close>

type_synonym 'a parsed = "(parseErr + 'a \<times> Parse) option"

definition bindP :: "'a parsed \<Rightarrow> ('a \<Rightarrow> Parse \<Rightarrow> 'b parsed) \<Rightarrow> 'b parsed" where
  "bindP m f = Option.bind m (\<lambda>r. case r of Inl e \<Rightarrow> Some (Inl e) | Inr (x, p) \<Rightarrow> f x p)"

definition returnP :: "'a \<Rightarrow> Parse \<Rightarrow> 'a parsed" where
  "returnP x p = Some (Inr (x, p))"

definition failP :: "reason \<Rightarrow> Parse \<Rightarrow> 'a parsed" where
  "failP err p = Some (Inl (ParseErr (psSource p) (case psT p of None \<Rightarrow> 0 | Some tk \<Rightarrow> tokLine tk) err))"

lemma bindP_mono [partial_function_mono]:
  assumes "mono_option B" and "\<And>x p. mono_option (\<lambda>f. C x p f)"
  shows "mono_option (\<lambda>f. bindP (B f) (\<lambda>x p. C x p f))"
proof -
  have "mono_option (\<lambda>f. case r of Inl e \<Rightarrow> Some (Inl e) | Inr (x, p) \<Rightarrow> C x p f)" for r
    using assms(2) by (cases r) (auto intro: option.const_mono)
  with assms(1) show ?thesis
    unfolding bindP_def by (rule bind_mono)
qed

lemma bindP_simps [simp]:
  "bindP None f = None" "bindP (Some (Inl e)) f = Some (Inl e)" "bindP (Some (Inr (x, p))) f = f x p"
  "bindP (returnP x p) f = f x p" "bindP (failP err p) f = failP err p"
  by (simp_all add: bindP_def returnP_def failP_def)

text \<open>The current token, its text and its number. The token is set by the first \<^verbatim>\<open>next\<close>, and the tokens
  whose text is read carry one.\<close>

definition tT :: "Parse \<Rightarrow> TK" where
  "tT p = (case psT p of None \<Rightarrow> tkEos | Some tk \<Rightarrow> tokT tk)"

definition tS :: "Parse \<Rightarrow> gostring" where
  "tS p = (case psT p of Some tk \<Rightarrow> (case tokS tk of Some i \<Rightarrow> semS i | None \<Rightarrow> []) | None \<Rightarrow> [])"

definition tI :: "Parse \<Rightarrow> int" where
  "tI p = (case psT p of Some tk \<Rightarrow> (case tokS tk of Some i \<Rightarrow> semI i | None \<Rightarrow> 0) | None \<Rightarrow> 0)"

definition nextP :: "Parse \<Rightarrow> unit parsed" where
  "nextP p =
     (case NextToken (psLex p) of
        Inl e \<Rightarrow> Some (Inl e)
      | Inr (tk, ls) \<Rightarrow> returnP () (p\<lparr>psT := Some tk, psLex := ls\<rparr>))"

definition expectP :: "TK \<Rightarrow> Parse \<Rightarrow> unit parsed" where
  "expectP t p = bindP (nextP p) (\<lambda>_ p. if tT p \<noteq> t then failP (Expect t) p else returnP () p)"

section \<open>Types\<close>

definition plainType :: "TK \<Rightarrow> VarType" where
  "plainType t = VarType t False [] tkEos None None 0"

definition makeUnsigned :: "VarType \<Rightarrow> Parse \<Rightarrow> VarType parsed" where
  "makeUnsigned utype p =
     (case utype of VarType t u st c k v l \<Rightarrow>
        if t = tkTInt \<or> t = tkTShort \<or> t = tkTByte then returnP (VarType t True st c k v l) p
        else failP (NotUnsigned t) p)"

partial_function (option) parseType :: "Parse \<Rightarrow> VarType parsed" where
  "parseType p =
     (let t = tT p in
      if t = tkName then returnP (VarType t False (tS p) tkEos None None 0) p
      else if t = tkTInt \<or> t = tkTBool \<or> t = tkTShort \<or> t = tkTLong \<or> t = tkTByte \<or> t = tkTFloat
        \<or> t = tkTDouble \<or> t = tkTString then returnP (plainType t) p
      else if t = tkTVector then
        bindP (expectP tkShl p) (\<lambda>_ p.
        bindP (nextP p) (\<lambda>_ p.
        bindP (parseType p) (\<lambda>k p.
        bindP (expectP tkShr p) (\<lambda>_ p.
        returnP (VarType t False [] tkEos (Some k) None 0) p))))
      else if t = tkTMap then
        bindP (expectP tkShl p) (\<lambda>_ p.
        bindP (nextP p) (\<lambda>_ p.
        bindP (parseType p) (\<lambda>k p.
        bindP (expectP tkComma p) (\<lambda>_ p.
        bindP (nextP p) (\<lambda>_ p.
        bindP (parseType p) (\<lambda>v p.
        bindP (expectP tkShr p) (\<lambda>_ p.
        returnP (VarType t False [] tkEos (Some k) (Some v) 0) p)))))))
      else if t = tkUnsigned then
        bindP (nextP p) (\<lambda>_ p. bindP (parseType p) makeUnsigned)
      else failP ExpectType p)"

section \<open>Enums\<close>

text \<open>The loop of \<^verbatim>\<open>parseEnum\<close>. A token that no case of the switches names is passed over, also the
  end of the stream.\<close>

partial_function (option) enumLoop :: "EnumMember list \<Rightarrow> Parse \<Rightarrow> EnumMember list parsed" where
  "enumLoop mb p =
     bindP (nextP p) (\<lambda>_ p.
       if tT p = tkBraceRight then returnP mb p
       else if tT p = tkName then
         (let k = tS p in
          bindP (nextP p) (\<lambda>_ p.
            if tT p = tkComma then enumLoop (mb @ [EnumPlain k]) p
            else if tT p = tkBraceRight then returnP (mb @ [EnumPlain k]) p
            else if tT p = tkEq then
              bindP (nextP p) (\<lambda>_ p.
              bindP (if tT p = tkInteger then returnP (EnumValue k (word_of_int (tI p))) p
                     else if tT p = tkName then returnP (EnumName k (tS p)) p
                     else failP (NotExpect (tT p)) p) (\<lambda>m p.
              bindP (nextP p) (\<lambda>_ p.
                if tT p = tkBraceRight then returnP (mb @ [m]) p
                else if tT p = tkComma then enumLoop (mb @ [m]) p
                else failP ExpectCommaOrBrace p)))
            else enumLoop mb p))
       else enumLoop mb p)"

definition parseEnum :: "Parse \<Rightarrow> unit parsed" where
  "parseEnum p =
     bindP (expectP tkName p) (\<lambda>_ p.
       let name = tS p in
       if name \<in> enName ` set (psEnum p) then failP (Redefine name) p
       else
         bindP (expectP tkBraceLeft p) (\<lambda>_ p.
         bindP (enumLoop [] p) (\<lambda>mb p.
         bindP (expectP tkSemi p) (\<lambda>_ p.
         returnP () (p\<lparr>psEnum := psEnum p @ [\<lparr>enModule = [], enName = name, enMb = mb\<rparr>]\<rparr>)))))"

section \<open>Structs\<close>

definition quoted :: "gostring \<Rightarrow> gostring" where
  "quoted s = 34 # s @ [34]"

definition parseStructMemberDefault :: "StructMember \<Rightarrow> Parse \<Rightarrow> StructMember parsed" where
  "parseStructMemberDefault m p =
     (let m = m\<lparr>smDefType := tT p\<rparr>; ty = vtType (smType m) in
      if tT p = tkInteger then
        (if \<not> isNumberType ty \<and> ty \<noteq> tkName then failP NoNumber p
         else returnP (m\<lparr>smDefault := tS p\<rparr>) p)
      else if tT p = tkFloat then
        (if \<not> isNumberType ty then failP NoNumber p else returnP (m\<lparr>smDefault := tS p\<rparr>) p)
      else if tT p = tkString then
        (if isNumberType ty then failP NoString p else returnP (m\<lparr>smDefault := quoted (tS p)\<rparr>) p)
      else if tT p = tkTrue then
        (if ty \<noteq> tkTBool then failP BadDefault p else returnP (m\<lparr>smDefault := ascii ''true''\<rparr>) p)
      else if tT p = tkFalse then
        (if ty \<noteq> tkTBool then failP BadDefault p else returnP (m\<lparr>smDefault := ascii ''false''\<rparr>) p)
      else if tT p = tkName then returnP (m\<lparr>smDefault := tS p\<rparr>) p
      else failP BadDefault p)"

text \<open>What follows the key of a member. The test for a map, a vector or a name after the equals sign
  looks at the current token, which is the equals sign: it never holds.\<close>

definition structMemberRest :: "StructMember \<Rightarrow> Parse \<Rightarrow> StructMember option parsed" where
  "structMemberRest m p =
     bindP (nextP p) (\<lambda>_ p.
       if tT p = tkSemi then returnP (Some m) p
       else if tT p = tkSquareLeft then
         bindP (expectP tkInteger p) (\<lambda>_ p.
           let m = m\<lparr>smType := VarType tkTArray False [] tkEos (Some (smType m)) None (tI p)\<rparr> in
           bindP (expectP tkSquarerRight p) (\<lambda>_ p.
           bindP (expectP tkSemi p) (\<lambda>_ p.
           returnP (Some m) p)))
       else if tT p \<noteq> tkEq then failP ExpectSemiOrEq p
       else if tT p = tkTMap \<or> tT p = tkTVector \<or> tT p = tkName then failP NoDefault p
       else
         bindP (nextP p) (\<lambda>_ p.
         bindP (parseStructMemberDefault m p) (\<lambda>m p.
         bindP (expectP tkSemi p) (\<lambda>_ p.
         returnP (Some m) p))))"

definition parseStructMember :: "Parse \<Rightarrow> StructMember option parsed" where
  "parseStructMember p =
     bindP (nextP p) (\<lambda>_ p.
       if tT p = tkBraceRight then returnP None p
       else if tT p \<noteq> tkInteger then failP ExpectTag p
       else
         let tag = word_of_int (tI p) in
         bindP (nextP p) (\<lambda>_ p.
         bindP (if tT p = tkRequire then returnP True p
                else if tT p = tkOptional then returnP False p
                else failP ExpectRequire p) (\<lambda>require p.
         bindP (nextP p) (\<lambda>_ p.
         bindP (if \<not> isType (tT p) \<and> tT p \<noteq> tkName \<and> tT p \<noteq> tkUnsigned then failP ExpectType p
                else parseType p) (\<lambda>ty p.
         bindP (expectP tkName p) (\<lambda>_ p.
           structMemberRest \<lparr>smTag = tag, smRequire = require, smType = ty, smKey = tS p,
             smDefault = [], smDefType = tkEos\<rparr> p))))))"

partial_function (option) structLoop :: "StructMember list \<Rightarrow> Parse \<Rightarrow> StructMember list parsed" where
  "structLoop mb p =
     bindP (parseStructMember p) (\<lambda>m p.
       case m of None \<Rightarrow> returnP mb p | Some m \<Rightarrow> structLoop (mb @ [m]) p)"

fun checkTag :: "int32 list \<Rightarrow> StructMember list \<Rightarrow> int32 option" where
  "checkTag seen [] = None"
| "checkTag seen (v # mb) =
     (if smTag v \<in> set seen then Some (smTag v) else checkTag (smTag v # seen) mb)"

definition sortTag :: "StructMember list \<Rightarrow> StructMember list" where
  "sortTag mb = sort_key (\<lambda>m. sint (smTag m)) mb"

definition parseStruct :: "Parse \<Rightarrow> unit parsed" where
  "parseStruct p =
     bindP (expectP tkName p) (\<lambda>_ p.
       let name = tS p in
       if name \<in> stName ` set (psStruct p) then failP (Redefine name) p
       else
         bindP (expectP tkBraceLeft p) (\<lambda>_ p.
         bindP (structLoop [] p) (\<lambda>mb p.
         bindP (expectP tkSemi p) (\<lambda>_ p.
           case checkTag [] mb of
             Some tag \<Rightarrow> failP (DuplicateTag (sint tag)) p
           | None \<Rightarrow> returnP () (p\<lparr>psStruct := psStruct p @
               [\<lparr>stName = name, stMb = sortTag mb, stDependModule = [], stDependModuleWithJce = []\<rparr>]\<rparr>)))))"

section \<open>Interfaces\<close>

text \<open>The loop over the arguments.\<close>

partial_function (option) argsLoop :: "ArgInfo list \<Rightarrow> Parse \<Rightarrow> ArgInfo list parsed" where
  "argsLoop args p =
     bindP (if tT p = tkOut then bindP (nextP p) (\<lambda>_ p. returnP True p) else returnP False p) (\<lambda>isOut p.
     bindP (parseType p) (\<lambda>ty p.
     bindP (nextP p) (\<lambda>_ p.
     bindP (if tT p = tkName then (let name = tS p in bindP (nextP p) (\<lambda>_ p. returnP name p))
            else returnP [] p) (\<lambda>name p.
       let args = args @ [\<lparr>agName = name, agIsOut = isOut, agType = ty\<rparr>] in
       if tT p = tkComma then bindP (nextP p) (\<lambda>_ p. argsLoop args p)
       else if tT p = tkPtr then bindP (expectP tkSemi p) (\<lambda>_ p. returnP args p)
       else failP ExpectCommaOrPtr p))))"

text \<open>The function returns at a greater-than sign after the opening parenthesis, without a semicolon.\<close>

definition parseInterfaceFun :: "Parse \<Rightarrow> FunInfo option parsed" where
  "parseInterfaceFun p =
     bindP (nextP p) (\<lambda>_ p.
       if tT p = tkBraceRight then returnP None p
       else
         bindP (if tT p = tkVoid then returnP None p
                else if \<not> isType (tT p) \<and> tT p \<noteq> tkName \<and> tT p \<noteq> tkUnsigned then failP ExpectType p
                else bindP (parseType p) (\<lambda>ty p. returnP (Some ty) p)) (\<lambda>ret p.
         bindP (expectP tkName p) (\<lambda>_ p.
           let fn = \<lparr>fnName = tS p, fnHasRet = ret \<noteq> None, fnRetType = ret, fnArgs = []\<rparr> in
           bindP (expectP tkPtl p) (\<lambda>_ p.
           bindP (nextP p) (\<lambda>_ p.
             if tT p = tkShr then returnP (Some fn) p
             else if tT p = tkPtr then bindP (expectP tkSemi p) (\<lambda>_ p. returnP (Some fn) p)
             else bindP (argsLoop [] p) (\<lambda>args p. returnP (Some (fn\<lparr>fnArgs := args\<rparr>)) p))))))"

partial_function (option) interfaceLoop :: "FunInfo list \<Rightarrow> Parse \<Rightarrow> FunInfo list parsed" where
  "interfaceLoop fns p =
     bindP (parseInterfaceFun p) (\<lambda>fn p.
       case fn of None \<Rightarrow> returnP fns p | Some fn \<Rightarrow> interfaceLoop (fns @ [fn]) p)"

definition parseInterface :: "Parse \<Rightarrow> unit parsed" where
  "parseInterface p =
     bindP (expectP tkName p) (\<lambda>_ p.
       let name = tS p in
       if name \<in> itName ` set (psInterface p) then failP (Redefine name) p
       else
         bindP (expectP tkBraceLeft p) (\<lambda>_ p.
         bindP (interfaceLoop [] p) (\<lambda>fns p.
         bindP (expectP tkSemi p) (\<lambda>_ p.
         returnP () (p\<lparr>psInterface := psInterface p @
           [\<lparr>itName = name, itFun = fns, itDependModule = [], itDependModuleWithJce = []\<rparr>]\<rparr>)))))"

section \<open>Constants and hash keys\<close>

definition constValue :: "VarType \<Rightarrow> Parse \<Rightarrow> gostring parsed" where
  "constValue ty p =
     (if tT p = tkInteger \<or> tT p = tkFloat then
        (if \<not> isNumberType (vtType ty) then failP NoNumber p else returnP (tS p) p)
      else if tT p = tkString then
        (if isNumberType (vtType ty) then failP NoString p else returnP (quoted (tS p)) p)
      else if tT p = tkTrue then
        (if vtType ty \<noteq> tkTBool then failP BadDefault p else returnP (ascii ''true'') p)
      else if tT p = tkFalse then
        (if vtType ty \<noteq> tkTBool then failP BadDefault p else returnP (ascii ''false'') p)
      else failP BadDefault p)"

definition parseConst :: "Parse \<Rightarrow> unit parsed" where
  "parseConst p =
     bindP (nextP p) (\<lambda>_ p.
     bindP (if tT p = tkTVector \<or> tT p = tkTMap then failP ConstContainer p
            else if tT p \<in> {tkTBool, tkTByte, tkTShort, tkTInt, tkTLong, tkTFloat, tkTDouble,
              tkTString, tkUnsigned} then parseType p
            else failP ExpectType p) (\<lambda>ty p.
     bindP (expectP tkName p) (\<lambda>_ p.
       let name = tS p in
       bindP (expectP tkEq p) (\<lambda>_ p.
       bindP (nextP p) (\<lambda>_ p.
       bindP (constValue ty p) (\<lambda>v p.
       bindP (expectP tkSemi p) (\<lambda>_ p.
       returnP () (p\<lparr>psConst := psConst p @ [\<lparr>cnType = ty, cnName = name, cnValue = v\<rparr>]\<rparr>))))))))"

partial_function (option) hashKeyLoop :: "gostring \<Rightarrow> gostring list \<Rightarrow> Parse \<Rightarrow> unit parsed" where
  "hashKeyLoop name mb p =
     bindP (expectP tkName p) (\<lambda>_ p.
       let mb = mb @ [tS p] in
       bindP (nextP p) (\<lambda>_ p.
         if tT p = tkSquarerRight then
           bindP (expectP tkSemi p) (\<lambda>_ p.
           returnP () (p\<lparr>psHashKey := psHashKey p @ [\<lparr>hkName = name, hkMember = mb\<rparr>]\<rparr>))
         else if tT p = tkComma then hashKeyLoop name mb p
         else failP ExpectSquareOrComma p))"

definition parseHashKey :: "Parse \<Rightarrow> unit parsed" where
  "parseHashKey p =
     bindP (expectP tkSquareLeft p) (\<lambda>_ p.
     bindP (expectP tkName p) (\<lambda>_ p.
       let name = tS p in
       bindP (expectP tkComma p) (\<lambda>_ p. hashKeyLoop name [] p)))"

section \<open>Modules\<close>

partial_function (option) parseModuleSegment_loop :: "Parse \<Rightarrow> unit parsed" where
  "parseModuleSegment_loop p =
     bindP (nextP p) (\<lambda>_ p.
       if tT p = tkBraceRight then expectP tkSemi p
       else
         bindP (if tT p = tkConst then parseConst p
                else if tT p = tkEnum then parseEnum p
                else if tT p = tkStruct then parseStruct p
                else if tT p = tkInterface then parseInterface p
                else if tT p = tkKey then parseHashKey p
                else failP (NotExpect (tT p)) p) (\<lambda>_ p.
         parseModuleSegment_loop p))"

definition parseModuleSegment :: "Parse \<Rightarrow> unit parsed" where
  "parseModuleSegment p = bindP (expectP tkBraceLeft p) (\<lambda>_ p. parseModuleSegment_loop p)"

definition parseInclude :: "Parse \<Rightarrow> unit parsed" where
  "parseInclude p =
     bindP (expectP tkString p) (\<lambda>_ p. returnP () (p\<lparr>psInclude := psInclude p @ [tS p]\<rparr>))"

end
