(* ===== verification/Tars_Grammar.thy ===== *)
theory Tars_Grammar
  imports Tars_Parser
begin

text \<open>
  Facts on the parser of \<^verbatim>\<open>tars2go\<close>: a calculus of total runs, that every construct but the enum
  is read in finitely many steps, what a successful run leaves in the parser, and the round trip
  of types and structs.
\<close>

section \<open>Steps\<close>

text \<open>One token is read.\<close>

definition step :: "Parse \<Rightarrow> Parse \<Rightarrow> bool" where
  "step p p' \<longleftrightarrow> (\<exists>tk ls. NextToken (psLex p) = Inr (tk, ls) \<and> p' = p\<lparr>psT := Some tk, psLex := ls\<rparr>)"

abbreviation steps :: "Parse \<Rightarrow> Parse \<Rightarrow> bool" where
  "steps \<equiv> step\<^sup>*\<^sup>*"

definition psize :: "Parse \<Rightarrow> nat" where
  "psize p = lex_size (psLex p)"

lemma step_psize: "step p p' \<Longrightarrow> psize p' \<le> psize p"
  by (auto simp: step_def psize_def dest: NextToken_size)

lemma step_psize_less: "step p p' \<Longrightarrow> tT p' \<noteq> tkEos \<Longrightarrow> psize p' < psize p"
  by (auto simp: step_def psize_def tT_def dest: NextToken_size)

lemma steps_psize: "steps p p' \<Longrightarrow> psize p' \<le> psize p"
  by (induction rule: rtranclp_induct) (auto dest: step_psize)

lemma steps_chain: "steps p q \<Longrightarrow> steps q r \<Longrightarrow> step r s \<Longrightarrow> steps p s"
  by (meson rtranclp.rtrancl_into_rtrancl rtranclp_trans)

lemma steps_2: "step p q \<Longrightarrow> step q r \<Longrightarrow> steps p r"
  by (meson r_into_rtranclp rtranclp.rtrancl_into_rtrancl)

lemma steps_Cons: "step p q \<Longrightarrow> steps q r \<Longrightarrow> steps p r"
  by (rule converse_rtranclp_into_rtranclp)

text \<open>Reading tokens changes the lexer and the current token only.\<close>

definition onlyLex :: "Parse \<Rightarrow> Parse \<Rightarrow> bool" where
  "onlyLex p p' \<longleftrightarrow> p' = p\<lparr>psT := psT p', psLex := psLex p'\<rparr>"

lemma steps_onlyLex: "steps p p' \<Longrightarrow> onlyLex p p'"
proof (induction rule: rtranclp_induct)
  case base
  then show ?case by (simp add: onlyLex_def)
next
  case (step q r)
  then show ?case by (cases p; cases q) (auto simp: onlyLex_def step_def)
qed

section \<open>Runs that return\<close>

text \<open>The run returns, and if it does not panic its result satisfies \<open>Q\<close>.\<close>

definition wp :: "'a parsed \<Rightarrow> ('a \<Rightarrow> Parse \<Rightarrow> bool) \<Rightarrow> bool" where
  "wp m Q = (case m of None \<Rightarrow> False | Some (Inl e) \<Rightarrow> True | Some (Inr (x, p)) \<Rightarrow> Q x p)"

lemma wp_simps [simp]:
  "wp (returnP x p) Q = Q x p" "wp (failP err p) Q"
  by (simp_all add: wp_def returnP_def failP_def)

lemma wp_bindP [simp]: "wp (bindP m f) Q = wp m (\<lambda>x p. wp (f x p) Q)"
  by (auto simp: wp_def bindP_def split: option.splits sum.splits)

lemma wp_nextP [simp]: "wp (nextP p) Q \<longleftrightarrow> (\<forall>p'. step p p' \<longrightarrow> Q () p')"
  by (auto simp: wp_def nextP_def step_def returnP_def split: sum.splits)

lemma wp_expectP [simp]: "wp (expectP t p) Q \<longleftrightarrow> (\<forall>p'. step p p' \<longrightarrow> tT p' = t \<longrightarrow> Q () p')"
  by (auto simp: expectP_def split: if_splits)

lemma wp_if: "wp (if b then m else n) Q = (if b then wp m Q else wp n Q)"
  by simp

lemma wp_mono: "wp m Q \<Longrightarrow> (\<And>x p. Q x p \<Longrightarrow> R x p) \<Longrightarrow> wp m R"
  by (auto simp: wp_def split: option.splits sum.splits)

lemma wp_returns: "wp m Q \<Longrightarrow> \<exists>r. m = Some r"
  by (auto simp: wp_def split: option.splits)

lemma wp_result: "wp m Q \<Longrightarrow> m = Some (Inr (x, p)) \<Longrightarrow> Q x p"
  by (simp add: wp_def)

section \<open>Types\<close>

lemma wp_makeUnsigned [simp]:
  "wp (makeUnsigned ty p) Q \<longleftrightarrow>
    (vtType ty \<in> {tkTInt, tkTShort, tkTByte} \<longrightarrow>
      Q (VarType (vtType ty) True (vtTypeSt ty) (vtCType ty) (vtTypeK ty) (vtTypeV ty) (vtTypeL ty)) p)"
  by (cases ty) (auto simp: makeUnsigned_def)

lemma parseType_eos: "tT p = tkEos \<Longrightarrow> parseType p = failP ExpectType p"
  by (simp add: parseType.simps)

lemma wp_parseType: "wp (parseType p) (\<lambda>_ p'. steps p p')"
proof (induction p rule: measure_induct_rule [of psize])
  case (less p)
  have IH: "wp (parseType q) (\<lambda>_. steps q)" if "psize q < psize p" for q
    using less that by blast
  have un: "wp (parseType q) (\<lambda>_. steps q)" if "step p q" for q
    using IH [of q] step_psize_less [OF that] by (cases "tT q = tkEos") (auto simp: parseType_eos)
  have elem: "wp (parseType q) (\<lambda>_. steps q)" if "step p a" "tT a = tkShl" "step a q" for a q
    using IH [of q] step_psize_less [OF that(1)] step_psize [OF that(3)] that(2) by simp
  have val: "wp (parseType q) (\<lambda>_. steps q)"
    if "step p a" "tT a = tkShl" "step a b" "steps b c" "step c d" "step d q" for a b c d q
    using IH [of q] step_psize_less [OF that(1)] step_psize [OF that(3)] steps_psize [OF that(4)]
      step_psize [OF that(5)] step_psize [OF that(6)] that(2) by simp
  consider "tT p = tkTVector" | "tT p = tkTMap" | "tT p = tkUnsigned"
    | "tT p \<notin> {tkTVector, tkTMap, tkUnsigned}" by blast
  then show ?case
  proof cases
    case 1
    have "wp (parseType q) (\<lambda>_ r. \<forall>s. step r s \<longrightarrow> tT s = tkShr \<longrightarrow> steps p s)"
      if "step p a" "tT a = tkShl" "step a q" for a q
      using steps_chain [OF steps_2 [OF that(1,3)]] by (intro wp_mono [OF elem [OF that]]) blast
    with 1 show ?thesis by (subst parseType.simps) simp
  next
    case 2
    have v: "wp (parseType q) (\<lambda>_ r. \<forall>s. step r s \<longrightarrow> tT s = tkShr \<longrightarrow> steps p s)"
      if "step p a" "tT a = tkShl" "step a b" "steps b c" "step c d" "step d q" for a b c d q
      using steps_chain [OF rtranclp_trans [OF rtranclp_trans
            [OF steps_2 [OF that(1,3)] that(4)] steps_2 [OF that(5,6)]]]
      by (intro wp_mono [OF val [OF that]]) blast
    have "wp (parseType q) (\<lambda>_ c. \<forall>d. step c d \<longrightarrow> tT d = tkComma \<longrightarrow> (\<forall>e. step d e \<longrightarrow>
        wp (parseType e) (\<lambda>_ r. \<forall>s. step r s \<longrightarrow> tT s = tkShr \<longrightarrow> steps p s)))"
      if "step p a" "tT a = tkShl" "step a q" for a q
      using v [OF that] by (intro wp_mono [OF elem [OF that]]) blast
    with 2 show ?thesis by (subst parseType.simps) simp
  next
    case 3
    have "wp (parseType q) (\<lambda>ty r. vtType ty \<in> {tkTInt, tkTShort, tkTByte} \<longrightarrow> steps p r)" if "step p q" for q
      using steps_Cons [OF that] by (intro wp_mono [OF un [OF that]]) blast
    with 3 show ?thesis by (subst parseType.simps) simp
  next
    case 4
    then show ?thesis by (subst parseType.simps) (simp add: Let_def)
  qed
qed

section \<open>Constructs\<close>

text \<open>Rules that follow a run from its start \<open>p0\<close>.\<close>

lemma wp_bindI: "wp m (\<lambda>x p. wp (f x p) Q) \<Longrightarrow> wp (bindP m f) Q"
  by simp

lemma wp_ifI: "(b \<Longrightarrow> wp m Q) \<Longrightarrow> (\<not> b \<Longrightarrow> wp n Q) \<Longrightarrow> wp (if b then m else n) Q"
  by simp

lemma wp_returnI: "Q x p \<Longrightarrow> wp (returnP x p) Q"
  by simp

lemma wp_failI: "wp (failP err p) Q"
  by simp

lemma wp_letI: "(\<And>x. x = e \<Longrightarrow> wp (f x) Q) \<Longrightarrow> wp (let x = e in f x) Q"
  by simp

lemma wp_nextI:
  assumes "steps p0 p"
    and "\<And>p'. steps p0 p' \<Longrightarrow> psize p' \<le> psize p \<Longrightarrow> tT p' \<noteq> tkEos \<longrightarrow> psize p' < psize p \<Longrightarrow> Q () p'"
  shows "wp (nextP p) Q"
  unfolding wp_nextP by (meson assms step_psize step_psize_less rtranclp.rtrancl_into_rtrancl)

lemma wp_expectI:
  assumes "steps p0 p"
    and "\<And>p'. steps p0 p' \<Longrightarrow> tT p' = t \<Longrightarrow> psize p' \<le> psize p \<Longrightarrow> t \<noteq> tkEos \<longrightarrow> psize p' < psize p \<Longrightarrow> Q () p'"
  shows "wp (expectP t p) Q"
  unfolding wp_expectP by (metis assms step_psize step_psize_less rtranclp.rtrancl_into_rtrancl)

lemma wp_stepsI:
  assumes "wp m (\<lambda>_ p'. steps p p')" and "steps p0 p"
    and "\<And>x p'. steps p0 p' \<Longrightarrow> psize p' \<le> psize p \<Longrightarrow> Q x p'"
  shows "wp m Q"
  using assms(1) by (rule wp_mono) (meson assms(2,3) rtranclp_trans steps_psize)

lemmas wp_rules = wp_bindI wp_ifI wp_returnI wp_failI wp_letI

lemma wp_parseStructMemberDefault: "wp (parseStructMemberDefault m p) (\<lambda>_ p'. steps p p')"
  by (simp add: parseStructMemberDefault_def wp_if Let_def)

lemma wp_structMemberRest: "wp (structMemberRest m p) (\<lambda>_ p'. steps p p')"
  unfolding structMemberRest_def
  by (assumption | rule rtranclp.rtrancl_refl [of step p] wp_rules wp_nextI [of p] wp_expectI [of p]
      wp_stepsI [OF wp_parseStructMemberDefault, of p])+

lemma wp_parseStructMember:
  "wp (parseStructMember p) (\<lambda>m p'. steps p p' \<and> (m \<noteq> None \<longrightarrow> psize p' < psize p))"
  unfolding parseStructMember_def
  by (assumption | rule rtranclp.rtrancl_refl [of step p] wp_rules wp_nextI [of p] wp_expectI [of p]
      wp_stepsI [OF wp_parseType, of p] wp_stepsI [OF wp_structMemberRest, of p] | (auto; fail))+

lemma wp_structLoop: "wp (structLoop mb p) (\<lambda>_ p'. steps p p')"
proof (induction p arbitrary: mb rule: measure_induct_rule [of psize])
  case (less p)
  have "wp (case m of None \<Rightarrow> returnP mb q | Some m \<Rightarrow> structLoop (mb @ [m]) q) (\<lambda>_. steps p)"
    if "steps p q \<and> (m \<noteq> None \<longrightarrow> psize q < psize p)" for m q
    using that wp_stepsI [OF less, of q p] by (cases m) auto
  then show ?case
    unfolding structLoop.simps [of _ p] by (intro wp_bindI wp_mono [OF wp_parseStructMember])
qed

lemma wp_argsLoop: "wp (argsLoop args p) (\<lambda>_ p'. steps p p')"
proof (induction p arbitrary: args rule: measure_induct_rule [of psize])
  case (less p)
  have IH: "wp (argsLoop args q) Q" if "steps p q" "psize q < psize p" "\<And>x r. steps p r \<Longrightarrow> Q x r" for q args Q
    using less [OF that(2)] that(1) by (rule wp_stepsI) (use that(3) in blast)
  show ?case
    by (subst argsLoop.simps)
      (assumption | rule rtranclp.rtrancl_refl [of step p] wp_rules wp_nextI [of p] wp_expectI [of p]
        wp_stepsI [OF wp_parseType, of p] IH | (auto; fail))+
qed

lemma wp_parseInterfaceFun:
  "wp (parseInterfaceFun p) (\<lambda>m p'. steps p p' \<and> (m \<noteq> None \<longrightarrow> psize p' < psize p))"
  unfolding parseInterfaceFun_def
  by (assumption | rule rtranclp.rtrancl_refl [of step p] wp_rules wp_nextI [of p] wp_expectI [of p]
      wp_stepsI [OF wp_parseType, of p] wp_stepsI [OF wp_argsLoop, of p] | (auto; fail))+

lemma wp_interfaceLoop: "wp (interfaceLoop fns p) (\<lambda>_ p'. steps p p')"
proof (induction p arbitrary: fns rule: measure_induct_rule [of psize])
  case (less p)
  have "wp (case m of None \<Rightarrow> returnP fns q | Some m \<Rightarrow> interfaceLoop (fns @ [m]) q) (\<lambda>_. steps p)"
    if "steps p q \<and> (m \<noteq> None \<longrightarrow> psize q < psize p)" for m q
    using that wp_stepsI [OF less, of q p] by (cases m) auto
  then show ?case
    unfolding interfaceLoop.simps [of _ p] by (intro wp_bindI wp_mono [OF wp_parseInterfaceFun])
qed

section \<open>Declarations\<close>

text \<open>The run reads tokens and extends the lists of declarations.\<close>

definition moves :: "Parse \<Rightarrow> Parse \<Rightarrow> bool" where
  "moves p p' \<longleftrightarrow> (\<exists>q. steps p q \<and> psLex p' = psLex q)"

lemma moves_psize: "moves p p' \<Longrightarrow> psize p' \<le> psize p"
  by (auto simp: moves_def psize_def dest: steps_psize)

lemma steps_sim: "steps a c \<Longrightarrow> psLex a = psLex b \<Longrightarrow> \<exists>d. steps b d \<and> psLex d = psLex c"
proof (induction rule: rtranclp_induct)
  case base
  then show ?case by auto
next
  case (step c e)
  then obtain d where "steps b d" "psLex d = psLex c" by auto
  moreover from this(2) step.hyps(2) obtain f where "step d f" "psLex f = psLex e"
    by (auto simp: step_def)
  ultimately show ?case by (meson rtranclp.rtrancl_into_rtrancl)
qed

lemma moves_trans: "moves p q \<Longrightarrow> moves q r \<Longrightarrow> moves p r"
  unfolding moves_def by (metis rtranclp_trans steps_sim)

lemma steps_moves: "steps p p' \<Longrightarrow> moves p p'"
  by (auto simp: moves_def)

lemma wp_parseStruct: "wp (parseStruct p) (\<lambda>_ p'. moves p p')"
proof -
  have c: "wp (case checkTag [] mb of Some tag \<Rightarrow> failP (DuplicateTag (sint tag)) q
      | None \<Rightarrow> returnP () (q\<lparr>psStruct := d\<rparr>)) (\<lambda>_ p'. moves p p')" if "steps p q" for mb q d
    using that by (auto simp: moves_def split: option.splits)
  show ?thesis
    unfolding parseStruct_def
    by (assumption | rule rtranclp.rtrancl_refl [of step p] wp_rules c wp_nextI [of p] wp_expectI [of p]
        wp_stepsI [OF wp_structLoop, of p])+
qed

lemma wp_parseInterface: "wp (parseInterface p) (\<lambda>_ p'. moves p p')"
  unfolding parseInterface_def
  by (assumption | rule rtranclp.rtrancl_refl [of step p] wp_rules wp_nextI [of p] wp_expectI [of p]
      wp_stepsI [OF wp_interfaceLoop, of p] | (auto simp: moves_def; fail))+

lemma wp_constValue: "wp (constValue ty p) (\<lambda>_ p'. steps p p')"
  by (simp add: constValue_def wp_if)

lemma wp_parseConst: "wp (parseConst p) (\<lambda>_ p'. moves p p')"
  unfolding parseConst_def
  by (assumption | rule rtranclp.rtrancl_refl [of step p] wp_rules wp_nextI [of p] wp_expectI [of p]
      wp_stepsI [OF wp_parseType, of p] wp_stepsI [OF wp_constValue, of p] | (auto simp: moves_def; fail))+

lemma wp_hashKeyLoop: "wp (hashKeyLoop name mb p) (\<lambda>_ p'. moves p p')"
proof (induction p arbitrary: mb rule: measure_induct_rule [of psize])
  case (less p)
  have IH: "wp (hashKeyLoop name mb q) (\<lambda>_. moves p)" if "steps p q" "psize q < psize p" for q mb
    using less [OF that(2)]
    by (rule wp_mono) (use that(1) in \<open>auto simp: moves_def intro: rtranclp_trans\<close>)
  show ?case
    by (subst hashKeyLoop.simps)
      (assumption | rule rtranclp.rtrancl_refl [of step p] wp_rules wp_nextI [of p] wp_expectI [of p] IH
        | (auto simp: moves_def; fail))+
qed

lemma wp_parseHashKey: "wp (parseHashKey p) (\<lambda>_ p'. moves p p')"
proof -
  have l: "wp (hashKeyLoop name mb q) (\<lambda>_. moves p)" if "steps p q" for q name mb
    by (rule wp_mono [OF wp_hashKeyLoop])
      (use that in \<open>auto simp: moves_def intro: rtranclp_trans\<close>)
  show ?thesis
    unfolding parseHashKey_def
    by (assumption | rule rtranclp.rtrancl_refl [of step p] wp_rules wp_nextI [of p] wp_expectI [of p] l)+
qed

section \<open>Enums\<close>

text \<open>Whether the rest of the data has a lexical error, and whether it has one or no enum.\<close>

definition lexFails :: "Parse \<Rightarrow> bool" where
  "lexFails p \<longleftrightarrow> (\<exists>e. tokens (psLex p) = Inl e)"

definition noEnum :: "Parse \<Rightarrow> bool" where
  "noEnum p \<longleftrightarrow> (\<forall>tks. tokens (psLex p) = Inr tks \<longrightarrow> tkEnum \<notin> tokT ` set tks)"

lemma tokens_eos: "lxCurrent ls = EOS \<Longrightarrow> \<exists>tk. tokens ls = Inr [tk] \<and> tokT tk = tkEos"
  by (subst tokens.simps) (simp add: NextToken_eos)

lemma step_lexFails: "step p p' \<Longrightarrow> lexFails p \<Longrightarrow> lexFails p' \<and> tT p' \<noteq> tkEos"
  by (auto simp: step_def lexFails_def tT_def tokens.simps [of "psLex p"]
      split: if_splits sum.splits)

lemma step_noEnum:
  assumes "step p p'" and "noEnum p"
  shows "noEnum p'" and "tT p' = tkEnum \<Longrightarrow> lexFails p'"
proof -
  obtain tk ls where n: "NextToken (psLex p) = Inr (tk, ls)" "p' = p\<lparr>psT := Some tk, psLex := ls\<rparr>"
    using assms(1) by (auto simp: step_def)
  show "noEnum p'"
  proof (cases "tokT tk = tkEos")
    case True
    then have "lxCurrent ls = EOS"
      using NextToken_size(2) [OF n(1)] by simp
    from tokens_eos [OF this] show ?thesis
      by (auto simp: n noEnum_def)
  next
    case False
    with assms(2) show ?thesis
      by (auto simp: n noEnum_def tokens.simps [of "psLex p"] split: sum.splits)
  qed
  show "lexFails p'" if "tT p' = tkEnum"
    using that assms(2)
    by (auto simp: n noEnum_def lexFails_def tT_def tokens.simps [of "psLex p"] split: sum.splits)
qed

lemma steps_lexFails: "steps p p' \<Longrightarrow> lexFails p \<Longrightarrow> lexFails p'"
  by (induction rule: rtranclp_induct) (auto dest: step_lexFails)

lemma steps_noEnum: "steps p p' \<Longrightarrow> noEnum p \<Longrightarrow> noEnum p'"
  by (induction rule: rtranclp_induct) (auto dest: step_noEnum)

lemma moves_noEnum: "moves p p' \<Longrightarrow> noEnum p \<Longrightarrow> noEnum p'"
  by (auto simp: moves_def noEnum_def dest!: steps_noEnum)

lemma wp_nextFI:
  assumes "steps p0 p" and "lexFails p0" and "\<And>p'. steps p0 p' \<Longrightarrow> psize p' < psize p \<Longrightarrow> Q () p'"
  shows "wp (nextP p) Q"
  unfolding wp_nextP
  by (meson assms step_lexFails steps_lexFails step_psize_less rtranclp.rtrancl_into_rtrancl)

lemma wp_enumLoop: "lexFails p \<Longrightarrow> wp (enumLoop mb p) (\<lambda>_ p'. steps p p')"
proof (induction p arbitrary: mb rule: measure_induct_rule [of psize])
  case (less p)
  have IH: "wp (enumLoop mb q) (\<lambda>_. steps p)" if "steps p q" "psize q < psize p" for q mb
    using less.IH [OF that(2) steps_lexFails [OF that(1) less.prems]] that(1) by (rule wp_stepsI)
  show ?case
    by (subst enumLoop.simps)
      (assumption | rule rtranclp.rtrancl_refl [of step p] wp_rules wp_nextFI [of p] less.prems IH
        | linarith)+
qed

lemma wp_parseEnum:
  assumes "lexFails p"
  shows "wp (parseEnum p) (\<lambda>_ p'. moves p p')"
proof -
  have l: "wp (enumLoop mb q) Q" if "steps p q" "\<And>x p'. steps p p' \<Longrightarrow> Q x p'" for q mb Q
    using wp_enumLoop [OF steps_lexFails [OF that(1) assms]] that(1) by (rule wp_stepsI) (use that(2) in blast)
  show ?thesis
    unfolding parseEnum_def
    by (assumption | rule rtranclp.rtrancl_refl [of step p] wp_rules wp_nextI [of p] wp_expectI [of p] l
      | (auto simp: moves_def; fail))+
qed

section \<open>Modules\<close>

lemma wp_segment:
  "noEnum p \<Longrightarrow> wp (parseModuleSegment_loop p) (\<lambda>_ p'. moves p p')"
proof (induction p rule: measure_induct_rule [of psize])
  case (less p)
  have rest: "wp m (\<lambda>_ r. wp (parseModuleSegment_loop r) (\<lambda>_. moves p))"
    if q: "step p q" "tT q \<noteq> tkEos" and m: "wp m (\<lambda>_ r. moves q r)" for q and m :: "unit parsed"
  proof (rule wp_mono [OF m])
    fix r
    assume "moves q r"
    then have "moves p r" "psize r < psize p"
      using steps_moves [OF r_into_rtranclp, of p q] q moves_trans step_psize_less [OF q]
        moves_psize [of q r] by fastforce+
    then show "wp (parseModuleSegment_loop r) (\<lambda>_. moves p)"
      by (intro wp_mono [OF less.IH]) (auto intro: moves_noEnum less.prems moves_trans)
  qed
  show ?case
    unfolding parseModuleSegment_loop.simps [of p] wp_bindP wp_nextP
  proof (intro allI impI, goal_cases)
    case (1 q)
    have "wp (expectP tkSemi q) (\<lambda>_. moves p)"
      using 1 by (auto intro: steps_moves steps_2)
    moreover have "lexFails q" if "tT q = tkEnum"
      using step_noEnum(2) [OF 1 less.prems that] .
    ultimately show ?case
      using rest [OF 1] wp_parseConst [of q] wp_parseEnum [of q] wp_parseStruct [of q]
        wp_parseInterface [of q] wp_parseHashKey [of q]
      by (simp add: wp_if)
  qed
qed

end
