(* ===== verification/Tars_Printing.thy ===== *)
theory Tars_Printing
  imports Tars_Grammar "HOL-Library.Multiset"
begin

text \<open>
  What the parser of \<^verbatim>\<open>tars2go\<close> makes of the text of a construct: the spelling of types, struct
  members and structs, that the parser reads it back, and the behaviour of the parser on enums
  that the end of the file cuts off.
\<close>

section \<open>Runs that succeed\<close>

definition okRun :: "'a parsed \<Rightarrow> ('a \<Rightarrow> Parse \<Rightarrow> bool) \<Rightarrow> bool" where
  "okRun m Q = (case m of Some (Inr (x, p)) \<Rightarrow> Q x p | _ \<Rightarrow> False)"

lemma okRun_simps [simp]:
  "okRun (returnP x p) Q = Q x p" "\<not> okRun (failP err p) Q" "okRun (bindP m f) Q = okRun m (\<lambda>x p. okRun (f x p) Q)"
  by (auto simp: okRun_def returnP_def failP_def bindP_def split: option.splits sum.splits)

lemma okRun_mono: "okRun m Q \<Longrightarrow> (\<And>x p. Q x p \<Longrightarrow> R x p) \<Longrightarrow> okRun m R"
  by (auto simp: okRun_def split: option.splits sum.splits)

lemma okRun_result: "okRun m Q \<Longrightarrow> \<exists>x p. m = Some (Inr (x, p)) \<and> Q x p"
  by (auto simp: okRun_def split: option.splits sum.splits)

text \<open>The parser is before the tokens \<open>tis\<close>.\<close>

definition reading :: "Parse \<Rightarrow> (TK \<times> SemInfo option) list \<Rightarrow> bool" where
  "reading p tis \<longleftrightarrow> (\<exists>src tb. psLex p = lx_at src 1 tb (spell tis)) \<and> (\<forall>ti \<in> set tis. okToken ti)"

lemma onlyLex_refl [simp]: "onlyLex p p"
  by (simp add: onlyLex_def)

lemma onlyLex_struct: "onlyLex p p' \<Longrightarrow> psStruct p' = psStruct p"
  unfolding onlyLex_def by (drule arg_cong [of _ _ psStruct]) simp

lemma onlyLex_enum: "onlyLex p p' \<Longrightarrow> psEnum p' = psEnum p"
  unfolding onlyLex_def by (drule arg_cong [of _ _ psEnum]) simp

lemma onlyLex_trans: "onlyLex p q \<Longrightarrow> onlyLex q r \<Longrightarrow> onlyLex p r"
  by (cases p; cases q) (auto simp: onlyLex_def)

lemma nextP_reading:
  assumes "reading p (ti # tis)"
  obtains p' where "nextP p = returnP () p'" "reading p' tis" "psT p' = Some (mkToken ti)" "onlyLex p p'"
proof -
  obtain src tb where l: "psLex p = lx_at src 1 tb (spell (ti # tis))" "okToken ti" "\<forall>ti \<in> set tis. okToken ti"
    using assms by (auto simp: reading_def)
  let ?p = "p\<lparr>psT := Some (mkToken ti), psLex := lx_at src 1 (tokText ti) (spell tis)\<rparr>"
  have "nextP p = returnP () ?p"
    by (simp add: nextP_def l NextToken_spell mkToken_def)
  with l that [of ?p] show thesis
    by (auto simp: reading_def onlyLex_def)
qed

lemma nextP_from:
  assumes "reading p (ti # tis)" and "onlyLex p0 p"
  obtains p' where "nextP p = returnP () p'" "reading p' tis" "psT p' = Some (mkToken ti)" "onlyLex p0 p'"
  using nextP_reading [OF assms(1)] onlyLex_trans [OF assms(2)] by metis

lemma okRun_nextP:
  assumes "onlyLex p0 p" and "reading p (ti # tis)"
    and "\<And>p'. reading p' tis \<Longrightarrow> psT p' = Some (mkToken ti) \<Longrightarrow> onlyLex p0 p' \<Longrightarrow> Q () p'"
  shows "okRun (nextP p) Q"
  using nextP_reading [OF assms(2)] assms(1,3) onlyLex_trans by (metis okRun_simps(1))

lemma token_T [simp]: "psT p = Some (mkToken (t, i)) \<Longrightarrow> tT p = t"
  by (simp add: mkToken_def tT_def)

lemma token_S [simp]:
  "psT p = Some (mkToken (t, Some i)) \<Longrightarrow> tS p = semS i"
  "psT p = Some (mkToken (t, Some i)) \<Longrightarrow> tI p = semI i"
  by (simp_all add: mkToken_def tS_def tI_def)

lemma okRun_expectP:
  assumes "onlyLex p0 p" and "reading p ((t, i) # tis)"
    and "\<And>p'. reading p' tis \<Longrightarrow> psT p' = Some (mkToken (t, i)) \<Longrightarrow> onlyLex p0 p' \<Longrightarrow> Q () p'"
  shows "okRun (expectP t p) Q"
  unfolding expectP_def okRun_simps
  by (rule okRun_nextP [OF assms(1,2)]) (simp add: assms(3))

section \<open>Types\<close>

text \<open>The spelling of a type.\<close>

inductive spellType :: "VarType \<Rightarrow> (TK \<times> SemInfo option) list \<Rightarrow> bool" where
  spellName: "spellType (VarType tkName False w tkEos None None 0) [(tkName, Some \<lparr>semI = 0, semS = w\<rparr>)]"
| spellBasic: "t \<in> {tkTInt, tkTBool, tkTShort, tkTLong, tkTByte, tkTFloat, tkTDouble, tkTString}
    \<Longrightarrow> spellType (plainType t) [(t, None)]"
| spellVector: "spellType k ks \<Longrightarrow> spellType (VarType tkTVector False [] tkEos (Some k) None 0)
    ((tkTVector, None) # (tkShl, None) # ks @ [(tkShr, None)])"
| spellMap: "spellType k ks \<Longrightarrow> spellType v vs
    \<Longrightarrow> spellType (VarType tkTMap False [] tkEos (Some k) (Some v) 0)
      ((tkTMap, None) # (tkShl, None) # ks @ (tkComma, None) # vs @ [(tkShr, None)])"
| spellUnsigned: "t \<in> {tkTInt, tkTShort, tkTByte}
    \<Longrightarrow> spellType (VarType t True [] tkEos None None 0) [(tkUnsigned, None), (t, None)]"

text \<open>The first token of a type.\<close>

lemma spellType_hd:
  "spellType ty tis \<Longrightarrow> tis \<noteq> [] \<and> (isType (fst (hd tis)) \<or> fst (hd tis) = tkName \<or> fst (hd tis) = tkUnsigned)"
  by (induction rule: spellType.induct) (auto simp: isType_def typeTokens_def)

text \<open>What a run that reads the type does, from the token before it.\<close>

definition readsType :: "VarType \<Rightarrow> (TK \<times> SemInfo option) list \<Rightarrow> bool" where
  "readsType ty tis \<longleftrightarrow> (\<forall>p rest. psT p = Some (mkToken (hd tis)) \<longrightarrow> reading p (tl tis @ rest)
     \<longrightarrow> okRun (parseType p) (\<lambda>ty' p'. ty' = ty \<and> reading p' rest \<and> onlyLex p p'))"

lemma okRun_nextType:
  assumes "spellType ty tis" and "readsType ty tis" and "onlyLex p0 p" and "reading p (tis @ rest)"
    and "\<And>p'. reading p' rest \<Longrightarrow> onlyLex p0 p' \<Longrightarrow> Q ty p'"
  shows "okRun (nextP p) (\<lambda>_ p. okRun (parseType p) Q)"
proof -
  obtain ti tis' where t: "tis = ti # tis'"
    using spellType_hd [OF assms(1)] by (cases tis) auto
  show ?thesis
  proof (rule okRun_nextP [OF assms(3)])
    show "reading p (ti # tis' @ rest)"
      using assms(4) t by simp
    fix q
    assume q: "reading q (tis' @ rest)" "psT q = Some (mkToken ti)" "onlyLex p0 q"
    then have "okRun (parseType q) (\<lambda>ty' p'. ty' = ty \<and> reading p' rest \<and> onlyLex q p')"
      using assms(2) t by (simp add: readsType_def)
    then show "okRun (parseType q) Q"
      by (rule okRun_mono) (use q(3) assms(5) onlyLex_trans in blast)
  qed
qed

lemma parseType_spelt: "spellType ty tis \<Longrightarrow> readsType ty tis"
proof (induction rule: spellType.induct)
  case (spellName w)
  then show ?case
    by (auto simp: readsType_def parseType.simps)
next
  case (spellBasic t)
  then show ?case
    by (auto simp: readsType_def parseType.simps)
next
  case (spellUnsigned t)
  show ?case
    unfolding readsType_def
  proof (intro allI impI)
    fix p rest
    assume p: "psT p = Some (mkToken (hd [(tkUnsigned, None), (t, None)]))"
      "reading p (tl [(tkUnsigned, None), (t, None)] @ rest)"
    have "okRun (parseType q) (\<lambda>ty r. okRun (makeUnsigned ty r)
        (\<lambda>ty' p'. ty' = VarType t True [] tkEos None None 0 \<and> reading p' rest \<and> onlyLex p p'))"
      if "reading q rest" "psT q = Some (mkToken (t, None))" "onlyLex p q" for q
      using that spellUnsigned by (auto simp: parseType.simps [of q] makeUnsigned_def plainType_def)
    then show "okRun (parseType p) (\<lambda>ty' p'. ty' = VarType t True [] tkEos None None 0
        \<and> reading p' rest \<and> onlyLex p p')"
      using p okRun_nextP [of p p "(t, None)" rest] by (simp add: parseType.simps [of p])
  qed
next
  case (spellVector k ks)
  show ?case
    unfolding readsType_def
  proof (intro allI impI)
    fix p rest
    let ?tis = "(tkTVector, None) # (tkShl, None) # ks @ [(tkShr, None)]"
    assume p: "psT p = Some (mkToken (hd ?tis))" "reading p (tl ?tis @ rest)"
    then have "onlyLex p p" "reading p ((tkShl, None) # ks @ (tkShr, None) # rest)"
      by simp_all
    then have "okRun (expectP tkShl p) (\<lambda>_ q. okRun (nextP q) (\<lambda>_ q. okRun (parseType q) (\<lambda>k' q.
        okRun (expectP tkShr q) (\<lambda>_ r. k' = k \<and> reading r rest \<and> onlyLex p r))))"
      by - (((rule okRun_expectP [of p], assumption, assumption)
          | (rule okRun_nextType [OF spellVector.hyps spellVector.IH, of p], assumption, assumption))+, simp)
    then show "okRun (parseType p) (\<lambda>ty' p'. ty' = VarType tkTVector False [] tkEos (Some k) None 0
        \<and> reading p' rest \<and> onlyLex p p')"
      using p by (simp add: parseType.simps [of p])
  qed
next
  case (spellMap k ks v vs)
  show ?case
    unfolding readsType_def
  proof (intro allI impI)
    fix p rest
    let ?tis = "(tkTMap, None) # (tkShl, None) # ks @ (tkComma, None) # vs @ [(tkShr, None)]"
    assume p: "psT p = Some (mkToken (hd ?tis))" "reading p (tl ?tis @ rest)"
    then have "onlyLex p p" "reading p ((tkShl, None) # ks @ (tkComma, None) # vs @ (tkShr, None) # rest)"
      by simp_all
    then have "okRun (expectP tkShl p) (\<lambda>_ q. okRun (nextP q) (\<lambda>_ q. okRun (parseType q) (\<lambda>k' q.
        okRun (expectP tkComma q) (\<lambda>_ q. okRun (nextP q) (\<lambda>_ q. okRun (parseType q) (\<lambda>v' q.
        okRun (expectP tkShr q) (\<lambda>_ r. k' = k \<and> v' = v \<and> reading r rest \<and> onlyLex p r)))))))"
      by - (((rule okRun_expectP [of p], assumption, assumption)
          | (rule okRun_nextType [OF spellMap.hyps(1) spellMap.IH(1), of p], assumption, assumption)
          | (rule okRun_nextType [OF spellMap.hyps(2) spellMap.IH(2), of p], assumption, assumption))+, simp)
    then show "okRun (parseType p) (\<lambda>ty' p'. ty' = VarType tkTMap False [] tkEos (Some k) (Some v) 0
        \<and> reading p' rest \<and> onlyLex p p')"
      using p by (simp add: parseType.simps [of p])
  qed
qed

section \<open>Structs\<close>

abbreviation intTok :: "int \<Rightarrow> TK \<times> SemInfo option" where
  "intTok i \<equiv> (tkInteger, Some \<lparr>semI = i, semS = FormatInt i 10\<rparr>)"

abbreviation nameTok :: "gostring \<Rightarrow> TK \<times> SemInfo option" where
  "nameTok w \<equiv> (tkName, Some \<lparr>semI = 0, semS = w\<rparr>)"

text \<open>A default value for a member of type \<open>ty\<close>: its token and the text the parser keeps.\<close>

inductive spellDefault :: "VarType \<Rightarrow> TK \<times> SemInfo option \<Rightarrow> gostring \<Rightarrow> bool" for ty where
  defNumber: "isNumberType (vtType ty) \<or> vtType ty = tkName \<Longrightarrow> spellDefault ty (intTok i) (FormatInt i 10)"
| defString: "\<not> isNumberType (vtType ty) \<Longrightarrow> spellDefault ty (tkString, Some \<lparr>semI = 0, semS = w\<rparr>) (quoted w)"
| defTrue: "vtType ty = tkTBool \<Longrightarrow> spellDefault ty (tkTrue, None) (ascii ''true'')"
| defFalse: "vtType ty = tkTBool \<Longrightarrow> spellDefault ty (tkFalse, None) (ascii ''false'')"
| defName: "spellDefault ty (nameTok w) w"

definition requireTok :: "bool \<Rightarrow> TK \<times> SemInfo option" where
  "requireTok r = (if r then tkRequire else tkOptional, None)"

inductive spellMember :: "StructMember \<Rightarrow> (TK \<times> SemInfo option) list \<Rightarrow> bool" where
  memPlain: "spellType ty tys \<Longrightarrow> spellMember
    \<lparr>smTag = tag, smRequire = req, smType = ty, smKey = key, smDefault = [], smDefType = tkEos\<rparr>
    (intTok (sint tag) # requireTok req # tys @ [nameTok key, (tkSemi, None)])"
| memArray: "spellType ty tys \<Longrightarrow> spellMember
    \<lparr>smTag = tag, smRequire = req, smType = VarType tkTArray False [] tkEos (Some ty) None n, smKey = key,
      smDefault = [], smDefType = tkEos\<rparr>
    (intTok (sint tag) # requireTok req # tys
      @ [nameTok key, (tkSquareLeft, None), intTok n, (tkSquarerRight, None), (tkSemi, None)])"
| memDefault: "spellType ty tys \<Longrightarrow> spellDefault ty ti d \<Longrightarrow> spellMember
    \<lparr>smTag = tag, smRequire = req, smType = ty, smKey = key, smDefault = d, smDefType = fst ti\<rparr>
    (intTok (sint tag) # requireTok req # tys @ [nameTok key, (tkEq, None), ti, (tkSemi, None)])"

lemma parseDefault_spelt:
  assumes "spellDefault (smType m) ti d" and "psT p = Some (mkToken ti)"
  shows "parseStructMemberDefault m p = returnP (m\<lparr>smDefType := fst ti, smDefault := d\<rparr>) p"
  using assms by (cases rule: spellDefault.cases) (auto simp: parseStructMemberDefault_def Let_def)

lemma okRun_nextTypeChecked:
  assumes "spellType ty tis" and "onlyLex p0 p" and "reading p (tis @ rest)"
    and "\<And>p'. reading p' rest \<Longrightarrow> onlyLex p0 p' \<Longrightarrow> Q ty p'"
  shows "okRun (nextP p) (\<lambda>_ p. okRun (if \<not> isType (tT p) \<and> tT p \<noteq> tkName \<and> tT p \<noteq> tkUnsigned
    then failP ExpectType p else parseType p) Q)"
proof -
  obtain t i tis' where t: "tis = (t, i) # tis'" "isType t \<or> t = tkName \<or> t = tkUnsigned"
    using spellType_hd [OF assms(1)] by (cases tis) auto
  obtain q where q: "nextP p = returnP () q" "psT q = Some (mkToken (t, i))"
    using nextP_reading [of p "(t, i)" "tis' @ rest"] assms(3) t by auto
  have "okRun (parseType q) Q"
    using okRun_nextType [OF assms(1) parseType_spelt [OF assms(1)] assms(2,3), of Q] assms(4)
    by (simp add: q(1))
  with q t(2) show ?thesis
    by simp
qed

lemma parseStructMember_upto_key:
  assumes "spellType ty tys"
    and "reading p (intTok (sint tag) # requireTok req # tys @ nameTok key # tis)"
    and "\<And>p'. reading p' tis \<Longrightarrow> onlyLex p p' \<Longrightarrow> okRun (structMemberRest \<lparr>smTag = tag,
        smRequire = req, smType = ty, smKey = key, smDefault = [], smDefType = tkEos\<rparr> p') Q"
  shows "okRun (parseStructMember p) Q"
proof -
  obtain q1 where q1: "nextP p = returnP () q1" "reading q1 (requireTok req # tys @ nameTok key # tis)"
    "psT q1 = Some (mkToken (intTok (sint tag)))" "onlyLex p q1"
    using assms(2) by (rule nextP_reading)
  obtain q2 where q2: "nextP q1 = returnP () q2" "reading q2 (tys @ nameTok key # tis)"
    "psT q2 = Some (mkToken (requireTok req))" "onlyLex q1 q2"
    using q1(2) by (rule nextP_reading)
  let ?rest = "\<lambda>ty p. structMemberRest \<lparr>smTag = tag, smRequire = req, smType = ty, smKey = tS p,
      smDefault = [], smDefType = tkEos\<rparr> p"
  have "onlyLex p q2"
    using q1(4) q2(4) by (rule onlyLex_trans)
  then have "okRun (nextP q2) (\<lambda>_ p. okRun (if \<not> isType (tT p) \<and> tT p \<noteq> tkName \<and> tT p \<noteq> tkUnsigned
      then failP ExpectType p else parseType p) (\<lambda>ty p. okRun (expectP tkName p) (\<lambda>_ p. okRun (?rest ty p) Q)))"
  proof (rule okRun_nextTypeChecked [OF assms(1) _ q2(2)])
    fix r
    assume "reading r (nameTok key # tis)" "onlyLex p r"
    then show "okRun (expectP tkName r) (\<lambda>_ p. okRun (?rest ty p) Q)"
      by - (rule okRun_expectP [of p], assumption, assumption, simp add: assms(3))
  qed
  then show ?thesis
    using q1(3) q2(3) by (cases req) (simp_all add: parseStructMember_def q1(1) q2(1) requireTok_def)
qed

lemma parseStructMember_spelt:
  assumes "spellMember m tis" and "reading p (tis @ rest)"
  shows "okRun (parseStructMember p) (\<lambda>m' p'. m' = Some m \<and> reading p' rest \<and> onlyLex p p')"
  using assms(1)
proof cases
  case (memPlain ty tys tag req key)
  show ?thesis
  proof (rule parseStructMember_upto_key [OF memPlain(3)])
    show "reading p (intTok (sint tag) # requireTok req # tys @ nameTok key # (tkSemi, None) # rest)"
      using assms(2) memPlain(2) by simp
    fix q
    assume "reading q ((tkSemi, None) # rest)" and "onlyLex p q"
    then show "okRun (structMemberRest \<lparr>smTag = tag, smRequire = req, smType = ty, smKey = key,
        smDefault = [], smDefType = tkEos\<rparr> q) (\<lambda>m' p'. m' = Some m \<and> reading p' rest \<and> onlyLex p p')"
      unfolding structMemberRest_def okRun_simps
      by - (rule okRun_nextP [of p], assumption, assumption, simp add: memPlain(1))
  qed
next
  case (memArray ty tys tag req n key)
  show ?thesis
  proof (rule parseStructMember_upto_key [OF memArray(3)])
    let ?tis = "(tkSquareLeft, None) # intTok n # (tkSquarerRight, None) # (tkSemi, None) # rest"
    show "reading p (intTok (sint tag) # requireTok req # tys @ nameTok key # ?tis)"
      using assms(2) memArray(2) by simp
    fix q
    assume q: "reading q ?tis" "onlyLex p q"
    obtain a where a: "nextP q = returnP () a"
      "reading a (intTok n # (tkSquarerRight, None) # (tkSemi, None) # rest)"
      "psT a = Some (mkToken (tkSquareLeft, None))" "onlyLex p a"
      using q by (rule nextP_from)
    obtain b where b: "nextP a = returnP () b" "reading b ((tkSquarerRight, None) # (tkSemi, None) # rest)"
      "psT b = Some (mkToken (intTok n))" "onlyLex p b"
      using a(2,4) by (rule nextP_from)
    obtain c where c: "nextP b = returnP () c" "reading c ((tkSemi, None) # rest)"
      "psT c = Some (mkToken (tkSquarerRight, None))" "onlyLex p c"
      using b(2,4) by (rule nextP_from)
    obtain d where "nextP c = returnP () d" "reading d rest" "psT d = Some (mkToken (tkSemi, None))"
      "onlyLex p d"
      using c(2,4) by (rule nextP_from)
    with a b c show "okRun (structMemberRest \<lparr>smTag = tag, smRequire = req, smType = ty, smKey = key,
        smDefault = [], smDefType = tkEos\<rparr> q) (\<lambda>m' p'. m' = Some m \<and> reading p' rest \<and> onlyLex p p')"
      by (simp add: structMemberRest_def expectP_def memArray(1))
  qed
next
  case (memDefault ty tys ti d tag req key)
  show ?thesis
  proof (rule parseStructMember_upto_key [OF memDefault(3)])
    let ?tis = "(tkEq, None) # ti # (tkSemi, None) # rest"
    show "reading p (intTok (sint tag) # requireTok req # tys @ nameTok key # ?tis)"
      using assms(2) memDefault(2) by simp
    fix q
    assume q: "reading q ?tis" "onlyLex p q"
    obtain a where a: "nextP q = returnP () a" "reading a (ti # (tkSemi, None) # rest)"
      "psT a = Some (mkToken (tkEq, None))" "onlyLex p a"
      using q by (rule nextP_from)
    obtain b where b: "nextP a = returnP () b" "reading b ((tkSemi, None) # rest)"
      "psT b = Some (mkToken ti)" "onlyLex p b"
      using a(2,4) by (rule nextP_from)
    obtain c where c: "nextP b = returnP () c" "reading c rest" "psT c = Some (mkToken (tkSemi, None))"
      "onlyLex p c"
      using b(2,4) by (rule nextP_from)
    let ?m = "\<lparr>smTag = tag, smRequire = req, smType = ty, smKey = key, smDefault = [], smDefType = tkEos\<rparr>"
    have "parseStructMemberDefault ?m b = returnP (?m\<lparr>smDefType := fst ti, smDefault := d\<rparr>) b"
      using memDefault(4) b(3) by (intro parseDefault_spelt) simp_all
    with a b c show "okRun (structMemberRest ?m q) (\<lambda>m' p'. m' = Some m \<and> reading p' rest \<and> onlyLex p p')"
      by (simp add: structMemberRest_def expectP_def memDefault(1))
  qed
qed

lemma structLoop_spelt:
  assumes "list_all2 spellMember ms tss" and "reading p (concat tss @ (tkBraceRight, None) # rest)"
  shows "okRun (structLoop mb p) (\<lambda>mb' p'. mb' = mb @ ms \<and> reading p' rest \<and> onlyLex p p')"
  using assms
proof (induction ms tss arbitrary: mb p rule: list_all2_induct)
  case Nil
  then have "reading p ((tkBraceRight, None) # rest)" by simp
  then obtain q where q: "nextP p = returnP () q" "reading q rest" "psT q = Some (mkToken (tkBraceRight, None))"
    "onlyLex p q"
    by (rule nextP_reading)
  then have "parseStructMember p = returnP None q"
    by (simp add: parseStructMember_def)
  with q show ?case
    by (subst structLoop.simps) simp
next
  case (Cons m ms ts tss)
  have "reading p (ts @ concat tss @ (tkBraceRight, None) # rest)"
    using Cons.prems by simp
  note member = parseStructMember_spelt [OF Cons.hyps(1) this]
  show ?case
    unfolding structLoop.simps [of mb p] okRun_simps
  proof (rule okRun_mono [OF member], elim conjE)
    fix m' q
    assume q: "m' = Some m" "reading q (concat tss @ (tkBraceRight, None) # rest)" "onlyLex p q"
    show "okRun (case m' of None \<Rightarrow> returnP mb q | Some m \<Rightarrow> structLoop (mb @ [m]) q)
        (\<lambda>mb' p'. mb' = mb @ m # ms \<and> reading p' rest \<and> onlyLex p p')"
      using okRun_mono [OF Cons.IH [OF q(2), of "mb @ [m]"]] q(1) onlyLex_trans [OF q(3)] by auto
  qed
qed

lemma checkTag_iff:
  "checkTag seen mb = None \<longleftrightarrow> distinct (map smTag mb) \<and> set seen \<inter> smTag ` set mb = {}"
  by (induction mb arbitrary: seen) auto

lemma sortTag_sorted:
  assumes "distinct (map smTag mb)"
  shows "sorted_wrt (<) (map (\<lambda>m. sint (smTag m)) (sortTag mb))"
proof -
  have "inj_on sint (smTag ` set mb)"
    by (rule inj_on_inverseI [of _ word_of_int]) simp
  then have "distinct (map (\<lambda>m. sint (smTag m)) mb)"
    using assms by (simp add: distinct_map comp_inj_on [of smTag "set mb" sint, unfolded comp_def])
  moreover have "mset (map (\<lambda>m. sint (smTag m)) (sortTag mb)) = mset (map (\<lambda>m. sint (smTag m)) mb)"
    by (simp add: sortTag_def)
  ultimately have "distinct (map (\<lambda>m. sint (smTag m)) (sortTag mb))"
    by (metis mset_eq_imp_distinct_iff)
  then show ?thesis
    by (simp add: sortTag_def strict_sorted_iff sorted_sort_key)
qed

text \<open>C31: The text of a struct with fresh name and distinct tags is read back: the parser appends the
  struct with exactly its members, in the order of their tags, and goes on behind it.\<close>

theorem struct_round_trip:
  assumes "list_all2 spellMember ms tss"
    and "reading p (nameTok name # (tkBraceLeft, None) # concat tss @ (tkBraceRight, None) # (tkSemi, None) # rest)"
    and "name \<notin> stName ` set (psStruct p)" and "distinct (map smTag ms)"
  shows "\<exists>p' mb. parseStruct p = Some (Inr ((), p'))
    \<and> psStruct p' = psStruct p @ [\<lparr>stName = name, stMb = mb, stDependModule = [], stDependModuleWithJce = []\<rparr>]
    \<and> mset mb = mset ms \<and> sorted_wrt (<) (map (\<lambda>m. sint (smTag m)) mb) \<and> reading p' rest"
proof -
  let ?tis = "concat tss @ (tkBraceRight, None) # (tkSemi, None) # rest"
  obtain a where a: "nextP p = returnP () a" "reading a ((tkBraceLeft, None) # ?tis)"
    "psT a = Some (mkToken (nameTok name))" "onlyLex p a"
    using assms(2) by (rule nextP_reading)
  obtain b where b: "nextP a = returnP () b" "reading b ?tis" "psT b = Some (mkToken (tkBraceLeft, None))"
    "onlyLex p b"
    using a(2,4) by (rule nextP_from)
  have "okRun (structLoop [] b) (\<lambda>mb c. mb = ms \<and> reading c ((tkSemi, None) # rest) \<and> onlyLex b c)"
    using structLoop_spelt [OF assms(1), of b "(tkSemi, None) # rest" "[]"] b(2) by simp
  then obtain c where c: "structLoop [] b = returnP ms c" "reading c ((tkSemi, None) # rest)" "onlyLex p c"
    using okRun_result onlyLex_trans [OF b(4)] by (fastforce simp: returnP_def)
  obtain d where d: "nextP c = returnP () d" "reading d rest" "psT d = Some (mkToken (tkSemi, None))"
    "onlyLex p d"
    using c(2,3) by (rule nextP_from)
  have "psStruct a = psStruct p" "psStruct d = psStruct p"
    using a(4) d(4) by (simp_all add: onlyLex_struct)
  moreover have "checkTag [] ms = None"
    using assms(4) by (simp add: checkTag_iff)
  ultimately have "parseStruct p = returnP () (d\<lparr>psStruct := psStruct p @ [\<lparr>stName = name, stMb = sortTag ms,
      stDependModule = [], stDependModuleWithJce = []\<rparr>]\<rparr>)"
    using a b c d assms(3,4)
    by (simp add: parseStruct_def expectP_def)
  moreover have "mset (sortTag ms) = mset ms"
    by (simp add: sortTag_def)
  ultimately show ?thesis
    using d(2) sortTag_sorted [OF assms(4)] by (auto simp: returnP_def reading_def)
qed

definition demo_members :: "StructMember list" where
  "demo_members =
     [\<lparr>smTag = 2, smRequire = True, smType = plainType tkTInt, smKey = ascii ''b'', smDefault = [],
        smDefType = tkEos\<rparr>,
      \<lparr>smTag = 1, smRequire = False, smType = VarType tkTVector False [] tkEos (Some (plainType tkTString)) None 0,
        smKey = ascii ''a'', smDefault = [], smDefType = tkEos\<rparr>]"

definition demo_spelt :: "(TK \<times> SemInfo option) list list" where
  "demo_spelt =
     [[intTok 2, (tkRequire, None), (tkTInt, None), nameTok (ascii ''b''), (tkSemi, None)],
      [intTok 1, (tkOptional, None), (tkTVector, None), (tkShl, None), (tkTString, None), (tkShr, None),
       nameTok (ascii ''a''), (tkSemi, None)]]"

definition demo_parse :: "bytes \<Rightarrow> Parse" where
  "demo_parse b = \<lparr>psSource = [], psModule = [], psInclude = [], psStruct = [], psInterface = [], psEnum = [],
     psConst = [], psHashKey = [], psLex = lx_at [] 1 [] b, psT = None, psProtoName = []\<rparr>"

lemma demo_spellMember: "list_all2 spellMember demo_members demo_spelt"
  using memPlain [OF spellBasic [of tkTInt], of 2 True "ascii ''b''"]
    memPlain [OF spellVector [OF spellBasic [of tkTString]], of 1 False "ascii ''a''"]
  by (simp add: demo_members_def demo_spelt_def requireTok_def)

lemma okToken_name: "isWord w \<Longrightarrow> wordToken w = nameTok w \<Longrightarrow> okToken (nameTok w)"
  by (simp add: okToken_def)

lemma okToken_int: "- (2 ^ 63) \<le> i \<Longrightarrow> i < 2 ^ 63 \<Longrightarrow> okToken (intTok i)"
  by (simp add: okToken_def)

lemma demo_words: "okToken (nameTok [c])" if "isLetter c"
proof (rule okToken_name)
  show "isWord [c]" using that by (simp add: isWord_def wordChar_def)
  have "length (TokenMap t) \<noteq> 1" if "t \<in> set keywordTokens \<or> t \<in> set typeTokens" for t
    using that by (auto simp: keywordTokens_def typeTokens_def ascii_def)
  then have "find (\<lambda>t. TokenMap t = [c]) keywordTokens = None" "find (\<lambda>t. TokenMap t = [c]) typeTokens = None"
    unfolding find_None_iff by (metis length_Cons list.size(3) One_nat_def)+
  then show "wordToken [c] = nameTok [c]"
    by (simp add: wordToken_def)
qed

lemma demo_ok:
  "\<forall>ti \<in> set (nameTok (ascii ''S'') # (tkBraceLeft, None) # concat demo_spelt
    @ [(tkBraceRight, None), (tkSemi, None)]). okToken ti"
proof -
  have "okToken (nameTok (ascii ''S''))" "okToken (nameTok (ascii ''a''))" "okToken (nameTok (ascii ''b''))"
    using demo_words by (simp_all add: ascii_def isLetter_def)
  moreover have "okToken (t, None)"
    if "t \<in> {tkBraceLeft, tkBraceRight, tkSemi, tkRequire, tkOptional, tkTInt, tkTVector, tkShl, tkTString, tkShr}" for t
    using that by (auto simp: okToken_def punctuation_def keywordTokens_def typeTokens_def)
  ultimately show ?thesis
    using okToken_int [of 1] okToken_int [of 2] by (simp add: demo_spelt_def)
qed

theorem struct_round_trip_witness:
  "\<exists>p' mb. parseStruct (demo_parse (spell (nameTok (ascii ''S'') # (tkBraceLeft, None) # concat demo_spelt
      @ [(tkBraceRight, None), (tkSemi, None)]))) = Some (Inr ((), p'))
    \<and> psStruct p' = [\<lparr>stName = ascii ''S'', stMb = mb, stDependModule = [], stDependModuleWithJce = []\<rparr>]
    \<and> mset mb = mset demo_members \<and> sorted_wrt (<) (map (\<lambda>m. sint (smTag m)) mb) \<and> reading p' []"
proof -
  let ?tis = "nameTok (ascii ''S'') # (tkBraceLeft, None) # concat demo_spelt @ [(tkBraceRight, None), (tkSemi, None)]"
  have "reading (demo_parse (spell ?tis)) ?tis"
    unfolding reading_def using demo_ok by (auto simp: demo_parse_def)
  moreover have "distinct (map smTag demo_members)" "psStruct (demo_parse (spell ?tis)) = []"
    by (simp_all add: demo_members_def demo_parse_def)
  ultimately show ?thesis
    using struct_round_trip [OF demo_spellMember, of "demo_parse (spell ?tis)" "ascii ''S''" "[]"] by simp
qed

section \<open>Runs that do not return\<close>

lemma enumLoop_returns:
  assumes "enumLoop mb p = Some r"
  shows "lxCurrent (psLex p) \<noteq> EOS"
  using _ assms
proof (rule enumLoop.raw_induct [where P = "\<lambda>mb p r. lxCurrent (psLex p) \<noteq> EOS"], goal_cases)
  case (1 loop mb p r)
  show ?case
  proof
    assume e: "lxCurrent (psLex p) = EOS"
    define q where "q = p\<lparr>psT := Some \<lparr>tokT = tkEos, tokS = None, tokLine = lxLineNumber (psLex p)\<rparr>,
      psLex := (psLex p)\<lparr>lxTokenBuff := []\<rparr>\<rparr>"
    have "nextP p = returnP () q" "tT q = tkEos" "lxCurrent (psLex q) = EOS"
      using e by (simp_all add: q_def nextP_def NextToken_eos tT_def)
    with 1 show False by auto
  qed
qed

lemma enumLoop_open:
  assumes "reading p (concat (map (\<lambda>k. [nameTok k, (tkComma, None)]) ks))"
  shows "enumLoop mb p = None"
  using assms
proof (induction ks arbitrary: p mb)
  case Nil
  then have "lxCurrent (psLex p) = EOS"
    by (auto simp: reading_def spell_def)
  then show ?case
    using enumLoop_returns by (cases "enumLoop mb p") blast+
next
  case (Cons k ks)
  let ?tis = "concat (map (\<lambda>k. [nameTok k, (tkComma, None)]) ks)"
  have "reading p (nameTok k # (tkComma, None) # ?tis)"
    using Cons.prems by simp
  then obtain a where a: "nextP p = returnP () a" "reading a ((tkComma, None) # ?tis)"
    "psT a = Some (mkToken (nameTok k))" "onlyLex p a"
    by (rule nextP_reading)
  obtain b where "nextP a = returnP () b" "reading b ?tis" "psT b = Some (mkToken (tkComma, None))" "onlyLex p b"
    using a(2,4) by (rule nextP_from)
  with a Cons.IH [of b] show ?case
    by (subst enumLoop.simps) simp
qed

text \<open>When a file ends within an enum, the parser never returns: whatever comma-separated members
  were read, it passes over the end of the stream for ever, without an error.\<close>

theorem open_enum_hangs:
  assumes "reading p ((tkBraceLeft, None) # (tkEnum, None) # nameTok name # (tkBraceLeft, None)
      # concat (map (\<lambda>k. [nameTok k, (tkComma, None)]) ks))"
    and "name \<notin> enName ` set (psEnum p)"
  shows "parseModuleSegment p = None"
proof -
  let ?ks = "concat (map (\<lambda>k. [nameTok k, (tkComma, None)]) ks)"
  obtain a where a: "nextP p = returnP () a"
    "reading a ((tkEnum, None) # nameTok name # (tkBraceLeft, None) # ?ks)"
    "psT a = Some (mkToken (tkBraceLeft, None))" "onlyLex p a"
    using assms(1) by (rule nextP_reading)
  obtain b where b: "nextP a = returnP () b" "reading b (nameTok name # (tkBraceLeft, None) # ?ks)"
    "psT b = Some (mkToken (tkEnum, None))" "onlyLex p b"
    using a(2,4) by (rule nextP_from)
  obtain c where c: "nextP b = returnP () c" "reading c ((tkBraceLeft, None) # ?ks)"
    "psT c = Some (mkToken (nameTok name))" "onlyLex p c"
    using b(2,4) by (rule nextP_from)
  obtain d where d: "nextP c = returnP () d" "reading d ?ks" "psT d = Some (mkToken (tkBraceLeft, None))"
    "onlyLex p d"
    using c(2,4) by (rule nextP_from)
  have "name \<notin> enName ` set (psEnum c)"
    using assms(2) c(4) by (simp add: onlyLex_enum)
  then have "parseEnum b = None"
    using c d enumLoop_open [OF d(2)] by (simp add: parseEnum_def expectP_def)
  then have "parseModuleSegment_loop a = None"
    using b by (subst parseModuleSegment_loop.simps) simp
  with a show ?thesis
    by (simp add: parseModuleSegment_def expectP_def)
qed

theorem open_enum_hangs_witness:
  "parseModuleSegment (demo_parse (spell [(tkBraceLeft, None), (tkEnum, None), nameTok (ascii ''E''),
    (tkBraceLeft, None), nameTok (ascii ''a''), (tkComma, None)])) = None"
proof -
  let ?tis = "[(tkBraceLeft, None), (tkEnum, None), nameTok (ascii ''E''), (tkBraceLeft, None),
    nameTok (ascii ''a''), (tkComma, None)]"
  have "okToken (nameTok (ascii ''E''))" "okToken (nameTok (ascii ''a''))"
    using demo_words by (simp_all add: ascii_def isLetter_def)
  then have "reading (demo_parse (spell ?tis)) ?tis"
    by (auto simp: reading_def demo_parse_def okToken_def punctuation_def keywordTokens_def)
  moreover have "psEnum (demo_parse (spell ?tis)) = []"
    by (simp add: demo_parse_def)
  ultimately show ?thesis
    using open_enum_hangs [of "demo_parse (spell ?tis)" "ascii ''E''" "[ascii ''a'']"] by simp
qed

text \<open>C32: Reading a module returns, with a result or an error, unless its text is free of lexical
  errors and has an enum.\<close>

theorem parser_returns:
  assumes "\<And>tks. tokens (psLex p) = Inr tks \<Longrightarrow> tkEnum \<notin> tokT ` set tks"
  shows "\<exists>r. parseModuleSegment p = Some r"
proof (rule wp_returns)
  have "noEnum p"
    using assms by (simp add: noEnum_def)
  then show "wp (parseModuleSegment p) (\<lambda>_ _. True)"
    unfolding parseModuleSegment_def
    by (auto intro!: wp_mono [OF wp_segment] dest: step_noEnum(1))
qed

theorem parser_returns_witness:
  "\<exists>r. parseModuleSegment (demo_parse (spell [(tkBraceLeft, None), (tkTMap, None), (tkShl, None)])) = Some r"
proof (rule parser_returns)
  fix tks
  assume "tokens (psLex (demo_parse (spell [(tkBraceLeft, None), (tkTMap, None), (tkShl, None)]))) = Inr tks"
  moreover have "\<forall>ti \<in> set [(tkBraceLeft, None), (tkTMap, None), (tkShl, None)]. okToken ti"
    by (simp add: okToken_def punctuation_def typeTokens_def)
  ultimately show "tkEnum \<notin> tokT ` set tks"
    using tokens_shown [of "[(tkBraceLeft, None), (tkTMap, None), (tkShl, None)]" "[]" "[]"]
    by (simp add: demo_parse_def mkToken_def)
qed

end
