(* ===== verification/Tars_Analysis.thy ===== *)
theory Tars_Analysis
  imports Tars_Printing
begin

text \<open>
  The second half of \<^verbatim>\<open>tars/tools/tars2go/parse.go\<close>: resolving the names of types and default
  values, and reading a file with the files it includes. A parsed file with its included files is
  a tree, \<open>ParseUnit\<close>. The command line's flags and search path and the file system are
  arguments. The branch of \<^verbatim>\<open>parseModule\<close> for a further module in the same file is not modelled:
  it shares slices between parsers; the model ends there with the reason \<open>SecondModule\<close>.
\<close>

section \<open>Strings and paths\<close>

text \<open>\<^verbatim>\<open>strings.Index\<close>, \<^verbatim>\<open>strings.Contains\<close>, \<^verbatim>\<open>strings.Replace\<close> with count 1 and \<^verbatim>\<open>strings.LastIndex\<close>, for a
  substring that is not empty.\<close>

fun indexOf :: "gostring \<Rightarrow> gostring \<Rightarrow> nat option" where
  "indexOf sub s =
     (if take (length sub) s = sub then Some 0
      else (case s of [] \<Rightarrow> None | _ # s' \<Rightarrow> map_option Suc (indexOf sub s')))"

declare indexOf.simps [simp del]

definition strings_Contains :: "gostring \<Rightarrow> gostring \<Rightarrow> bool" where
  "strings_Contains s sub \<longleftrightarrow> indexOf sub s \<noteq> None"

definition strings_Replace1 :: "gostring \<Rightarrow> gostring \<Rightarrow> gostring \<Rightarrow> gostring" where
  "strings_Replace1 s old new =
     (case indexOf old s of
        None \<Rightarrow> s
      | Some i \<Rightarrow> take i s @ new @ drop (i + length old) s)"

fun lastIndexOf :: "gostring \<Rightarrow> gostring \<Rightarrow> nat option" where
  "lastIndexOf sub s =
     (case s of
        [] \<Rightarrow> if sub = [] then Some 0 else None
      | _ # s' \<Rightarrow> (case lastIndexOf sub s' of
            Some i \<Rightarrow> Some (Suc i)
          | None \<Rightarrow> if take (length sub) s = sub then Some 0 else None))"

declare lastIndexOf.simps [simp del]

abbreviation qual :: "gostring \<Rightarrow> gostring \<Rightarrow> gostring" where
  "qual m n \<equiv> m @ ascii ''::'' @ n"

text \<open>\<^verbatim>\<open>strings.Split(s, "::")[1]\<close> when there is a separator.\<close>

definition secondPart :: "gostring \<Rightarrow> gostring" where
  "secondPart s =
     (let r = after_colons s in case indexOf (ascii ''::'') r of None \<Rightarrow> r | Some i \<Rightarrow> take i r)"

text \<open>\<^verbatim>\<open>path.Clean\<close>: the segments between slashes, without the empty ones and single dots, each double
  dot removing the segment before it.\<close>

definition cleanSegment :: "bool \<Rightarrow> gostring list \<Rightarrow> gostring \<Rightarrow> gostring list" where
  "cleanSegment rooted st seg =
     (if seg = [] \<or> seg = ascii ''.'' then st
      else if seg = ascii ''..'' then
        (if st \<noteq> [] \<and> last st \<noteq> ascii ''..'' then butlast st
         else if rooted then st else st @ [seg])
      else st @ [seg])"

fun joinSlash :: "gostring list \<Rightarrow> gostring" where
  "joinSlash [] = []"
| "joinSlash [s] = s"
| "joinSlash (s # ss) = s @ ch CHR ''/'' # joinSlash ss"

definition path_Clean :: "gostring \<Rightarrow> gostring" where
  "path_Clean p =
     (let rooted = p \<noteq> [] \<and> hd p = ch CHR ''/'';
          out = joinSlash (foldl (cleanSegment rooted) [] (strings_Split p (ch CHR ''/'')));
          out = (if rooted then ch CHR ''/'' # out else out)
      in if out = [] then ascii ''.'' else out)"

definition path_Dir :: "gostring \<Rightarrow> gostring" where
  "path_Dir p =
     (case lastIndexOf [ch CHR ''/''] p of
        None \<Rightarrow> path_Clean []
      | Some i \<Rightarrow> path_Clean (take (Suc i) p))"

definition trimRightSlash :: "gostring \<Rightarrow> gostring" where
  "trimRightSlash p = List.rev (dropWhile (\<lambda>c. c = ch CHR ''/'') (List.rev p))"

definition path_Base :: "gostring \<Rightarrow> gostring" where
  "path_Base p =
     (if p = [] then ascii ''.''
      else let q = trimRightSlash p;
               q = (case lastIndexOf [ch CHR ''/''] q of None \<Rightarrow> q | Some i \<Rightarrow> drop (Suc i) q)
           in if q = [] then ascii ''/'' else q)"

text \<open>\<open>None\<close>: the bounds of the slice expression are in the wrong order, which panics.\<close>

definition path2ProtoName :: "gostring \<Rightarrow> gostring option" where
  "path2ProtoName path =
     (let iBegin = (case lastIndexOf [ch CHR ''/''] path of
            None \<Rightarrow> 0
          | Some i \<Rightarrow> if int i \<ge> int (length path) - 1 then 0 else Suc i);
          iEnd = (case lastIndexOf (ascii ''.tars'') path of None \<Rightarrow> length path | Some i \<Rightarrow> i)
      in if iBegin > iEnd then None else Some (take (iEnd - iBegin) (drop iBegin path)))"

text \<open>Identifiers are ASCII, so only the letters from a to z have an upper case.\<close>

definition upperFirstLetter :: "gostring \<Rightarrow> gostring" where
  "upperFirstLetter s =
     (case s of
        [] \<Rightarrow> []
      | c # s' \<Rightarrow> (if ch CHR ''a'' \<le> c \<and> c \<le> ch CHR ''z'' then c - 32 else c) # s')"

section \<open>Names\<close>

record Flags =
  gModuleCycle :: bool
  gModuleUpper :: bool

datatype ParseUnit = ParseUnit (puParse: Parse) (puIncParse: "ParseUnit list")

fun findTNameType :: "gostring \<Rightarrow> ParseUnit \<Rightarrow> TK \<times> gostring \<times> gostring"
  and findTNameType_inc :: "gostring \<Rightarrow> ParseUnit list \<Rightarrow> (TK \<times> gostring \<times> gostring) option" where
  "findTNameType tname (ParseUnit p incs) =
     (if \<exists>v \<in> set (psStruct p). qual (psModule p) (stName v) = tname
      then (tkStruct, psModule p, psProtoName p)
      else if \<exists>v \<in> set (psEnum p). qual (psModule p) (enName v) = tname
      then (tkEnum, psModule p, psProtoName p)
      else (case findTNameType_inc tname incs of
          Some r \<Rightarrow> r
        | None \<Rightarrow> (tkName, psModule p, psProtoName p)))"
| "findTNameType_inc tname [] = None"
| "findTNameType_inc tname (u # us) =
     (let r = findTNameType tname u in
      if fst r \<noteq> tkName then Some r else findTNameType_inc tname us)"

definition unitErr :: "Parse \<Rightarrow> reason \<Rightarrow> parseErr" where
  "unitErr p err = ParseErr (psSource p) (case psT p of None \<Rightarrow> 0 | Some tk \<Rightarrow> tokLine tk) err"

text \<open>The members of a file's enums with a given key, each with its enum.\<close>

definition enumMatches :: "gostring \<Rightarrow> Parse \<Rightarrow> (EnumMember \<times> EnumInfo) list" where
  "enumMatches ename p =
     concat (map (\<lambda>en. map (\<lambda>mb. (mb, en)) (filter (\<lambda>mb. emKey mb = ename) (enMb en))) (psEnum p))"

text \<open>\<^verbatim>\<open>findEnumName\<close> records in the enum it finds the module of the file that declares it; here the
  enum is returned with the module filled in.\<close>

definition enumModule :: "Flags \<Rightarrow> Parse \<Rightarrow> EnumInfo \<Rightarrow> EnumInfo" where
  "enumModule fl p en =
     (if enModule en = [] then
        en\<lparr>enModule := (if gModuleCycle fl then psProtoName p @ ascii ''_'' @ psModule p else psModule p)\<rparr>
      else en)"

fun findEnumName :: "Flags \<Rightarrow> gostring \<Rightarrow> ParseUnit \<Rightarrow> parseErr + (EnumMember \<times> EnumInfo) option"
  and findEnumName_inc :: "Flags \<Rightarrow> gostring \<Rightarrow> ParseUnit list \<Rightarrow> parseErr + (EnumMember \<times> EnumInfo) option" where
  "findEnumName fl ename0 (ParseUnit p incs) =
     (let ename = (if strings_Contains ename0 (ascii ''::'') then secondPart ename0 else ename0) in
      case enumMatches ename p of
        [] \<Rightarrow> (case findEnumName_inc fl ename incs of
            Inl e \<Rightarrow> Inl e
          | Inr None \<Rightarrow> Inr None
          | Inr (Some (mb, en)) \<Rightarrow> Inr (Some (mb, enumModule fl p en)))
      | [(mb, en)] \<Rightarrow> Inr (Some (mb, enumModule fl p en))
      | _ \<Rightarrow> Inl (unitErr p (NameConflict ename)))"
| "findEnumName_inc fl ename [] = Inr None"
| "findEnumName_inc fl ename (u # us) =
     (case findEnumName fl ename u of
        Inl e \<Rightarrow> Inl e
      | Inr None \<Rightarrow> findEnumName_inc fl ename us
      | Inr (Some r) \<Rightarrow> Inr (Some r))"

section \<open>Types\<close>

text \<open>The maps of modules a declaration depends on: a set and a map with insertion.\<close>

type_synonym depends = "gostring list \<times> (gostring \<times> gostring) list"

definition addToSet :: "gostring \<Rightarrow> depends \<Rightarrow> depends" where
  "addToSet module d = (List.insert module (fst d), snd d)"

definition addToMap :: "gostring \<Rightarrow> gostring \<Rightarrow> depends \<Rightarrow> depends" where
  "addToMap module v d = (fst d, AList.update module v (snd d))"

text \<open>The new name of a type that was found in module \<open>mod\<close>, and the module it depends on.\<close>

definition depName :: "Flags \<Rightarrow> Parse \<Rightarrow> gostring \<Rightarrow> gostring \<Rightarrow> gostring \<Rightarrow> depends \<Rightarrow> gostring \<times> depends" where
  "depName fl p typeSt modu protoName d =
     (if gModuleCycle fl then
        (if modu \<noteq> psModule p \<or> protoName \<noteq> psProtoName p then
           (let modStr = (if gModuleUpper fl then upperFirstLetter modu else modu);
                pm = protoName @ ascii ''_'' @ modStr
            in (if strings_Contains typeSt (modu @ ascii ''::'')
                then strings_Replace1 typeSt (modu @ ascii ''::'') (pm @ ascii ''::'')
                else pm @ ascii ''::'' @ typeSt,
                addToMap pm protoName d))
         else (strings_Replace1 typeSt (modu @ ascii ''::'') [], d))
      else if modu \<noteq> psModule p then (typeSt, addToSet modu d)
      else (strings_Replace1 typeSt (modu @ ascii ''::'') [], d))"

definition fullName :: "Parse \<Rightarrow> gostring \<Rightarrow> gostring" where
  "fullName p name = (if count_colons name = 0 then qual (psModule p) name else name)"

fun checkDepTName :: "Flags \<Rightarrow> ParseUnit \<Rightarrow> VarType \<Rightarrow> depends \<Rightarrow> parseErr + VarType \<times> depends" where
  "checkDepTName fl u (VarType t uns st c k v l) d =
     (if t = tkName then
        (let (cty, modu, protoName) = findTNameType (fullName (puParse u) st) u in
         if cty = tkName then Inl (unitErr (puParse u) (NotDefined st))
         else let (st', d) = depName fl (puParse u) st modu protoName d
              in Inr (VarType t uns st' cty k v l, d))
      else if t = tkTVector then
        (case k of
           None \<Rightarrow> Inl (unitErr (puParse u) NilType)
         | Some k \<Rightarrow> (case checkDepTName fl u k d of
               Inl e \<Rightarrow> Inl e
             | Inr (k, d) \<Rightarrow> Inr (VarType t uns st c (Some k) v l, d)))
      else if t = tkTMap then
        (case (k, v) of
           (Some k, Some v) \<Rightarrow>
             (case checkDepTName fl u k d of
                Inl e \<Rightarrow> Inl e
              | Inr (k, d) \<Rightarrow> (case checkDepTName fl u v d of
                    Inl e \<Rightarrow> Inl e
                  | Inr (v, d) \<Rightarrow> Inr (VarType t uns st c (Some k) (Some v) l, d)))
         | _ \<Rightarrow> Inl (unitErr (puParse u) NilType))
      else Inr (VarType t uns st c k v l, d))"

declare checkDepTName.simps [simp del]

section \<open>Analysis of a file\<close>

text \<open>A loop over a list that threads a state and stops at the first panic.\<close>

fun loopE :: "('a \<Rightarrow> 's \<Rightarrow> 'e + 'b \<times> 's) \<Rightarrow> 'a list \<Rightarrow> 's \<Rightarrow> 'e + 'b list \<times> 's" where
  "loopE f [] s = Inr ([], s)"
| "loopE f (x # xs) s =
     (case f x s of
        Inl e \<Rightarrow> Inl e
      | Inr (y, s) \<Rightarrow> (case loopE f xs s of Inl e \<Rightarrow> Inl e | Inr (ys, s) \<Rightarrow> Inr (y # ys, s)))"

definition depMember :: "Flags \<Rightarrow> ParseUnit \<Rightarrow> StructMember \<Rightarrow> depends \<Rightarrow> parseErr + StructMember \<times> depends" where
  "depMember fl u m d =
     (case checkDepTName fl u (smType m) d of
        Inl e \<Rightarrow> Inl e
      | Inr (ty, d) \<Rightarrow> Inr (m\<lparr>smType := ty\<rparr>, d))"

definition depStruct :: "Flags \<Rightarrow> ParseUnit \<Rightarrow> StructInfo \<Rightarrow> unit \<Rightarrow> parseErr + StructInfo \<times> unit" where
  "depStruct fl u st s =
     (case loopE (depMember fl u) (stMb st) (stDependModule st, stDependModuleWithJce st) of
        Inl e \<Rightarrow> Inl e
      | Inr (mb, dm, dmj) \<Rightarrow>
          Inr (st\<lparr>stMb := mb, stDependModule := dm, stDependModuleWithJce := dmj\<rparr>, ()))"

definition depArg :: "Flags \<Rightarrow> ParseUnit \<Rightarrow> ArgInfo \<Rightarrow> depends \<Rightarrow> parseErr + ArgInfo \<times> depends" where
  "depArg fl u a d =
     (case checkDepTName fl u (agType a) d of
        Inl e \<Rightarrow> Inl e
      | Inr (ty, d) \<Rightarrow> Inr (a\<lparr>agType := ty\<rparr>, d))"

definition depFun :: "Flags \<Rightarrow> ParseUnit \<Rightarrow> FunInfo \<Rightarrow> depends \<Rightarrow> parseErr + FunInfo \<times> depends" where
  "depFun fl u fn d =
     (case loopE (depArg fl u) (fnArgs fn) d of
        Inl e \<Rightarrow> Inl e
      | Inr (args, d) \<Rightarrow>
          (case fnRetType fn of
             None \<Rightarrow> Inr (fn\<lparr>fnArgs := args\<rparr>, d)
           | Some ty \<Rightarrow> (case checkDepTName fl u ty d of
                 Inl e \<Rightarrow> Inl e
               | Inr (ty, d) \<Rightarrow> Inr (fn\<lparr>fnArgs := args, fnRetType := Some ty\<rparr>, d))))"

definition depInterface :: "Flags \<Rightarrow> ParseUnit \<Rightarrow> InterfaceInfo \<Rightarrow> unit \<Rightarrow> parseErr + InterfaceInfo \<times> unit" where
  "depInterface fl u it s =
     (case loopE (depFun fl u) (itFun it) (itDependModule it, itDependModuleWithJce it) of
        Inl e \<Rightarrow> Inl e
      | Inr (fns, dm, dmj) \<Rightarrow>
          Inr (it\<lparr>itFun := fns, itDependModule := dm, itDependModuleWithJce := dmj\<rparr>, ()))"

definition analyzeTName :: "Flags \<Rightarrow> ParseUnit \<Rightarrow> parseErr + Parse" where
  "analyzeTName fl u =
     (case loopE (depStruct fl u) (psStruct (puParse u)) () of
        Inl e \<Rightarrow> Inl e
      | Inr (sts, _) \<Rightarrow>
          (case loopE (depInterface fl u) (psInterface (puParse u)) () of
             Inl e \<Rightarrow> Inl e
           | Inr (its, _) \<Rightarrow> Inr ((puParse u)\<lparr>psStruct := sts, psInterface := its\<rparr>)))"

definition defaultMember :: "Flags \<Rightarrow> ParseUnit \<Rightarrow> StructMember \<Rightarrow> unit \<Rightarrow> parseErr + StructMember \<times> unit" where
  "defaultMember fl u r s =
     (let p = puParse u in
      if smDefault r \<noteq> [] \<and> smDefType r = tkName then
        (case findEnumName fl (smDefault r) u of
           Inl e \<Rightarrow> Inl e
         | Inr None \<Rightarrow> Inl (unitErr p (NoDefaultValue (smDefault r)))
         | Inr (Some (mb, en)) \<Rightarrow>
             (let defValue = enName en @ ascii ''_'' @ upperFirstLetter (emKey mb);
                  currModule = (if gModuleCycle fl then psProtoName p @ ascii ''_'' @ psModule p
                                else psModule p);
                  defValue = (if length (enModule en) > 0 \<and> currModule \<noteq> enModule en
                              then enModule en @ ascii ''.'' @ defValue else defValue)
              in Inr (r\<lparr>smDefault := defValue\<rparr>, s)))
      else Inr (r, s))"

definition defaultStruct :: "Flags \<Rightarrow> ParseUnit \<Rightarrow> StructInfo \<Rightarrow> unit \<Rightarrow> parseErr + StructInfo \<times> unit" where
  "defaultStruct fl u st s =
     (case loopE (defaultMember fl u) (stMb st) () of
        Inl e \<Rightarrow> Inl e
      | Inr (mb, _) \<Rightarrow> Inr (st\<lparr>stMb := mb\<rparr>, s))"

definition analyzeDefault :: "Flags \<Rightarrow> ParseUnit \<Rightarrow> parseErr + Parse" where
  "analyzeDefault fl u =
     (case loopE (defaultStruct fl u) (psStruct (puParse u)) () of
        Inl e \<Rightarrow> Inl e
      | Inr (sts, _) \<Rightarrow> Inr ((puParse u)\<lparr>psStruct := sts\<rparr>))"

section \<open>Files\<close>

text \<open>The included files are parsed one after the other; \<open>parseFile\<close> is \<^verbatim>\<open>ParseFile\<close> with the include
  chain of this file.\<close>

fun includeFiles :: "(gostring \<Rightarrow> (parseErr + ParseUnit) option) \<Rightarrow> gostring \<Rightarrow> gostring list
    \<Rightarrow> (parseErr + ParseUnit list) option" where
  "includeFiles parseFile dir [] = Some (Inr [])"
| "includeFiles parseFile dir (v # vs) =
     (case parseFile (dir @ ch CHR ''/'' # v) of
        None \<Rightarrow> None
      | Some (Inl e) \<Rightarrow> Some (Inl e)
      | Some (Inr u) \<Rightarrow>
          (case includeFiles parseFile dir vs of
             None \<Rightarrow> None
           | Some (Inl e) \<Rightarrow> Some (Inl e)
           | Some (Inr us) \<Rightarrow> Some (Inr (u # us))))"

definition analyzeDepend :: "Flags \<Rightarrow> (gostring \<Rightarrow> (parseErr + ParseUnit) option) \<Rightarrow> Parse
    \<Rightarrow> (parseErr + ParseUnit) option" where
  "analyzeDepend fl parseFile p =
     (case includeFiles parseFile (path_Dir (psSource p)) (psInclude p) of
        None \<Rightarrow> None
      | Some (Inl e) \<Rightarrow> Some (Inl e)
      | Some (Inr incs) \<Rightarrow>
          Some (case analyzeDefault fl (ParseUnit p incs) of
              Inl e \<Rightarrow> Inl e
            | Inr p \<Rightarrow> (case analyzeTName fl (ParseUnit p incs) of
                  Inl e \<Rightarrow> Inl e
                | Inr p \<Rightarrow> Inr (ParseUnit p incs))))"

definition parseModule :: "Parse \<Rightarrow> unit parsed" where
  "parseModule p =
     bindP (expectP tkName p) (\<lambda>_ p.
       if psModule p \<noteq> [] then failP SecondModule p
       else parseModuleSegment (p\<lparr>psModule := tS p\<rparr>))"

partial_function (option) parse_loop :: "Parse \<Rightarrow> unit parsed" where
  "parse_loop p =
     bindP (nextP p) (\<lambda>_ p.
       if tT p = tkEos then returnP () p
       else if tT p = tkInclude then bindP (parseInclude p) (\<lambda>_ p. parse_loop p)
       else if tT p = tkModule then bindP (parseModule p) (\<lambda>_ p. parse_loop p)
       else failP ExpectIncludeOrModule p)"

definition newParse :: "gostring \<Rightarrow> bytes \<Rightarrow> gostring list \<Rightarrow> parseErr + Parse" where
  "newParse s b incChain =
     (case path2ProtoName s of
        None \<Rightarrow> Inl (ParseErr s 0 BadPath)
      | Some protoName \<Rightarrow>
          if s \<in> set incChain then Inl (ParseErr s 0 (CircularReference s))
          else Inr \<lparr>psSource = s, psModule = [], psInclude = [], psStruct = [], psInterface = [],
            psEnum = [], psConst = [], psHashKey = [], psLex = NewLexState s b, psT = None,
            psProtoName = protoName\<rparr>)"

fun findInclude :: "(gostring \<Rightarrow> bytes option) \<Rightarrow> gostring \<Rightarrow> gostring \<Rightarrow> gostring list \<Rightarrow> gostring" where
  "findInclude fs filename filePath [] = filePath"
| "findInclude fs filename filePath (i # includes) =
     (let filePath = trimRightSlash i @ ch CHR ''/'' # filename in
      if fs filePath \<noteq> None then filePath else findInclude fs filename filePath includes)"

text \<open>\<open>fs\<close> is the file system. A file that cannot be read is reported and read as empty. The first
  argument bounds the depth of the includes.\<close>

fun ParseFile :: "nat \<Rightarrow> Flags \<Rightarrow> (gostring \<Rightarrow> bytes option) \<Rightarrow> gostring list \<Rightarrow> gostring \<Rightarrow> gostring list
    \<Rightarrow> (parseErr + ParseUnit) option" where
  "ParseFile 0 fl fs includes filePath incChain = None"
| "ParseFile (Suc n) fl fs includes filePath incChain =
     (let filePath = (if fs filePath = None then findInclude fs (path_Base filePath) filePath includes
                      else filePath);
          b = (case fs filePath of None \<Rightarrow> [] | Some b \<Rightarrow> b)
      in case newParse filePath b incChain of
           Inl e \<Rightarrow> Some (Inl e)
         | Inr p \<Rightarrow>
             (case parse_loop p of
                None \<Rightarrow> None
              | Some (Inl e) \<Rightarrow> Some (Inl e)
              | Some (Inr (_, p)) \<Rightarrow>
                  analyzeDepend fl (\<lambda>f. ParseFile n fl fs includes f (incChain @ [filePath])) p))"

end
