(* ===== verification/Tars_Resolution.thy ===== *)
theory Tars_Resolution
  imports Tars_Analysis
begin

text \<open>
  What the analysis of a parsed file shows: the names of types are resolved exactly when they are
  declared in the file or in one it includes.
\<close>

section \<open>Declared names\<close>

text \<open>The qualified names a file and the files it includes declare.\<close>

fun declared :: "ParseUnit \<Rightarrow> gostring set" where
  "declared (ParseUnit p incs) =
     (\<lambda>v. qual (psModule p) (stName v)) ` set (psStruct p)
     \<union> (\<lambda>v. qual (psModule p) (enName v)) ` set (psEnum p) \<union> (\<Union>u \<in> set incs. declared u)"

lemma findTNameType_declared:
  "fst (findTNameType n u) \<noteq> tkName \<longleftrightarrow> n \<in> declared u"
  "(case findTNameType_inc n us of None \<Rightarrow> n \<notin> (\<Union>u \<in> set us. declared u)
     | Some r \<Rightarrow> fst r \<noteq> tkName \<and> n \<in> (\<Union>u \<in> set us. declared u))"
proof (induction n u and n us rule: findTNameType_findTNameType_inc.induct)
  case (1 tname p incs)
  then show ?case
    by (auto split: option.splits)
next
  case (2 tname)
  then show ?case by simp
next
  case (3 tname u us)
  then show ?case
    by (auto simp: Let_def split: option.splits if_splits)
qed

lemma findTNameType_kind: 
  "fst (findTNameType n u) \<in> {tkName, tkStruct, tkEnum}"
  "findTNameType_inc n us = Some r \<Longrightarrow> fst r \<in> {tkStruct, tkEnum}"
proof (induction n u and n us arbitrary: and r rule: findTNameType_findTNameType_inc.induct)
  case (1 tname p incs)
  then show ?case
    by (auto split: option.splits)
next
  case (2 tname)
  then show ?case by simp
next
  case (3 tname u us)
  then show ?case
    by (auto simp: Let_def split: if_splits)
qed

section \<open>Types\<close>

text \<open>A type as the parser builds it has its element types; the names in it are those outside
  arrays, whose element type the analysis does not visit.\<close>

fun wfType :: "VarType \<Rightarrow> bool" where
  "wfType (VarType t u st c k v l) =
     (if t = tkTVector then (case k of None \<Rightarrow> False | Some k \<Rightarrow> wfType k)
      else if t = tkTMap then (case k of None \<Rightarrow> False | Some k \<Rightarrow> wfType k) \<and> (case v of None \<Rightarrow> False | Some v \<Rightarrow> wfType v)
      else True)"

fun typeNames :: "VarType \<Rightarrow> gostring set" where
  "typeNames (VarType t u st c k v l) =
     (if t = tkName then {st}
      else if t = tkTVector then (case k of None \<Rightarrow> {} | Some k \<Rightarrow> typeNames k)
      else if t = tkTMap then (case k of None \<Rightarrow> {} | Some k \<Rightarrow> typeNames k) \<union> (case v of None \<Rightarrow> {} | Some v \<Rightarrow> typeNames v)
      else {})"

text \<open>Every name is known to be a struct or an enum.\<close>

fun resolved :: "VarType \<Rightarrow> bool" where
  "resolved (VarType t u st c k v l) =
     (if t = tkName then c = tkStruct \<or> c = tkEnum
      else if t = tkTVector then (case k of None \<Rightarrow> False | Some k \<Rightarrow> resolved k)
      else if t = tkTMap then (case k of None \<Rightarrow> False | Some k \<Rightarrow> resolved k) \<and> (case v of None \<Rightarrow> False | Some v \<Rightarrow> resolved v)
      else True)"

declare wfType.simps [simp del] typeNames.simps [simp del] resolved.simps [simp del]

text \<open>The analysis of a type: it succeeds exactly when all its names are declared, and resolves it.\<close>

definition accepts :: "'e + 'a \<Rightarrow> bool" where
  "accepts r \<longleftrightarrow> (\<exists>x. r = Inr x)"

lemma accepts_simps [simp]: "accepts (Inr x)" "\<not> accepts (Inl e)"
  by (simp_all add: accepts_def)

lemma checkDepTName_exact:
  assumes "wfType ty"
  shows "(accepts (checkDepTName fl u ty d) \<longleftrightarrow> (\<forall>n \<in> typeNames ty. fullName (puParse u) n \<in> declared u))
    \<and> (\<forall>ty' d'. checkDepTName fl u ty d = Inr (ty', d') \<longrightarrow> resolved ty')"
  using assms
proof (induction ty arbitrary: d)
  case (VarType t uns st c k v l)
  consider (name) "t = tkName" | (vec) "t = tkTVector" | (mp) "t = tkTMap"
    | (other) "t \<notin> {tkName, tkTVector, tkTMap}" by blast
  then show ?case
  proof cases
    case name
    have "fst (findTNameType (fullName (puParse u) st) u) \<in> {tkName, tkStruct, tkEnum}"
      by (rule findTNameType_kind)
    with name findTNameType_declared(1) [of "fullName (puParse u) st" u] show ?thesis
      by (auto simp: checkDepTName.simps typeNames.simps resolved.simps Let_def split: prod.splits)
  next
    case vec
    with VarType.prems obtain k' where k: "k = Some k'" "wfType k'"
      by (auto simp: wfType.simps split: option.splits)
    from VarType.IH(1) [of k' d] k vec show ?thesis
      by (auto simp: checkDepTName.simps typeNames.simps resolved.simps accepts_def split: sum.splits)
  next
    case mp
    with VarType.prems obtain k' v' where k: "k = Some k'" "wfType k'" "v = Some v'" "wfType v'"
      by (auto simp: wfType.simps split: option.splits)
    note K = VarType.IH(1) [of k' d] and V = VarType.IH(2) [of v']
    show ?thesis
    proof (cases "checkDepTName fl u k' d")
      case (Inl e)
      with K k mp show ?thesis
        by (auto simp: checkDepTName.simps typeNames.simps)
    next
      case (Inr r)
      obtain k2 d2 where r: "r = (k2, d2)" by (cases r)
      from Inr r K V [of d2] k mp show ?thesis
        by (auto simp: checkDepTName.simps typeNames.simps resolved.simps accepts_def split: sum.splits)
    qed
  next
    case other
    then show ?thesis
      by (auto simp: checkDepTName.simps typeNames.simps resolved.simps)
  qed
qed

section \<open>Declarations\<close>

text \<open>A run over \<open>x\<close> accepts exactly when \<open>P\<close> holds, and its result satisfies \<open>R\<close>.\<close>

definition exact :: "('e + 'b \<times> 's) \<Rightarrow> bool \<Rightarrow> ('b \<Rightarrow> bool) \<Rightarrow> bool" where
  "exact r P R \<longleftrightarrow> (accepts r \<longleftrightarrow> P) \<and> (\<forall>y s. r = Inr (y, s) \<longrightarrow> R y)"

lemma loopE_exact:
  assumes "\<And>x s. x \<in> set xs \<Longrightarrow> exact (f x s) (P x) R"
  shows "exact (loopE f xs s) (\<forall>x \<in> set xs. P x) (\<lambda>ys. \<forall>y \<in> set ys. R y)"
  using assms
proof (induction xs arbitrary: s)
  case Nil
  then show ?case by (simp add: exact_def)
next
  case (Cons x xs)
  show ?case
  proof (cases "f x s")
    case (Inl e)
    with Cons.prems [of x s] show ?thesis by (simp add: exact_def)
  next
    case (Inr r)
    obtain y s' where r: "r = (y, s')" by (cases r)
    have "exact (loopE f xs s') (\<forall>x \<in> set xs. P x) (\<lambda>ys. \<forall>y \<in> set ys. R y)"
      using Cons by simp
    with Cons.prems [of x s] Inr r show ?thesis
      by (auto simp: exact_def accepts_def split: sum.splits)
  qed
qed

definition namesDeclared :: "ParseUnit \<Rightarrow> VarType \<Rightarrow> bool" where
  "namesDeclared u ty \<longleftrightarrow> (\<forall>n \<in> typeNames ty. fullName (puParse u) n \<in> declared u)"

lemma checkDep_exact: "wfType ty \<Longrightarrow> exact (checkDepTName fl u ty d) (namesDeclared u ty) resolved"
  using checkDepTName_exact [of ty fl u d] by (simp add: exact_def namesDeclared_def)

text \<open>The types of a declaration.\<close>

definition structTypes :: "StructInfo \<Rightarrow> VarType set" where
  "structTypes st = smType ` set (stMb st)"

definition funTypes :: "FunInfo \<Rightarrow> VarType set" where
  "funTypes fn = agType ` set (fnArgs fn) \<union> set_option (fnRetType fn)"

definition interfaceTypes :: "InterfaceInfo \<Rightarrow> VarType set" where
  "interfaceTypes it = (\<Union>fn \<in> set (itFun it). funTypes fn)"

definition parseTypes :: "Parse \<Rightarrow> VarType set" where
  "parseTypes p = (\<Union>st \<in> set (psStruct p). structTypes st) \<union> (\<Union>it \<in> set (psInterface p). interfaceTypes it)"

lemma depMember_exact:
  "wfType (smType m) \<Longrightarrow> exact (depMember fl u m d) (namesDeclared u (smType m)) (\<lambda>m. resolved (smType m))"
  using checkDep_exact [of "smType m" fl u d]
  by (auto simp: exact_def depMember_def accepts_def split: sum.splits)

lemma depStruct_exact:
  assumes "\<forall>ty \<in> structTypes st. wfType ty"
  shows "exact (depStruct fl u st s) (\<forall>ty \<in> structTypes st. namesDeclared u ty)
    (\<lambda>st. \<forall>ty \<in> structTypes st. resolved ty)"
proof -
  have "exact (loopE (depMember fl u) (stMb st) (stDependModule st, stDependModuleWithJce st))
      (\<forall>m \<in> set (stMb st). namesDeclared u (smType m)) (\<lambda>mb. \<forall>m \<in> set mb. resolved (smType m))"
    by (rule loopE_exact, rule depMember_exact) (use assms in \<open>auto simp: structTypes_def\<close>)
  then show ?thesis
    by (auto simp: exact_def depStruct_def accepts_def structTypes_def split: sum.splits)
qed

lemma depArg_exact:
  "wfType (agType a) \<Longrightarrow> exact (depArg fl u a d) (namesDeclared u (agType a)) (\<lambda>a. resolved (agType a))"
  using checkDep_exact [of "agType a" fl u d]
  by (auto simp: exact_def depArg_def accepts_def split: sum.splits)

lemma depFun_exact:
  assumes "\<forall>ty \<in> funTypes fn. wfType ty"
  shows "exact (depFun fl u fn d) (\<forall>ty \<in> funTypes fn. namesDeclared u ty) (\<lambda>fn. \<forall>ty \<in> funTypes fn. resolved ty)"
proof -
  have args: "exact (loopE (depArg fl u) (fnArgs fn) d) (\<forall>a \<in> set (fnArgs fn). namesDeclared u (agType a))
      (\<lambda>as. \<forall>a \<in> set as. resolved (agType a))"
    by (rule loopE_exact, rule depArg_exact) (use assms in \<open>auto simp: funTypes_def\<close>)
  show ?thesis
  proof (cases "loopE (depArg fl u) (fnArgs fn) d")
    case (Inl e)
    with args show ?thesis
      by (auto simp: exact_def depFun_def funTypes_def)
  next
    case (Inr r)
    obtain as d' where r: "r = (as, d')" by (cases r)
    show ?thesis
    proof (cases "fnRetType fn")
      case None
      with Inr r args show ?thesis
        by (auto simp: exact_def depFun_def funTypes_def)
    next
      case (Some ty)
      then have "exact (checkDepTName fl u ty d') (namesDeclared u ty) resolved"
        using assms by (intro checkDep_exact) (simp add: funTypes_def)
      with Some Inr r args show ?thesis
        by (auto simp: exact_def depFun_def funTypes_def accepts_def split: sum.splits)
    qed
  qed
qed

lemma depInterface_exact:
  assumes "\<forall>ty \<in> interfaceTypes it. wfType ty"
  shows "exact (depInterface fl u it s) (\<forall>ty \<in> interfaceTypes it. namesDeclared u ty)
    (\<lambda>it. \<forall>ty \<in> interfaceTypes it. resolved ty)"
proof -
  have "exact (loopE (depFun fl u) (itFun it) (itDependModule it, itDependModuleWithJce it))
      (\<forall>fn \<in> set (itFun it). \<forall>ty \<in> funTypes fn. namesDeclared u ty)
      (\<lambda>fns. \<forall>fn \<in> set fns. \<forall>ty \<in> funTypes fn. resolved ty)"
    by (rule loopE_exact, rule depFun_exact) (use assms in \<open>auto simp: interfaceTypes_def\<close>)
  then show ?thesis
    by (auto simp: exact_def depInterface_def accepts_def interfaceTypes_def split: sum.splits)
qed

text \<open>C30: The analysis of a file accepts it exactly when every name of a type that its struct members,
  arguments and results mention is declared in the file or in a file it includes, directly or
  not; and then every such name is marked as a struct or an enum.\<close>

theorem names_resolved:
  assumes "\<forall>ty \<in> parseTypes (puParse u). wfType ty"
  shows "((\<exists>p. analyzeTName fl u = Inr p) \<longleftrightarrow>
      (\<forall>ty \<in> parseTypes (puParse u). \<forall>n \<in> typeNames ty. fullName (puParse u) n \<in> declared u))
    \<and> (\<forall>p. analyzeTName fl u = Inr p \<longrightarrow> (\<forall>ty \<in> parseTypes p. resolved ty))"
proof -
  have s: "exact (loopE (depStruct fl u) (psStruct (puParse u)) ())
      (\<forall>st \<in> set (psStruct (puParse u)). \<forall>ty \<in> structTypes st. namesDeclared u ty)
      (\<lambda>sts. \<forall>st \<in> set sts. \<forall>ty \<in> structTypes st. resolved ty)"
    by (rule loopE_exact, rule depStruct_exact) (use assms in \<open>auto simp: parseTypes_def\<close>)
  have i: "exact (loopE (depInterface fl u) (psInterface (puParse u)) ())
      (\<forall>it \<in> set (psInterface (puParse u)). \<forall>ty \<in> interfaceTypes it. namesDeclared u ty)
      (\<lambda>its. \<forall>it \<in> set its. \<forall>ty \<in> interfaceTypes it. resolved ty)"
    by (rule loopE_exact, rule depInterface_exact) (use assms in \<open>auto simp: parseTypes_def\<close>)
  have "exact (map_sum id (\<lambda>p. (p, ())) (analyzeTName fl u)) (\<forall>ty \<in> parseTypes (puParse u). namesDeclared u ty)
      (\<lambda>p. \<forall>ty \<in> parseTypes p. resolved ty)"
    using s i unfolding exact_def analyzeTName_def accepts_def parseTypes_def
    by (fastforce split: sum.splits)
  then show ?thesis
    by (cases "analyzeTName fl u") (auto simp: exact_def namesDeclared_def)
qed

text \<open>A file that declares a struct \<open>S\<close> with one member of a given type.\<close>

definition demo_unit :: "VarType \<Rightarrow> ParseUnit" where
  "demo_unit ty = ParseUnit ((demo_parse [])\<lparr>psModule := ascii ''M'', psStruct :=
     [\<lparr>stName = ascii ''S'', stMb = [\<lparr>smTag = 0, smRequire = True, smType = ty, smKey = ascii ''a'',
        smDefault = [], smDefType = tkEos\<rparr>], stDependModule = [], stDependModuleWithJce = []\<rparr>]\<rparr>) []"

definition demo_named :: "gostring \<Rightarrow> VarType" where
  "demo_named n = VarType tkName False n tkEos None None 0"

lemma demo_unit_types: "parseTypes (puParse (demo_unit ty)) = {ty}"
  by (simp add: demo_unit_def demo_parse_def parseTypes_def structTypes_def)

lemma demo_unit_declared: "declared (demo_unit ty) = {ascii ''M::S''}"
  by (simp add: demo_unit_def demo_parse_def ascii_def)

theorem names_resolved_witness:
  "(\<exists>p. analyzeTName \<lparr>gModuleCycle = False, gModuleUpper = False\<rparr> (demo_unit (demo_named (ascii ''S''))) = Inr p)
    \<and> \<not> (\<exists>p. analyzeTName \<lparr>gModuleCycle = False, gModuleUpper = False\<rparr> (demo_unit (demo_named (ascii ''T''))) = Inr p)"
proof -
  let ?fl = "\<lparr>gModuleCycle = False, gModuleUpper = False\<rparr>"
  have w: "\<forall>ty \<in> parseTypes (puParse (demo_unit (demo_named n))). wfType ty" for n
    by (simp add: demo_unit_types demo_named_def wfType.simps)
  have f: "fullName (puParse (demo_unit ty)) [c] = ascii ''M::'' @ [c]" if "c \<noteq> 58" for ty c
    using that by (simp add: fullName_def demo_unit_def demo_parse_def ascii_def)
  have "typeNames (demo_named n) = {n}" for n
    by (simp add: demo_named_def typeNames.simps)
  then show ?thesis
    using names_resolved [OF w [of "ascii ''S''"], of ?fl] names_resolved [OF w [of "ascii ''T''"], of ?fl]
    by (simp add: demo_unit_types demo_unit_declared f ascii_def)
qed

text \<open>An array of a type that is declared nowhere passes the analysis, with its element type not
  resolved.\<close>

lemma array_element_unchecked:
  "analyzeTName fl (demo_unit (VarType tkTArray False [] tkEos (Some (demo_named n)) None l))
    = Inr (puParse (demo_unit (VarType tkTArray False [] tkEos (Some (demo_named n)) None l)))"
  by (simp add: analyzeTName_def demo_unit_def demo_parse_def depStruct_def depMember_def
      checkDepTName.simps)

end
