(* ===== verification/Conf_Parser.thy ===== *)
theory Conf_Parser
  imports Go_Strings
begin

text \<open>
  The configuration files of a server, \<^verbatim>\<open>tars/util/conf/conf.go\<close>: a tree of elements built from the
  tokens of \<^verbatim>\<open>encoding/xml\<close> and of the lines between them, and the lookups by path. Elements are shared by
  pointers (the stack of open elements points into the tree), so they live in a store: an address is an index
  of a list, and a new element is appended. The stream of tokens is the input of the model.
\<close>

section \<open>Strings\<close>

text \<open>\<^verbatim>\<open>strings.Trim(s, cutset)\<close> for a cutset of ASCII characters, \<^verbatim>\<open>strings.SplitN(s, sep, 2)\<close> for a
  separator of one byte.\<close>

definition strings_Trim :: "gostring \<Rightarrow> byte set \<Rightarrow> gostring" where
  "strings_Trim s cutset = rev (dropWhile (\<lambda>c. c \<in> cutset) (rev (dropWhile (\<lambda>c. c \<in> cutset) s)))"

definition strings_SplitN2 :: "gostring \<Rightarrow> byte \<Rightarrow> gostring list" where
  "strings_SplitN2 s sep =
     (case strings_Index s sep of None \<Rightarrow> [s] | Some i \<Rightarrow> [take i s, drop (Suc i) s])"

text \<open>\<^verbatim>\<open>strconv.Atoi\<close> and \<^verbatim>\<open>strconv.ParseBool\<close>; \<open>None\<close> stands for every error.\<close>

definition strconv_Atoi :: "gostring \<Rightarrow> int option" where
  "strconv_Atoi s = ParseInt s 10 64"

definition strconv_ParseBool :: "gostring \<Rightarrow> bool option" where
  "strconv_ParseBool s =
     (if s \<in> set (map ascii [''1'', ''t'', ''T'', ''true'', ''TRUE'', ''True'']) then Some True
      else if s \<in> set (map ascii [''0'', ''f'', ''F'', ''false'', ''FALSE'', ''False'']) then Some False
      else None)"

text \<open>\<^verbatim>\<open>bufio.Scanner\<close> with \<^verbatim>\<open>ScanLines\<close>: a line ends with a line feed or the input, one carriage return
  before it is dropped, and an empty last line is not returned. A line that does not fit the buffer of 64
  kilobytes ends the scan.\<close>

definition maxTokenSize :: nat where "maxTokenSize = 64 * 1024"

definition dropCR :: "gostring \<Rightarrow> gostring" where
  "dropCR s = (if s \<noteq> [] \<and> last s = 13 then butlast s else s)"

definition rawLines :: "bytes \<Rightarrow> gostring list" where
  "rawLines s = (let ls = strings_Split s 10 in if last ls = [] then butlast ls else ls)"

definition scanLines :: "bytes \<Rightarrow> gostring list" where
  "scanLines s = map dropCR (takeWhile (\<lambda>l. length l < maxTokenSize) (rawLines s))"

section \<open>Elements\<close>

datatype elemKind = Node | Leaf

record elem =
  elKind :: elemKind
  elName :: gostring
  elValue :: gostring
  elChildren :: "(gostring \<times> nat) list"
  elLine :: "gostring list"

type_synonym store = "elem list"

definition newElem :: "elemKind \<Rightarrow> gostring \<Rightarrow> store \<Rightarrow> nat \<times> store" where
  "newElem kind name h =
     (length h, h @ [\<lparr>elKind = kind, elName = name, elValue = [], elChildren = [], elLine = []\<rparr>])"

text \<open>The methods that change an element, at its address.\<close>

definition setValue :: "gostring \<Rightarrow> nat \<Rightarrow> store \<Rightarrow> store" where
  "setValue value e h = h[e := (h ! e)\<lparr>elValue := value\<rparr>]"

definition addChild :: "gostring \<Rightarrow> nat \<Rightarrow> nat \<Rightarrow> store \<Rightarrow> store" where
  "addChild name child e h = h[e := (h ! e)\<lparr>elChildren := AList.update name child (elChildren (h ! e))\<rparr>]"

definition addLine :: "gostring \<Rightarrow> nat \<Rightarrow> store \<Rightarrow> store" where
  "addLine line e h = h[e := (h ! e)\<lparr>elLine := elLine (h ! e) @ [line]\<rparr>]"

definition findChild :: "store \<Rightarrow> nat \<Rightarrow> gostring \<Rightarrow> nat option" where
  "findChild h e name = map_of (elChildren (h ! e)) name"

definition isNode :: "elem \<Rightarrow> bool" where "isNode e \<longleftrightarrow> elKind e = Node"
definition isLeaf :: "elem \<Rightarrow> bool" where "isLeaf e \<longleftrightarrow> elKind e = Leaf"

fun getElem :: "store \<Rightarrow> nat \<Rightarrow> gostring list \<Rightarrow> nat option" where
  "getElem h e [] = Some e"
| "getElem h e (item # pathVec) =
     (case findChild h e item of None \<Rightarrow> None | Some t \<Rightarrow> getElem h t pathVec)"

text \<open>47, 60 and 62 are the slash and the angle brackets.\<close>

definition analysisPath :: "gostring \<Rightarrow> gostring list" where
  "analysisPath path =
     (let pathVec = strings_Split path 47;
          lastItem = last pathVec;
          lastPair = strings_Split lastItem 60
      in filter (\<lambda>item. item \<noteq> [])
           (butlast pathVec @
             (if length lastPair = 2 then [lastPair ! 0, strings_Trim (lastPair ! 1) {62}] else [lastItem])))"

text \<open>The loops over the children visit them in an order that Go does not fix: \<open>ord\<close> is that order.\<close>

type_synonym childOrder = "(gostring \<times> nat) list \<Rightarrow> (gostring \<times> nat) list"

definition getDomain :: "childOrder \<Rightarrow> store \<Rightarrow> nat \<Rightarrow> gostring \<Rightarrow> gostring list option" where
  "getDomain ord h e path =
     map_option (\<lambda>t. map elName (filter isNode (map (\<lambda>(k, c). h ! c) (ord (elChildren (h ! t))))))
       (getElem h e (analysisPath path))"

definition getDomainKey :: "childOrder \<Rightarrow> store \<Rightarrow> nat \<Rightarrow> gostring \<Rightarrow> gostring list option" where
  "getDomainKey ord h e path =
     map_option (\<lambda>t. map elName (filter isLeaf (map (\<lambda>(k, c). h ! c) (ord (elChildren (h ! t))))))
       (getElem h e (analysisPath path))"

definition getDomainLine :: "store \<Rightarrow> nat \<Rightarrow> gostring \<Rightarrow> gostring list option" where
  "getDomainLine h e path = map_option (\<lambda>t. elLine (h ! t)) (getElem h e (analysisPath path))"

text \<open>\<^verbatim>\<open>getMap\<close> returns an empty map with its error.\<close>

definition getMap :: "childOrder \<Rightarrow> store \<Rightarrow> nat \<Rightarrow> gostring \<Rightarrow> (gostring \<times> gostring) list" where
  "getMap ord h e path =
     (case getElem h e (analysisPath path) of
        None \<Rightarrow> []
      | Some t \<Rightarrow> foldl (\<lambda>kv child. AList.update (elName child) (elValue child) kv) []
          (filter isLeaf (map (\<lambda>(k, c). h ! c) (ord (elChildren (h ! t))))))"

definition getValue :: "store \<Rightarrow> nat \<Rightarrow> gostring \<Rightarrow> gostring option" where
  "getValue h e path = map_option (\<lambda>t. elValue (h ! t)) (getElem h e (analysisPath path))"

text \<open>\<^verbatim>\<open>toString\<close> calls itself on the children; the first argument bounds the depth of the calls.\<close>

fun toString :: "nat \<Rightarrow> childOrder \<Rightarrow> store \<Rightarrow> nat \<Rightarrow> nat \<Rightarrow> gostring option" where
  "toString 0 ord h e n = None"
| "toString (Suc depth) ord h e n =
     (if isLeaf (h ! e) then Some (10 # replicate n 9 @ elName (h ! e) @ [58] @ elValue (h ! e))
      else foldl (\<lambda>ret (k, c). Option.bind ret (\<lambda>r. map_option (\<lambda>s. r @ s) (toString depth ord h c (Suc n))))
        (Some (10 # replicate n 9 @ elName (h ! e) @ [58])) (ord (elChildren (h ! e))))"

section \<open>Reading a file\<close>

datatype xmlToken = CharData bytes | StartElement gostring | EndElement gostring | OtherToken

definition whiteSpaceChars :: "byte set" where "whiteSpaceChars = {32, 10, 9}"

text \<open>One line between the elements; 35 is the hash of a comment, 61 the equals sign.\<close>

definition confLine :: "nat \<Rightarrow> store \<Rightarrow> gostring \<Rightarrow> store" where
  "confLine currNode h raw =
     (let line = strings_Trim raw whiteSpaceChars in
      if line = [] \<or> hd line = 35 then h
      else let h = addLine line currNode h;
               kv = strings_SplitN2 line 61;
               k = strings_Trim (kv ! 0) whiteSpaceChars
           in if k = [] then h
              else let v = (if length kv = 2 then strings_Trim (kv ! 1) whiteSpaceChars else []);
                       (leaf, h) = newElem Leaf k h;
                       h = setValue v leaf h
                   in addChild k leaf currNode h)"

datatype confEnd = ConfOk | ConfErr gostring | ConfPanic

text \<open>The loop over the tokens. The stack of open elements has its top first; the expression that reads the
  top panics when the stack is empty.\<close>

fun initLoop :: "xmlToken list \<Rightarrow> nat list \<Rightarrow> store \<Rightarrow> confEnd \<times> store" where
  "initLoop ts [] h = (ConfPanic, h)"
| "initLoop [] (currNode # st) h = (ConfOk, h)"
| "initLoop (CharData t # ts) (currNode # st) h =
     initLoop ts (currNode # st) (foldl (confLine currNode) h (scanLines t))"
| "initLoop (StartElement nodeName # ts) (currNode # st) h =
     (case findChild h currNode nodeName of
        Some node \<Rightarrow> initLoop ts (node # currNode # st) h
      | None \<Rightarrow> (case newElem Node nodeName h of (node, h) \<Rightarrow>
          initLoop ts (node # currNode # st) (addChild nodeName node currNode h)))"
| "initLoop (EndElement nodeName # ts) (currNode # st) h =
     (if elName (h ! currNode) \<noteq> nodeName then (ConfErr (ascii ''xml end not match :'' @ nodeName), h)
      else initLoop ts st h)"
| "initLoop (OtherToken # ts) (currNode # st) h = initLoop ts (currNode # st) h"

record Conf =
  cfContent :: bytes
  cfStore :: store

definition conf_New :: Conf where
  "conf_New = \<lparr>cfContent = [], cfStore = snd (newElem Node (ascii ''root'') [])\<rparr>"

definition InitFromBytes :: "(bytes \<Rightarrow> xmlToken list) \<Rightarrow> bytes \<Rightarrow> Conf \<Rightarrow> confEnd \<times> Conf" where
  "InitFromBytes decode content c =
     (case initLoop (decode content) [0] (cfStore c) of (e, h) \<Rightarrow> (e, \<lparr>cfContent = content, cfStore = h\<rparr>))"

definition InitFromString :: "(bytes \<Rightarrow> xmlToken list) \<Rightarrow> gostring \<Rightarrow> Conf \<Rightarrow> confEnd \<times> Conf" where
  "InitFromString decode content c = InitFromBytes decode content c"

text \<open>The file system gives the content of a file or the text of an error.\<close>

definition InitFromFile :: "(bytes \<Rightarrow> xmlToken list) \<Rightarrow> (gostring \<Rightarrow> gostring + bytes) \<Rightarrow> gostring \<Rightarrow> Conf \<Rightarrow> confEnd \<times> Conf" where
  "InitFromFile decode ReadFile fileName c =
     (case ReadFile fileName of
        Inl err \<Rightarrow> (ConfErr (ascii ''read file '' @ fileName @ ascii '' error:'' @ err), c)
      | Inr content \<Rightarrow> InitFromBytes decode content c)"

definition NewConf :: "(bytes \<Rightarrow> xmlToken list) \<Rightarrow> (gostring \<Rightarrow> gostring + bytes) \<Rightarrow> gostring \<Rightarrow> confEnd \<times> Conf option" where
  "NewConf decode ReadFile fileName =
     (case InitFromFile decode ReadFile fileName conf_New of
        (ConfOk, c) \<Rightarrow> (ConfOk, Some c) | (e, _) \<Rightarrow> (e, None))"

section \<open>Lookups\<close>

definition GetStringWithDef :: "Conf \<Rightarrow> gostring \<Rightarrow> gostring \<Rightarrow> gostring" where
  "GetStringWithDef c path defVal = (case getValue (cfStore c) 0 path of None \<Rightarrow> defVal | Some v \<Rightarrow> v)"

definition GetString :: "Conf \<Rightarrow> gostring \<Rightarrow> gostring" where
  "GetString c path = GetStringWithDef c path []"

definition GetIntWithDef :: "Conf \<Rightarrow> gostring \<Rightarrow> int \<Rightarrow> int" where
  "GetIntWithDef c path defVal =
     (case getValue (cfStore c) 0 path of
        None \<Rightarrow> defVal
      | Some v \<Rightarrow> (case strconv_Atoi v of None \<Rightarrow> defVal | Some i \<Rightarrow> i))"

definition GetInt :: "Conf \<Rightarrow> gostring \<Rightarrow> int" where
  "GetInt c path = GetIntWithDef c path 0"

definition GetDomain :: "childOrder \<Rightarrow> Conf \<Rightarrow> gostring \<Rightarrow> gostring list" where
  "GetDomain ord c path = (case getDomain ord (cfStore c) 0 path of None \<Rightarrow> [] | Some d \<Rightarrow> d)"

definition GetDomainKey :: "childOrder \<Rightarrow> Conf \<Rightarrow> gostring \<Rightarrow> gostring list" where
  "GetDomainKey ord c path = (case getDomainKey ord (cfStore c) 0 path of None \<Rightarrow> [] | Some d \<Rightarrow> d)"

definition GetDomainLine :: "Conf \<Rightarrow> gostring \<Rightarrow> gostring list" where
  "GetDomainLine c path = (case getDomainLine (cfStore c) 0 path of None \<Rightarrow> [] | Some d \<Rightarrow> d)"

definition GetMap :: "childOrder \<Rightarrow> Conf \<Rightarrow> gostring \<Rightarrow> (gostring \<times> gostring) list" where
  "GetMap ord c path = getMap ord (cfStore c) 0 path"

definition conf_ToString :: "nat \<Rightarrow> childOrder \<Rightarrow> Conf \<Rightarrow> gostring option" where
  "conf_ToString depth ord c = toString depth ord (cfStore c) 0 0"

definition GetInt32WithDef :: "Conf \<Rightarrow> gostring \<Rightarrow> int32 \<Rightarrow> int32" where
  "GetInt32WithDef c path defVal =
     (case getValue (cfStore c) 0 path of
        None \<Rightarrow> defVal
      | Some v \<Rightarrow> (case ParseInt v 10 32 of None \<Rightarrow> defVal | Some i \<Rightarrow> word_of_int i))"

definition GetBoolWithDef :: "Conf \<Rightarrow> gostring \<Rightarrow> bool \<Rightarrow> bool" where
  "GetBoolWithDef c path defVal =
     (case getValue (cfStore c) 0 path of
        None \<Rightarrow> defVal
      | Some v \<Rightarrow> (case strconv_ParseBool v of None \<Rightarrow> defVal | Some b \<Rightarrow> b))"

text \<open>\<^verbatim>\<open>strconv.ParseFloat\<close> is an argument, as are the floating-point numbers.\<close>

definition GetFloatWithDef :: "(gostring \<Rightarrow> 'f option) \<Rightarrow> Conf \<Rightarrow> gostring \<Rightarrow> 'f \<Rightarrow> 'f" where
  "GetFloatWithDef ParseFloat c path defVal =
     (case getValue (cfStore c) 0 path of
        None \<Rightarrow> defVal
      | Some v \<Rightarrow> (case ParseFloat v of None \<Rightarrow> defVal | Some f \<Rightarrow> f))"

section \<open>The configuration as a map from paths\<close>

text \<open>
  What a configuration means: each path of names leads to nothing or to a kind, a value and lines. The
  operations of the parser on this map: a key under a path hides everything that was at or below the
  place of the key, a domain is created where there is nothing.
\<close>

type_synonym confInfo = "elemKind \<times> gostring \<times> gostring list"
type_synonym confSpec = "gostring list \<rightharpoonup> confInfo"

definition specKey :: "gostring list \<Rightarrow> gostring \<Rightarrow> gostring \<Rightarrow> confSpec \<Rightarrow> confSpec" where
  "specKey p k v m = (\<lambda>q. if q = p @ [k] then Some (Leaf, v, [])
     else if take (Suc (length p)) q = p @ [k] then None else m q)"

definition specLines :: "gostring list \<Rightarrow> gostring \<Rightarrow> confSpec \<Rightarrow> confSpec" where
  "specLines p line m = m(p := map_option (\<lambda>(kind, v, ls). (kind, v, ls @ [line])) (m p))"

definition specOpen :: "gostring list \<Rightarrow> gostring \<Rightarrow> confSpec \<Rightarrow> confSpec" where
  "specOpen p n m = (if m (p @ [n]) = None then m(p @ [n] \<mapsto> (Node, [], [])) else m)"

text \<open>What a line says: nothing, a line without a key, or a key and its value.\<close>

definition lineMeaning :: "gostring \<Rightarrow> (gostring \<times> (gostring \<times> gostring) option) option" where
  "lineMeaning raw =
     (let line = strings_Trim raw whiteSpaceChars in
      if line = [] \<or> hd line = 35 then None
      else let kv = strings_SplitN2 line 61; k = strings_Trim (kv ! 0) whiteSpaceChars in
           Some (line, if k = [] then None
             else Some (k, if length kv = 2 then strings_Trim (kv ! 1) whiteSpaceChars else [])))"

definition specLine :: "gostring list \<Rightarrow> confSpec \<Rightarrow> gostring \<Rightarrow> confSpec" where
  "specLine p m raw =
     (case lineMeaning raw of
        None \<Rightarrow> m
      | Some (line, None) \<Rightarrow> specLines p line m
      | Some (line, Some (k, v)) \<Rightarrow> specKey p k v (specLines p line m))"

fun specLoop :: "xmlToken list \<Rightarrow> gostring list \<Rightarrow> confSpec \<Rightarrow> confEnd \<times> confSpec" where
  "specLoop [] p m = (ConfOk, m)"
| "specLoop (CharData t # ts) p m = specLoop ts p (foldl (specLine p) m (scanLines t))"
| "specLoop (StartElement n # ts) p m = specLoop ts (p @ [n]) (specOpen p n m)"
| "specLoop (EndElement n # ts) p m =
     (if last (ascii ''root'' # p) \<noteq> n then (ConfErr (ascii ''xml end not match :'' @ n), m)
      else if p = [] then (ConfPanic, m)
      else specLoop ts (butlast p) m)"
| "specLoop (OtherToken # ts) p m = specLoop ts p m"

definition absConf :: "store \<Rightarrow> confSpec" where
  "absConf h = (\<lambda>q. map_option (\<lambda>a. (elKind (h ! a), elValue (h ! a), elLine (h ! a))) (getElem h 0 q))"

section \<open>The store\<close>

text \<open>
  The invariant of the store: children are allocated after their parents and carry the name they are stored
  under, and no element is reached by two paths. So there is no sharing but that of the stack.
\<close>

definition child_ok :: "store \<Rightarrow> nat \<Rightarrow> gostring \<times> nat \<Rightarrow> bool" where
  "child_ok h a = (\<lambda>(n, c). a < c \<and> c < length h \<and> elName (h ! c) = n)"

definition conf_inv :: "store \<Rightarrow> bool" where
  "conf_inv h \<longleftrightarrow> h \<noteq> [] \<and> elName (h ! 0) = ascii ''root''
     \<and> (\<forall>a < length h. list_all (child_ok h a) (elChildren (h ! a)) \<and> distinct (map fst (elChildren (h ! a))))
     \<and> (\<forall>q q' a. getElem h 0 q = Some a \<longrightarrow> getElem h 0 q' = Some a \<longrightarrow> q = q')"

lemma conf_inv_child:
  assumes "conf_inv h" and "a < length h" and "findChild h a n = Some c"
  shows "a < c" "c < length h" "elName (h ! c) = n"
proof -
  have "child_ok h a (n, c)"
    using assms by (auto simp: conf_inv_def findChild_def list_all_iff dest: map_of_SomeD)
  then show "a < c" "c < length h" "elName (h ! c) = n"
    by (simp_all add: child_ok_def)
qed

lemma conf_inv_paths: "conf_inv h \<Longrightarrow> getElem h 0 q = Some a \<Longrightarrow> getElem h 0 q' = Some a \<Longrightarrow> q = q'"
  unfolding conf_inv_def by blast

lemma getElem_snoc: "getElem h e (q @ [x]) = Option.bind (getElem h e q) (\<lambda>a. findChild h a x)"
  by (induction q arbitrary: e) (auto split: option.splits)

lemma getElem_bound: "conf_inv h \<Longrightarrow> getElem h 0 q = Some a \<Longrightarrow> a < length h"
proof (induction q arbitrary: a rule: rev_induct)
  case Nil
  then show ?case by (simp add: conf_inv_def)
next
  case (snoc x q)
  then show ?case
    by (auto simp: getElem_snoc bind_eq_Some_conv dest: conf_inv_child)
qed

lemma elName_path: "conf_inv h \<Longrightarrow> getElem h 0 p = Some a \<Longrightarrow> elName (h ! a) = last (ascii ''root'' # p)"
proof (cases p rule: rev_cases)
  case Nil
  then show "conf_inv h \<Longrightarrow> getElem h 0 p = Some a \<Longrightarrow> ?thesis" by (simp add: conf_inv_def)
next
  case (snoc q x)
  then show "conf_inv h \<Longrightarrow> getElem h 0 p = Some a \<Longrightarrow> ?thesis"
    by (auto simp: getElem_snoc bind_eq_Some_conv dest: conf_inv_child getElem_bound)
qed

text \<open>Changes of an element that keep its name and its children change no path.\<close>

lemma same_children:
  assumes "length h' = length h" and "\<And>b. elChildren (h' ! b) = elChildren (h ! b)"
    and "\<And>b. elName (h' ! b) = elName (h ! b)"
  shows "getElem h' e q = getElem h e q" "conf_inv h' = conf_inv h"
proof -
  have g: "getElem h' e q = getElem h e q" for e q
    by (induction q arbitrary: e) (simp_all add: findChild_def assms split: option.split)
  have "child_ok h' = child_ok h"
    by (simp add: fun_eq_iff child_ok_def assms(1,3))
  moreover have "h' = [] \<longleftrightarrow> h = []"
    using assms(1) by (cases h; cases h') simp_all
  ultimately show "conf_inv h' = conf_inv h"
    by (simp add: conf_inv_def g assms)
  show "getElem h' e q = getElem h e q" by (rule g)
qed

lemma addLine_nth:
  "addLine l a h ! b = (if a = b \<and> a < length h then (h ! b)\<lparr>elLine := elLine (h ! b) @ [l]\<rparr> else h ! b)"
  by (cases "a < length h") (simp_all add: addLine_def nth_list_update list_update_beyond)

lemma addLine_sel [simp]:
  "length (addLine l a h) = length h"
  "elChildren (addLine l a h ! b) = elChildren (h ! b)"
  "elName (addLine l a h ! b) = elName (h ! b)"
  "elKind (addLine l a h ! b) = elKind (h ! b)"
  "elValue (addLine l a h ! b) = elValue (h ! b)"
  by (simp_all add: addLine_nth) (simp add: addLine_def)

lemmas addLine_same = same_children [OF addLine_sel(1-3)]

lemma absConf_addLine:
  assumes "conf_inv h" and "getElem h 0 p = Some a"
  shows "absConf (addLine l a h) = specLines p l (absConf h)"
proof
  fix q
  have "b < length h" "b = a \<longleftrightarrow> q = p" if "getElem h 0 q = Some b" for b
    using that assms getElem_bound conf_inv_paths by auto
  then show "absConf (addLine l a h) q = specLines p l (absConf h) q"
    using assms(2) by (cases "getElem h 0 q")
      (auto simp: absConf_def specLines_def addLine_same addLine_nth)
qed

text \<open>A new element put into the children of another one.\<close>

definition attach :: "elem \<Rightarrow> nat \<Rightarrow> store \<Rightarrow> store" where
  "attach e a h = (h @ [e])[a := (h ! a)\<lparr>elChildren := AList.update (elName e) (length h) (elChildren (h ! a))\<rparr>]"

lemma length_attach [simp]: "length (attach e a h) = Suc (length h)"
  by (simp add: attach_def)

lemma attach_new [simp]: "a < length h \<Longrightarrow> attach e a h ! length h = e"
  by (simp add: attach_def)

lemma attach_old:
  assumes "a < length h" and "b < length h"
  shows "elKind (attach e a h ! b) = elKind (h ! b)" "elName (attach e a h ! b) = elName (h ! b)"
    "elValue (attach e a h ! b) = elValue (h ! b)" "elLine (attach e a h ! b) = elLine (h ! b)"
    "elChildren (attach e a h ! b) =
       (if b = a then AList.update (elName e) (length h) (elChildren (h ! a)) else elChildren (h ! b))"
  using assms by (simp_all add: attach_def nth_append nth_list_update)

lemma attach_find:
  assumes "a < length h" and "b < length h"
  shows "findChild (attach e a h) b x = (if b = a \<and> x = elName e then Some (length h) else findChild h b x)"
  using assms by (simp add: findChild_def attach_old update_conv)

lemma attach_path:
  assumes "conf_inv h" and "getElem h 0 p = Some a" and "elChildren e = []"
  shows "getElem (attach e a h) 0 q =
     (if q = p @ [elName e] then Some (length h)
      else if take (Suc (length p)) q = p @ [elName e] then None else getElem h 0 q)"
proof (induction q rule: rev_induct)
  case Nil
  show ?case by simp
next
  case (snoc x q)
  have a: "a < length h" using assms(1,2) by (rule getElem_bound)
  have leaf: "findChild (attach e a h) (length h) x = None"
    using a assms(3) by (simp add: findChild_def)
  have old: "Option.bind (getElem h 0 q) (\<lambda>b. findChild (attach e a h) b x) =
      (if q = p \<and> x = elName e then Some (length h) else getElem h 0 (q @ [x]))"
  proof (cases "getElem h 0 q")
    case None
    then show ?thesis using assms(2) by (auto simp: getElem_snoc)
  next
    case (Some b)
    then have "b < length h" "b = a \<longleftrightarrow> q = p"
      using assms getElem_bound conf_inv_paths by auto
    with Some show ?thesis by (simp add: getElem_snoc attach_find a)
  qed
  have pre: "take (Suc (length p)) (q @ [x]) = p @ [elName e] \<longleftrightarrow>
      take (Suc (length p)) q = p @ [elName e] \<or> q = p \<and> x = elName e"
  proof (cases "length p < length q")
    case True
    then show ?thesis by auto
  next
    case False
    then have "take (Suc (length p)) q = q" "take (Suc (length p)) (q @ [x]) = q @ [x]" by simp_all
    with False show ?thesis by auto
  qed
  show ?case
  proof (cases "q = p @ [elName e]")
    case True
    then have "getElem (attach e a h) 0 (q @ [x]) = None"
      using leaf snoc.IH by (simp only: getElem_snoc) simp
    with True show ?thesis by simp
  next
    case False
    then show ?thesis
      using old pre by (cases "take (Suc (length p)) q = p @ [elName e]")
        (auto simp: getElem_snoc [of "attach e a h"] snoc.IH)
  qed
qed

lemma conf_inv_attach:
  assumes inv: "conf_inv h" and p: "getElem h 0 p = Some a" and e: "elChildren e = []"
  shows "conf_inv (attach e a h)"
  unfolding conf_inv_def
proof (intro conjI allI impI)
  have a: "a < length h" using inv p by (rule getElem_bound)
  show "attach e a h \<noteq> []" by (simp flip: length_0_conv)
  show "elName (attach e a h ! 0) = ascii ''root''"
    using inv a by (simp add: attach_old conf_inv_def)
  fix b assume b: "b < length (attach e a h)"
  have old: "child_ok (attach e a h) b nc" if "b < length h" "nc \<in> set (elChildren (h ! b))" for nc
  proof -
    obtain n c where nc: "nc = (n, c)" by (cases nc)
    have "findChild h b n = Some c"
      using that inv by (simp add: nc findChild_def conf_inv_def)
    note conf_inv_child [OF inv that(1) this]
    then show ?thesis using a by (simp add: nc child_ok_def attach_old)
  qed
  have upd: "set (AList.update k v al) \<subseteq> insert (k, v) (set al)" for k :: gostring and v :: nat and al
    by (induction al) auto
  show "list_all (child_ok (attach e a h) b) (elChildren (attach e a h ! b))"
  proof (cases "b = length h")
    case True
    then show ?thesis using a e by simp
  next
    case False
    then have "b < length h" using b by simp
    then show ?thesis
      using old a upd [of "elName e" "length h" "elChildren (h ! a)"]
      by (auto simp: list_all_iff attach_old child_ok_def split: if_splits)
  qed
  show "distinct (map fst (elChildren (attach e a h ! b)))"
    using inv a b e by (cases "b = length h") (auto simp: attach_old conf_inv_def distinct_update)
next
  fix q q' c
  assume "getElem (attach e a h) 0 q = Some c" and "getElem (attach e a h) 0 q' = Some c"
  then show "q = q'"
    using conf_inv_paths [OF inv]
    by (auto simp: attach_path [OF assms] split: if_splits dest: getElem_bound [OF inv])
qed

lemma absConf_attach:
  assumes "conf_inv h" and "getElem h 0 p = Some a" and "elChildren e = []"
  shows "absConf (attach e a h) =
     (\<lambda>q. if q = p @ [elName e] then Some (elKind e, elValue e, elLine e)
        else if take (Suc (length p)) q = p @ [elName e] then None else absConf h q)"
proof
  fix q
  have a: "a < length h" using assms(1,2) by (rule getElem_bound)
  show "absConf (attach e a h) q = (if q = p @ [elName e] then Some (elKind e, elValue e, elLine e)
        else if take (Suc (length p)) q = p @ [elName e] then None else absConf h q)"
    using a getElem_bound [OF assms(1), of q]
    by (cases "getElem h 0 q") (simp_all add: absConf_def attach_path [OF assms] attach_old)
qed

lemma attach_leaf:
  "a < length h \<Longrightarrow> (case newElem Leaf k h of (leaf, h) \<Rightarrow> addChild k leaf a (setValue v leaf h)) =
     attach \<lparr>elKind = Leaf, elName = k, elValue = v, elChildren = [], elLine = []\<rparr> a h"
  by (simp add: newElem_def setValue_def addChild_def attach_def nth_append)

lemma attach_node:
  "a < length h \<Longrightarrow> (case newElem Node k h of (node, h) \<Rightarrow> (node, addChild k node a h)) =
     (length h, attach \<lparr>elKind = Node, elName = k, elValue = [], elChildren = [], elLine = []\<rparr> a h)"
  by (simp add: newElem_def addChild_def attach_def nth_append)

lemma confLine_cases:
  "a < length h \<Longrightarrow> confLine a h raw =
     (case lineMeaning raw of
        None \<Rightarrow> h
      | Some (line, None) \<Rightarrow> addLine line a h
      | Some (line, Some (k, v)) \<Rightarrow>
          attach \<lparr>elKind = Leaf, elName = k, elValue = v, elChildren = [], elLine = []\<rparr> a (addLine line a h))"
  using attach_leaf [of a "addLine line a h" for line]
  by (simp add: confLine_def lineMeaning_def Let_def)

section \<open>Refinement\<close>

text \<open>The stack of open elements is the chain of elements along a path.\<close>

fun onPath :: "store \<Rightarrow> nat list \<Rightarrow> gostring list \<Rightarrow> bool" where
  "onPath h [] p \<longleftrightarrow> False"
| "onPath h (cur # st) p \<longleftrightarrow> getElem h 0 p = Some cur \<and> (if p = [] then st = [] else onPath h st (butlast p))"

text \<open>Adding a line, or a child to the element at a path, keeps the elements along that path.\<close>

lemma onPath_keep:
  assumes "\<And>n. getElem h' 0 (take n p) = getElem h 0 (take n p)" and "onPath h st p"
  shows "onPath h' st p"
  using assms
proof (induction st arbitrary: p)
  case Nil
  then show ?case by simp
next
  case (Cons cur st)
  have "getElem h' 0 (take n (butlast p)) = getElem h 0 (take n (butlast p))" for n
    using Cons.prems(1) [of "min n (length p - 1)"] by (simp add: butlast_conv_take min.commute)
  moreover have "getElem h' 0 p = getElem h 0 p"
    using Cons.prems(1) [of "length p"] by simp
  ultimately show ?case
    using Cons.IH [of "butlast p"] Cons.prems(2) by (auto split: if_splits)
qed

lemma attach_prefix:
  assumes "conf_inv h" and "getElem h 0 p = Some a" and "elChildren e = []"
  shows "getElem (attach e a h) 0 (take n p) = getElem h 0 (take n p)"
proof -
  have "length (take n p) < Suc (length p)" by simp
  then have "take n p \<noteq> p @ [elName e]" "take (Suc (length p)) (take n p) \<noteq> p @ [elName e]"
    by (metis length_append_singleton less_irrefl, metis length_append_singleton length_take less_irrefl min.strict_coboundedI2 min.commute)
  then show ?thesis by (simp add: attach_path [OF assms])
qed

lemma confLine_step:
  assumes inv: "conf_inv h" and st: "onPath h (a # st) p"
  shows "conf_inv (confLine a h raw)" "onPath (confLine a h raw) (a # st) p"
    "absConf (confLine a h raw) = specLine p (absConf h) raw"
proof -
  have p: "getElem h 0 p = Some a" using st by simp
  note a = getElem_bound [OF inv p]
  have inv1: "conf_inv (addLine l a h)" for l using inv by (simp add: addLine_same)
  have p1: "getElem (addLine l a h) 0 p = Some a" for l using p by (simp add: addLine_same)
  have st1: "onPath (addLine l a h) (a # st) p" for l
    by (rule onPath_keep [OF _ st]) (simp add: addLine_same)
  note att = conf_inv_attach [OF inv1 p1] onPath_keep [OF attach_prefix [OF inv1 p1] st1]
    absConf_attach [OF inv1 p1] absConf_addLine [OF inv p]
  show "conf_inv (confLine a h raw)"
    using inv inv1 att(1) by (simp add: confLine_cases [OF a] split: option.split)
  show "onPath (confLine a h raw) (a # st) p"
    using st st1 att(2) by (simp add: confLine_cases [OF a] del: onPath.simps split: option.split)
  show "absConf (confLine a h raw) = specLine p (absConf h) raw"
    using att(3,4) by (auto simp: confLine_cases [OF a] specLine_def specKey_def fun_eq_iff split: option.split)
qed

lemma confLines_step:
  assumes "conf_inv h" and "onPath h (a # st) p"
  shows "conf_inv (foldl (confLine a) h ls) \<and> onPath (foldl (confLine a) h ls) (a # st) p
    \<and> absConf (foldl (confLine a) h ls) = foldl (specLine p) (absConf h) ls"
  using assms
proof (induction ls arbitrary: h)
  case (Cons l ls)
  then show ?case
    using Cons.IH [of "confLine a h l"] confLine_step [OF Cons.prems, of l] by (simp del: onPath.simps)
qed simp

lemma openNode_step:
  assumes inv: "conf_inv h" and st: "onPath h (a # st) p"
    and r_def: "r = (case findChild h a n of
      Some node \<Rightarrow> (node, h)
    | None \<Rightarrow> (case newElem Node n h of (node, h) \<Rightarrow> (node, addChild n node a h)))"
  shows "conf_inv (snd r)" "onPath (snd r) (fst r # a # st) (p @ [n])" "absConf (snd r) = specOpen p n (absConf h)"
proof -
  have p: "getElem h 0 p = Some a" using st by simp
  note a = getElem_bound [OF inv p]
  have n: "getElem h 0 (p @ [n]) = findChild h a n" by (simp add: getElem_snoc p)
  define e where "e = \<lparr>elKind = Node, elName = n, elValue = [], elChildren = [], elLine = []\<rparr>"
  have e: "elChildren e = []" "elName e = n" by (simp_all add: e_def)
  have r: "r = (case findChild h a n of Some node \<Rightarrow> (node, h) | None \<Rightarrow> (length h, attach e a h))"
    unfolding r_def attach_node [OF a] e_def ..
  have none: "getElem h 0 q = None" if "findChild h a n = None" and "take (Suc (length p)) q = p @ [n]" for q
  proof -
    have "q = (p @ [n]) @ drop (Suc (length p)) q" using that(2) by (metis append_take_drop_id)
    moreover have "getElem h 0 ((p @ [n]) @ q') = None" for q'
      by (induction q' rule: rev_induct) (use that(1) n in \<open>simp_all add: getElem_snoc flip: append_assoc\<close>)
    ultimately show ?thesis by metis
  qed
  show "conf_inv (snd r)"
    using inv conf_inv_attach [OF inv p e(1)] by (simp add: r split: option.split)
  have "onPath (snd r) (a # st) p"
    using st onPath_keep [OF attach_prefix [OF inv p e(1)] st] by (simp add: r del: onPath.simps split: option.split)
  moreover have "getElem (snd r) 0 (p @ [n]) = Some (fst r)"
    using n attach_path [OF inv p e(1), of "p @ [n]"] e(2) by (simp add: r split: option.split)
  ultimately show "onPath (snd r) (fst r # a # st) (p @ [n])"
    by simp
  show "absConf (snd r) = specOpen p n (absConf h)"
    using absConf_attach [OF inv p e(1)] n none
    by (auto simp: r e(2) specOpen_def fun_eq_iff absConf_def e_def split: option.split)
qed

lemma initLoop_refines:
  assumes "conf_inv h" and "onPath h st p" and "initLoop ts st h = (e, h')"
  shows "conf_inv h' \<and> specLoop ts p (absConf h) = (e, absConf h')"
  using assms
proof (induction ts arbitrary: st p h)
  case Nil
  then show ?case by (cases st) auto
next
  case (Cons t ts)
  obtain a st' where st: "st = a # st'" using Cons.prems(2) by (cases st) auto
  have p: "getElem h 0 p = Some a" using Cons.prems(2) st by simp
  show ?case
  proof (cases t)
    case (CharData d)
    then show ?thesis
      using Cons.IH [of "foldl (confLine a) h (scanLines d)" st p] Cons.prems st
        confLines_step [of h a st' p "scanLines d"] by (simp del: onPath.simps)
  next
    case (StartElement n)
    note step = openNode_step [OF Cons.prems(1), of a st' p, OF _ refl, of n]
    show ?thesis
    proof (cases "findChild h a n")
      case None
      then show ?thesis
        using StartElement Cons.IH [of "addChild n (length h) a (snd (newElem Node n h))" "length h # st" "p @ [n]"] Cons.prems st step
        by (simp add: newElem_def del: onPath.simps)
    next
      case (Some node)
      then show ?thesis
        using StartElement Cons.IH [of h "node # st" "p @ [n]"] Cons.prems st step by (simp del: onPath.simps)
    qed
  next
    case (EndElement n)
    show ?thesis
    proof (cases "p = []")
      case True
      then show ?thesis using EndElement Cons.prems st elName_path [OF Cons.prems(1) p] by (auto split: if_splits)
    next
      case False
      then show ?thesis
        using EndElement Cons.IH [of h st' "butlast p"] Cons.prems st elName_path [OF Cons.prems(1) p]
        by (auto split: if_splits)
    qed
  next
    case OtherToken
    then show ?thesis using Cons.IH [of h st p] Cons.prems st by simp
  qed
qed

end
