(* ===== verification/Conf_Documents.thy ===== *)
theory Conf_Documents
  imports Conf_Parser
begin

text \<open>
  What the lookups of \<^verbatim>\<open>tars/util/conf\<close> return: they read the map from paths that \<open>Conf_Parser\<close>
  defines, a document that is written from a tree of keys and domains is read back, and the printing of a
  configuration ends.
\<close>

section \<open>Lookups on the map\<close>

text \<open>The order of a loop over a map is any permutation of its entries.\<close>

definition permutes :: "childOrder \<Rightarrow> bool" where
  "permutes ord \<longleftrightarrow> (\<forall>xs. set (ord xs) = set xs \<and> distinct (map fst (ord xs)) = distinct (map fst xs))"

lemma getValue_abs: "getValue h 0 path = map_option (\<lambda>(kind, v, ls). v) (absConf h (analysisPath path))"
  by (cases "getElem h 0 (analysisPath path)") (simp_all add: getValue_def absConf_def)

lemma getDomainLine_abs:
  "getDomainLine h 0 path = map_option (\<lambda>(kind, v, ls). ls) (absConf h (analysisPath path))"
  by (cases "getElem h 0 (analysisPath path)") (simp_all add: getDomainLine_def absConf_def)

lemma absConf_child:
  assumes "conf_inv h" and "getElem h 0 p = Some a"
  shows "absConf h (p @ [n]) = Some (kind, v, ls) \<longleftrightarrow>
    (\<exists>c. (n, c) \<in> set (elChildren (h ! a)) \<and> elKind (h ! c) = kind \<and> elValue (h ! c) = v \<and> elLine (h ! c) = ls)"
proof -
  have "distinct (map fst (elChildren (h ! a)))"
    using assms getElem_bound [OF assms] by (simp add: conf_inv_def)
  then have "map_of (elChildren (h ! a)) n = Some c \<longleftrightarrow> (n, c) \<in> set (elChildren (h ! a))" for c
    by simp
  then show ?thesis
    by (auto simp: absConf_def getElem_snoc assms(2) findChild_def simp del: map_of_eq_Some_iff)
qed

lemma child_name:
  assumes "conf_inv h" and "getElem h 0 p = Some a" and "(n, c) \<in> set (elChildren (h ! a))"
  shows "elName (h ! c) = n"
  using assms getElem_bound [OF assms(1,2)] by (fastforce simp: conf_inv_def list_all_iff child_ok_def)

lemma absConf_below:
  assumes "getElem h 0 p = None"
  shows "absConf h (p @ q) = None"
proof -
  have "getElem h 0 (p @ q) = None"
    by (induction q rule: rev_induct) (use assms in \<open>simp_all add: getElem_snoc flip: append_assoc\<close>)
  then show ?thesis by (simp add: absConf_def)
qed

lemma GetDomain_abs:
  assumes "conf_inv (cfStore c)" and "permutes ord"
  shows "set (GetDomain ord c path) = {n. \<exists>v ls. absConf (cfStore c) (analysisPath path @ [n]) = Some (Node, v, ls)}"
    and "distinct (GetDomain ord c path)"
proof -
  let ?h = "cfStore c" and ?p = "analysisPath path"
  have "set (GetDomain ord c path) = {n. \<exists>v ls. absConf ?h (?p @ [n]) = Some (Node, v, ls)}
      \<and> distinct (GetDomain ord c path)"
  proof (cases "getElem ?h 0 ?p")
    case None
    then show ?thesis by (simp add: GetDomain_def getDomain_def absConf_below)
  next
    case (Some a)
    let ?cs = "ord (elChildren (?h ! a))"
    have s: "set ?cs = set (elChildren (?h ! a))" using assms(2) by (simp add: permutes_def)
    have d: "distinct (map fst ?cs)"
      using assms getElem_bound [OF assms(1) Some] by (simp add: permutes_def conf_inv_def)
    have "map elName (filter isNode (map (\<lambda>(k, c). ?h ! c) ?cs)) = map fst (filter (\<lambda>(k, c). isNode (?h ! c)) ?cs)"
      using s child_name [OF assms(1) Some]
      by (auto simp: filter_map comp_def split_def intro!: map_cong)
    then have g: "GetDomain ord c path = map fst (filter (\<lambda>(k, c). isNode (?h ! c)) ?cs)"
      by (simp add: GetDomain_def getDomain_def Some)
    have "set (map fst (filter (\<lambda>(k, c). isNode (?h ! c)) ?cs)) = {n. \<exists>v ls. absConf ?h (?p @ [n]) = Some (Node, v, ls)}"
      unfolding absConf_child [OF assms(1) Some] using s by (force simp: isNode_def)
    moreover have "distinct (map fst (filter (\<lambda>(k, c). isNode (?h ! c)) ?cs))"
      using d by (simp add: distinct_map_filter)
    ultimately show ?thesis by (simp add: g)
  qed
  then show "set (GetDomain ord c path) = {n. \<exists>v ls. absConf ?h (?p @ [n]) = Some (Node, v, ls)}"
    and "distinct (GetDomain ord c path)" by simp_all
qed

text \<open>Updates with distinct keys, one after the other.\<close>

lemma map_of_updates:
  "distinct (map fst kvs) \<Longrightarrow>
     map_of (foldl (\<lambda>al (k, v). AList.update k v al) al kvs) x =
     (case map_of kvs x of None \<Rightarrow> map_of al x | Some v \<Rightarrow> Some v)"
proof (induction kvs arbitrary: al)
  case (Cons kv kvs)
  have "map_of kvs (fst kv) = None" using Cons.prems by (simp add: map_of_eq_None_iff)
  with Cons show ?case by (cases kv) (auto simp: update_conv simp del: map_of_eq_Some_iff split: option.split)
qed simp

lemma GetMap_abs:
  assumes "conf_inv (cfStore c)" and "permutes ord"
  shows "map_of (GetMap ord c path) k = Some v \<longleftrightarrow>
    (\<exists>ls. absConf (cfStore c) (analysisPath path @ [k]) = Some (Leaf, v, ls))"
proof (cases "getElem (cfStore c) 0 (analysisPath path)")
  case None
  then show ?thesis by (simp add: GetMap_def getMap_def absConf_below)
next
  case (Some a)
  let ?h = "cfStore c"
  let ?cs = "ord (elChildren (?h ! a))"
  have s: "set ?cs = set (elChildren (?h ! a))" using assms(2) by (simp add: permutes_def)
  have d: "distinct (map fst ?cs)"
    using assms getElem_bound [OF assms(1) Some] by (simp add: permutes_def conf_inv_def)
  define kvs where "kvs = map (\<lambda>(k, c). (k, elValue (?h ! c))) (filter (\<lambda>(k, c). isLeaf (?h ! c)) ?cs)"
  have dk: "distinct (map fst kvs)"
    using d by (simp add: kvs_def comp_def split_def distinct_map_filter)
  have "foldl (\<lambda>kv child. AList.update (elName child) (elValue child) kv) al
      (filter isLeaf (map (\<lambda>(k, c). ?h ! c) cs)) =
      foldl (\<lambda>al (k, v). AList.update k v al) al
        (map (\<lambda>(k, c). (k, elValue (?h ! c))) (filter (\<lambda>(k, c). isLeaf (?h ! c)) cs))"
    if "set cs \<subseteq> set (elChildren (?h ! a))" for cs al
    using that by (induction cs arbitrary: al) (auto simp: child_name [OF assms(1) Some])
  then have "GetMap ord c path = foldl (\<lambda>al (k, v). AList.update k v al) [] kvs"
    using s by (simp add: GetMap_def getMap_def Some kvs_def)
  then have "map_of (GetMap ord c path) k = map_of kvs k"
    using map_of_updates [OF dk, of "[]" k] by (cases "map_of kvs k") simp_all
  then have "map_of (GetMap ord c path) k = Some v \<longleftrightarrow> (k, v) \<in> set kvs"
    using dk by simp
  also have "\<dots> \<longleftrightarrow> (\<exists>ls. absConf ?h (analysisPath path @ [k]) = Some (Leaf, v, ls))"
    unfolding absConf_child [OF assms(1) Some] using s by (force simp: kvs_def isLeaf_def)
  finally show ?thesis .
qed

section \<open>Reading a document\<close>

definition emptySpec :: confSpec where
  "emptySpec = [[] \<mapsto> (Node, [], [])]"

lemma conf_New_inv: "conf_inv (cfStore conf_New)"
  and absConf_New: "absConf (cfStore conf_New) = emptySpec"
proof -
  have g: "getElem (cfStore conf_New) 0 q = (if q = [] then Some 0 else None)" for q
    by (cases q) (simp_all add: conf_New_def newElem_def findChild_def)
  then show "conf_inv (cfStore conf_New)"
    by (simp add: conf_inv_def) (auto simp: conf_New_def newElem_def)
  show "absConf (cfStore conf_New) = emptySpec"
    by (rule ext) (simp add: absConf_def g emptySpec_def, simp add: conf_New_def newElem_def)
qed

lemma InitFromBytes_refines:
  assumes "conf_inv (cfStore c)" and "InitFromBytes decode content c = (e, c')"
  shows "conf_inv (cfStore c')" "specLoop (decode content) [] (absConf (cfStore c)) = (e, absConf (cfStore c'))"
  using initLoop_refines [of "cfStore c" "[0]" "[]" "decode content" e "cfStore c'"] assms
  by (auto simp: InitFromBytes_def split: prod.splits)

lemma InitFromBytes_New:
  assumes "InitFromBytes decode content conf_New = (e, c)"
  shows "conf_inv (cfStore c)" "specLoop (decode content) [] emptySpec = (e, absConf (cfStore c))"
  using InitFromBytes_refines [OF conf_New_inv assms] by (simp_all add: absConf_New)

section \<open>Documents written from a tree\<close>

text \<open>A tree of keys and domains, the document that says it, and what each path of it leads to. 61 is the
  equals sign and 10 the line feed.\<close>

datatype cfg = Cfg (cfKeys: "(gostring \<times> gostring) list") (cfDomains: "(gostring \<times> cfg) list")

definition keyLine :: "gostring \<times> gostring \<Rightarrow> gostring" where
  "keyLine kv = fst kv @ 61 # snd kv"

fun cfgTokens :: "cfg \<Rightarrow> xmlToken list" where
  "cfgTokens (Cfg ks ds) =
     CharData (concat (map (\<lambda>kv. keyLine kv @ [10]) ks))
     # concat (map (\<lambda>(n, c). StartElement n # cfgTokens c @ [EndElement n]) ds)"

fun cfgInfo :: "cfg \<Rightarrow> confSpec" where
  "cfgInfo (Cfg ks ds) [] = Some (Node, [], map keyLine ks)"
| "cfgInfo (Cfg ks ds) (n # q) =
     (case map_of ks n of
        Some v \<Rightarrow> if q = [] then Some (Leaf, v, []) else None
      | None \<Rightarrow> (case map_of ds n of None \<Rightarrow> None | Some c \<Rightarrow> cfgInfo c q))"

text \<open>What can be written: keys and values that trimming keeps, in lines that fit the buffer, distinct names.\<close>

definition trimmed :: "gostring \<Rightarrow> bool" where
  "trimmed s \<longleftrightarrow> s = [] \<or> hd s \<notin> whiteSpaceChars \<and> last s \<notin> whiteSpaceChars"

definition okLine :: "gostring \<times> gostring \<Rightarrow> bool" where
  "okLine kv \<longleftrightarrow> fst kv \<noteq> [] \<and> trimmed (fst kv) \<and> hd (fst kv) \<noteq> 35 \<and> 61 \<notin> set (fst kv) \<and> 10 \<notin> set (fst kv)
     \<and> trimmed (snd kv) \<and> 10 \<notin> set (snd kv) \<and> (snd kv \<noteq> [] \<longrightarrow> last (snd kv) \<noteq> 13)
     \<and> length (keyLine kv) < maxTokenSize"

fun okCfg :: "cfg \<Rightarrow> bool" where
  "okCfg (Cfg ks ds) \<longleftrightarrow> list_all okLine ks \<and> distinct (map fst ks @ map fst ds) \<and> list_all (\<lambda>(n, c). okCfg c) ds"

lemma Trim_trimmed: "trimmed s \<Longrightarrow> strings_Trim s whiteSpaceChars = s"
proof (cases "s = []")
  case False
  moreover assume "trimmed s"
  ultimately have "hd s \<notin> whiteSpaceChars" "hd (rev s) \<notin> whiteSpaceChars"
    by (simp_all add: trimmed_def hd_rev)
  then have "dropWhile (\<lambda>c. c \<in> whiteSpaceChars) s = s" "dropWhile (\<lambda>c. c \<in> whiteSpaceChars) (rev s) = rev s"
    by (simp_all add: dropWhile_eq_self_iff)
  then show ?thesis by (simp add: strings_Trim_def)
qed (simp add: strings_Trim_def)

lemma keyLine_meaning:
  assumes "okLine (k, v)"
  shows "lineMeaning (keyLine (k, v)) = Some (keyLine (k, v), Some (k, v))"
proof -
  have "trimmed (keyLine (k, v))"
    using assms by (auto simp: okLine_def trimmed_def keyLine_def whiteSpaceChars_def)
  then have "strings_Trim (keyLine (k, v)) whiteSpaceChars = keyLine (k, v)" by (rule Trim_trimmed)
  moreover have "strings_SplitN2 (keyLine (k, v)) 61 = [k, v]"
    using assms by (simp add: strings_SplitN2_def keyLine_def strings_Index_append okLine_def)
  moreover have "hd (keyLine (k, v)) \<noteq> 35" "keyLine (k, v) \<noteq> []" "k \<noteq> []"
    using assms by (simp_all add: okLine_def keyLine_def)
  ultimately show ?thesis
    using assms by (simp add: lineMeaning_def Let_def Trim_trimmed okLine_def)
qed

lemma line_no_LF: "okLine kv \<Longrightarrow> 10 \<notin> set (keyLine kv)"
  by (auto simp: okLine_def keyLine_def)

lemma scanLines_keys:
  assumes "list_all okLine ks"
  shows "scanLines (concat (map (\<lambda>kv. keyLine kv @ [10]) ks)) = map keyLine ks"
proof -
  have "strings_Split (concat (map (\<lambda>kv. keyLine kv @ [10]) ks)) 10 = map keyLine ks @ [[]]"
    using assms by (induction ks) (auto simp: strings_Split_append line_no_LF)
  then have "rawLines (concat (map (\<lambda>kv. keyLine kv @ [10]) ks)) = map keyLine ks"
    by (simp add: rawLines_def)
  moreover have "dropCR (keyLine kv) = keyLine kv" "length (keyLine kv) < maxTokenSize" if "kv \<in> set ks" for kv
    using that assms by (auto simp: list_all_iff okLine_def dropCR_def keyLine_def)
  moreover have tw: "takeWhile (\<lambda>l. length l < maxTokenSize) (map keyLine ks) = map keyLine ks"
    using assms by (auto simp: list_all_iff okLine_def)
  ultimately show ?thesis
    by (simp add: scanLines_def tw)
qed

text \<open>A map put in place of everything at and below a path.\<close>

definition graft :: "gostring list \<Rightarrow> confSpec \<Rightarrow> confSpec \<Rightarrow> confSpec" where
  "graft p f m = (\<lambda>q. if take (length p) q = p then f (drop (length p) q) else m q)"

lemma graft_self [simp]: "graft p f m (p @ q) = f q"
  by (simp add: graft_def)

lemma graft_outside: "take (length p) q \<noteq> p \<Longrightarrow> graft p f m q = m q"
  by (simp add: graft_def)

lemma below_cases:
  obtains (inside) r where "q = p @ r" | (outside) "take (length p) q \<noteq> p"
  by (metis append_take_drop_id)

lemma graft_eqI:
  assumes "\<And>r. m' (p @ r) = f r" and "\<And>q. take (length p) q \<noteq> p \<Longrightarrow> m' q = m q"
  shows "m' = graft p f m"
proof
  fix q
  show "m' q = graft p f m q"
    by (cases rule: below_cases [of q p]) (simp_all add: assms graft_outside)
qed

lemma take_shorter: "take (Suc (length p)) q = p @ [n] \<Longrightarrow> take (length p) q = p"
  by (metis append_eq_conv_conj min.absorb1 n_not_Suc_n nat_le_linear not_less_eq_eq take_take)

lemma spec_keys:
  assumes "list_all okLine (ks0 @ ks)" and "distinct (map fst (ks0 @ ks))"
  shows "foldl (specLine p) (graft p (cfgInfo (Cfg ks0 [])) m) (map keyLine ks) = graft p (cfgInfo (Cfg (ks0 @ ks) [])) m"
  using assms
proof (induction ks arbitrary: ks0)
  case (Cons kv ks)
  obtain k v where kv: "kv = (k, v)" by (cases kv)
  have new: "map_of ks0 k = None" using Cons.prems(2) by (auto simp: kv map_of_eq_None_iff)
  have "specLine p (graft p (cfgInfo (Cfg ks0 [])) m) (keyLine kv) = graft p (cfgInfo (Cfg (ks0 @ [kv]) [])) m"
  proof (rule graft_eqI)
    fix r
    show "specLine p (graft p (cfgInfo (Cfg ks0 [])) m) (keyLine kv) (p @ r) = cfgInfo (Cfg (ks0 @ [kv]) []) r"
      using Cons.prems(1) new
      by (cases r) (auto simp: specLine_def keyLine_meaning kv specKey_def specLines_def graft_def map_add_def
          split: option.split)
  next
    fix q assume "take (length p) q \<noteq> p"
    then show "specLine p (graft p (cfgInfo (Cfg ks0 [])) m) (keyLine kv) q = m q"
      using Cons.prems(1) take_shorter [of p q]
      by (auto simp: specLine_def keyLine_meaning kv specKey_def specLines_def graft_outside)
  qed
  then show ?case
    using Cons.IH [of "ks0 @ [kv]"] Cons.prems by simp
qed simp

lemma cfgInfo_other: "n \<notin> fst ` set ds \<Longrightarrow> cfgInfo (Cfg ks (ds @ [(n, c)])) (n' # q) =
    (if n' = n \<and> map_of ks n = None then cfgInfo c q else cfgInfo (Cfg ks ds) (n' # q))"
proof (cases "n' = n")
  case True
  moreover assume "n \<notin> fst ` set ds"
  then have "map_of ds n = None" by (simp add: map_of_eq_None_iff)
  ultimately show ?thesis by (simp add: map_add_def split: option.split)
qed (simp add: map_add_def split: option.split)

lemma graft_domain:
  assumes "n \<notin> fst ` set ds" and "map_of ks n = None"
  shows "graft (p @ [n]) (cfgInfo c) (specOpen p n (graft p (cfgInfo (Cfg ks ds)) m)) =
     graft p (cfgInfo (Cfg ks (ds @ [(n, c)]))) m"
proof (rule graft_eqI)
  fix r
  show "graft (p @ [n]) (cfgInfo c) (specOpen p n (graft p (cfgInfo (Cfg ks ds)) m)) (p @ r) =
      cfgInfo (Cfg ks (ds @ [(n, c)])) r"
    using assms cfgInfo_other [of n ds]
    by (cases r) (auto simp: graft_def specOpen_def)
next
  fix q assume q: "take (length p) q \<noteq> p"
  then have "take (Suc (length p)) q \<noteq> p @ [n]" by (blast dest: take_shorter)
  moreover have "q \<noteq> p @ [n]" using q by auto
  ultimately show "graft (p @ [n]) (cfgInfo c) (specOpen p n (graft p (cfgInfo (Cfg ks ds)) m)) q = m q"
    using q by (simp add: graft_outside specOpen_def)
qed

text \<open>The tokens of a tree, read at a path that is an empty domain.\<close>

definition reads_cfg :: "cfg \<Rightarrow> bool" where
  "reads_cfg c \<longleftrightarrow> (\<forall>p m ts. m p = Some (Node, [], []) \<longrightarrow> (\<forall>r. r \<noteq> [] \<longrightarrow> m (p @ r) = None) \<longrightarrow>
     specLoop (cfgTokens c @ ts) p m = specLoop ts p (graft p (cfgInfo c) m))"

lemma spec_domains:
  assumes "\<forall>d \<in> set ds. reads_cfg (snd d)"
    and "distinct (map fst ks @ map fst (ds0 @ ds))"
  shows "specLoop (concat (map (\<lambda>(n, c). StartElement n # cfgTokens c @ [EndElement n]) ds) @ ts) p
       (graft p (cfgInfo (Cfg ks ds0)) m) = specLoop ts p (graft p (cfgInfo (Cfg ks (ds0 @ ds))) m)"
  using assms
proof (induction ds arbitrary: ds0)
  case (Cons d ds)
  obtain n c where d: "d = (n, c)" by (cases d)
  let ?m = "graft p (cfgInfo (Cfg ks ds0)) m"
  have n: "n \<notin> fst ` set ds0" "map_of ks n = None" "map_of ds0 n = None"
    using Cons.prems(2) by (auto simp: d map_of_eq_None_iff image_iff)
  have "?m ((p @ [n]) @ r) = None" for r
    using n graft_self [of p _ m "n # r"] by simp
  then have "specOpen p n ?m (p @ [n]) = Some (Node, [], [])"
    and "\<And>r. r \<noteq> [] \<Longrightarrow> specOpen p n ?m ((p @ [n]) @ r) = None"
    by (simp_all add: specOpen_def)
  then have "specLoop (cfgTokens c @ EndElement n # us) (p @ [n]) (specOpen p n ?m) =
      specLoop us p (graft p (cfgInfo (Cfg ks (ds0 @ [(n, c)]))) m)" for us
    using Cons.prems(1) by (simp add: d reads_cfg_def graft_domain [OF n(1,2)])
  then show ?case
    using Cons.IH [of "ds0 @ [(n, c)]"] Cons.prems by (simp add: d)
qed simp

lemma specLoop_cfg: "okCfg c \<Longrightarrow> reads_cfg c"
proof (induction c)
  case (Cfg ks ds)
  have ds: "\<forall>d \<in> set ds. reads_cfg (snd d)"
    using Cfg by (auto simp: list_all_iff)
  have e: "cfgInfo (Cfg [] []) r = (if r = [] then Some (Node, [], []) else None)" for r by (cases r) simp_all
  show ?case
    unfolding reads_cfg_def
  proof (intro allI impI)
    fix p :: "gostring list" and m :: confSpec and ts
    assume "m p = Some (Node, [], [])" and "\<forall>r. r \<noteq> [] \<longrightarrow> m (p @ r) = None"
    then have "m = graft p (cfgInfo (Cfg [] [])) m"
      by (intro graft_eqI) (simp_all add: e)
    then have "foldl (specLine p) m (map keyLine ks) = graft p (cfgInfo (Cfg ks [])) m"
      using spec_keys [of "[]" ks p m] Cfg.prems(1) by simp
    then show "specLoop (cfgTokens (Cfg ks ds) @ ts) p m = specLoop ts p (graft p (cfgInfo (Cfg ks ds)) m)"
      using spec_domains [OF ds, of ks "[]" ts p m] Cfg.prems(1) by (simp add: scanLines_keys)
  qed
qed

lemma document_map:
  assumes "okCfg t" and "decode content = cfgTokens t"
  shows "InitFromBytes decode content conf_New = (e, c) \<Longrightarrow> e = ConfOk \<and> conf_inv (cfStore c) \<and> absConf (cfStore c) = cfgInfo t"
proof -
  assume i: "InitFromBytes decode content conf_New = (e, c)"
  have "graft [] (cfgInfo t) emptySpec = cfgInfo t" by (rule ext) (simp add: graft_def)
  moreover have "specLoop (cfgTokens t @ []) [] emptySpec = specLoop [] [] (graft [] (cfgInfo t) emptySpec)"
    using specLoop_cfg [OF assms(1), unfolded reads_cfg_def, rule_format, of emptySpec "[]" "[]"]
    by (simp add: emptySpec_def)
  ultimately show ?thesis
    using InitFromBytes_New [OF i] assms(2) by simp
qed

section \<open>Paths\<close>

text \<open>The texts of paths: \<^verbatim>\<open>/A/B\<close> for a domain and \<^verbatim>\<open>/A/B<key>\<close> for a key.\<close>

definition domPath :: "gostring list \<Rightarrow> gostring" where
  "domPath p = concat (map (\<lambda>n. 47 # n) p)"

definition keyPath :: "gostring list \<Rightarrow> gostring \<Rightarrow> gostring" where
  "keyPath p k = domPath p @ 60 # k @ [62]"

definition okName :: "gostring \<Rightarrow> bool" where
  "okName n \<longleftrightarrow> n \<noteq> [] \<and> 47 \<notin> set n \<and> 60 \<notin> set n \<and> 62 \<notin> set n"

lemma Split_path:
  "47 \<notin> set a \<Longrightarrow> list_all okName p \<Longrightarrow> 47 \<notin> set s \<Longrightarrow>
     strings_Split (a @ domPath p @ s) 47 = (if p = [] then [a @ s] else a # butlast p @ [last p @ s])"
proof (induction p arbitrary: a)
  case Nil
  then show ?case by (simp add: domPath_def strings_Split_single)
next
  case (Cons n p)
  then have "47 \<notin> set n" by (simp add: okName_def)
  with Cons show ?case by (simp add: domPath_def strings_Split_append)
qed

lemma Trim_bracket: "62 \<notin> set k \<Longrightarrow> strings_Trim (k @ [62]) {62} = k"
proof -
  assume k: "62 \<notin> set k"
  have "rev (dropWhile (\<lambda>c. c = 62) (rev k)) = k"
    using k by (metis dropWhile_eq_self_iff hd_in_set rev_rev_ident set_rev)
  moreover have "dropWhile (\<lambda>c. c = 62) (k @ [62]) = (if k = [] then [] else k @ [62])"
    using k by (cases k) auto
  ultimately show ?thesis by (simp add: strings_Trim_def)
qed

lemma filter_names: "list_all okName p \<Longrightarrow> filter (\<lambda>item. item \<noteq> []) p = p"
  by (induction p) (auto simp: okName_def)

lemma analysisPath_dom: "list_all okName p \<Longrightarrow> analysisPath (domPath p) = p"
proof (cases p rule: rev_cases)
  case Nil
  then show ?thesis by (simp add: analysisPath_def domPath_def)
next
  case (snoc p' n)
  assume ok: "list_all okName p"
  have "strings_Split (domPath p) 47 = [] # p' @ [n]"
    using Split_path [of "[]" p "[]"] ok snoc by simp
  moreover have "strings_Split n 60 = [n]"
    using ok snoc by (simp add: okName_def strings_Split_single)
  ultimately show ?thesis
    using ok filter_names [of p] snoc by (simp add: analysisPath_def butlast_append)
qed

lemma analysisPath_key: "list_all okName p \<Longrightarrow> okName k \<Longrightarrow> analysisPath (keyPath p k) = p @ [k]"
proof -
  assume ok: "list_all okName p" and k: "okName k"
  let ?s = "60 # k @ [62]"
  have s: "strings_Split (n @ ?s) 60 = [n, k @ [62]]" if "60 \<notin> set n" for n
    using that k by (simp add: okName_def strings_Split_append strings_Split_single)
  have "strings_Split (keyPath p k) 47 = (if p = [] then [?s] else [] # butlast p @ [last p @ ?s])"
    using Split_path [of "[]" p ?s] ok k by (simp add: keyPath_def okName_def)
  moreover have "p \<noteq> [] \<Longrightarrow> okName (last p) \<and> list_all okName (butlast p)"
    using ok by (auto simp: list_all_iff dest: in_set_butlastD)
  moreover have "k \<noteq> []" "62 \<notin> set k" using k by (simp_all add: okName_def)
  ultimately show ?thesis
    using s [of "last p"] s [of "[]"] filter_names [of "butlast p"] Trim_bracket [of k]
    by (auto simp: analysisPath_def Let_def butlast_append okName_def)
qed

section \<open>What a configuration returns\<close>

fun cfgDomain :: "cfg \<Rightarrow> gostring list \<Rightarrow> cfg option" where
  "cfgDomain t [] = Some t"
| "cfgDomain t (n # p) = Option.bind (map_of (cfDomains t) n) (\<lambda>c. cfgDomain c p)"

lemma cfgInfo_domain:
  "okCfg t \<Longrightarrow> cfgDomain t p = Some t' \<Longrightarrow> cfgInfo t (p @ q) = cfgInfo t' q \<and> okCfg t'"
proof (induction p arbitrary: t)
  case (Cons n p)
  obtain ks ds where t: "t = Cfg ks ds" by (cases t)
  obtain c where c: "map_of ds n = Some c" "cfgDomain c p = Some t'"
    using Cons.prems(2) by (auto simp: t bind_eq_Some_conv)
  from c(1) have "(n, c) \<in> set ds" by (rule map_of_SomeD)
  then have "map_of ks n = None" "okCfg c"
    using Cons.prems(1) by (force simp: t map_of_eq_None_iff list_all_iff)+
  then show ?case using Cons.IH [OF _ c(2)] c by (simp add: t)
qed simp

lemma cfgInfo_nodes:
  assumes "okCfg (Cfg ks ds)"
  shows "(\<exists>v ls. cfgInfo (Cfg ks ds) [n] = Some (Node, v, ls)) \<longleftrightarrow> n \<in> fst ` set ds"
proof -
  have "\<exists>v ls. cfgInfo c [] = Some (Node, v, ls)" for c by (cases c) simp
  moreover have "map_of ks n = None" if "n \<in> fst ` set ds"
    using assms that by (auto simp: map_of_eq_None_iff)
  moreover have "map_of ds n = None \<longleftrightarrow> n \<notin> fst ` set ds" by (rule map_of_eq_None_iff)
  ultimately show ?thesis
    by (cases "n \<in> fst ` set ds"; cases "map_of ds n") (simp_all split: option.split)
qed

lemma toString_returns:
  assumes "conf_inv h" and "permutes ord" and "a < length h" and "length h - a \<le> depth"
  shows "\<exists>s. toString depth ord h a n = Some s"
  using assms(3,4)
proof (induction depth arbitrary: a n)
  case (Suc depth)
  have cs: "a < c \<and> c < length h" if "(k, c) \<in> set (ord (elChildren (h ! a)))" for k c
    using that assms(1,2) Suc.prems(1) by (fastforce simp: permutes_def conf_inv_def list_all_iff child_ok_def)
  then have ih: "\<exists>s. toString depth ord h c (Suc n) = Some s" if "(k, c) \<in> set (ord (elChildren (h ! a)))" for k c
    using that Suc.IH [of c] Suc.prems by fastforce
  have "\<exists>s. foldl (\<lambda>ret (k, c). Option.bind ret (\<lambda>r. map_option (\<lambda>s. r @ s) (toString depth ord h c (Suc n))))
      (Some r) cs = Some s" if "set cs \<subseteq> set (ord (elChildren (h ! a)))" for cs r
    using that by (induction cs arbitrary: r) (auto dest: ih)
  then show ?case by auto
qed simp

text \<open>A small document for the witnesses: one domain \<^verbatim>\<open>a\<close> with a key \<^verbatim>\<open>k\<close>.\<close>

definition demo_cfg :: cfg where
  "demo_cfg = Cfg [] [(ascii ''a'', Cfg [(ascii ''k'', ascii ''v'')] [])]"

lemma demo_cfg_ok: "okCfg demo_cfg" "cfgDomain demo_cfg [ascii ''a''] = Some (Cfg [(ascii ''k'', ascii ''v'')] [])"
  by (simp_all add: demo_cfg_def ascii_def okLine_def trimmed_def keyLine_def whiteSpaceChars_def maxTokenSize_def)

lemma permutes_id: "permutes (\<lambda>cs. cs)"
  by (simp add: permutes_def)

text \<open>C12: the tree of elements with its pointers and its stack implements the map from paths. After reading
  any stream of tokens, whatever its nesting, the end of the parse is the one the map gives (an unmatched end
  is an error, one at the root a panic), and all lookups return what the map holds: values and lines of the element
  at a path, the keys of a domain with their values, and its sub-domains, each once.\<close>

theorem configuration_is_path_map:
  assumes "InitFromBytes decode content conf_New = (e, c)" and "permutes ord"
  shows "\<exists>m. specLoop (decode content) [] emptySpec = (e, m)
     \<and> GetStringWithDef c path d = (case m (analysisPath path) of None \<Rightarrow> d | Some (kind, v, ls) \<Rightarrow> v)
     \<and> GetDomainLine c path = (case m (analysisPath path) of None \<Rightarrow> [] | Some (kind, v, ls) \<Rightarrow> ls)
     \<and> (\<forall>k v. map_of (GetMap ord c path) k = Some v \<longleftrightarrow> (\<exists>ls. m (analysisPath path @ [k]) = Some (Leaf, v, ls)))
     \<and> set (GetDomain ord c path) = {n. \<exists>v ls. m (analysisPath path @ [n]) = Some (Node, v, ls)}
     \<and> distinct (GetDomain ord c path)"
proof -
  note inv = InitFromBytes_New [OF assms(1)]
  have "GetStringWithDef c path d =
      (case absConf (cfStore c) (analysisPath path) of None \<Rightarrow> d | Some (kind, v, ls) \<Rightarrow> v)"
    by (simp add: GetStringWithDef_def getValue_abs split: option.split)
  moreover have "GetDomainLine c path =
      (case absConf (cfStore c) (analysisPath path) of None \<Rightarrow> [] | Some (kind, v, ls) \<Rightarrow> ls)"
    by (simp add: GetDomainLine_def getDomainLine_abs split: option.split)
  ultimately show ?thesis
    using inv(2) GetMap_abs [OF inv(1) assms(2)] GetDomain_abs [OF inv(1) assms(2), of path] by blast
qed

theorem configuration_is_path_map_witness:
  "\<exists>m. specLoop [StartElement [97], CharData [107, 61, 118], EndElement [97]] [] emptySpec = (ConfOk, m)"
proof -
  let ?ts = "[StartElement [97], CharData [107, 61, 118], EndElement [97]] :: xmlToken list"
  obtain c where "InitFromBytes (\<lambda>_. ?ts) [] conf_New = (ConfOk, c)"
    by (simp add: InitFromBytes_def conf_New_def newElem_def findChild_def confLine_def Let_def scanLines_def
        rawLines_def maxTokenSize_def strings_Trim_def strings_SplitN2_def whiteSpaceChars_def addLine_def setValue_def
        addChild_def dropCR_def)
  from configuration_is_path_map [OF this permutes_id] show ?thesis by blast
qed



end
