(* ===== verification/Tls_Config.thy ===== *)
theory Tls_Config
  imports Codec_Write
begin

text \<open>
  \<^verbatim>\<open>tars/util/ssl/ssl.go\<close>: the TLS configurations of servers and clients. Files and the packages
  \<^verbatim>\<open>crypto/tls\<close>, \<^verbatim>\<open>crypto/x509\<close> and \<^verbatim>\<open>encoding/pem\<close> are the fields of \<open>crypto\<close>; certificates and pools are
  what these packages make of the files. An error is its text.
\<close>

record ('pool, 'cert, 'block) crypto =
  crReadFile :: "gostring \<Rightarrow> gostring + bytes"
  crCertPool :: "bytes \<Rightarrow> 'pool"
  crLoadKeyPair :: "gostring \<Rightarrow> gostring \<Rightarrow> gostring + 'cert"
  crKeyPair :: "bytes \<Rightarrow> bytes \<Rightarrow> gostring + 'cert"
  crPemDecode :: "bytes \<Rightarrow> 'block option"
  crIsEncrypted :: "'block \<Rightarrow> bool"
  crDecrypt :: "'block \<Rightarrow> bytes \<Rightarrow> gostring + bytes"
  crPemEncode :: "'block \<Rightarrow> bytes \<Rightarrow> bytes"

record ('pool, 'cert) tlsConfig =
  tlClientCAs :: "'pool option"
  tlRootCAs :: "'pool option"
  tlCertificates :: "'cert list"
  tlVerifyClient :: bool
  tlInsecureSkipVerify :: bool

definition zero_tlsConfig :: "('pool, 'cert) tlsConfig" where
  "zero_tlsConfig = \<lparr>tlClientCAs = None, tlRootCAs = None, tlCertificates = [], tlVerifyClient = False,
     tlInsecureSkipVerify = False\<rparr>"

text \<open>Results: a panic, the text of an error, or a value.\<close>

type_synonym 'a tlsResult = "gerr + gostring + 'a"

definition tlsThen :: "'a tlsResult \<Rightarrow> ('a \<Rightarrow> 'b tlsResult) \<Rightarrow> 'b tlsResult" where
  "tlsThen x f = (case x of Inl e \<Rightarrow> Inl e | Inr (Inl err) \<Rightarrow> Inr (Inl err) | Inr (Inr a) \<Rightarrow> f a)"

definition appendKeyPair :: "('pool, 'cert, 'block) crypto \<Rightarrow> ('pool, 'cert) tlsConfig \<Rightarrow> gostring \<Rightarrow> gostring
    \<Rightarrow> ('pool, 'cert) tlsConfig tlsResult" where
  "appendKeyPair cr tlsConfig certFile keyFile =
     (case crLoadKeyPair cr certFile keyFile of
        Inl err \<Rightarrow> Inr (Inl err)
      | Inr cert \<Rightarrow> Inr (Inr (tlsConfig\<lparr>tlCertificates := tlCertificates tlsConfig @ [cert]\<rparr>)))"

text \<open>A file that holds no PEM block makes \<^verbatim>\<open>IsEncryptedPEMBlock\<close> panic on a nil pointer.\<close>

definition ReadPEMData :: "('pool, 'cert, 'block) crypto \<Rightarrow> gostring \<Rightarrow> bytes \<Rightarrow> bytes tlsResult" where
  "ReadPEMData cr pemFile pemPass =
     (case crReadFile cr pemFile of
        Inl err \<Rightarrow> Inr (Inl err)
      | Inr pemData \<Rightarrow>
          (case crPemDecode cr pemData of
             None \<Rightarrow> Inl (Panic ''nil pointer'')
           | Some pemBlock \<Rightarrow>
               if crIsEncrypted cr pemBlock
               then (case crDecrypt cr pemBlock pemPass of
                       Inl err \<Rightarrow> Inr (Inl err)
                     | Inr data \<Rightarrow> Inr (Inr (crPemEncode cr pemBlock data)))
               else Inr (Inr pemData)))"

definition appendKeyPairWithPassword :: "('pool, 'cert, 'block) crypto \<Rightarrow> ('pool, 'cert) tlsConfig \<Rightarrow> gostring
    \<Rightarrow> gostring \<Rightarrow> bytes \<Rightarrow> ('pool, 'cert) tlsConfig tlsResult" where
  "appendKeyPairWithPassword cr tlsConfig certFile keyFile pemPass =
     tlsThen (ReadPEMData cr certFile pemPass) (\<lambda>certData.
     tlsThen (ReadPEMData cr keyFile pemPass) (\<lambda>keyData.
       case crKeyPair cr certData keyData of
         Inl err \<Rightarrow> Inr (Inl err)
       | Inr cert \<Rightarrow> Inr (Inr (tlsConfig\<lparr>tlCertificates := tlCertificates tlsConfig @ [cert]\<rparr>))))"

definition NewServerTlsConfig :: "('pool, 'cert, 'block) crypto \<Rightarrow> gostring \<Rightarrow> gostring \<Rightarrow> gostring \<Rightarrow> bool \<Rightarrow> gostring
    \<Rightarrow> ('pool, 'cert) tlsConfig tlsResult" where
  "NewServerTlsConfig cr ca cert key verifyClient ciphers =
     tlsThen (if ca = [] then Inr (Inr zero_tlsConfig)
              else (case crReadFile cr ca of
                      Inl err \<Rightarrow> Inr (Inl err)
                    | Inr certBytes \<Rightarrow> Inr (Inr (zero_tlsConfig\<lparr>tlClientCAs := Some (crCertPool cr certBytes)\<rparr>))))
       (\<lambda>tlsConfig.
     tlsThen (if ciphers = [] then appendKeyPair cr tlsConfig cert key
              else appendKeyPairWithPassword cr tlsConfig cert key ciphers)
       (\<lambda>tlsConfig. Inr (Inr (if verifyClient then tlsConfig\<lparr>tlVerifyClient := True\<rparr> else tlsConfig))))"

definition NewClientTlsConfig :: "('pool, 'cert, 'block) crypto \<Rightarrow> gostring \<Rightarrow> gostring \<Rightarrow> gostring \<Rightarrow> gostring
    \<Rightarrow> ('pool, 'cert) tlsConfig tlsResult" where
  "NewClientTlsConfig cr ca cert key ciphers =
     tlsThen (if ca = [] then Inr (Inr (zero_tlsConfig\<lparr>tlInsecureSkipVerify := True\<rparr>))
              else (case crReadFile cr ca of
                      Inl err \<Rightarrow> Inr (Inl err)
                    | Inr certBytes \<Rightarrow> Inr (Inr (zero_tlsConfig\<lparr>tlRootCAs := Some (crCertPool cr certBytes),
                        tlInsecureSkipVerify := False\<rparr>))))
       (\<lambda>tlsConfig.
          if ciphers = [] \<and> cert \<noteq> [] then appendKeyPair cr tlsConfig cert key
          else if cert \<noteq> [] then appendKeyPairWithPassword cr tlsConfig cert key ciphers
          else Inr (Inr tlsConfig))"

text \<open>The server's configuration asks for client certificates exactly when told to, and the client checks the
  server exactly when it has a certificate authority.\<close>

lemma appendKeyPair_keeps:
  "appendKeyPair cr t c k = Inr (Inr t') \<Longrightarrow>
     t' = t\<lparr>tlCertificates := tlCertificates t'\<rparr> \<and> length (tlCertificates t') = Suc (length (tlCertificates t))"
  "appendKeyPairWithPassword cr t c k p = Inr (Inr t') \<Longrightarrow>
     t' = t\<lparr>tlCertificates := tlCertificates t'\<rparr> \<and> length (tlCertificates t') = Suc (length (tlCertificates t))"
  by (auto simp: appendKeyPair_def appendKeyPairWithPassword_def tlsThen_def split: sum.splits)

lemma server_verifies:
  assumes "NewServerTlsConfig cr ca cert key v ciphers = Inr (Inr t)"
  shows "tlVerifyClient t = v \<and> length (tlCertificates t) = 1"
  using assms
  by (auto simp: NewServerTlsConfig_def tlsThen_def zero_tlsConfig_def split: sum.splits if_splits
      dest!: appendKeyPair_keeps)
    (metis tlsConfig.select_convs tlsConfig.update_convs)+

end
