(* ===== verification/App_Config.thy ===== *)
theory App_Config
  imports Conf_Documents Endpoint_Parse Tcp_Server Tars_Analysis Tls_Config
begin

text \<open>
  How an application is configured: \<^verbatim>\<open>tars/setting.go\<close>, \<^verbatim>\<open>tars/config.go\<close>, \<^verbatim>\<open>tars/transport.go\<close>,
  \<^verbatim>\<open>tars/util/tools/parser.go\<close>, \<^verbatim>\<open>initConfig\<close> of \<^verbatim>\<open>tars/application.go\<close> and the registration of servants in
  \<^verbatim>\<open>tars/servanthandle.go\<close>. A duration is an \<open>int64\<close> of nanoseconds. There is one application, so \<^verbatim>\<open>defaultApp\<close>
  and the receiver are the same record.
\<close>

section \<open>Reading numbers from texts\<close>

text \<open>\<^verbatim>\<open>strings.TrimSpace\<close>: the blanks are those of ASCII and the encodings of the other characters that
  \<^verbatim>\<open>unicode.IsSpace\<close> accepts.\<close>

definition spaceSeqs :: "bytes list" where
  "spaceSeqs = map (\<lambda>c. [c]) [9, 10, 11, 12, 13, 32]
     @ [[0xC2, 0x85], [0xC2, 0xA0], [0xE1, 0x9A, 0x80]]
     @ map (\<lambda>c. [0xE2, 0x80, c]) [0x80, 0x81, 0x82, 0x83, 0x84, 0x85, 0x86, 0x87, 0x88, 0x89, 0x8A, 0xA8, 0xA9, 0xAF]
     @ [[0xE2, 0x81, 0x9F], [0xE3, 0x80, 0x80]]"

definition leadingSeq :: "bytes list \<Rightarrow> gostring \<Rightarrow> nat" where
  "leadingSeq seqs s = (case find (\<lambda>q. take (length q) s = q \<and> q \<noteq> []) seqs of None \<Rightarrow> 0 | Some q \<Rightarrow> length q)"

lemma leadingSeq_bound: "leadingSeq seqs s \<le> length s"
proof (cases "find (\<lambda>q. take (length q) s = q \<and> q \<noteq> []) seqs")
  case (Some q)
  then have "take (length q) s = q" by (auto simp: find_Some_iff)
  then have "length q \<le> length s" by (metis length_take min.cobounded1)
  with Some show ?thesis by (simp add: leadingSeq_def)
qed (simp add: leadingSeq_def)

lemma leadingSeq_drop: "leadingSeq seqs s \<noteq> 0 \<Longrightarrow> length s - leadingSeq seqs s < length s"
  using leadingSeq_bound [of seqs s] by linarith

function trimSeqs :: "bytes list \<Rightarrow> gostring \<Rightarrow> gostring" where
  "trimSeqs seqs s = (if leadingSeq seqs s = 0 then s else trimSeqs seqs (drop (leadingSeq seqs s) s))"
  by pat_completeness auto

termination trimSeqs
  using leadingSeq_drop by (relation "measure (length \<circ> snd)") auto

declare trimSeqs.simps [simp del]

definition strings_TrimSpace :: "gostring \<Rightarrow> gostring" where
  "strings_TrimSpace s = List.rev (trimSeqs (map List.rev spaceSeqs) (List.rev (trimSeqs spaceSeqs s)))"

text \<open>\<^verbatim>\<open>strings.ToUpper\<close> as far as ASCII letters go: no other character has an upper case among the letters of
  the units.\<close>

definition toUpper :: "byte \<Rightarrow> byte" where
  "toUpper c = (if 97 \<le> c \<and> c \<le> 122 then c - 32 else c)"

definition unitMap :: "(gostring \<times> uint64) list" where
  "unitMap = [(ascii ''B'', 1), (ascii ''K'', 2 ^ 10), (ascii ''KB'', 2 ^ 10), (ascii ''M'', 2 ^ 20), (ascii ''MB'', 2 ^ 20),
     (ascii ''G'', 2 ^ 30), (ascii ''GB'', 2 ^ 30), (ascii ''T'', 2 ^ 40), (ascii ''TB'', 2 ^ 40), (ascii ''P'', 2 ^ 50),
     (ascii ''PB'', 2 ^ 50), (ascii ''E'', 2 ^ 60), (ascii ''EB'', 2 ^ 60)]"

text \<open>The loop over the text looks for the first character that is no digit. A digit outside ASCII is treated
  as a character here: it makes the number or the unit unknown, and the result the default, in either case.\<close>

definition isAsciiDigit :: "byte \<Rightarrow> bool" where
  "isAsciiDigit c \<longleftrightarrow> 48 \<le> c \<and> c \<le> 57"

definition orDefault :: "uint64 \<Rightarrow> uint64 \<Rightarrow> uint64" where
  "orDefault d ret = (if ret = 0 then d else ret)"

definition ParseLogSizeMb :: "gostring \<Rightarrow> uint64" where
  "ParseLogSizeMb oriSize =
     (let defaultLogSizeMb = 100 in
      if oriSize = [] then defaultLogSizeMb
      else (case ParseUint oriSize 10 64 of
              Some iLogSize \<Rightarrow> orDefault defaultLogSizeMb (word_of_nat iLogSize div 1024 div 1024)
            | None \<Rightarrow>
                let idx = length (takeWhile isAsciiDigit oriSize);
                    sLogSize = (if idx < length oriSize then strings_TrimSpace (take idx oriSize) else []);
                    sUnit = (if idx < length oriSize then strings_TrimSpace (drop idx oriSize) else [])
                in if sLogSize = [] then defaultLogSizeMb
                   else (case ParseUint sLogSize 10 64 of
                           None \<Rightarrow> defaultLogSizeMb
                         | Some iLogSize \<Rightarrow>
                             (case map_of unitMap (map toUpper sUnit) of
                                None \<Rightarrow> defaultLogSizeMb
                              | Some iUnit \<Rightarrow>
                                  orDefault defaultLogSizeMb (word_of_nat iLogSize * iUnit div 1024 div 1024)))))"

definition ParseLogNum :: "gostring \<Rightarrow> uint64" where
  "ParseLogNum strVal = (case ParseUint strVal 10 64 of None \<Rightarrow> 10 | Some n \<Rightarrow> word_of_nat n)"

text \<open>Milliseconds to nanoseconds; the product wraps around.\<close>

definition ParseTimeOut :: "int \<Rightarrow> int64" where
  "ParseTimeOut timeout = word_of_int timeout * 1000000"

definition ParseStrBool :: "gostring \<Rightarrow> bool" where
  "ParseStrBool delay = (if delay = [] then False else (case strconv_ParseBool delay of None \<Rightarrow> False | Some b \<Rightarrow> b))"

section \<open>Settings\<close>

text \<open>The constants of \<^verbatim>\<open>setting.go\<close>; \<^verbatim>\<open>Stat\<close>, \<^verbatim>\<open>Property\<close> and \<^verbatim>\<open>ModuleName\<close> with the prefix \<open>def\<close>.\<close>

definition Version :: gostring where "Version = ascii ''1.4.1''"
definition AcceptTimeout :: int where "AcceptTimeout = 500"
definition ReadTimeout :: int where "ReadTimeout = 0"
definition WriteTimeout :: int where "WriteTimeout = 0"
definition HandleTimeout :: int where "HandleTimeout = 0"
definition IdleTimeout :: int where "IdleTimeout = 600000"
definition ZombieTimeout :: int where "ZombieTimeout = 10000"
definition QueueCap :: int where "QueueCap = 10000000"
definition defStat :: gostring where "defStat = ascii ''tars.tarsstat.StatObj''"
definition defProperty :: gostring where "defProperty = ascii ''tars.tarsproperty.PropertyObj''"
definition defModuleName :: gostring where "defModuleName = ascii ''tup_client''"
definition ClientQueueLen :: int where "ClientQueueLen = 10000"
definition ClientIdleTimeout :: int where "ClientIdleTimeout = 600000"
definition ClientReadTimeout :: int where "ClientReadTimeout = 100"
definition ClientWriteTimeout :: int where "ClientWriteTimeout = 3000"
definition ReqDefaultTimeout :: int32 where "ReqDefaultTimeout = 3000"
definition ClientDialTimeout :: int where "ClientDialTimeout = 3000"
definition ObjQueueMax :: int32 where "ObjQueueMax = 100000"
definition PropertyReportInterval :: int where "PropertyReportInterval = 10000"
definition StatReportInterval :: int where "StatReportInterval = 10000"
definition StatReportChannelBufLen :: int32 where "StatReportChannelBufLen = 100000"
definition MainLoopTicker :: int where "MainLoopTicker = 10000"
definition refreshEndpointInterval :: int where "refreshEndpointInterval = 60000"
definition reportInterval :: int where "reportInterval = 5000"
definition AsyncInvokeTimeout :: int where "AsyncInvokeTimeout = 3000"
definition checkStatusInterval :: int where "checkStatusInterval = 1000"
definition keepAliveInterval :: int where "keepAliveInterval = 0"
definition TCPReadBuffer :: int where "TCPReadBuffer = 128 * 1024 * 1024"
definition TCPWriteBuffer :: int where "TCPWriteBuffer = 128 * 1024 * 1024"
definition TCPNoDelay :: bool where "TCPNoDelay = False"
definition GracedownTimeout :: int where "GracedownTimeout = 60000"
definition MaxPackageLength :: int where "MaxPackageLength = 10485760"

record adapterConfig =
  acEndpoint :: Endpoint
  acProtocol :: gostring
  acObj :: gostring
  acThreads :: int

record 'f serverConfig =
  scNode :: gostring
  scApp :: gostring
  scServer :: gostring
  scLogPath :: gostring
  scLogSize :: uint64
  scLogNum :: uint64
  scLogLevel :: gostring
  scVersion :: gostring
  scLocalIP :: gostring
  scLocal :: gostring
  scBasePath :: gostring
  scDataPath :: gostring
  scConfig :: gostring
  scNotify :: gostring
  scLog :: gostring
  scAdapters :: "(gostring \<times> adapterConfig) list"
  scContainer :: gostring
  scIsdocker :: bool
  scEnableset :: bool
  scSetdivision :: gostring
  scAcceptTimeout :: int64
  scReadTimeout :: int64
  scWriteTimeout :: int64
  scHandleTimeout :: int64
  scIdleTimeout :: int64
  scZombieTimeout :: int64
  scQueueCap :: int
  scTCPReadBuffer :: int
  scTCPWriteBuffer :: int
  scTCPNoDelay :: bool
  scMaxInvoke :: int32
  scPropertyReportInterval :: int64
  scStatReportInterval :: int64
  scMainLoopTicker :: int64
  scStatReportChannelBufLen :: int32
  scMaxPackageLength :: int
  scGracedownTimeout :: int64
  scCA :: gostring
  scCert :: gostring
  scKey :: gostring
  scVerifyClient :: bool
  scCiphers :: gostring
  scSampleRate :: 'f
  scSampleType :: gostring
  scSampleAddress :: gostring
  scSampleEncoding :: gostring

record clientConfig =
  ccLocator :: gostring
  ccStat :: gostring
  ccProperty :: gostring
  ccModuleName :: gostring
  ccRefreshEndpointInterval :: int
  ccReportInterval :: int
  ccCheckStatusInterval :: int
  ccKeepAliveInterval :: int
  ccAsyncInvokeTimeout :: int
  ccClientQueueLen :: int
  ccClientIdleTimeout :: int64
  ccClientReadTimeout :: int64
  ccClientWriteTimeout :: int64
  ccClientDialTimeout :: int64
  ccReqDefaultTimeout :: int32
  ccObjQueueMax :: int32

text \<open>The levels of \<^verbatim>\<open>tars/util/rogger\<close>.\<close>

datatype LogLevel = DEBUG | INFO | WARN | ERROR | OFF

definition StringToLevel :: "gostring \<Rightarrow> LogLevel" where
  "StringToLevel level =
     (if level = ascii ''DEBUG'' then DEBUG
      else if level = ascii ''INFO'' then INFO
      else if level = ascii ''WARN'' then WARN
      else if level = ascii ''ERROR'' then ERROR
      else DEBUG)"

definition newServerConfig :: "gostring \<Rightarrow> int32 \<Rightarrow> 'f \<Rightarrow> 'f serverConfig" where
  "newServerConfig localIP maxInvoke zero =
     \<lparr>scNode = [], scApp = [], scServer = [], scLogPath = [], scLogSize = 100, scLogNum = 10,
      scLogLevel = ascii ''INFO'', scVersion = Version, scLocalIP = localIP, scLocal = [], scBasePath = [],
      scDataPath = [], scConfig = [], scNotify = [], scLog = [], scAdapters = [], scContainer = [],
      scIsdocker = False, scEnableset = False, scSetdivision = [],
      scAcceptTimeout = ParseTimeOut AcceptTimeout, scReadTimeout = ParseTimeOut ReadTimeout,
      scWriteTimeout = ParseTimeOut ReadTimeout, scHandleTimeout = ParseTimeOut HandleTimeout,
      scIdleTimeout = ParseTimeOut IdleTimeout, scZombieTimeout = ParseTimeOut ZombieTimeout,
      scQueueCap = QueueCap, scTCPReadBuffer = TCPReadBuffer, scTCPWriteBuffer = TCPWriteBuffer,
      scTCPNoDelay = TCPNoDelay, scMaxInvoke = maxInvoke,
      scPropertyReportInterval = ParseTimeOut PropertyReportInterval,
      scStatReportInterval = ParseTimeOut StatReportInterval, scMainLoopTicker = ParseTimeOut MainLoopTicker,
      scStatReportChannelBufLen = StatReportChannelBufLen, scMaxPackageLength = MaxPackageLength,
      scGracedownTimeout = ParseTimeOut GracedownTimeout, scCA = [], scCert = [], scKey = [],
      scVerifyClient = False, scCiphers = [], scSampleRate = zero, scSampleType = [], scSampleAddress = [],
      scSampleEncoding = []\<rparr>"

definition newClientConfig :: clientConfig where
  "newClientConfig =
     \<lparr>ccLocator = [], ccStat = defStat, ccProperty = defProperty, ccModuleName = defModuleName,
      ccRefreshEndpointInterval = refreshEndpointInterval, ccReportInterval = reportInterval,
      ccCheckStatusInterval = checkStatusInterval, ccKeepAliveInterval = keepAliveInterval,
      ccAsyncInvokeTimeout = AsyncInvokeTimeout, ccClientQueueLen = ClientQueueLen,
      ccClientIdleTimeout = ParseTimeOut ClientIdleTimeout, ccClientReadTimeout = ParseTimeOut ClientReadTimeout,
      ccClientWriteTimeout = ParseTimeOut ClientWriteTimeout, ccClientDialTimeout = ParseTimeOut ClientDialTimeout,
      ccReqDefaultTimeout = ReqDefaultTimeout, ccObjQueueMax = ObjQueueMax\<rparr>"

section \<open>Server configurations of the transport\<close>

text \<open>The remaining fields of \<^verbatim>\<open>TarsServerConf\<close>, of which \<open>Tcp_Server\<close> has those the handlers use. \<open>'t\<close> is a
  TLS configuration. The protocol is text there.\<close>

record 't tarsServerConf = TarsServerConf +
  cfAddress :: gostring
  cfAcceptTimeout :: int64
  cfReadTimeout :: int64
  cfWriteTimeout :: int64
  cfTCPReadBuffer :: int
  cfTCPWriteBuffer :: int
  cfTCPNoDelay :: bool
  cfTlsConfig :: "'t option"

definition goText :: "gostring \<Rightarrow> string" where
  "goText s = map (\<lambda>b. char_of (unat b)) s"

type_synonym 't ServerConfOption = "'t tarsServerConf \<Rightarrow> 't tarsServerConf"

definition WithQueueCap :: "int \<Rightarrow> 't ServerConfOption" where
  "WithQueueCap queueCap c = c\<lparr>cfQueueCap := queueCap\<rparr>"

definition WithTlsConfig :: "'t option \<Rightarrow> 't ServerConfOption" where
  "WithTlsConfig tlsConfig c = c\<lparr>cfTlsConfig := tlsConfig\<rparr>"

definition WithMaxInvoke :: "int32 \<Rightarrow> 't ServerConfOption" where
  "WithMaxInvoke maxInvoke c = c\<lparr>cfMaxInvoke := maxInvoke\<rparr>"

definition newTarsServerConf :: "gostring \<Rightarrow> gostring \<Rightarrow> 'f serverConfig \<Rightarrow> 't ServerConfOption list \<Rightarrow> 't tarsServerConf" where
  "newTarsServerConf proto address svrCfg opts =
     foldl (\<lambda>c opt. opt c)
       \<lparr>cfProto = goText proto, cfMaxInvoke = scMaxInvoke svrCfg, cfHandleTimeout = sint (scHandleTimeout svrCfg),
        cfIdleTimeout = sint (scIdleTimeout svrCfg), cfQueueCap = scQueueCap svrCfg, cfAddress = address,
        cfAcceptTimeout = scAcceptTimeout svrCfg, cfReadTimeout = scReadTimeout svrCfg,
        cfWriteTimeout = scWriteTimeout svrCfg, cfTCPReadBuffer = scTCPReadBuffer svrCfg,
        cfTCPWriteBuffer = scTCPWriteBuffer svrCfg, cfTCPNoDelay = scTCPNoDelay svrCfg, cfTlsConfig = None\<rparr> opts"

section \<open>The application\<close>

record AppCache =
  ahTarsVersion :: gostring
  ahModifyTime :: gostring
  ahLogLevel :: gostring

text \<open>\<open>apConf\<close> is nil until a file was read. The admin commands are the functions registered under a name.\<close>

record ('f, 't) application =
  apConf :: "Conf option"
  apSvrCfg :: "'f serverConfig"
  apCltCfg :: clientConfig
  apTarsConfig :: "(gostring \<times> 't tarsServerConf) list"
  apSerList :: "gostring list"
  apClientObjInfo :: "(gostring \<times> (gostring \<times> gostring) list) list"
  apClientObjTlsConfig :: "(gostring \<times> 't) list"
  apClientTlsConfig :: "'t option"
  apAppCache :: AppCache
  apAdminMethods :: "gostring list"
  apLogLevel :: LogLevel
  apLogRoller :: "gostring option"
  apMaxPackageLength :: int

text \<open>What the start of the application asks the system: the local address, the worker limit set by the program,
  files, \<^verbatim>\<open>encoding/xml\<close>, \<^verbatim>\<open>encoding/json\<close> for the cache, floating-point numbers, TLS, directories and the order
  in which maps are visited.\<close>

record ('f, 't) appEnv =
  aeLocalIP :: gostring
  aeMaxInvoke :: int32
  aeReadFile :: "gostring \<Rightarrow> gostring + bytes"
  aeDecode :: "bytes \<Rightarrow> xmlToken list"
  aeUnmarshal :: "bytes \<Rightarrow> AppCache \<Rightarrow> AppCache"
  aeParseFloat :: "gostring \<Rightarrow> 'f option"
  aeZero :: 'f
  aeServerTls :: "gostring \<Rightarrow> gostring \<Rightarrow> gostring \<Rightarrow> bool \<Rightarrow> gostring \<Rightarrow> 't tlsResult"
  aeClientTls :: "gostring \<Rightarrow> gostring \<Rightarrow> gostring \<Rightarrow> gostring \<Rightarrow> 't tlsResult"
  aeMkdirAll :: "gostring \<Rightarrow> bool"
  aeOrder :: childOrder

text \<open>An error of the TLS configurations is a panic.\<close>

definition orPanic :: "'a tlsResult \<Rightarrow> gerr + 'a" where
  "orPanic x = (case x of Inl e \<Rightarrow> Inl e | Inr (Inl err) \<Rightarrow> Inl (Panic (goText err)) | Inr (Inr a) \<Rightarrow> Inr a)"

definition bindPanic :: "gerr + 'a \<Rightarrow> ('a \<Rightarrow> gerr + 'b) \<Rightarrow> gerr + 'b" where
  "bindPanic x f = (case x of Inl e \<Rightarrow> Inl e | Inr a \<Rightarrow> f a)"

lemma bindPanic_simps [simp]: "bindPanic (Inl e) f = Inl e" "bindPanic (Inr a) f = f a"
  by (simp_all add: bindPanic_def)

definition appPath :: "string \<Rightarrow> gostring" where "appPath s = ascii (''/tars/application'' @ s)"
definition srvKey :: "string \<Rightarrow> gostring" where "srvKey k = ascii (''/tars/application/server<'' @ k @ ''>'')"
definition cltKey :: "string \<Rightarrow> gostring" where "cltKey k = ascii (''/tars/application/client<'' @ k @ ''>'')"

text \<open>The path of a key of an adapter, and of a client's object.\<close>

definition adpKey :: "gostring \<Rightarrow> string \<Rightarrow> gostring" where
  "adpKey adapter k = ascii ''/tars/application/server/'' @ adapter @ ascii (''<'' @ k @ ''>'')"
definition objKey :: "gostring \<Rightarrow> string \<Rightarrow> gostring" where
  "objKey objName k = ascii ''/tars/application/client/'' @ objName @ ascii (''<'' @ k @ ''>'')"

text \<open>Reading a map of strings gives the empty string for a key it does not have.\<close>

definition mapGet :: "(gostring \<times> gostring) list \<Rightarrow> string \<Rightarrow> gostring" where
  "mapGet m k = (case map_of m (ascii k) of None \<Rightarrow> [] | Some v \<Rightarrow> v)"

section \<open>Reading the configuration\<close>

text \<open>The parts of \<^verbatim>\<open>initConfig\<close> in their order. First names, paths and the log.\<close>

definition initNames :: "childOrder \<Rightarrow> Conf \<Rightarrow> 'f serverConfig \<Rightarrow> 'f serverConfig" where
  "initNames ord c cfg =
     (let cfg = (if GetString c (appPath ''<enableset>'') \<in> {ascii ''Y'', ascii ''y''}
                 then cfg\<lparr>scEnableset := True, scSetdivision := GetString c (appPath ''<setdivision>'')\<rparr> else cfg);
          sMap = GetMap ord c (appPath ''/server'')
      in cfg\<lparr>scNode := mapGet sMap ''node'', scApp := mapGet sMap ''app'', scServer := mapGet sMap ''server'',
           scLocalIP := mapGet sMap ''localip'', scLocal := GetString c (srvKey ''local''),
           scLogPath := mapGet sMap ''logpath'', scLogSize := ParseLogSizeMb (mapGet sMap ''logsize''),
           scLogNum := ParseLogNum (mapGet sMap ''lognum''), scLogLevel := mapGet sMap ''logLevel'',
           scConfig := mapGet sMap ''config'', scNotify := mapGet sMap ''notify'',
           scBasePath := mapGet sMap ''basepath'', scDataPath := mapGet sMap ''datapath'',
           scLog := mapGet sMap ''log'', scVersion := Version, scAdapters := []\<rparr>)"

text \<open>\<^verbatim>\<open>filepath.Join\<close> of two parts: empty parts are left out, the result is cleaned.\<close>

definition filepath_Join2 :: "gostring \<Rightarrow> gostring \<Rightarrow> gostring" where
  "filepath_Join2 a b = (if a = [] \<and> b = [] then [] else path_Clean (joinSlash (filter (\<lambda>s. s \<noteq> []) [a, b])))"

text \<open>The cache, the log level (from the configuration, else from the cache) and the log files.\<close>

definition initLog :: "('f, 't) appEnv \<Rightarrow> ('f, 't) application \<Rightarrow> gerr + ('f, 't) application" where
  "initLog env a =
     (let cfg = apSvrCfg a;
          cache = (case aeReadFile env (filepath_Join2 (scDataPath cfg) (scServer cfg) @ ascii ''.tarsdat'') of
                     Inr cacheData \<Rightarrow> aeUnmarshal env cacheData (apAppCache a) | Inl _ \<Rightarrow> apAppCache a);
          (cfg, cache) = (if scLogLevel cfg = [] then (cfg\<lparr>scLogLevel := ahLogLevel cache\<rparr>, cache)
                          else (cfg, cache\<lparr>ahLogLevel := scLogLevel cfg\<rparr>));
          a = a\<lparr>apSvrCfg := cfg, apLogLevel := StringToLevel (scLogLevel cfg)\<rparr>;
          dir = scLogPath cfg @ 47 # scApp cfg @ 47 # scServer cfg
      in if scLogPath cfg \<noteq> [] \<and> \<not> aeMkdirAll env dir then Inl (Panic ''mkdir'')
         else Inr (a\<lparr>apAppCache := cache\<lparr>ahTarsVersion := Version\<rparr>,
                apLogRoller := (if scLogPath cfg \<noteq> [] then Some dir else apLogRoller a)\<rparr>))"

text \<open>Timeouts, buffers and intervals of the server.\<close>

definition initLimits :: "Conf \<Rightarrow> 'f serverConfig \<Rightarrow> int32 \<Rightarrow> 'f serverConfig" where
  "initLimits c cfg maxInvoke =
     cfg\<lparr>scAcceptTimeout := ParseTimeOut (GetIntWithDef c (srvKey ''accepttimeout'') AcceptTimeout),
         scReadTimeout := ParseTimeOut (GetIntWithDef c (srvKey ''readtimeout'') ReadTimeout),
         scWriteTimeout := ParseTimeOut (GetIntWithDef c (srvKey ''writetimeout'') WriteTimeout),
         scHandleTimeout := ParseTimeOut (GetIntWithDef c (srvKey ''handletimeout'') HandleTimeout),
         scIdleTimeout := ParseTimeOut (GetIntWithDef c (srvKey ''idletimeout'') IdleTimeout),
         scZombieTimeout := ParseTimeOut (GetIntWithDef c (srvKey ''zombietimeout'') ZombieTimeout),
         scQueueCap := GetIntWithDef c (srvKey ''queuecap'') QueueCap,
         scGracedownTimeout := ParseTimeOut (GetIntWithDef c (srvKey ''gracedowntimeout'') GracedownTimeout),
         scTCPReadBuffer := GetIntWithDef c (srvKey ''tcpreadbuffer'') TCPReadBuffer,
         scTCPWriteBuffer := GetIntWithDef c (srvKey ''tcpwritebuffer'') TCPWriteBuffer,
         scTCPNoDelay := GetBoolWithDef c (srvKey ''tcpnodelay'') TCPNoDelay,
         scMaxInvoke := GetInt32WithDef c (srvKey ''maxroutine'') maxInvoke,
         scPropertyReportInterval :=
           ParseTimeOut (GetIntWithDef c (srvKey ''propertyreportinterval'') PropertyReportInterval),
         scStatReportInterval := ParseTimeOut (GetIntWithDef c (srvKey ''statreportinterval'') StatReportInterval),
         scMainLoopTicker := ParseTimeOut (GetIntWithDef c (srvKey ''mainloopticker'') MainLoopTicker),
         scStatReportChannelBufLen := GetInt32WithDef c (srvKey ''statreportchannelbuflen'') StatReportChannelBufLen,
         scMaxPackageLength := GetIntWithDef c (srvKey ''maxPackageLength'') MaxPackageLength\<rparr>"

text \<open>TLS and sampling of the server; the TLS configuration is the one of adapters without their own.\<close>

definition initServerTls :: "('f, 't) appEnv \<Rightarrow> Conf \<Rightarrow> 'f serverConfig \<Rightarrow> gerr + 't option \<times> 'f serverConfig" where
  "initServerTls env c cfg =
     (let cfg = cfg\<lparr>scKey := GetString c (srvKey ''key''), scCert := GetString c (srvKey ''cert'')\<rparr> in
      if scKey cfg \<noteq> [] \<and> scCert cfg \<noteq> []
      then let cfg = cfg\<lparr>scCA := GetString c (srvKey ''ca''),
                 scVerifyClient := GetStringWithDef c (srvKey ''verifyclient'') (ascii ''0'') \<noteq> ascii ''0'',
                 scCiphers := GetString c (srvKey ''ciphers'')\<rparr>
           in bindPanic (orPanic (aeServerTls env (scCA cfg) (scCert cfg) (scKey cfg) (scVerifyClient cfg) (scCiphers cfg)))
                (\<lambda>t. Inr (Some t, cfg))
      else Inr (None, cfg))"

definition initSampling :: "('f, 't) appEnv \<Rightarrow> Conf \<Rightarrow> 'f serverConfig \<Rightarrow> 'f serverConfig" where
  "initSampling env c cfg =
     cfg\<lparr>scSampleRate := GetFloatWithDef (aeParseFloat env) c (srvKey ''samplerate'') (aeZero env),
         scSampleType := GetString c (srvKey ''sampletype''),
         scSampleAddress := GetString c (srvKey ''sampleaddress''),
         scSampleEncoding := GetStringWithDef c (srvKey ''sampleencoding'') (ascii ''json'')\<rparr>"

definition initClient :: "childOrder \<Rightarrow> Conf \<Rightarrow> clientConfig \<Rightarrow> clientConfig" where
  "initClient ord c cfg =
     (let cMap = GetMap ord c (appPath ''/client'') in
      cfg\<lparr>ccLocator := mapGet cMap ''locator'', ccStat := mapGet cMap ''stat'', ccProperty := mapGet cMap ''property'',
          ccModuleName := mapGet cMap ''modulename'',
          ccAsyncInvokeTimeout := GetIntWithDef c (cltKey ''async-invoke-timeout'') AsyncInvokeTimeout,
          ccRefreshEndpointInterval := GetIntWithDef c (cltKey ''refresh-endpoint-interval'') refreshEndpointInterval,
          ccReportInterval := GetIntWithDef c (cltKey ''report-interval'') reportInterval,
          ccCheckStatusInterval := GetIntWithDef c (cltKey ''check-status-interval'') checkStatusInterval,
          ccKeepAliveInterval := GetIntWithDef c (cltKey ''keep-alive-interval'') keepAliveInterval,
          ccClientQueueLen := GetIntWithDef c (cltKey ''clientqueuelen'') ClientQueueLen,
          ccClientIdleTimeout := ParseTimeOut (GetIntWithDef c (cltKey ''clientidletimeout'') ClientIdleTimeout),
          ccClientReadTimeout := ParseTimeOut (GetIntWithDef c (cltKey ''clientreadtimeout'') ClientReadTimeout),
          ccClientWriteTimeout := ParseTimeOut (GetIntWithDef c (cltKey ''clientwritetimeout'') ClientWriteTimeout),
          ccClientDialTimeout := ParseTimeOut (GetIntWithDef c (cltKey ''clientdialtimeout'') ClientDialTimeout),
          ccReqDefaultTimeout := GetInt32WithDef c (cltKey ''reqdefaulttimeout'') ReqDefaultTimeout,
          ccObjQueueMax := GetInt32WithDef c (cltKey ''objqueuemax'') ObjQueueMax\<rparr>)"

definition initClientTls :: "('f, 't) appEnv \<Rightarrow> Conf \<Rightarrow> 't option \<Rightarrow> gerr + 't option" where
  "initClientTls env c old =
     (let ca = GetString c (cltKey ''ca'') in
      if ca = [] then Inr old
      else bindPanic (orPanic (aeClientTls env ca (GetString c (cltKey ''cert'')) (GetString c (cltKey ''key''))
             (GetString c (cltKey ''ciphers'')))) (\<lambda>t. Inr (Some t)))"

text \<open>One adapter: its endpoint, its own TLS configuration or the common one, and the configuration of the
  server of its servant.\<close>

definition hostPort :: "gostring \<Rightarrow> int32 \<Rightarrow> gostring" where
  "hostPort host port = host @ 58 # fmt_d (sint port)"

definition adapterTls :: "('f, 't) appEnv \<Rightarrow> Conf \<Rightarrow> 't option \<Rightarrow> gostring \<Rightarrow> gerr + 't option" where
  "adapterTls env c common adapter =
     (let key = GetString c (adpKey adapter ''key''); cert = GetString c (adpKey adapter ''cert'') in
      if key \<noteq> [] \<and> cert \<noteq> []
      then bindPanic (orPanic (aeServerTls env (GetString c (adpKey adapter ''ca'')) cert key
             (GetString c (adpKey adapter ''verifyclient'') \<noteq> ascii ''0'') (GetString c (adpKey adapter ''ciphers''))))
             (\<lambda>t. Inr (Some t))
      else Inr common)"

definition initAdapter :: "('f, 't) appEnv \<Rightarrow> Conf \<Rightarrow> 't option \<Rightarrow> gostring \<Rightarrow> ('f, 't) application
    \<Rightarrow> gerr + ('f, 't) application" where
  "initAdapter env c common adapter a =
     bindPanic (endpoint_Parse (GetString c (adpKey adapter ''endpoint''))) (\<lambda>end'.
       let svrObj = GetString c (adpKey adapter ''servant'');
           proto = GetString c (adpKey adapter ''protocol'');
           cfg = apSvrCfg a;
           queuecap = GetIntWithDef c (adpKey adapter ''queuecap'') (scQueueCap cfg);
           threads = GetInt c (adpKey adapter ''threads'');
           cfg = cfg\<lparr>scAdapters := AList.update adapter
             \<lparr>acEndpoint = end', acProtocol = proto, acObj = svrObj, acThreads = threads\<rparr> (scAdapters cfg)\<rparr>;
           host = (if epBind end' \<noteq> [] then epBind end' else epHost end')
       in bindPanic (if IsSSL end' then bindPanic (adapterTls env c common adapter) (\<lambda>t. Inr [WithTlsConfig t]) else Inr [])
            (\<lambda>opts. Inr (a\<lparr>apSvrCfg := cfg,
               apTarsConfig := AList.update svrObj
                 (newTarsServerConf (epProto end') (hostPort host (epPort end')) cfg (WithQueueCap queuecap # opts))
                 (apTarsConfig a)\<rparr>)))"

fun initAdapters :: "('f, 't) appEnv \<Rightarrow> Conf \<Rightarrow> 't option \<Rightarrow> gostring list \<Rightarrow> ('f, 't) application
    \<Rightarrow> gerr + ('f, 't) application" where
  "initAdapters env c common [] a = Inr a"
| "initAdapters env c common (adapter # rest) a =
     bindPanic (initAdapter env c common adapter a) (initAdapters env c common rest)"

text \<open>The administration object listens at the local address, without a pool of workers.\<close>

definition initAdmin :: "('f, 't) application \<Rightarrow> gerr + ('f, 't) application" where
  "initAdmin a =
     (let cfg = apSvrCfg a in
      if scLocal cfg = [] then Inr a
      else bindPanic (endpoint_Parse (scLocal cfg)) (\<lambda>localPoint.
        Inr (a\<lparr>apTarsConfig := AList.update (ascii ''AdminObj'')
                 (newTarsServerConf (epProto localPoint) (hostPort (epHost localPoint) (epPort localPoint)) cfg
                   [WithMaxInvoke 0]) (apTarsConfig a),
               apSvrCfg := cfg\<lparr>scAdapters := AList.update (ascii ''AdminAdapter'')
                 \<lparr>acEndpoint = localPoint, acProtocol = epProto localPoint, acObj = ascii ''AdminObj'', acThreads = 1\<rparr>
                 (scAdapters cfg)\<rparr>,
               apAdminMethods := List.insert (ascii ''dyeUserManage'') (apAdminMethods a)\<rparr>)))"

definition initAuth :: "('f, 't) appEnv \<Rightarrow> Conf \<Rightarrow> gostring \<Rightarrow> ('f, 't) application \<Rightarrow> gerr + ('f, 't) application" where
  "initAuth env c objName a =
     (let authInfo = map (\<lambda>k. (ascii k, GetString c (objKey objName k))) [''ca'', ''cert'', ''key'', ''ciphers''];
          a = a\<lparr>apClientObjInfo := AList.update objName authInfo (apClientObjInfo a)\<rparr>
      in if mapGet authInfo ''ca'' = [] then Inr a
         else bindPanic (orPanic (aeClientTls env (mapGet authInfo ''ca'') (mapGet authInfo ''cert'')
                (mapGet authInfo ''key'') (mapGet authInfo ''ciphers'')))
                (\<lambda>t. Inr (a\<lparr>apClientObjTlsConfig := AList.update objName t (apClientObjTlsConfig a)\<rparr>)))"

fun initAuths :: "('f, 't) appEnv \<Rightarrow> Conf \<Rightarrow> gostring list \<Rightarrow> ('f, 't) application \<Rightarrow> gerr + ('f, 't) application" where
  "initAuths env c [] a = Inr a"
| "initAuths env c (objName # rest) a = bindPanic (initAuth env c objName a) (initAuths env c rest)"

definition initFromConf :: "('f, 't) appEnv \<Rightarrow> Conf \<Rightarrow> ('f, 't) application \<Rightarrow> gerr + ('f, 't) application" where
  "initFromConf env c a =
     bindPanic (initLog env (a\<lparr>apConf := Some c, apSvrCfg := initNames (aeOrder env) c (apSvrCfg a)\<rparr>)) (\<lambda>a.
     let cfg = initLimits c (apSvrCfg a) (aeMaxInvoke env) in
     bindPanic (initServerTls env c cfg) (\<lambda>(tlsConfig, cfg).
     let a = a\<lparr>apMaxPackageLength := scMaxPackageLength cfg, apSvrCfg := initSampling env c cfg,
               apCltCfg := initClient (aeOrder env) c (apCltCfg a)\<rparr> in
     bindPanic (initClientTls env c (apClientTlsConfig a)) (\<lambda>clientTls.
     let serList = GetDomain (aeOrder env) c (appPath ''/server'') in
     bindPanic (initAdapters env c tlsConfig serList (a\<lparr>apClientTlsConfig := clientTls\<rparr>)) (\<lambda>a.
     bindPanic (initAdmin (a\<lparr>apSerList := serList\<rparr>)) (\<lambda>a.
     initAuths env c (GetDomain (aeOrder env) c (appPath ''/client'')) a)))))"

text \<open>\<^verbatim>\<open>path\<close> is the file named on the command line or by the program. Without one, or when it cannot be read, the
  defaults stay; a panic while the file is parsed ends the process.\<close>

definition initConfig :: "('f, 't) appEnv \<Rightarrow> gostring \<Rightarrow> ('f, 't) application \<Rightarrow> gerr + ('f, 't) application" where
  "initConfig env path a =
     (let a = a\<lparr>apSvrCfg := newServerConfig (aeLocalIP env) (aeMaxInvoke env) (aeZero env), apCltCfg := newClientConfig\<rparr> in
      if path = [] then Inr a
      else (case NewConf (aeDecode env) (aeReadFile env) path of
              (ConfPanic, _) \<Rightarrow> Inl (Panic ''index out of range'')
            | (ConfOk, Some c) \<Rightarrow> initFromConf env c a
            | _ \<Rightarrow> Inr a))"

end
