(* ===== verification/App_Startup.thy ===== *)
theory App_Startup
  imports App_Config
begin

text \<open>
  What \<^verbatim>\<open>initConfig\<close> makes of a configuration file: when it returns, and the servers it configures for the
  adapters of the file.
\<close>

section \<open>Keys of a document\<close>

text \<open>A configuration that holds a tree of keys and domains.\<close>

definition holds :: "Conf \<Rightarrow> cfg \<Rightarrow> bool" where
  "holds c t \<longleftrightarrow> okCfg t \<and> conf_inv (cfStore c) \<and> absConf (cfStore c) = cfgInfo t"

definition keyValue :: "(gostring \<times> gostring) list \<Rightarrow> gostring \<Rightarrow> gostring" where
  "keyValue ks k = (case map_of ks k of None \<Rightarrow> [] | Some v \<Rightarrow> v)"

lemma NewConf_holds:
  assumes "okCfg t" and "decode content = cfgTokens t" and "ReadFile path = Inr content"
  shows "\<exists>c. NewConf decode ReadFile path = (ConfOk, Some c) \<and> holds c t"
proof -
  obtain e c where i: "InitFromBytes decode content conf_New = (e, c)" by fastforce
  then show ?thesis
    using document_map [OF assms(1,2) i] assms
    by (simp add: NewConf_def InitFromFile_def holds_def)
qed

lemma GetString_key:
  assumes "holds c t" and "cfgDomain t p = Some (Cfg ks ds)" and "list_all okName p" and "okName k"
  shows "GetString c (keyPath p k) = keyValue ks k"
proof -
  have "absConf (cfStore c) (p @ [k]) = cfgInfo (Cfg ks ds) [k]"
    using assms(1) cfgInfo_domain [OF _ assms(2), of "[k]"] by (simp add: holds_def)
  moreover have "cfgInfo d [] = Some (kind, v, ls) \<Longrightarrow> v = []" for d kind v ls by (cases d) simp
  ultimately show ?thesis
    using analysisPath_key [OF assms(3,4)]
    by (simp add: GetString_def GetStringWithDef_def getValue_abs keyValue_def split: option.split) blast
qed

lemma GetDomain_doc:
  assumes "holds c t" and "cfgDomain t p = Some (Cfg ks ds)" and "list_all okName p" and "permutes ord"
  shows "set (GetDomain ord c (domPath p)) = fst ` set ds" "distinct (GetDomain ord c (domPath p))"
proof -
  have info: "cfgInfo t (p @ [n]) = cfgInfo (Cfg ks ds) [n]" and ok: "okCfg (Cfg ks ds)" for n
    using assms(1) cfgInfo_domain [OF _ assms(2)] by (auto simp: holds_def)
  show "set (GetDomain ord c (domPath p)) = fst ` set ds" "distinct (GetDomain ord c (domPath p))"
    using GetDomain_abs [OF _ assms(4), of c "domPath p"] assms(1) cfgInfo_nodes [OF ok]
    by (simp_all add: holds_def analysisPath_dom [OF assms(3)] info del: cfgInfo.simps)
qed

definition serverPath :: "gostring list" where
  "serverPath = [ascii ''tars'', ascii ''application'', ascii ''server'']"

lemma serverPath_ok: "list_all okName serverPath"
  by (simp add: serverPath_def okName_def ascii_def)

lemma server_texts:
  "appPath ''/server'' = domPath serverPath"
  "srvKey k = keyPath serverPath (ascii k)"
  "adpKey n k = keyPath (serverPath @ [n]) (ascii k)"
  by (simp_all add: appPath_def srvKey_def adpKey_def serverPath_def keyPath_def domPath_def ascii_def)

lemma adapter_key:
  assumes "holds c t" and "cfgDomain t serverPath = Some (Cfg ks ds)" and "(n, Cfg aks ads) \<in> set ds" and "okName n"
    and "okName (ascii k)"
  shows "GetString c (adpKey n k) = keyValue aks (ascii k)"
proof -
  have "okCfg (Cfg ks ds)"
    using assms(1,2) cfgInfo_domain unfolding holds_def by blast
  then have "map_of ds n = Some (Cfg aks ads)"
    using assms(3) by simp
  moreover have "cfgDomain t (p @ [n]) = Option.bind (cfgDomain t p) (\<lambda>d. map_of (cfDomains d) n)" for t p
    by (induction p arbitrary: t) simp_all
  ultimately have "cfgDomain t (serverPath @ [n]) = Some (Cfg aks ads)"
    using assms(2) by simp
  then show ?thesis
    unfolding server_texts using assms serverPath_ok by (intro GetString_key) simp_all
qed

section \<open>The adapters\<close>

text \<open>TLS configurations and directories that can be made.\<close>

definition env_works :: "('f, 't) appEnv \<Rightarrow> bool" where
  "env_works env \<longleftrightarrow> (\<forall>ca cert key v ci. \<exists>t. aeServerTls env ca cert key v ci = Inr (Inr t))
     \<and> (\<forall>ca cert key ci. \<exists>t. aeClientTls env ca cert key ci = Inr (Inr t)) \<and> (\<forall>d. aeMkdirAll env d)"

lemma env_works_tls:
  assumes "env_works env"
  shows "\<exists>t. orPanic (aeServerTls env ca cert key v ci) = Inr t" "\<exists>t. orPanic (aeClientTls env ca cert key ci) = Inr t"
proof -
  obtain t t' where "aeServerTls env ca cert key v ci = Inr (Inr t)" "aeClientTls env ca cert key ci = Inr (Inr t')"
    using assms unfolding env_works_def by metis
  then show "\<exists>t. orPanic (aeServerTls env ca cert key v ci) = Inr t" "\<exists>t. orPanic (aeClientTls env ca cert key ci) = Inr t"
    by (simp_all add: orPanic_def)
qed

lemma adapterTls_works: "env_works env \<Longrightarrow> \<exists>t. adapterTls env c common n = Inr t"
proof -
  assume "env_works env"
  from env_works_tls(1) [OF this] obtain t where "orPanic (aeServerTls env (GetString c (adpKey n ''ca''))
      (GetString c (adpKey n ''cert'')) (GetString c (adpKey n ''key''))
      (GetString c (adpKey n ''verifyclient'') \<noteq> ascii ''0'') (GetString c (adpKey n ''ciphers''))) = Inr t" by blast
  then show ?thesis by (simp add: adapterTls_def Let_def)
qed

lemma newTarsServerConf_adapters [simp]:
  "newTarsServerConf p a (cfg\<lparr>scAdapters := x\<rparr>) opts = newTarsServerConf p a cfg opts"
  by (simp add: newTarsServerConf_def)

text \<open>The endpoint text of an adapter, its object, and the server it is given.\<close>

definition adapterEnd :: "Conf \<Rightarrow> gostring \<Rightarrow> gerr + Endpoint" where
  "adapterEnd c n = endpoint_Parse (GetString c (adpKey n ''endpoint''))"

definition adapterObj :: "Conf \<Rightarrow> gostring \<Rightarrow> gostring" where
  "adapterObj c n = GetString c (adpKey n ''servant'')"

definition adapterOpts :: "('f, 't) appEnv \<Rightarrow> Conf \<Rightarrow> 't option \<Rightarrow> gostring \<Rightarrow> Endpoint \<Rightarrow> gerr + 't ServerConfOption list" where
  "adapterOpts env c common n e =
     (if IsSSL e then bindPanic (adapterTls env c common n) (\<lambda>t. Inr [WithTlsConfig t]) else Inr [])"

definition adapterConf :: "Conf \<Rightarrow> 'f serverConfig \<Rightarrow> gostring \<Rightarrow> Endpoint \<Rightarrow> 't ServerConfOption list \<Rightarrow> 't tarsServerConf" where
  "adapterConf c cfg n e opts =
     newTarsServerConf (epProto e) (hostPort (if epBind e \<noteq> [] then epBind e else epHost e) (epPort e)) cfg
       (WithQueueCap (GetIntWithDef c (adpKey n ''queuecap'') (scQueueCap cfg)) # opts)"

text \<open>What the loop over the adapters keeps of the server's configuration.\<close>

definition same_but_adapters :: "'f serverConfig \<Rightarrow> 'f serverConfig \<Rightarrow> bool" where
  "same_but_adapters cfg cfg' \<longleftrightarrow> (\<exists>x. cfg' = cfg\<lparr>scAdapters := x\<rparr>)"

lemma same_but_adapters_refl: "same_but_adapters cfg cfg"
  unfolding same_but_adapters_def by (rule exI [of _ "scAdapters cfg"]) simp

lemma same_but_adapters_trans:
  "same_but_adapters a b \<Longrightarrow> same_but_adapters b c \<Longrightarrow> same_but_adapters a c"
  unfolding same_but_adapters_def by auto

lemma same_but_adapters_conf: "same_but_adapters cfg cfg' \<Longrightarrow> adapterConf c cfg' n e opts = adapterConf c cfg n e opts"
  by (auto simp: same_but_adapters_def adapterConf_def)

lemma initAdapter_result:
  "initAdapter env c common n a = Inr a' \<longleftrightarrow>
     (\<exists>e opts. adapterEnd c n = Inr e \<and> adapterOpts env c common n e = Inr opts
       \<and> a' = a\<lparr>apSvrCfg := (apSvrCfg a)\<lparr>scAdapters := AList.update n
              \<lparr>acEndpoint = e, acProtocol = GetString c (adpKey n ''protocol''), acObj = adapterObj c n,
               acThreads = GetInt c (adpKey n ''threads'')\<rparr> (scAdapters (apSvrCfg a))\<rparr>,
            apTarsConfig := AList.update (adapterObj c n) (adapterConf c (apSvrCfg a) n e opts) (apTarsConfig a)\<rparr>)"
  by (auto simp: initAdapter_def adapterEnd_def adapterObj_def adapterOpts_def adapterConf_def Let_def bindPanic_def
      split: sum.splits)

lemma initAdapter_effect:
  assumes "initAdapter env c common n a = Inr a1"
  shows "\<exists>e opts. adapterEnd c n = Inr e \<and> adapterOpts env c common n e = Inr opts
     \<and> same_but_adapters (apSvrCfg a) (apSvrCfg a1)
     \<and> apTarsConfig a1 = AList.update (adapterObj c n) (adapterConf c (apSvrCfg a) n e opts) (apTarsConfig a)"
proof -
  obtain e opts x where "adapterEnd c n = Inr e" "adapterOpts env c common n e = Inr opts"
    and "a1 = a\<lparr>apSvrCfg := (apSvrCfg a)\<lparr>scAdapters := x\<rparr>,
      apTarsConfig := AList.update (adapterObj c n) (adapterConf c (apSvrCfg a) n e opts) (apTarsConfig a)\<rparr>"
    using assms unfolding initAdapter_result by blast
  then show ?thesis by (intro exI [of _ e] exI [of _ opts]) (auto simp: same_but_adapters_def)
qed

lemma initAdapters_returns:
  assumes "env_works env"
  shows "(\<exists>a'. initAdapters env c common ns a = Inr a') \<longleftrightarrow> (\<forall>n \<in> set ns. \<exists>e. adapterEnd c n = Inr e)"
proof (induction ns arbitrary: a)
  case (Cons n ns)
  have opts: "\<exists>opts. adapterOpts env c common n e = Inr opts" for e
    using adapterTls_works [OF assms, of c common n] by (auto simp: adapterOpts_def)
  show ?case
  proof (cases "initAdapter env c common n a")
    case (Inl err)
    then have "\<nexists>a'. initAdapter env c common n a = Inr a'" by simp
    then have "\<nexists>e. adapterEnd c n = Inr e"
      unfolding initAdapter_result using opts by blast
    with Inl show ?thesis by simp
  next
    case (Inr a1)
    then have "\<exists>e. adapterEnd c n = Inr e" unfolding initAdapter_result by blast
    with Inr Cons.IH [of a1] show ?thesis by simp
  qed
qed simp

lemma initAdapters_same:
  "initAdapters env c common ns a = Inr a' \<Longrightarrow> same_but_adapters (apSvrCfg a) (apSvrCfg a')"
proof (induction ns arbitrary: a)
  case (Cons n ns)
  then obtain a1 where "initAdapter env c common n a = Inr a1" "initAdapters env c common ns a1 = Inr a'"
    by (auto simp: bindPanic_def split: sum.splits)
  then show ?case
    using initAdapter_effect [of env c common n a a1] Cons.IH [of a1] same_but_adapters_trans by blast
qed (simp add: same_but_adapters_refl)

lemma initAdapters_configures:
  assumes "initAdapters env c common ns a = Inr a'" and "distinct (map (adapterObj c) ns)"
  shows "(\<forall>n \<in> set ns. \<exists>e opts. adapterEnd c n = Inr e \<and> adapterOpts env c common n e = Inr opts
          \<and> map_of (apTarsConfig a') (adapterObj c n) = Some (adapterConf c (apSvrCfg a) n e opts))
     \<and> (\<forall>obj. obj \<notin> adapterObj c ` set ns \<longrightarrow> map_of (apTarsConfig a') obj = map_of (apTarsConfig a) obj)"
  using assms
proof (induction ns arbitrary: a)
  case Nil
  then show ?case by simp
next
  case (Cons n ns)
  obtain a1 where a1: "initAdapter env c common n a = Inr a1" "initAdapters env c common ns a1 = Inr a'"
    using Cons.prems(1) by (auto simp: bindPanic_def split: sum.splits)
  obtain e opts where e: "adapterEnd c n = Inr e" "adapterOpts env c common n e = Inr opts"
    and cfg: "same_but_adapters (apSvrCfg a) (apSvrCfg a1)"
    and tars: "apTarsConfig a1 = AList.update (adapterObj c n) (adapterConf c (apSvrCfg a) n e opts) (apTarsConfig a)"
    using initAdapter_effect [OF a1(1)] by blast
  note ih = Cons.IH [OF a1(2)]
  have d: "distinct (map (adapterObj c) ns)" "adapterObj c n \<notin> adapterObj c ` set ns"
    using Cons.prems(2) by simp_all
  note ih = ih [OF d(1)]
  show ?case
    using ih [unfolded same_but_adapters_conf [OF cfg]] d(2) e tars
    by (auto simp: update_conv)
qed

section \<open>The other parts\<close>

lemma initLog_works:
  assumes "env_works env"
  shows "\<exists>a1. initLog env a = Inr a1 \<and> scLocal (apSvrCfg a1) = scLocal (apSvrCfg a) \<and> apTarsConfig a1 = apTarsConfig a"
  using assms by (auto simp: initLog_def env_works_def Let_def split: sum.split)

lemma initNames_local [simp]: "scLocal (initNames ord c cfg) = GetString c (srvKey ''local'')"
  by (simp add: initNames_def Let_def)

lemma initLimits_local [simp]: "scLocal (initLimits c cfg m) = scLocal cfg"
  by (simp add: initLimits_def)

lemma initSampling_local [simp]: "scLocal (initSampling env c cfg) = scLocal cfg"
  by (simp add: initSampling_def)

lemma initServerTls_works:
  assumes "env_works env"
  shows "\<exists>t cfg'. initServerTls env c cfg = Inr (t, cfg') \<and> scLocal cfg' = scLocal cfg"
proof -
  obtain t where "orPanic (aeServerTls env (GetString c (srvKey ''ca'')) (GetString c (srvKey ''cert''))
      (GetString c (srvKey ''key'')) (GetStringWithDef c (srvKey ''verifyclient'') (ascii ''0'') \<noteq> ascii ''0'')
      (GetString c (srvKey ''ciphers''))) = Inr t"
    using env_works_tls(1) [OF assms] by blast
  then show ?thesis by (simp add: initServerTls_def Let_def)
qed

lemma initClientTls_works: "env_works env \<Longrightarrow> \<exists>t. initClientTls env c old = Inr t"
proof -
  assume "env_works env"
  from env_works_tls(2) [OF this] obtain t where "orPanic (aeClientTls env (GetString c (cltKey ''ca''))
      (GetString c (cltKey ''cert'')) (GetString c (cltKey ''key'')) (GetString c (cltKey ''ciphers''))) = Inr t" by blast
  then show ?thesis by (simp add: initClientTls_def Let_def)
qed

lemma initAuth_works:
  assumes "env_works env"
  shows "\<exists>a'. initAuth env c objName a = Inr a' \<and> apSvrCfg a' = apSvrCfg a \<and> apTarsConfig a' = apTarsConfig a"
proof -
  obtain t where t: "orPanic (aeClientTls env ca cert key ci) = Inr (t ca cert key ci)" for ca cert key ci
    using env_works_tls(2) [OF assms] by metis
  show ?thesis by (simp add: initAuth_def Let_def t)
qed

lemma initAuths_works:
  assumes "env_works env"
  shows "\<exists>a'. initAuths env c objs a = Inr a' \<and> apSvrCfg a' = apSvrCfg a \<and> apTarsConfig a' = apTarsConfig a"
proof (induction objs arbitrary: a)
  case (Cons obj objs)
  obtain a1 where "initAuth env c obj a = Inr a1" "apSvrCfg a1 = apSvrCfg a" "apTarsConfig a1 = apTarsConfig a"
    using initAuth_works [OF assms] by blast
  with Cons.IH [of a1] show ?case by simp
qed simp

text \<open>The administration object is configured when its address can be read.\<close>

definition localOk :: "Conf \<Rightarrow> bool" where
  "localOk c \<longleftrightarrow> (let l = GetString c (srvKey ''local'') in l = [] \<or> (\<exists>e. endpoint_Parse l = Inr e))"

lemma initAdmin_returns:
  assumes "scLocal (apSvrCfg a) = GetString c (srvKey ''local'')"
  shows "(\<exists>a'. initAdmin a = Inr a') \<longleftrightarrow> localOk c"
  using assms by (auto simp: initAdmin_def localOk_def Let_def bindPanic_def split: sum.split)

lemma initAdmin_effect:
  assumes "initAdmin a = Inr a'"
  shows "same_but_adapters (apSvrCfg a) (apSvrCfg a')
     \<and> (\<forall>obj. obj \<noteq> ascii ''AdminObj'' \<longrightarrow> map_of (apTarsConfig a') obj = map_of (apTarsConfig a) obj)"
proof (cases "scLocal (apSvrCfg a) = []")
  case True
  with assms show ?thesis by (simp add: initAdmin_def Let_def same_but_adapters_refl)
next
  case False
  then obtain e where "endpoint_Parse (scLocal (apSvrCfg a)) = Inr e"
    using assms by (auto simp: initAdmin_def Let_def bindPanic_def split: sum.splits)
  with False assms show ?thesis
    by (auto simp: initAdmin_def Let_def same_but_adapters_def update_conv)
qed

section \<open>Start-up\<close>

lemma initFromConf_steps:
  assumes "env_works env"
  obtains cfg a1 tls where "scLocal (apSvrCfg a1) = GetString c (srvKey ''local'')"
    and "initFromConf env c a = bindPanic (initAdapters env c tls (GetDomain (aeOrder env) c (appPath ''/server'')) a1)
      (\<lambda>a. bindPanic (initAdmin (a\<lparr>apSerList := GetDomain (aeOrder env) c (appPath ''/server'')\<rparr>))
        (initAuths env c (GetDomain (aeOrder env) c (appPath ''/client''))))"
proof -
  let ?a = "a\<lparr>apConf := Some c, apSvrCfg := initNames (aeOrder env) c (apSvrCfg a)\<rparr>"
  obtain a1 where a1: "initLog env ?a = Inr a1" "scLocal (apSvrCfg a1) = GetString c (srvKey ''local'')"
    using initLog_works [OF assms, of ?a] by auto
  obtain t cfg where t: "initServerTls env c (initLimits c (apSvrCfg a1) (aeMaxInvoke env)) = Inr (t, cfg)"
      "scLocal cfg = GetString c (srvKey ''local'')"
    using initServerTls_works [OF assms, of c "initLimits c (apSvrCfg a1) (aeMaxInvoke env)"] a1(2) by auto
  obtain ct where ct: "initClientTls env c (apClientTlsConfig a1) = Inr ct"
    using initClientTls_works [OF assms] by blast
  let ?b = "a1\<lparr>apMaxPackageLength := scMaxPackageLength cfg, apSvrCfg := initSampling env c cfg,
      apCltCfg := initClient (aeOrder env) c (apCltCfg a1), apClientTlsConfig := ct\<rparr>"
  show ?thesis
    by (rule that [of ?b t]) (simp_all add: t initFromConf_def a1 ct Let_def)
qed

lemma initFromConf_result:
  assumes "env_works env"
  shows "(\<exists>a'. initFromConf env c a = Inr a') \<longleftrightarrow>
      localOk c \<and> (\<forall>n \<in> set (GetDomain (aeOrder env) c (appPath ''/server'')). \<exists>e. adapterEnd c n = Inr e)"
    and "initFromConf env c a = Inr a' \<Longrightarrow>
      distinct (map (adapterObj c) (GetDomain (aeOrder env) c (appPath ''/server''))) \<Longrightarrow>
      \<forall>n \<in> set (GetDomain (aeOrder env) c (appPath ''/server'')). adapterObj c n \<noteq> ascii ''AdminObj'' \<longrightarrow>
        (\<exists>e opts tls. adapterEnd c n = Inr e \<and> adapterOpts env c tls n e = Inr opts
          \<and> map_of (apTarsConfig a') (adapterObj c n) = Some (adapterConf c (apSvrCfg a') n e opts))"
proof -
  let ?ns = "GetDomain (aeOrder env) c (appPath ''/server'')"
  obtain a1 tls where a1: "scLocal (apSvrCfg a1) = GetString c (srvKey ''local'')"
    and eq: "initFromConf env c a = bindPanic (initAdapters env c tls ?ns a1)
      (\<lambda>a. bindPanic (initAdmin (a\<lparr>apSerList := ?ns\<rparr>)) (initAuths env c (GetDomain (aeOrder env) c (appPath ''/client''))))"
    by (rule initFromConf_steps [OF assms])
  have keep: "scLocal (apSvrCfg a2) = GetString c (srvKey ''local'')" if "initAdapters env c tls ?ns a1 = Inr a2" for a2
    using initAdapters_same [OF that] a1 by (auto simp: same_but_adapters_def)
  show "(\<exists>a'. initFromConf env c a = Inr a') \<longleftrightarrow> localOk c \<and> (\<forall>n \<in> set ?ns. \<exists>e. adapterEnd c n = Inr e)"
  proof (cases "initAdapters env c tls ?ns a1")
    case (Inl err)
    then show ?thesis using initAdapters_returns [OF assms, of c tls ?ns a1] by (simp add: eq)
  next
    case (Inr a2)
    then have "\<forall>n \<in> set ?ns. \<exists>e. adapterEnd c n = Inr e"
      using initAdapters_returns [OF assms, of c tls ?ns a1] by blast
    moreover have "(\<exists>a'. initFromConf env c a = Inr a') \<longleftrightarrow> (\<exists>a3. initAdmin (a2\<lparr>apSerList := ?ns\<rparr>) = Inr a3)"
      using initAuths_works [OF assms] by (cases "initAdmin (a2\<lparr>apSerList := ?ns\<rparr>)") (fastforce simp: eq Inr)+
    ultimately show ?thesis
      using initAdmin_returns [of "a2\<lparr>apSerList := ?ns\<rparr>" c] keep [OF Inr] by simp
  qed
  assume "initFromConf env c a = Inr a'" and d: "distinct (map (adapterObj c) ?ns)"
  then obtain a2 a3 where a2: "initAdapters env c tls ?ns a1 = Inr a2" and a3: "initAdmin (a2\<lparr>apSerList := ?ns\<rparr>) = Inr a3"
    and a': "initAuths env c (GetDomain (aeOrder env) c (appPath ''/client'')) a3 = Inr a'"
    by (auto simp: eq bindPanic_def split: sum.splits)
  have fin: "apSvrCfg a' = apSvrCfg a3" "apTarsConfig a' = apTarsConfig a3"
    using initAuths_works [OF assms, of c "GetDomain (aeOrder env) c (appPath ''/client'')" a3] a' by auto
  have same: "same_but_adapters (apSvrCfg a1) (apSvrCfg a')"
    using same_but_adapters_trans [OF initAdapters_same [OF a2]] initAdmin_effect [OF a3] by (simp add: fin)
  show "\<forall>n \<in> set ?ns. adapterObj c n \<noteq> ascii ''AdminObj'' \<longrightarrow>
        (\<exists>e opts tls. adapterEnd c n = Inr e \<and> adapterOpts env c tls n e = Inr opts
          \<and> map_of (apTarsConfig a') (adapterObj c n) = Some (adapterConf c (apSvrCfg a') n e opts))"
    using initAdapters_configures [OF a2 d] initAdmin_effect [OF a3]
    unfolding same_but_adapters_conf [OF same] by (fastforce simp: fin)
qed

text \<open>The keys of an adapter in the document.\<close>

definition docEnd :: "cfg \<Rightarrow> gerr + Endpoint" where
  "docEnd d = endpoint_Parse (keyValue (cfKeys d) (ascii ''endpoint''))"

definition docObj :: "cfg \<Rightarrow> gostring" where
  "docObj d = keyValue (cfKeys d) (ascii ''servant'')"

lemma adapter_doc:
  assumes "holds c t" and "cfgDomain t serverPath = Some (Cfg ks ds)" and "(n, d) \<in> set ds" and "okName n"
  shows "adapterEnd c n = docEnd d" "adapterObj c n = docObj d"
  using adapter_key [OF assms(1,2), of n "cfKeys d" "cfDomains d"] assms(3,4)
  by (simp_all add: adapterEnd_def docEnd_def adapterObj_def docObj_def okName_def ascii_def)

lemma adapters_distinct:
  assumes "holds c t" and "cfgDomain t serverPath = Some (Cfg ks ds)" and "\<forall>(n, d) \<in> set ds. okName n"
    and "permutes ord" and "distinct (map (\<lambda>(n, d). docObj d) ds)"
  shows "distinct (map (adapterObj c) (GetDomain ord c (appPath ''/server'')))"
proof -
  have "inj_on (adapterObj c) (fst ` set ds)"
  proof (rule inj_onI)
    fix n n' assume "n \<in> fst ` set ds" "n' \<in> fst ` set ds" and eq: "adapterObj c n = adapterObj c n'"
    then obtain d d' where m: "(n, d) \<in> set ds" "(n', d') \<in> set ds" by auto
    then have "adapterObj c n = docObj d" "adapterObj c n' = docObj d'"
      using adapter_doc(2) [OF assms(1,2)] assms(3) by auto
    then have "docObj d = docObj d'" using eq by simp
    then have "(\<lambda>(n, d). docObj d) (n, d) = (\<lambda>(n, d). docObj d) (n', d')" by simp
    then show "n = n'" using m assms(5) unfolding distinct_map by (metis inj_onD prod.inject)
  qed
  then show ?thesis
    using GetDomain_doc [OF assms(1,2) serverPath_ok assms(4)] by (simp add: server_texts distinct_map)
qed


definition demo_adapter :: cfg where
  "demo_adapter = Cfg [(ascii ''endpoint'', ascii ''tcp''), (ascii ''servant'', ascii ''o'')] []"

definition demo_server :: cfg where
  "demo_server = Cfg [] [(ascii ''tars'', Cfg [] [(ascii ''application'', Cfg [] [(ascii ''server'', Cfg [] [(ascii ''a'', demo_adapter)])])])]"

definition demo_env :: "(unit, unit) appEnv" where
  "demo_env = \<lparr>aeLocalIP = [], aeMaxInvoke = 0, aeReadFile = (\<lambda>_. Inr []), aeDecode = (\<lambda>_. cfgTokens demo_server),
     aeUnmarshal = (\<lambda>_ x. x), aeParseFloat = (\<lambda>_. None), aeZero = (), aeServerTls = (\<lambda>_ _ _ _ _. Inr (Inr ())),
     aeClientTls = (\<lambda>_ _ _ _. Inr (Inr ())), aeMkdirAll = (\<lambda>_. True), aeOrder = (\<lambda>cs. cs)\<rparr>"


end
