(* ===== verification/App_Run.thy ===== *)
theory App_Run
  imports App_Startup Trace
begin

text \<open>
  A running application: servants registered by \<^verbatim>\<open>tars/servanthandle.go\<close>, the start of their servers, the main
  loop with its heartbeats and the shutdown of \<^verbatim>\<open>tars/application.go\<close>, the administration object of
  \<^verbatim>\<open>tars/admin.go\<close> and the properties of a communicator, \<^verbatim>\<open>tars/communicator.go\<close>. Sockets, processes and signals are
  not modelled: whether a server could listen is an argument, and a notification is recorded.
\<close>

section \<open>Servants\<close>

text \<open>A server of the transport with its protocol \<open>'p\<close>, and an HTTP server with its handler's configuration.\<close>

record ('t, 'p) goServer =
  gsProtocol :: 'p
  gsConf :: "'t tarsServerConf"
  gsServer :: TarsServer

record TarsHttpConf =
  hcContainer :: gostring
  hcAppName :: gostring
  hcIP :: gostring
  hcPort :: int32
  hcVersion :: gostring
  hcSetId :: gostring

record 't httpServer =
  hsAddr :: gostring
  hsConf :: TarsHttpConf
  hsTls :: "'t option"

text \<open>The state of the application that grows while servants are added, and the notifications it sent. \<open>arShutdown\<close> is
  the channel of the main loop, \<open>arTorn\<close> the once that guards it.\<close>

record ('f, 't, 'p) appRun =
  arApp :: "('f, 't) application"
  arObjRunList :: "gostring list"
  arGoSvrs :: "(gostring \<times> ('t, 'p) goServer) list"
  arHttpSvrs :: "(gostring \<times> 't httpServer) list"
  arDestroyable :: "gostring list"
  arNotices :: "(int32 \<times> gostring) list"
  arShutdown :: nat
  arTorn :: bool
  arIsShutdowning :: bool
  arShutdownByAdmin :: bool

definition NotifyNormal :: int32 where "NotifyNormal = 0"
definition NotifyError :: int32 where "NotifyError = 2"

text \<open>A notification is sent when there is a notify service.\<close>

definition noticed :: "int32 \<Rightarrow> gostring \<Rightarrow> ('f, 't, 'p) appRun \<Rightarrow> ('f, 't, 'p) appRun" where
  "noticed level info s =
     (if scNotify (apSvrCfg (arApp s)) = [] then s else s\<lparr>arNotices := arNotices s @ [(level, info)]\<rparr>)"

definition newGoServer :: "'p \<Rightarrow> 't tarsServerConf \<Rightarrow> int \<Rightarrow> ('t, 'p) goServer" where
  "newGoServer proto cfg now =
     \<lparr>gsProtocol = proto, gsConf = cfg, gsServer = NewTarsServer (TarsServerConf.truncate cfg) now\<rparr>"

text \<open>The object is put on the list of objects to run before its configuration is looked for. \<open>jp\<close> is the protocol made
  of dispatcher, implementation and flag; \<open>destroyable\<close> whether the implementation has a method \<^verbatim>\<open>Destroy\<close>.\<close>

definition addServantCommon :: "'p \<Rightarrow> bool \<Rightarrow> gostring \<Rightarrow> int \<Rightarrow> ('f, 't, 'p) appRun \<Rightarrow> gerr + ('f, 't, 'p) appRun" where
  "addServantCommon jp destroyable obj now s =
     (let s = s\<lparr>arObjRunList := arObjRunList s @ [obj]\<rparr> in
      case map_of (apTarsConfig (arApp s)) obj of
        None \<Rightarrow> Inl (Panic (''tars servant obj name not found: '' @ goText obj))
      | Some cfg \<Rightarrow>
          Inr (s\<lparr>arDestroyable := (if destroyable then arDestroyable s @ [obj] else arDestroyable s),
                 arGoSvrs := AList.update obj (newGoServer jp cfg now) (arGoSvrs s)\<rparr>))"

definition AddServantWithProtocol :: "'p \<Rightarrow> gostring \<Rightarrow> int \<Rightarrow> ('f, 't, 'p) appRun \<Rightarrow> gerr + ('f, 't, 'p) appRun" where
  "AddServantWithProtocol proto obj now s =
     (let s = s\<lparr>arObjRunList := arObjRunList s @ [obj]\<rparr> in
      case map_of (apTarsConfig (arApp s)) obj of
        None \<Rightarrow> Inl (Panic (''custom protocol servant obj name not found: '' @ goText obj))
      | Some cfg \<Rightarrow> Inr (s\<lparr>arGoSvrs := AList.update obj (newGoServer proto cfg now) (arGoSvrs s)\<rparr>))"

definition AddHttpServant :: "gostring \<Rightarrow> ('f, 't, 'p) appRun \<Rightarrow> gerr + ('f, 't, 'p) appRun" where
  "AddHttpServant obj s =
     (case map_of (apTarsConfig (arApp s)) obj of
        None \<Rightarrow> Inl (Panic (''http servant obj name not found: '' @ goText obj))
      | Some cfg \<Rightarrow>
          let s = s\<lparr>arObjRunList := arObjRunList s @ [obj]\<rparr>;
              addrInfo = strings_SplitN2 (cfAddress cfg) 58;
              svrCfg = apSvrCfg (arApp s)
          in bindPanic (if length addrInfo = 2
                        then (case ParseInt (addrInfo ! 1) 10 32 of
                                None \<Rightarrow> Inl (Panic ''http server listen port'') | Some port \<Rightarrow> Inr port)
                        else Inr 0)
               (\<lambda>port. Inr (s\<lparr>arHttpSvrs := AList.update obj
                  \<lparr>hsAddr = cfAddress cfg,
                   hsConf = \<lparr>hcContainer = scContainer svrCfg, hcAppName = scApp svrCfg @ 46 # scServer svrCfg,
                     hcIP = addrInfo ! 0, hcPort = word_of_int port, hcVersion = scVersion svrCfg,
                     hcSetId = scSetdivision svrCfg\<rparr>,
                   hsTls = cfTlsConfig cfg\<rparr> (arHttpSvrs s)\<rparr>)))"

section \<open>Running\<close>

text \<open>\<^verbatim>\<open>teerDown\<close>: only the first call signals the main loop.\<close>

definition teerDown :: "gostring option \<Rightarrow> ('f, 't, 'p) appRun \<Rightarrow> ('f, 't, 'p) appRun" where
  "teerDown err s =
     (if arTorn s then s
      else let s = (case err of None \<Rightarrow> s | Some e \<Rightarrow> noticed NotifyNormal (ascii ''server is fatal: '' @ e) s)
           in s\<lparr>arTorn := True, arShutdown := Suc (arShutdown s)\<rparr>)"

text \<open>What became of the start of a server: it serves, or could not listen, which the text says.\<close>

type_synonym listening = "gostring \<Rightarrow> gostring option"

definition startHttp :: "listening \<Rightarrow> gostring \<Rightarrow> 't httpServer \<Rightarrow> ('f, 't, 'p) appRun \<Rightarrow> bool \<times> ('f, 't, 'p) appRun" where
  "startHttp listen obj h s =
     (if hsAddr h = [] then (False, teerDown (Some (ascii ''empty addr for '' @ obj)) s)
      else (case listen obj of
              Some err \<Rightarrow> (False, teerDown (Some (ascii ''start http server for '' @ obj @ ascii '' failed: '' @ err)) s)
            | None \<Rightarrow> (True, s)))"

definition startGo :: "listening \<Rightarrow> gostring \<Rightarrow> ('f, 't, 'p) appRun \<Rightarrow> bool \<times> ('f, 't, 'p) appRun" where
  "startGo listen obj s =
     (case listen obj of
        Some err \<Rightarrow> (False, teerDown (Some (ascii ''listen obj for '' @ obj @ ascii '' failed: '' @ err)) s)
      | None \<Rightarrow> (True, s))"

text \<open>The loop of \<^verbatim>\<open>Run\<close> over the objects: the objects that serve, in the order of the list. An object without a server
  ends the loop.\<close>

fun runObjs :: "listening \<Rightarrow> gostring list \<Rightarrow> ('f, 't, 'p) appRun \<Rightarrow> gostring list \<times> ('f, 't, 'p) appRun" where
  "runObjs listen [] s = ([], s)"
| "runObjs listen (obj # objs) s =
     (case map_of (arHttpSvrs s) obj of
        Some h \<Rightarrow>
          (case startHttp listen obj h s of (ok, s) \<Rightarrow>
             (case runObjs listen objs s of (up, s) \<Rightarrow> (if ok then obj # up else up, s)))
      | None \<Rightarrow>
          (case map_of (arGoSvrs s) obj of
             None \<Rightarrow> ([], teerDown (Some (ascii ''obj not found '' @ obj)) s)
           | Some g \<Rightarrow>
               (case startGo listen obj s of (ok, s) \<Rightarrow>
                  (case runObjs listen objs s of (up, s) \<Rightarrow> (if ok then obj # up else up, s)))))"

text \<open>\<^verbatim>\<open>Run\<close> adds the administration object itself when it is configured.\<close>

definition app_Run :: "listening \<Rightarrow> 'p \<Rightarrow> int \<Rightarrow> ('f, 't, 'p) appRun \<Rightarrow> gerr + gostring list \<times> ('f, 't, 'p) appRun" where
  "app_Run listen adminProtocol now s =
     (let s = s\<lparr>arIsShutdowning := False\<rparr> in
      bindPanic (case map_of (apTarsConfig (arApp s)) (ascii ''AdminObj'') of
                   Some _ \<Rightarrow> addServantCommon adminProtocol False (ascii ''AdminObj'') now s
                 | None \<Rightarrow> Inr s)
        (\<lambda>s. case runObjs listen (arObjRunList s) s of (up, s) \<Rightarrow> Inr (up, noticed NotifyNormal (ascii ''restart'') s)))"

text \<open>One tick of the main loop: the adapters that a heartbeat is sent for.\<close>

definition mainTick :: "int \<Rightarrow> ('f, 't, 'p) appRun \<Rightarrow> gostring list" where
  "mainTick now s =
     (if arIsShutdowning s then []
      else concat (map (\<lambda>(name, adapter).
        if acProtocol adapter = ascii ''not_tars'' then [name]
        else (case map_of (arGoSvrs s) (acObj adapter) of
                Some g \<Rightarrow> if \<not> IsZombie (sint (scZombieTimeout (apSvrCfg (arApp s)))) now (gsServer g) then [name] else []
              | None \<Rightarrow> [])) (scAdapters (apSvrCfg (arApp s)))))"

text \<open>The main loop returns when it is signalled.\<close>

definition mainStop :: "('f, 't, 'p) appRun \<Rightarrow> ('f, 't, 'p) appRun option" where
  "mainStop s = (case arShutdown s of
     0 \<Rightarrow> None
   | Suc n \<Rightarrow> Some (noticed NotifyNormal (ascii ''stop'') (s\<lparr>arShutdown := n\<rparr>)))"

text \<open>\<^verbatim>\<open>graceShutdown\<close> asks every object to stop and then, whether they did in time or not, ends the main loop. The
  result is the timeout and the servers asked.\<close>

definition graceShutdown :: "('f, 't, 'p) appRun \<Rightarrow> (int64 \<times> gostring list) \<times> ('f, 't, 'p) appRun" where
  "graceShutdown s =
     (let timeout = (if arShutdownByAdmin s then ParseTimeOut GracedownTimeout else scGracedownTimeout (apSvrCfg (arApp s)));
          asked = concat (map (\<lambda>obj. (case map_of (arHttpSvrs s) obj of Some _ \<Rightarrow> [obj] | None \<Rightarrow> [])
            @ (case map_of (arGoSvrs s) obj of Some _ \<Rightarrow> [obj] | None \<Rightarrow> [])) (arObjRunList s))
      in ((timeout, arDestroyable s @ asked), teerDown None (s\<lparr>arIsShutdowning := True\<rparr>)))"

section \<open>Administration\<close>

text \<open>An \<^verbatim>\<open>Admin\<close> has a pointer to its application; \<open>adApp\<close> says whether it is set. Commands that go through a nil
  pointer panic.\<close>

record Admin =
  adApp :: bool

text \<open>The object that \<^verbatim>\<open>Run\<close> makes: \<^verbatim>\<open>new(Admin)\<close>, whose pointer is nil.\<close>

definition runAdmin :: Admin where "runAdmin = \<lparr>adApp = False\<rparr>"

definition RegisterAdmin :: "gostring \<Rightarrow> ('f, 't) application \<Rightarrow> ('f, 't) application" where
  "RegisterAdmin name a = a\<lparr>apAdminMethods := List.insert name (apAdminMethods a)\<rparr>"

definition throughApp :: "Admin \<Rightarrow> 'a \<Rightarrow> gerr + 'a" where
  "throughApp ad x = (if adApp ad then Inr x else Inl (Panic ''nil pointer dereference''))"

definition Admin_Shutdown :: "Admin \<Rightarrow> ('f, 't, 'p) appRun \<Rightarrow> gerr + ('f, 't, 'p) appRun" where
  "Admin_Shutdown ad s = throughApp ad (snd (graceShutdown (s\<lparr>arShutdownByAdmin := True\<rparr>)))"

definition levelCommand :: "gostring \<Rightarrow> LogLevel option" where
  "levelCommand l =
     (if l = ascii ''INFO'' then Some INFO else if l = ascii ''WARN'' then Some WARN
      else if l = ascii ''ERROR'' then Some ERROR else if l = ascii ''DEBUG'' then Some DEBUG
      else if l = ascii ''NONE'' then Some OFF else None)"

definition setLogLevel :: "gostring \<Rightarrow> gostring list \<Rightarrow> ('f, 't, 'p) appRun \<Rightarrow> gostring \<times> ('f, 't, 'p) appRun" where
  "setLogLevel command cmd s =
     (let a = (arApp s)\<lparr>apAppCache := (apAppCache (arApp s))\<lparr>ahLogLevel := cmd ! 1\<rparr>\<rparr> in
      case levelCommand (cmd ! 1) of
        None \<Rightarrow> (cmd ! 0 @ ascii '' failed: unknown log level ['' @ cmd ! 1 @ ascii '']!'', s\<lparr>arApp := a\<rparr>)
      | Some l \<Rightarrow> (command @ ascii '' succ'', s\<lparr>arApp := a\<lparr>apLogLevel := l\<rparr>\<rparr>))"

text \<open>\<open>getConfig\<close> is \<^verbatim>\<open>GetConfig\<close> of the remote configuration, \<open>run\<close> the registered functions; both may fail with a text.\<close>

definition Admin_Notify :: "(gostring \<Rightarrow> gostring option) \<Rightarrow> (gostring \<Rightarrow> gostring \<Rightarrow> gostring \<times> gostring option) \<Rightarrow> Admin
    \<Rightarrow> gostring \<Rightarrow> ('f, 't, 'p) appRun \<Rightarrow> gerr + (gostring \<times> gostring option) \<times> ('f, 't, 'p) appRun" where
  "Admin_Notify getConfig run ad command s =
     (let cmd = strings_Split command 32;
          s = noticed NotifyNormal (ascii ''AdminServant::notify:'' @ command) s;
          cfg = apSvrCfg (arApp s)
      in if cmd ! 0 = ascii ''tars.viewversion'' then throughApp ad ((scVersion cfg, None), s)
         else if cmd ! 0 = ascii ''tars.setloglevel'' then
           (if length cmd \<ge> 2 then throughApp ad (case setLogLevel command cmd s of (r, s) \<Rightarrow> ((r, None), s))
            else Inr ((command @ ascii '' failed: missing loglevel!'', None), s))
         else if cmd ! 0 = ascii ''tars.dumpstack'' then Inr ((command @ ascii '' succ'', None), s)
         else if cmd ! 0 = ascii ''tars.loadconfig'' then
           bindPanic (throughApp ad ()) (\<lambda>_.
             if length cmd < 2 then Inl (Panic ''index out of range'')
             else (case getConfig (cmd ! 1) of
                     Some err \<Rightarrow> Inr ((ascii ''Getconfig Error!: '' @ cmd ! 1, Some err), s)
                   | None \<Rightarrow> Inr ((ascii ''Getconfig Success!: '' @ cmd ! 1, None), s)))
         else if cmd ! 0 = ascii ''tars.connection'' then Inr ((command @ ascii '' not support now!'', None), s)
         else if cmd ! 0 = ascii ''tars.gracerestart'' then throughApp ad ((ascii ''restart gracefully!'', None), s)
         else if cmd ! 0 = ascii ''tars.pprof'' then
           throughApp ad ((ascii ''see http://'' @ scLocalIP cfg
             @ (if length cmd > 1 then 58 # cmd ! 1 else ascii '':8080'') @ ascii ''/debug/pprof/'', None), s)
         else bindPanic (throughApp ad ()) (\<lambda>_.
           if cmd ! 0 \<in> set (apAdminMethods (arApp s)) then Inr (run (cmd ! 0) command, s)
           else Inr ((command @ ascii '' not support now!'', None), s)))"

section \<open>Communicators\<close>

datatype propVal = PStr gostring | PInt int | PBool bool

record Communicator =
  cmClient :: clientConfig
  cmProperties :: "(gostring \<times> propVal) list"
  cmTraceParamMaxLen :: uint64

text \<open>A type assertion on another type panics.\<close>

definition GetPropertyInt :: "gostring \<Rightarrow> Communicator \<Rightarrow> gerr + int \<times> bool" where
  "GetPropertyInt key c = (case map_of (cmProperties c) key of
     None \<Rightarrow> Inr (0, False) | Some (PInt i) \<Rightarrow> Inr (i, True) | Some _ \<Rightarrow> Inl (Panic ''interface conversion''))"

definition GetPropertyBool :: "gostring \<Rightarrow> Communicator \<Rightarrow> gerr + bool \<times> bool" where
  "GetPropertyBool key c = (case map_of (cmProperties c) key of
     None \<Rightarrow> Inr (False, False) | Some (PBool b) \<Rightarrow> Inr (b, True) | Some _ \<Rightarrow> Inl (Panic ''interface conversion''))"

definition GetProperty :: "gostring \<Rightarrow> Communicator \<Rightarrow> gerr + gostring \<times> bool" where
  "GetProperty key c = (case map_of (cmProperties c) key of
     None \<Rightarrow> Inr ([], False) | Some (PStr s) \<Rightarrow> Inr (s, True) | Some _ \<Rightarrow> Inl (Panic ''interface conversion''))"

definition SetTraceParam :: "gostring \<Rightarrow> Communicator \<Rightarrow> gerr + Communicator" where
  "SetTraceParam name c =
     (if name \<noteq> [] \<and> name \<noteq> ascii ''trace_param_max_len'' then Inr c
      else bindPanic (GetPropertyInt (ascii ''trace_param_max_len'') c) (\<lambda>(v, ok).
        if ok then Inr (c\<lparr>cmTraceParamMaxLen := SetTraceParamMaxLen (word_of_int v) (cmTraceParamMaxLen c)\<rparr>)
        else Inr c))"

definition SetProperty :: "gostring \<Rightarrow> propVal \<Rightarrow> Communicator \<Rightarrow> gerr + Communicator" where
  "SetProperty key v c = SetTraceParam key (c\<lparr>cmProperties := AList.update key v (cmProperties c)\<rparr>)"

fun SetProperties :: "(string \<times> propVal) list \<Rightarrow> Communicator \<Rightarrow> gerr + Communicator" where
  "SetProperties [] c = Inr c"
| "SetProperties ((k, v) # kvs) c = bindPanic (SetProperty (ascii k) v c) (SetProperties kvs)"

definition comm_init :: "'f serverConfig \<Rightarrow> Communicator \<Rightarrow> gerr + Communicator" where
  "comm_init svrCfg c = SetProperties
     ([(''locator'', PStr (ccLocator (cmClient c))), (''isclient'', PBool True), (''enableset'', PBool False),
       (''notify'', PStr (scNotify svrCfg)), (''node'', PStr (scNode svrCfg)), (''server'', PStr (scServer svrCfg)),
       (''isclient'', PBool False)]
      @ (if scEnableset svrCfg then [(''enableset'', PBool True), (''setdivision'', PStr (scSetdivision svrCfg))] else [])) c"

definition NewCommunicator :: "('f, 't) application \<Rightarrow> uint64 \<Rightarrow> gerr + Communicator" where
  "NewCommunicator a maxLen =
     comm_init (apSvrCfg a) \<lparr>cmClient = apCltCfg a, cmProperties = [], cmTraceParamMaxLen = maxLen\<rparr>"

definition SetLocator :: "gostring \<Rightarrow> Communicator \<Rightarrow> gerr + Communicator" where
  "SetLocator obj c = bindPanic (SetProperty (ascii ''locator'') (PStr obj) c)
     (\<lambda>c. Inr (c\<lparr>cmClient := (cmClient c)\<lparr>ccLocator := obj\<rparr>\<rparr>))"

definition GetLocator :: "Communicator \<Rightarrow> gerr + gostring" where
  "GetLocator c = bindPanic (GetProperty (ascii ''locator'') c) (\<lambda>(v, _). Inr v)"

text \<open>\<^verbatim>\<open>%v\<close> of a property, and the text whose \<^verbatim>\<open>crypto/md5\<close> sum is the key of a communicator.\<close>

fun propText :: "propVal \<Rightarrow> gostring" where
  "propText (PStr s) = s"
| "propText (PInt i) = fmt_d i"
| "propText (PBool b) = (if b then ascii ''true'' else ascii ''false'')"

definition hashText :: "Communicator \<Rightarrow> bytes" where
  "hashText c = concat (map (\<lambda>k. case map_of (cmProperties c) (ascii k) of
     None \<Rightarrow> [] | Some v \<Rightarrow> ascii k @ 58 # propText v) [''locator'', ''enableset'', ''setdivision''])"

definition comm_hashKey :: "(bytes \<Rightarrow> bytes) \<Rightarrow> Communicator \<Rightarrow> gostring" where
  "comm_hashKey md5 c = hex_EncodeToString (md5 (hashText c))"

end
