(* ===== verification/App_Properties.thy ===== *)
theory App_Properties
  imports App_Run
begin

text \<open>
  The life of an application: configured servants are served and kept alive, the main loop is signalled once, and
  the administration object crashes the server.
\<close>

section \<open>Serving\<close>

text \<open>Servants added one after the other, each with its protocol.\<close>

fun addServants :: "('p \<times> bool \<times> gostring) list \<Rightarrow> int \<Rightarrow> ('f, 't, 'p) appRun \<Rightarrow> gerr + ('f, 't, 'p) appRun" where
  "addServants [] now s = Inr s"
| "addServants ((jp, d, obj) # rest) now s = bindPanic (addServantCommon jp d obj now s) (addServants rest now)"

abbreviation servantObj :: "'p \<times> bool \<times> gostring \<Rightarrow> gostring" where
  "servantObj x \<equiv> snd (snd x)"

text \<open>What adding servants keeps, and the servers it leaves: fresh ones, with the configuration of their object.\<close>

definition fresh_servers :: "('f, 't, 'p) appRun \<Rightarrow> bool" where
  "fresh_servers s \<longleftrightarrow> (\<forall>obj g. map_of (arGoSvrs s) obj = Some g \<longrightarrow>
     map_of (apTarsConfig (arApp s)) obj = Some (gsConf g) \<and> tsNumInvoke (gsServer g) = 0
     \<and> tsConf (gsServer g) = TarsServerConf.truncate (gsConf g))"

lemma addServantCommon_result:
  "addServantCommon jp d obj now s = Inr s' \<longleftrightarrow>
     (\<exists>cfg. map_of (apTarsConfig (arApp s)) obj = Some cfg
       \<and> s' = s\<lparr>arObjRunList := arObjRunList s @ [obj],
            arDestroyable := (if d then arDestroyable s @ [obj] else arDestroyable s),
            arGoSvrs := AList.update obj (newGoServer jp cfg now) (arGoSvrs s)\<rparr>)"
  by (auto simp: addServantCommon_def Let_def split: option.split)

lemma addServantCommon_step:
  assumes "addServantCommon jp d obj now s = Inr s'" and "fresh_servers s"
  shows "fresh_servers s' \<and> arApp s' = arApp s \<and> arHttpSvrs s' = arHttpSvrs s \<and> arShutdown s' = arShutdown s
    \<and> arTorn s' = arTorn s \<and> arIsShutdowning s' = arIsShutdowning s \<and> arObjRunList s' = arObjRunList s @ [obj]
    \<and> dom (map_of (arGoSvrs s')) = insert obj (dom (map_of (arGoSvrs s)))"
proof -
  obtain cfg where cfg: "map_of (apTarsConfig (arApp s)) obj = Some cfg"
    and s': "s' = s\<lparr>arObjRunList := arObjRunList s @ [obj],
            arDestroyable := (if d then arDestroyable s @ [obj] else arDestroyable s),
            arGoSvrs := AList.update obj (newGoServer jp cfg now) (arGoSvrs s)\<rparr>"
    using assms(1) unfolding addServantCommon_result by blast
  have "fresh_servers s'"
    using assms(2) cfg unfolding fresh_servers_def s'
    by (simp add: update_conv newGoServer_def NewTarsServer_def)
  moreover have "dom (map_of (arGoSvrs s')) = insert obj (dom (map_of (arGoSvrs s)))"
    by (simp add: s' update_conv')
  ultimately show ?thesis by (simp add: s')
qed

lemma addServants_returns:
  "(\<exists>s'. addServants ps now s = Inr s') \<longleftrightarrow> servantObj ` set ps \<subseteq> dom (map_of (apTarsConfig (arApp s)))"
proof (induction ps arbitrary: s)
  case (Cons p ps)
  obtain jp d obj where p: "p = (jp, d, obj)" by (cases p)
  show ?case
  proof (cases "addServantCommon jp d obj now s")
    case (Inl e)
    then have "map_of (apTarsConfig (arApp s)) obj = None"
      by (auto simp: addServantCommon_def Let_def split: option.splits)
    then show ?thesis using Inl by (auto simp: p)
  next
    case (Inr s1)
    then have "obj \<in> dom (map_of (apTarsConfig (arApp s)))" "arApp s1 = arApp s"
      unfolding addServantCommon_result by auto
    then show ?thesis using Inr Cons.IH [of s1] by (simp add: p)
  qed
qed simp

lemma addServants_step:
  assumes "addServants ps now s = Inr s'" and "fresh_servers s"
  shows "fresh_servers s' \<and> arApp s' = arApp s \<and> arHttpSvrs s' = arHttpSvrs s \<and> arShutdown s' = arShutdown s
    \<and> arTorn s' = arTorn s \<and> arIsShutdowning s' = arIsShutdowning s
    \<and> arObjRunList s' = arObjRunList s @ map servantObj ps
    \<and> dom (map_of (arGoSvrs s')) = dom (map_of (arGoSvrs s)) \<union> servantObj ` set ps"
  using assms
proof (induction ps arbitrary: s)
  case (Cons p ps)
  obtain jp d obj where p: "p = (jp, d, obj)" by (cases p)
  obtain s1 where s1: "addServantCommon jp d obj now s = Inr s1" "addServants ps now s1 = Inr s'"
    using Cons.prems(1) by (auto simp: p bindPanic_def split: sum.splits)
  note a = addServantCommon_step [OF s1(1) Cons.prems(2)]
  then show ?case
    using Cons.IH [OF s1(2)] by (auto simp: p)
qed simp

text \<open>When all servers can listen, all objects of the list serve.\<close>

lemma runObjs_all:
  assumes "\<forall>obj. listen obj = None" and "arHttpSvrs s = []" and "set objs \<subseteq> dom (map_of (arGoSvrs s))"
  shows "runObjs listen objs s = (objs, s)"
  using assms(3)
proof (induction objs)
  case (Cons obj objs)
  then obtain g where "map_of (arGoSvrs s) obj = Some g" by auto
  with Cons assms(1,2) show ?case by (simp add: startGo_def)
qed simp

lemma fresh_not_zombie: "tsNumInvoke ts = 0 \<Longrightarrow> \<not> IsZombie timeout now ts"
  by (auto simp: IsZombie_def)

lemma mainTick_all:
  assumes "fresh_servers s" and "\<not> arIsShutdowning s"
    and "\<forall>(name, ad) \<in> set (scAdapters (apSvrCfg (arApp s))). acObj ad \<in> dom (map_of (arGoSvrs s))"
  shows "mainTick now s = map fst (scAdapters (apSvrCfg (arApp s)))"
proof -
  let ?beat = "\<lambda>(name, adapter).
        if acProtocol adapter = ascii ''not_tars'' then [name]
        else (case map_of (arGoSvrs s) (acObj adapter) of
                Some g \<Rightarrow> if \<not> IsZombie (sint (scZombieTimeout (apSvrCfg (arApp s)))) now (gsServer g) then [name] else []
              | None \<Rightarrow> [])"
  have "?beat x = [fst x]" if "x \<in> set (scAdapters (apSvrCfg (arApp s)))" for x
  proof -
    have "acObj (snd x) \<in> dom (map_of (arGoSvrs s))" using assms(3) that by (auto simp: split_def)
    then obtain g where g: "map_of (arGoSvrs s) (acObj (snd x)) = Some g" by blast
    then have "tsNumInvoke (gsServer g) = 0" using assms(1) by (simp add: fresh_servers_def)
    then show ?thesis using g by (cases x) (simp add: fresh_not_zombie)
  qed
  then have m: "map ?beat (scAdapters (apSvrCfg (arApp s))) = map (\<lambda>x. [fst x]) (scAdapters (apSvrCfg (arApp s)))"
    by (intro map_cong refl)
  show ?thesis unfolding mainTick_def m using assms(2) by simp
qed

text \<open>An application before any servant was added.\<close>

definition newRun :: "('f, 't) application \<Rightarrow> ('f, 't, 'p) appRun" where
  "newRun a = \<lparr>arApp = a, arObjRunList = [], arGoSvrs = [], arHttpSvrs = [], arDestroyable = [], arNotices = [],
     arShutdown = 0, arTorn = False, arIsShutdowning = False, arShutdownByAdmin = False\<rparr>"


definition demo_app :: "(unit, unit) application" where
  "demo_app = \<lparr>apConf = None, apSvrCfg = (newServerConfig [] 0 ())\<lparr>scAdapters := [(ascii ''a'',
       \<lparr>acEndpoint = demo_text_endpoint, acProtocol = [], acObj = ascii ''o'', acThreads = 1\<rparr>)]\<rparr>,
     apCltCfg = newClientConfig, apTarsConfig = [(ascii ''o'', newTarsServerConf [] [] (newServerConfig [] 0 ()) [])],
     apSerList = [], apClientObjInfo = [], apClientObjTlsConfig = [], apClientTlsConfig = None,
     apAppCache = \<lparr>ahTarsVersion = [], ahModifyTime = [], ahLogLevel = []\<rparr>, apAdminMethods = [], apLogLevel = DEBUG,
     apLogRoller = None, apMaxPackageLength = 0\<rparr>"


section \<open>Stopping\<close>

text \<open>However often and for whatever reason an application is told to stop, the main loop is signalled once.\<close>

lemma teerDown_once: "arTorn (teerDown e s) \<and> arShutdown (teerDown e s) = (if arTorn s then arShutdown s else Suc (arShutdown s))"
  by (auto simp: teerDown_def noticed_def Let_def split: option.split)

lemma teerDown_many:
  assumes "\<not> arTorn s" and "es \<noteq> []"
  shows "arShutdown (foldl (\<lambda>s e. teerDown e s) s es) = Suc (arShutdown s)"
proof -
  have torn: "arTorn s \<Longrightarrow> arShutdown (foldl (\<lambda>s e. teerDown e s) s es) = arShutdown s" for s :: "('a, 'b, 'c) appRun" and es
    by (induction es arbitrary: s) (simp_all add: teerDown_once)
  obtain e es' where "es = e # es'" using assms(2) by (cases es) auto
  then show ?thesis
    using teerDown_once [of e s] torn [of "teerDown e s" es'] assms(1) by simp
qed

section \<open>Administration\<close>

text \<open>The commands that do without the application.\<close>

definition harmless :: "gostring \<Rightarrow> bool" where
  "harmless command \<longleftrightarrow> (let cmd = strings_Split command 32 in
     cmd ! 0 \<in> {ascii ''tars.dumpstack'', ascii ''tars.connection''}
     \<or> cmd ! 0 = ascii ''tars.setloglevel'' \<and> length cmd < 2)"

lemma nested_panic:
  "\<not> dump \<Longrightarrow> \<not> conn \<Longrightarrow> (level \<Longrightarrow> given) \<Longrightarrow>
     (if version then p else if level then (if given then p else x) else if dump then y else if load then p
      else if conn then z else if restart then p else if prof then p else p) = p"
  by simp

lemma if_returns: "(b \<Longrightarrow> \<exists>r. x = Inr r) \<Longrightarrow> (\<not> b \<Longrightarrow> \<exists>r. y = Inr r) \<Longrightarrow> \<exists>r. (if b then x else y) = Inr r"
  by simp

text \<open>C40: the administration object that \<^verbatim>\<open>Run\<close> registers has no application: a shutdown, and every command but a dump of
  the stacks, a question for connections and a log level that is not given, panics. With an application the same
  commands return, but for a configuration to load that is not named.\<close>

theorem admin_commands_panic:
  "Admin_Shutdown runAdmin s = Inl (Panic ''nil pointer dereference'')
   \<and> (\<not> harmless command \<longrightarrow> Admin_Notify getConfig run runAdmin command s = Inl (Panic ''nil pointer dereference''))
   \<and> (adApp ad \<longrightarrow> \<not> (hd (strings_Split command 32) = ascii ''tars.loadconfig'' \<and> length (strings_Split command 32) < 2) \<longrightarrow>
        (\<exists>r. Admin_Notify getConfig run ad command s = Inr r))"
proof (intro conjI impI)
  show "Admin_Shutdown runAdmin s = Inl (Panic ''nil pointer dereference'')"
    by (simp add: Admin_Shutdown_def throughApp_def runAdmin_def)
  let ?cmd = "strings_Split command 32"
  have p: "throughApp runAdmin x = Inl (Panic ''nil pointer dereference'')" for x :: 'x
    by (simp add: throughApp_def runAdmin_def)
  show "Admin_Notify getConfig run runAdmin command s = Inl (Panic ''nil pointer dereference'')"
    if "\<not> harmless command"
  proof -
    have c: "?cmd ! 0 \<noteq> ascii ''tars.dumpstack''" "?cmd ! 0 \<noteq> ascii ''tars.connection''"
      "?cmd ! 0 = ascii ''tars.setloglevel'' \<Longrightarrow> 2 \<le> length ?cmd"
      using that by (auto simp: harmless_def Let_def)
    show ?thesis
      unfolding Admin_Notify_def Let_def p bindPanic_simps by (rule nested_panic) (use c in blast)+
  qed
  have ok: "throughApp ad x = Inr x" if "adApp ad" for x :: 'x
    using that by (simp add: throughApp_def)
  have h: "?cmd ! 0 = hd ?cmd"
    by (simp add: hd_conv_nth)
  show "\<exists>r. Admin_Notify getConfig run ad command s = Inr r"
    if "adApp ad" and "\<not> (hd ?cmd = ascii ''tars.loadconfig'' \<and> length ?cmd < 2)"
    unfolding Admin_Notify_def Let_def h ok [OF that(1)] bindPanic_simps
    by (intro if_returns) (use that(2) in \<open>auto split: option.split\<close>)
qed

theorem admin_commands_panic_witness:
  "Admin_Notify (\<lambda>_. None) (\<lambda>_ _. ([], None)) runAdmin (ascii ''tars.viewversion'') (newRun demo_app :: (unit, unit, unit) appRun)
     = Inl (Panic ''nil pointer dereference'')"
proof -
  have "\<not> harmless (ascii ''tars.viewversion'')"
    by (simp add: harmless_def ascii_def Let_def)
  then show ?thesis
    using admin_commands_panic [of "newRun demo_app :: (unit, unit, unit) appRun" "ascii ''tars.viewversion''"
        "\<lambda>_. None" "\<lambda>_ _. ([], None)" runAdmin] by blast
qed

end
