(* ===== verification/Stat_Report.thy ===== *)
theory Stat_Report
  imports App_Config Framework_Services
begin

text \<open>
  The statistics of calls, \<^verbatim>\<open>tars/statf.go\<close>: every call makes a message that is put into a channel; a loop collects
  the messages in maps, one for calls made and one for calls served, and hands each map to the statistics service
  when its ticker fires. A map is an association list. The call of the service is an argument.
\<close>

section \<open>Collecting\<close>

definition timePoint :: "int32 list" where
  "timePoint = [5, 10, 50, 100, 200, 500, 1000, 2000, 3000]"

record StatInfo =
  siHead :: StatMicMsgHead
  siBody :: StatMicMsgBody

text \<open>Reading a counter that is not in the map gives 0.\<close>

definition counter :: "(int32 \<times> int32) list \<Rightarrow> int32 \<Rightarrow> int32" where
  "counter m point = (case map_of m point of None \<Rightarrow> 0 | Some n \<Rightarrow> n)"

fun intervLoop :: "bool \<Rightarrow> bool \<Rightarrow> int32 \<Rightarrow> int32 list \<Rightarrow> (int32 \<times> int32) list \<Rightarrow> (int32 \<times> int32) list" where
  "intervLoop bNeedInit bGetIntev totalRspTime [] m = m"
| "intervLoop bNeedInit bGetIntev totalRspTime (point # points) m =
     (if \<not> bGetIntev \<and> sint totalRspTime < sint point
      then let m = AList.update point (counter m point + 1) m
           in if \<not> bNeedInit then m else intervLoop bNeedInit True totalRspTime points m
      else intervLoop bNeedInit bGetIntev totalRspTime points (if bNeedInit then AList.update point 0 m else m))"

definition getIntervCount :: "int32 \<Rightarrow> (int32 \<times> int32) list \<Rightarrow> (int32 \<times> int32) list" where
  "getIntervCount totalRspTime intervalCount = intervLoop (intervalCount = []) False totalRspTime timePoint intervalCount"

definition addBody :: "StatMicMsgBody \<Rightarrow> StatMicMsgBody \<Rightarrow> StatMicMsgBody" where
  "addBody new body =
     body\<lparr>smbCount := smbCount body + smbCount new,
          smbTimeoutCount := smbTimeoutCount body + smbTimeoutCount new,
          smbExecCount := smbExecCount body + smbExecCount new,
          smbTotalRspTime := smbTotalRspTime body + smbTotalRspTime new,
          smbMaxRspTime := (if sint (smbMaxRspTime body) < sint (smbMaxRspTime new) then smbMaxRspTime new else smbMaxRspTime body),
          smbMinRspTime := (if sint (smbMinRspTime body) > sint (smbMinRspTime new) then smbMinRspTime new else smbMinRspTime body),
          smbIntervalCount := getIntervCount (ucast (smbTotalRspTime new)) (smbIntervalCount body)\<rparr>"

definition firstBody :: "StatMicMsgBody \<Rightarrow> StatMicMsgBody" where
  "firstBody new =
     \<lparr>smbCount = smbCount new, smbTimeoutCount = smbTimeoutCount new, smbExecCount = smbExecCount new,
      smbIntervalCount = getIntervCount (ucast (smbTotalRspTime new)) [], smbTotalRspTime = smbTotalRspTime new,
      smbMaxRspTime = smbMaxRspTime new, smbMinRspTime = smbMinRspTime new\<rparr>"

type_synonym statMap = "(StatMicMsgHead \<times> StatMicMsgBody) list"
type_synonym statCount = "(StatMicMsgHead \<times> int) list"

definition collectMsg :: "StatInfo \<Rightarrow> statMap \<times> statCount \<Rightarrow> statMap \<times> statCount" where
  "collectMsg statInfo = (\<lambda>(mStatInfo, mStatCount).
     case map_of mStatInfo (siHead statInfo) of
       Some body \<Rightarrow>
         (AList.update (siHead statInfo) (addBody (siBody statInfo) body) mStatInfo,
          AList.update (siHead statInfo) ((case map_of mStatCount (siHead statInfo) of None \<Rightarrow> 0 | Some n \<Rightarrow> n) + 1) mStatCount)
     | None \<Rightarrow>
         (AList.update (siHead statInfo) (firstBody (siBody statInfo)) mStatInfo,
          AList.update (siHead statInfo) 1 mStatCount))"

section \<open>The helper\<close>

record StatFHelper =
  shChStatInfo :: "StatInfo list"
  shStatInfo :: statMap
  shStatCount :: statCount
  shChStatInfoFromServer :: "StatInfo list"
  shStatInfoFromServer :: statMap
  shStatCountFromServer :: statCount
  shBufLen :: nat

definition StatFHelper_Init :: "int32 \<Rightarrow> gerr + StatFHelper" where
  "StatFHelper_Init bufLen =
     (if sint bufLen < 0 then Inl (Panic ''makechan: size out of range'') else Inr \<lparr>shChStatInfo = [], shStatInfo = [], shStatCount = [], shChStatInfoFromServer = [], shStatInfoFromServer = [],
      shStatCountFromServer = [], shBufLen = nat (sint bufLen)\<rparr>)"

text \<open>\<^verbatim>\<open>sf.ReportMicMsg\<close>: the call of the statistics service in a world \<open>'w\<close>. Its error is logged only.\<close>

type_synonym 'w statService = "statMap \<Rightarrow> bool \<Rightarrow> 'w \<Rightarrow> gerr + 'w"

definition reportMicMsg :: "(Ctx \<Rightarrow> 'w invoker) \<Rightarrow> 'w statService" where
  "reportMicMsg invoke msg bFromClient w =
     (case StatF_ReportMicMsg invoke (zero_StatFVars\<lparr>svMsg := msg, svBFromClient := bFromClient\<rparr>) [] w of
        Inl e \<Rightarrow> Inl e | Inr (_, w) \<Rightarrow> Inr w)"

definition reportAndClear :: "'w statService \<Rightarrow> bool \<Rightarrow> StatFHelper \<times> 'w \<Rightarrow> gerr + StatFHelper \<times> 'w" where
  "reportAndClear sf fromServer = (\<lambda>(s, w).
     if \<not> fromServer
     then bindPanic (sf (shStatInfo s) True w) (\<lambda>w. Inr (s\<lparr>shStatInfo := [], shStatCount := []\<rparr>, w))
     else bindPanic (sf (shStatInfoFromServer s) False w)
            (\<lambda>w. Inr (s\<lparr>shStatInfoFromServer := [], shStatCountFromServer := []\<rparr>, w)))"

text \<open>The cases of the loop \<^verbatim>\<open>Run\<close>: a message of either channel, or the ticker. A case that is not ready is \<open>None\<close>.\<close>

definition runCollect :: "StatFHelper \<Rightarrow> StatFHelper option" where
  "runCollect s = (case shChStatInfo s of
     [] \<Rightarrow> None
   | i # rest \<Rightarrow> (case collectMsg i (shStatInfo s, shStatCount s) of (m, n) \<Rightarrow>
       Some (s\<lparr>shChStatInfo := rest, shStatInfo := m, shStatCount := n\<rparr>)))"

definition runCollectFromServer :: "StatFHelper \<Rightarrow> StatFHelper option" where
  "runCollectFromServer s = (case shChStatInfoFromServer s of
     [] \<Rightarrow> None
   | i # rest \<Rightarrow> (case collectMsg i (shStatInfoFromServer s, shStatCountFromServer s) of (m, n) \<Rightarrow>
       Some (s\<lparr>shChStatInfoFromServer := rest, shStatInfoFromServer := m, shStatCountFromServer := n\<rparr>)))"

definition runTick :: "'w statService \<Rightarrow> StatFHelper \<times> 'w \<Rightarrow> gerr + StatFHelper \<times> 'w" where
  "runTick sf sw =
     bindPanic (if length (shStatInfo (fst sw)) > 0 then reportAndClear sf False sw else Inr sw) (\<lambda>sw.
       if length (shStatInfoFromServer (fst sw)) > 0 then reportAndClear sf True sw else Inr sw)"

text \<open>A send waits while the channel is full. The direct hand-over of a channel without a buffer is not modelled.\<close>

definition pushBackMsg :: "StatInfo \<Rightarrow> bool \<Rightarrow> StatFHelper \<Rightarrow> StatFHelper option" where
  "pushBackMsg i fromServer s =
     (if fromServer
      then (if length (shChStatInfoFromServer s) < shBufLen s
            then Some (s\<lparr>shChStatInfoFromServer := shChStatInfoFromServer s @ [i]\<rparr>) else None)
      else (if length (shChStatInfo s) < shBufLen s then Some (s\<lparr>shChStatInfo := shChStatInfo s @ [i]\<rparr>) else None))"

definition ReportMicMsg :: "StatInfo \<Rightarrow> bool \<Rightarrow> StatFHelper \<Rightarrow> StatFHelper option" where
  "ReportMicMsg i fromServer s = pushBackMsg i fromServer s"

section \<open>Messages of calls\<close>

text \<open>\<^verbatim>\<open>ReportStatBase\<close>: the message to push; nothing is pushed before the helper exists.\<close>

definition ReportStatBase :: "StatMicMsgHead \<Rightarrow> StatMicMsgBody \<Rightarrow> StatInfo" where
  "ReportStatBase head body = \<lparr>siHead = head\<lparr>smhTarsVersion := Version\<rparr>, siBody = body\<rparr>"

text \<open>The three parts of a set; the indices of the split panic when there are fewer.\<close>

definition setParts :: "gostring \<Rightarrow> gerr + gostring \<times> gostring \<times> gostring" where
  "setParts s = (case strings_Split s 46 of a # b # c # _ \<Rightarrow> Inr (a, b, c) | _ \<Rightarrow> Inl (Panic ''index out of range''))"

definition costBody :: "int32 \<Rightarrow> int32 \<Rightarrow> int32 \<Rightarrow> int64 \<Rightarrow> StatMicMsgBody" where
  "costBody succ timeout exec cost =
     \<lparr>smbCount = succ, smbTimeoutCount = timeout, smbExecCount = exec, smbIntervalCount = [], smbTotalRspTime = cost,
      smbMaxRspTime = ucast cost, smbMinRspTime = ucast cost\<rparr>"

definition masterHead :: "clientConfig \<Rightarrow> 'f serverConfig option \<Rightarrow> gostring \<Rightarrow> gerr + StatMicMsgHead" where
  "masterHead cCfg sCfg localIP =
     (let head = zero_StatMicMsgHead\<lparr>smhMasterName := ccModuleName cCfg, smhMasterIp := localIP\<rparr> in
      case sCfg of
        Some cfg \<Rightarrow>
          if scEnableset cfg
          then bindPanic (setParts (scSetdivision cfg)) (\<lambda>(a, b, c).
            Inr (head\<lparr>smhMasterIp := scLocalIP cfg, smhMasterName := scApp cfg @ 46 # scServer cfg @ 46 # a @ b @ c
              @ 64 # scVersion cfg\<rparr>))
          else Inr head
      | None \<Rightarrow> Inr head)"

text \<open>The endpoint of the adapter, when the call had one.\<close>

definition slaveHead :: "gostring \<Rightarrow> gostring \<Rightarrow> EndpointF option \<Rightarrow> StatMicMsgHead \<Rightarrow> gerr + StatMicMsgHead" where
  "slaveHead app server point head =
     (let head = head\<lparr>smhSlaveName := app @ 46 # server\<rparr> in
      case point of
        None \<Rightarrow> Inr head
      | Some p \<Rightarrow>
          let head = head\<lparr>smhSlaveIp := efHost p, smhSlavePort := efPort p\<rparr> in
          if efSetId p \<noteq> []
          then bindPanic (setParts (efSetId p)) (\<lambda>(a, b, c).
            Inr (head\<lparr>smhSlaveSetName := a, smhSlaveSetArea := b, smhSlaveSetID := c,
              smhSlaveName := app @ 46 # server @ 46 # a @ b @ c\<rparr>))
          else Inr head)"

definition ReportStatFromClient :: "clientConfig \<Rightarrow> 'f serverConfig option \<Rightarrow> gostring \<Rightarrow> Message \<Rightarrow> EndpointF option
    \<Rightarrow> int32 \<Rightarrow> int32 \<Rightarrow> int32 \<Rightarrow> gerr + StatInfo option" where
  "ReportStatFromClient cCfg sCfg localIP msg point succ timeout exec =
     bindPanic (masterHead cCfg sCfg localIP) (\<lambda>head.
       let head = head\<lparr>smhInterfaceName := rqSFuncName (mgReq msg)\<rparr> in
       case strings_Split (rqSServantName (mgReq msg)) 46 of
         app # server # _ \<Rightarrow>
           bindPanic (slaveHead app server point head) (\<lambda>head.
             Inr (Some (ReportStatBase
               (head\<lparr>smhReturnValue := (case mgResp msg of Some resp \<Rightarrow> rsIRet resp | None \<Rightarrow> - 1)\<rparr>)
               (costBody succ timeout exec (Message_Cost msg)))))
       | _ \<Rightarrow> Inr None)"

definition ReportStatFromServer :: "'f serverConfig \<Rightarrow> gostring \<Rightarrow> gostring \<Rightarrow> int32 \<Rightarrow> int64 \<Rightarrow> gerr + StatInfo" where
  "ReportStatFromServer cfg interfaceName masterName returnValue totalRspTime =
     (let head = zero_StatMicMsgHead\<lparr>smhSlaveName := scApp cfg @ 46 # scServer cfg, smhSlaveIp := scLocalIP cfg\<rparr> in
      bindPanic (if scEnableset cfg
                 then bindPanic (setParts (scSetdivision cfg)) (\<lambda>(a, b, c).
                   Inr (head\<lparr>smhSlaveName := scApp cfg @ 46 # scServer cfg @ 46 # a @ b @ c, smhSlaveSetName := a,
                     smhSlaveSetArea := b, smhSlaveSetID := c\<rparr>))
                 else Inr head)
        (\<lambda>head. Inr (ReportStatBase
           (head\<lparr>smhInterfaceName := interfaceName, smhMasterName := masterName, smhReturnValue := returnValue\<rparr>)
           (if returnValue = 0 then costBody 1 0 0 totalRspTime else costBody 0 0 1 totalRspTime))))"

text \<open>\<^verbatim>\<open>initReport\<close>: without the address of a statistics service nothing is started.\<close>

definition initReport :: "clientConfig \<Rightarrow> 'f serverConfig \<Rightarrow> gerr + StatFHelper option" where
  "initReport cCfg sCfg =
     (if ccStat cCfg = [] \<or> 64 \<notin> set (ccStat cCfg) then Inr None
      else bindPanic (StatFHelper_Init (scStatReportChannelBufLen sCfg)) (\<lambda>h. Inr (Some h)))"

section \<open>Aggregation\<close>

text \<open>The map that a list of messages makes, in the order in which they are collected.\<close>

definition aggregate :: "StatInfo list \<Rightarrow> statMap" where
  "aggregate is = fst (foldl (\<lambda>mm i. collectMsg i mm) ([], []) is)"

lemma fst_collectMsg:
  "fst (collectMsg i mm) = AList.update (siHead i)
     (case map_of (fst mm) (siHead i) of None \<Rightarrow> firstBody (siBody i) | Some b \<Rightarrow> addBody (siBody i) b) (fst mm)"
  by (simp add: collectMsg_def split: prod.split option.split)

lemma aggregate_Nil [simp]: "aggregate [] = []"
  by (simp add: aggregate_def)

lemma aggregate_snoc:
  "aggregate (is @ [i]) = AList.update (siHead i)
     (case map_of (aggregate is) (siHead i) of None \<Rightarrow> firstBody (siBody i) | Some b \<Rightarrow> addBody (siBody i) b) (aggregate is)"
  by (simp add: aggregate_def fst_collectMsg)

text \<open>The bodies of the messages with a head, and the body they make.\<close>

definition bodiesOf :: "StatMicMsgHead \<Rightarrow> StatInfo list \<Rightarrow> StatMicMsgBody list" where
  "bodiesOf hd' is = map siBody (filter (\<lambda>i. siHead i = hd') is)"

fun mergeBodies :: "StatMicMsgBody list \<Rightarrow> StatMicMsgBody option" where
  "mergeBodies [] = None"
| "mergeBodies (b # bs) = Some (foldl (\<lambda>m b. addBody b m) (firstBody b) bs)"

lemma mergeBodies_snoc:
  "mergeBodies (bs @ [b]) = Some (case mergeBodies bs of None \<Rightarrow> firstBody b | Some m \<Rightarrow> addBody b m)"
  by (cases bs) simp_all

lemma aggregate_lookup: "map_of (aggregate is) h = mergeBodies (bodiesOf h is)"
proof (induction "is" rule: rev_induct)
  case Nil
  show ?case by (simp add: bodiesOf_def)
next
  case (snoc i "is")
  show ?case
  proof (cases "siHead i = h")
    case True
    then have "bodiesOf h (is @ [i]) = bodiesOf h is @ [siBody i]" by (simp add: bodiesOf_def)
    then show ?thesis using True snoc.IH by (simp add: aggregate_snoc update_conv' mergeBodies_snoc)
  next
    case False
    then have "bodiesOf h (is @ [i]) = bodiesOf h is" by (simp add: bodiesOf_def)
    then show ?thesis using False snoc.IH by (simp add: aggregate_snoc update_conv')
  qed
qed

text \<open>The interval of a response time: the first time point above it.\<close>

definition interval :: "int32 \<Rightarrow> int32 option" where
  "interval t = find (\<lambda>p. sint t < sint p) timePoint"

definition histogram :: "StatMicMsgBody list \<Rightarrow> int32 \<Rightarrow> int32" where
  "histogram bs p = word_of_nat (length (filter (\<lambda>b. interval (ucast (smbTotalRspTime b)) = Some p) bs))"

text \<open>A map of counters that has been initialised has one counter for each time point.\<close>

lemma intervLoop_got: "intervLoop True True t ps m = foldl (\<lambda>m p. AList.update p 0 m) m ps"
  by (induction ps arbitrary: m) simp_all

lemma counter_update: "counter (AList.update p n m) q = (if q = p then n else counter m q)"
  by (simp add: counter_def update_conv')

lemma counter_zeros: "counter (foldl (\<lambda>m p. AList.update p 0 m) m ps) q = (if q \<in> set ps then 0 else counter m q)"
  by (induction ps arbitrary: m) (auto simp: counter_update)

lemma intervLoop_init:
  "distinct ps \<Longrightarrow> (\<And>p. p \<in> set ps \<Longrightarrow> counter m p = 0) \<Longrightarrow>
     counter (intervLoop True False t ps m) q =
       (if find (\<lambda>p. sint t < sint p) ps = Some q then 1 else counter m q)"
proof (induction ps arbitrary: m)
  case (Cons p ps)
  show ?case
  proof (cases "sint t < sint p")
    case True
    then show ?thesis
      using Cons.prems by (auto simp: intervLoop_got counter_zeros counter_update Let_def)
  next
    case False
    have "find (\<lambda>p. sint t < sint p) ps = Some q \<Longrightarrow> q \<noteq> p"
      using Cons.prems(1) by (auto simp: find_Some_iff)
    moreover have "counter (intervLoop True False t ps (AList.update p 0 m)) q =
        (if find (\<lambda>p. sint t < sint p) ps = Some q then 1 else counter (AList.update p 0 m) q)"
      using Cons.prems by (intro Cons.IH) (auto simp: counter_update)
    ultimately show ?thesis using False Cons.prems(2) by (auto simp: counter_update)
  qed
qed simp

lemma intervLoop_count:
  "counter (intervLoop False False t ps m) q =
     (if find (\<lambda>p. sint t < sint p) ps = Some q then counter m q + 1 else counter m q)"
  by (induction ps arbitrary: m) (auto simp: counter_update Let_def)

lemma counter_getIntervCount:
  "counter (getIntervCount t m) q = counter m q + (if interval t = Some q then 1 else 0)"
proof (cases "m = []")
  case True
  have "distinct timePoint" by (simp add: timePoint_def)
  then show ?thesis
    using True intervLoop_init [of timePoint "[]" t q] by (simp add: getIntervCount_def interval_def counter_def)
next
  case False
  then show ?thesis
    using intervLoop_count [of t timePoint m q] by (simp add: getIntervCount_def interval_def)
qed

text \<open>What the body of a report says of the messages behind it.\<close>

definition exactBody :: "StatMicMsgBody list \<Rightarrow> StatMicMsgBody \<Rightarrow> bool" where
  "exactBody bs m \<longleftrightarrow> smbCount m = sum_list (map smbCount bs) \<and> smbTimeoutCount m = sum_list (map smbTimeoutCount bs)
     \<and> smbExecCount m = sum_list (map smbExecCount bs) \<and> smbTotalRspTime m = sum_list (map smbTotalRspTime bs)
     \<and> sint (smbMaxRspTime m) = Max (sint ` smbMaxRspTime ` set bs) \<and> sint (smbMinRspTime m) = Min (sint ` smbMinRspTime ` set bs)
     \<and> (\<forall>p. counter (smbIntervalCount m) p = histogram bs p)"

lemma exactBody_first: "exactBody [b] (firstBody b)"
  by (auto simp: exactBody_def firstBody_def counter_getIntervCount histogram_def) (simp_all add: counter_def)

lemma exactBody_add:
  assumes "exactBody bs m" and "bs \<noteq> []"
  shows "exactBody (bs @ [b]) (addBody b m)"
proof -
  have "Max (sint ` smbMaxRspTime ` set (bs @ [b])) = max (sint (smbMaxRspTime b)) (Max (sint ` smbMaxRspTime ` set bs))"
    and "Min (sint ` smbMinRspTime ` set (bs @ [b])) = min (sint (smbMinRspTime b)) (Min (sint ` smbMinRspTime ` set bs))"
    using assms(2) by simp_all
  then show ?thesis
    using assms(1) by (simp add: exactBody_def addBody_def counter_getIntervCount histogram_def)
qed

lemma mergeBodies_exact: "bs \<noteq> [] \<Longrightarrow> \<exists>m. mergeBodies bs = Some m \<and> exactBody bs m"
proof (induction bs rule: rev_induct)
  case (snoc b bs)
  show ?case
  proof (cases "bs = []")
    case True
    then show ?thesis by (simp add: exactBody_first)
  next
    case False
    with snoc.IH obtain m where "mergeBodies bs = Some m" "exactBody bs m" by blast
    with False show ?thesis by (simp add: mergeBodies_snoc exactBody_add)
  qed
qed simp

section \<open>Runs\<close>

text \<open>The reachable states of the helper, with all messages that were pushed and all maps that were handed to the
  service: senders, the two collecting cases and the ticker, in any order.\<close>

definition recordReport :: "(statMap \<times> bool) list statService" where
  "recordReport m bFromClient w = Inr (w @ [(m, bFromClient)])"

inductive stat_reach :: "int32 \<Rightarrow> (StatInfo \<times> bool) list \<Rightarrow> StatFHelper \<Rightarrow> (statMap \<times> bool) list \<Rightarrow> bool" for n where
  start: "StatFHelper_Init n = Inr s \<Longrightarrow> stat_reach n [] s []"
| push: "stat_reach n ps s w \<Longrightarrow> ReportMicMsg i fromServer s = Some s' \<Longrightarrow> stat_reach n (ps @ [(i, fromServer)]) s' w"
| collect: "stat_reach n ps s w \<Longrightarrow> runCollect s = Some s' \<Longrightarrow> stat_reach n ps s' w"
| collectServer: "stat_reach n ps s w \<Longrightarrow> runCollectFromServer s = Some s' \<Longrightarrow> stat_reach n ps s' w"
| tick: "stat_reach n ps s w \<Longrightarrow> runTick recordReport (s, w) = Inr (s', w') \<Longrightarrow> stat_reach n ps s' w'"

text \<open>The messages of one side, cut into the segments that were reported, the one that is being collected and the
  channel.\<close>

definition pushedBy :: "bool \<Rightarrow> (StatInfo \<times> bool) list \<Rightarrow> StatInfo list" where
  "pushedBy fromServer ps = map fst (filter (\<lambda>x. snd x = fromServer) ps)"

definition sentBy :: "bool \<Rightarrow> (statMap \<times> bool) list \<Rightarrow> statMap list" where
  "sentBy fromServer w = map fst (filter (\<lambda>x. snd x = (\<not> fromServer)) w)"

definition partitioned :: "StatInfo list \<Rightarrow> statMap list \<Rightarrow> statMap \<times> statCount \<Rightarrow> StatInfo list \<Rightarrow> bool" where
  "partitioned pushed sent mm chan \<longleftrightarrow> (\<exists>segs cur. pushed = concat segs @ cur @ chan \<and> [] \<notin> set segs
     \<and> sent = map aggregate segs \<and> mm = foldl (\<lambda>mm i. collectMsg i mm) ([], []) cur)"

lemma partitioned_push: "partitioned pushed sent mm chan \<Longrightarrow> partitioned (pushed @ [i]) sent mm (chan @ [i])"
  unfolding partitioned_def by fastforce

lemma partitioned_collect:
  assumes "partitioned pushed sent mm (i # chan)"
  shows "partitioned pushed sent (collectMsg i mm) chan"
proof -
  obtain segs cur where "pushed = concat segs @ cur @ i # chan" "[] \<notin> set segs" "sent = map aggregate segs"
    "mm = foldl (\<lambda>mm i. collectMsg i mm) ([], []) cur"
    using assms unfolding partitioned_def by blast
  then show ?thesis
    unfolding partitioned_def by (intro exI [of _ segs] exI [of _ "cur @ [i]"]) simp
qed

lemma partitioned_report:
  assumes "partitioned pushed sent (m, n) chan" and "m \<noteq> []"
  shows "partitioned pushed (sent @ [m]) ([], []) chan"
proof -
  obtain segs cur where *: "pushed = concat segs @ cur @ chan" "[] \<notin> set segs" "sent = map aggregate segs"
    "(m, n) = foldl (\<lambda>mm i. collectMsg i mm) ([], []) cur"
    using assms unfolding partitioned_def by blast
  then have "m = aggregate cur" by (metis aggregate_def fst_conv)
  with * assms(2) show ?thesis
    unfolding partitioned_def by (intro exI [of _ "segs @ [cur]"] exI [of _ "[]"]) auto
qed

definition stat_inv :: "(StatInfo \<times> bool) list \<Rightarrow> StatFHelper \<Rightarrow> (statMap \<times> bool) list \<Rightarrow> bool" where
  "stat_inv ps s w \<longleftrightarrow>
     partitioned (pushedBy False ps) (sentBy False w) (shStatInfo s, shStatCount s) (shChStatInfo s)
     \<and> partitioned (pushedBy True ps) (sentBy True w) (shStatInfoFromServer s, shStatCountFromServer s) (shChStatInfoFromServer s)"

lemma stat_inv_tick:
  assumes "stat_inv ps s w" and "runTick recordReport (s, w) = Inr (s', w')"
  shows "stat_inv ps s' w'"
proof -
  define s1 where "s1 = (if shStatInfo s = [] then s else s\<lparr>shStatInfo := [], shStatCount := []\<rparr>)"
  define w1 where "w1 = (if shStatInfo s = [] then w else w @ [(shStatInfo s, True)])"
  have "(if length (shStatInfo (fst (s, w))) > 0 then reportAndClear recordReport False (s, w) else Inr (s, w)) = Inr (s1, w1)"
    by (simp add: s1_def w1_def reportAndClear_def recordReport_def)
  then have two: "(if shStatInfoFromServer s1 = [] then Inr (s1, w1) else reportAndClear recordReport True (s1, w1)) = Inr (s', w')"
    using assms(2) by (simp add: runTick_def split: if_splits)
  have one: "stat_inv ps s1 w1"
    using assms(1) partitioned_report unfolding stat_inv_def s1_def w1_def sentBy_def by auto
  show ?thesis
  proof (cases "shStatInfoFromServer s1 = []")
    case True
    with one two show ?thesis by simp
  next
    case False
    then have "s' = s1\<lparr>shStatInfoFromServer := [], shStatCountFromServer := []\<rparr>" "w' = w1 @ [(shStatInfoFromServer s1, False)]"
      using two by (simp_all add: reportAndClear_def recordReport_def)
    with one False show ?thesis
      using partitioned_report unfolding stat_inv_def sentBy_def by auto
  qed
qed

lemma stat_reach_inv: "stat_reach n ps s w \<Longrightarrow> stat_inv ps s w"
proof (induction rule: stat_reach.induct)
  case (start s)
  have "partitioned [] [] ([], []) []" unfolding partitioned_def by (intro exI [of _ "[]"]) simp
  with start show ?case
    by (auto simp: stat_inv_def StatFHelper_Init_def pushedBy_def sentBy_def split: if_splits)
next
  case (push ps s w i fromServer s')
  then show ?case
    by (auto simp: stat_inv_def ReportMicMsg_def pushBackMsg_def pushedBy_def split: if_splits intro: partitioned_push)
next
  case (collect ps s w s')
  then show ?case
    by (auto simp: stat_inv_def runCollect_def split: list.splits prod.splits dest!: partitioned_collect)
next
  case (collectServer ps s w s')
  then show ?case
    by (auto simp: stat_inv_def runCollectFromServer_def split: list.splits prod.splits dest!: partitioned_collect)
next
  case (tick ps s w s' w')
  then show ?case by (blast intro: stat_inv_tick)
qed

section \<open>Properties\<close>

definition sideQueue :: "bool \<Rightarrow> StatFHelper \<Rightarrow> StatInfo list" where
  "sideQueue fromServer s = (if fromServer then shChStatInfoFromServer s else shChStatInfo s)"

definition sidePending :: "bool \<Rightarrow> StatFHelper \<Rightarrow> statMap" where
  "sidePending fromServer s = (if fromServer then shStatInfoFromServer s else shStatInfo s)"

text \<open>C15: no statistics are lost, counted twice or mixed up. At any moment, for the calls made and for the calls served,
  the messages pushed are, in their order, the non-empty segments behind the maps handed to the service, the messages in
  the current map, and those in the channel. In a reported map each head has the exact sums of the counts and response
  times of the messages of its segment with that head (as 32 and 64 bit numbers), their maximum and minimum, and for
  each time point the number of messages whose response time it is the first to exceed.\<close>

theorem statistics_partition_messages:
  assumes "stat_reach n ps s w"
  shows "\<exists>segs cur. pushedBy b ps = concat segs @ cur @ sideQueue b s \<and> [] \<notin> set segs
    \<and> sentBy b w = map aggregate segs \<and> sidePending b s = aggregate cur
    \<and> (\<forall>seg h. case map_of (aggregate seg) h of
         None \<Rightarrow> bodiesOf h seg = [] | Some m \<Rightarrow> bodiesOf h seg \<noteq> [] \<and> exactBody (bodiesOf h seg) m)"
proof -
  have "partitioned (pushedBy b ps) (sentBy b w)
      (sidePending b s, if b then shStatCountFromServer s else shStatCount s) (sideQueue b s)"
    using stat_reach_inv [OF assms] by (cases b) (simp_all add: stat_inv_def sideQueue_def sidePending_def)
  then obtain segs cur where "pushedBy b ps = concat segs @ cur @ sideQueue b s" "[] \<notin> set segs"
    "sentBy b w = map aggregate segs" "sidePending b s = aggregate cur"
    unfolding partitioned_def aggregate_def by (metis fst_conv)
  moreover have "case map_of (aggregate seg) h of
      None \<Rightarrow> bodiesOf h seg = [] | Some m \<Rightarrow> bodiesOf h seg \<noteq> [] \<and> exactBody (bodiesOf h seg) m" for seg h
    unfolding aggregate_lookup using mergeBodies_exact [of "bodiesOf h seg"]
    by (cases "bodiesOf h seg = []") auto
  ultimately show ?thesis by blast
qed

definition demo_stat :: StatInfo where
  "demo_stat = \<lparr>siHead = zero_StatMicMsgHead, siBody = costBody 1 0 0 7\<rparr>"

theorem statistics_partition_messages_witness:
  "\<exists>s w segs cur. stat_reach 5 [(demo_stat, False)] s w
     \<and> [demo_stat] = concat segs @ cur @ sideQueue False s \<and> w = [(aggregate [demo_stat], True)]"
proof -
  obtain s0 where s0: "StatFHelper_Init 5 = Inr s0" by (simp add: StatFHelper_Init_def)
  then have e: "shChStatInfo s0 = []" "shStatInfo s0 = []" "shStatCount s0 = []" "shStatInfoFromServer s0 = []" "shBufLen s0 = 5"
    by (auto simp: StatFHelper_Init_def)
  let ?s1 = "s0\<lparr>shChStatInfo := [demo_stat]\<rparr>"
  let ?mm = "collectMsg demo_stat ([], [])"
  let ?s2 = "s0\<lparr>shChStatInfo := [], shStatInfo := fst ?mm, shStatCount := snd ?mm\<rparr>"
  let ?s3 = "?s2\<lparr>shStatInfo := [], shStatCount := []\<rparr>"
  have mm: "fst ?mm = aggregate [demo_stat]" "aggregate [demo_stat] \<noteq> []"
    by (simp_all add: aggregate_def collectMsg_def)
  have "stat_reach 5 [] s0 []" by (rule stat_reach.start [OF s0])
  then have "stat_reach 5 [(demo_stat, False)] ?s1 []"
    by (rule stat_reach.push [of _ "[]", simplified]) (simp add: ReportMicMsg_def pushBackMsg_def e)
  then have "stat_reach 5 [(demo_stat, False)] ?s2 []"
    by (rule stat_reach.collect) (simp add: runCollect_def e split_def)
  then have r: "stat_reach 5 [(demo_stat, False)] ?s3 [(aggregate [demo_stat], True)]"
    by (rule stat_reach.tick) (simp add: runTick_def reportAndClear_def recordReport_def mm e)
  obtain segs cur where "pushedBy False [(demo_stat, False)] = concat segs @ cur @ sideQueue False ?s3"
    using statistics_partition_messages [OF r, of False] by blast
  moreover have "pushedBy False [(demo_stat, False)] = [demo_stat]" by (simp add: pushedBy_def)
  ultimately show ?thesis
    using r by metis
qed

end
