(* ===== verification/Property_Report.thy ===== *)
theory Property_Report
  imports Stat_Report
begin

text \<open>
  The properties a program reports, \<^verbatim>\<open>tars/propertyf.go\<close> with \<^verbatim>\<open>util/tools/unique.go\<close> and \<^verbatim>\<open>upperbound.go\<close>: a
  property has up to six methods that aggregate the values reported since the last report, and all properties are sent to
  the property service when the ticker fires. Go's \<^verbatim>\<open>int\<close> is an \<open>int64\<close>. Reports are found by their key; a
  method object belongs to one report.
\<close>

section \<open>Tools\<close>

definition UniqueInts :: "int64 list \<Rightarrow> int64 list" where
  "UniqueInts a = foldl (\<lambda>b v. if v \<in> set b then b else b @ [v]) [] a"

text \<open>\<^verbatim>\<open>sort.Ints\<close>.\<close>

definition sort_Ints :: "int64 list \<Rightarrow> int64 list" where
  "sort_Ints = sort_key sint"

fun upperBoundLoop :: "nat \<Rightarrow> nat \<Rightarrow> int64 list \<Rightarrow> int64 \<Rightarrow> nat" where
  "upperBoundLoop i index [] x = index"
| "upperBoundLoop i index (v # vs) x = (if sint x \<le> sint v then i else upperBoundLoop (Suc i) i vs x)"

definition UpperBound :: "int64 list \<Rightarrow> int64 \<Rightarrow> nat" where
  "UpperBound sortedArray x = upperBoundLoop 0 0 sortedArray x"

definition Itoa :: "int64 \<Rightarrow> gostring" where
  "Itoa n = FormatInt (sint n) 10"

section \<open>Methods\<close>

datatype ReportPolicy = PolicyUnknown | PolicySum | PolicyAvg | PolicyDistr | PolicyMax | PolicyMin | PolicyCount

definition policyIndex :: "ReportPolicy \<Rightarrow> nat" where
  "policyIndex p = (case p of PolicyUnknown \<Rightarrow> 0 | PolicySum \<Rightarrow> 1 | PolicyAvg \<Rightarrow> 2 | PolicyDistr \<Rightarrow> 3 | PolicyMax \<Rightarrow> 4
     | PolicyMin \<Rightarrow> 5 | PolicyCount \<Rightarrow> 6)"

definition policyString :: "ReportPolicy \<Rightarrow> gostring" where
  "policyString p = ascii (case p of PolicySum \<Rightarrow> ''Sum'' | PolicyAvg \<Rightarrow> ''Avg'' | PolicyDistr \<Rightarrow> ''Distr''
     | PolicyMax \<Rightarrow> ''Max'' | PolicyMin \<Rightarrow> ''Min'' | PolicyCount \<Rightarrow> ''Count'' | PolicyUnknown \<Rightarrow> ''Unknown'')"

text \<open>The structs behind the interface \<^verbatim>\<open>ReportMethod\<close>: data; count and sum; range and result.\<close>

datatype ReportMethod =
    SumM int64
  | AvgM int64 int64
  | DistrM "int64 list" "int64 list"
  | MaxM int64
  | MinM int64
  | CountM int64

definition noMax :: int64 where "noMax = - 9999999"

definition NewSum :: ReportMethod where "NewSum = SumM 0"
definition NewAvg :: ReportMethod where "NewAvg = AvgM 0 0"
definition NewMax :: ReportMethod where "NewMax = MaxM noMax"
definition NewMin :: ReportMethod where "NewMin = MinM 0"
definition NewCount :: ReportMethod where "NewCount = CountM 0"
definition NewDistr :: "int64 list \<Rightarrow> ReportMethod" where
  "NewDistr xs = (let s = sort_Ints (UniqueInts xs) in DistrM s (replicate (length s) 0))"

fun methodEnum :: "ReportMethod \<Rightarrow> ReportPolicy" where
  "methodEnum (SumM _) = PolicySum"
| "methodEnum (AvgM _ _) = PolicyAvg"
| "methodEnum (DistrM _ _) = PolicyDistr"
| "methodEnum (MaxM _) = PolicyMax"
| "methodEnum (MinM _) = PolicyMin"
| "methodEnum (CountM _) = PolicyCount"

text \<open>\<^verbatim>\<open>Set\<close> of the six types on their data.\<close>

definition Sum_Set :: "int64 \<Rightarrow> int64 \<Rightarrow> int64" where
  [simp]: "Sum_Set x d = d + x"
definition Avg_Set :: "int64 \<Rightarrow> int64 \<times> int64 \<Rightarrow> int64 \<times> int64" where
  [simp]: "Avg_Set x = (\<lambda>(n, s). (n + 1, s + x))"
definition Max_Set :: "int64 \<Rightarrow> int64 \<Rightarrow> int64" where
  [simp]: "Max_Set x d = (if sint x > sint d then x else d)"
definition Min_Set :: "int64 \<Rightarrow> int64 \<Rightarrow> int64" where
  [simp]: "Min_Set x d = (if d = 0 \<or> sint d > sint x \<and> x \<noteq> 0 then x else d)"
definition Distr_Set :: "int64 \<Rightarrow> int64 list \<Rightarrow> int64 list \<Rightarrow> gerr + int64 list" where
  [simp]: "Distr_Set x r res =
     (let i = UpperBound r x in
      if i < length res then Inr (res[i := res ! i + 1]) else Inl (Panic ''index out of range''))"
definition Count_Set :: "int64 \<Rightarrow> int64 \<Rightarrow> int64" where
  [simp]: "Count_Set x d = d + 1"

fun methodSet :: "int64 \<Rightarrow> ReportMethod \<Rightarrow> gerr + ReportMethod" where
  "methodSet x (SumM d) = Inr (SumM (Sum_Set x d))"
| "methodSet x (AvgM n s) = Inr (case Avg_Set x (n, s) of (n, s) \<Rightarrow> AvgM n s)"
| "methodSet x (MaxM d) = Inr (MaxM (Max_Set x d))"
| "methodSet x (MinM d) = Inr (MinM (Min_Set x d))"
| "methodSet x (DistrM r res) = bindPanic (Distr_Set x r res) (\<lambda>res. Inr (DistrM r res))"
| "methodSet x (CountM d) = Inr (CountM (Count_Set x d))"

text \<open>The text of a distribution: bounds and counts.\<close>

definition distrText :: "int64 list \<Rightarrow> int64 list \<Rightarrow> gostring" where
  "distrText r res = concat (map (\<lambda>i. (if i \<noteq> 0 then [44] else []) @ Itoa (r ! i) @ 124 # Itoa (res ! i)) [0..<length r])"

text \<open>\<^verbatim>\<open>Get\<close> returns the text of the value and clears it; an average of nothing is not cleared. The text of the quotient of
  two numbers as floating-point numbers, by \<^verbatim>\<open>strconv.FormatFloat\<close>, is an argument.\<close>

definition Sum_Get :: "int64 \<Rightarrow> gostring \<times> int64" where
  [simp]: "Sum_Get d = (Itoa d, 0)"
definition Avg_Get :: "(int64 \<Rightarrow> int64 \<Rightarrow> gostring) \<Rightarrow> int64 \<times> int64 \<Rightarrow> gostring \<times> int64 \<times> int64" where
  [simp]: "Avg_Get avgText = (\<lambda>(n, s). if n = 0 then (ascii ''0'', n, s) else (avgText s n, 0, 0))"
definition Max_Get :: "int64 \<Rightarrow> gostring \<times> int64" where
  [simp]: "Max_Get d = (Itoa d, noMax)"
definition Min_Get :: "int64 \<Rightarrow> gostring \<times> int64" where
  [simp]: "Min_Get d = (Itoa d, 0)"
definition Distr_Get :: "int64 list \<Rightarrow> int64 list \<Rightarrow> gostring \<times> int64 list" where
  [simp]: "Distr_Get r res = (distrText r res, replicate (length res) 0)"
definition Count_Get :: "int64 \<Rightarrow> gostring \<times> int64" where
  [simp]: "Count_Get d = (Itoa d, 0)"

fun methodGet :: "(int64 \<Rightarrow> int64 \<Rightarrow> gostring) \<Rightarrow> ReportMethod \<Rightarrow> gostring \<times> ReportMethod" where
  "methodGet avgText (SumM d) = apsnd SumM (Sum_Get d)"
| "methodGet avgText (AvgM n s) = apsnd (\<lambda>(n, s). AvgM n s) (Avg_Get avgText (n, s))"
| "methodGet avgText (MaxM d) = apsnd MaxM (Max_Get d)"
| "methodGet avgText (MinM d) = apsnd MinM (Min_Get d)"
| "methodGet avgText (DistrM r res) = apsnd (DistrM r) (Distr_Get r res)"
| "methodGet avgText (CountM d) = apsnd CountM (Count_Get d)"

section \<open>Properties\<close>

record PropertyReport =
  prKey :: gostring
  prMethods :: "ReportMethod option list"

fun setAll :: "int64 \<Rightarrow> ReportMethod option list \<Rightarrow> gerr + ReportMethod option list" where
  "setAll x [] = Inr []"
| "setAll x (None # ms) = bindPanic (setAll x ms) (\<lambda>ms. Inr (None # ms))"
| "setAll x (Some m # ms) = bindPanic (methodSet x m) (\<lambda>m. bindPanic (setAll x ms) (\<lambda>ms. Inr (Some m # ms)))"

definition PropertyReport_Report :: "int64 \<Rightarrow> PropertyReport \<Rightarrow> gerr + PropertyReport" where
  "PropertyReport_Report x p = bindPanic (setAll x (prMethods p)) (\<lambda>ms. Inr (p\<lparr>prMethods := ms\<rparr>))"

text \<open>The helper: the reports by their key.\<close>

type_synonym reportPtrs = "(gostring \<times> PropertyReport) list"

definition AddToReport :: "PropertyReport \<Rightarrow> reportPtrs \<Rightarrow> reportPtrs" where
  "AddToReport pr ps = AList.update (prKey pr) pr ps"

definition GetPropertyReport :: "gostring \<Rightarrow> reportPtrs \<Rightarrow> PropertyReport \<times> reportPtrs" where
  "GetPropertyReport key ps =
     (case map_of ps key of
        Some pr \<Rightarrow> (pr, ps)
      | None \<Rightarrow> let ptr = \<lparr>prKey = key, prMethods = replicate 7 None\<rparr> in (ptr, AddToReport ptr ps))"

text \<open>A report changed through its pointer.\<close>

definition putMethods :: "gostring \<Rightarrow> ReportMethod option list \<Rightarrow> reportPtrs \<Rightarrow> reportPtrs" where
  "putMethods key ms ps = AList.update key \<lparr>prKey = key, prMethods = ms\<rparr> ps"

definition CreatePropertyReport :: "gostring \<Rightarrow> ReportMethod list \<Rightarrow> reportPtrs \<Rightarrow> reportPtrs" where
  "CreatePropertyReport key argv ps =
     (case GetPropertyReport key ps of (ptr, ps) \<Rightarrow>
        putMethods key (foldl (\<lambda>ms v. ms[policyIndex (methodEnum v) := Some v]) (prMethods ptr) argv) ps)"

text \<open>\<^verbatim>\<open>ReportSum\<close> and its companions: the method is made at its first use.\<close>

definition reportBy :: "ReportMethod \<Rightarrow> gostring \<Rightarrow> int64 \<Rightarrow> reportPtrs \<Rightarrow> gerr + reportPtrs" where
  "reportBy new key i ps =
     (case GetPropertyReport key ps of (ptr, ps) \<Rightarrow>
        let policy = policyIndex (methodEnum new);
            m = (case prMethods ptr ! policy of None \<Rightarrow> new | Some m \<Rightarrow> m)
        in bindPanic (methodSet i m) (\<lambda>m. Inr (putMethods key ((prMethods ptr)[policy := Some m]) ps)))"

definition ReportSum :: "gostring \<Rightarrow> int64 \<Rightarrow> reportPtrs \<Rightarrow> gerr + reportPtrs" where "ReportSum = reportBy NewSum"
definition ReportAvg :: "gostring \<Rightarrow> int64 \<Rightarrow> reportPtrs \<Rightarrow> gerr + reportPtrs" where "ReportAvg = reportBy NewAvg"
definition ReportMax :: "gostring \<Rightarrow> int64 \<Rightarrow> reportPtrs \<Rightarrow> gerr + reportPtrs" where "ReportMax = reportBy NewMax"
definition ReportMin :: "gostring \<Rightarrow> int64 \<Rightarrow> reportPtrs \<Rightarrow> gerr + reportPtrs" where "ReportMin = reportBy NewMin"
definition ReportDistr :: "gostring \<Rightarrow> int64 list \<Rightarrow> int64 \<Rightarrow> reportPtrs \<Rightarrow> gerr + reportPtrs" where
  "ReportDistr key xs = reportBy (NewDistr xs) key"
definition ReportCount :: "gostring \<Rightarrow> int64 \<Rightarrow> reportPtrs \<Rightarrow> gerr + reportPtrs" where "ReportCount = reportBy NewCount"

section \<open>Reporting\<close>

definition propertyHead :: "clientConfig \<Rightarrow> 'f serverConfig option \<Rightarrow> gostring \<Rightarrow> gerr + StatPropMsgHead" where
  "propertyHead cCfg sCfg localIP =
     (let head = zero_StatPropMsgHead\<lparr>sphIPropertyVer := 2, sphModuleName := ccModuleName cCfg, sphIp := localIP\<rparr> in
      case sCfg of
        None \<Rightarrow> Inr head
      | Some cfg \<Rightarrow>
          let head = head\<lparr>sphIp := scLocalIP cfg\<rparr> in
          if scEnableset cfg
          then bindPanic (setParts (scSetdivision cfg)) (\<lambda>(a, b, c).
            Inr (head\<lparr>sphModuleName := scApp cfg @ 46 # scServer cfg @ 46 # a @ b @ c, sphSetName := a, sphSetArea := b,
              sphSetID := c\<rparr>))
          else Inr head)"

text \<open>The text of a value that is not reported.\<close>

definition defaultText :: "ReportPolicy \<Rightarrow> gostring option" where
  "defaultText p = (case p of PolicySum \<Rightarrow> Some (ascii ''0'') | PolicyAvg \<Rightarrow> Some (ascii ''0'') | PolicyDistr \<Rightarrow> Some []
     | PolicyMax \<Rightarrow> Some (ascii ''-9999999'') | PolicyMin \<Rightarrow> Some (ascii ''0'') | PolicyCount \<Rightarrow> Some (ascii ''0'')
     | PolicyUnknown \<Rightarrow> None)"

fun methodInfos :: "(int64 \<Rightarrow> int64 \<Rightarrow> gostring) \<Rightarrow> ReportMethod option list \<Rightarrow> StatPropInfo list \<times> ReportMethod option list" where
  "methodInfos avgText [] = ([], [])"
| "methodInfos avgText (None # ms) = (case methodInfos avgText ms of (is, ms) \<Rightarrow> (is, None # ms))"
| "methodInfos avgText (Some m # ms) =
     (case methodGet avgText m of (result, m') \<Rightarrow>
      case methodInfos avgText ms of (is, ms) \<Rightarrow>
        ((if Some result = defaultText (methodEnum m) then is
          else \<lparr>spiPolicy = policyString (methodEnum m), spiValue = result\<rparr> # is), Some m' # ms))"

type_synonym propMap = "(StatPropMsgHead \<times> StatPropMsgBody) list"

text \<open>The loop over the reports, in the order \<open>ord\<close>, fills the map of messages and clears the methods.\<close>

fun gather :: "(int64 \<Rightarrow> int64 \<Rightarrow> gostring) \<Rightarrow> StatPropMsgHead \<Rightarrow> reportPtrs \<Rightarrow> propMap \<Rightarrow> propMap \<times> reportPtrs" where
  "gather avgText head [] statMsg = (statMsg, [])"
| "gather avgText head ((key, v) # rest) statMsg =
     (case methodInfos avgText (prMethods v) of (is, ms) \<Rightarrow>
      case gather avgText head rest (AList.update (head\<lparr>sphPropertyName := prKey v\<rparr>) \<lparr>spbVInfo = is\<rparr> statMsg) of (statMsg, rest) \<Rightarrow>
        (statMsg, (key, v\<lparr>prMethods := ms\<rparr>) # rest))"

text \<open>The batches in which the map is sent: the counter is never reset.\<close>

fun batches :: "nat \<Rightarrow> propMap \<Rightarrow> propMap \<Rightarrow> propMap list" where
  "batches cnt tmp [] = (if length tmp > 0 then [tmp] else [])"
| "batches cnt tmp ((k, v) # rest) =
     (if Suc cnt \<ge> 20 then tmp # batches (Suc cnt) [(k, v)] rest
      else batches (Suc cnt) (AList.update k v tmp) rest)"

text \<open>\<open>ordP\<close> and \<open>ordM\<close> are the orders in which the reports and the messages are visited.\<close>

definition ReportToServer :: "(int64 \<Rightarrow> int64 \<Rightarrow> gostring) \<Rightarrow> (reportPtrs \<Rightarrow> reportPtrs) \<Rightarrow> (propMap \<Rightarrow> propMap) \<Rightarrow> clientConfig
    \<Rightarrow> 'f serverConfig option \<Rightarrow> gostring \<Rightarrow> reportPtrs \<Rightarrow> gerr + propMap list \<times> reportPtrs" where
  "ReportToServer avgText ordP ordM cCfg sCfg localIP ps =
     bindPanic (propertyHead cCfg sCfg localIP) (\<lambda>head.
       case gather avgText head (ordP ps) [] of (statMsg, ps) \<Rightarrow> Inr (batches 0 [] (ordM statMsg), ps))"

section \<open>What the methods compute\<close>

fun feed :: "int64 list \<Rightarrow> ReportMethod \<Rightarrow> gerr + ReportMethod" where
  "feed [] m = Inr m"
| "feed (x # xs) m = bindPanic (methodSet x m) (feed xs)"

lemma feed_sum: "feed vs (SumM d) = Inr (SumM (d + sum_list vs))"
  by (induction vs arbitrary: d) (simp_all add: algebra_simps)

lemma feed_avg: "feed vs (AvgM n d) = Inr (AvgM (n + of_nat (length vs)) (d + sum_list vs))"
  by (induction vs arbitrary: n d) (simp_all add: algebra_simps)

lemma feed_count: "feed vs (CountM d) = Inr (CountM (d + of_nat (length vs)))"
  by (induction vs arbitrary: d) (simp_all add: algebra_simps)

lemma feed_max: "\<exists>m. feed vs (MaxM d) = Inr (MaxM m) \<and> sint m = Max (insert (sint d) (sint ` set vs))"
proof (induction vs arbitrary: d)
  case (Cons v vs)
  let ?d = "if sint v > sint d then v else d"
  have "Max (insert (sint d) (sint ` set (v # vs))) = Max (insert (sint ?d) (sint ` set vs))"
    by (cases "vs = []") (auto simp: max_def)
  then show ?case using Cons.IH [of ?d] by simp
qed simp

text \<open>The minimum leaves out zeros.\<close>

lemma Min_insert2: "finite S \<Longrightarrow> Min (insert d (insert v S)) = Min (insert (min d v) S)" for d :: int
  by (cases "S = {}") (simp_all add: min.assoc)

lemma feed_min:
  "d \<noteq> 0 \<Longrightarrow> \<exists>m. feed vs (MinM d) = Inr (MinM m) \<and> m \<noteq> 0 \<and> sint m = Min (insert (sint d) (sint ` (set vs - {0})))"
proof (induction vs arbitrary: d)
  case (Cons v vs)
  let ?d = "if d = 0 \<or> sint d > sint v \<and> v \<noteq> 0 then v else d"
  have "Min (insert (sint d) (sint ` (set (v # vs) - {0}))) = Min (insert (sint ?d) (sint ` (set vs - {0})))"
  proof (cases "v = 0")
    case True
    with Cons.prems show ?thesis by (simp add: insert_Diff_if)
  next
    case False
    then have "set (v # vs) - {0} = insert v (set vs - {0})" by auto
    moreover have "sint ?d = min (sint d) (sint v)" using False Cons.prems by (auto simp: min_def)
    ultimately show ?thesis
      using Min_insert2 [of "sint ` (set vs - {0})" "sint d" "sint v"] by simp
  qed
  then show ?case using Cons.IH [of ?d] Cons.prems by simp
qed simp

lemma feed_min_new:
  "\<exists>m. feed vs NewMin = Inr (MinM m) \<and> (if set vs \<subseteq> {0} then m = 0 else sint m = Min (sint ` (set vs - {0})))"
proof (induction vs)
  case Nil
  show ?case by (simp add: NewMin_def)
next
  case (Cons v vs)
  show ?case
  proof (cases "v = 0")
    case True
    with Cons show ?thesis by (cases "set vs \<subseteq> {0}") (simp_all add: NewMin_def)
  next
    case False
    then have "set (v # vs) - {0} = insert v (set vs - {0})" by auto
    with False show ?thesis
      using feed_min [OF False, of vs] by (auto simp: NewMin_def)
  qed
qed

text \<open>The bound of a value: the first bound that is not below it, or the last one.\<close>

lemma upperBoundLoop_bound: "vs \<noteq> [] \<Longrightarrow> upperBoundLoop i index vs x < i + length vs"
proof (induction vs arbitrary: i index)
  case (Cons v vs)
  show ?case
  proof (cases "vs = []")
    case False
    with Cons.IH [of "Suc i" i] show ?thesis by auto
  qed simp
qed simp

lemma UpperBound_bound: "r \<noteq> [] \<Longrightarrow> UpperBound r x < length r"
  using upperBoundLoop_bound [of r 0 0 x] by (simp add: UpperBound_def)

lemma upperBoundLoop_before: "j < length vs \<Longrightarrow> i + j < upperBoundLoop i index vs x \<Longrightarrow> sint (vs ! j) < sint x"
proof (induction vs arbitrary: i index j)
  case (Cons v vs)
  show ?case
  proof (cases j)
    case (Suc k)
    then show ?thesis using Cons.prems Cons.IH [of k "Suc i" i] by (auto split: if_splits)
  qed (use Cons.prems in \<open>auto split: if_splits\<close>)
qed simp

lemma upperBoundLoop_at:
  "vs \<noteq> [] \<Longrightarrow> upperBoundLoop i index vs x < i + length vs - 1 \<Longrightarrow>
     sint x \<le> sint (vs ! (upperBoundLoop i index vs x - i)) \<and> i \<le> upperBoundLoop i index vs x"
proof (induction vs arbitrary: i index)
  case (Cons v vs)
  show ?case
  proof (cases "sint x \<le> sint v \<or> vs = []")
    case True
    with Cons.prems show ?thesis by auto
  next
    case False
    then have "sint x \<le> sint (vs ! (upperBoundLoop (Suc i) i vs x - Suc i)) \<and> Suc i \<le> upperBoundLoop (Suc i) i vs x"
      using Cons.prems(2) by (intro Cons.IH) auto
    with False show ?thesis by (auto simp: nth_Cons' Suc_diff_le)
  qed
qed simp

lemma UpperBound_spec:
  assumes "r \<noteq> []"
  shows "\<forall>j < UpperBound r x. sint (r ! j) < sint x" "UpperBound r x < length r - 1 \<Longrightarrow> sint x \<le> sint (r ! UpperBound r x)"
  using upperBoundLoop_before [of _ r 0 0 x] upperBoundLoop_at [OF assms, of 0 0 x] UpperBound_bound [OF assms, of x]
  by (auto simp: UpperBound_def)

lemma feed_distr:
  assumes "r \<noteq> []" and "length res = length r"
  shows "\<exists>res'. feed vs (DistrM r res) = Inr (DistrM r res') \<and> length res' = length r
    \<and> (\<forall>i < length r. res' ! i = res ! i + of_nat (length (filter (\<lambda>v. UpperBound r v = i) vs)))"
  using assms(2)
proof (induction vs arbitrary: res)
  case (Cons v vs)
  have "UpperBound r v < length res" using UpperBound_bound [OF assms(1)] Cons.prems by simp
  then show ?case
    using Cons.IH [of "res[UpperBound r v := res ! UpperBound r v + 1]"] Cons.prems
    by (auto simp: Let_def nth_list_update)
qed simp

lemma feed_distr_shape: "feed vs (DistrM r res) = Inr m' \<Longrightarrow> \<exists>res'. m' = DistrM r res' \<and> length res' = length res"
proof (induction vs arbitrary: res)
  case (Cons v vs)
  then show ?case
    using Cons.IH [of "res[UpperBound r v := res ! UpperBound r v + 1]"] by (auto simp: Let_def split: if_splits)
qed auto

lemma set_UniqueInts: "set (UniqueInts xs) = set xs \<and> distinct (UniqueInts xs)"
proof -
  have "set (foldl (\<lambda>b v. if v \<in> set b then b else b @ [v]) b xs) = set b \<union> set xs
      \<and> (distinct b \<longrightarrow> distinct (foldl (\<lambda>b v. if v \<in> set b then b else b @ [v]) b xs))" for b :: "int64 list"
    by (induction xs arbitrary: b) auto
  from this [of "[]"] show ?thesis by (simp add: UniqueInts_def)
qed

lemma NewDistr_range:
  "\<exists>r. NewDistr xs = DistrM r (replicate (length r) 0) \<and> set r = set xs \<and> sorted (map sint r) \<and> distinct r"
  using set_UniqueInts [of xs] by (simp add: NewDistr_def Let_def sort_Ints_def)

section \<open>What is sent\<close>

lemma batches_concat:
  "distinct (map fst (tmp @ xs)) \<Longrightarrow> concat (batches cnt tmp xs) = tmp @ xs"
proof (induction cnt tmp xs rule: batches.induct)
  case (2 cnt tmp k v rest)
  then show ?case by (auto simp: update_new_append)
qed simp

lemma batches_size:
  "distinct (map fst (tmp @ xs)) \<Longrightarrow> length tmp \<le> cnt \<Longrightarrow> length tmp \<le> 19 \<Longrightarrow> cnt = 0 \<or> tmp \<noteq> [] \<Longrightarrow>
     \<forall>b \<in> set (batches cnt tmp xs). b \<noteq> [] \<and> length b \<le> 19"
proof (induction cnt tmp xs rule: batches.induct)
  case (2 cnt tmp k v rest)
  show ?case
  proof (cases "Suc cnt \<ge> 20")
    case True
    with 2 show ?thesis by auto
  next
    case False
    moreover have "AList.update k v tmp = tmp @ [(k, v)]" using "2.prems"(1) by (auto simp: update_new_append)
    ultimately show ?thesis using 2 by simp
  qed
qed simp

lemma batches_late: "cnt \<ge> 19 \<Longrightarrow> tmp \<noteq> [] \<Longrightarrow> length (batches cnt tmp xs) = Suc (length xs)"
  by (induction cnt tmp xs rule: batches.induct) simp_all

lemma batches_calls:
  "distinct (map fst (tmp @ xs)) \<Longrightarrow> length tmp = cnt \<Longrightarrow> cnt \<le> 19 \<Longrightarrow>
     length (batches cnt tmp xs) = (let n = cnt + length xs in if n = 0 then 0 else if n \<le> 19 then 1 else n - 18)"
proof (induction cnt tmp xs rule: batches.induct)
  case (2 cnt tmp k v rest)
  show ?case
  proof (cases "Suc cnt \<ge> 20")
    case True
    then have "tmp \<noteq> []" using "2.prems"(2) by auto
    with True 2 show ?thesis by (simp add: batches_late Let_def)
  next
    case False
    moreover have "AList.update k v tmp = tmp @ [(k, v)]" using "2.prems"(1) by (auto simp: update_new_append)
    ultimately show ?thesis using 2 by (simp add: Let_def)
  qed
qed auto

lemma distinct_keys: "distinct (map fst xs) \<Longrightarrow> inj_on fst (set xs)" "distinct (map fst xs) \<Longrightarrow> card (set xs) = length xs"
  by (simp_all add: distinct_map distinct_card)

text \<open>The message of a property, and the helper's invariant.\<close>

definition propMessage :: "(int64 \<Rightarrow> int64 \<Rightarrow> gostring) \<Rightarrow> StatPropMsgHead \<Rightarrow> PropertyReport \<Rightarrow> StatPropMsgHead \<times> StatPropMsgBody" where
  "propMessage avgText head v = (head\<lparr>sphPropertyName := prKey v\<rparr>, \<lparr>spbVInfo = fst (methodInfos avgText (prMethods v))\<rparr>)"

definition ptrs_ok :: "reportPtrs \<Rightarrow> bool" where
  "ptrs_ok ps \<longleftrightarrow> distinct (map fst ps) \<and> (\<forall>(k, v) \<in> set ps. prKey v = k)"

lemma propertyName_inj: "head\<lparr>sphPropertyName := a\<rparr> = head\<lparr>sphPropertyName := b\<rparr> \<longleftrightarrow> a = b"
  by (metis StatPropMsgHead.select_convs(3) StatPropMsgHead.surjective StatPropMsgHead.update_convs(3))

lemma gather_messages:
  "ptrs_ok ps \<Longrightarrow> (\<forall>(k, v) \<in> set ps. head\<lparr>sphPropertyName := k\<rparr> \<notin> fst ` set m) \<Longrightarrow>
     fst (gather avgText head ps m) = m @ map (\<lambda>(k, v). propMessage avgText head v) ps"
proof (induction ps arbitrary: m)
  case (Cons p ps)
  obtain k v where p: "p = (k, v)" by (cases p)
  have ok: "ptrs_ok ps" "prKey v = k" "\<forall>(k', v') \<in> set ps. k' \<noteq> k"
    using Cons.prems(1) by (simp_all add: ptrs_ok_def p) force
  let ?m = "m @ [propMessage avgText head v]"
  have "AList.update (head\<lparr>sphPropertyName := prKey v\<rparr>) \<lparr>spbVInfo = fst (methodInfos avgText (prMethods v))\<rparr> m = ?m"
    using Cons.prems(2) ok(2) by (simp add: p propMessage_def update_new_append)
  moreover have "\<forall>(k', v') \<in> set ps. head\<lparr>sphPropertyName := k'\<rparr> \<notin> fst ` set ?m"
    using Cons.prems(2) ok(2,3) by (auto simp: p propMessage_def propertyName_inj)
  ultimately show ?case
    using Cons.IH [OF ok(1), of ?m] by (simp add: p split_def)
qed simp

section \<open>Properties\<close>





end
