(* ===== verification/Goroutine_Pool.thy ===== *)
theory Goroutine_Pool
  imports Go_Prelude "HOL-Library.Multiset"
begin

text \<open>
  \<^verbatim>\<open>tars/util/gpool/gpool.go\<close>: the pool of goroutines that runs the handlers of a server with a limit on invocations.
  The workers, the dispatcher and the caller of \<^verbatim>\<open>Release\<close> are goroutines; their steps are the operations on channels.
  A send on a channel without a buffer and its receive are one step. \<^verbatim>\<open>Release\<close> is called at most once, as the TCP
  handler does.
\<close>

section \<open>Goroutines\<close>

text \<open>A worker is about to announce itself, waits in its select, runs a job, is about to answer a stop, or has returned.\<close>

datatype 'j worker = Announcing | Selecting | Running 'j | Stopping | Returned

text \<open>The dispatcher: in its select, with a job and without a worker, with both; in the stop loop without a worker, with
  the worker it stops, waiting for its answer; about to answer \<^verbatim>\<open>Release\<close>; returned.\<close>

datatype 'j dispatcher =
    DSelect | DJob 'j | DHand 'j nat
  | DStop nat | DStopWorker nat nat | DStopAnswer nat nat | DAnswer | DReturned

datatype releaser = NoRelease | ReleaseSending | ReleaseWaiting | Released

text \<open>\<open>plSubmitted\<close>, \<open>plStarted\<close> and \<open>plFinished\<close> record the jobs that were put on the channel, taken up by a worker and
  done.\<close>

record 'j Pool =
  plCap :: nat
  plQueueLen :: nat
  plJobQueue :: "'j list"
  plWorkerQueue :: "nat list"
  plWorkers :: "'j worker list"
  plDispatcher :: "'j dispatcher"
  plRelease :: releaser
  plSubmitted :: "'j list"
  plStarted :: "'j list"
  plFinished :: "'j list"

text \<open>\<^verbatim>\<open>newWorker\<close> and \<^verbatim>\<open>Worker.Start\<close>: a worker begins by announcing itself.\<close>

definition newWorker :: "'j worker" where "newWorker = Announcing"

definition pool_Start :: "'j Pool \<Rightarrow> 'j Pool" where
  "pool_Start p = p\<lparr>plWorkers := replicate (plCap p) newWorker, plDispatcher := DSelect\<rparr>"

definition NewPool :: "nat \<Rightarrow> nat \<Rightarrow> 'j Pool" where
  "NewPool numWorkers jobQueueLen = pool_Start
     \<lparr>plCap = numWorkers, plQueueLen = jobQueueLen, plJobQueue = [], plWorkerQueue = [], plWorkers = [],
      plDispatcher = DSelect, plRelease = NoRelease, plSubmitted = [], plStarted = [], plFinished = []\<rparr>"

section \<open>Steps\<close>

text \<open>A job is sent on the channel \<^verbatim>\<open>JobQueue\<close>: there is room, or the dispatcher receives it at once.\<close>

definition submit :: "'j \<Rightarrow> 'j Pool \<Rightarrow> 'j Pool option" where
  "submit j p =
     (if length (plJobQueue p) < plQueueLen p
      then Some (p\<lparr>plJobQueue := plJobQueue p @ [j], plSubmitted := plSubmitted p @ [j]\<rparr>)
      else if plDispatcher p = DSelect \<and> plJobQueue p = []
      then Some (p\<lparr>plDispatcher := DJob j, plSubmitted := plSubmitted p @ [j]\<rparr>)
      else None)"

text \<open>The loop of worker \<open>i\<close> in \<^verbatim>\<open>Worker.Start\<close>: it puts itself on the channel of workers; when its job is done it starts
  over.\<close>

definition workerAnnounce :: "nat \<Rightarrow> 'j Pool \<Rightarrow> 'j Pool option" where
  "workerAnnounce i p =
     (if i < length (plWorkers p) \<and> plWorkers p ! i = Announcing \<and> length (plWorkerQueue p) < plCap p
      then Some (p\<lparr>plWorkerQueue := plWorkerQueue p @ [i], plWorkers := (plWorkers p)[i := Selecting]\<rparr>)
      else None)"

definition workerFinish :: "nat \<Rightarrow> 'j Pool \<Rightarrow> 'j Pool option" where
  "workerFinish i p =
     (if i < length (plWorkers p)
      then (case plWorkers p ! i of
              Running j \<Rightarrow> Some (p\<lparr>plWorkers := (plWorkers p)[i := Announcing], plFinished := plFinished p @ [j]\<rparr>)
            | _ \<Rightarrow> None)
      else None)"

text \<open>The dispatcher's next operation. The hand-over of a job, and the two halves of a stop, need the worker in its select or
  about to answer.\<close>

definition dispatch :: "'j Pool \<Rightarrow> 'j Pool option" where
  "dispatch p =
     (case plDispatcher p of
        DSelect \<Rightarrow>
          (case plJobQueue p of
             [] \<Rightarrow> None
           | j # js \<Rightarrow> Some (p\<lparr>plJobQueue := js, plDispatcher := DJob j\<rparr>))
      | DJob j \<Rightarrow>
          (case plWorkerQueue p of
             [] \<Rightarrow> None
           | w # ws \<Rightarrow> Some (p\<lparr>plWorkerQueue := ws, plDispatcher := DHand j w\<rparr>))
      | DHand j w \<Rightarrow>
          (if plWorkers p ! w = Selecting
           then Some (p\<lparr>plWorkers := (plWorkers p)[w := Running j], plDispatcher := DSelect, plStarted := plStarted p @ [j]\<rparr>)
           else None)
      | DStop i \<Rightarrow>
          (if i < plCap p
           then (case plWorkerQueue p of
                   [] \<Rightarrow> None
                 | w # ws \<Rightarrow> Some (p\<lparr>plWorkerQueue := ws, plDispatcher := DStopWorker i w\<rparr>))
           else Some (p\<lparr>plDispatcher := DAnswer\<rparr>))
      | DStopWorker i w \<Rightarrow>
          (if plWorkers p ! w = Selecting
           then Some (p\<lparr>plWorkers := (plWorkers p)[w := Stopping], plDispatcher := DStopAnswer i w\<rparr>)
           else None)
      | DStopAnswer i w \<Rightarrow>
          (if plWorkers p ! w = Stopping
           then Some (p\<lparr>plWorkers := (plWorkers p)[w := Returned], plDispatcher := DStop (Suc i)\<rparr>)
           else None)
      | DAnswer \<Rightarrow>
          (if plRelease p = ReleaseWaiting then Some (p\<lparr>plDispatcher := DReturned, plRelease := Released\<rparr>) else None)
      | DReturned \<Rightarrow> None)"

text \<open>\<^verbatim>\<open>Release\<close> is called; its send is received when the dispatcher is in its select, whether jobs are queued or not; it
  returns with the dispatcher's answer.\<close>

definition Release :: "'j Pool \<Rightarrow> 'j Pool option" where
  "Release p = (if plRelease p = NoRelease then Some (p\<lparr>plRelease := ReleaseSending\<rparr>) else None)"

definition dispatchStop :: "'j Pool \<Rightarrow> 'j Pool option" where
  "dispatchStop p =
     (if plDispatcher p = DSelect \<and> plRelease p = ReleaseSending
      then Some (p\<lparr>plDispatcher := DStop 0, plRelease := ReleaseWaiting\<rparr>) else None)"

text \<open>The steps of the pool's own goroutines, and all steps.\<close>

inductive work :: "'j Pool \<Rightarrow> 'j Pool \<Rightarrow> bool" where
  "workerAnnounce i p = Some p' \<Longrightarrow> work p p'"
| "workerFinish i p = Some p' \<Longrightarrow> work p p'"
| "dispatch p = Some p' \<Longrightarrow> work p p'"
| "dispatchStop p = Some p' \<Longrightarrow> work p p'"

inductive pool_reach :: "nat \<Rightarrow> nat \<Rightarrow> 'j Pool \<Rightarrow> bool" for n q where
  reach_new: "pool_reach n q (NewPool n q)"
| reach_submit: "pool_reach n q p \<Longrightarrow> submit j p = Some p' \<Longrightarrow> pool_reach n q p'"
| reach_release: "pool_reach n q p \<Longrightarrow> Release p = Some p' \<Longrightarrow> pool_reach n q p'"
| reach_work: "pool_reach n q p \<Longrightarrow> work p p' \<Longrightarrow> pool_reach n q p'"

section \<open>Invariant\<close>

text \<open>The job the dispatcher has, the worker it has taken off the channel, the worker whose answer it waits for, and the
  number of workers it has stopped.\<close>

fun heldJob :: "'j dispatcher \<Rightarrow> 'j list" where
  "heldJob (DJob j) = [j]"
| "heldJob (DHand j w) = [j]"
| "heldJob _ = []"

fun heldWorker :: "'j dispatcher \<Rightarrow> nat option" where
  "heldWorker (DHand j w) = Some w"
| "heldWorker (DStopWorker i w) = Some w"
| "heldWorker _ = None"

fun answering :: "'j dispatcher \<Rightarrow> nat option" where
  "answering (DStopAnswer i w) = Some w"
| "answering _ = None"

fun stopped :: "nat \<Rightarrow> 'j dispatcher \<Rightarrow> nat" where
  "stopped n (DStop i) = i"
| "stopped n (DStopWorker i w) = i"
| "stopped n (DStopAnswer i w) = i"
| "stopped n DAnswer = n"
| "stopped n DReturned = n"
| "stopped n _ = 0"

text \<open>What the caller of \<^verbatim>\<open>Release\<close> may be doing.\<close>

fun releasing :: "nat \<Rightarrow> 'j dispatcher \<Rightarrow> releaser \<Rightarrow> bool" where
  "releasing n DReturned r \<longleftrightarrow> r = Released"
| "releasing n DAnswer r \<longleftrightarrow> r = ReleaseWaiting"
| "releasing n (DStop i) r \<longleftrightarrow> r = ReleaseWaiting \<and> i \<le> n"
| "releasing n (DStopWorker i w) r \<longleftrightarrow> r = ReleaseWaiting \<and> i < n"
| "releasing n (DStopAnswer i w) r \<longleftrightarrow> r = ReleaseWaiting \<and> i < n"
| "releasing n _ r \<longleftrightarrow> r = NoRelease \<or> r = ReleaseSending"

text \<open>The jobs that workers run.\<close>

fun jobOf :: "'j worker \<Rightarrow> 'j multiset" where
  "jobOf (Running j) = {#j#}"
| "jobOf _ = {#}"

definition runningJobs :: "'j worker list \<Rightarrow> 'j multiset" where
  "runningJobs ws = sum_list (map jobOf ws)"

text \<open>A worker waits in its select exactly when it is on the channel or held by the dispatcher.\<close>

definition returned :: "nat \<Rightarrow> 'j worker list \<Rightarrow> nat" where
  "returned n ws = card {i. i < n \<and> ws ! i = Returned}"

definition workers_ok :: "nat \<Rightarrow> nat list \<Rightarrow> 'j worker list \<Rightarrow> 'j dispatcher \<Rightarrow> bool" where
  "workers_ok n wq ws d \<longleftrightarrow> length ws = n \<and> distinct wq
     \<and> (\<forall>i \<in> set wq. i < n) \<and> (\<forall>w. heldWorker d = Some w \<longrightarrow> w < n \<and> w \<notin> set wq)
     \<and> (\<forall>w. answering d = Some w \<longrightarrow> w < n)
     \<and> (\<forall>i < n. ws ! i = Selecting \<longleftrightarrow> i \<in> set wq \<or> heldWorker d = Some i)
     \<and> (\<forall>i < n. ws ! i = Stopping \<longleftrightarrow> answering d = Some i)
     \<and> returned n ws = stopped n d"

definition pool_inv :: "nat \<Rightarrow> 'j Pool \<Rightarrow> bool" where
  "pool_inv n p \<longleftrightarrow> plCap p = n \<and> workers_ok n (plWorkerQueue p) (plWorkers p) (plDispatcher p)
     \<and> releasing n (plDispatcher p) (plRelease p)
     \<and> plSubmitted p = plStarted p @ heldJob (plDispatcher p) @ plJobQueue p
     \<and> mset (plStarted p) = mset (plFinished p) + runningJobs (plWorkers p)"

lemma runningJobs_update:
  assumes "i < length ws"
  shows "runningJobs (ws[i := v]) + jobOf (ws ! i) = runningJobs ws + jobOf v"
proof -
  have "ws = take i ws @ ws ! i # drop (Suc i) ws" using assms by (rule id_take_nth_drop)
  then have "runningJobs ws = runningJobs (take i ws) + jobOf (ws ! i) + runningJobs (drop (Suc i) ws)"
    by (metis add.assoc list.simps(9) map_append runningJobs_def sum_list.Cons sum_list.append)
  moreover have "runningJobs (ws[i := v]) = runningJobs (take i ws) + jobOf v + runningJobs (drop (Suc i) ws)"
    using assms by (simp add: upd_conv_take_nth_drop runningJobs_def ac_simps)
  ultimately show ?thesis by (simp add: ac_simps)
qed

text \<open>The set of returned workers after a change of one worker.\<close>

lemma returned_same:
  assumes "length ws = n" "k < n" "ws ! k \<noteq> Returned" "v \<noteq> Returned"
  shows "returned n (ws[k := v]) = returned n ws"
  using assms unfolding returned_def by (intro arg_cong [where f = card]) (auto simp: nth_list_update)

lemma returned_more:
  assumes "length ws = n" "k < n" "ws ! k \<noteq> Returned"
  shows "returned n (ws[k := Returned]) = Suc (returned n ws)"
proof -
  have "{i. i < n \<and> ws[k := Returned] ! i = Returned} = insert k {i. i < n \<and> ws ! i = Returned}"
    using assms by (auto simp: nth_list_update)
  then show ?thesis using assms(3) by (simp add: returned_def)
qed

named_theorems worker_rules

lemma workers_announce [worker_rules]:
  assumes "workers_ok n wq ws d" "i < n" "ws ! i = Announcing"
  shows "workers_ok n (wq @ [i]) (ws[i := Selecting]) d"
proof -
  have "i \<notin> set wq" "heldWorker d \<noteq> Some i" using assms by (auto simp: workers_ok_def)
  then show ?thesis using assms returned_same [of ws n i Selecting]
    by (auto simp: workers_ok_def nth_list_update)
qed

lemma workers_finish [worker_rules]:
  assumes "workers_ok n wq ws d" "i < n" "ws ! i = Running j"
  shows "workers_ok n wq (ws[i := Announcing]) d"
proof -
  have "i \<notin> set wq" "heldWorker d \<noteq> Some i" "answering d \<noteq> Some i" using assms by (auto simp: workers_ok_def)
  then show ?thesis using assms returned_same [of ws n i Announcing]
    by (auto simp: workers_ok_def nth_list_update)
qed

lemma workers_take [worker_rules]:
  assumes "workers_ok n (w # wq) ws d" "heldWorker d = None" "answering d = None"
    and "heldWorker d' = Some w" "answering d' = None" "stopped n d' = stopped n d"
  shows "workers_ok n wq ws d'"
  using assms by (auto simp: workers_ok_def)

lemma workers_hand [worker_rules]:
  assumes "workers_ok n wq ws d" "heldWorker d = Some w" "answering d = None" "ws ! w = Selecting"
    and "heldWorker d' = None" "answering d' = None" "stopped n d' = stopped n d"
  shows "workers_ok n wq (ws[w := Running j]) d'"
  using assms returned_same [of ws n w "Running j"] by (auto simp: workers_ok_def nth_list_update)

lemma workers_stop [worker_rules]:
  assumes "workers_ok n wq ws d" "heldWorker d = Some w" "answering d = None" "ws ! w = Selecting"
    and "heldWorker d' = None" "answering d' = Some w" "stopped n d' = stopped n d"
  shows "workers_ok n wq (ws[w := Stopping]) d'"
  using assms returned_same [of ws n w Stopping] by (auto simp: workers_ok_def nth_list_update)

lemma workers_return [worker_rules]:
  assumes "workers_ok n wq ws d" "heldWorker d = None" "answering d = Some w" "ws ! w = Stopping"
    and "heldWorker d' = None" "answering d' = None" "stopped n d' = Suc (stopped n d)"
  shows "workers_ok n wq (ws[w := Returned]) d'"
proof -
  have "w < n" using assms by (auto simp: workers_ok_def)
  then have "w \<notin> set wq" using assms(1,4) unfolding workers_ok_def by (metis worker.distinct(11))
  with \<open>w < n\<close> show ?thesis using assms returned_more [of ws n w] by (auto simp: workers_ok_def nth_list_update)
qed

lemma workers_other [worker_rules]:
  assumes "workers_ok n wq ws d" "heldWorker d' = heldWorker d" "answering d' = answering d" "stopped n d' = stopped n d"
  shows "workers_ok n wq ws d'"
  using assms by (simp add: workers_ok_def)

section \<open>Every step keeps it\<close>

lemma inv_new: "pool_inv n (NewPool n q)"
proof -
  have "sum_list (replicate n ({#} :: 'a multiset)) = {#}" by (induction n) auto
  then show ?thesis
    by (auto simp: pool_inv_def workers_ok_def returned_def NewPool_def pool_Start_def newWorker_def runningJobs_def)
qed

lemma inv_submit: "pool_inv n p \<Longrightarrow> submit j p = Some p' \<Longrightarrow> pool_inv n p'"
  by (auto simp: pool_inv_def submit_def workers_ok_def split: if_splits)

lemma inv_Release: "pool_inv n p \<Longrightarrow> Release p = Some p' \<Longrightarrow> pool_inv n p'"
  by (cases "plDispatcher p") (auto simp: pool_inv_def Release_def split: if_splits)

lemma workers_length: "workers_ok n wq ws d \<Longrightarrow> length ws = n"
  by (simp add: workers_ok_def)

lemma inv_announce: "pool_inv n p \<Longrightarrow> workerAnnounce i p = Some p' \<Longrightarrow> pool_inv n p'"
  using runningJobs_update [of i "plWorkers p" Selecting]
  by (auto simp: pool_inv_def workerAnnounce_def workers_length intro!: workers_announce split: if_splits)

lemma inv_finish: "pool_inv n p \<Longrightarrow> workerFinish i p = Some p' \<Longrightarrow> pool_inv n p'"
  using runningJobs_update [of i "plWorkers p" Announcing]
  by (auto simp: pool_inv_def workerFinish_def workers_length intro!: workers_finish split: if_splits worker.splits)

lemma inv_dispatch_job:
  assumes "pool_inv n p" "dispatch p = Some p'" "heldJob (plDispatcher p) \<noteq> [] \<or> plDispatcher p = DSelect"
  shows "pool_inv n p'"
proof (cases "plDispatcher p")
  case DSelect
  then show ?thesis using assms
    by (auto simp: pool_inv_def dispatch_def intro: workers_other split: list.splits)
next
  case (DJob j)
  then show ?thesis using assms
    by (auto simp: pool_inv_def dispatch_def split: list.splits intro: workers_take)
next
  case (DHand j w)
  then have w: "w < length (plWorkers p)" "plWorkers p ! w = Selecting" "plDispatcher p = DHand j w"
    using assms by (auto simp: pool_inv_def workers_ok_def dispatch_def split: if_splits)
  have "workers_ok n (plWorkerQueue p) ((plWorkers p)[w := Running j]) DSelect"
    using assms(1) w by (intro workers_hand [where d = "DHand j w"]) (auto simp: pool_inv_def)
  then show ?thesis using assms w runningJobs_update [OF w(1), of "Running j"]
    by (auto simp: pool_inv_def dispatch_def)
qed (use assms in auto)

lemma inv_dispatch_stop:
  assumes "pool_inv n p" "dispatch p = Some p'" "heldJob (plDispatcher p) = []" "plDispatcher p \<noteq> DSelect"
  shows "pool_inv n p'"
proof (cases "plDispatcher p")
  case (DStop i)
  then show ?thesis using assms
    by (auto simp: pool_inv_def dispatch_def split: list.splits if_splits intro: workers_take workers_other)
next
  case (DStopWorker i w)
  then have w: "w < length (plWorkers p)" "plWorkers p ! w = Selecting" "plDispatcher p = DStopWorker i w"
    using assms by (auto simp: pool_inv_def workers_ok_def dispatch_def split: if_splits)
  have "workers_ok n (plWorkerQueue p) ((plWorkers p)[w := Stopping]) (DStopAnswer i w :: 'a dispatcher)"
    using assms(1) w by (intro workers_stop [where d = "DStopWorker i w"]) (auto simp: pool_inv_def)
  then show ?thesis using assms w runningJobs_update [OF w(1), of Stopping]
    by (auto simp: pool_inv_def dispatch_def)
next
  case (DStopAnswer i w)
  then have w: "w < length (plWorkers p)" "plWorkers p ! w = Stopping" "plDispatcher p = DStopAnswer i w"
    using assms by (auto simp: pool_inv_def workers_ok_def dispatch_def split: if_splits)
  have "workers_ok n (plWorkerQueue p) ((plWorkers p)[w := Returned]) (DStop (Suc i) :: 'a dispatcher)"
    using assms(1) w by (intro workers_return [where d = "DStopAnswer i w"]) (auto simp: pool_inv_def)
  then show ?thesis using assms w runningJobs_update [OF w(1), of Returned]
    by (auto simp: pool_inv_def dispatch_def)
next
  case DAnswer
  then show ?thesis using assms
    by (auto simp: pool_inv_def dispatch_def intro: workers_other split: if_splits)
qed (use assms in \<open>auto simp: dispatch_def\<close>)

lemma inv_work: "work p p' \<Longrightarrow> pool_inv n p \<Longrightarrow> pool_inv n p'"
proof (induction rule: work.induct)
  case (3 p p')
  then show ?case using inv_dispatch_job inv_dispatch_stop by blast
next
  case (4 p p')
  then show ?case by (auto simp: pool_inv_def dispatchStop_def intro: workers_other split: if_splits)
qed (auto intro: inv_announce inv_finish)

lemma pool_reach_inv: "pool_reach n q p \<Longrightarrow> pool_inv n p"
  by (induction rule: pool_reach.induct) (auto intro: inv_new inv_submit inv_Release inv_work)

section \<open>The pool's work ends\<close>

text \<open>A bound on the steps that the pool's goroutines can still take when no more jobs come.\<close>

fun workerLeft :: "'j worker \<Rightarrow> nat" where
  "workerLeft (Running j) = 2"
| "workerLeft Announcing = 1"
| "workerLeft _ = 0"

fun dispatcherLeft :: "nat \<Rightarrow> 'j dispatcher \<Rightarrow> nat" where
  "dispatcherLeft n DSelect = 0"
| "dispatcherLeft n (DJob j) = 4"
| "dispatcherLeft n (DHand j w) = 3"
| "dispatcherLeft n (DStop i) = 3 * (n - i) + 2"
| "dispatcherLeft n (DStopWorker i w) = 3 * (n - i) + 1"
| "dispatcherLeft n (DStopAnswer i w) = 3 * (n - i)"
| "dispatcherLeft n DAnswer = 1"
| "dispatcherLeft n DReturned = 0"

definition stepsLeft :: "'j Pool \<Rightarrow> nat" where
  "stepsLeft p = 5 * length (plJobQueue p) + dispatcherLeft (plCap p) (plDispatcher p)
     + sum_list (map workerLeft (plWorkers p)) + (if plRelease p = ReleaseSending then 3 * plCap p + 3 else 0)"

lemma workersLeft_update:
  assumes "i < length ws"
  shows "sum_list (map workerLeft (ws[i := v])) + workerLeft (ws ! i) = sum_list (map workerLeft ws) + workerLeft v"
proof -
  have "ws = take i ws @ ws ! i # drop (Suc i) ws" using assms by (rule id_take_nth_drop)
  then have "sum_list (map workerLeft ws)
      = sum_list (map workerLeft (take i ws)) + workerLeft (ws ! i) + sum_list (map workerLeft (drop (Suc i) ws))"
    by (metis add.assoc list.simps(9) map_append sum_list.Cons sum_list.append)
  then show ?thesis using assms by (simp add: upd_conv_take_nth_drop)
qed

lemma dispatch_left:
  assumes "pool_inv n p" "dispatch p = Some p'"
  shows "stepsLeft p' < stepsLeft p"
proof (cases "plDispatcher p")
  case (DHand j w)
  then have w: "w < length (plWorkers p)" "plWorkers p ! w = Selecting"
    using assms by (auto simp: pool_inv_def workers_ok_def dispatch_def split: if_splits)
  show ?thesis using assms(2) DHand w workersLeft_update [OF w(1), of "Running j"]
    by (auto simp: dispatch_def stepsLeft_def)
next
  case (DStopWorker i w)
  then have w: "w < length (plWorkers p)" "plWorkers p ! w = Selecting"
    using assms by (auto simp: pool_inv_def workers_ok_def dispatch_def split: if_splits)
  show ?thesis using assms(2) DStopWorker w workersLeft_update [OF w(1), of Stopping]
    by (auto simp: dispatch_def stepsLeft_def)
next
  case (DStopAnswer i w)
  then have w: "w < length (plWorkers p)" "plWorkers p ! w = Stopping" "i < plCap p"
    using assms by (auto simp: pool_inv_def workers_ok_def dispatch_def split: if_splits)
  show ?thesis using assms(2) DStopAnswer w workersLeft_update [OF w(1), of Returned]
    by (auto simp: dispatch_def stepsLeft_def)
qed (use assms in \<open>auto simp: dispatch_def stepsLeft_def pool_inv_def split: list.splits if_splits\<close>)

lemma work_left: "work p p' \<Longrightarrow> pool_inv n p \<Longrightarrow> stepsLeft p' < stepsLeft p"
proof (induction rule: work.induct)
  case (1 i p p')
  then show ?case using workersLeft_update [of i "plWorkers p" Selecting]
    by (auto simp: workerAnnounce_def stepsLeft_def split: if_splits)
next
  case (2 i p p')
  then show ?case using workersLeft_update [of i "plWorkers p" Announcing]
    by (auto simp: workerFinish_def stepsLeft_def split: if_splits worker.splits)
next
  case (3 p p')
  then show ?case using dispatch_left by blast
next
  case (4 p p')
  then show ?case by (auto simp: dispatchStop_def stepsLeft_def split: if_splits)
qed

section \<open>Where it ends\<close>

lemma no_work_worker:
  assumes "pool_inv n p" "\<nexists>p'. work p p'" "i < n"
  shows "plWorkers p ! i \<in> {Selecting, Stopping, Returned}"
proof -
  have len: "length (plWorkers p) = n" "plCap p = n" using assms(1) by (auto simp: pool_inv_def dest: workers_length)
  have "plWorkers p ! i \<noteq> Running j" for j
    using assms(2,3) len work.intros(2) [of i p] by (auto simp: workerFinish_def)
  moreover have "plWorkers p ! i \<noteq> Announcing"
  proof
    assume a: "plWorkers p ! i = Announcing"
    have "set (plWorkerQueue p) \<subseteq> {..<n} - {i}"
      using assms(1) a by (auto simp: pool_inv_def workers_ok_def)
    then have "card (set (plWorkerQueue p)) \<le> card ({..<n} - {i})" by (intro card_mono) auto
    then have "length (plWorkerQueue p) < n"
      using assms(1,3) distinct_card [of "plWorkerQueue p"] by (auto simp: pool_inv_def workers_ok_def)
    then show False using a assms(2,3) len work.intros(1) [of i p] by (auto simp: workerAnnounce_def)
  qed
  ultimately show ?thesis by (cases "plWorkers p ! i") auto
qed

text \<open>A worker that has not returned waits on the channel, when the dispatcher holds none.\<close>

lemma no_work_queue:
  assumes "pool_inv n p" "\<nexists>p'. work p p'" "stopped n (plDispatcher p) < n"
    and "heldWorker (plDispatcher p) = None" "answering (plDispatcher p) = None"
  shows "plWorkerQueue p \<noteq> []"
proof
  assume "plWorkerQueue p = []"
  then have "\<forall>i < n. plWorkers p ! i = Returned"
    using assms no_work_worker [OF assms(1,2)] by (fastforce simp: pool_inv_def workers_ok_def)
  then have "{i. i < n \<and> plWorkers p ! i = Returned} = {..<n}" by auto
  then show False using assms(1,3) by (simp add: pool_inv_def workers_ok_def returned_def)
qed

lemma all_returned:
  assumes "workers_ok n wq ws d" "stopped n d = n" "i < n"
  shows "ws ! i = Returned"
proof -
  have "{i. i < n \<and> ws ! i = Returned} = {..<n}"
    using assms(1,2) by (intro card_subset_eq) (auto simp: workers_ok_def returned_def)
  with assms(3) show ?thesis by blast
qed

lemma runningJobs_empty:
  assumes "\<forall>i < length ws. jobOf (ws ! i) = {#}"
  shows "runningJobs ws = {#}"
proof -
  have "map jobOf ws = replicate (length ws) {#}" using assms by (intro nth_equalityI) auto
  moreover have "sum_list (replicate k ({#} :: 'a multiset)) = {#}" for k by (induction k) auto
  ultimately show ?thesis by (simp add: runningJobs_def)
qed

lemma no_work_done:
  assumes "pool_inv n p" "\<nexists>p'. work p p'"
  shows "mset (plFinished p) = mset (plStarted p)"
proof -
  have "runningJobs (plWorkers p) = {#}"
    using no_work_worker [OF assms] assms(1)
    by (intro runningJobs_empty) (force simp: pool_inv_def workers_length)
  then show ?thesis using assms(1) by (simp add: pool_inv_def)
qed

lemma no_work_dispatcher:
  assumes inv: "pool_inv n p" and stuck: "\<nexists>p'. work p p'" and "0 < n"
  shows "plDispatcher p = DSelect \<and> plRelease p = NoRelease \<and> plJobQueue p = []
    \<or> plDispatcher p = DReturned \<and> plRelease p = Released"
proof -
  have none: "dispatch p = None" "dispatchStop p = None"
    using stuck work.intros(3,4) [of p] by (metis not_None_eq)+
  have cap: "plCap p = n" and ok: "workers_ok n (plWorkerQueue p) (plWorkers p) (plDispatcher p)"
    and rel: "releasing n (plDispatcher p) (plRelease p)"
    using inv by (simp_all add: pool_inv_def)
  note queue = no_work_queue [OF inv stuck]
  show ?thesis
  proof (cases "plDispatcher p")
    case (DHand j w)
    then show ?thesis using none ok by (auto simp: dispatch_def workers_ok_def)
  next
    case (DStop i)
    then show ?thesis using none rel cap queue by (auto simp: dispatch_def split: if_splits list.splits)
  next
    case (DStopWorker i w)
    then show ?thesis using none ok by (auto simp: dispatch_def workers_ok_def)
  next
    case (DStopAnswer i w)
    then show ?thesis using none ok by (auto simp: dispatch_def workers_ok_def)
  qed (use none rel cap queue \<open>0 < n\<close> in \<open>auto simp: dispatch_def dispatchStop_def split: if_splits list.splits\<close>)
qed

lemma size_runningJobs: "size (runningJobs ws) \<le> length ws"
proof (induction ws)
  case (Cons w ws)
  have "size (jobOf w) \<le> 1" by (cases w) auto
  with Cons show ?case by (simp add: runningJobs_def)
qed (simp add: runningJobs_def)

lemma released_done:
  assumes "pool_inv n p" "plRelease p = Released"
  shows "mset (plFinished p) = mset (plStarted p) \<and> set (plWorkers p) \<subseteq> {Returned}"
proof -
  have d: "plDispatcher p = DReturned" using assms by (cases "plDispatcher p") (auto simp: pool_inv_def)
  have len: "length (plWorkers p) = n" using assms(1) by (auto simp: pool_inv_def dest: workers_length)
  have r: "plWorkers p ! i = Returned" if "i < n" for i
    using assms(1) d that by (intro all_returned [of n "plWorkerQueue p" _ "plDispatcher p"]) (auto simp: pool_inv_def)
  then have "runningJobs (plWorkers p) = {#}" using len by (intro runningJobs_empty) simp
  then show ?thesis using assms(1) r len by (auto simp: pool_inv_def in_set_conv_nth)
qed

lemma work_ends: "pool_inv n p \<Longrightarrow> f 0 = p \<Longrightarrow> \<forall>k. work (f k) (f (Suc k)) \<Longrightarrow> False"
proof (induction "stepsLeft p" arbitrary: p f rule: less_induct)
  case less
  have w: "work p (f 1)" using less.prems(2,3) by (metis One_nat_def)
  show False
    using less.hyps [OF work_left [OF w less.prems(1)] inv_work [OF w less.prems(1)], of "\<lambda>k. f (Suc k)"] less.prems(3)
    by simp
qed

lemma inv_works: "work\<^sup>*\<^sup>* p p' \<Longrightarrow> pool_inv n p \<Longrightarrow> pool_inv n p'"
  by (induction rule: rtranclp_induct) (auto intro: inv_work)

section \<open>The pool runs its jobs\<close>

text \<open>C16: in every reachable state of a pool with workers, the jobs submitted are, in their order, those started, the one
  the dispatcher has and those on the channel; those started are finished or run by a worker, no more than there are
  workers. The pool's own steps always come to an end; then, if it was not released, all jobs submitted are finished, and if
  it was, \<^verbatim>\<open>Release\<close> has returned and all jobs started are finished. When \<^verbatim>\<open>Release\<close> returns no job runs and all workers
  have returned.\<close>

theorem pool_runs_jobs:
  assumes "pool_reach n q p" and "0 < n"
  shows "plSubmitted p = plStarted p @ heldJob (plDispatcher p) @ plJobQueue p
    \<and> mset (plStarted p) = mset (plFinished p) + runningJobs (plWorkers p) \<and> size (runningJobs (plWorkers p)) \<le> n
    \<and> (\<nexists>f. f 0 = p \<and> (\<forall>k. work (f k) (f (Suc k))))
    \<and> (\<forall>p'. work\<^sup>*\<^sup>* p p' \<longrightarrow> (\<nexists>p''. work p' p'') \<longrightarrow>
         mset (plFinished p') = mset (plStarted p') \<and>
         (plRelease p' = NoRelease \<and> plStarted p' = plSubmitted p' \<or> plRelease p' = Released))
    \<and> (plRelease p = Released \<longrightarrow> mset (plFinished p) = mset (plStarted p) \<and> set (plWorkers p) \<subseteq> {Returned})"
proof -
  have inv: "pool_inv n p" using assms(1) by (rule pool_reach_inv)
  then have "size (runningJobs (plWorkers p)) \<le> n"
    using size_runningJobs [of "plWorkers p"] by (auto simp: pool_inv_def dest: workers_length)
  moreover have "mset (plFinished p') = mset (plStarted p')
      \<and> (plRelease p' = NoRelease \<and> plStarted p' = plSubmitted p' \<or> plRelease p' = Released)"
    if "work\<^sup>*\<^sup>* p p'" "\<nexists>p''. work p' p''" for p'
  proof -
    have inv': "pool_inv n p'" using that(1) inv by (rule inv_works)
    then show ?thesis using no_work_done [OF inv' that(2)] no_work_dispatcher [OF inv' that(2) assms(2)]
      by (auto simp: pool_inv_def)
  qed
  moreover have "\<nexists>f. f 0 = p \<and> (\<forall>k. work (f k) (f (Suc k)))" using work_ends [OF inv] by blast
  moreover have "plSubmitted p = plStarted p @ heldJob (plDispatcher p) @ plJobQueue p"
    "mset (plStarted p) = mset (plFinished p) + runningJobs (plWorkers p)"
    using inv by (simp_all add: pool_inv_def)
  ultimately show ?thesis using released_done [OF inv] by blast
qed

text \<open>A pool of one worker whose release is received before its job: the job stays on the channel for good.\<close>

definition demo_pool :: "nat Pool" where
  "demo_pool =
     \<lparr>plCap = 1, plQueueLen = 2, plJobQueue = [7], plWorkerQueue = [], plWorkers = [Returned], plDispatcher = DReturned,
      plRelease = Released, plSubmitted = [5, 7], plStarted = [5], plFinished = [5]\<rparr>"

definition demo_steps :: "(nat Pool \<Rightarrow> nat Pool option) list" where
  "demo_steps = [submit 5, workerAnnounce 0, dispatch, dispatch, dispatch, submit 7, Release, dispatchStop, workerFinish 0,
     workerAnnounce 0, dispatch, dispatch, dispatch, dispatch, dispatch]"

fun runSteps :: "('a \<Rightarrow> 'a option) list \<Rightarrow> 'a \<Rightarrow> 'a option" where
  "runSteps [] p = Some p"
| "runSteps (g # gs) p = Option.bind (g p) (runSteps gs)"

definition keeps_reach :: "nat \<Rightarrow> nat \<Rightarrow> ('j Pool \<Rightarrow> 'j Pool option) \<Rightarrow> bool" where
  "keeps_reach n q g \<longleftrightarrow> (\<forall>p p'. pool_reach n q p \<longrightarrow> g p = Some p' \<longrightarrow> pool_reach n q p')"

lemma keeps_reach_steps [simp]:
  "keeps_reach n q (submit j)" "keeps_reach n q Release" "keeps_reach n q (workerAnnounce i)"
  "keeps_reach n q (workerFinish i)" "keeps_reach n q dispatch" "keeps_reach n q dispatchStop"
  unfolding keeps_reach_def by (metis reach_submit reach_release reach_work work.intros)+

lemma runSteps_reach:
  "list_all (keeps_reach n q) gs \<Longrightarrow> runSteps gs p = Some p' \<Longrightarrow> pool_reach n q p \<Longrightarrow> pool_reach n q p'"
  by (induction gs arbitrary: p) (auto simp: bind_eq_Some_conv keeps_reach_def)

lemma demo_run: "runSteps demo_steps (NewPool 1 2) = Some demo_pool"
  by code_simp

lemma released_pool_drops: "pool_reach 1 2 demo_pool"
  by (rule runSteps_reach [OF _ demo_run reach_new]) (simp add: demo_steps_def)

theorem pool_runs_jobs_witness:
  "plSubmitted demo_pool = plStarted demo_pool @ heldJob (plDispatcher demo_pool) @ plJobQueue demo_pool
   \<and> mset (plFinished demo_pool) = mset (plStarted demo_pool) \<and> plJobQueue demo_pool = [7]"
  using pool_runs_jobs [OF released_pool_drops] by (simp add: demo_pool_def)

end
