(* ===== verification/Sync_Tools.thy ===== *)
theory Sync_Tools
  imports Go_Prelude
begin

text \<open>
  Two small tools: \<^verbatim>\<open>tars/util/sync/once.go\<close>, a once that may fail, and \<^verbatim>\<open>tars/util/set/set.go\<close>, a set with a count.
  The mutex of the once makes \<^verbatim>\<open>doSlow\<close> one step; the set's operations are used by one goroutine at a time.
\<close>

section \<open>Once\<close>

text \<open>The function is an error or none and a change of a world \<open>'w\<close>.\<close>

record Once =
  onDone :: bool

definition doSlow :: "('w \<Rightarrow> 'e option \<times> 'w) \<Rightarrow> Once \<times> 'w \<Rightarrow> 'e option \<times> Once \<times> 'w" where
  "doSlow f = (\<lambda>(s, w).
     if \<not> onDone s
     then (case f w of (err, w) \<Rightarrow> (err, (if err = None then s\<lparr>onDone := True\<rparr> else s), w))
     else (None, s, w))"

definition Do :: "('w \<Rightarrow> 'e option \<times> 'w) \<Rightarrow> Once \<times> 'w \<Rightarrow> 'e option \<times> Once \<times> 'w" where
  "Do f = (\<lambda>(s, w). if onDone s then (None, s, w) else doSlow f (s, w))"

definition Done :: "Once \<Rightarrow> bool" where "Done s = onDone s"

fun doAll :: "('w \<Rightarrow> 'e option \<times> 'w) list \<Rightarrow> Once \<times> 'w \<Rightarrow> 'e option list \<times> Once \<times> 'w" where
  "doAll [] s = ([], s)"
| "doAll (f # fs) s = (case Do f s of (e, s) \<Rightarrow> case doAll fs s of (es, s) \<Rightarrow> (e # es, s))"

text \<open>Functions are called up to the first success and not after it; the calls after it return no error.\<close>

lemma doAll_done: "onDone s \<Longrightarrow> doAll fs (s, w) = (replicate (length fs) None, s, w)"
  by (induction fs) (simp_all add: Do_def)

lemma once_first_success:
  assumes "doAll fs (\<lparr>onDone = False\<rparr>, w) = (es, s, w')"
  shows "onDone s \<longleftrightarrow> None \<in> set es"
    and "onDone s \<Longrightarrow> \<exists>pre f post w1. fs = pre @ f # post \<and> fst (f w1) = None \<and> snd (f w1) = w'
           \<and> doAll pre (\<lparr>onDone = False\<rparr>, w) = (take (length pre) es, \<lparr>onDone = False\<rparr>, w1)"
proof -
  have "(onDone s \<longleftrightarrow> None \<in> set es) \<and> (onDone s \<longrightarrow> (\<exists>pre f post w1. fs = pre @ f # post \<and> fst (f w1) = None
      \<and> snd (f w1) = w' \<and> doAll pre (\<lparr>onDone = False\<rparr>, w) = (take (length pre) es, \<lparr>onDone = False\<rparr>, w1)))"
    using assms
  proof (induction fs arbitrary: w es)
    case (Cons f fs)
    obtain e w1 where f: "f w = (e, w1)" by fastforce
    show ?case
    proof (cases e)
      case None
      then have "es = None # replicate (length fs) None" "s = \<lparr>onDone = True\<rparr>" "w' = w1"
        using Cons.prems f by (auto simp: Do_def doSlow_def doAll_done)
      moreover have "f # fs = [] @ f # fs" by simp
      ultimately show ?thesis using f None by (intro conjI impI exI [of _ "[]"] exI [of _ f] exI [of _ fs] exI [of _ w]) auto
    next
      case (Some err)
      then obtain es' where es: "es = e # es'" "doAll fs (\<lparr>onDone = False\<rparr>, w1) = (es', s, w')"
        using Cons.prems f by (auto simp: Do_def doSlow_def split: prod.splits)
      note IH = Cons.IH [OF es(2)]
      show ?thesis
      proof (intro conjI impI)
        show "onDone s \<longleftrightarrow> None \<in> set es" using IH es Some by auto
        assume "onDone s"
        with IH obtain pre g post w2 where g: "fs = pre @ g # post" "fst (g w2) = None" "snd (g w2) = w'"
          "doAll pre (\<lparr>onDone = False\<rparr>, w1) = (take (length pre) es', \<lparr>onDone = False\<rparr>, w2)" by blast
        have "f # fs = (f # pre) @ g # post" using g(1) by simp
        moreover have "doAll (f # pre) (\<lparr>onDone = False\<rparr>, w) = (take (length (f # pre)) es, \<lparr>onDone = False\<rparr>, w2)"
          using f Some es(1) g(4) by (simp add: Do_def doSlow_def)
        ultimately show "\<exists>pre g post w1. f # fs = pre @ g # post \<and> fst (g w1) = None \<and> snd (g w1) = w'
            \<and> doAll pre (\<lparr>onDone = False\<rparr>, w) = (take (length pre) es, \<lparr>onDone = False\<rparr>, w1)"
          using g(2,3) by blast
      qed
    qed
  qed auto
  then show "onDone s \<longleftrightarrow> None \<in> set es"
    and "onDone s \<Longrightarrow> \<exists>pre f post w1. fs = pre @ f # post \<and> fst (f w1) = None \<and> snd (f w1) = w'
           \<and> doAll pre (\<lparr>onDone = False\<rparr>, w) = (take (length pre) es, \<lparr>onDone = False\<rparr>, w1)"
    by blast+
qed

section \<open>Sets\<close>

record 'a Set =
  stEl :: "'a list"
  stLength :: int32

definition set_Add :: "'a \<Rightarrow> 'a Set \<Rightarrow> bool \<times> 'a Set" where
  "set_Add e s = (if e \<in> set (stEl s) then (True, s)
     else (False, s\<lparr>stEl := stEl s @ [e], stLength := stLength s + 1\<rparr>))"

definition NewSet :: "'a list \<Rightarrow> 'a Set" where
  "NewSet opt = foldl (\<lambda>s e. snd (set_Add e s)) \<lparr>stEl = [], stLength = 0\<rparr> opt"

text \<open>The count is changed whether the element is there or not.\<close>

definition set_Remove :: "'a \<Rightarrow> 'a Set \<Rightarrow> 'a Set" where
  "set_Remove e s =
     (let n = stLength s - 1; n = (if n = - 1 then 0 else n) in s\<lparr>stLength := n, stEl := remove1 e (stEl s)\<rparr>)"

definition set_Clear :: "'a Set \<Rightarrow> 'a Set" where "set_Clear s = \<lparr>stEl = [], stLength = 0\<rparr>"
definition set_Slice :: "('a list \<Rightarrow> 'a list) \<Rightarrow> 'a Set \<Rightarrow> 'a list" where "set_Slice ord s = ord (stEl s)"
definition set_Len :: "'a Set \<Rightarrow> int32" where "set_Len s = stLength s"
definition set_Has :: "'a \<Rightarrow> 'a Set \<Rightarrow> bool" where "set_Has e s \<longleftrightarrow> e \<in> set (stEl s)"

definition set_ok :: "'a Set \<Rightarrow> bool" where
  "set_ok s \<longleftrightarrow> distinct (stEl s) \<and> stLength s = of_nat (length (stEl s))"

lemma set_Add_ok: "set_ok s \<Longrightarrow> set_ok (snd (set_Add e s)) \<and> set_Has x (snd (set_Add e s)) = (x = e \<or> set_Has x s)"
  by (auto simp: set_ok_def set_Add_def set_Has_def)

lemma NewSet_ok: "set_ok (NewSet opt)"
proof -
  have "set_ok s \<Longrightarrow> set_ok (foldl (\<lambda>s e. snd (set_Add e s)) s opt)" for s :: "'a Set"
    by (induction opt arbitrary: s) (simp_all add: set_Add_ok)
  then show ?thesis by (simp add: NewSet_def set_ok_def)
qed

lemma set_Remove_ok:
  assumes "set_ok s" "set_Has e s" "length (stEl s) < 2 ^ 31"
  shows "set_ok (set_Remove e s) \<and> set_Has x (set_Remove e s) = (x \<noteq> e \<and> set_Has x s)"
proof -
  obtain k where k: "length (stEl s) = Suc k"
    using assms(2) by (cases "length (stEl s)") (auto simp: set_Has_def)
  have "(of_nat (Suc k) :: int32) \<noteq> 0"
    using assms(3) k by (auto simp: word_of_nat_eq_0_iff simp del: of_nat_Suc dest: dvd_imp_le)
  then have "(of_nat k :: int32) \<noteq> - 1" by (metis add.left_inverse add.commute of_nat_Suc)
  moreover have "stLength s = of_nat k + 1" using assms(1) k by (simp add: set_ok_def)
  ultimately show ?thesis using assms(1,2) k
    by (auto simp: set_ok_def set_Remove_def set_Has_def Let_def length_remove1)
qed

text \<open>Removing an element that is not there makes the count wrong.\<close>

lemma set_Remove_absent: "set_Len (set_Remove (2::nat) (NewSet [1])) = 0 \<and> set_Has 1 (set_Remove (2::nat) (NewSet [1]))"
  by (simp add: NewSet_def set_Add_def set_Remove_def set_Len_def set_Has_def)

end
