(* ===== verification/Log_Files.thy ===== *)
theory Log_Files
  imports App_Config "HOL-Library.Sublist"
begin

text \<open>
  \<^verbatim>\<open>tars/util/rogger/logwriter.go\<close>: log files that are rotated by size or by date. A file system is a table of names and
  the contents of files; an open file keeps its content when its name changes. Whether a file can be opened is an argument;
  a write to an open file writes everything, one to a closed file nothing.
\<close>

section \<open>Files\<close>

record fileSystem =
  fsNames :: "(gostring \<times> nat) list"
  fsFiles :: "bytes list"

definition os_Exists :: "gostring \<Rightarrow> fileSystem \<Rightarrow> bool" where
  "os_Exists path fs \<longleftrightarrow> map_of (fsNames fs) path \<noteq> None"

definition os_Size :: "gostring \<Rightarrow> fileSystem \<Rightarrow> nat option" where
  "os_Size path fs = map_option (\<lambda>i. length (fsFiles fs ! i)) (map_of (fsNames fs) path)"

text \<open>Opening for appending, creating the file when there is none.\<close>

definition os_OpenAppend :: "gostring \<Rightarrow> fileSystem \<Rightarrow> nat \<times> fileSystem" where
  "os_OpenAppend path fs = (case map_of (fsNames fs) path of
     Some i \<Rightarrow> (i, fs)
   | None \<Rightarrow> (length (fsFiles fs), \<lparr>fsNames = AList.update path (length (fsFiles fs)) (fsNames fs), fsFiles = fsFiles fs @ [[]]\<rparr>))"

definition os_Append :: "nat \<Rightarrow> bytes \<Rightarrow> fileSystem \<Rightarrow> fileSystem" where
  "os_Append i v fs = fs\<lparr>fsFiles := (fsFiles fs)[i := fsFiles fs ! i @ v]\<rparr>"

definition os_Rename :: "gostring \<Rightarrow> gostring \<Rightarrow> fileSystem \<Rightarrow> fileSystem" where
  "os_Rename p1 p2 fs = (case map_of (fsNames fs) p1 of
     None \<Rightarrow> fs
   | Some i \<Rightarrow> fs\<lparr>fsNames := (if p1 = p2 then fsNames fs else AList.delete p1 (AList.update p2 i (fsNames fs)))\<rparr>)"

definition os_Remove :: "gostring \<Rightarrow> fileSystem \<Rightarrow> fileSystem" where
  "os_Remove path fs = fs\<lparr>fsNames := AList.delete path (fsNames fs)\<rparr>"

text \<open>The current file of a writer: none, or a file that is open or was closed.\<close>

type_synonym logFile = "(nat \<times> bool) option"

text \<open>When the file cannot be opened, the writer keeps the file it has just closed.\<close>

definition reOpenFile :: "(gostring \<Rightarrow> bool) \<Rightarrow> gostring \<Rightarrow> logFile \<Rightarrow> fileSystem \<Rightarrow> logFile \<times> fileSystem" where
  "reOpenFile canOpen path currFile fs =
     (if canOpen path then (case os_OpenAppend path fs of (i, fs) \<Rightarrow> (Some (i, True), fs))
      else (map_option (\<lambda>(i, _). (i, False)) currFile, fs))"

definition file_Write :: "bytes \<Rightarrow> nat \<times> bool \<Rightarrow> fileSystem \<Rightarrow> nat \<times> fileSystem" where
  "file_Write v = (\<lambda>(i, isOpen) fs. if isOpen then (length v, os_Append i v fs) else (0, fs))"

section \<open>Rotation by size\<close>

record RollFileWriter =
  rwLogpath :: gostring
  rwName :: gostring
  rwNum :: int64
  rwSize :: int64
  rwCurrSize :: int64
  rwCurrFile :: logFile
  rwOpenTime :: int64

text \<open>The path of file \<open>i\<close>: the current file has no number.\<close>

definition rollPath :: "gostring \<Rightarrow> gostring \<Rightarrow> nat \<Rightarrow> gostring" where
  "rollPath logpath name i =
     filepath_Join2 logpath (name @ (if i = 0 then [] else FormatInt (int i) 10) @ ascii ''.log'')"

text \<open>The loop that renames the files, from the last to the first.\<close>

fun rollLoop :: "(nat \<Rightarrow> gostring) \<Rightarrow> nat \<Rightarrow> fileSystem \<Rightarrow> fileSystem" where
  "rollLoop path 0 fs = fs"
| "rollLoop path (Suc i) fs =
     rollLoop path i (if os_Exists (path i) fs then os_Rename (path i) (path (Suc i)) fs else fs)"

definition RollFileWriter_Write :: "(gostring \<Rightarrow> bool) \<Rightarrow> int64 \<Rightarrow> bytes \<Rightarrow> RollFileWriter \<times> fileSystem
    \<Rightarrow> RollFileWriter \<times> fileSystem" where
  "RollFileWriter_Write canOpen now v = (\<lambda>(w, fs).
     let path = rollPath (rwLogpath w) (rwName w);
         (w, fs) = (if rwCurrFile w = None \<or> sint (rwOpenTime w + 10) < sint now
                    then (case reOpenFile canOpen (path 0) (rwCurrFile w) fs of (file, fs) \<Rightarrow>
                            (w\<lparr>rwCurrFile := file, rwOpenTime := now\<rparr>, fs))
                    else (w, fs))
     in case rwCurrFile w of
          None \<Rightarrow> (w, fs)
        | Some file \<Rightarrow>
            (case file_Write v file fs of (n, fs) \<Rightarrow>
               let w = w\<lparr>rwCurrSize := rwCurrSize w + of_nat n\<rparr>
               in if sint (rwSize w) \<le> sint (rwCurrSize w)
                  then (case reOpenFile canOpen (path 0) (rwCurrFile w) (rollLoop path (nat (sint (rwNum w) - 1)) fs) of
                          (file, fs) \<Rightarrow> (w\<lparr>rwCurrSize := 0, rwCurrFile := file, rwOpenTime := now\<rparr>, fs))
                  else (w, fs)))"

definition NewRollFileWriter :: "gostring \<Rightarrow> gostring \<Rightarrow> int64 \<Rightarrow> int64 \<Rightarrow> fileSystem \<Rightarrow> RollFileWriter" where
  "NewRollFileWriter logpath name num sizeMB fs =
     \<lparr>rwLogpath = logpath, rwName = name, rwNum = num, rwSize = sizeMB * 1024 * 1024,
      rwCurrSize = (case os_Size (rollPath logpath name 0) fs of None \<Rightarrow> 0 | Some n \<Rightarrow> of_nat n),
      rwCurrFile = None, rwOpenTime = 0\<rparr>"

section \<open>Rotation by date\<close>

datatype DateType = DAY | HOUR

record DateWriter =
  dwLogpath :: gostring
  dwName :: gostring
  dwDateType :: DateType
  dwNum :: int64
  dwCurrDate :: gostring
  dwCurrFile :: logFile
  dwOpenTime :: int64
  dwHasPrefix :: bool

text \<open>The dates of the package \<^verbatim>\<open>gtime\<close>, and the text that \<^verbatim>\<open>time.Format\<close> gives for a time, in hours before now.\<close>

record dateClock =
  dcDay :: gostring
  dcHour :: gostring
  dcUnix :: int64
  dcFormat :: "DateType \<Rightarrow> int \<Rightarrow> gostring"

definition getCurrDate :: "dateClock \<Rightarrow> DateWriter \<Rightarrow> gostring" where
  "getCurrDate c w = (if dwDateType w = HOUR then dcHour c else dcDay c)"

definition isExpired :: "dateClock \<Rightarrow> DateWriter \<Rightarrow> bool" where
  "isExpired c w \<longleftrightarrow> dwCurrDate w \<noteq> getCurrDate c w"

definition datePath :: "DateWriter \<Rightarrow> gostring \<Rightarrow> gostring" where
  "datePath w k = filepath_Join2 (dwLogpath w) (dwName w @ ascii ''_'' @ k @ ascii ''.log'')"

text \<open>The thirty files before the last \<open>num\<close> are removed.\<close>

definition cleanOldLogs :: "dateClock \<Rightarrow> DateWriter \<Rightarrow> fileSystem \<Rightarrow> fileSystem" where
  "cleanOldLogs c w fs =
     (let hours = (if dwDateType w = HOUR then 1 else 24) in
      foldl (\<lambda>fs i. let fullPath = datePath w (dcFormat c (dwDateType w) (hours * (sint (dwNum w) + int i + 1)))
                    in if os_Exists fullPath fs then os_Remove fullPath fs else fs) fs [0..<30])"

definition DateWriter_Write :: "(gostring \<Rightarrow> bool) \<Rightarrow> dateClock \<Rightarrow> bytes \<Rightarrow> DateWriter \<times> fileSystem
    \<Rightarrow> DateWriter \<times> fileSystem" where
  "DateWriter_Write canOpen c v = (\<lambda>(w, fs).
     let (w, fs) = (if isExpired c w
                    then let w = w\<lparr>dwCurrDate := getCurrDate c w\<rparr>; fs = cleanOldLogs c w fs in
                         (case reOpenFile canOpen (datePath w (dwCurrDate w)) (dwCurrFile w) fs of (file, fs) \<Rightarrow>
                            (w\<lparr>dwCurrFile := file, dwOpenTime := dcUnix c\<rparr>, fs))
                    else (w, fs));
         (w, fs) = (if dwCurrFile w = None \<or> sint (dwOpenTime w + 10) < sint (dcUnix c)
                    then (case reOpenFile canOpen (datePath w (dwCurrDate w)) (dwCurrFile w) fs of (file, fs) \<Rightarrow>
                            (w\<lparr>dwCurrFile := file, dwOpenTime := dcUnix c\<rparr>, fs))
                    else (w, fs))
     in case dwCurrFile w of
          None \<Rightarrow> (w, fs)
        | Some file \<Rightarrow> (w, snd (file_Write v file fs)))"

definition NewDateWriter :: "dateClock \<Rightarrow> gostring \<Rightarrow> gostring \<Rightarrow> DateType \<Rightarrow> int64 \<Rightarrow> DateWriter" where
  "NewDateWriter c logpath name dateType num =
     (let w = \<lparr>dwLogpath = logpath, dwName = name, dwDateType = dateType, dwNum = num, dwCurrDate = [], dwCurrFile = None,
               dwOpenTime = 0, dwHasPrefix = True\<rparr>
      in w\<lparr>dwCurrDate := getCurrDate c w\<rparr>)"

definition DateWriter_SetPrefix :: "bool \<Rightarrow> DateWriter \<Rightarrow> DateWriter" where
  "DateWriter_SetPrefix enable w = w\<lparr>dwHasPrefix := enable\<rparr>"

section \<open>Renaming\<close>

lemma names_rename:
  assumes "p1 \<noteq> p2"
  shows "map_of (fsNames (if os_Exists p1 fs then os_Rename p1 p2 fs else fs)) q
    = (if map_of (fsNames fs) p1 = None then map_of (fsNames fs) q
       else if q = p1 then None else if q = p2 then map_of (fsNames fs) p1 else map_of (fsNames fs) q)"
  using assms by (auto simp: os_Exists_def os_Rename_def delete_conv' update_conv')

lemma files_rename: "fsFiles (if os_Exists p1 fs then os_Rename p1 p2 fs else fs) = fsFiles fs"
  by (simp add: os_Rename_def split: option.split)

text \<open>The names after the loop, when the files that exist are numbered without gaps: every file has moved up by one, the
  last one has lost its name.\<close>

lemma rollLoop_names:
  assumes "inj_on path {..k}" and "\<forall>i < k. map_of (fsNames fs) (path i) = None \<longrightarrow> map_of (fsNames fs) (path (Suc i)) = None"
  shows "fsFiles (rollLoop path k fs) = fsFiles fs
    \<and> (\<forall>q. q \<notin> path ` {..k} \<longrightarrow> map_of (fsNames (rollLoop path k fs)) q = map_of (fsNames fs) q)
    \<and> (\<forall>i \<le> k. map_of (fsNames (rollLoop path k fs)) (path i)
         = (if k = 0 then map_of (fsNames fs) (path 0) else if i = 0 then None else map_of (fsNames fs) (path (i - 1))))"
  using assms
proof (induction k arbitrary: fs)
  case (Suc k)
  let ?fs = "if os_Exists (path k) fs then os_Rename (path k) (path (Suc k)) fs else fs"
  have inj: "inj_on path {..k}" using Suc.prems(1) by (rule inj_on_subset) auto
  have eq: "path i = path j \<longleftrightarrow> i = j" if "i \<le> Suc k" "j \<le> Suc k" for i j
    using inj_on_eq_iff [OF Suc.prems(1)] that by simp
  have ne: "path k \<noteq> path (Suc k)" by (simp add: eq)
  note names = names_rename [OF ne, of fs]
  have k: "map_of (fsNames ?fs) (path k) = None" "map_of (fsNames ?fs) (path (Suc k)) = map_of (fsNames fs) (path k)"
    using names [of "path k"] names [of "path (Suc k)"] ne Suc.prems(2) by auto
  have low: "map_of (fsNames ?fs) (path i) = map_of (fsNames fs) (path i)" if "i < k" for i
    using names [of "path i"] that by (simp add: eq)
  have "\<forall>i < k. map_of (fsNames ?fs) (path i) = None \<longrightarrow> map_of (fsNames ?fs) (path (Suc i)) = None"
    using Suc.prems(2) k(1) low by (metis Suc_lessI less_SucI)
  note IH = Suc.IH [OF inj this]
  have out: "path (Suc k) \<notin> path ` {..k}" by (auto simp: eq)
  show ?case
  proof (intro conjI allI impI)
    show "fsFiles (rollLoop path (Suc k) fs) = fsFiles fs" using IH files_rename by simp
    fix q assume "q \<notin> path ` {..Suc k}"
    then have "q \<noteq> path k" "q \<noteq> path (Suc k)" "q \<notin> path ` {..k}" by auto
    then show "map_of (fsNames (rollLoop path (Suc k) fs)) q = map_of (fsNames fs) q"
      using IH names [of q] by simp
  next
    fix i assume "i \<le> Suc k"
    then consider "i = Suc k" | "i = 0" "k = 0" | "i = 0" "0 < k" | "0 < i" "i \<le> k" by linarith
    then show "map_of (fsNames (rollLoop path (Suc k) fs)) (path i)
        = (if Suc k = 0 then map_of (fsNames fs) (path 0) else if i = 0 then None else map_of (fsNames fs) (path (i - 1)))"
    proof cases
      case 1
      then show ?thesis using IH out k(2) by simp
    next
      case 2
      then show ?thesis using IH k(1) by (auto split: if_split_asm)
    next
      case 3
      then show ?thesis using IH by simp
    next
      case 4
      then show ?thesis using IH low [of "i - 1"] by simp
    qed
  qed
qed simp

section \<open>The directory of a writer\<close>

text \<open>The log files in the order of their numbers: \<open>js\<close> are the files behind the names.\<close>

definition logDir :: "(nat \<Rightarrow> gostring) \<Rightarrow> nat \<Rightarrow> nat list \<Rightarrow> fileSystem \<Rightarrow> bool" where
  "logDir path num js fs \<longleftrightarrow> length js \<le> num \<and> distinct js \<and> (\<forall>j \<in> set js. j < length (fsFiles fs))
     \<and> (\<forall>i < num. map_of (fsNames fs) (path i) = (if i < length js then Some (js ! i) else None))"

definition contents :: "nat list \<Rightarrow> fileSystem \<Rightarrow> bytes list" where
  "contents js fs = map (\<lambda>j. fsFiles fs ! j) js"

text \<open>What a write does to the contents, newest first.\<close>

definition segWrite :: "nat \<Rightarrow> nat \<Rightarrow> bytes \<Rightarrow> bytes list \<Rightarrow> bytes list" where
  "segWrite num lim v segs =
     (let cur = (if segs = [] then [] else hd segs) @ v in
      if lim \<le> length cur then [] # take (num - 1) (cur # tl segs) else cur # tl segs)"

lemma logDir_open:
  assumes "logDir path num js fs" "inj_on path {..<num}" "0 < num" "os_OpenAppend (path 0) fs = (i, fs')"
  shows "logDir path num (if js = [] then [i] else js) fs'
    \<and> contents (if js = [] then [i] else js) fs' = (if js = [] then [[]] else contents js fs)
    \<and> i = hd (if js = [] then [i] else js)"
proof (cases js)
  case Nil
  then have "map_of (fsNames fs) (path 0) = None" using assms(1,3) by (simp add: logDir_def)
  then have i: "i = length (fsFiles fs)"
    "fs' = \<lparr>fsNames = AList.update (path 0) i (fsNames fs), fsFiles = fsFiles fs @ [[]]\<rparr>"
    using assms(4) by (auto simp: os_OpenAppend_def)
  have "path k \<noteq> path 0" if "k < num" "k \<noteq> 0" for k
    using assms(2,3) that by (auto dest: inj_onD)
  then have "logDir path num [i] fs'"
    using assms(1,3) Nil by (auto simp: logDir_def i update_conv')
  then show ?thesis using Nil by (simp add: contents_def i)
next
  case (Cons j js')
  then have "map_of (fsNames fs) (path 0) = Some j" using assms(1,3) by (simp add: logDir_def)
  then have "i = j" "fs' = fs" using assms(4) by (auto simp: os_OpenAppend_def)
  then show ?thesis using assms(1) Cons by simp
qed

lemma logDir_append:
  assumes "logDir path num (j # js) fs"
  shows "logDir path num (j # js) (os_Append j v fs)
    \<and> contents (j # js) (os_Append j v fs) = (hd (contents (j # js) fs) @ v) # tl (contents (j # js) fs)"
  using assms by (auto simp: logDir_def os_Append_def contents_def nth_list_update)

lemma logDir_roll:
  assumes "logDir path num js fs" "inj_on path {..<num}" "2 \<le> num" "js \<noteq> []"
    and "os_OpenAppend (path 0) (rollLoop path (num - 1) fs) = (i, fs')"
  shows "logDir path num (i # take (num - 1) js) fs' \<and> contents (i # take (num - 1) js) fs' = [] # take (num - 1) (contents js fs)"
proof -
  let ?fs = "rollLoop path (num - 1) fs"
  have "{..num - 1} = {..<num}" using assms(3) by auto
  moreover have "\<forall>i < num - 1. map_of (fsNames fs) (path i) = None \<longrightarrow> map_of (fsNames fs) (path (Suc i)) = None"
    using assms(1) by (auto simp: logDir_def)
  ultimately have r: "fsFiles ?fs = fsFiles fs"
    "\<And>i. i < num \<Longrightarrow> map_of (fsNames ?fs) (path i) = (if i = 0 then None else map_of (fsNames fs) (path (i - 1)))"
    using rollLoop_names [of path "num - 1" fs] assms(2,3) by (auto simp: lessThan_Suc_atMost [symmetric])
  have i: "i = length (fsFiles fs)"
    "fs' = \<lparr>fsNames = AList.update (path 0) i (fsNames ?fs), fsFiles = fsFiles fs @ [[]]\<rparr>"
    using assms(3,5) r by (auto simp: os_OpenAppend_def)
  have ne: "path k \<noteq> path 0" if "k < num" "k \<noteq> 0" for k
    using assms(2,3) that by (auto dest: inj_onD)
  have sub: "set (take (num - 1) js) \<subseteq> set js" by (rule set_take_subset)
  have "logDir path num (i # take (num - 1) js) fs'"
    unfolding logDir_def
  proof (intro conjI)
    show "distinct (i # take (num - 1) js)" using assms(1) sub i(1) by (auto simp: logDir_def)
    show "\<forall>j \<in> set (i # take (num - 1) js). j < length (fsFiles fs')"
      using assms(1) sub i by (auto simp: logDir_def less_Suc_eq)
    show "\<forall>k < num. map_of (fsNames fs') (path k)
        = (if k < length (i # take (num - 1) js) then Some ((i # take (num - 1) js) ! k) else None)"
      using assms(1,3) ne r(2) i(2) by (auto simp: logDir_def update_conv' nth_Cons')
  qed (use assms(3) in simp)
  moreover have "map (\<lambda>j. fsFiles fs' ! j) (take (num - 1) js) = take (num - 1) (map (\<lambda>j. fsFiles fs ! j) js)"
    using assms(1) sub i(2) unfolding take_map by (intro map_cong) (auto simp: logDir_def nth_append)
  ultimately show ?thesis using i by (simp add: contents_def)
qed

section \<open>A writer and its directory\<close>

definition segCur :: "bytes list \<Rightarrow> bytes" where
  "segCur segs = (if segs = [] then [] else hd segs)"

text \<open>The writer has the current file open, or none, and knows its size, which is below the limit.\<close>

definition roll_inv :: "nat \<Rightarrow> nat \<Rightarrow> RollFileWriter \<Rightarrow> nat list \<Rightarrow> fileSystem \<Rightarrow> bool" where
  "roll_inv num lim w js fs \<longleftrightarrow> 2 \<le> num \<and> sint (rwNum w) = int num \<and> sint (rwSize w) = int lim \<and> lim < 2 ^ 62
     \<and> inj_on (rollPath (rwLogpath w) (rwName w)) {..<num} \<and> logDir (rollPath (rwLogpath w) (rwName w)) num js fs
     \<and> (rwCurrFile w = None \<or> js \<noteq> [] \<and> rwCurrFile w = Some (hd js, True))
     \<and> sint (rwCurrSize w) = int (length (segCur (contents js fs))) \<and> length (segCur (contents js fs)) < lim"

lemma roll_open:
  assumes "roll_inv num lim w js fs" "reOpenFile (\<lambda>_. True) (rollPath (rwLogpath w) (rwName w) 0) (rwCurrFile w) fs = (file, fs')"
  shows "\<exists>js'. js' \<noteq> [] \<and> file = Some (hd js', True) \<and> roll_inv num lim (w\<lparr>rwCurrFile := file, rwOpenTime := now\<rparr>) js' fs'
    \<and> contents js' fs' = (if js = [] then [[]] else contents js fs)"
proof -
  let ?path = "rollPath (rwLogpath w) (rwName w)"
  obtain i where o: "os_OpenAppend (?path 0) fs = (i, fs')" "file = Some (i, True)"
    using assms(2) by (auto simp: reOpenFile_def split: prod.splits)
  let ?js = "if js = [] then [i] else js"
  have d: "logDir ?path num ?js fs'" "contents ?js fs' = (if js = [] then [[]] else contents js fs)" "i = hd ?js"
    using logDir_open [of ?path num js fs i fs'] o(1) assms(1) by (auto simp: roll_inv_def)
  have "segCur (contents ?js fs') = segCur (contents js fs)" using d(2) by (auto simp: segCur_def contents_def)
  with assms(1) o d have "roll_inv num lim (w\<lparr>rwCurrFile := file, rwOpenTime := now\<rparr>) ?js fs'"
    by (simp add: roll_inv_def)
  moreover have "?js \<noteq> []" by simp
  ultimately show ?thesis using d(2,3) o(2) by blast
qed

lemma sint_add_small:
  fixes a :: int64
  assumes "0 \<le> sint a" "sint a < 2 ^ 62" "n < 2 ^ 62"
  shows "sint (a + of_nat n) = sint a + int n"
proof -
  have n: "sint (of_nat n :: int64) = int n" using sint_of_int(4) [of "int n"] assms(3) by simp
  then show ?thesis using assms by (simp add: sint_word_ariths signed_take_bit_int_eq_self)
qed

text \<open>What follows the opening of the file in \<^verbatim>\<open>Write\<close>.\<close>

lemma roll_written:
  assumes inv: "roll_inv num lim w js fs" and js: "js \<noteq> []" and cur: "rwCurrFile w = Some (hd js, True)"
    and v: "length v < 2 ^ 62" and fs1: "fs1 = os_Append (hd js) v fs"
    and w1: "w1 = w\<lparr>rwCurrSize := rwCurrSize w + of_nat (length v)\<rparr>"
    and r: "(if sint (rwSize w1) \<le> sint (rwCurrSize w1)
       then (case reOpenFile (\<lambda>_. True) (rollPath (rwLogpath w) (rwName w) 0) (rwCurrFile w1)
               (rollLoop (rollPath (rwLogpath w) (rwName w)) (nat (sint (rwNum w1) - 1)) fs1) of
               (file, fs) \<Rightarrow> (w1\<lparr>rwCurrSize := 0, rwCurrFile := file, rwOpenTime := now\<rparr>, fs))
       else (w1, fs1)) = (w', fs')"
  shows "\<exists>js'. roll_inv num lim w' js' fs' \<and> contents js' fs' = segWrite num lim v (contents js fs)"
proof -
  let ?path = "rollPath (rwLogpath w) (rwName w)"
  obtain j rest where jr: "js = j # rest" using js by (cases js) auto
  have d: "logDir ?path num js fs1" "contents js fs1 = (segCur (contents js fs) @ v) # tl (contents js fs)"
    using logDir_append [of ?path num j rest fs v] inv jr fs1 by (auto simp: roll_inv_def segCur_def contents_def)
  have num: "2 \<le> num" "sint (rwNum w1) = int num" "inj_on ?path {..<num}" "sint (rwSize w1) = int lim"
    using inv w1 by (simp_all add: roll_inv_def)
  have sz: "sint (rwCurrSize w1) = int (length (segCur (contents js fs) @ v))"
    using sint_add_small [of "rwCurrSize w" "length v"] inv v w1 by (simp add: roll_inv_def)
  show ?thesis
  proof (cases "lim \<le> length (segCur (contents js fs) @ v)")
    case True
    then have "sint (rwSize w1) \<le> sint (rwCurrSize w1)" using sz num by simp
    moreover have "nat (sint (rwNum w1) - 1) = num - 1" using num by simp
    ultimately obtain i where i: "os_OpenAppend (?path 0) (rollLoop ?path (num - 1) fs1) = (i, fs')"
      "w' = w1\<lparr>rwCurrSize := 0, rwCurrFile := Some (i, True), rwOpenTime := now\<rparr>"
      using r by (auto simp: reOpenFile_def split: prod.splits)
    have "logDir ?path num (i # take (num - 1) js) fs'"
      "contents (i # take (num - 1) js) fs' = [] # take (num - 1) (contents js fs1)"
      using logDir_roll [of ?path num js fs1 i fs'] d(1) num js i(1) by auto
    moreover have "0 < lim" using inv by (auto simp: roll_inv_def)
    ultimately have "roll_inv num lim w' (i # take (num - 1) js) fs'"
      using inv i(2) w1 by (simp add: roll_inv_def segCur_def)
    moreover have "segWrite num lim v (contents js fs) = [] # take (num - 1) (contents js fs1)"
      using True d(2) by (simp add: segWrite_def segCur_def)
    ultimately show ?thesis using \<open>contents (i # take (num - 1) js) fs' = _\<close> by metis
  next
    case False
    then have e: "w' = w1" "fs' = fs1" using r sz num by auto
    have "roll_inv num lim w' js fs'"
      using inv cur js d sz False w1 e by (simp add: roll_inv_def segCur_def)
    moreover have "segWrite num lim v (contents js fs) = contents js fs1"
      using False d(2) by (simp add: segWrite_def segCur_def)
    ultimately show ?thesis using e by metis
  qed
qed

lemma segWrite_fresh: "segWrite num lim v [[]] = segWrite num lim v []"
  by (simp add: segWrite_def)

lemma roll_write:
  assumes inv: "roll_inv num lim w js fs" and v: "length v < 2 ^ 62"
    and r: "RollFileWriter_Write (\<lambda>_. True) now v (w, fs) = (w', fs')"
  shows "\<exists>js'. roll_inv num lim w' js' fs' \<and> contents js' fs' = segWrite num lim v (contents js fs)"
proof (cases "rwCurrFile w = None \<or> sint (rwOpenTime w + 10) < sint now")
  case True
  obtain f1 fs0 where o: "reOpenFile (\<lambda>_. True) (rollPath (rwLogpath w) (rwName w) 0) (rwCurrFile w) fs = (f1, fs0)"
    by fastforce
  let ?w = "w\<lparr>rwCurrFile := f1, rwOpenTime := now\<rparr>"
  obtain js0 where js0: "js0 \<noteq> []" "f1 = Some (hd js0, True)" "roll_inv num lim ?w js0 fs0"
    "contents js0 fs0 = (if js = [] then [[]] else contents js fs)"
    using roll_open [OF inv o] by blast
  have "segWrite num lim v (contents js0 fs0) = segWrite num lim v (contents js fs)"
    using js0(4) segWrite_fresh by (simp add: contents_def)
  moreover have "\<exists>js'. roll_inv num lim w' js' fs' \<and> contents js' fs' = segWrite num lim v (contents js0 fs0)"
    by (rule roll_written [OF js0(3,1) _ v refl refl, of now])
      (use r True o js0 in \<open>simp_all add: RollFileWriter_Write_def file_Write_def Let_def split: if_split_asm\<close>)
  ultimately show ?thesis by simp
next
  case False
  then have js: "js \<noteq> []" "rwCurrFile w = Some (hd js, True)" using inv by (auto simp: roll_inv_def)
  show ?thesis
    by (rule roll_written [OF inv js v refl refl, of now])
      (use r False js in \<open>simp add: RollFileWriter_Write_def file_Write_def Let_def\<close>)
qed

section \<open>What is kept\<close>

definition segs_ok :: "nat \<Rightarrow> nat \<Rightarrow> bytes list \<Rightarrow> bytes \<Rightarrow> bool" where
  "segs_ok num lim segs all \<longleftrightarrow> length segs \<le> num \<and> suffix (concat (rev segs)) all
     \<and> (concat (rev segs) = all \<or> length segs = num) \<and> (\<forall>s \<in> set (tl segs). lim \<le> length s)"

lemma suffix_concat_take: "suffix (concat (rev (take k xs))) (concat (rev xs))"
proof -
  have "concat (rev xs) = concat (rev (drop k xs)) @ concat (rev (take k xs))"
    by (metis append_take_drop_id concat_append rev_append)
  then show ?thesis by (simp add: suffix_def)
qed

lemma segWrite_ok:
  assumes "segs_ok num lim segs all" "2 \<le> num"
  shows "segs_ok num lim (segWrite num lim v segs) (all @ v)"
proof -
  let ?all = "(segCur segs @ v) # tl segs"
  have c: "concat (rev ?all) = concat (rev segs) @ v"
    by (cases segs) (simp_all add: segCur_def)
  have len: "length ?all = (if segs = [] then 1 else length segs)" by simp
  have s: "suffix (concat (rev ?all)) (all @ v)"
    using assms(1) unfolding segs_ok_def suffix_def c by (metis append_assoc)
  show ?thesis
  proof (cases "lim \<le> length (segCur segs @ v)")
    case True
    have w: "segWrite num lim v segs = [] # take (num - 1) ?all" using True by (simp add: segWrite_def segCur_def)
    have "\<forall>s \<in> set ?all. lim \<le> length s" using True assms(1) by (simp add: segs_ok_def)
    then have "\<forall>s \<in> set (take (num - 1) ?all). lim \<le> length s" using set_take_subset [of "num - 1" ?all] by blast
    moreover have "suffix (concat (rev (take (num - 1) ?all))) (all @ v)"
      using suffix_concat_take s suffix_order.trans by blast
    moreover have "concat (rev (take (num - 1) ?all)) = all @ v \<or> Suc (length (take (num - 1) ?all)) = num"
    proof (cases "length ?all \<le> num - 1")
      case True
      then have "take (num - 1) ?all = ?all" "length segs \<noteq> num" using assms(2) len by (auto split: if_splits)
      then show ?thesis using assms(1) c by (auto simp: segs_ok_def)
    next
      case False
      then show ?thesis using assms(2) by simp
    qed
    ultimately show ?thesis using w assms(2) by (auto simp: segs_ok_def)
  next
    case False
    have "segWrite num lim v segs = ?all" using False by (simp add: segWrite_def segCur_def)
    moreover have "concat (rev ?all) = all @ v \<or> length ?all = num"
      using assms len c by (cases "segs = []") (auto simp: segs_ok_def)
    ultimately show ?thesis using assms s len by (auto simp: segs_ok_def)
  qed
qed

definition writeLines :: "(int64 \<times> bytes) list \<Rightarrow> RollFileWriter \<times> fileSystem \<Rightarrow> RollFileWriter \<times> fileSystem" where
  "writeLines ws s = foldl (\<lambda>s (now, v). RollFileWriter_Write (\<lambda>_. True) now v s) s ws"

lemma writeLines_ok:
  assumes "roll_inv num lim w js fs" "segs_ok num lim (contents js fs) all" "\<forall>(now, v) \<in> set ws. length v < 2 ^ 62"
    and "writeLines ws (w, fs) = (w', fs')"
  shows "\<exists>js'. roll_inv num lim w' js' fs' \<and> segs_ok num lim (contents js' fs') (all @ concat (map snd ws))"
  using assms
proof (induction ws arbitrary: w fs js all)
  case (Cons x ws)
  obtain now v where x: "x = (now, v)" by fastforce
  obtain w1 fs1 where r: "RollFileWriter_Write (\<lambda>_. True) now v (w, fs) = (w1, fs1)" by fastforce
  obtain js1 where js1: "roll_inv num lim w1 js1 fs1" "contents js1 fs1 = segWrite num lim v (contents js fs)"
    using roll_write [OF Cons.prems(1) _ r] Cons.prems(3) x by auto
  have "segs_ok num lim (contents js1 fs1) (all @ v)"
    using segWrite_ok [OF Cons.prems(2)] Cons.prems(1) js1(2) by (simp add: roll_inv_def)
  then have "\<exists>js'. roll_inv num lim w' js' fs' \<and> segs_ok num lim (contents js' fs') ((all @ v) @ concat (map snd ws))"
    by (rule Cons.IH [OF js1(1)]) (use Cons.prems(3,4) x r in \<open>auto simp: writeLines_def\<close>)
  then show ?case using x by simp
qed (auto simp: writeLines_def)

section \<open>The paths are different\<close>

lemma strings_Split_last:
  assumes "sep \<notin> set b"
  shows "strings_Split (a @ sep # b) sep = strings_Split a sep @ [b]"
  using assms by (induction a) (auto simp: strings_Split_single split: list.splits)

lemma joinSlash_snoc: "ss \<noteq> [] \<Longrightarrow> joinSlash (ss @ [b]) = joinSlash ss @ ch CHR ''/'' # b"
proof (induction ss rule: joinSlash.induct)
  case (3 s t ss)
  then show ?case by (cases ss) auto
qed auto

text \<open>A path whose last segment is an ordinary name ends with it.\<close>

definition ordinary :: "gostring \<Rightarrow> bool" where
  "ordinary b \<longleftrightarrow> 47 \<notin> set b \<and> b \<notin> {[], ascii ''.'', ascii ''..''}"

lemma path_Clean_plain: "ordinary b \<Longrightarrow> path_Clean b = b"
  by (cases b) (auto simp: ordinary_def path_Clean_def cleanSegment_def strings_Split_single ch_def)

lemma path_Clean_last:
  "\<exists>pre. \<forall>b. ordinary b \<longrightarrow> path_Clean (a @ 47 # b) = pre @ b"
proof -
  have slash: "ch CHR ''/'' = 47" by (simp add: ch_def)
  define r where "r \<longleftrightarrow> hd (a @ [47]) = 47"
  define st where "st = foldl (cleanSegment r) [] (strings_Split a 47)"
  define pre where "pre = (if r then [47] else []) @ (if st = [] then [] else joinSlash st @ [47])"
  have "path_Clean (a @ 47 # b) = pre @ b" if b: "ordinary b" for b
  proof -
    have h: "a @ 47 # b \<noteq> [] \<and> hd (a @ 47 # b) = 47 \<longleftrightarrow> r" by (cases a) (auto simp: r_def)
    have j: "joinSlash (st @ [b]) = (if st = [] then [] else joinSlash st @ [47]) @ b"
      using joinSlash_snoc [of st b] slash by simp
    then have ne: "joinSlash (st @ [b]) \<noteq> []" using b by (auto simp: ordinary_def)
    have f: "foldl (cleanSegment r) [] (strings_Split (a @ 47 # b) 47) = st @ [b]"
      using b by (simp add: ordinary_def strings_Split_last st_def cleanSegment_def)
    show ?thesis
      unfolding path_Clean_def Let_def slash h f using ne j by (simp add: pre_def)
  qed
  then show ?thesis by blast
qed

lemma ordinary_log: "47 \<notin> set name \<Longrightarrow> ordinary (name @ (if i = 0 then [] else FormatInt (int i) 10) @ ascii ''.log'')"
proof -
  assume n: "47 \<notin> set name"
  have "47 \<notin> set (FormatInt (int i) 10)"
    using formatBits_10_digits [of i] by (fastforce simp: FormatInt_def)
  moreover have "length (ascii ''.log'') = 4" "47 \<notin> set (ascii ''.log'')" by (simp_all add: ascii_def)
  ultimately show ?thesis using n by (auto simp: ordinary_def ascii_def dest: arg_cong [where f = length])
qed

lemma rollPath_inj:
  assumes "47 \<notin> set name" "n < 2 ^ 62"
  shows "inj_on (rollPath logpath name) {..<n}"
proof (rule inj_onI)
  fix i k assume ik: "i \<in> {..<n}" "k \<in> {..<n}" and eq: "rollPath logpath name i = rollPath logpath name k"
  let ?b = "\<lambda>i. name @ (if i = 0 then [] else FormatInt (int i) 10) @ ascii ''.log''"
  note ob = ordinary_log [OF assms(1)]
  have ne: "?b j \<noteq> []" for j by (simp add: ascii_def)
  obtain pre where "\<forall>j. rollPath logpath name j = pre @ ?b j"
  proof (cases "logpath = []")
    case True
    then have "\<forall>j. rollPath logpath name j = [] @ ?b j"
      using ob ne path_Clean_plain by (auto simp: rollPath_def filepath_Join2_def)
    then show ?thesis by (rule that)
  next
    case False
    obtain pre where "\<forall>b. ordinary b \<longrightarrow> path_Clean (logpath @ 47 # b) = pre @ b"
      using path_Clean_last by blast
    then have "\<forall>j. rollPath logpath name j = pre @ ?b j"
      using False ob ne by (auto simp: rollPath_def filepath_Join2_def ch_def)
    then show ?thesis by (rule that)
  qed
  then have "(if i = 0 then [] else FormatInt (int i) 10) = (if k = 0 then [] else FormatInt (int k) 10)"
    using eq by simp
  moreover have "FormatInt (int j) 10 \<noteq> []" for j by (simp add: FormatInt_def)
  moreover have "ParseInt (FormatInt (int j) 10) 10 64 = Some (int j)" if "j < n" for j
    using ParseInt_format [of 10 "int j" 64] that assms(2) by simp
  ultimately show "i = k" using ik by (metis lessThan_iff of_nat_eq_iff option.inject)
qed

section \<open>Rotated files hold the end of the log\<close>

definition os_ReadFile :: "gostring \<Rightarrow> fileSystem \<Rightarrow> bytes option" where
  "os_ReadFile path fs = map_option (\<lambda>i. fsFiles fs ! i) (map_of (fsNames fs) path)"

lemma sint_megabytes:
  fixes mb :: int64
  assumes "0 < sint mb" "sint mb < 2 ^ 42"
  shows "sint (mb * 1024 * 1024) = sint mb * 1048576"
proof -
  have "sint (mb * 1048576) = sint mb * 1048576"
    using assms by (simp add: sint_word_ariths signed_take_bit_int_eq_self)
  then show ?thesis by (simp add: mult.assoc)
qed

lemma roll_inv_new:
  assumes "47 \<notin> set name" "sint num = int n" "2 \<le> n" "n < 2 ^ 62" "0 < sint sizeMB" "sint sizeMB < 2 ^ 42"
    and "\<forall>i < n. \<not> os_Exists (rollPath logpath name i) fs"
  shows "roll_inv n (nat (sint sizeMB * 1048576)) (NewRollFileWriter logpath name num sizeMB fs) [] fs"
  using assms sint_megabytes [OF assms(5,6)] rollPath_inj [OF assms(1,4), of logpath]
  by (auto simp: roll_inv_def NewRollFileWriter_def logDir_def contents_def segCur_def os_Size_def os_Exists_def)


definition demo_writes :: "(int64 \<times> bytes) list" where
  "demo_writes = [(5, replicate 1048576 65), (30, [66]), (31, [67])]"


end
