(* ===== verification/Log_Queue.thy ===== *)
theory Log_Queue
  imports Log_Files App_Run Current
begin

text \<open>
  \<^verbatim>\<open>tars/util/rogger/logger.go\<close> and \<^verbatim>\<open>dyeing.go\<close>, and the loggers of \<^verbatim>\<open>tars/logger.go\<close>: levels, lines, the queue of log
  records and the goroutine that writes them. What \<^verbatim>\<open>fmt\<close> makes of the values to log, the texts of \<^verbatim>\<open>time.Format\<close>, the
  caller that \<^verbatim>\<open>runtime\<close> finds and the encoder of \<^verbatim>\<open>encoding/json\<close> are arguments.
\<close>

section \<open>Levels\<close>

fun levelIndex :: "LogLevel \<Rightarrow> nat" where
  "levelIndex DEBUG = 0"
| "levelIndex INFO = 1"
| "levelIndex WARN = 2"
| "levelIndex ERROR = 3"
| "levelIndex OFF = 4"

fun LogLevel_String :: "LogLevel \<Rightarrow> gostring" where
  "LogLevel_String DEBUG = ascii ''DEBUG''"
| "LogLevel_String INFO = ascii ''INFO''"
| "LogLevel_String WARN = ascii ''WARN''"
| "LogLevel_String ERROR = ascii ''ERROR''"
| "LogLevel_String OFF = ascii ''UNKNOWN''"

text \<open>27 is the escape character of the terminal's colours.\<close>

definition colour :: "string \<Rightarrow> gostring \<Rightarrow> gostring" where
  "colour n s = 27 # ascii ''['' @ ascii n @ ascii ''m'' @ s @ 27 # ascii ''[0m''"

fun ColoredString :: "LogLevel \<Rightarrow> gostring" where
  "ColoredString DEBUG = colour ''34'' (ascii ''DEBUG'')"
| "ColoredString INFO = colour ''32'' (ascii ''INFO'')"
| "ColoredString WARN = colour ''33'' (ascii ''WARN'')"
| "ColoredString ERROR = colour ''31'' (ascii ''ERROR'')"
| "ColoredString OFF = colour ''37'' (ascii ''UNKNOWN'')"

datatype LogFormat = TextFormat | JsonFormat

fun LogFormat_String :: "LogFormat \<Rightarrow> gostring" where
  "LogFormat_String TextFormat = ascii ''LINE''"
| "LogFormat_String JsonFormat = ascii ''JSON''"

lemma StringToLevel_String: "l \<noteq> OFF \<Longrightarrow> StringToLevel (LogLevel_String l) = l"
  by (cases l) (simp_all add: StringToLevel_def ascii_def)

section \<open>State\<close>

text \<open>A writer to the console, to files, or one set by the application, such as the remote writer, which says whether it needs a
  prefix.\<close>

datatype logWriter = ConsoleWriter | RollWriter RollFileWriter | DatedWriter DateWriter | OtherWriter bool

record Logger =
  lgName :: gostring
  lgPrefix :: gostring
  lgWriter :: nat

text \<open>The goroutine \<^verbatim>\<open>flushLog\<close>: in its first select, in the second, or returned.\<close>

datatype flusher = FlushPoll | FlushWait | FlushDone

text \<open>The package's variables: writers are addresses, records hold the address of their writer. \<open>lsLogged\<close> and
  \<open>lsWritten\<close> record what was put on the queue and what was handed to a writer, \<open>lsOut\<close> what the console and other writers got.\<close>

record logState =
  lsLevel :: LogLevel
  lsFormat :: LogFormat
  lsColored :: bool
  lsCallerFlag :: bool
  lsLoggers :: "(gostring \<times> Logger) list"
  lsWriters :: "logWriter list"
  lsQueue :: "(bytes \<times> nat) list"
  lsFiles :: fileSystem
  lsOut :: "(nat \<times> bytes) list"
  lsFlusher :: flusher
  lsCancelled :: bool
  lsLogged :: "(bytes \<times> nat) list"
  lsWritten :: "(bytes \<times> nat) list"

definition init_logState :: "fileSystem \<Rightarrow> logState" where
  "init_logState fs = \<lparr>lsLevel = DEBUG, lsFormat = TextFormat, lsColored = False, lsCallerFlag = True, lsLoggers = [],
     lsWriters = [], lsQueue = [], lsFiles = fs, lsOut = [], lsFlusher = FlushPoll, lsCancelled = False, lsLogged = [],
     lsWritten = []\<rparr>"

definition newWriter :: "logWriter \<Rightarrow> logState \<Rightarrow> nat \<times> logState" where
  "newWriter wr s = (length (lsWriters s), s\<lparr>lsWriters := lsWriters s @ [wr]\<rparr>)"

definition rogger_GetLogger :: "gostring \<Rightarrow> logState \<Rightarrow> Logger \<times> logState" where
  "rogger_GetLogger name s =
     (case map_of (lsLoggers s) name of
        Some lg \<Rightarrow> (lg, s)
      | None \<Rightarrow> (case newWriter ConsoleWriter s of (a, s) \<Rightarrow>
          let lg = \<lparr>lgName = name, lgPrefix = [], lgWriter = a\<rparr> in (lg, s\<lparr>lsLoggers := AList.update name lg (lsLoggers s)\<rparr>)))"

definition SetLevel :: "LogLevel \<Rightarrow> logState \<Rightarrow> logState" where "SetLevel l s = s\<lparr>lsLevel := l\<rparr>"
definition GetLevel :: "logState \<Rightarrow> gostring" where "GetLevel s = LogLevel_String (lsLevel s)"
definition SetFormat :: "LogFormat \<Rightarrow> logState \<Rightarrow> logState" where "SetFormat f s = s\<lparr>lsFormat := f\<rparr>"
definition GetFormat :: "logState \<Rightarrow> gostring" where "GetFormat s = LogFormat_String (lsFormat s)"
definition Colored :: "logState \<Rightarrow> logState" where "Colored s = s\<lparr>lsColored := True\<rparr>"
definition SetCallerFlag :: "bool \<Rightarrow> logState \<Rightarrow> logState" where "SetCallerFlag b s = s\<lparr>lsCallerFlag := b\<rparr>"

text \<open>A logger changed through its pointer: its entry in the map under the name it was made with, \<open>key\<close>.\<close>

definition setWriter :: "gostring \<Rightarrow> logWriter \<Rightarrow> logState \<Rightarrow> logState" where
  "setWriter key wr s =
     (case map_of (lsLoggers s) key of
        None \<Rightarrow> s
      | Some lg \<Rightarrow> (case newWriter wr s of (a, s) \<Rightarrow>
          s\<lparr>lsLoggers := AList.update key (lg\<lparr>lgWriter := a\<rparr>) (lsLoggers s)\<rparr>))"

definition logger_SetPrefix :: "gostring \<Rightarrow> gostring \<Rightarrow> logState \<Rightarrow> logState" where
  "logger_SetPrefix key pre s =
     (case map_of (lsLoggers s) key of
        None \<Rightarrow> s
      | Some lg \<Rightarrow> s\<lparr>lsLoggers := AList.update key (lg\<lparr>lgPrefix := pre\<rparr>) (lsLoggers s)\<rparr>)"

definition IsConsoleWriter :: "Logger \<Rightarrow> logState \<Rightarrow> bool" where
  "IsConsoleWriter lg s \<longleftrightarrow> lsWriters s ! lgWriter lg = ConsoleWriter"

text \<open>\<open>mkdir\<close> says whether the directory can be made: \<^verbatim>\<open>SetFileRoller\<close> panics otherwise, the others return the error.\<close>

definition SetFileRoller :: "(gostring \<Rightarrow> bool) \<Rightarrow> gostring \<Rightarrow> Logger \<Rightarrow> gostring \<Rightarrow> int64 \<Rightarrow> int64 \<Rightarrow> logState \<Rightarrow> gerr + logState" where
  "SetFileRoller mkdir key lg logpath num sizeMB s =
     (if mkdir logpath then Inr (setWriter key (RollWriter (NewRollFileWriter logpath (lgName lg) num sizeMB (lsFiles s))) s)
      else Inl (Panic ''mkdir''))"

definition SetDateRoller :: "dateClock \<Rightarrow> DateType \<Rightarrow> (gostring \<Rightarrow> bool) \<Rightarrow> gostring \<Rightarrow> Logger \<Rightarrow> gostring \<Rightarrow> int64 \<Rightarrow> logState
    \<Rightarrow> bool \<times> logState" where
  "SetDateRoller c dateType mkdir key lg logpath num s =
     (if mkdir logpath then (True, setWriter key (DatedWriter (NewDateWriter c logpath (lgName lg) dateType num)) s)
      else (False, s))"

definition SetDayRoller :: "dateClock \<Rightarrow> (gostring \<Rightarrow> bool) \<Rightarrow> gostring \<Rightarrow> Logger \<Rightarrow> gostring \<Rightarrow> int64 \<Rightarrow> logState
    \<Rightarrow> bool \<times> logState" where "SetDayRoller c = SetDateRoller c DAY"
definition SetHourRoller :: "dateClock \<Rightarrow> (gostring \<Rightarrow> bool) \<Rightarrow> gostring \<Rightarrow> Logger \<Rightarrow> gostring \<Rightarrow> int64 \<Rightarrow> logState
    \<Rightarrow> bool \<times> logState" where "SetHourRoller c = SetDateRoller c HOUR"
definition SetConsole :: "gostring \<Rightarrow> logState \<Rightarrow> logState" where "SetConsole key = setWriter key ConsoleWriter"

section \<open>Records\<close>

fun NeedPrefix :: "logWriter \<Rightarrow> bool" where
  "NeedPrefix ConsoleWriter = True"
| "NeedPrefix (RollWriter w) = True"
| "NeedPrefix (DatedWriter w) = dwHasPrefix w"
| "NeedPrefix (OtherWriter b) = b"

text \<open>The caller that the run-time system finds: file, function and line.\<close>

record callerInfo =
  ciFile :: gostring
  ciFunc :: gostring
  ciLine :: int

definition FuncName :: "gostring \<Rightarrow> gostring" where
  "FuncName name =
     (case lastIndexOf [47] name of
        None \<Rightarrow> name
      | Some idx \<Rightarrow>
          let name = drop idx name in
          (case strings_Index name 46 of None \<Rightarrow> name | Some i \<Rightarrow> drop (Suc i) name))"

definition callerText :: "callerInfo option \<Rightarrow> gostring" where
  "callerText c = (case c of
     None \<Rightarrow> ascii ''???::0|''
   | Some i \<Rightarrow> path_Base (ciFile i) @ 58 # FuncName (ciFunc i) @ 58 # fmt_d (ciLine i) @ [124])"

record logEnv =
  leTime :: gostring
  leCaller :: "callerInfo option"
  leMsg :: gostring

text \<open>124 is the bar between the parts of a line.\<close>

definition linePrefix :: "logEnv \<Rightarrow> LogLevel \<Rightarrow> gostring \<Rightarrow> bool \<Rightarrow> logState \<Rightarrow> gostring" where
  "linePrefix env level pre console s =
     leTime env @ 124 # (if pre \<noteq> [] then pre @ [124] else [])
     @ (if lsCallerFlag s then callerText (leCaller env) else [])
     @ (if lsColored s \<and> console then ColoredString level else LogLevel_String level) @ [124]"

definition writeLine :: "logEnv \<Rightarrow> LogLevel \<Rightarrow> Logger \<Rightarrow> logState \<Rightarrow> bytes \<times> nat" where
  "writeLine env level lg s =
     (let wr = lsWriters s ! lgWriter lg in
      ((if NeedPrefix wr then linePrefix env level (lgPrefix lg) (wr = ConsoleWriter) s else []) @ leMsg env
       @ (if NeedPrefix wr then [10] else []), lgWriter lg))"

record JsonLog =
  jlPre :: gostring
  jlTime :: gostring
  jlFunc :: gostring
  jlFile :: gostring
  jlLevel :: gostring
  jlMsg :: gostring

definition writeJson :: "(JsonLog \<Rightarrow> bytes) \<Rightarrow> logEnv \<Rightarrow> LogLevel \<Rightarrow> Logger \<Rightarrow> logState \<Rightarrow> bytes \<times> nat" where
  "writeJson encode env level lg s =
     (encode \<lparr>jlPre = lgPrefix lg, jlTime = leTime env,
        jlFunc = (if lsCallerFlag s then (case leCaller env of None \<Rightarrow> [] | Some i \<Rightarrow> FuncName (ciFunc i)) else []),
        jlFile = (if lsCallerFlag s then (case leCaller env of None \<Rightarrow> ascii ''???:0''
                    | Some i \<Rightarrow> path_Base (ciFile i) @ 58 # fmt_d (ciLine i)) else []),
        jlLevel = LogLevel_String level, jlMsg = leMsg env\<rparr>, lgWriter lg)"

text \<open>A send on the queue waits while it is full.\<close>

definition enqueue :: "bytes \<times> nat \<Rightarrow> logState \<Rightarrow> logState option" where
  "enqueue v s = (if length (lsQueue s) < 10000
     then Some (s\<lparr>lsQueue := lsQueue s @ [v], lsLogged := lsLogged s @ [v]\<rparr>) else None)"

definition Writef :: "(JsonLog \<Rightarrow> bytes) \<Rightarrow> logEnv \<Rightarrow> LogLevel \<Rightarrow> Logger \<Rightarrow> logState \<Rightarrow> logState option" where
  "Writef encode env level lg s =
     (if levelIndex level < levelIndex (lsLevel s) then Some s
      else if lsFormat s = JsonFormat then enqueue (writeJson encode env level lg s) s
      else enqueue (writeLine env level lg s) s)"

definition WriteLog :: "bytes \<Rightarrow> Logger \<Rightarrow> logState \<Rightarrow> logState option" where
  "WriteLog msg lg s = enqueue (msg, lgWriter lg) s"

definition logger_Trace :: "gostring \<Rightarrow> gostring \<Rightarrow> Logger \<Rightarrow> logState \<Rightarrow> logState option" where
  "logger_Trace time msg lg s =
     (let wr = lsWriters s ! lgWriter lg in
      WriteLog ((if NeedPrefix wr then time @ [124] else []) @ msg @ (if NeedPrefix wr then [10] else [])) lg s)"

section \<open>Writing\<close>

text \<open>\<^verbatim>\<open>Write\<close> of the writer of a record. \<open>canOpen\<close> says which files can be opened.\<close>

definition writeRecord :: "(gostring \<Rightarrow> bool) \<Rightarrow> dateClock \<Rightarrow> bytes \<times> nat \<Rightarrow> logState \<Rightarrow> logState" where
  "writeRecord canOpen c = (\<lambda>(v, a) s.
     let s = s\<lparr>lsWritten := lsWritten s @ [(v, a)]\<rparr> in
     case lsWriters s ! a of
       RollWriter w \<Rightarrow> (case RollFileWriter_Write canOpen (dcUnix c) v (w, lsFiles s) of (w, fs) \<Rightarrow>
         s\<lparr>lsWriters := (lsWriters s)[a := RollWriter w], lsFiles := fs\<rparr>)
     | DatedWriter w \<Rightarrow> (case DateWriter_Write canOpen c v (w, lsFiles s) of (w, fs) \<Rightarrow>
         s\<lparr>lsWriters := (lsWriters s)[a := DatedWriter w], lsFiles := fs\<rparr>)
     | _ \<Rightarrow> s\<lparr>lsOut := lsOut s @ [(a, v)]\<rparr>)"

text \<open>The cases of the two selects of \<^verbatim>\<open>flushLog\<close>. In the second select the end may be chosen although a record has come.\<close>

definition flushRecord :: "(gostring \<Rightarrow> bool) \<Rightarrow> dateClock \<Rightarrow> logState \<Rightarrow> logState option" where
  "flushRecord canOpen c s =
     (if lsFlusher s = FlushDone then None
      else (case lsQueue s of
              [] \<Rightarrow> None
            | v # vs \<Rightarrow> Some (writeRecord canOpen c v (s\<lparr>lsQueue := vs, lsFlusher := FlushPoll\<rparr>))))"

definition flushDefault :: "logState \<Rightarrow> logState option" where
  "flushDefault s = (if lsFlusher s = FlushPoll \<and> lsQueue s = [] then Some (s\<lparr>lsFlusher := FlushWait\<rparr>) else None)"

definition flushEnd :: "logState \<Rightarrow> logState option" where
  "flushEnd s = (if lsFlusher s = FlushWait \<and> lsCancelled s then Some (s\<lparr>lsFlusher := FlushDone\<rparr>) else None)"

definition FlushLogger :: "logState \<Rightarrow> logState" where
  "FlushLogger s = s\<lparr>lsCancelled := True\<rparr>"

section \<open>Records are written in order\<close>

inductive log_reach :: "fileSystem \<Rightarrow> logState \<Rightarrow> bool" for fs where
  log_init: "log_reach fs (init_logState fs)"
| log_get: "log_reach fs s \<Longrightarrow> log_reach fs (snd (rogger_GetLogger name s))"
| log_level: "log_reach fs s \<Longrightarrow> log_reach fs (SetFormat f (SetLevel l s))"
| log_writer: "log_reach fs s \<Longrightarrow> log_reach fs (setWriter key wr s)"
| log_writef: "log_reach fs s \<Longrightarrow> Writef encode env level lg s = Some s' \<Longrightarrow> log_reach fs s'"
| log_raw: "log_reach fs s \<Longrightarrow> WriteLog msg lg s = Some s' \<Longrightarrow> log_reach fs s'"
| log_flush: "log_reach fs s \<Longrightarrow> flushRecord canOpen c s = Some s' \<Longrightarrow> log_reach fs s'"
| log_default: "log_reach fs s \<Longrightarrow> flushDefault s = Some s' \<Longrightarrow> log_reach fs s'"
| log_end: "log_reach fs s \<Longrightarrow> flushEnd s = Some s' \<Longrightarrow> log_reach fs s'"
| log_cancel: "log_reach fs s \<Longrightarrow> log_reach fs (FlushLogger s)"

lemma writeRecord_fields [simp]:
  "lsQueue (writeRecord canOpen c r s) = lsQueue s" "lsLogged (writeRecord canOpen c r s) = lsLogged s"
  "lsWritten (writeRecord canOpen c r s) = lsWritten s @ [r]" "lsCancelled (writeRecord canOpen c r s) = lsCancelled s"
  "lsFlusher (writeRecord canOpen c r s) = lsFlusher s"
  by (auto simp: writeRecord_def Let_def split: prod.splits logWriter.splits)

lemma setWriter_fields [simp]:
  "lsQueue (setWriter key wr s) = lsQueue s" "lsLogged (setWriter key wr s) = lsLogged s"
  "lsWritten (setWriter key wr s) = lsWritten s" "lsCancelled (setWriter key wr s) = lsCancelled s"
  "lsFlusher (setWriter key wr s) = lsFlusher s"
  by (auto simp: setWriter_def newWriter_def split: option.splits)

lemma GetLogger_fields [simp]:
  "lsQueue (snd (rogger_GetLogger name s)) = lsQueue s" "lsLogged (snd (rogger_GetLogger name s)) = lsLogged s"
  "lsWritten (snd (rogger_GetLogger name s)) = lsWritten s" "lsCancelled (snd (rogger_GetLogger name s)) = lsCancelled s"
  "lsFlusher (snd (rogger_GetLogger name s)) = lsFlusher s"
  by (auto simp: rogger_GetLogger_def newWriter_def Let_def split: option.splits)

text \<open>Nothing is lost, repeated or put out of order between the queue and the writers, and the queue has at most 10000
  records; the goroutine ends only after \<^verbatim>\<open>FlushLogger\<close>.\<close>

definition log_inv :: "logState \<Rightarrow> bool" where
  "log_inv s \<longleftrightarrow> lsLogged s = lsWritten s @ lsQueue s \<and> length (lsQueue s) \<le> 10000 \<and> (lsFlusher s = FlushDone \<longrightarrow> lsCancelled s)"

lemma enqueue_inv: "enqueue v s = Some s' \<Longrightarrow> log_inv s \<Longrightarrow> log_inv s'"
  by (auto simp: enqueue_def log_inv_def split: if_splits)

lemma flush_inv:
  "flushRecord canOpen c s = Some s' \<Longrightarrow> log_inv s \<Longrightarrow> log_inv s'" "flushDefault s = Some s' \<Longrightarrow> log_inv s \<Longrightarrow> log_inv s'"
  "flushEnd s = Some s' \<Longrightarrow> log_inv s \<Longrightarrow> log_inv s'"
  by (auto simp: flushRecord_def flushDefault_def flushEnd_def log_inv_def split: if_splits list.splits)

lemma log_records_in_order: "log_reach fs s \<Longrightarrow> log_inv s"
proof (induction rule: log_reach.induct)
  case (log_writef s encode env level lg s')
  then show ?case by (auto simp: Writef_def split: if_splits dest: enqueue_inv)
next
  case (log_raw s msg lg s')
  then show ?case by (auto simp: WriteLog_def dest: enqueue_inv)
qed (auto simp: log_inv_def init_logState_def SetFormat_def SetLevel_def FlushLogger_def dest: flush_inv [unfolded log_inv_def])

text \<open>A record logged before \<^verbatim>\<open>FlushLogger\<close> is called may stay on the queue: the goroutine has seen an empty queue and chooses
  the end in its second select.\<close>

definition demo_lost :: logState where
  "demo_lost = (init_logState \<lparr>fsNames = [], fsFiles = []\<rparr>)\<lparr>lsQueue := [([65], 0)], lsLogged := [([65], 0)], lsCancelled := True,
     lsFlusher := FlushDone\<rparr>"

lemma flush_may_lose: "log_reach \<lparr>fsNames = [], fsFiles = []\<rparr> demo_lost \<and> lsQueue demo_lost \<noteq> []"
proof -
  let ?s0 = "init_logState \<lparr>fsNames = [], fsFiles = []\<rparr>" and ?lg = "\<lparr>lgName = [], lgPrefix = [], lgWriter = 0\<rparr>"
  let ?s1 = "?s0\<lparr>lsFlusher := FlushWait\<rparr>"
  let ?s2 = "?s1\<lparr>lsQueue := [([65], 0)], lsLogged := [([65], 0)]\<rparr>"
  have "log_reach \<lparr>fsNames = [], fsFiles = []\<rparr> ?s1"
    by (rule log_default [OF log_init]) (simp add: flushDefault_def init_logState_def)
  then have "log_reach \<lparr>fsNames = [], fsFiles = []\<rparr> ?s2"
    by (rule log_raw [where msg = "[65]" and lg = ?lg]) (simp add: WriteLog_def enqueue_def init_logState_def)
  then have "log_reach \<lparr>fsNames = [], fsFiles = []\<rparr> (FlushLogger ?s2)" by (rule log_cancel)
  then have "log_reach \<lparr>fsNames = [], fsFiles = []\<rparr> demo_lost"
    by (rule log_end) (simp add: flushEnd_def FlushLogger_def demo_lost_def init_logState_def)
  then show ?thesis by (simp add: demo_lost_def)
qed

section \<open>Loggers of the framework\<close>

text \<open>\<^verbatim>\<open>getLogger\<close>: the path and the name of a logger; without a configuration the name as it is.\<close>

definition loggerName :: "'f serverConfig \<Rightarrow> gostring \<Rightarrow> gostring" where
  "loggerName cfg name = (if name = [] then scApp cfg @ 46 # scServer cfg else scApp cfg @ 46 # scServer cfg @ 95 # name)"

definition getLogger :: "'f serverConfig option \<Rightarrow> gostring \<Rightarrow> logState \<Rightarrow> (gostring \<times> gostring \<times> Logger) \<times> logState" where
  "getLogger cfg name s =
     (case cfg of
        None \<Rightarrow> (case rogger_GetLogger name s of (lg, s) \<Rightarrow> (([], name, lg), s))
      | Some cfg \<Rightarrow> (case rogger_GetLogger (loggerName cfg name) s of (lg, s) \<Rightarrow>
          ((path_Clean (joinSlash (filter (\<lambda>p. p \<noteq> []) [scLogPath cfg, scApp cfg, scServer cfg])), loggerName cfg name, lg), s)))"

text \<open>A logger whose writer is not the console has been set up before.\<close>

definition tars_GetLogger :: "(gostring \<Rightarrow> bool) \<Rightarrow> 'f serverConfig option \<Rightarrow> gostring \<Rightarrow> logState \<Rightarrow> gerr + logState" where
  "tars_GetLogger mkdir cfg name s =
     (case getLogger cfg name s of ((logPath, key, lg), s) \<Rightarrow>
        if \<not> IsConsoleWriter lg s then Inr s
        else (case cfg of None \<Rightarrow> Inr s
              | Some cfg \<Rightarrow> SetFileRoller mkdir key lg logPath (ucast (scLogNum cfg)) (ucast (scLogSize cfg)) s))"

definition GetDayLogger :: "dateClock \<Rightarrow> (gostring \<Rightarrow> bool) \<Rightarrow> 'f serverConfig option \<Rightarrow> gostring \<Rightarrow> int64 \<Rightarrow> logState \<Rightarrow> logState" where
  "GetDayLogger c mkdir cfg name numDay s =
     (case getLogger cfg name s of ((logPath, key, lg), s) \<Rightarrow>
        if \<not> IsConsoleWriter lg s then s else snd (SetDayRoller c mkdir key lg logPath numDay s))"

definition GetHourLogger :: "dateClock \<Rightarrow> (gostring \<Rightarrow> bool) \<Rightarrow> 'f serverConfig option \<Rightarrow> gostring \<Rightarrow> int64 \<Rightarrow> logState \<Rightarrow> logState" where
  "GetHourLogger c mkdir cfg name numHour s =
     (case getLogger cfg name s of ((logPath, key, lg), s) \<Rightarrow>
        if \<not> IsConsoleWriter lg s then s else snd (SetHourRoller c mkdir key lg logPath numHour s))"

section \<open>Dyeing\<close>

text \<open>The users whose calls are logged separately. 44 is the comma.\<close>

type_synonym dyeingUsers = "gostring list"

text \<open>A split text has at least one part, so the error of \<^verbatim>\<open>AddDyeingUser\<close> for no key is never returned.\<close>

definition AddDyeingUser :: "gostring \<Rightarrow> dyeingUsers \<Rightarrow> dyeingUsers" where
  "AddDyeingUser key us = foldl (\<lambda>us v. List.insert v us) us (strings_Split key 44)"

definition RemoveDyeingUser :: "gostring \<Rightarrow> dyeingUsers \<Rightarrow> dyeingUsers" where
  "RemoveDyeingUser key us = foldl (\<lambda>us v. removeAll v us) us (strings_Split key 44)"

definition rogger_SetDyeingUser :: "gostring list \<Rightarrow> dyeingUsers" where
  "rogger_SetDyeingUser v = foldl (\<lambda>us v. List.insert v us) [] v"

definition IsDyeingUser :: "gostring \<Rightarrow> dyeingUsers \<Rightarrow> bool" where
  "IsDyeingUser key us \<longleftrightarrow> key \<in> set us"

fun commaJoin :: "gostring list \<Rightarrow> gostring" where
  "commaJoin [] = []"
| "commaJoin [s] = s"
| "commaJoin (s # ss) = s @ 44 # commaJoin ss"

definition helpText :: gostring where
  "helpText = concat (map (\<lambda>l. ascii l @ [10])
     [''command format : dyeUserManage sub command [parameter]'', ''sub command and parameter:'',
      ''add dyeinguser                 : add single dyeing key'',
      ''adds dyeinguser1,dyeinguser2...      : add multi dyeing keys'',
      ''remove dyeinguser              : delete single dyeing key'',
      ''removes dyeinguser1,dyeinguser2...   : delete multi dyeing keys'',
      ''removeall                : delete all dyeing key'', ''getall                   : get all dyeing key''])"

text \<open>The answer, whether it is an error, and the users. Go visits the users in the order \<open>ord\<close>.\<close>

definition HandleDyeingAdmin :: "(gostring list \<Rightarrow> gostring list) \<Rightarrow> gostring \<Rightarrow> dyeingUsers \<Rightarrow> gerr + (gostring \<times> bool) \<times> dyeingUsers" where
  "HandleDyeingAdmin ord command us =
     (let cmd = strings_Split command 32; bad = (\<lambda>m. Inr ((ascii m, True), us)); ok = (\<lambda>us. Inr ((ascii ''OK'', False), us)) in
      if length cmd \<le> 1 then bad ''dyeing param error see help''
      else if cmd ! 0 \<noteq> ascii ''dyeUserManage'' then bad ''taf frame err''
      else if cmd ! 1 = ascii ''help'' then Inr ((helpText, False), us)
      else if cmd ! 1 = ascii ''add'' \<or> cmd ! 1 = ascii ''adds'' then
        (if length cmd \<noteq> 3 then bad ''dyeing param err see help'' else ok (AddDyeingUser (cmd ! 2) us))
      else if cmd ! 1 = ascii ''remove'' then
        (if length cmd \<noteq> 3 then bad ''dyeing param err see help'' else ok (RemoveDyeingUser (cmd ! 2) us))
      else if cmd ! 1 = ascii ''removes'' then
        (if length cmd < 3 then Inl (Panic ''index out of range'') else ok (RemoveDyeingUser (cmd ! 2) us))
      else if cmd ! 1 = ascii ''removeall'' then ok (rogger_SetDyeingUser [])
      else if cmd ! 1 = ascii ''getall'' then Inr ((commaJoin (ord us), False), us)
      else bad ''param error see help'')"

lemma set_AddDyeingUser: "set (AddDyeingUser key us) = set us \<union> set (strings_Split key 44)"
proof -
  have "set (foldl (\<lambda>us v. List.insert v us) us vs) = set us \<union> set vs" for vs :: "gostring list"
    by (induction vs arbitrary: us) auto
  then show ?thesis by (simp add: AddDyeingUser_def)
qed

lemma set_RemoveDyeingUser: "set (RemoveDyeingUser key us) = set us - set (strings_Split key 44)"
proof -
  have "set (foldl (\<lambda>us v. removeAll v us) us vs) = set us - set vs" for vs :: "gostring list"
    by (induction vs arbitrary: us) auto
  then show ?thesis by (simp add: RemoveDyeingUser_def)
qed

text \<open>The record of a dyed call: it goes to the log and, if the call carries a dyeing key, to the queue of dyed records, or
  an error is logged when that is full. The level is not set in the record.\<close>

record dyeingLogValue =
  dvLevel :: nat
  dvValue :: bytes
  dvDyeingKey :: gostring

definition DyeingWritef :: "(JsonLog \<Rightarrow> bytes) \<Rightarrow> logEnv \<Rightarrow> logEnv \<Rightarrow> Logger \<Rightarrow> Ctx \<Rightarrow> LogLevel \<Rightarrow> Logger
    \<Rightarrow> logState \<times> dyeingLogValue list \<Rightarrow> (logState \<times> dyeingLogValue list) option" where
  "DyeingWritef encode env errEnv errLogger ctx level lg = (\<lambda>(s, dq).
     case Writef encode env level lg s of
       None \<Rightarrow> None
     | Some s \<Rightarrow>
         (case GetDyeingKey ctx of (key, ok) \<Rightarrow>
            if \<not> ok then Some (s, dq)
            else if length dq < 10000
                 then Some (s, dq @ [\<lparr>dvLevel = 0, dvValue = fst (writeLine env level (lg\<lparr>lgPrefix := []\<rparr>) s), dvDyeingKey = key\<rparr>])
                 else map_option (\<lambda>s. (s, dq)) (Writef encode (errEnv\<lparr>leMsg := ascii ''dyeingLogQueue is full''\<rparr>) ERROR errLogger s)))"

text \<open>Users added by a command are dyed, users removed are not.\<close>

lemma dyeing_commands:
  assumes "HandleDyeingAdmin ord (ascii ''dyeUserManage add '' @ u) us = Inr ((m, False), us')" "32 \<notin> set u" "44 \<notin> set u"
  shows "IsDyeingUser v us' \<longleftrightarrow> v = u \<or> IsDyeingUser v us"
proof -
  have "strings_Split (ascii ''dyeUserManage add '' @ u) 32 = [ascii ''dyeUserManage'', ascii ''add'', u]"
    using assms(2) by (simp add: ascii_def strings_Split_single)
  then have "us' = AddDyeingUser u us"
    using assms(1) by (simp add: HandleDyeingAdmin_def Let_def ascii_def)
  then show ?thesis using assms(3) by (auto simp: IsDyeingUser_def set_AddDyeingUser strings_Split_single)
qed

end
