(* ===== verification/Push.thy ===== *)
theory Push
  imports Client_Calls
begin

text \<open>
  \<^verbatim>\<open>tars/protocol/push\<close>: a server that sends messages to its clients over their connections, and its client. A
  connection is a number, as in the context; \<^verbatim>\<open>OnConnect\<close> of the application is an argument that works on a world \<open>'w\<close>.
  \<^verbatim>\<open>ByteToInt8\<close> and \<^verbatim>\<open>Int8ToByte\<close> of \<^verbatim>\<open>tars/util/tools/convert.go\<close> read the same memory as the other type.
\<close>

definition ByteToInt8 :: "bytes \<Rightarrow> int8 list" where "ByteToInt8 s = s"
definition Int8ToByte :: "int8 list \<Rightarrow> bytes" where "Int8ToByte s = s"

section \<open>Server\<close>

definition response2Bytes :: "ResponsePacket \<Rightarrow> bytes" where
  "response2Bytes rsp =
     (let bs = Buffer_ToBytes (snd (ResponsePacket_WriteTo rsp (NewBuffer [])));
          sbuf = replicate 4 0 @ bs
      in PutUint32 (word_of_nat (length sbuf)) @ drop 4 sbuf)"

text \<open>Where a message is written, and its bytes.\<close>

datatype pushTarget = ToConn nat | ToUdp nat nat

text \<open>A context without a connection makes the write panic.\<close>

definition push_Send :: "Ctx \<Rightarrow> bytes \<Rightarrow> gerr + gostring + pushTarget \<times> bytes" where
  "push_Send ctx data =
     (case GetRawConn ctx of (conn, udpAddr, ok) \<Rightarrow>
        if \<not> ok then Inr (Inl (ascii ''connection not found''))
        else let rspData = response2Bytes (zero_response\<lparr>rsSBuffer := ByteToInt8 data\<rparr>) in
             (case conn of
                None \<Rightarrow> Inl (Panic ''nil pointer dereference'')
              | Some c \<Rightarrow> (case udpAddr of Some a \<Rightarrow> Inr (Inr (ToUdp c a, rspData)) | None \<Rightarrow> Inr (Inr (ToConn c, rspData)))))"

definition push_Invoke :: "(Ctx \<Rightarrow> bytes \<Rightarrow> 'w \<Rightarrow> bytes \<times> 'w) \<Rightarrow> Ctx \<Rightarrow> bytes \<Rightarrow> 'w \<Rightarrow> gerr + bytes \<times> 'w" where
  "push_Invoke OnConnect ctx reqBytes w =
     (if length reqBytes < 4 then Inl (Panic ''slice bounds out of range'')
      else (case RequestPacket_ReadFrom zero_request (NewReader (drop 4 reqBytes)) of
          (_, Some (Panic m), _) \<Rightarrow> Inl (Panic m)
        | (_, Some _, _) \<Rightarrow>
            Inr (response2Bytes (zero_response\<lparr>rsIRet := 1, rsSResultDesc := ascii ''decode request package error''\<rparr>), w)
        | (req, None, _) \<Rightarrow>
            let rsp = zero_response\<lparr>rsIVersion := rqIVersion req, rsCPacketType := rqCPacketType req, rsIRequestId := rqIRequestId req\<rparr>
            in if rqSFuncName req \<noteq> ascii ''tars_ping''
               then (case OnConnect ctx (Int8ToByte (rqSBuffer req)) w of (rspData, w) \<Rightarrow>
                       Inr (response2Bytes (rsp\<lparr>rsSBuffer := ByteToInt8 rspData\<rparr>), w))
               else Inr (response2Bytes rsp, w)))"

section \<open>Client\<close>

definition push_SetServant :: "ServantProxy \<Rightarrow> ServantProxy" where
  "push_SetServant s = SetPushCallback s"

definition push_Connect :: "('f, 'w, cinv) filters \<Rightarrow> (int, cinv) callee \<Rightarrow> ServantProxy \<Rightarrow> int32 \<Rightarrow> Clock \<Rightarrow> bytes \<Rightarrow> Ctx
    \<Rightarrow> callWorld \<Rightarrow> gerr + (goError + bytes) \<times> cinv" where
  "push_Connect fs invoke p requestID clock req ctx w =
     (case TarsInvoke fs invoke p requestID clock 0 (ascii ''push'') req [] [] zero_response ctx w of
        Inl e \<Rightarrow> Inl e
      | Inr ((Some err, _, _), s) \<Rightarrow> Inr (Inl err, s)
      | Inr ((None, rsp, _), s) \<Rightarrow> Inr (Inr (Int8ToByte (rsSBuffer rsp)), s))"

section \<open>Messages arrive\<close>

lemma response2Bytes_frame:
  assumes "okResponse rsp"
  shows "response2Bytes rsp = frame (encResponse rsp)"
  by (simp add: response2Bytes_def NewBuffer_def Buffer_ToBytes_def frame_def Let_def add.commute
      appends_append [OF ResponsePacket_WriteTo_enc [OF assms]])

lemma response2Bytes_wire:
  assumes "okResponse rsp" and "length (response2Bytes rsp) < 2 ^ 32" and "int (length (response2Bytes rsp)) \<le> maxLen"
  shows "TarsRequest maxLen (response2Bytes rsp @ rest) = (length (response2Bytes rsp), PackageFull)"
    and "ResponseUnpack (response2Bytes rsp) = (rsp, None)"
proof -
  have f: "response2Bytes rsp = frame (encResponse rsp)" using assms(1) by (rule response2Bytes_frame)
  show "TarsRequest maxLen (response2Bytes rsp @ rest) = (length (response2Bytes rsp), PackageFull)"
    using TarsRequest_frame [of "encResponse rsp" maxLen rest] assms(2,3) by (simp add: f)
  show "ResponseUnpack (response2Bytes rsp) = (rsp, None)"
    using ResponsePacket_ReadFrom_enc [OF assms(1), of zero_response "NewReader (encResponse rsp)" "[]"]
    by (simp add: f ResponseUnpack_def)
qed

text \<open>A packet that the framing of the peer accepts.\<close>

definition fits :: "int \<Rightarrow> ResponsePacket \<Rightarrow> bool" where
  "fits maxLen rsp \<longleftrightarrow> length (rsSBuffer rsp) < 2 ^ 31 \<and> length (response2Bytes rsp) < 2 ^ 32
     \<and> int (length (response2Bytes rsp)) \<le> maxLen"

text \<open>The answer to a connection request.\<close>

definition connectAnswer :: "(Ctx \<Rightarrow> bytes \<Rightarrow> 'w \<Rightarrow> bytes \<times> 'w) \<Rightarrow> Ctx \<Rightarrow> RequestPacket \<Rightarrow> 'w \<Rightarrow> ResponsePacket" where
  "connectAnswer OnConnect ctx req w =
     zero_response\<lparr>rsIVersion := rqIVersion req, rsCPacketType := rqCPacketType req, rsIRequestId := rqIRequestId req,
       rsSBuffer := (if rqSFuncName req = ascii ''tars_ping'' then [] else fst (OnConnect ctx (rqSBuffer req) w))\<rparr>"

lemma fits_wire:
  assumes "fits maxLen rsp" "rsp = zero_response\<lparr>rsIVersion := v, rsCPacketType := t, rsIRequestId := n, rsSBuffer := b\<rparr>"
  shows "TarsRequest maxLen (response2Bytes rsp @ rest) = (length (response2Bytes rsp), PackageFull)"
    and "ResponseUnpack (response2Bytes rsp) = (rsp, None)"
proof -
  have "okResponse rsp" using assms by (simp add: fits_def okResponse_def zero_response_def okStrMap_def)
  then show "TarsRequest maxLen (response2Bytes rsp @ rest) = (length (response2Bytes rsp), PackageFull)"
    "ResponseUnpack (response2Bytes rsp) = (rsp, None)"
    using response2Bytes_wire(1) [of rsp maxLen rest] response2Bytes_wire(2) [of rsp maxLen] assms(1) by (simp_all add: fits_def)
qed

text \<open>C19: pushed messages arrive. A message sent under the context of a connection is written to that connection; its bytes,
  whatever follows them in the stream, are one complete package for the client's framing, which the adapter takes for a
  push and not for the answer of any call, and the callback gets exactly the data. The answer to a connection request is a
  complete package with the request's id, and carries what \<^verbatim>\<open>OnConnect\<close> returned for the request's data; a ping does not
  reach \<^verbatim>\<open>OnConnect\<close>.\<close>

theorem push_messages_arrive:
  assumes "cxCurrent ctx = Some tc" and "cuRawConn tc = Some c" and "okRequest req"
    and "fits maxLen (zero_response\<lparr>rsSBuffer := data\<rparr>)" and "fits maxLen (connectAnswer OnConnect ctx req w)"
  shows "(\<exists>bs packet. push_Send ctx data = Inr (Inr (case cuUdpAddr tc of Some a \<Rightarrow> ToUdp c a | None \<Rightarrow> ToConn c, bs))
      \<and> TarsRequest maxLen (bs @ rest) = (length bs, PackageFull) \<and> ResponseUnpack bs = (packet, None)
      \<and> Recv i packet k = Pushed \<and> onPush i packet k = (if i \<in> cwPushing k then Callback data else NoCallback))
    \<and> (\<exists>bs. push_Invoke OnConnect ctx (fst (RequestPack req)) w
         = Inr (bs, if rqSFuncName req = ascii ''tars_ping'' then w else snd (OnConnect ctx (rqSBuffer req) w))
      \<and> TarsRequest maxLen (bs @ rest) = (length bs, PackageFull)
      \<and> ResponseUnpack bs = (connectAnswer OnConnect ctx req w, None))"
proof (intro conjI)
  let ?p = "zero_response\<lparr>rsSBuffer := data\<rparr>" and ?a = "connectAnswer OnConnect ctx req w"
  have "push_Send ctx data
      = Inr (Inr (case cuUdpAddr tc of Some a \<Rightarrow> ToUdp c a | None \<Rightarrow> ToConn c, response2Bytes ?p))"
    using assms(1,2) by (simp add: push_Send_def GetRawConn_def ByteToInt8_def split: option.split)
  moreover have "Recv i ?p k = Pushed" "onPush i ?p k = (if i \<in> cwPushing k then Callback data else NoCallback)"
    by (simp_all add: Recv_def onPush_def zero_response_def reconnectMsg_def ascii_def map_idI)
  moreover have "?p = zero_response\<lparr>rsIVersion := 0, rsCPacketType := 0, rsIRequestId := 0, rsSBuffer := data\<rparr>"
    by (simp add: zero_response_def)
  note fits_wire [OF assms(4) this]
  ultimately show "\<exists>bs packet. push_Send ctx data = Inr (Inr (case cuUdpAddr tc of Some a \<Rightarrow> ToUdp c a | None \<Rightarrow> ToConn c, bs))
      \<and> TarsRequest maxLen (bs @ rest) = (length bs, PackageFull) \<and> ResponseUnpack bs = (packet, None)
      \<and> Recv i packet k = Pushed \<and> onPush i packet k = (if i \<in> cwPushing k then Callback data else NoCallback)"
    by (intro exI [of _ "response2Bytes ?p"] exI [of _ ?p]) simp
  have pack: "fst (RequestPack req) = frame (encRequest req)" using RequestPack_frame [OF assms(3)] by simp
  have read: "RequestPacket_ReadFrom zero_request (NewReader (encRequest req))
      = (req, None, adv (length (encRequest req)) (NewReader (encRequest req)))"
    using RequestPacket_ReadFrom_fresh [OF assms(3), of zero_request "NewReader (encRequest req)" "[]"] by simp
  have "push_Invoke OnConnect ctx (fst (RequestPack req)) w
      = Inr (response2Bytes ?a, if rqSFuncName req = ascii ''tars_ping'' then w else snd (OnConnect ctx (rqSBuffer req) w))"
    by (simp add: push_Invoke_def pack read connectAnswer_def Int8ToByte_def ByteToInt8_def Let_def split: prod.split)
      (simp add: zero_response_def)
  then show "\<exists>bs. push_Invoke OnConnect ctx (fst (RequestPack req)) w
         = Inr (bs, if rqSFuncName req = ascii ''tars_ping'' then w else snd (OnConnect ctx (rqSBuffer req) w))
      \<and> TarsRequest maxLen (bs @ rest) = (length bs, PackageFull)
      \<and> ResponseUnpack bs = (connectAnswer OnConnect ctx req w, None)"
    using fits_wire [OF assms(5) connectAnswer_def] by blast
qed

definition demo_push_ctx :: Ctx where
  "demo_push_ctx = \<lparr>cxCurrent = Some (newCurrent\<lparr>cuRawConn := Some 7\<rparr>), cxClient = None\<rparr>"

lemma fits_small:
  assumes "rsp = zero_response\<lparr>rsIVersion := 0, rsCPacketType := 0, rsIRequestId := 0, rsSBuffer := b\<rparr>" "length b \<le> 100"
  shows "fits 10485760 rsp"
proof -
  have "okResponse rsp" using assms by (simp add: okResponse_def zero_response_def okStrMap_def)
  moreover have "length (encResponse rsp) \<le> 130"
    using assms by (simp add: encResponse_def zero_response_def encInt_def encString_def encHead_def encVecInt8_def encStrMap_def
        intBody_def split: if_splits)
  ultimately show ?thesis using assms by (simp add: fits_def response2Bytes_frame)
qed

lemma demo_push_fits:
  "fits 10485760 (zero_response\<lparr>rsSBuffer := [1, 2]\<rparr>)"
  "fits 10485760 (connectAnswer (\<lambda>ctx d w. (d, w)) demo_push_ctx zero_request ())"
  by (rule fits_small [where b = "[1, 2]"]; simp add: zero_response_def)
    (rule fits_small [where b = "[]"]; simp add: zero_response_def connectAnswer_def zero_request_def)

theorem push_messages_arrive_witness:
  "\<exists>bs packet. push_Send demo_push_ctx [1, 2] = Inr (Inr (ToConn 7, bs)) \<and> ResponseUnpack bs = (packet, None)
     \<and> TarsRequest 10485760 (bs @ [0]) = (length bs, PackageFull)"
proof -
  have c: "cxCurrent demo_push_ctx = Some (newCurrent\<lparr>cuRawConn := Some 7\<rparr>)"
    "cuRawConn (newCurrent\<lparr>cuRawConn := Some 7\<rparr>) = Some 7" "okRequest zero_request"
    by (simp_all add: demo_push_ctx_def)
  have u: "cuUdpAddr (newCurrent\<lparr>cuRawConn := Some 7\<rparr>) = None" by (simp add: newCurrent_def)
  show ?thesis
    using push_messages_arrive [OF c demo_push_fits, of "[0]" 0, THEN conjunct1] u by fastforce
qed

end
