(* ===== verification/Remote_Helpers.thy ===== *)
theory Remote_Helpers
  imports Property_Report App_Run
begin

text \<open>
  The clients of the framework's services: the remote configuration \<^verbatim>\<open>tars/rconfig.go\<close>, the heartbeats of
  \<^verbatim>\<open>tars/nodef.go\<close>, the notifications of \<^verbatim>\<open>tars/notifyf.go\<close>, the remote log of \<^verbatim>\<open>tars/remotelogger.go\<close> and the statistics of
  \<^verbatim>\<open>tars/httpserver.go\<close>. They call the generated proxies of \<open>Framework_Services\<close>; the invoker of a proxy is an argument.
\<close>

section \<open>Remote configuration\<close>

record RConf =
  rcApp :: gostring
  rcServer :: gostring
  rcComm :: Communicator
  rcPath :: gostring

definition NewRConf :: "gostring \<Rightarrow> gostring \<Rightarrow> gostring \<Rightarrow> Communicator \<Rightarrow> RConf" where
  "NewRConf app server path comm = \<lparr>rcApp = app, rcServer = server, rcComm = comm, rcPath = path\<rparr>"

text \<open>The files of the base path; \<open>canWrite\<close> says which can be written.\<close>

type_synonym savedFiles = "(gostring \<times> bytes) list"

definition saveFile :: "(gostring \<Rightarrow> gostring option) \<Rightarrow> gostring \<Rightarrow> gostring \<Rightarrow> gostring \<Rightarrow> savedFiles
    \<Rightarrow> goError option \<times> savedFiles" where
  "saveFile canWrite path filename content fs =
     (let name = path @ 47 # filename in
      case canWrite name of Some err \<Rightarrow> (Some (PlainError err), fs) | None \<Rightarrow> (None, AList.update name content fs))"

definition GetConfigList :: "(Ctx \<Rightarrow> 'w invoker) \<Rightarrow> RConf \<Rightarrow> 'w \<Rightarrow> gerr + (gostring list \<times> goError option) \<times> 'w" where
  "GetConfigList invoke c w =
     (let info = zero_GetConfigListInfo\<lparr>gclAppname := rcApp c, gclServername := rcServer c\<rparr> in
      case Config_ListAllConfigByInfo invoke (zero_ConfigVars\<lparr>cvConfigInfoGetConfigListInfo := info\<rparr>) [] w of
        Inl e \<Rightarrow> Inl e
      | Inr ((Some err, a, _), w) \<Rightarrow> Inr ((cvVf a, Some err), w)
      | Inr ((None, a, _), w) \<Rightarrow>
          Inr ((cvVf a, if cvRet a \<noteq> 0 then Some (PlainError (ascii ''ret:'' @ fmt_d (sint (cvRet a)))) else None), w))"

definition getConfig :: "(Ctx \<Rightarrow> 'w invoker) \<Rightarrow> (gostring \<Rightarrow> gostring option) \<Rightarrow> RConf \<Rightarrow> ConfigInfo \<Rightarrow> savedFiles \<times> 'w
    \<Rightarrow> gerr + (gostring \<times> goError option) \<times> savedFiles \<times> 'w" where
  "getConfig invoke canWrite c info = (\<lambda>(fs, w).
     bindPanic (GetProperty (ascii ''setdivision'') (rcComm c)) (\<lambda>(v, ok).
       let info = info\<lparr>cfiSetdivision := (if ok then v else [])\<rparr> in
       case Config_LoadConfigByInfo invoke (zero_ConfigVars\<lparr>cvConfigInfo := info\<rparr>) [] w of
         Inl e \<Rightarrow> Inl e
       | Inr ((Some err, a, _), w) \<Rightarrow> Inr ((cvConfig a, Some err), fs, w)
       | Inr ((None, a, _), w) \<Rightarrow>
           if cvRet a \<noteq> 0 then Inr ((cvConfig a, Some (PlainError (ascii ''ret '' @ fmt_d (sint (cvRet a))))), fs, w)
           else (case saveFile canWrite (rcPath c) (cfiFilename info) (cvConfig a) fs of (err, fs) \<Rightarrow>
                   Inr ((cvConfig a, err), fs, w))))"

definition GetAppConfig :: "(Ctx \<Rightarrow> 'w invoker) \<Rightarrow> (gostring \<Rightarrow> gostring option) \<Rightarrow> RConf \<Rightarrow> gostring \<Rightarrow> savedFiles \<times> 'w
    \<Rightarrow> gerr + (gostring \<times> goError option) \<times> savedFiles \<times> 'w" where
  "GetAppConfig invoke canWrite c filename =
     getConfig invoke canWrite c (zero_ConfigInfo\<lparr>cfiAppname := rcApp c, cfiServername := [], cfiFilename := filename\<rparr>)"

definition GetConfig :: "(Ctx \<Rightarrow> 'w invoker) \<Rightarrow> (gostring \<Rightarrow> gostring option) \<Rightarrow> RConf \<Rightarrow> gostring \<Rightarrow> savedFiles \<times> 'w
    \<Rightarrow> gerr + (gostring \<times> goError option) \<times> savedFiles \<times> 'w" where
  "GetConfig invoke canWrite c filename =
     getConfig invoke canWrite c
       (zero_ConfigInfo\<lparr>cfiAppname := rcApp c, cfiServername := rcServer c, cfiFilename := filename\<rparr>)"

section \<open>Node and notifications\<close>

text \<open>Without a node nothing is sent. The errors of the calls are logged only.\<close>

record NodeFHelper =
  nhSet :: bool
  nhSi :: ServerInfo

definition SetNodeInfo :: "gostring \<Rightarrow> gostring \<Rightarrow> gostring \<Rightarrow> int32 \<Rightarrow> NodeFHelper \<Rightarrow> NodeFHelper" where
  "SetNodeInfo node app server pid n =
     (if node = [] then n
      else \<lparr>nhSet = True, nhSi = \<lparr>sviApplication = app, sviServerName = server, sviPid = pid, sviAdapter = []\<rparr>\<rparr>)"

definition KeepAlive :: "(Ctx \<Rightarrow> 'w invoker) \<Rightarrow> int32 \<Rightarrow> gostring \<Rightarrow> NodeFHelper \<times> 'w \<Rightarrow> gerr + NodeFHelper \<times> 'w" where
  "KeepAlive invoke pid adapter = (\<lambda>(n, w).
     if \<not> nhSet n then Inr (n, w)
     else let n = n\<lparr>nhSi := (nhSi n)\<lparr>sviPid := pid, sviAdapter := adapter\<rparr>\<rparr> in
          bindPanic (ServerF_KeepAlive invoke (zero_ServerFVars\<lparr>dvServerInfo := nhSi n\<rparr>) [] w) (\<lambda>(_, w). Inr (n, w)))"

definition ReportVersion :: "(Ctx \<Rightarrow> 'w invoker) \<Rightarrow> gostring \<Rightarrow> NodeFHelper \<times> 'w \<Rightarrow> gerr + NodeFHelper \<times> 'w" where
  "ReportVersion invoke version = (\<lambda>(n, w).
     if \<not> nhSet n then Inr (n, w)
     else bindPanic (ServerF_ReportVersion invoke (zero_ServerFVars\<lparr>dvApp := sviApplication (nhSi n),
              dvServerName := sviServerName (nhSi n), dvVersion := version\<rparr>) [] w) (\<lambda>(_, w). Inr (n, w)))"

definition SetNotifyInfo :: "Communicator \<Rightarrow> gostring \<Rightarrow> gostring \<Rightarrow> gostring \<Rightarrow> gerr + ReportInfo" where
  "SetNotifyInfo comm app server container =
     bindPanic (GetProperty (ascii ''setdivision'') comm) (\<lambda>(v, ok).
       Inr \<lparr>rpiEType = 0, rpiSApp = app, rpiSSet = (if ok then v else []), rpiSContainer = container, rpiSServer = server,
            rpiSMessage = [], rpiSThreadId = [], rpiELevel = 0\<rparr>)"

definition ReportNotifyInfo :: "(Ctx \<Rightarrow> 'w invoker) \<Rightarrow> 'f serverConfig \<Rightarrow> Communicator \<Rightarrow> int32 \<Rightarrow> gostring \<Rightarrow> 'w \<Rightarrow> gerr + 'w" where
  "ReportNotifyInfo invoke cfg comm level info w =
     (if scNotify cfg = [] then Inr w
      else bindPanic (SetNotifyInfo comm (scApp cfg) (scServer cfg) (scContainer cfg)) (\<lambda>tm.
        case Notify_ReportNotifyInfo invoke (zero_NotifyVars\<lparr>nvInfo := tm\<lparr>rpiELevel := level, rpiSMessage := info\<rparr>\<rparr>) [] w of
          Inl (Panic _) \<Rightarrow> Inr w
        | Inl e \<Rightarrow> Inl e
        | Inr (_, w) \<Rightarrow> Inr w))"

section \<open>Statistics of HTTP servers\<close>

record httpStatInfo =
  hiReqAddr :: gostring
  hiPattern :: gostring
  hiStatusCode :: int
  hiCostTime :: int64

definition newHttpStatInfo :: "gostring \<Rightarrow> gostring \<Rightarrow> int \<Rightarrow> int64 \<Rightarrow> httpStatInfo" where
  "newHttpStatInfo reqAddr pattern statusCode costTime =
     \<lparr>hiReqAddr = reqAddr, hiPattern = pattern, hiStatusCode = statusCode, hiCostTime = costTime\<rparr>"

definition DefaultExceptionStatusChecker :: "int \<Rightarrow> bool" where
  "DefaultExceptionStatusChecker statusCode \<longleftrightarrow> statusCode \<ge> 400"

text \<open>The first header that is set, else the address of the peer up to its colon.\<close>

definition realIPHeader :: "gostring list" where
  "realIPHeader = [ascii ''X-Real-Ip'', ascii ''X-Forwarded-For-Pound'', ascii ''X-Forwarded-For'']"

fun getClientIp :: "(gostring \<Rightarrow> gostring) \<Rightarrow> gostring list \<Rightarrow> gostring \<Rightarrow> gostring" where
  "getClientIp header [] remoteAddr = strings_SplitN2 remoteAddr 58 ! 0"
| "getClientIp header (h # hs) remoteAddr = (if header h \<noteq> [] then header h else getClientIp header hs remoteAddr)"

definition reportHttpStat :: "(int \<Rightarrow> bool) option \<Rightarrow> TarsHttpConf \<Rightarrow> httpStatInfo \<Rightarrow> gerr + StatInfo" where
  "reportHttpStat checker cfg st =
     (let head = zero_StatMicMsgHead\<lparr>smhMasterName := ascii ''http_client'', smhMasterIp := hiReqAddr st, smhTarsVersion := hcVersion cfg,
            smhSlaveName := hcAppName cfg, smhSlaveIp := hcIP cfg, smhSlavePort := hcPort cfg, smhInterfaceName := hiPattern st\<rparr>;
          body = (if (case checker of None \<Rightarrow> DefaultExceptionStatusChecker | Some f \<Rightarrow> f) (hiStatusCode st)
                  then zero_StatMicMsgBody\<lparr>smbExecCount := 1\<rparr>
                  else costBody 1 0 0 (hiCostTime st))
      in bindPanic (if hcSetId cfg \<noteq> []
                    then bindPanic (setParts (hcSetId cfg)) (\<lambda>(a, b, c).
                      Inr (head\<lparr>smhSlaveSetName := a, smhSlaveSetArea := b, smhSlaveSetID := c,
                        smhSlaveName := hcAppName cfg @ 46 # a @ b @ c\<rparr>))
                    else Inr head)
           (\<lambda>head. Inr \<lparr>siHead = head, siBody = body\<rparr>))"

text \<open>\<^verbatim>\<open>ServeHTTP\<close> without a Gin engine: the status the handler wrote (0 when it wrote none) and the report.\<close>

definition ServeHTTP :: "(gostring \<Rightarrow> gostring) \<Rightarrow> gostring \<Rightarrow> gostring \<Rightarrow> gostring \<Rightarrow> int \<Rightarrow> int64 \<Rightarrow> int \<times> httpStatInfo option" where
  "ServeHTTP header uri remoteAddr pattern status costTime =
     (if uri = ascii ''*'' then (400, None)
      else (status, Some (newHttpStatInfo (getClientIp header realIPHeader remoteAddr)
              (if pattern = [] then ascii ''/'' else pattern) status costTime)))"

section \<open>The remote log\<close>

definition remoteLogQueueSize :: nat where "remoteLogQueueSize = 500000"
definition remoteLogMaxNumOneTime :: nat where "remoteLogMaxNumOneTime = 2000"

text \<open>A writer with its channel and the buffer \<^verbatim>\<open>v\<close> of the goroutine \<^verbatim>\<open>Sync2remote\<close>. The two reports of successes and
  failures are sums, which \<open>rwSucc\<close> and \<open>rwFail\<close> are.\<close>

record RemoteTimeWriter =
  rwLogInfo :: LogInfo
  rwLogs :: "gostring list"
  rwBuffer :: "gostring list"
  rwSucc :: ReportMethod
  rwFail :: ReportMethod
  rwHasPrefix :: bool

definition EnableSuffix :: "bool \<Rightarrow> RemoteTimeWriter \<Rightarrow> RemoteTimeWriter" where
  "EnableSuffix b rw = rw\<lparr>rwLogInfo := (rwLogInfo rw)\<lparr>lgiBHasSufix := b\<rparr>\<rparr>"
definition EnablePrefix :: "bool \<Rightarrow> RemoteTimeWriter \<Rightarrow> RemoteTimeWriter" where
  "EnablePrefix b rw = rw\<lparr>rwLogInfo := (rwLogInfo rw)\<lparr>lgiBHasAppNamePrefix := b\<rparr>\<rparr>"
definition SetFileNameConcatStr :: "gostring \<Rightarrow> RemoteTimeWriter \<Rightarrow> RemoteTimeWriter" where
  "SetFileNameConcatStr s rw = rw\<lparr>rwLogInfo := (rwLogInfo rw)\<lparr>lgiSConcatStr := s\<rparr>\<rparr>"
definition SetSeparator :: "gostring \<Rightarrow> RemoteTimeWriter \<Rightarrow> RemoteTimeWriter" where
  "SetSeparator s rw = rw\<lparr>rwLogInfo := (rwLogInfo rw)\<lparr>lgiSSepar := s\<rparr>\<rparr>"
definition EnableSquareWrapper :: "bool \<Rightarrow> RemoteTimeWriter \<Rightarrow> RemoteTimeWriter" where
  "EnableSquareWrapper b rw = rw\<lparr>rwLogInfo := (rwLogInfo rw)\<lparr>lgiBHasSquareBracket := b\<rparr>\<rparr>"
definition SetLogType :: "gostring \<Rightarrow> RemoteTimeWriter \<Rightarrow> RemoteTimeWriter" where
  "SetLogType t rw = rw\<lparr>rwLogInfo := (rwLogInfo rw)\<lparr>lgiSLogType := t\<rparr>\<rparr>"
definition InitFormat :: "gostring \<Rightarrow> RemoteTimeWriter \<Rightarrow> RemoteTimeWriter" where
  "InitFormat s rw = rw\<lparr>rwLogInfo := (rwLogInfo rw)\<lparr>lgiSFormat := s\<rparr>\<rparr>"
definition rw_SetPrefix :: "bool \<Rightarrow> RemoteTimeWriter \<Rightarrow> RemoteTimeWriter" where
  "rw_SetPrefix b rw = rw\<lparr>rwHasPrefix := b\<rparr>"

text \<open>The property reports are those of \<^verbatim>\<open>InitServerInfo\<close>, which is called right after; before it they would be nil.\<close>

definition NewRemoteTimeWriter :: RemoteTimeWriter where
  "NewRemoteTimeWriter = rw_SetPrefix True (SetSeparator (ascii ''|'') (EnablePrefix True (EnableSuffix True
     \<lparr>rwLogInfo = zero_LogInfo\<lparr>lgiSFormat := [37, 89, 37, 109, 37, 100], lgiSConcatStr := ascii ''_''\<rparr>, rwLogs = [], rwBuffer = [],
      rwSucc = NewSum, rwFail = NewSum, rwHasPrefix = False\<rparr>)))"

definition InitServerInfo :: "gostring \<Rightarrow> gostring \<Rightarrow> gostring \<Rightarrow> gostring \<Rightarrow> RemoteTimeWriter \<Rightarrow> RemoteTimeWriter" where
  "InitServerInfo app server filename setdivision rw =
     rw\<lparr>rwLogInfo := (rwLogInfo rw)\<lparr>lgiAppname := app, lgiServername := server, lgiSFilename := filename, lgiSetdivision := setdivision\<rparr>,
        rwFail := NewSum, rwSucc := NewSum\<rparr>"

text \<open>\<^verbatim>\<open>Write\<close> drops a line when the channel is full; the result says whether it was taken.\<close>

definition rw_Write :: "bytes \<Rightarrow> RemoteTimeWriter \<Rightarrow> bool \<times> RemoteTimeWriter" where
  "rw_Write b rw =
     (if length (rwLogs rw) < remoteLogQueueSize then (True, rw\<lparr>rwLogs := rwLogs rw @ [b]\<rparr>) else (False, rw))"

definition sync2remote :: "(Ctx \<Rightarrow> 'w invoker) \<Rightarrow> gostring list \<Rightarrow> RemoteTimeWriter \<Rightarrow> 'w \<Rightarrow> gerr + goError option \<times> 'w" where
  "sync2remote invoke v rw w =
     (case Log_LoggerbyInfo invoke (zero_LogVars\<lparr>lvInfo := rwLogInfo rw, lvBuffer := v\<rparr>) [] w of
        Inl e \<Rightarrow> Inl e | Inr ((err, _, _), w) \<Rightarrow> Inr (err, w))"

text \<open>Sending the buffer: after a failure both sums grow.\<close>

definition syncBuffer :: "(gostring list \<Rightarrow> RemoteTimeWriter \<Rightarrow> 'w \<Rightarrow> gerr + goError option \<times> 'w) \<Rightarrow> RemoteTimeWriter \<times> 'w
    \<Rightarrow> gerr + RemoteTimeWriter \<times> 'w" where
  "syncBuffer send = (\<lambda>(rw, w).
     bindPanic (send (rwBuffer rw) rw w) (\<lambda>(err, w).
     bindPanic (if err \<noteq> None then methodSet (of_nat (length (rwBuffer rw))) (rwFail rw) else Inr (rwFail rw)) (\<lambda>fail.
     bindPanic (methodSet (of_nat (length (rwBuffer rw))) (rwSucc rw)) (\<lambda>succ.
       Inr (rw\<lparr>rwFail := fail, rwSucc := succ, rwBuffer := []\<rparr>, w)))))"

text \<open>The two cases of the loop of \<^verbatim>\<open>Sync2remote\<close>: a line from the channel (\<open>None\<close> when there is none), and the interval.\<close>

definition syncLine :: "(gostring list \<Rightarrow> RemoteTimeWriter \<Rightarrow> 'w \<Rightarrow> gerr + goError option \<times> 'w) \<Rightarrow> RemoteTimeWriter \<times> 'w
    \<Rightarrow> (gerr + RemoteTimeWriter \<times> 'w) option" where
  "syncLine send = (\<lambda>(rw, w).
     case rwLogs rw of
       [] \<Rightarrow> None
     | log # rest \<Rightarrow>
         let rw = rw\<lparr>rwLogs := rest, rwBuffer := rwBuffer rw @ [log]\<rparr> in
         Some (if length (rwBuffer rw) \<ge> remoteLogMaxNumOneTime then syncBuffer send (rw, w) else Inr (rw, w)))"

definition syncInterval :: "(gostring list \<Rightarrow> RemoteTimeWriter \<Rightarrow> 'w \<Rightarrow> gerr + goError option \<times> 'w) \<Rightarrow> RemoteTimeWriter \<times> 'w
    \<Rightarrow> gerr + RemoteTimeWriter \<times> 'w" where
  "syncInterval send = (\<lambda>(rw, w). if length (rwBuffer rw) > 0 then syncBuffer send (rw, w) else Inr (rw, w))"

text \<open>A log service that records the batches it gets, each with whether it answered with an error; \<open>fails\<close> decides that from
  the batches so far.\<close>

definition recordBatch :: "(gostring list list \<Rightarrow> bool) \<Rightarrow> gostring list \<Rightarrow> RemoteTimeWriter \<Rightarrow> (gostring list \<times> bool) list
    \<Rightarrow> gerr + goError option \<times> (gostring list \<times> bool) list" where
  "recordBatch fails v rw w =
     (let bad = fails (map fst w) in Inr (if bad then Some (PlainError []) else None, w @ [(v, bad)]))"

text \<open>The states of a writer with the lines it took, in any interleaving of writes and of the cases of the loop.\<close>

inductive remote_reach :: "(gostring list list \<Rightarrow> bool) \<Rightarrow> bytes list \<Rightarrow> RemoteTimeWriter \<Rightarrow> (gostring list \<times> bool) list \<Rightarrow> bool"
  for fails where
  remote_new: "remote_reach fails [] (InitServerInfo app server filename division NewRemoteTimeWriter) []"
| remote_taken: "remote_reach fails ls rw w \<Longrightarrow> rw_Write b rw = (True, rw') \<Longrightarrow> remote_reach fails (ls @ [b]) rw' w"
| remote_dropped: "remote_reach fails ls rw w \<Longrightarrow> rw_Write b rw = (False, rw') \<Longrightarrow> remote_reach fails ls rw' w"
| remote_line: "remote_reach fails ls rw w \<Longrightarrow> syncLine (recordBatch fails) (rw, w) = Some (Inr (rw', w')) \<Longrightarrow>
    remote_reach fails ls rw' w'"
| remote_interval: "remote_reach fails ls rw w \<Longrightarrow> syncInterval (recordBatch fails) (rw, w) = Inr (rw', w') \<Longrightarrow>
    remote_reach fails ls rw' w'"

definition batchLines :: "(gostring list \<times> bool) list \<Rightarrow> nat" where
  "batchLines w = sum_list (map (length \<circ> fst) w)"

definition remote_inv :: "bytes list \<Rightarrow> RemoteTimeWriter \<Rightarrow> (gostring list \<times> bool) list \<Rightarrow> bool" where
  "remote_inv ls rw w \<longleftrightarrow> ls = concat (map fst w) @ rwBuffer rw @ rwLogs rw
     \<and> (\<forall>(b, bad) \<in> set w. b \<noteq> [] \<and> length b \<le> remoteLogMaxNumOneTime)
     \<and> length (rwBuffer rw) < remoteLogMaxNumOneTime \<and> length (rwLogs rw) \<le> remoteLogQueueSize
     \<and> rwSucc rw = SumM (of_nat (batchLines w)) \<and> rwFail rw = SumM (of_nat (batchLines (filter snd w)))"

lemma inv_syncBuffer:
  assumes "ls = concat (map fst w) @ rwBuffer rw @ rwLogs rw" "\<forall>(b, bad) \<in> set w. b \<noteq> [] \<and> length b \<le> remoteLogMaxNumOneTime"
    and "rwBuffer rw \<noteq> []" "length (rwBuffer rw) \<le> remoteLogMaxNumOneTime" "length (rwLogs rw) \<le> remoteLogQueueSize"
    and "rwSucc rw = SumM (of_nat (batchLines w))" "rwFail rw = SumM (of_nat (batchLines (filter snd w)))"
    and "syncBuffer (recordBatch fails) (rw, w) = Inr (rw', w')"
  shows "remote_inv ls rw' w'"
  using assms by (auto simp: remote_inv_def syncBuffer_def recordBatch_def batchLines_def remoteLogMaxNumOneTime_def Let_def
      split: if_splits)

lemma inv_syncLine:
  assumes "remote_inv ls rw w" "syncLine (recordBatch fails) (rw, w) = Some (Inr (rw', w'))"
  shows "remote_inv ls rw' w'"
proof -
  obtain log rest where q: "rwLogs rw = log # rest" using assms(2) by (auto simp: syncLine_def split: list.splits)
  let ?rw = "rw\<lparr>rwLogs := rest, rwBuffer := rwBuffer rw @ [log]\<rparr>"
  show ?thesis
  proof (cases "length (rwBuffer ?rw) \<ge> remoteLogMaxNumOneTime")
    case True
    then have "syncBuffer (recordBatch fails) (?rw, w) = Inr (rw', w')" using assms(2) q by (simp add: syncLine_def)
    then show ?thesis using assms(1) q by (intro inv_syncBuffer [of ls w ?rw fails]) (auto simp: remote_inv_def)
  next
    case False
    then have "rw' = ?rw" "w' = w" using assms(2) q by (auto simp: syncLine_def)
    then show ?thesis using assms(1) q False by (auto simp: remote_inv_def)
  qed
qed

lemma inv_syncInterval:
  assumes "remote_inv ls rw w" "syncInterval (recordBatch fails) (rw, w) = Inr (rw', w')"
  shows "remote_inv ls rw' w'"
proof (cases "rwBuffer rw = []")
  case False
  then have "syncBuffer (recordBatch fails) (rw, w) = Inr (rw', w')" using assms(2) by (simp add: syncInterval_def)
  then show ?thesis using assms(1) False by (intro inv_syncBuffer [of ls w rw fails]) (auto simp: remote_inv_def)
qed (use assms in \<open>auto simp: syncInterval_def\<close>)

lemma remote_reach_inv: "remote_reach fails ls rw w \<Longrightarrow> remote_inv ls rw w"
proof (induction rule: remote_reach.induct)
  case (remote_new app server filename division)
  show ?case
    by (simp add: remote_inv_def InitServerInfo_def NewRemoteTimeWriter_def rw_SetPrefix_def SetSeparator_def EnablePrefix_def
        EnableSuffix_def NewSum_def batchLines_def remoteLogMaxNumOneTime_def)
next
  case (remote_taken ls rw w b rw')
  then show ?case by (auto simp: rw_Write_def remote_inv_def split: if_splits)
next
  case (remote_dropped ls rw w b rw')
  then show ?case by (auto simp: rw_Write_def split: if_splits)
qed (auto intro: inv_syncLine inv_syncInterval)

text \<open>C18: the remote log loses no line that it took. In every interleaving of writes and of the two cases of the sending loop,
  with a service that fails whenever it likes, the lines taken are, in their order, those of the batches sent, those in the
  buffer and those in the channel; a line is refused only while the channel holds 500000. Batches are not empty and have at
  most 2000 lines, and fewer than 2000 wait in the buffer. The sum reported as successes is the number of all lines sent, those
  of failed batches included, which are not sent again.\<close>

theorem remote_logs_conserved:
  assumes "remote_reach fails ls rw w"
  shows "ls = concat (map fst w) @ rwBuffer rw @ rwLogs rw
    \<and> (fst (rw_Write b rw) \<longleftrightarrow> length (rwLogs rw) \<noteq> 500000)
    \<and> (\<forall>(v, bad) \<in> set w. v \<noteq> [] \<and> length v \<le> 2000) \<and> length (rwBuffer rw) < 2000
    \<and> rwSucc rw = SumM (of_nat (length (concat (map fst w))))
    \<and> rwFail rw = SumM (of_nat (length (concat (map fst (filter snd w)))))"
  using remote_reach_inv [OF assms]
  by (auto simp: remote_inv_def rw_Write_def remoteLogQueueSize_def remoteLogMaxNumOneTime_def batchLines_def length_concat
      simp flip: map_map)

text \<open>A writer that took two lines; the first was sent in a batch that failed.\<close>

lemma demo_remote:
  "\<exists>rw. remote_reach (\<lambda>_. True) [[65], [66]] rw [([[65]], True)]"
proof -
  let ?r0 = "InitServerInfo [] [] [] [] NewRemoteTimeWriter"
  let ?r1 = "?r0\<lparr>rwLogs := [[65]]\<rparr>"
  let ?r2 = "?r0\<lparr>rwLogs := [], rwBuffer := [[65]]\<rparr>"
  let ?r3 = "?r0\<lparr>rwBuffer := [], rwFail := SumM 1, rwSucc := SumM 1\<rparr>"
  note defs = InitServerInfo_def NewRemoteTimeWriter_def rw_SetPrefix_def SetSeparator_def EnablePrefix_def EnableSuffix_def
    NewSum_def remoteLogMaxNumOneTime_def remoteLogQueueSize_def
  have "remote_reach (\<lambda>_. True) ([] @ [[65]]) ?r1 []"
    by (rule remote_taken [OF remote_new]) (simp add: rw_Write_def defs)
  then have "remote_reach (\<lambda>_. True) [[65]] ?r1 []" by (simp only: append_Nil)
  then have "remote_reach (\<lambda>_. True) [[65]] ?r2 []"
    by (rule remote_line) (simp add: syncLine_def defs)
  then have "remote_reach (\<lambda>_. True) [[65]] ?r3 [([[65]], True)]"
    by (rule remote_interval) (simp add: syncInterval_def syncBuffer_def recordBatch_def defs)
  then have "remote_reach (\<lambda>_. True) ([[65]] @ [[66]]) (?r3\<lparr>rwLogs := [[66]]\<rparr>) [([[65]], True)]"
    by (rule remote_taken) (simp add: rw_Write_def defs)
  then show ?thesis by auto
qed

theorem remote_logs_conserved_witness:
  "\<exists>rw. remote_reach (\<lambda>_. True) [[65], [66]] rw [([[65]], True)] \<and> rwBuffer rw @ rwLogs rw = [[66]]
     \<and> rwSucc rw = SumM 1 \<and> rwFail rw = SumM 1"
proof -
  obtain rw where r: "remote_reach (\<lambda>_. True) [[65], [66]] rw [([[65]], True)]" using demo_remote by blast
  then show ?thesis using remote_logs_conserved [OF r] by (intro exI [of _ rw]) simp
qed

end
